(* ===== verification/Prelude.thy ===== *)
theory Prelude
  imports Main "HOL-Library.Word" "HOL-Library.Char_ord" "HOL-Library.List_Lexorder"
    "HOL-Library.Product_Lexorder"
begin

text \<open>
  What every component shares: the exceptions the C++ code throws and a result type for
  fallible operations, the character classes of the C locale (\<open>isspace\<close>, \<open>isalnum\<close>, ...),
  the decimal and hexadecimal rendering of numbers, \<open>std::stoll\<close>, and the generic lemmas
  on results, lists and searches that the component proofs use.
\<close>

section \<open>Exceptions and results\<close>

text \<open>
  One constructor per exception class of the standard library that the code throws; the
  string is the message of the source.
\<close>

datatype exn =
    RuntimeError string
  | InvalidArgument string
  | OutOfRange string

type_synonym 'a result = "exn + 'a"

named_theorems res_simps \<open>inversion of results\<close>

fun rbind :: "('e + 'a) \<Rightarrow> ('a \<Rightarrow> 'e + 'b) \<Rightarrow> 'e + 'b" where
  "rbind (Inl e) f = Inl e"
| "rbind (Inr x) f = f x"

lemma rbind_cong [fundef_cong]:
  "m = m' \<Longrightarrow> (\<And>x. m' = Inr x \<Longrightarrow> f x = f' x) \<Longrightarrow> rbind m f = rbind m' f'"
  by (cases m') auto

lemma rbind_Inr_iff [res_simps]: "rbind m f = Inr y \<longleftrightarrow> (\<exists>x. m = Inr x \<and> f x = Inr y)"
  by (cases m) auto

lemma rbind_Inl_iff [res_simps]:
  "rbind m f = Inl e \<longleftrightarrow> m = Inl e \<or> (\<exists>x. m = Inr x \<and> f x = Inl e)"
  by (cases m) auto

lemma rbind_assoc: "rbind (rbind m f) g = rbind m (\<lambda>x. rbind (f x) g)"
  by (cases m) auto

text \<open>A guard: \<open>if (!b) throw e;\<close>\<close>

definition require :: "bool \<Rightarrow> 'e \<Rightarrow> 'e + unit" where
  "require b e = (if b then Inr () else Inl e)"

lemma require_Inr_iff [res_simps]: "require b e = Inr u \<longleftrightarrow> b"
  by (simp add: require_def)

lemma require_Inl_iff [res_simps]: "require b e = Inl x \<longleftrightarrow> \<not> b \<and> x = e"
  by (auto simp: require_def)

lemma require_simps [simp]: "require True e = Inr ()" "require False e = Inl e"
  by (simp_all add: require_def)

text \<open>A \<open>for\<close> loop over a state that may throw, and the loop that builds a vector.\<close>

fun fold_res :: "('a \<Rightarrow> 's \<Rightarrow> 'e + 's) \<Rightarrow> 'a list \<Rightarrow> 's \<Rightarrow> 'e + 's" where
  "fold_res f [] s = Inr s"
| "fold_res f (x # xs) s = rbind (f x s) (fold_res f xs)"

fun map_res :: "('a \<Rightarrow> 'e + 'b) \<Rightarrow> 'a list \<Rightarrow> 'e + 'b list" where
  "map_res f [] = Inr []"
| "map_res f (x # xs) = rbind (f x) (\<lambda>y. rbind (map_res f xs) (\<lambda>ys. Inr (y # ys)))"

lemma fold_res_cong [fundef_cong]:
  "xs = ys \<Longrightarrow> s = t \<Longrightarrow> (\<And>x u. x \<in> set ys \<Longrightarrow> f x u = g x u) \<Longrightarrow>
    fold_res f xs s = fold_res g ys t"
proof (induction xs arbitrary: ys s t)
  case (Cons x xs)
  then show ?case
    by (auto intro!: rbind_cong)
qed simp

lemma fold_res_append:
  "fold_res f (xs @ ys) s = rbind (fold_res f xs s) (fold_res f ys)"
  by (induction xs arbitrary: s) (auto simp: rbind_assoc intro!: rbind_cong)

lemma fold_res_invariant:
  assumes "fold_res f xs s = Inr t" and "P s"
    and "\<And>x u v. x \<in> set xs \<Longrightarrow> P u \<Longrightarrow> f x u = Inr v \<Longrightarrow> P v"
  shows "P t"
  using assms
proof (induction xs arbitrary: s)
  case (Cons x xs)
  then obtain u where "f x s = Inr u" and "fold_res f xs u = Inr t"
    by (auto simp: res_simps)
  with Cons show ?case
    by (metis list.set_intros)
qed simp

lemma map_res_Inr_iff [res_simps]:
  "map_res f xs = Inr ys \<longleftrightarrow> list_all2 (\<lambda>x y. f x = Inr y) xs ys"
proof (induction xs arbitrary: ys)
  case (Cons x xs)
  then show ?case
    by (cases ys) (auto simp: res_simps)
qed auto

lemma map_res_Inl:
  "map_res f xs = Inl e \<Longrightarrow> \<exists>x \<in> set xs. f x = Inl e"
  by (induction xs) (auto simp: res_simps)

lemma list_all2_conj_left:
  "list_all2 P xs ys \<Longrightarrow> (\<And>x y. x \<in> set xs \<Longrightarrow> P x y \<Longrightarrow> Q x y) \<Longrightarrow> list_all2 Q xs ys"
  by (rule list.rel_mono_strong)

lemma list_all2_map_eq:
  "list_all2 (\<lambda>x y. g y = h x) xs ys \<Longrightarrow> map g ys = map h xs"
  by (induction rule: list_all2_induct) auto

section \<open>Characters of the C locale\<close>

text \<open>
  The classes of \<open><cctype>\<close> in the C locale, on the value of the \<open>unsigned char\<close>; they are
  false above 127.
\<close>

definition chr_code :: "char \<Rightarrow> nat" where
  "chr_code c = of_char c"

abbreviation newline :: char where "newline \<equiv> CHR 0x0A"
abbreviation nul :: char where "nul \<equiv> CHR 0x00"

definition is_space :: "char \<Rightarrow> bool" where
  "is_space c \<longleftrightarrow> (9 \<le> chr_code c \<and> chr_code c \<le> 13) \<or> chr_code c = 32"

definition is_digit :: "char \<Rightarrow> bool" where
  "is_digit c \<longleftrightarrow> 48 \<le> chr_code c \<and> chr_code c \<le> 57"

definition is_upper :: "char \<Rightarrow> bool" where
  "is_upper c \<longleftrightarrow> 65 \<le> chr_code c \<and> chr_code c \<le> 90"

definition is_lower :: "char \<Rightarrow> bool" where
  "is_lower c \<longleftrightarrow> 97 \<le> chr_code c \<and> chr_code c \<le> 122"

definition is_alpha :: "char \<Rightarrow> bool" where
  "is_alpha c \<longleftrightarrow> is_upper c \<or> is_lower c"

definition is_alnum :: "char \<Rightarrow> bool" where
  "is_alnum c \<longleftrightarrow> is_alpha c \<or> is_digit c"

definition is_punct :: "char \<Rightarrow> bool" where
  "is_punct c \<longleftrightarrow> 33 \<le> chr_code c \<and> chr_code c \<le> 126 \<and> \<not> is_alnum c"

definition to_upper :: "char \<Rightarrow> char" where
  "to_upper c = (if is_lower c then char_of (chr_code c - 32) else c)"

definition to_lower :: "char \<Rightarrow> char" where
  "to_lower c = (if is_upper c then char_of (chr_code c + 32) else c)"

lemmas chr_class_defs =
  is_space_def is_digit_def is_upper_def is_lower_def is_alpha_def is_alnum_def is_punct_def

lemma chr_code_char_of [simp]: "n < 256 \<Longrightarrow> chr_code (char_of n) = n"
  by (simp add: chr_code_def)

lemma chr_code_less [simp]: "chr_code c < 256"
  by (simp add: chr_code_def)

lemma chr_code_inject: "chr_code a = chr_code b \<longleftrightarrow> a = b"
  by (simp add: chr_code_def)

lemma chr_code_to_upper:
  "chr_code (to_upper c) = (if is_lower c then chr_code c - 32 else chr_code c)"
  using chr_code_less [of c] by (simp add: to_upper_def del: chr_code_less)

lemma chr_code_to_lower:
  "chr_code (to_lower c) = (if is_upper c then chr_code c + 32 else chr_code c)"
  using chr_code_less [of c] by (simp add: to_lower_def is_upper_def del: chr_code_less)

lemma to_upper_idem [simp]: "to_upper (to_upper c) = to_upper c"
  by (auto simp: chr_code_inject [symmetric] chr_code_to_upper chr_class_defs)

lemma to_lower_idem [simp]: "to_lower (to_lower c) = to_lower c"
  by (auto simp: chr_code_inject [symmetric] chr_code_to_lower chr_class_defs)

lemma is_space_to_upper [simp]: "is_space (to_upper c) = is_space c"
  by (auto simp: chr_class_defs chr_code_to_upper)

lemma is_alnum_to_upper [simp]: "is_alnum (to_upper c) = is_alnum c"
  by (auto simp: chr_class_defs chr_code_to_upper)

lemma is_alnum_not_space: "is_alnum c \<Longrightarrow> \<not> is_space c"
  by (auto simp: chr_class_defs)

section \<open>Numbers as text\<close>

definition digit_chr :: "nat \<Rightarrow> char" where
  "digit_chr d = char_of (48 + d)"

text \<open>\<open>std::to_string\<close> on integers.\<close>

fun show_nat :: "nat \<Rightarrow> string" where
  "show_nat n = (if n < 10 then [digit_chr n] else show_nat (n div 10) @ [digit_chr (n mod 10)])"

declare show_nat.simps [simp del]

definition show_int :: "int \<Rightarrow> string" where
  "show_int i = (if i < 0 then CHR ''-'' # show_nat (nat (- i)) else show_nat (nat i))"

fun digits_value :: "nat \<Rightarrow> string \<Rightarrow> nat" where
  "digits_value acc [] = acc"
| "digits_value acc (c # cs) = digits_value (10 * acc + (chr_code c - 48)) cs"

lemma digits_value_append:
  "digits_value acc (xs @ ys) = digits_value (digits_value acc xs) ys"
  by (induction xs arbitrary: acc) auto

lemma chr_code_digit_chr: "d < 10 \<Longrightarrow> chr_code (digit_chr d) = 48 + d"
  by (simp add: digit_chr_def)

lemma is_digit_digit_chr: "d < 10 \<Longrightarrow> is_digit (digit_chr d)"
  by (simp add: is_digit_def chr_code_digit_chr)

lemma show_nat_nonempty [simp]: "show_nat n \<noteq> []"
  by (subst show_nat.simps) simp

lemma show_nat_digits: "c \<in> set (show_nat n) \<Longrightarrow> is_digit c"
proof (induction n rule: show_nat.induct)
  case (1 n)
  then show ?case
    by (subst (asm) (2) show_nat.simps) (auto simp: is_digit_digit_chr split: if_splits)
qed

lemma digits_value_show_nat [simp]: "digits_value 0 (show_nat n) = n"
proof (induction n rule: show_nat.induct)
  case (1 n)
  then show ?case
    by (subst show_nat.simps) (auto simp: digits_value_append chr_code_digit_chr)
qed

lemma show_nat_inject: "show_nat m = show_nat n \<longleftrightarrow> m = n"
  by (metis digits_value_show_nat)

text \<open>
  The values of \<open>std::int64_t\<close>, and \<open>std::stoll(s, &used, 10)\<close>: leading white space, an
  optional sign, the longest run of digits; \<open>invalid_argument\<close> when there is no digit,
  \<open>out_of_range\<close> outside 64 bits; the second component is the number of characters read.
\<close>

definition int64_min :: int where "int64_min = - (2 ^ 63)"
definition int64_max :: int where "int64_max = 2 ^ 63 - 1"

definition in_int64 :: "int \<Rightarrow> bool" where
  "in_int64 i \<longleftrightarrow> int64_min \<le> i \<and> i \<le> int64_max"

lemmas int64_defs = int64_min_def int64_max_def in_int64_def

definition read_sign :: "string \<Rightarrow> bool \<times> string" where
  "read_sign s = (case s of [] \<Rightarrow> (False, [])
     | c # cs \<Rightarrow> if c = CHR ''-'' then (True, cs) else if c = CHR ''+'' then (False, cs)
                else (False, s))"

definition stoll :: "string \<Rightarrow> (int \<times> nat) result" where
  "stoll s =
     (let (neg, body) = read_sign (dropWhile is_space s);
          ds = takeWhile is_digit body;
          n = int (digits_value 0 ds);
          v = (if neg then - n else n)
      in if ds = [] then Inl (InvalidArgument ''stoll'')
         else if \<not> in_int64 v then Inl (OutOfRange ''stoll'')
         else Inr (v, length s - length body + length ds))"

lemma is_digit_not_space: "is_digit c \<Longrightarrow> \<not> is_space c"
  by (auto simp: chr_class_defs)

lemma digit_not_sign: "is_digit c \<Longrightarrow> c \<noteq> CHR ''-'' \<and> c \<noteq> CHR ''+''"
  by (auto simp: is_digit_def chr_code_def)

lemma show_int_not_space: "c \<in> set (show_int i) \<Longrightarrow> \<not> is_space c"
  by (auto simp: show_int_def is_digit_not_space show_nat_digits split: if_splits)
    (simp add: is_space_def chr_code_def)

lemma show_int_nonempty [simp]: "show_int i \<noteq> []"
  by (simp add: show_int_def)

lemma takeWhile_all: "(\<And>x. x \<in> set xs \<Longrightarrow> P x) \<Longrightarrow> takeWhile P xs = xs"
  by (simp add: takeWhile_eq_all_conv)

lemma dropWhile_head: "(xs \<noteq> [] \<Longrightarrow> \<not> P (hd xs)) \<Longrightarrow> dropWhile P xs = xs"
  by (cases xs) auto

lemma read_sign_show_int:
  "read_sign (show_int i) = (i < 0, show_nat (nat \<bar>i\<bar>))"
proof (cases "i < 0")
  case True
  then show ?thesis by (simp add: read_sign_def show_int_def)
next
  case False
  obtain c cs where c: "show_nat (nat i) = c # cs"
    by (cases "show_nat (nat i)") auto
  then have "is_digit c" using show_nat_digits [of c "nat i"] by simp
  with False c show ?thesis
    using digit_not_sign by (auto simp: read_sign_def show_int_def)
qed

lemma stoll_show_int:
  assumes "in_int64 i"
  shows "stoll (show_int i) = Inr (i, length (show_int i))"
proof -
  have 1: "dropWhile is_space (show_int i) = show_int i"
    by (rule dropWhile_head) (meson hd_in_set show_int_not_space)
  have 2: "takeWhile is_digit (show_nat n) = show_nat n" for n
    by (rule takeWhile_all) (rule show_nat_digits)
  show ?thesis
    unfolding stoll_def 1 read_sign_show_int using assms
    by (auto simp: 2 show_int_def)
qed

text \<open>Hexadecimal digits, lower case, as \<open>std::hex\<close> writes them.\<close>

definition hex_chr :: "nat \<Rightarrow> char" where
  "hex_chr d = (if d < 10 then char_of (48 + d) else char_of (87 + d))"

fun hex_fixed :: "nat \<Rightarrow> nat \<Rightarrow> string" where
  "hex_fixed 0 n = []"
| "hex_fixed (Suc w) n = hex_fixed w (n div 16) @ [hex_chr (n mod 16)]"

lemma length_hex_fixed [simp]: "length (hex_fixed w n) = w"
  by (induction w arbitrary: n) auto

lemma hex_chr_inject: "a < 16 \<Longrightarrow> b < 16 \<Longrightarrow> hex_chr a = hex_chr b \<longleftrightarrow> a = b"
proof -
  assume "a < 16" "b < 16"
  then have "chr_code (hex_chr a) = chr_code (hex_chr b) \<longleftrightarrow> a = b"
    by (auto simp: hex_chr_def)
  then show ?thesis by (simp add: chr_code_inject)
qed

lemma hex_fixed_inject:
  "m < 16 ^ w \<Longrightarrow> n < 16 ^ w \<Longrightarrow> hex_fixed w m = hex_fixed w n \<longleftrightarrow> m = n"
proof (induction w arbitrary: m n)
  case (Suc w)
  have "m div 16 < 16 ^ w" "n div 16 < 16 ^ w"
    using Suc.prems by (simp_all add: less_mult_imp_div_less mult.commute)
  with Suc.IH have "hex_fixed w (m div 16) = hex_fixed w (n div 16) \<longleftrightarrow> m div 16 = n div 16"
    by blast
  then show ?case
    by (simp add: hex_chr_inject) (metis div_mult_mod_eq)
qed simp

section \<open>Validation loops\<close>

text \<open>
  The loop of the validators: check an element, reject it when its key was seen, check it
  again, remember the key. Each use instantiates the two checks and the duplicate error.
\<close>

fun unique_loop ::
  "('a \<Rightarrow> 'e + unit) \<Rightarrow> ('a \<Rightarrow> 'k) \<Rightarrow> ('a \<Rightarrow> 'e) \<Rightarrow> ('a \<Rightarrow> 'e + unit) \<Rightarrow> 'k set \<Rightarrow> 'a list \<Rightarrow> 'e + unit"
where
  "unique_loop pre key dup post seen [] = Inr ()"
| "unique_loop pre key dup post seen (x # xs) =
     rbind (pre x) (\<lambda>_. if key x \<in> seen then Inl (dup x)
       else rbind (post x) (\<lambda>_. unique_loop pre key dup post (insert (key x) seen) xs))"

lemma unique_loop_iff:
  "unique_loop pre key dup post seen xs = Inr u \<longleftrightarrow>
     (\<forall>x \<in> set xs. pre x = Inr () \<and> post x = Inr ()) \<and> distinct (map key xs) \<and>
     key ` set xs \<inter> seen = {}"
  by (induction xs arbitrary: seen) (auto simp: res_simps)

text \<open>The first index of an element, the search loops of the graph and the ledger.\<close>

fun index_of :: "'a \<Rightarrow> 'a list \<Rightarrow> nat option" where
  "index_of x [] = None"
| "index_of x (y # ys) = (if y = x then Some 0 else map_option Suc (index_of x ys))"

lemma index_of_Some: "index_of x xs = Some i \<Longrightarrow> i < length xs \<and> xs ! i = x"
  by (induction xs arbitrary: i) (auto split: if_splits)

lemma index_of_None: "index_of x xs = None \<longleftrightarrow> x \<notin> set xs"
  by (induction xs) auto

lemma index_of_distinct:
  "distinct xs \<Longrightarrow> i < length xs \<Longrightarrow> index_of (xs ! i) xs = Some i"
proof (induction xs arbitrary: i)
  case (Cons y ys)
  then show ?case by (cases i) auto
qed simp

lemma find_Some_D: "List.find P xs = Some x \<Longrightarrow> x \<in> set xs \<and> P x"
  by (auto simp: find_Some_iff)

lemma find_distinct_key:
  "distinct (map key xs) \<Longrightarrow> x \<in> set xs \<Longrightarrow> List.find (\<lambda>y. key y = key x) xs = Some x"
  by (induction xs) (auto simp: rev_image_eqI)


section \<open>Separated text\<close>

text \<open>
  A field that does not contain the separator behind it is determined by the text. The
  canonical texts that are hashed consist of such fields.
\<close>

lemma sep_inject:
  "c \<notin> set a \<Longrightarrow> c \<notin> set b \<Longrightarrow> a @ c # r = b @ c # s \<longleftrightarrow> a = b \<and> r = s"
proof (induction a arbitrary: b)
  case Nil
  then show ?case by (cases b) auto
next
  case (Cons x xs)
  then show ?case by (cases b) auto
qed

lemma show_nat_no_char: "\<not> is_digit c \<Longrightarrow> c \<notin> set (show_nat n)"
  using show_nat_digits by blast

lemma show_int_no_char: "\<not> is_digit c \<Longrightarrow> c \<noteq> CHR ''-'' \<Longrightarrow> c \<notin> set (show_int i)"
  by (auto simp: show_int_def show_nat_no_char)

lemma show_int_inject: "show_int i = show_int j \<longleftrightarrow> i = j"
proof
  assume eq: "show_int i = show_int j"
  have "CHR ''-'' \<notin> set (show_nat n)" for n
    by (rule show_nat_no_char) (simp add: is_digit_def chr_code_def)
  with eq show "i = j"
    by (auto simp: show_int_def show_nat_inject split: if_splits)
      (metis list.set_intros(1))+
qed simp

section \<open>Lookup by a unique key\<close>

text \<open>
  The contract of the components that keep a list of items and look one up by its key: a
  lookup only returns an item with the key, and finds every item of a well-formed collection.
\<close>

locale keyed_lookup =
  fixes items :: "'c \<Rightarrow> 'a list"
    and key :: "'a \<Rightarrow> 'k"
    and lookup :: "'c \<Rightarrow> 'k \<Rightarrow> 'a option"
    and wf :: "'c \<Rightarrow> bool"
  assumes lookup_sound: "lookup c k = Some x \<Longrightarrow> x \<in> set (items c) \<and> key x = k"
    and lookup_item: "wf c \<Longrightarrow> x \<in> set (items c) \<Longrightarrow> lookup c (key x) = Some x"
begin

lemma lookup_iff: "wf c \<Longrightarrow> lookup c k = Some x \<longleftrightarrow> x \<in> set (items c) \<and> key x = k"
  using lookup_sound lookup_item by blast

lemma lookup_None_iff: "wf c \<Longrightarrow> lookup c k = None \<longleftrightarrow> k \<notin> key ` set (items c)"
  using lookup_sound [of c k] lookup_item [of c] by (cases "lookup c k") auto

lemma lookup_permuted:
  assumes "wf c" "wf d" "set (items c) = set (items d)"
  shows "lookup c k = lookup d k"
  using lookup_iff [OF assms(1), of k] lookup_iff [OF assms(2), of k] assms(3)
  by (cases "lookup c k"; cases "lookup d k") auto

end

end
