(* ===== verification/Bnf_Types.thy ===== *)
theory Bnf_Types
  imports Prelude
begin

unbundle bit_operations_syntax

text \<open>
  \<open>src/include/piaabo/parse/bnf/parser_types.h\<close> and its \<open>.cpp\<close>: the units, alternatives, rules
  and grammars of the BNF engine, their rendering, and the lookup of a rule.

  The tag of an alternative and the variant it selects are one datatype: the two constructors of
  the class set both together. The flags are the bits of an \<open>int\<close>.
\<close>

section \<open>Colours\<close>

definition ansi :: "string \<Rightarrow> string" where
  "ansi code = CHR 0x1B # CHR ''['' # code @ ''m''"

definition ANSI_COLOR_RESET :: string where "ANSI_COLOR_RESET = ansi ''0''"
definition ANSI_COLOR_Yellow :: string where "ANSI_COLOR_Yellow = ansi ''33''"
definition ANSI_COLOR_Cyan :: string where "ANSI_COLOR_Cyan = ansi ''36''"
definition ANSI_COLOR_Bright_Red :: string where "ANSI_COLOR_Bright_Red = ansi ''91''"
definition ANSI_COLOR_Bright_Green :: string where "ANSI_COLOR_Bright_Green = ansi ''92''"
definition ANSI_COLOR_Dim_Gray :: string where "ANSI_COLOR_Dim_Gray = ansi ''2;90''"
definition ANSI_COLOR_Dim_Green :: string where "ANSI_COLOR_Dim_Green = ansi ''2;92''"
definition ANSI_COLOR_Dim_Yellow :: string where "ANSI_COLOR_Dim_Yellow = ansi ''2;93''"
definition ANSI_COLOR_Dim_Cyan :: string where "ANSI_COLOR_Dim_Cyan = ansi ''2;96''"

section \<open>Units\<close>

datatype production_unit_type =
  Terminal | NonTerminal | OptionalUnit | Repetition | Punctuation | EndOfFile | Undetermined

record production_unit =
  pu_type :: production_unit_type
  pu_lexeme :: string
  pu_line :: int
  pu_column :: int

definition default_unit :: production_unit where
  "default_unit = \<lparr>pu_type = Undetermined, pu_lexeme = [], pu_line = 1, pu_column = 1\<rparr>"

definition unit_type_name :: "production_unit_type \<Rightarrow> string" where
  "unit_type_name t = (case t of Terminal \<Rightarrow> ''Terminal'' | NonTerminal \<Rightarrow> ''NonTerminal''
     | OptionalUnit \<Rightarrow> ''Optional'' | Repetition \<Rightarrow> ''Repetition'' | Punctuation \<Rightarrow> ''Punctuation''
     | EndOfFile \<Rightarrow> ''EndOfFile'' | Undetermined \<Rightarrow> ''Undetermined'')"

definition unit_str :: "bool \<Rightarrow> production_unit \<Rightarrow> string" where
  "unit_str verbose u =
     (if verbose then ANSI_COLOR_Dim_Cyan @ unit_type_name (pu_type u) @ '':'' @ ANSI_COLOR_RESET @ '' '' else []) @
     (case pu_type u of Undetermined \<Rightarrow> ''null'' | _ \<Rightarrow> pu_lexeme u) @ '' ''"

section \<open>Alternatives\<close>

type_synonym flags = int

definition FlagNone :: flags where "FlagNone = 0"
definition FlagRecursion :: flags where "FlagRecursion = 1"
definition FlagOptional :: flags where "FlagOptional = 2"
definition FlagRepetition :: flags where "FlagRepetition = 4"

definition flag_or :: "flags \<Rightarrow> flags \<Rightarrow> flags" where
  "flag_or a b = a OR b"

definition flag_and :: "flags \<Rightarrow> flags \<Rightarrow> flags" where
  "flag_and a b = a AND b"

definition flag_not :: "flags \<Rightarrow> flags" where
  "flag_not a = NOT a"

datatype alternative_content = Single production_unit | Sequence "production_unit list" | UnknownContent

record production_alternative =
  pa_lhs :: string
  pa_flags :: flags
  pa_content :: alternative_content

definition alternative_str :: "bool \<Rightarrow> production_alternative \<Rightarrow> string" where
  "alternative_str verbose a = (case pa_content a of
       Single u \<Rightarrow>
         (if verbose then ANSI_COLOR_Dim_Cyan @ ''Single:'' @ ANSI_COLOR_RESET @ '' '' else []) @
         unit_str verbose u @ '' ''
     | Sequence us \<Rightarrow>
         (if verbose then ANSI_COLOR_Dim_Cyan @ ''Sequence:'' @ ANSI_COLOR_RESET @ '' '' else []) @
         concat (map (\<lambda>u. unit_str verbose u @ '' '') us)
     | UnknownContent \<Rightarrow> ANSI_COLOR_Dim_Cyan @ ''Unknown!'' @ ANSI_COLOR_RESET @ '' '')"

section \<open>Rules and grammars\<close>

record production_rule =
  pr_lhs :: string
  pr_rhs :: "production_alternative list"

fun join_alternatives :: "string list \<Rightarrow> string" where
  "join_alternatives [] = []"
| "join_alternatives [a] = a"
| "join_alternatives (a # as) = a @ '' | '' @ join_alternatives as"

definition rule_str :: "bool \<Rightarrow> production_rule \<Rightarrow> string" where
  "rule_str verbose r =
     pr_lhs r @ '' ::= '' @ join_alternatives (map (alternative_str verbose) (pr_rhs r)) @ '' ; ''"

type_synonym production_grammar = "production_rule list"

definition get_rule :: "production_grammar \<Rightarrow> string \<Rightarrow> production_rule result" where
  "get_rule g l = (case List.find (\<lambda>r. pr_lhs r = l) g of
       Some r \<Rightarrow> Inr r
     | None \<Rightarrow> Inl (InvalidArgument (''No production rule found with lhs: '' @ l)))"

text \<open>\<open>substr(1, size() - 2)\<close>: the length wraps to a huge one when the string has one character.\<close>

definition strip_ends :: "string \<Rightarrow> string result" where
  "strip_ends s = (if s = [] then Inl (OutOfRange ''basic_string::substr'')
     else Inr (if length s = 1 then [] else take (length s - 2) (tl s)))"

definition get_rule_of_unit :: "production_grammar \<Rightarrow> production_unit \<Rightarrow> production_rule result" where
  "get_rule_of_unit g u =
     (if pu_type u = OptionalUnit \<and> pu_lexeme u \<noteq> [] \<and> hd (pu_lexeme u) = CHR ''['' \<and> last (pu_lexeme u) = CHR '']''
      then rbind (strip_ends (pu_lexeme u)) (get_rule g) else get_rule g (pu_lexeme u))"

definition get_rule_at :: "production_grammar \<Rightarrow> nat \<Rightarrow> production_rule result" where
  "get_rule_at g i = (if i < length g then Inr (g ! i)
     else Inl (OutOfRange (''Rule index out of range: '' @ show_nat i)))"

definition units_of_content :: "alternative_content \<Rightarrow> production_unit list" where
  "units_of_content c = (case c of Single u \<Rightarrow> [u] | Sequence us \<Rightarrow> us | UnknownContent \<Rightarrow> [])"

definition grammar_alternative_str :: "string \<Rightarrow> production_alternative \<Rightarrow> string" where
  "grammar_alternative_str indent a = indent @ CHR 0x09 # ''Alternative: '' @
     (case pa_content a of
        Sequence us \<Rightarrow> concat (map (\<lambda>u. unit_str False u @ '' '') us)
      | Single u \<Rightarrow> unit_str False u @ '' ''
      | UnknownContent \<Rightarrow> CHR 0x09 # '' Unknown! '') @ [newline]"

definition grammar_str :: "nat \<Rightarrow> production_grammar \<Rightarrow> string" where
  "grammar_str indentLevel g =
     (let indent = replicate (4 * indentLevel) CHR '' '' in
      concat (map (\<lambda>r. indent @ '' Rule : '' @ pr_lhs r @ [newline] @
        concat (map (grammar_alternative_str indent) (pr_rhs r))) g))"

section \<open>Facts\<close>

definition unique_rules :: "production_grammar \<Rightarrow> bool" where
  "unique_rules g \<longleftrightarrow> distinct (map pr_lhs g)"

definition find_rule :: "production_grammar \<Rightarrow> string \<Rightarrow> production_rule option" where
  "find_rule g l = List.find (\<lambda>r. pr_lhs r = l) g"

interpretation rule_lookup: keyed_lookup "\<lambda>g. g" pr_lhs find_rule unique_rules
  by unfold_locales (auto simp: find_rule_def unique_rules_def find_distinct_key dest: find_Some_D)

lemma get_rule_Inr_iff: "get_rule g l = Inr r \<longleftrightarrow> find_rule g l = Some r"
  by (auto simp: get_rule_def find_rule_def split: option.splits)

lemma get_rule_sound: "get_rule g l = Inr r \<Longrightarrow> r \<in> set g \<and> pr_lhs r = l"
  unfolding get_rule_Inr_iff by (rule rule_lookup.lookup_sound)

lemma strip_ends_enclosed [simp]: "strip_ends (a # s @ [b]) = Inr s"
  by (simp add: strip_ends_def)

lemma flag_bits:
  "flag_and (flag_or a b) FlagRecursion = flag_or (flag_and a FlagRecursion) (flag_and b FlagRecursion)"
  by (simp add: flag_and_def flag_or_def bit.conj_disj_distrib2)

end
