(* ===== verification/Bnf_Lexer.thy ===== *)
theory Bnf_Lexer
  imports Bnf_Types
begin

text \<open>
  \<open>src/include/piaabo/parse/bnf/grammar_lexer.h\<close> and its \<open>.cpp\<close>: the lexer of grammar files.
  A lexer is its input with a position, a line and a column; every operation returns the lexer it
  leaves behind. Loops over the input are recursive functions that end because the position grows.
  Line and column are unbounded here: a 32-bit \<open>int\<close> holds them on inputs of less than 2 GiB.
\<close>

section \<open>Character sources\<close>

text \<open>
  What scanning loops rely on, in this lexer and in the lexer of instructions: the characters not
  yet read.
\<close>

locale char_source =
  fixes at_end :: "'l \<Rightarrow> bool" and peek_chr :: "'l \<Rightarrow> char" and step :: "'l \<Rightarrow> 'l"
    and remaining :: "'l \<Rightarrow> string"
  assumes at_end_iff: "at_end l \<longleftrightarrow> remaining l = []"
    and peek_hd: "remaining l \<noteq> [] \<Longrightarrow> peek_chr l = hd (remaining l)"
    and step_tl: "remaining l \<noteq> [] \<Longrightarrow> remaining (step l) = tl (remaining l)"
begin

lemma remaining_step: "\<not> at_end l \<Longrightarrow> remaining l = peek_chr l # remaining (step l)"
  by (simp add: at_end_iff peek_hd step_tl)

lemma step_shorter: "\<not> at_end l \<Longrightarrow> length (remaining (step l)) < length (remaining l)"
  by (simp add: at_end_iff step_tl)

lemma skip_while:
  assumes loop: "\<And>l. skip l = (if \<not> at_end l \<and> P (peek_chr l) then skip (step l) else l)"
  shows "remaining (skip l) = dropWhile P (remaining l)"
proof (induction "length (remaining l)" arbitrary: l rule: less_induct)
  case less
  show ?case
  proof (cases "at_end l")
    case True
    then show ?thesis by (subst loop) (simp add: at_end_iff)
  next
    case False
    then show ?thesis
      using less [OF step_shorter [OF False]] remaining_step [OF False] by (subst loop) auto
  qed
qed

lemma scan_while:
  assumes loop: "\<And>l acc. scan l acc =
      (if \<not> at_end l \<and> P (peek_chr l) then scan (step l) (acc @ [peek_chr l]) else (acc, l))"
  shows "fst (scan l acc) = acc @ takeWhile P (remaining l) \<and> remaining (snd (scan l acc)) = dropWhile P (remaining l)"
proof (induction "length (remaining l)" arbitrary: l acc rule: less_induct)
  case less
  show ?case
  proof (cases "at_end l")
    case True
    then show ?thesis by (subst (1 2) loop) (simp add: at_end_iff)
  next
    case False
    then show ?thesis
      using less [OF step_shorter [OF False]] remaining_step [OF False] by (subst (1 2) loop) auto
  qed
qed

end

section \<open>The lexer\<close>

record grammar_lexer =
  gl_input :: string
  gl_pos :: nat
  gl_line :: int
  gl_column :: int

definition make_grammar_lexer :: "string \<Rightarrow> grammar_lexer" where
  "make_grammar_lexer s = \<lparr>gl_input = s, gl_pos = 0, gl_line = 1, gl_column = 1\<rparr>"

definition gl_set_position :: "nat \<Rightarrow> grammar_lexer \<Rightarrow> grammar_lexer" where
  "gl_set_position p l = l\<lparr>gl_pos := p\<rparr>"

definition gl_reset :: "grammar_lexer \<Rightarrow> grammar_lexer" where
  "gl_reset l = (gl_set_position 0 l)\<lparr>gl_line := 1, gl_column := 1\<rparr>"

definition gl_at_end :: "grammar_lexer \<Rightarrow> bool" where
  "gl_at_end l \<longleftrightarrow> length (gl_input l) \<le> gl_pos l"

definition gl_peek :: "grammar_lexer \<Rightarrow> char" where
  "gl_peek l = (if gl_at_end l then nul else gl_input l ! gl_pos l)"

definition gl_update_position :: "char \<Rightarrow> grammar_lexer \<Rightarrow> grammar_lexer" where
  "gl_update_position ch l =
     (if ch = newline then l\<lparr>gl_line := gl_line l + 1, gl_column := 1\<rparr>
      else l\<lparr>gl_column := gl_column l + 1\<rparr>)"

definition gl_advance :: "grammar_lexer \<Rightarrow> char \<times> grammar_lexer" where
  "gl_advance l =
     (if gl_at_end l then (nul, l)
      else let currentChar = gl_input l ! gl_pos l
        in (currentChar, gl_update_position currentChar (l\<lparr>gl_pos := gl_pos l + 1\<rparr>)))"

abbreviation gl_step :: "grammar_lexer \<Rightarrow> grammar_lexer" where
  "gl_step l \<equiv> snd (gl_advance l)"

definition gl_rest :: "grammar_lexer \<Rightarrow> string" where
  "gl_rest l = drop (gl_pos l) (gl_input l)"

lemma gl_advance_chr [simp]: "fst (gl_advance l) = gl_peek l"
  by (simp add: gl_advance_def gl_peek_def Let_def)

interpretation gl: char_source gl_at_end gl_peek gl_step gl_rest
proof
  fix l
  show "gl_at_end l \<longleftrightarrow> gl_rest l = []" by (simp add: gl_at_end_def gl_rest_def)
  assume "gl_rest l \<noteq> []"
  then have "gl_pos l < length (gl_input l)" by (simp add: gl_rest_def)
  then show "gl_peek l = hd (gl_rest l)" "gl_rest (gl_step l) = tl (gl_rest l)"
    by (simp_all add: gl_peek_def gl_at_end_def gl_rest_def hd_drop_conv_nth gl_advance_def
        gl_update_position_def Let_def drop_Suc tl_drop)
qed

text \<open>\<open>while (!isAtEnd() && p(peek())) lexeme += advance();\<close>\<close>

function gl_scan :: "(char \<Rightarrow> bool) \<Rightarrow> grammar_lexer \<Rightarrow> string \<Rightarrow> string \<times> grammar_lexer" where
  "gl_scan p l lexeme =
     (if \<not> gl_at_end l \<and> p (gl_peek l) then gl_scan p (gl_step l) (lexeme @ [fst (gl_advance l)])
      else (lexeme, l))"
  by pat_completeness auto
termination
  by (relation "measure (\<lambda>(p, l, acc). length (gl_rest l))") (auto simp: gl.step_shorter)

declare gl_scan.simps [simp del]

lemma gl_scan_result:
  "fst (gl_scan p l acc) = acc @ takeWhile p (gl_rest l) \<and> gl_rest (snd (gl_scan p l acc)) = dropWhile p (gl_rest l)"
  by (rule gl.scan_while) (subst gl_scan.simps, simp)

lemma gl_scan_shorter: "length (gl_rest (snd (gl_scan p l acc))) \<le> length (gl_rest l)"
  by (simp add: gl_scan_result length_dropWhile_le)

text \<open>Whitespace, and the lines whose first character is a semicolon.\<close>

definition gl_skip_comment_line :: "grammar_lexer \<Rightarrow> grammar_lexer" where
  "gl_skip_comment_line l =
     (let l = snd (gl_scan (\<lambda>c. c \<noteq> newline) l []) in
      if \<not> gl_at_end l \<and> gl_peek l = newline then gl_step l else l)"

lemma gl_skip_comment_line_rest:
  "gl_rest (gl_skip_comment_line l) = drop 1 (dropWhile (\<lambda>c. c \<noteq> newline) (gl_rest l))"
proof -
  let ?m = "snd (gl_scan (\<lambda>c. c \<noteq> newline) l [])"
  have m: "gl_rest ?m = dropWhile (\<lambda>c. c \<noteq> newline) (gl_rest l)" by (simp add: gl_scan_result)
  show ?thesis
  proof (cases "gl_rest ?m")
    case Nil
    then show ?thesis by (simp add: gl_skip_comment_line_def Let_def gl.at_end_iff flip: m)
  next
    case (Cons c r)
    then have "c = newline" using hd_dropWhile [of "\<lambda>c. c \<noteq> newline" "gl_rest l"] by (simp add: m)
    with Cons show ?thesis
      by (simp add: gl_skip_comment_line_def Let_def gl.at_end_iff gl.peek_hd gl.step_tl flip: m)
  qed
qed

function gl_skip_whitespace :: "grammar_lexer \<Rightarrow> grammar_lexer" where
  "gl_skip_whitespace l =
     (if gl_at_end l then l
      else let l1 = snd (gl_scan is_space l []) in
        if \<not> gl_at_end l1 \<and> gl_peek l1 = CHR '';'' \<and> gl_column l1 = 1
        then gl_skip_whitespace (gl_skip_comment_line l1) else l1)"
  by pat_completeness auto
termination
proof (relation "measure (length \<circ> gl_rest)", simp, goal_cases)
  case (1 l l1)
  then have ne: "gl_rest l1 = CHR '';'' # gl_rest (gl_step l1)"
    using gl.remaining_step by metis
  have "length (dropWhile (\<lambda>c. c \<noteq> newline) (gl_rest l1)) < length (gl_rest l1)"
    by (simp add: ne le_imp_less_Suc length_dropWhile_le)
  then show ?case
    using gl_scan_shorter [of is_space l "[]"] 1(2) by (simp add: gl_skip_comment_line_rest)
qed

declare gl_skip_whitespace.simps [simp del]

section \<open>Units\<close>

definition at_line_column :: "grammar_lexer \<Rightarrow> string" where
  "at_line_column l = show_int (gl_line l) @ '', column '' @ show_int (gl_column l)"

definition syntax_error :: "string \<Rightarrow> 'a result" where
  "syntax_error msg = Inl (RuntimeError (''Grammar Syntax Error: '' @ msg))"

definition unit_at :: "production_unit_type \<Rightarrow> string \<Rightarrow> grammar_lexer \<Rightarrow> production_unit" where
  "unit_at t s l = \<lparr>pu_type = t, pu_lexeme = s, pu_line = gl_line l, pu_column = gl_column l\<rparr>"

definition parse_non_terminal :: "grammar_lexer \<Rightarrow> (production_unit \<times> grammar_lexer) result" where
  "parse_non_terminal l =
     (if gl_peek l \<noteq> CHR ''<'' then
        syntax_error (''Non-terminals should be enclosed in <>, found unexpected non-terminal at line '' @ at_line_column l)
      else let (c, l1) = gl_advance l; (lexeme, l2) = gl_scan (\<lambda>c. c \<noteq> CHR ''>'') l1 [c] in
        if gl_at_end l2 then syntax_error (''Unterminated non-terminal at line '' @ at_line_column l2)
        else let (c, l3) = gl_advance l2 in Inr (unit_at NonTerminal (lexeme @ [c]) l3, l3))"

text \<open>The \<open>do ... while (peek() != '>')\<close> loop that optionals and repetitions share.\<close>

function enclosed_loop :: "string \<Rightarrow> grammar_lexer \<Rightarrow> string \<Rightarrow> (string \<times> grammar_lexer) result" where
  "enclosed_loop msg l lexeme =
     (let (c, l1) = gl_advance l; lexeme = lexeme @ [c] in
      if gl_at_end l1 then Inl (RuntimeError msg)
      else if gl_peek l1 \<noteq> CHR ''>'' then enclosed_loop msg l1 lexeme
      else Inr (lexeme, l1))"
  by pat_completeness auto
termination
proof (relation "measure (\<lambda>(msg, l, acc). length (gl_rest l))", simp, goal_cases)
  case (1 msg l acc p c l1 lexeme)
  then have "l1 = gl_step l" by (metis snd_conv)
  moreover from this 1 have "\<not> gl_at_end l" by (auto simp: gl_advance_def split: if_splits)
  ultimately show ?case by (simp add: gl.step_shorter)
qed

declare enclosed_loop.simps [simp del]

definition parse_optional :: "grammar_lexer \<Rightarrow> (production_unit \<times> grammar_lexer) result" where
  "parse_optional l =
     (if gl_peek l \<noteq> CHR ''['' then
        syntax_error (''Optionals should be enclosed in [], found unexpected optional at line '' @ at_line_column l)
      else let l1 = gl_step l in
        if gl_peek l1 \<noteq> CHR ''<'' then Inl (RuntimeError ''... Optionals should enclose Non-Terminals [<example>] ...'')
        else rbind (enclosed_loop ''... Unterminated optional ...'' l1 []) (\<lambda>(lexeme, l2).
          let (c, l3) = gl_advance l2; lexeme = lexeme @ [c] in
          if gl_peek l3 \<noteq> CHR '']'' then Inl (RuntimeError (''... Missing closing '' @ CHR 0x27 # '']'' @ CHR 0x27 # '' for optional ...''))
          else Inr (unit_at OptionalUnit (''['' @ lexeme @ '']'') l, gl_step l3)))"

definition parse_repetition :: "grammar_lexer \<Rightarrow> (production_unit \<times> grammar_lexer) result" where
  "parse_repetition l =
     (if gl_peek l \<noteq> CHR ''{'' then
        syntax_error (''Repetitions should be enclosed in {}, found unexpected Repetition at line '' @ at_line_column l)
      else let l1 = gl_step l in
        if gl_peek l1 \<noteq> CHR ''<'' then
          Inl (RuntimeError (''... Repetitions should enclose Non-Terminals {<example>} ... '' @ ''(line:'' @
            show_int (gl_line l1) @ '', column'' @ show_int (gl_column l1) @ '').''))
        else rbind (enclosed_loop ''... Unterminated repetition ...'' l1 []) (\<lambda>(lexeme, l2).
          let (c, l3) = gl_advance l2; lexeme = lexeme @ [c] in
          if gl_peek l3 \<noteq> CHR ''}'' then Inl (RuntimeError (''... Missing closing '' @ CHR 0x27 # ''}'' @ CHR 0x27 # '' for repetition ...''))
          else Inr (unit_at Repetition (''{'' @ lexeme @ ''}'') l, gl_step l3)))"

definition unquoted_chr :: "char \<Rightarrow> bool" where
  "unquoted_chr c \<longleftrightarrow> is_alnum c \<or> c = CHR ''_'' \<or> c = CHR ''.''"

text \<open>The loop of a quoted terminal, from behind the opening quote.\<close>

function quoted_loop :: "grammar_lexer \<Rightarrow> char \<Rightarrow> grammar_lexer \<Rightarrow> string \<Rightarrow> (production_unit \<times> grammar_lexer) result" where
  "quoted_loop start quote l lexeme =
     (if gl_at_end l then syntax_error (''Unterminated terminal starting at line '' @ at_line_column start)
      else if gl_peek l = quote then
        Inr (unit_at Terminal (quote # lexeme @ [quote]) start, gl_step l)
      else if gl_peek l = CHR 0x5C then
        (let (c, l1) = gl_advance l; lexeme = lexeme @ [c] in
         if \<not> gl_at_end l1 then let (d, l2) = gl_advance l1 in quoted_loop start quote l2 (lexeme @ [d])
         else quoted_loop start quote l1 lexeme)
      else let (c, l1) = gl_advance l in quoted_loop start quote l1 (lexeme @ [c]))"
  by pat_completeness auto
termination
proof (relation "measure (\<lambda>(start, quote, l, acc). length (gl_rest l))", simp, goal_cases)
  case (1 start quote l acc p c l1 lexeme q d l2)
  then have "l1 = gl_step l" "l2 = gl_step l1" by (metis snd_conv)+
  with 1 show ?case using gl.step_shorter less_trans by (metis (no_types, lifting) case_prod_conv in_measure)
next
  case (2 start quote l acc p c l1 lexeme)
  then have "l1 = gl_step l" by (metis snd_conv)
  with 2 show ?case by (simp add: gl.step_shorter)
next
  case (3 start quote l acc p c l1)
  then have "l1 = gl_step l" by (metis snd_conv)
  with 3 show ?case by (simp add: gl.step_shorter)
qed

declare quoted_loop.simps [simp del]

definition parse_terminal :: "grammar_lexer \<Rightarrow> (production_unit \<times> grammar_lexer) result" where
  "parse_terminal l =
     (if gl_peek l \<noteq> CHR 0x22 \<and> gl_peek l \<noteq> CHR 0x27 then
        let (lexeme, l1) = gl_scan unquoted_chr l [] in Inr (unit_at Terminal lexeme l1, l1)
      else let (quote, l1) = gl_advance l in quoted_loop l1 quote l1 [])"

definition parse_punctuation :: "grammar_lexer \<Rightarrow> (production_unit \<times> grammar_lexer) result" where
  "parse_punctuation l =
     (if gl_peek l = CHR '':'' then
        let l1 = gl_step l in
        if gl_peek l1 = CHR '':'' then
          let l2 = gl_step l1 in
          if gl_peek l2 = CHR ''='' then
            let l3 = gl_step l2 in Inr (unit_at Punctuation ''::='' l3, l3)
          else syntax_error (''Invalid character after '' @ CHR 0x27 # ''::'' @ CHR 0x27 # '' (expected '' @
            CHR 0x27 # ''::='' @ CHR 0x27 # '') at line '' @ at_line_column l2)
        else syntax_error (''Invalid character after '' @ CHR 0x27 # '':'' @ CHR 0x27 # '' (expected '' @
          CHR 0x27 # ''::='' @ CHR 0x27 # '') at line '' @ at_line_column l1)
      else let (ch, l1) = gl_advance l in
        if ch = CHR ''.'' \<and> gl_peek l1 = CHR ''.'' \<and> gl_pos l1 + 1 < length (gl_input l1) \<and>
            gl_input l1 ! (gl_pos l1 + 1) = CHR ''.'' then
          syntax_error (''Expression '' @ CHR 0x22 # ''...'' @ CHR 0x22 #
            '' is not supported in this implementation of DSL, found at line '' @ at_line_column (gl_step (gl_step l1)))
        else if ch = CHR '';'' \<or> ch = CHR ''|'' then Inr (unit_at Punctuation [ch] l1, l1)
        else syntax_error (''Unsupported character: '' @ CHR 0x27 # ch # CHR 0x27 # '' at line '' @ at_line_column l1))"

definition get_next_unit :: "grammar_lexer \<Rightarrow> (production_unit \<times> grammar_lexer) result" where
  "get_next_unit l =
     (let l = gl_skip_whitespace l in
      if gl_at_end l then Inr (unit_at EndOfFile [] l, l)
      else let nextChar = gl_peek l in
        if nextChar = CHR ''<'' then parse_non_terminal l
        else if nextChar = CHR ''['' then parse_optional l
        else if nextChar = CHR ''{'' then parse_repetition l
        else if nextChar = CHR 0x22 \<or> nextChar = CHR 0x27 \<or> is_alpha nextChar \<or> is_digit nextChar then
          parse_terminal l
        else if is_punct nextChar then parse_punctuation l
        else let (unknownChar, l1) = gl_advance l in
          syntax_error (''Error at line '' @ at_line_column l1 @ '': Unknown character '' @ CHR 0x27 # unknownChar # [CHR 0x27]))"

section \<open>Reading a text\<close>

text \<open>The position a text leads to, and the lexers whose line and column are those of their position.\<close>

definition text_line :: "string \<Rightarrow> int" where
  "text_line s = 1 + int (count_list s newline)"

definition text_column :: "string \<Rightarrow> int" where
  "text_column s = 1 + int (length (takeWhile (\<lambda>c. c \<noteq> newline) (rev s)))"

definition gl_ok :: "grammar_lexer \<Rightarrow> bool" where
  "gl_ok l \<longleftrightarrow> gl_pos l \<le> length (gl_input l) \<and>
     gl_line l = text_line (take (gl_pos l) (gl_input l)) \<and>
     gl_column l = text_column (take (gl_pos l) (gl_input l))"

definition reads :: "grammar_lexer \<Rightarrow> string \<Rightarrow> grammar_lexer \<Rightarrow> bool" where
  "reads l s l' \<longleftrightarrow> gl_input l' = gl_input l \<and> gl_rest l = s @ gl_rest l' \<and> (gl_ok l \<longrightarrow> gl_ok l')"

lemma make_grammar_lexer_ok [simp]: "gl_ok (make_grammar_lexer s)"
  by (simp add: gl_ok_def make_grammar_lexer_def text_line_def text_column_def)

lemma gl_reset_ok [simp]: "gl_ok (gl_reset l)"
  by (simp add: gl_ok_def gl_reset_def gl_set_position_def text_line_def text_column_def)

lemma reads_refl [simp, intro]: "reads l [] l"
  by (simp add: reads_def)

lemma reads_trans: "reads l s m \<Longrightarrow> reads m t n \<Longrightarrow> reads l (s @ t) n"
  by (simp add: reads_def)

lemma reads_step: "\<not> gl_at_end l \<Longrightarrow> reads l [gl_peek l] (gl_step l)"
proof -
  assume l: "\<not> gl_at_end l"
  then have "gl_pos l < length (gl_input l)" by (simp add: gl_at_end_def)
  then have "gl_ok (gl_step l)" if "gl_ok l"
    using l that by (auto simp: gl_ok_def gl_advance_def gl_update_position_def text_line_def text_column_def
        take_Suc_conv_app_nth Let_def)
  moreover have "gl_input (gl_step l) = gl_input l"
    using l by (simp add: gl_advance_def gl_update_position_def Let_def)
  ultimately show ?thesis
    using gl.remaining_step [OF l] by (simp add: reads_def)
qed

lemma reads_step_peek: "gl_peek l = c \<Longrightarrow> c \<noteq> nul \<Longrightarrow> reads l [c] (gl_step l)"
  using reads_step by (auto simp: gl_peek_def split: if_splits)

lemma reads_Cons: "reads l [c] m \<Longrightarrow> reads m s n \<Longrightarrow> reads l (c # s) n"
  using reads_trans [of l "[c]" m s n] by simp

lemma gl_scan_reads: "reads l (takeWhile p (gl_rest l)) (snd (gl_scan p l acc))"
proof (induction p l acc rule: gl_scan.induct)
  case (1 p l acc)
  show ?case
  proof (cases "\<not> gl_at_end l \<and> p (gl_peek l)")
    case True
    with 1 have "reads l (gl_peek l # takeWhile p (gl_rest (gl_step l))) (snd (gl_scan p (gl_step l) (acc @ [gl_peek l])))"
      by (metis gl_advance_chr reads_Cons reads_step)
    with True gl.remaining_step [of l] show ?thesis by (subst gl_scan.simps) simp
  next
    case False
    then have "takeWhile p (gl_rest l) = []"
      by (cases "gl_rest l") (auto simp: gl.at_end_iff gl.peek_hd)
    with False show ?thesis by (subst gl_scan.simps) auto
  qed
qed

lemma reads_scan: "gl_scan p l acc = (s, m) \<Longrightarrow> s = acc @ takeWhile p (gl_rest l) \<and> reads l (takeWhile p (gl_rest l)) m"
  using gl_scan_result [of p l acc] gl_scan_reads [of l p acc] by simp

lemma gl_ok_pos: "gl_ok l \<Longrightarrow> gl_input l = take (gl_pos l) (gl_input l) @ gl_rest l"
  by (simp add: gl_rest_def)

lemma reads_before:
  assumes "reads l s l'" "gl_ok l"
  shows "take (gl_pos l') (gl_input l') = take (gl_pos l) (gl_input l) @ s"
proof -
  have "gl_input l = take (gl_pos l') (gl_input l') @ gl_rest l'"
    using assms gl_ok_pos by (metis reads_def)
  moreover have "gl_input l = take (gl_pos l) (gl_input l) @ s @ gl_rest l'"
    using assms gl_ok_pos by (metis reads_def)
  ultimately show ?thesis by (metis append.assoc append_same_eq)
qed

lemma reads_position:
  assumes "reads l s l'" "gl_ok l"
  shows "gl_line l' = text_line (take (gl_pos l) (gl_input l) @ s) \<and>
    gl_column l' = text_column (take (gl_pos l) (gl_input l) @ s)"
proof -
  have "gl_ok l'" using assms by (simp add: reads_def)
  then show ?thesis by (simp add: gl_ok_def reads_before [OF assms])
qed

lemma reads_column_1:
  assumes "reads l s l'" "gl_ok l" "s \<noteq> []"
  shows "gl_column l' = 1 \<longleftrightarrow> last s = newline"
  using assms(3) by (cases s rule: rev_cases) (auto simp: reads_position [OF assms(1,2)] text_column_def)

section \<open>Blank text\<close>

text \<open>Whitespace and comment lines; the flag says whether the text starts a line.\<close>

function blank_text :: "bool \<Rightarrow> string \<Rightarrow> bool" where
  "blank_text line_start [] = True"
| "blank_text line_start (c # s) =
     (if c = CHR '';'' \<and> line_start then blank_text True (drop 1 (dropWhile (\<lambda>c. c \<noteq> newline) s))
      else is_space c \<and> blank_text (c = newline) s)"
  by pat_completeness auto
termination
  by (relation "measure (\<lambda>(b, s). length s)")
    (auto, metis diff_le_self le_imp_less_Suc le_trans length_dropWhile_le)

lemma blank_spaces:
  "list_all is_space s \<Longrightarrow> blank_text b (s @ t) \<longleftrightarrow> blank_text (if s = [] then b else last s = newline) t"
proof (induction s arbitrary: b)
  case (Cons c s)
  then have "c \<noteq> CHR '';''" by (auto simp: is_space_def chr_code_def)
  with Cons show ?case by auto
qed simp

lemma blank_comment:
  assumes "newline \<notin> set s"
  shows "blank_text True (CHR '';'' # s)" "blank_text True (CHR '';'' # s @ newline # t) \<longleftrightarrow> blank_text True t"
proof -
  have "dropWhile (\<lambda>c. c \<noteq> newline) s = []" using assms by auto
  moreover have "dropWhile (\<lambda>c. c \<noteq> newline) (s @ newline # t) = newline # t"
    using assms by (subst dropWhile_append2) auto
  ultimately show "blank_text True (CHR '';'' # s)" "blank_text True (CHR '';'' # s @ newline # t) \<longleftrightarrow> blank_text True t"
    by (simp_all del: dropWhile_eq_Nil_conv)
qed

lemma skip_comment_reads:
  assumes "gl_peek l = CHR '';''"
  shows "\<exists>s. reads l s (gl_skip_comment_line l) \<and> s \<noteq> [] \<and> blank_text True s \<and>
    (gl_rest (gl_skip_comment_line l) = [] \<or> last s = newline \<and> (\<forall>t. blank_text True (s @ t) \<longleftrightarrow> blank_text True t))"
proof -
  let ?m = "snd (gl_scan (\<lambda>c. c \<noteq> newline) l [])"
  let ?s = "takeWhile (\<lambda>c. c \<noteq> newline) (gl_rest (gl_step l))"
  have l: "\<not> gl_at_end l" using assms by (auto simp: gl_peek_def)
  have tw: "takeWhile (\<lambda>c. c \<noteq> newline) (gl_rest l) = CHR '';'' # ?s"
    using gl.remaining_step [OF l] assms by simp
  have m: "reads l (CHR '';'' # ?s) ?m"
    using gl_scan_reads [of l "\<lambda>c. c \<noteq> newline" "[]"] by (simp only: tw)
  have no: "newline \<notin> set ?s" by (auto dest: set_takeWhileD)
  show ?thesis
  proof (cases "gl_at_end ?m")
    case True
    then have "gl_skip_comment_line l = ?m" "gl_rest ?m = []"
      by (simp_all add: gl_skip_comment_line_def Let_def gl.at_end_iff)
    with m no show ?thesis by (intro exI [of _ "CHR '';'' # ?s"]) (simp add: blank_comment del: blank_text.simps(2))
  next
    case False
    then have "gl_peek ?m = newline"
      using hd_dropWhile [of "\<lambda>c. c \<noteq> newline" "gl_rest l"]
      by (simp add: gl.at_end_iff gl.peek_hd gl_scan_result del: dropWhile_eq_Nil_conv)
    moreover from this False have "gl_skip_comment_line l = gl_step ?m"
      by (simp add: gl_skip_comment_line_def Let_def)
    ultimately have "reads l (CHR '';'' # ?s @ [newline]) (gl_skip_comment_line l)"
      using reads_trans [OF m reads_step [OF False]] by simp
    with no show ?thesis
      by (intro exI [of _ "CHR '';'' # ?s @ [newline]"]) (simp add: blank_comment del: blank_text.simps(2))
  qed
qed

lemma skip_whitespace_reads:
  "gl_ok l \<Longrightarrow> \<exists>s. reads l s (gl_skip_whitespace l) \<and> blank_text (gl_column l = 1) s \<and>
    (gl_at_end (gl_skip_whitespace l) \<or> \<not> is_space (gl_peek (gl_skip_whitespace l)) \<and>
      \<not> (gl_peek (gl_skip_whitespace l) = CHR '';'' \<and> gl_column (gl_skip_whitespace l) = 1) \<and>
      (\<forall>t. blank_text (gl_column l = 1) (s @ t) \<longleftrightarrow> blank_text (gl_column (gl_skip_whitespace l) = 1) t))"
proof (induction l rule: gl_skip_whitespace.induct)
  case (1 l)
  show ?case
  proof (cases "gl_at_end l")
    case True
    then have "gl_skip_whitespace l = l" by (subst gl_skip_whitespace.simps) simp
    with True show ?thesis by (intro exI [of _ "[]"]) simp
  next
    case False
    define m where "m = snd (gl_scan is_space l [])"
    define s where "s = takeWhile is_space (gl_rest l)"
    have m: "reads l s m" "gl_ok m" and all: "list_all is_space s"
      using gl_scan_reads [of l is_space "[]"] 1(2)
      by (auto simp: m_def s_def reads_def list_all_iff dest: set_takeWhileD)
    have col: "(if s = [] then gl_column l = 1 else last s = newline) = (gl_column m = 1)"
    proof (cases "s = []")
      case True
      then have "takeWhile is_space (gl_rest l) = []" by (simp add: s_def)
      then have "\<not> (\<not> gl_at_end l \<and> is_space (gl_peek l))"
        using gl.remaining_step [of l] by auto
      then have "m = l" unfolding m_def by (subst gl_scan.simps) auto
      with True show ?thesis by simp
    next
      case False
      then show ?thesis using reads_column_1 [OF m(1) 1(2)] by simp
    qed
    have skip: "gl_skip_whitespace l = (if \<not> gl_at_end m \<and> gl_peek m = CHR '';'' \<and> gl_column m = 1
        then gl_skip_whitespace (gl_skip_comment_line m) else m)"
      using False by (subst gl_skip_whitespace.simps) (simp add: m_def Let_def)
    show ?thesis
    proof (cases "\<not> gl_at_end m \<and> gl_peek m = CHR '';'' \<and> gl_column m = 1")
      case True
      define n where "n = gl_skip_comment_line m"
      obtain c where c: "reads m c n" "c \<noteq> []" "blank_text True c"
        "gl_rest n = [] \<or> last c = newline \<and> (\<forall>t. blank_text True (c @ t) \<longleftrightarrow> blank_text True t)"
        using skip_comment_reads [of m] True by (auto simp: n_def)
      have "gl_ok n" using c(1) m(2) by (simp add: reads_def)
      then obtain t where t: "reads n t (gl_skip_whitespace n)" "blank_text (gl_column n = 1) t"
        "gl_at_end (gl_skip_whitespace n) \<or> \<not> is_space (gl_peek (gl_skip_whitespace n)) \<and>
          \<not> (gl_peek (gl_skip_whitespace n) = CHR '';'' \<and> gl_column (gl_skip_whitespace n) = 1) \<and>
          (\<forall>r. blank_text (gl_column n = 1) (t @ r) \<longleftrightarrow> blank_text (gl_column (gl_skip_whitespace n) = 1) r)"
        using 1(1) [OF False m_def True] by (auto simp: n_def)
      have blank: "blank_text (gl_column l = 1) (s @ c @ r) = blank_text True (c @ r)" for r
        using True col by (simp add: blank_spaces [OF all] del: blank_text.simps)
      have "blank_text True (c @ t) \<and> (gl_at_end (gl_skip_whitespace n) \<or>
          (\<forall>r. blank_text True (c @ t @ r) \<longleftrightarrow> blank_text (gl_column (gl_skip_whitespace n) = 1) r))"
      proof (cases "gl_rest n = []")
        case True
        then have "t = []" "gl_at_end (gl_skip_whitespace n)" using t(1) by (simp_all add: reads_def gl.at_end_iff)
        with c(3) show ?thesis by simp
      next
        case False
        then show ?thesis using c t(2,3) reads_column_1 [OF c(1) m(2) c(2)] by auto
      qed
      moreover have "reads l (s @ c @ t) (gl_skip_whitespace l)"
        using reads_trans [OF m(1) reads_trans [OF c(1) t(1)]] True by (simp add: skip n_def)
      ultimately show ?thesis
        using t(3) True by (intro exI [of _ "s @ c @ t"]) (auto simp: skip n_def [symmetric] blank)
    next
      case False
      have "blank_text (gl_column l = 1) s"
        using blank_spaces [OF all, of "gl_column l = 1" "[]"] by simp
      moreover have "blank_text (gl_column l = 1) (s @ t) \<longleftrightarrow> blank_text (gl_column m = 1) t" for t
        using blank_spaces [OF all, of "gl_column l = 1" t] col by simp
      moreover have "gl_at_end m \<or> \<not> is_space (gl_peek m)"
        using hd_dropWhile [of is_space "gl_rest l"] gl.peek_hd [of m]
        by (simp add: m_def gl_scan_result gl.at_end_iff del: dropWhile_eq_Nil_conv) metis
      ultimately show ?thesis
        using m(1) False by (intro exI [of _ s]) (auto simp: skip)
    qed
  qed
qed

section \<open>Lexemes\<close>

text \<open>A quoted body: a backslash takes the next character with it, the quote stands only behind one.\<close>

fun quoted_body :: "char \<Rightarrow> string \<Rightarrow> bool" where
  "quoted_body q [] = True"
| "quoted_body q (c # s) =
     (if c = CHR 0x5C then (case s of [] \<Rightarrow> False | d # s \<Rightarrow> quoted_body q s)
      else c \<noteq> q \<and> quoted_body q s)"

definition non_terminal_text :: "string \<Rightarrow> bool" where
  "non_terminal_text s \<longleftrightarrow> length s \<ge> 2 \<and> hd s = CHR ''<'' \<and> last s = CHR ''>'' \<and>
     CHR ''>'' \<notin> set (butlast s)"

definition enclosed_by :: "char \<Rightarrow> char \<Rightarrow> (string \<Rightarrow> bool) \<Rightarrow> string \<Rightarrow> bool" where
  "enclosed_by a b P s \<longleftrightarrow> length s \<ge> 2 \<and> hd s = a \<and> last s = b \<and> P (butlast (tl s))"

definition quoted_text :: "string \<Rightarrow> bool" where
  "quoted_text s \<longleftrightarrow> enclosed_by CHR 0x22 CHR 0x22 (quoted_body CHR 0x22) s \<or>
     enclosed_by CHR 0x27 CHR 0x27 (quoted_body CHR 0x27) s"

definition lexeme_ok :: "production_unit_type \<Rightarrow> string \<Rightarrow> bool" where
  "lexeme_ok t s = (case t of
       NonTerminal \<Rightarrow> non_terminal_text s
     | OptionalUnit \<Rightarrow> enclosed_by CHR ''['' CHR '']'' non_terminal_text s
     | Repetition \<Rightarrow> enclosed_by CHR ''{'' CHR ''}'' non_terminal_text s
     | Terminal \<Rightarrow> quoted_text s \<or> s \<noteq> [] \<and> list_all unquoted_chr s
     | Punctuation \<Rightarrow> s \<in> {''::='', '';'', ''|''}
     | EndOfFile \<Rightarrow> s = []
     | Undetermined \<Rightarrow> False)"

text \<open>Up to where a lexeme has been read when its line and column are taken.\<close>

definition position_prefix :: "production_unit_type \<Rightarrow> string \<Rightarrow> string" where
  "position_prefix t s = (case t of OptionalUnit \<Rightarrow> [] | Repetition \<Rightarrow> [] | EndOfFile \<Rightarrow> []
     | Terminal \<Rightarrow> if quoted_text s then take 1 s else s
     | _ \<Rightarrow> s)"

definition unit_read :: "grammar_lexer \<Rightarrow> production_unit \<Rightarrow> grammar_lexer \<Rightarrow> bool" where
  "unit_read l u l' \<longleftrightarrow> reads l (pu_lexeme u) l' \<and> lexeme_ok (pu_type u) (pu_lexeme u) \<and>
     (\<exists>k. reads l (position_prefix (pu_type u) (pu_lexeme u)) k \<and>
        pu_line u = gl_line k \<and> pu_column u = gl_column k)"

lemma unit_at_simps [simp]:
  "pu_type (unit_at t s l) = t" "pu_lexeme (unit_at t s l) = s"
  "pu_line (unit_at t s l) = gl_line l" "pu_column (unit_at t s l) = gl_column l"
  by (simp_all add: unit_at_def)

lemma syntax_error_simp [simp]: "syntax_error m \<noteq> Inr x"
  by (simp add: syntax_error_def)

lemma non_terminal_text_snoc:
  "non_terminal_text (s @ [CHR ''>'']) \<longleftrightarrow> s \<noteq> [] \<and> hd s = CHR ''<'' \<and> CHR ''>'' \<notin> set s"
  by (cases s) (auto simp: non_terminal_text_def)

lemma enclosed_by_simp [simp]: "enclosed_by a b P (a # s @ [b]) \<longleftrightarrow> P s"
  by (simp add: enclosed_by_def)

lemma parse_non_terminal_reads:
  assumes "parse_non_terminal l = Inr (u, l')"
  shows "unit_read l u l' \<and> pu_type u = NonTerminal"
proof -
  define s where "s = fst (gl_scan (\<lambda>c. c \<noteq> CHR ''>'') (gl_step l) [CHR ''<''])"
  define m where "m = snd (gl_scan (\<lambda>c. c \<noteq> CHR ''>'') (gl_step l) [CHR ''<''])"
  have s: "gl_scan (\<lambda>c. c \<noteq> CHR ''>'') (gl_step l) [CHR ''<''] = (s, m)" "\<not> gl_at_end m"
    and l: "gl_peek l = CHR ''<''" and u: "u = unit_at NonTerminal (s @ [gl_peek m]) l'" "l' = gl_step m"
    using assms by (auto simp: parse_non_terminal_def prod.case_eq_if s_def m_def split: if_splits)
  note r = reads_scan [OF s(1)]
  have "gl_peek m = CHR ''>''"
    using gl_scan_result [of "\<lambda>c. c \<noteq> CHR ''>''" "gl_step l" "[CHR ''<'']"] s gl.peek_hd [of m]
      hd_dropWhile [of "\<lambda>c. c \<noteq> CHR ''>''" "gl_rest (gl_step l)"]
    by (auto simp: gl.at_end_iff)
  moreover have "reads l (CHR ''<'' # takeWhile (\<lambda>c. c \<noteq> CHR ''>'') (gl_rest (gl_step l)) @ [CHR ''>'']) l'"
    using reads_Cons [OF reads_step_peek [OF l] reads_trans [OF conjunct2 [OF r] reads_step [OF s(2)]]]
    by (simp add: u(2) calculation)
  ultimately show ?thesis
    using r by (auto simp: unit_read_def u(1) lexeme_ok_def position_prefix_def
        non_terminal_text_snoc [of "CHR ''<'' # _", simplified] dest: set_takeWhileD)
qed

lemma enclosed_loop_reads:
  "enclosed_loop msg l acc = Inr (s, m) \<Longrightarrow>
    \<exists>t. s = acc @ gl_peek l # t \<and> reads l (gl_peek l # t) m \<and> CHR ''>'' \<notin> set t \<and> gl_peek m = CHR ''>'' \<and> \<not> gl_at_end m"
proof (induction msg l acc rule: enclosed_loop.induct)
  case (1 msg l acc)
  let ?l1 = "gl_step l"
  have e: "enclosed_loop msg l acc =
      (if gl_at_end ?l1 then Inl (RuntimeError msg)
       else if gl_peek ?l1 \<noteq> CHR ''>'' then enclosed_loop msg ?l1 (acc @ [gl_peek l])
       else Inr (acc @ [gl_peek l], ?l1))"
    by (subst enclosed_loop.simps) (simp add: prod.case_eq_if Let_def)
  have l1: "\<not> gl_at_end ?l1" using 1(2) by (auto simp: e split: if_splits)
  then have "\<not> gl_at_end l" by (auto simp: gl_advance_def split: if_splits)
  note r = reads_step [OF this]
  show ?case
  proof (cases "gl_peek ?l1 = CHR ''>''")
    case True
    with 1(2) l1 r show ?thesis by (auto simp: e intro!: exI [of _ "[]"])
  next
    case False
    with 1(2) l1 have "enclosed_loop msg ?l1 (acc @ [gl_peek l]) = Inr (s, m)" by (simp add: e)
    then obtain t where "s = acc @ gl_peek l # gl_peek ?l1 # t" "reads ?l1 (gl_peek ?l1 # t) m"
      "CHR ''>'' \<notin> set t" "gl_peek m = CHR ''>''" "\<not> gl_at_end m"
      using 1(1) [OF refl prod.collapse refl l1] False by auto
    with False reads_Cons [OF r] show ?thesis by (intro exI [of _ "gl_peek ?l1 # t"]) auto
  qed
qed

lemma enclosed_reads:
  assumes "gl_peek l = a" "a \<noteq> nul" "gl_peek (gl_step l) = CHR ''<''"
    and "enclosed_loop msg (gl_step l) [] = Inr (s, m)" "gl_peek (gl_step m) = b" "b \<noteq> nul"
  shows "reads l (a # (s @ [CHR ''>'']) @ [b]) (gl_step (gl_step m)) \<and> non_terminal_text (s @ [CHR ''>'']) \<and>
    gl_peek m = CHR ''>''"
proof -
  obtain t where t: "s = CHR ''<'' # t" "reads (gl_step l) s m" "CHR ''>'' \<notin> set t" "gl_peek m = CHR ''>''"
    using enclosed_loop_reads [OF assms(4)] assms(3) by auto
  have "reads l (a # s @ [CHR ''>''] @ [b]) (gl_step (gl_step m))"
    using reads_Cons [OF reads_step_peek [OF assms(1,2)] reads_trans [OF t(2)
        reads_trans [OF reads_step_peek [OF t(4)] reads_step_peek [OF assms(5,6)]]]] by simp
  with t show ?thesis by (simp add: non_terminal_text_def)
qed

lemma parse_optional_reads:
  assumes "parse_optional l = Inr (u, l')"
  shows "unit_read l u l' \<and> pu_type u = OptionalUnit"
proof -
  obtain s m where p: "gl_peek l = CHR ''[''" "gl_peek (gl_step l) = CHR ''<''"
    "enclosed_loop ''... Unterminated optional ...'' (gl_step l) [] = Inr (s, m)" "gl_peek (gl_step m) = CHR '']''"
    and u: "u = unit_at OptionalUnit (''['' @ (s @ [gl_peek m]) @ '']'') l" "l' = gl_step (gl_step m)"
    using assms by (auto simp: parse_optional_def Let_def prod.case_eq_if rbind_Inr_iff split: if_splits)
  note r = enclosed_reads [OF p(1) _ p(2,3,4), simplified]
  from r show ?thesis
    by (auto simp: unit_read_def u lexeme_ok_def position_prefix_def
        enclosed_by_simp [of _ _ _ "s @ [CHR ''>'']", simplified])
qed

lemma parse_repetition_reads:
  assumes "parse_repetition l = Inr (u, l')"
  shows "unit_read l u l' \<and> pu_type u = Repetition"
proof -
  obtain s m where p: "gl_peek l = CHR ''{''" "gl_peek (gl_step l) = CHR ''<''"
    "enclosed_loop ''... Unterminated repetition ...'' (gl_step l) [] = Inr (s, m)" "gl_peek (gl_step m) = CHR ''}''"
    and u: "u = unit_at Repetition (''{'' @ (s @ [gl_peek m]) @ ''}'') l" "l' = gl_step (gl_step m)"
    using assms by (auto simp: parse_repetition_def Let_def prod.case_eq_if rbind_Inr_iff split: if_splits)
  note r = enclosed_reads [OF p(1) _ p(2,3,4), simplified]
  from r show ?thesis
    by (auto simp: unit_read_def u lexeme_ok_def position_prefix_def
        enclosed_by_simp [of _ _ _ "s @ [CHR ''>'']", simplified])
qed

lemma quoted_loop_unfold:
  "quoted_loop start q l acc =
    (if gl_at_end l then syntax_error (''Unterminated terminal starting at line '' @ at_line_column start)
     else if gl_peek l = q then Inr (unit_at Terminal (q # acc @ [q]) start, gl_step l)
     else if gl_peek l = CHR 0x5C then
       if \<not> gl_at_end (gl_step l)
       then quoted_loop start q (gl_step (gl_step l)) (acc @ [CHR 0x5C, gl_peek (gl_step l)])
       else syntax_error (''Unterminated terminal starting at line '' @ at_line_column start)
     else quoted_loop start q (gl_step l) (acc @ [gl_peek l]))"
  by (subst quoted_loop.simps) (auto simp: prod.case_eq_if Let_def quoted_loop.simps [of start q "gl_step l"])

lemma quoted_loop_reads:
  assumes "q \<noteq> CHR 0x5C" "q \<noteq> nul"
  shows "quoted_loop start q l acc = Inr (u, l') \<Longrightarrow>
    \<exists>t. u = unit_at Terminal (q # (acc @ t) @ [q]) start \<and> reads l (t @ [q]) l' \<and> quoted_body q t"
proof (induction "length (gl_rest l)" arbitrary: l acc rule: less_induct)
  case less
  have l: "\<not> gl_at_end l" using less(2) by (auto simp: quoted_loop_unfold [of _ _ l] split: if_splits)
  note r = reads_step [OF l] and shorter = gl.step_shorter [OF l]
  consider (close) "gl_peek l = q"
    | (escape) "gl_peek l = CHR 0x5C" "gl_peek l \<noteq> q"
    | (plain) "gl_peek l \<noteq> CHR 0x5C" "gl_peek l \<noteq> q" by blast
  then show ?case
  proof cases
    case close
    with less(2) l r show ?thesis
      by (intro exI [of _ "[]"]) (auto simp: quoted_loop_unfold [of _ _ l])
  next
    case plain
    with less(2) l have "quoted_loop start q (gl_step l) (acc @ [gl_peek l]) = Inr (u, l')"
      by (simp add: quoted_loop_unfold [of _ _ l])
    then obtain t where "u = unit_at Terminal (q # (acc @ gl_peek l # t) @ [q]) start"
      "reads (gl_step l) (t @ [q]) l'" "quoted_body q t"
      using less(1) [OF shorter] by fastforce
    with plain reads_Cons [OF r] show ?thesis by (intro exI [of _ "gl_peek l # t"]) simp
  next
    case escape
    define m where "m = gl_step l"
    have m: "\<not> gl_at_end m" using escape less(2) l
      by (auto simp: quoted_loop_unfold [of _ _ l] m_def split: if_splits)
    with escape less(2) l have "quoted_loop start q (gl_step m) (acc @ [CHR 0x5C, gl_peek m]) = Inr (u, l')"
      by (simp add: quoted_loop_unfold [of _ _ l] m_def)
    moreover have "length (gl_rest (gl_step m)) < length (gl_rest l)"
      using gl.step_shorter [OF m] shorter by (simp add: m_def)
    ultimately obtain t where t: "u = unit_at Terminal (q # (acc @ CHR 0x5C # gl_peek m # t) @ [q]) start"
      "reads (gl_step m) (t @ [q]) l'" "quoted_body q t"
      using less(1) by fastforce
    have "reads l (CHR 0x5C # gl_peek m # t @ [q]) l'"
      using reads_Cons [OF r, folded m_def, OF reads_Cons [OF reads_step [OF m] t(2)]] escape(1) by simp
    with t show ?thesis by (intro exI [of _ "CHR 0x5C # gl_peek m # t"]) simp
  qed
qed

lemma unquoted_not_quoted:
  assumes "list_all unquoted_chr s"
  shows "\<not> quoted_text s"
proof -
  have "\<not> unquoted_chr CHR 0x22" "\<not> unquoted_chr CHR 0x27" by code_simp+
  with assms show ?thesis
    by (cases s) (auto simp: quoted_text_def enclosed_by_def)
qed

lemma parse_terminal_reads:
  assumes "parse_terminal l = Inr (u, l')" "\<not> gl_at_end l"
    and "gl_peek l = CHR 0x22 \<or> gl_peek l = CHR 0x27 \<or> is_alpha (gl_peek l) \<or> is_digit (gl_peek l)"
  shows "unit_read l u l' \<and> pu_type u = Terminal"
proof (cases "gl_peek l = CHR 0x22 \<or> gl_peek l = CHR 0x27")
  case True
  define q where "q = gl_peek l"
  have q: "q = CHR 0x22 \<or> q = CHR 0x27" "q \<noteq> CHR 0x5C" "q \<noteq> nul" using True by (auto simp: q_def)
  have "quoted_loop (gl_step l) q (gl_step l) [] = Inr (u, l')"
    using assms(1) True by (auto simp: parse_terminal_def prod.case_eq_if q_def)
  then obtain t where t: "u = unit_at Terminal (q # t @ [q]) (gl_step l)"
    "reads (gl_step l) (t @ [q]) l'" "quoted_body q t"
    using quoted_loop_reads [OF q(2,3)] by fastforce
  moreover have "reads l (q # t @ [q]) l'"
    using reads_Cons [OF reads_step [OF assms(2)] t(2)] by (simp add: q_def)
  moreover have "quoted_text (q # t @ [q])" using q(1) t(3) by (auto simp: quoted_text_def)
  ultimately show ?thesis
    using reads_step [OF assms(2)] by (auto simp: unit_read_def lexeme_ok_def position_prefix_def q_def)
next
  case False
  define s where "s = fst (gl_scan unquoted_chr l [])"
  have s: "gl_scan unquoted_chr l [] = (s, l')" and u: "u = unit_at Terminal s l'"
    using assms(1) False by (auto simp: parse_terminal_def prod.case_eq_if s_def)
  note r = reads_scan [OF s]
  then have all: "list_all unquoted_chr s" by (auto simp: list_all_iff dest: set_takeWhileD)
  have "unquoted_chr (gl_peek l)" using assms(3) False by (auto simp: unquoted_chr_def is_alnum_def)
  then have "s \<noteq> []" using r gl.remaining_step [OF assms(2)] by simp
  with r all show ?thesis
    by (auto simp: unit_read_def u lexeme_ok_def position_prefix_def unquoted_not_quoted)
qed

lemma parse_punctuation_reads:
  assumes "parse_punctuation l = Inr (u, l')" "\<not> gl_at_end l"
  shows "unit_read l u l' \<and> pu_type u = Punctuation"
proof (cases "gl_peek l = CHR '':''")
  case True
  with assms have p: "gl_peek (gl_step l) = CHR '':''" "gl_peek (gl_step (gl_step l)) = CHR ''=''"
    and u: "u = unit_at Punctuation ''::='' l'" "l' = gl_step (gl_step (gl_step l))"
    by (auto simp: parse_punctuation_def Let_def split: if_splits)
  have "reads l ''::='' l'"
    using reads_Cons [OF reads_step_peek [OF True] reads_Cons [OF reads_step_peek [OF p(1)] reads_step_peek [OF p(2)]]] u(2)
    by simp
  then show ?thesis by (auto simp: unit_read_def u(1) lexeme_ok_def position_prefix_def)
next
  case False
  with assms have "u = unit_at Punctuation [gl_peek l] l'" "l' = gl_step l" "gl_peek l = CHR '';'' \<or> gl_peek l = CHR ''|''"
    by (auto simp: parse_punctuation_def Let_def prod.case_eq_if split: if_splits)
  with reads_step [OF assms(2)] show ?thesis
    by (auto simp: unit_read_def lexeme_ok_def position_prefix_def)
qed

lemma get_next_unit_reads:
  assumes "get_next_unit l = Inr (u, l')"
  shows "unit_read (gl_skip_whitespace l) u l' \<and> (pu_type u = EndOfFile \<longleftrightarrow> gl_at_end (gl_skip_whitespace l))"
proof -
  define m where "m = gl_skip_whitespace l"
  show ?thesis
  proof (cases "gl_at_end m")
    case True
    with assms have "u = unit_at EndOfFile [] m" "l' = m" by (auto simp: get_next_unit_def m_def Let_def)
    with True show ?thesis
      unfolding m_def [symmetric] by (auto simp: unit_read_def lexeme_ok_def position_prefix_def)
  next
    case False
    with assms have "parse_non_terminal m = Inr (u, l') \<or> parse_optional m = Inr (u, l') \<or> parse_repetition m = Inr (u, l') \<or>
        parse_terminal m = Inr (u, l') \<and> (gl_peek m = CHR 0x22 \<or> gl_peek m = CHR 0x27 \<or> is_alpha (gl_peek m) \<or> is_digit (gl_peek m)) \<or>
        parse_punctuation m = Inr (u, l')"
      by (simp add: get_next_unit_def m_def [symmetric] Let_def prod.case_eq_if split: if_splits)
    then show ?thesis
      unfolding m_def [symmetric] using False
      by (auto dest: parse_non_terminal_reads parse_optional_reads parse_repetition_reads
          parse_terminal_reads parse_punctuation_reads)
  qed
qed

lemma lexeme_nonempty: "lexeme_ok t s \<Longrightarrow> t \<noteq> EndOfFile \<Longrightarrow> s \<noteq> []"
  by (cases t) (auto simp: lexeme_ok_def quoted_text_def enclosed_by_def non_terminal_text_def)

lemma get_next_unit_steps:
  assumes "get_next_unit l = Inr (u, l')" "gl_ok l"
  obtains s where "reads l s (gl_skip_whitespace l)" "blank_text (gl_column l = 1) s"
    "unit_read (gl_skip_whitespace l) u l'" "gl_ok (gl_skip_whitespace l)" "gl_ok l'"
    "reads l (s @ pu_lexeme u) l'"
  using skip_whitespace_reads [OF assms(2)] get_next_unit_reads [OF assms(1)] assms(2)
  by (metis reads_def reads_trans unit_read_def)

lemma get_next_unit_shorter:
  assumes "get_next_unit l = Inr (u, l')" "gl_ok l"
  shows "gl_ok l' \<and> (length (gl_rest l') < length (gl_rest l) \<or> pu_type u = EndOfFile)"
proof -
  obtain s where s: "reads l (s @ pu_lexeme u) l'" "gl_ok l'"
    using get_next_unit_steps [OF assms] by metis
  have "pu_type u = EndOfFile \<or> pu_lexeme u \<noteq> []"
    using get_next_unit_reads [OF assms(1)] lexeme_nonempty by (auto simp: unit_read_def)
  with s show ?thesis by (auto simp: reads_def)
qed

section \<open>Properties\<close>

definition example_lexer :: grammar_lexer where
  "example_lexer = make_grammar_lexer (''; a <b>'' @ newline # ''  [<ab>] ::= '')"

text \<open>
  C19: the grammar lexer loses nothing. Whatever unit it returns, the text it has moved over is
  blank (whitespace, and whole lines that start with a semicolon) followed by the lexeme as it
  stands in the file; the lexeme has the shape of its type; and the end of the file is reported
  exactly when nothing but blank text is left. Line and column stay those of the position.
\<close>

theorem get_next_unit_lossless:
  assumes "get_next_unit l = Inr (u, l')" "gl_ok l"
  shows "gl_ok l' \<and> gl_input l' = gl_input l \<and>
    (\<exists>blank. blank_text (gl_column l = 1) blank \<and> gl_rest l = blank @ pu_lexeme u @ gl_rest l') \<and>
    lexeme_ok (pu_type u) (pu_lexeme u) \<and>
    (pu_type u = EndOfFile \<longleftrightarrow> blank_text (gl_column l = 1) (gl_rest l))"
proof -
  define m where "m = gl_skip_whitespace l"
  obtain s where s: "reads l s m" "blank_text (gl_column l = 1) s"
    "gl_at_end m \<or> \<not> is_space (gl_peek m) \<and> \<not> (gl_peek m = CHR '';'' \<and> gl_column m = 1) \<and>
      (\<forall>t. blank_text (gl_column l = 1) (s @ t) \<longleftrightarrow> blank_text (gl_column m = 1) t)"
    using skip_whitespace_reads [OF assms(2)] by (auto simp: m_def)
  have r: "unit_read m u l'" "pu_type u = EndOfFile \<longleftrightarrow> gl_at_end m"
    using get_next_unit_reads [OF assms(1)] by (simp_all add: m_def)
  have "gl_at_end m \<longleftrightarrow> blank_text (gl_column l = 1) (gl_rest l)"
  proof (cases "gl_at_end m")
    case True
    then show ?thesis using s(1,2) by (simp add: reads_def gl.at_end_iff)
  next
    case False
    have "blank_text (gl_column l = 1) (gl_rest l) \<longleftrightarrow> blank_text (gl_column m = 1) (gl_rest m)"
      using s(1,3) False by (simp add: reads_def)
    with s(3) False gl.remaining_step [OF False] show ?thesis by auto
  qed
  with r s(1,2) assms(2) show ?thesis by (auto simp: unit_read_def reads_def)
qed

lemma example_lexer_unit:
  "get_next_unit example_lexer = Inr (\<lparr>pu_type = OptionalUnit, pu_lexeme = ''[<ab>]'', pu_line = 2, pu_column = 3\<rparr>,
    \<lparr>gl_input = ''; a <b>'' @ newline # ''  [<ab>] ::= '', gl_pos = 16, gl_line = 2, gl_column = 9\<rparr>)"
  by code_simp

theorem get_next_unit_lossless_witness:
  "\<exists>blank. blank_text True blank \<and> gl_rest example_lexer = blank @ ''[<ab>]'' @ '' ::= ''"
proof -
  have "gl_ok example_lexer" "gl_column example_lexer = 1" by (simp_all add: example_lexer_def) (simp add: make_grammar_lexer_def)
  then show ?thesis
    using get_next_unit_lossless [OF example_lexer_unit] by (auto simp: gl_rest_def)
qed

text \<open>
  The line and the column of a unit. Optionals, repetitions and the end of the file carry the
  position of their first character and quoted terminals that of the character behind the opening
  quote; every other unit carries the position behind its last character, not the one where it
  starts.
\<close>

theorem unit_position:
  assumes "get_next_unit l = Inr (u, l')" "gl_ok l"
  shows "\<exists>before. gl_input l = before @ pu_lexeme u @ gl_rest l' \<and>
    (let read = (case pu_type u of
         OptionalUnit \<Rightarrow> before | Repetition \<Rightarrow> before | EndOfFile \<Rightarrow> before
       | Terminal \<Rightarrow> if quoted_text (pu_lexeme u) then before @ [hd (pu_lexeme u)] else before @ pu_lexeme u
       | _ \<Rightarrow> before @ pu_lexeme u)
     in pu_line u = text_line read \<and> pu_column u = text_column read)"
proof -
  obtain s where s: "reads l s (gl_skip_whitespace l)" "unit_read (gl_skip_whitespace l) u l'"
    "gl_ok (gl_skip_whitespace l)" "reads l (s @ pu_lexeme u) l'"
    using get_next_unit_steps [OF assms] by metis
  define m where "m = gl_skip_whitespace l"
  define before where "before = take (gl_pos m) (gl_input m)"
  obtain k where k: "reads m (position_prefix (pu_type u) (pu_lexeme u)) k"
    "pu_line u = gl_line k" "pu_column u = gl_column k"
    using s(2) by (auto simp: unit_read_def m_def)
  have input: "gl_input l = before @ pu_lexeme u @ gl_rest l'"
    using gl_ok_pos [OF s(3)] s(1,2) by (simp add: before_def m_def unit_read_def reads_def)
  have "pu_line u = text_line (before @ position_prefix (pu_type u) (pu_lexeme u))"
    "pu_column u = text_column (before @ position_prefix (pu_type u) (pu_lexeme u))"
    using reads_position [OF k(1)] s(3) by (simp_all add: k(2,3) before_def m_def)
  moreover have "take 1 (pu_lexeme u) = [hd (pu_lexeme u)]" if "quoted_text (pu_lexeme u)"
    using that by (cases "pu_lexeme u") (auto simp: quoted_text_def enclosed_by_def)
  ultimately show ?thesis
    by (intro exI [of _ before] conjI [OF input])
      (auto simp: position_prefix_def Let_def split: production_unit_type.split)
qed

theorem unit_position_witness:
  "\<exists>before. gl_input example_lexer = before @ ''[<ab>] ::= '' \<and> text_line before = 2 \<and> text_column before = 3"
proof -
  have "gl_ok example_lexer" by (simp add: example_lexer_def)
  from unit_position [OF example_lexer_unit this] obtain before where
    "gl_input example_lexer = before @ ''[<ab>]'' @ '' ::= ''" "2 = text_line before" "3 = text_column before"
    by (auto simp: gl_rest_def)
  then show ?thesis by (intro exI [of _ before]) simp
qed

end
