(* ===== verification/Bnf_Grammar.thy ===== *)
theory Bnf_Grammar
  imports Bnf_Lexer
begin

text \<open>
  \<open>src/include/piaabo/parse/bnf/grammar_parser.h\<close> and its \<open>.cpp\<close>: the parser of grammar files,
  with the checks it makes on units and on the finished grammar. The parser is a lexer, the current
  unit and the rules found so far. Its loops end because the lexer always moves on.
\<close>

section \<open>Rendering and checks\<close>

definition show_unit :: "production_unit \<Rightarrow> string" where
  "show_unit u = pu_lexeme u @ ''('' @ unit_type_name (pu_type u) @ '')''"

fun show_units :: "production_unit list \<Rightarrow> string" where
  "show_units [] = []"
| "show_units [u] = CHR 0x22 # show_unit u @ [CHR 0x22]"
| "show_units (u # us) = CHR 0x22 # show_unit u @ CHR 0x22 # '', '' @ show_units us"

definition print_listof_units :: "production_unit list \<Rightarrow> string" where
  "print_listof_units us = ''{'' @ show_units us @ ''}''"

definition check_symb_present :: "production_unit list \<Rightarrow> production_unit_type \<Rightarrow> string \<Rightarrow> bool" where
  "check_symb_present us t s \<longleftrightarrow> list_ex (\<lambda>u. pu_type u = t \<and> pu_lexeme u = s) us"

definition check_includes_type :: "production_unit list \<Rightarrow> production_unit_type \<Rightarrow> bool" where
  "check_includes_type us t \<longleftrightarrow> list_ex (\<lambda>u. pu_type u = t) us"

definition check_is_informationUnit :: "production_unit \<Rightarrow> bool" where
  "check_is_informationUnit u = (case pu_type u of Terminal \<Rightarrow> True | NonTerminal \<Rightarrow> True
     | OptionalUnit \<Rightarrow> True | Repetition \<Rightarrow> True | _ \<Rightarrow> False)"

definition unit_error :: "string \<Rightarrow> production_unit \<Rightarrow> exn" where
  "unit_error msg u = RuntimeError (''Grammar Syntax Error: '' @ msg @ CHR 0x27 # pu_lexeme u @ CHR 0x27 #
     '' at line '' @ show_int (pu_line u) @ '', column '' @ show_int (pu_column u))"

definition instruction_lhs :: string where
  "instruction_lhs = ''<instruction>''"

definition validate_is_Instruction :: "production_unit \<Rightarrow> unit result" where
  "validate_is_Instruction u = require (\<not> (pu_type u \<noteq> NonTerminal \<or> pu_lexeme u \<noteq> instruction_lhs))
     (unit_error (''Initial ProductionRule must start with '' @ CHR 0x27 # ''<instruction> ::= '' @ CHR 0x27 # '' found instead '') u)"

definition validate_isNot_ProductionOperator :: "production_unit \<Rightarrow> unit result" where
  "validate_isNot_ProductionOperator u = require (\<not> (pu_type u = Punctuation \<and> pu_lexeme u = ''::=''))
     (unit_error ''Unexpected ProductionOperator, found '' u)"

definition validate_is_ProductionOperator :: "production_unit \<Rightarrow> unit result" where
  "validate_is_ProductionOperator u = require (\<not> (pu_type u \<noteq> Punctuation \<or> pu_lexeme u \<noteq> ''::=''))
     (unit_error (''Expected '' @ CHR 0x27 # ''::='' @ CHR 0x27 # '' after left-hand size non-terminal '') u)"

definition validate_is_InformationUnit :: "production_unit \<Rightarrow> unit result" where
  "validate_is_InformationUnit u = require (check_is_informationUnit u)
     (unit_error (''Expected '' @ CHR 0x22 # ''Terminal'' @ CHR 0x22 # '', '' @ CHR 0x27 # ''<NonTerminal>'' @ CHR 0x27 #
       '', {<Repetition>} or [<Optional>] unit after ProductionOperator ::= '') u)"

definition validate_isNot_Nonterminal :: "production_unit \<Rightarrow> unit result" where
  "validate_isNot_Nonterminal u = require (\<not> pu_type u \<noteq> NonTerminal)
     (unit_error ''Expected a non-terminal on the left-hand side '' u)"

definition validate_is_semicolon :: "production_unit \<Rightarrow> unit result" where
  "validate_is_semicolon u = require (\<not> (pu_type u \<noteq> Punctuation \<or> pu_lexeme u \<noteq> '';''))
     (unit_error (''Expected '' @ CHR 0x27 # '';'' @ CHR 0x27 # '' at the end of each production (each line) for right-hand side '') u)"

section \<open>Alternatives\<close>

text \<open>\<open>lexeme.size() >= 3 && (front() == '[' || front() == '{')\<close> and the text between the ends is \<open>lhs\<close>.\<close>

definition inner_is :: "string \<Rightarrow> string \<Rightarrow> bool" where
  "inner_is lhs lexeme \<longleftrightarrow> length lexeme \<ge> 3 \<and> (hd lexeme = CHR ''['' \<or> hd lexeme = CHR ''{'') \<and>
     take (length lexeme - 2) (tl lexeme) = lhs"

definition unit_is_recursive :: "string \<Rightarrow> production_unit \<Rightarrow> bool" where
  "unit_is_recursive lhs u =
     (if pu_type u = NonTerminal then pu_lexeme u = lhs
      else if pu_type u = OptionalUnit \<or> pu_type u = Repetition then inner_is lhs (pu_lexeme u)
      else False)"

definition add_type_flags :: "production_unit \<Rightarrow> flags \<Rightarrow> flags" where
  "add_type_flags u f =
     flag_or (flag_or f (if pu_type u = OptionalUnit then FlagOptional else FlagNone))
       (if pu_type u = Repetition then FlagRepetition else FlagNone)"

definition sequence_step :: "string \<Rightarrow> production_unit list \<times> flags \<Rightarrow> production_unit \<Rightarrow> production_unit list \<times> flags" where
  "sequence_step lhs acc u =
     (if check_is_informationUnit u then
        let f = (if unit_is_recursive lhs u then flag_or (snd acc) FlagRecursion else snd acc)
        in (fst acc @ [u], add_type_flags u f)
      else acc)"

definition alternative_error :: "string \<Rightarrow> production_unit list \<Rightarrow> int \<Rightarrow> 'a result" where
  "alternative_error msg us line =
     syntax_error (msg @ print_listof_units us @ ''... at line '' @ show_int line)"

text \<open>The line is the one of the current unit of the parser.\<close>

definition parse_production_alternative ::
  "int \<Rightarrow> string \<Rightarrow> production_unit list \<Rightarrow> production_alternative result"
where
  "parse_production_alternative line lhs us =
     (if length us = 0 then
        syntax_error (''Not undestood empty right-hand side alternative at line '' @ show_int line)
      else if length us > 1 then
        let (dunits, dflags) = foldl (sequence_step lhs) ([], FlagNone) us in
        if length dunits = 0 then alternative_error ''Empty information on right-hand side alternative : ...'' us line
        else Inr \<lparr>pa_lhs = lhs, pa_flags = dflags, pa_content = Sequence dunits\<rparr>
      else let u = us ! 0 in
        if \<not> check_is_informationUnit u then
          alternative_error ''Right-hand side alternative has no information unit : ...'' us line
        else
          let f1 = flag_or FlagNone (if lhs = pu_lexeme u then FlagRecursion else FlagNone);
              f2 = (if (pu_type u = OptionalUnit \<or> pu_type u = Repetition) \<and> inner_is lhs (pu_lexeme u)
                    then flag_or f1 FlagRecursion else f1);
              dflags = add_type_flags u f2
          in if flag_and dflags FlagRecursion = FlagRecursion then
               alternative_error ''Infinite recursion found at Right-hand side alternative, TIP: recursion alternative must add information ...'' us line
             else Inr \<lparr>pa_lhs = lhs, pa_flags = dflags, pa_content = Single u\<rparr>)"

section \<open>The parser\<close>

record grammar_parser =
  gp_lexer :: grammar_lexer
  gp_current :: production_unit
  gp_grammar :: production_grammar

definition make_grammar_parser :: "grammar_lexer \<Rightarrow> grammar_parser" where
  "make_grammar_parser l = \<lparr>gp_lexer = gl_reset l, gp_current = default_unit, gp_grammar = []\<rparr>"

definition advance_unit :: "grammar_parser \<Rightarrow> grammar_parser result" where
  "advance_unit p = rbind (get_next_unit (gp_lexer p)) (\<lambda>(u, l). Inr (p\<lparr>gp_current := u, gp_lexer := l\<rparr>))"

definition is_punctuation :: "string \<Rightarrow> production_unit \<Rightarrow> bool" where
  "is_punctuation s u \<longleftrightarrow> pu_type u = Punctuation \<and> pu_lexeme u = s"

text \<open>One pass of the loop over the right-hand side, up to its two exits.\<close>

definition rhs_step ::
  "grammar_parser \<Rightarrow> production_unit list list \<Rightarrow> nat \<Rightarrow> (grammar_parser \<times> production_unit list list \<times> nat) result"
where
  "rhs_step p alts alternative_index =
     rbind (if is_punctuation ''|'' (gp_current p)
            then rbind (advance_unit p) (\<lambda>p. Inr (p, alts @ [[]], alternative_index + 1))
            else Inr (p, alts, alternative_index)) (\<lambda>(p, alts, i).
       rbind (validate_is_InformationUnit (gp_current p)) (\<lambda>_.
       let alts = alts[i := alts ! i @ [gp_current p]] in
       rbind (advance_unit p) (\<lambda>p.
       rbind (validate_isNot_ProductionOperator (gp_current p)) (\<lambda>_. Inr (p, alts, i)))))"

lemma gl_skip_comment_shorter: "length (gl_rest (gl_skip_comment_line l)) \<le> length (gl_rest l)"
  by (simp add: gl_skip_comment_line_rest) (metis diff_le_self le_trans length_dropWhile_le)

lemma gl_skip_whitespace_shorter: "length (gl_rest (gl_skip_whitespace l)) \<le> length (gl_rest l)"
proof (induction l rule: gl_skip_whitespace.induct)
  case (1 l)
  let ?m = "snd (gl_scan is_space l [])"
  have "length (gl_rest (gl_skip_comment_line ?m)) \<le> length (gl_rest l)"
    using gl_skip_comment_shorter gl_scan_shorter le_trans by blast
  with 1 gl_scan_shorter [of is_space l "[]"] show ?case
    by (subst gl_skip_whitespace.simps) (auto simp: Let_def)
qed

lemma get_next_unit_progress:
  assumes "get_next_unit l = Inr (u, l')"
  shows "length (gl_rest l') \<le> length (gl_rest l)"
    and "pu_type u \<noteq> EndOfFile \<or> \<not> gl_at_end l' \<Longrightarrow> length (gl_rest l') < length (gl_rest l)"
proof -
  have r: "unit_read (gl_skip_whitespace l) u l'" "pu_type u = EndOfFile \<longleftrightarrow> gl_at_end (gl_skip_whitespace l)"
    using get_next_unit_reads [OF assms] by simp_all
  then have len: "length (gl_rest (gl_skip_whitespace l)) = length (pu_lexeme u) + length (gl_rest l')"
    by (simp add: unit_read_def reads_def)
  then show "length (gl_rest l') \<le> length (gl_rest l)"
    using gl_skip_whitespace_shorter [of l] by simp
  have "pu_lexeme u \<noteq> []" if "pu_type u \<noteq> EndOfFile"
    using r(1) that lexeme_nonempty by (auto simp: unit_read_def)
  moreover have "gl_at_end l'" if "pu_type u = EndOfFile"
    using r len that by (auto simp: gl.at_end_iff)
  ultimately show "length (gl_rest l') < length (gl_rest l)" if "pu_type u \<noteq> EndOfFile \<or> \<not> gl_at_end l'"
    using that len gl_skip_whitespace_shorter [of l] by (cases "pu_lexeme u") auto
qed

abbreviation unread :: "grammar_parser \<Rightarrow> nat" where
  "unread p \<equiv> length (gl_rest (gp_lexer p))"

lemma advance_unit_iff:
  "advance_unit p = Inr p' \<longleftrightarrow> (\<exists>u l. get_next_unit (gp_lexer p) = Inr (u, l) \<and> p' = p\<lparr>gp_current := u, gp_lexer := l\<rparr>)"
  by (auto simp: advance_unit_def rbind_Inr_iff)

lemma advance_unit_progress:
  assumes "advance_unit p = Inr p'"
  shows "unread p' \<le> unread p"
    and "pu_type (gp_current p') \<noteq> EndOfFile \<or> \<not> gl_at_end (gp_lexer p') \<Longrightarrow> unread p' < unread p"
  using assms get_next_unit_progress by (auto simp: advance_unit_iff)

lemma rhs_step_progress:
  assumes "rhs_step p alts i = Inr (p', alts', i')"
  shows "unread p' \<le> unread p" and "\<not> gl_at_end (gp_lexer p') \<Longrightarrow> unread p' < unread p"
proof -
  obtain q where "unread q \<le> unread p" "advance_unit q = Inr p'"
    using assms advance_unit_progress(1)
    by (fastforce simp: rhs_step_def rbind_Inr_iff Let_def split: if_splits)
  then show "unread p' \<le> unread p" "\<not> gl_at_end (gp_lexer p') \<Longrightarrow> unread p' < unread p"
    using advance_unit_progress by (blast intro: le_trans less_le_trans)+
qed

function rhs_loop ::
  "grammar_parser \<Rightarrow> production_unit list list \<Rightarrow> nat \<Rightarrow> (grammar_parser \<times> production_unit list list) result"
where
  "rhs_loop p alts i =
     (case rhs_step p alts i of
        Inl e \<Rightarrow> Inl e
      | Inr (p', alts', i') \<Rightarrow>
          if gl_at_end (gp_lexer p') then Inr (p', alts')
          else if is_punctuation '';'' (gp_current p') then Inr (p', alts')
          else rhs_loop p' alts' i')"
  by pat_completeness auto
termination
  by (relation "measure (\<lambda>(p, alts, i). unread p)") (auto dest: rhs_step_progress(2))

declare rhs_loop.simps [simp del]

definition parse_next_production_rule :: "grammar_parser \<Rightarrow> (production_rule \<times> grammar_parser) result" where
  "parse_next_production_rule p =
     rbind (validate_isNot_Nonterminal (gp_current p)) (\<lambda>_.
     let lhs = pu_lexeme (gp_current p) in
     rbind (advance_unit p) (\<lambda>p.
     rbind (validate_is_ProductionOperator (gp_current p)) (\<lambda>_.
     rbind (advance_unit p) (\<lambda>p.
     rbind (rhs_loop p [[]] 0) (\<lambda>(p, alts).
     rbind (validate_is_semicolon (gp_current p)) (\<lambda>_.
     rbind (advance_unit p) (\<lambda>p.
     rbind (map_res (parse_production_alternative (pu_line (gp_current p)) lhs) alts) (\<lambda>rhs.
       Inr (\<lparr>pr_lhs = lhs, pr_rhs = rhs\<rparr>, p)))))))))"

lemma rhs_loop_progress: "rhs_loop p alts i = Inr (p', alts') \<Longrightarrow> unread p' \<le> unread p"
proof (induction p alts i rule: rhs_loop.induct)
  case (1 p alts i)
  then obtain q a j where q: "rhs_step p alts i = Inr (q, a, j)"
    by (cases "rhs_step p alts i") (auto simp: rhs_loop.simps [of p])
  with 1 rhs_step_progress(1) [OF q] show ?case
    by (fastforce simp: rhs_loop.simps [of p] split: if_splits)
qed

lemma parse_next_production_rule_progress:
  assumes "parse_next_production_rule p = Inr (r, p')"
  shows "unread p' < unread p"
proof -
  obtain p1 p2 p3 alts where p: "advance_unit p = Inr p1" "is_punctuation ''::='' (gp_current p1)"
    "advance_unit p1 = Inr p2" "rhs_loop p2 [[]] 0 = Inr (p3, alts)" "advance_unit p3 = Inr p'"
    using assms by (auto simp: parse_next_production_rule_def rbind_Inr_iff Let_def
        validate_is_ProductionOperator_def require_Inr_iff is_punctuation_def)
  then have "unread p1 < unread p"
    by (intro advance_unit_progress(2)) (auto simp: is_punctuation_def)
  moreover have "unread p' \<le> unread p1"
    using p advance_unit_progress(1) rhs_loop_progress by (meson le_trans)
  ultimately show ?thesis by simp
qed

function grammar_loop :: "grammar_parser \<Rightarrow> grammar_parser result" where
  "grammar_loop p =
     (if pu_type (gp_current p) = EndOfFile then Inr p
      else case parse_next_production_rule p of
          Inl e \<Rightarrow> Inl e
        | Inr (rule, p') \<Rightarrow> grammar_loop (p'\<lparr>gp_grammar := gp_grammar p' @ [rule]\<rparr>))"
  by pat_completeness auto
termination
  by (relation "measure unread") (auto dest: parse_next_production_rule_progress)

declare grammar_loop.simps [simp del]

section \<open>Verification of a grammar\<close>

definition verify_alternative :: "production_rule \<Rightarrow> nat \<Rightarrow> production_alternative \<Rightarrow> unit result" where
  "verify_alternative rule line_number a = (case pa_content a of
       Single u \<Rightarrow>
         if flag_and (pa_flags a) FlagRecursion = FlagRecursion then
           syntax_error (''Infinite recursion found on validation at Right-hand side single alternative, TIP: recursion alternative must add information '' @
             pr_lhs rule @ '' at line '' @ show_nat line_number)
         else validate_is_InformationUnit u
     | Sequence us \<Rightarrow> rbind (map_res validate_is_InformationUnit us) (\<lambda>_. Inr ())
     | UnknownContent \<Rightarrow>
         syntax_error (''Unable to parse ProductionAlternative of Type::Unknown, on Rule: '' @
           pr_lhs rule @ '' at line: '' @ show_nat line_number))"

fun verify_rules :: "nat \<Rightarrow> production_grammar \<Rightarrow> unit result" where
  "verify_rules line_number [] = Inr ()"
| "verify_rules line_number (r # rs) =
     rbind (map_res (verify_alternative r (line_number + 1)) (pr_rhs r)) (\<lambda>_. verify_rules (line_number + 1) rs)"

definition verity_grammar :: "production_grammar \<Rightarrow> unit result" where
  "verity_grammar g =
     rbind (verify_rules 0 g) (\<lambda>_.
       let sorted_lhs = sort (map pr_lhs g) in
       if length sorted_lhs - length (remdups_adj sorted_lhs) > 0 then
         syntax_error ''Duplicated elements found in Grammar, please review the grammar file''
       else Inr ())"

definition parse_grammar :: "grammar_parser \<Rightarrow> grammar_parser result" where
  "parse_grammar p =
     rbind (advance_unit (p\<lparr>gp_lexer := gl_reset (gp_lexer p)\<rparr>)) (\<lambda>p.
     rbind (validate_is_Instruction (gp_current p)) (\<lambda>_.
     rbind (grammar_loop p) (\<lambda>p.
     rbind (verity_grammar (gp_grammar p)) (\<lambda>_. Inr p))))"

definition get_grammar :: "grammar_parser \<Rightarrow> production_grammar" where
  "get_grammar p = gp_grammar p"

section \<open>Well-formed grammars\<close>

definition content_flags :: "string \<Rightarrow> production_unit list \<Rightarrow> flags" where
  "content_flags lhs us =
     (if list_ex (unit_is_recursive lhs) us then FlagRecursion else FlagNone) +
     (if check_includes_type us OptionalUnit then FlagOptional else FlagNone) +
     (if check_includes_type us Repetition then FlagRepetition else FlagNone)"

definition unit_ok :: "production_unit \<Rightarrow> bool" where
  "unit_ok u \<longleftrightarrow> check_is_informationUnit u \<and> lexeme_ok (pu_type u) (pu_lexeme u)"

definition alternative_ok :: "string \<Rightarrow> production_alternative \<Rightarrow> bool" where
  "alternative_ok lhs a \<longleftrightarrow> pa_lhs a = lhs \<and> list_all unit_ok (units_of_content (pa_content a)) \<and>
     pa_flags a = content_flags lhs (units_of_content (pa_content a)) \<and>
     (case pa_content a of Single u \<Rightarrow> \<not> unit_is_recursive lhs u | Sequence us \<Rightarrow> length us \<ge> 2
        | UnknownContent \<Rightarrow> False)"

definition rule_ok :: "production_rule \<Rightarrow> bool" where
  "rule_ok r \<longleftrightarrow> non_terminal_text (pr_lhs r) \<and> pr_rhs r \<noteq> [] \<and> list_all (alternative_ok (pr_lhs r)) (pr_rhs r)"

definition grammar_ok :: "production_grammar \<Rightarrow> bool" where
  "grammar_ok g \<longleftrightarrow> g \<noteq> [] \<and> pr_lhs (hd g) = instruction_lhs \<and> unique_rules g \<and> list_all rule_ok g"

lemmas flag_defs = FlagNone_def FlagRecursion_def FlagOptional_def FlagRepetition_def flag_or_def flag_and_def

text \<open>The eight values a set of flags takes, and the union of two of them.\<close>

lemma content_flags_snoc:
  "content_flags lhs (us @ [u]) =
    add_type_flags u (if unit_is_recursive lhs u then flag_or (content_flags lhs us) FlagRecursion else content_flags lhs us)"
  by (cases "list_ex (unit_is_recursive lhs) us"; cases "check_includes_type us OptionalUnit";
      cases "check_includes_type us Repetition"; cases "pu_type u";
      cases "unit_is_recursive lhs u")
    (simp_all add: content_flags_def add_type_flags_def check_includes_type_def flag_defs)

lemma sequence_fold:
  "list_all check_is_informationUnit us \<Longrightarrow>
    foldl (sequence_step lhs) ([], FlagNone) us = (us, content_flags lhs us)"
proof (induction us rule: rev_induct)
  case Nil
  show ?case by (simp add: content_flags_def check_includes_type_def FlagNone_def)
next
  case (snoc u us)
  then show ?case by (simp add: sequence_step_def content_flags_snoc Let_def)
qed

lemma add_type_flags_single:
  "content_flags lhs [u] = add_type_flags u (if unit_is_recursive lhs u then FlagRecursion else FlagNone)"
  using content_flags_snoc [of lhs "[]" u]
  by (simp add: content_flags_def check_includes_type_def flag_defs)

lemma recursion_flag: "flag_and (add_type_flags u f) FlagRecursion = FlagRecursion \<longleftrightarrow> flag_and f FlagRecursion = FlagRecursion"
  by (cases "pu_type u") (simp_all add: add_type_flags_def flag_defs bit.conj_disj_distrib2)

lemma unit_lexeme_recursive:
  assumes "lexeme_ok (pu_type u) (pu_lexeme u)" "non_terminal_text lhs" "lhs = pu_lexeme u"
  shows "pu_type u = NonTerminal"
proof -
  obtain t where t: "pu_lexeme u = CHR ''<'' # t"
    using assms(2,3) by (cases "pu_lexeme u") (auto simp: non_terminal_text_def)
  have "\<not> quoted_text (CHR ''<'' # t)" by (simp add: quoted_text_def enclosed_by_def)
  moreover have "\<not> unquoted_chr CHR ''<''" by code_simp
  ultimately show ?thesis
    using assms(1) by (cases "pu_type u") (simp_all add: lexeme_ok_def enclosed_by_def t)
qed

lemma alternative_parsed:
  assumes "parse_production_alternative line lhs us = Inr a" "list_all unit_ok us" "non_terminal_text lhs"
  shows "alternative_ok lhs a \<and> units_of_content (pa_content a) = us"
proof (cases "length us > 1")
  case True
  have "list_all check_is_informationUnit us" using assms(2) by (auto simp: unit_ok_def list_all_iff)
  with True assms have "a = \<lparr>pa_lhs = lhs, pa_flags = content_flags lhs us, pa_content = Sequence us\<rparr>"
    by (auto simp: parse_production_alternative_def sequence_fold split: if_splits)
  with True assms(2) show ?thesis by (simp add: alternative_ok_def units_of_content_def)
next
  case False
  then obtain u where u: "us = [u]"
    using assms(1) by (cases us) (auto simp: parse_production_alternative_def)
  have info: "check_is_informationUnit u" "lexeme_ok (pu_type u) (pu_lexeme u)"
    using assms(2) by (simp_all add: u unit_ok_def)
  define f1 where "f1 = (if lhs = pu_lexeme u then FlagRecursion else FlagNone)"
  define f2 where "f2 = (if (pu_type u = OptionalUnit \<or> pu_type u = Repetition) \<and> inner_is lhs (pu_lexeme u)
    then FlagRecursion else f1)"
  have f2: "f2 = (if unit_is_recursive lhs u then FlagRecursion else FlagNone)"
    using unit_lexeme_recursive [OF info(2) assms(3)]
    by (auto simp: f1_def f2_def unit_is_recursive_def)
  have rec: "flag_and f2 FlagRecursion = FlagRecursion \<longleftrightarrow> unit_is_recursive lhs u"
    by (simp add: f2 flag_defs)
  have "flag_or FlagNone f1 = f1" "flag_or f1 FlagRecursion = FlagRecursion"
    by (simp_all add: f1_def flag_defs)
  then have "parse_production_alternative line lhs us =
      (if flag_and (add_type_flags u f2) FlagRecursion = FlagRecursion then
         alternative_error ''Infinite recursion found at Right-hand side alternative, TIP: recursion alternative must add information ...'' us line
       else Inr \<lparr>pa_lhs = lhs, pa_flags = add_type_flags u f2, pa_content = Single u\<rparr>)"
    using info(1) by (simp add: parse_production_alternative_def u f1_def [symmetric] f2_def Let_def)
  with assms(1) have "\<not> unit_is_recursive lhs u"
    "a = \<lparr>pa_lhs = lhs, pa_flags = add_type_flags u f2, pa_content = Single u\<rparr>"
    by (auto simp: recursion_flag rec alternative_error_def split: if_splits)
  then show ?thesis
    using assms(2) by (simp add: alternative_ok_def units_of_content_def add_type_flags_single f2 u)
qed

section \<open>The parser keeps them\<close>

definition current_ok :: "grammar_parser \<Rightarrow> bool" where
  "current_ok p \<longleftrightarrow> lexeme_ok (pu_type (gp_current p)) (pu_lexeme (gp_current p))"

definition alts_ok :: "production_unit list list \<Rightarrow> nat \<Rightarrow> bool" where
  "alts_ok alts i \<longleftrightarrow> length alts = i + 1 \<and> list_all (list_all unit_ok) alts"

lemma advance_unit_ok: "advance_unit p = Inr p' \<Longrightarrow> current_ok p' \<and> gp_grammar p' = gp_grammar p"
  by (auto simp: advance_unit_iff current_ok_def unit_read_def dest: get_next_unit_reads)

lemma list_all_update: "list_all P xs \<Longrightarrow> P x \<Longrightarrow> list_all P (xs[i := x])"
  unfolding list_all_iff by (metis insert_iff set_update_subset_insert subsetD)

lemma rhs_step_ok:
  assumes "rhs_step p alts i = Inr (p', alts', i')" "current_ok p" "alts_ok alts i"
  shows "current_ok p' \<and> gp_grammar p' = gp_grammar p \<and> alts_ok alts' i'"
proof -
  obtain q as where pre: "(if is_punctuation ''|'' (gp_current p)
      then rbind (advance_unit p) (\<lambda>p. Inr (p, alts @ [[]], i + 1)) else Inr (p, alts, i)) = Inr (q, as, i')"
    and q: "check_is_informationUnit (gp_current q)" "alts' = as[i' := as ! i' @ [gp_current q]]" "advance_unit q = Inr p'"
    using assms(1) by (auto simp: rhs_step_def rbind_Inr_iff Let_def validate_is_InformationUnit_def require_Inr_iff
        simp del: if_split)
  have pre_ok: "current_ok q" "gp_grammar q = gp_grammar p" "alts_ok as i'"
    using pre assms(2,3) by (auto simp: rbind_Inr_iff alts_ok_def dest: advance_unit_ok split: if_splits)
  have "list_all unit_ok (as ! i')" using pre_ok(3) by (simp add: alts_ok_def list_all_length)
  then have "list_all unit_ok (as ! i' @ [gp_current q])"
    using q(1) pre_ok(1) by (simp add: unit_ok_def current_ok_def)
  then have "alts_ok alts' i'"
    using pre_ok(3) by (simp add: alts_ok_def q(2) list_all_update)
  with pre_ok(2) advance_unit_ok [OF q(3)] show ?thesis by simp
qed

lemma rhs_loop_ok:
  "rhs_loop p alts i = Inr (p', alts') \<Longrightarrow> current_ok p \<Longrightarrow> alts_ok alts i \<Longrightarrow>
    gp_grammar p' = gp_grammar p \<and> alts' \<noteq> [] \<and> list_all (list_all unit_ok) alts'"
proof (induction p alts i rule: rhs_loop.induct)
  case (1 p alts i)
  obtain q as j where q: "rhs_step p alts i = Inr (q, as, j)"
    using 1(2) by (cases "rhs_step p alts i") (auto simp: rhs_loop.simps [of p])
  have ok: "current_ok q" "gp_grammar q = gp_grammar p" "alts_ok as j" "as \<noteq> []"
    using rhs_step_ok [OF q 1(3,4)] by (auto simp: alts_ok_def)
  show ?case
  proof (cases "gl_at_end (gp_lexer q) \<or> is_punctuation '';'' (gp_current q)")
    case True
    with 1(2) have "p' = q" "alts' = as" by (auto simp: rhs_loop.simps [of p] q split: if_splits)
    with ok show ?thesis by (simp add: alts_ok_def)
  next
    case False
    with 1(2) have "rhs_loop q as j = Inr (p', alts')" by (simp add: rhs_loop.simps [of p] q)
    with 1(1) [OF q refl refl] ok False show ?thesis by auto
  qed
qed

lemma parse_next_production_rule_ok:
  assumes "parse_next_production_rule p = Inr (r, p')" "current_ok p"
  shows "rule_ok r \<and> pr_lhs r = pu_lexeme (gp_current p) \<and> current_ok p' \<and> gp_grammar p' = gp_grammar p"
proof -
  let ?lhs = "pu_lexeme (gp_current p)"
  obtain p1 p2 p3 alts rhs where p: "pu_type (gp_current p) = NonTerminal" "advance_unit p = Inr p1"
    "advance_unit p1 = Inr p2" "rhs_loop p2 [[]] 0 = Inr (p3, alts)" "advance_unit p3 = Inr p'"
    "map_res (parse_production_alternative (pu_line (gp_current p')) ?lhs) alts = Inr rhs"
    and r: "r = \<lparr>pr_lhs = ?lhs, pr_rhs = rhs\<rparr>"
    using assms(1) by (auto simp: parse_next_production_rule_def rbind_Inr_iff Let_def
        validate_isNot_Nonterminal_def require_Inr_iff simp del: map_res_Inr_iff)
  have lhs: "non_terminal_text ?lhs"
    using assms(2) p(1) by (simp add: current_ok_def lexeme_ok_def)
  have alts: "alts \<noteq> []" "list_all (list_all unit_ok) alts" "gp_grammar p3 = gp_grammar p2"
    using rhs_loop_ok [OF p(4)] advance_unit_ok [OF p(3)] by (auto simp: alts_ok_def)
  have all: "list_all2 (\<lambda>us a. parse_production_alternative (pu_line (gp_current p')) ?lhs us = Inr a) alts rhs"
    using p(6) by (simp add: map_res_Inr_iff)
  have "list_all (alternative_ok ?lhs) rhs"
    unfolding list_all_iff
  proof
    fix a assume "a \<in> set rhs"
    then obtain k where k: "k < length rhs" "a = rhs ! k" by (auto simp: in_set_conv_nth)
    then have "parse_production_alternative (pu_line (gp_current p')) ?lhs (alts ! k) = Inr a" "k < length alts"
      using all by (auto simp: list_all2_conv_all_nth)
    moreover from this have "list_all unit_ok (alts ! k)" using alts(2) by (simp add: list_all_length)
    ultimately show "alternative_ok ?lhs a" using alternative_parsed lhs by blast
  qed
  moreover have "rhs \<noteq> []" using all alts(1) by auto
  ultimately have "rule_ok r" using lhs by (simp add: r rule_ok_def)
  then show ?thesis
    using advance_unit_ok [OF p(2)] advance_unit_ok [OF p(3)] advance_unit_ok [OF p(5)] alts(3) by (simp add: r)
qed

lemma grammar_loop_ok:
  "grammar_loop p = Inr p' \<Longrightarrow> current_ok p \<Longrightarrow> list_all rule_ok (gp_grammar p) \<Longrightarrow>
    list_all rule_ok (gp_grammar p') \<and>
    (\<exists>rs. gp_grammar p' = gp_grammar p @ rs \<and>
      (pu_type (gp_current p) \<noteq> EndOfFile \<longrightarrow> rs \<noteq> [] \<and> pr_lhs (hd rs) = pu_lexeme (gp_current p)))"
proof (induction p rule: grammar_loop.induct)
  case (1 p)
  show ?case
  proof (cases "pu_type (gp_current p) = EndOfFile")
    case True
    with 1 show ?thesis by (simp add: grammar_loop.simps [of p])
  next
    case False
    with 1(2) obtain r q where q: "parse_next_production_rule p = Inr (r, q)"
      "grammar_loop (q\<lparr>gp_grammar := gp_grammar q @ [r]\<rparr>) = Inr p'"
      by (auto simp: grammar_loop.simps [of p] split: sum.splits)
    have ok: "rule_ok r" "pr_lhs r = pu_lexeme (gp_current p)" "current_ok q" "gp_grammar q = gp_grammar p"
      using parse_next_production_rule_ok [OF q(1) 1(3)] by auto
    have "list_all rule_ok (gp_grammar p')"
      "\<exists>rs. gp_grammar p' = (gp_grammar p @ [r]) @ rs"
      using 1(1) [OF False q(1) refl] q(2) ok 1(4) by (auto simp: current_ok_def)
    then obtain rs where "list_all rule_ok (gp_grammar p')" "gp_grammar p' = gp_grammar p @ r # rs" by auto
    with ok(2) show ?thesis by (intro conjI exI [of _ "r # rs"]) simp_all
  qed
qed

section \<open>What the verification accepts\<close>

lemma sorted_remdups_adj_distinct:
  fixes xs :: "'a :: linorder list"
  shows "sorted xs \<Longrightarrow> distinct (remdups_adj xs)"
  by (induction xs rule: remdups_adj.induct) auto

lemma duplicates_after_sort:
  fixes xs :: "'a :: linorder list"
  shows "length (sort xs) - length (remdups_adj (sort xs)) > 0 \<longleftrightarrow> \<not> distinct xs"
proof -
  have "length (remdups_adj (sort xs)) = card (set xs)"
    using distinct_card [OF sorted_remdups_adj_distinct [OF sorted_sort [of xs]]] by simp
  then show ?thesis
    using card_length [of xs] by (auto simp: distinct_card intro: card_distinct)
qed

lemma map_res_unit_iff: "(\<exists>us. map_res f xs = Inr us) \<longleftrightarrow> list_all (\<lambda>x. \<exists>y. f x = Inr y) xs"
  by (induction xs) (auto simp: rbind_Inr_iff simp del: map_res_Inr_iff)

definition alternative_accepted :: "production_alternative \<Rightarrow> bool" where
  "alternative_accepted a = (case pa_content a of
       Single u \<Rightarrow> check_is_informationUnit u \<and> flag_and (pa_flags a) FlagRecursion \<noteq> FlagRecursion
     | Sequence us \<Rightarrow> list_all check_is_informationUnit us
     | UnknownContent \<Rightarrow> False)"

lemma verify_alternative_iff: "verify_alternative r n a = Inr y \<longleftrightarrow> alternative_accepted a"
  using map_res_unit_iff [of validate_is_InformationUnit]
  by (cases "pa_content a")
    (auto simp: verify_alternative_def alternative_accepted_def rbind_Inr_iff
      validate_is_InformationUnit_def require_Inr_iff simp del: map_res_Inr_iff)

lemma verify_rules_iff: "verify_rules n g = Inr y \<longleftrightarrow> list_all (\<lambda>r. list_all alternative_accepted (pr_rhs r)) g"
proof (induction g arbitrary: n)
  case (Cons r g)
  then show ?case
    using map_res_unit_iff [of "verify_alternative r (n + 1)" "pr_rhs r"]
    by (simp add: rbind_Inr_iff verify_alternative_iff del: map_res_Inr_iff)
qed simp

lemma alternative_ok_accepted: "alternative_ok lhs a \<Longrightarrow> alternative_accepted a"
proof (cases "pa_content a")
  case (Single u)
  assume "alternative_ok lhs a"
  with Single have "pa_flags a = add_type_flags u FlagNone" "check_is_informationUnit u"
    by (simp_all add: alternative_ok_def units_of_content_def add_type_flags_single unit_ok_def)
  moreover have "flag_and FlagNone FlagRecursion \<noteq> FlagRecursion" by (simp add: flag_defs)
  ultimately show ?thesis using Single recursion_flag by (simp add: alternative_accepted_def)
qed (auto simp: alternative_ok_def alternative_accepted_def units_of_content_def unit_ok_def list_all_iff)

section \<open>Properties\<close>

definition example_grammar_text :: string where
  "example_grammar_text = ''; pairs'' @ newline # ''<instruction> ::= <pair> {<pair>} ;'' @ newline #
    ''<pair> ::= <key> '' @ CHR 0x22 # ''='' @ CHR 0x22 # '' [<key>] '' @ CHR 0x27 # '';'' @ CHR 0x27 # '' ;'' @ newline #
    ''<key> ::= k | ab | abc ;'' @ [newline]"

definition grammar_of_text :: "string \<Rightarrow> production_grammar result" where
  "grammar_of_text s = rbind (parse_grammar (make_grammar_parser (make_grammar_lexer s))) (\<lambda>p. Inr (get_grammar p))"

definition example_unit :: "production_unit_type \<Rightarrow> string \<Rightarrow> int \<Rightarrow> int \<Rightarrow> production_unit" where
  "example_unit t s l c = \<lparr>pu_type = t, pu_lexeme = s, pu_line = l, pu_column = c\<rparr>"

definition example_pairs :: production_grammar where
  "example_pairs =
     [\<lparr>pr_lhs = ''<instruction>'', pr_rhs = [\<lparr>pa_lhs = ''<instruction>'', pa_flags = FlagRepetition,
        pa_content = Sequence [example_unit NonTerminal ''<pair>'' 2 25, example_unit Repetition ''{<pair>}'' 2 26]\<rparr>]\<rparr>,
      \<lparr>pr_lhs = ''<pair>'', pr_rhs = [\<lparr>pa_lhs = ''<pair>'', pa_flags = FlagOptional,
        pa_content = Sequence [example_unit NonTerminal ''<key>'' 3 17, example_unit Terminal [CHR 0x22, CHR ''='', CHR 0x22] 3 19,
          example_unit OptionalUnit ''[<key>]'' 3 22, example_unit Terminal [CHR 0x27, CHR '';'', CHR 0x27] 3 31]\<rparr>]\<rparr>,
      \<lparr>pr_lhs = ''<key>'', pr_rhs = [
        \<lparr>pa_lhs = ''<key>'', pa_flags = FlagNone, pa_content = Single (example_unit Terminal ''k'' 4 12)\<rparr>,
        \<lparr>pa_lhs = ''<key>'', pa_flags = FlagNone, pa_content = Single (example_unit Terminal ''ab'' 4 17)\<rparr>,
        \<lparr>pa_lhs = ''<key>'', pa_flags = FlagNone, pa_content = Single (example_unit Terminal ''abc'' 4 23)\<rparr>]\<rparr>]"

text \<open>
  C16: a grammar that has been parsed is well formed. It starts with the rule of \<open><instruction>\<close>; no two
  rules have the same left-hand side; every left-hand side is one \<open><...>\<close> text and every rule has
  alternatives; every unit is a terminal, a non-terminal, an optional or a repetition whose lexeme
  has the shape the instruction parser strips; an alternative of one unit does not refer to its own
  rule; and the flags say exactly whether an alternative refers to its rule and has optionals or
  repetitions.
\<close>

theorem parsed_grammar_ok:
  assumes "parse_grammar (make_grammar_parser l) = Inr p"
  shows "grammar_ok (get_grammar p)"
proof -
  obtain p1 where p: "advance_unit (make_grammar_parser l\<lparr>gp_lexer := gl_reset (gl_reset l)\<rparr>) = Inr p1"
    "pu_type (gp_current p1) = NonTerminal" "pu_lexeme (gp_current p1) = instruction_lhs"
    "grammar_loop p1 = Inr p" "verity_grammar (gp_grammar p) = Inr ()"
    using assms by (auto simp: parse_grammar_def rbind_Inr_iff validate_is_Instruction_def require_Inr_iff
        make_grammar_parser_def)
  have "current_ok p1" "gp_grammar p1 = []"
    using advance_unit_ok [OF p(1)] by (simp_all add: make_grammar_parser_def)
  with grammar_loop_ok [OF p(4)] p(2,3) have "list_all rule_ok (gp_grammar p)" "gp_grammar p \<noteq> []"
    "pr_lhs (hd (gp_grammar p)) = instruction_lhs"
    by auto
  moreover have "unique_rules (gp_grammar p)"
    using p(5) duplicates_after_sort [of "map pr_lhs (gp_grammar p)"]
    by (auto simp: verity_grammar_def rbind_Inr_iff Let_def unique_rules_def split: if_splits)
  ultimately show ?thesis by (simp add: grammar_ok_def get_grammar_def)
qed

lemma example_grammar_parsed: "grammar_of_text example_grammar_text = Inr example_pairs"
  by code_simp

theorem parsed_grammar_ok_witness: "grammar_ok example_pairs"
proof -
  obtain p where p: "parse_grammar (make_grammar_parser (make_grammar_lexer example_grammar_text)) = Inr p"
    "get_grammar p = example_pairs"
    using example_grammar_parsed by (auto simp: grammar_of_text_def rbind_Inr_iff)
  show ?thesis using parsed_grammar_ok [OF p(1)] by (simp add: p(2))
qed

lemma verity_grammar_iff:
  "verity_grammar g = Inr y \<longleftrightarrow> unique_rules g \<and> list_all (\<lambda>r. list_all alternative_accepted (pr_rhs r)) g"
  using duplicates_after_sort [of "map pr_lhs g"]
  by (auto simp: verity_grammar_def rbind_Inr_iff verify_rules_iff Let_def unique_rules_def)

text \<open>On the rules the parser builds, the verification can only fail because of a duplicate.\<close>

lemma verity_of_rules:
  assumes "list_all rule_ok g"
  shows "verity_grammar g = Inr y \<longleftrightarrow> unique_rules g"
  using assms by (auto simp: verity_grammar_iff list_all_iff rule_ok_def intro: alternative_ok_accepted)

text \<open>
  The verification of a grammar accepts exactly the grammars without two rules of the same
  left-hand side whose alternatives hold information units only, none of them a single unit with
  the recursion flag.
\<close>

theorem verity_grammar_correct:
  "verity_grammar g = Inr () \<longleftrightarrow> distinct (map pr_lhs g) \<and>
    list_all (\<lambda>r. list_all (\<lambda>a. case pa_content a of
        Single u \<Rightarrow> check_is_informationUnit u \<and> flag_and (pa_flags a) FlagRecursion \<noteq> FlagRecursion
      | Sequence us \<Rightarrow> list_all check_is_informationUnit us
      | UnknownContent \<Rightarrow> False) (pr_rhs r)) g"
  using verity_grammar_iff [of g "()"] by (simp add: alternative_accepted_def [abs_def] unique_rules_def)

end
