(* ===== verification/Fnv.thy ===== *)
theory Fnv
  imports Prelude
begin

unbundle bit_operations_syntax

text \<open>
  The 64-bit FNV-1a hash. The code holds four copies of it: \<open>core::fnv1aHash\<close>
  (\<open>src/include/piaabo/core/utils.h\<close>, modelled here), and the fingerprint mixers of the source
  splits, of the market graph and of the assemblies, each modelled with its component. The
  locale \<open>byte_mixer\<close> is what the fingerprints rely on: one step loses neither the state nor the
  byte. Its client lemmas say that a fingerprint sees every change of a single byte.
\<close>

type_synonym u64 = "64 word"
type_synonym byte = "8 word"

definition chr_byte :: "char \<Rightarrow> byte" where
  "chr_byte c = of_nat (chr_code c)"

definition FNV_prime :: u64 where
  "FNV_prime = 1099511628211"

definition FNV_offset_basis :: u64 where
  "FNV_offset_basis = 14695981039346656037"

definition fnv_byte :: "u64 \<Rightarrow> byte \<Rightarrow> u64" where
  "fnv_byte hash b = (hash XOR ucast b) * FNV_prime"

definition fnv1aHash :: "string \<Rightarrow> u64" where
  "fnv1aHash str = foldl (\<lambda>hash c. fnv_byte hash (chr_byte c)) FNV_offset_basis str"

section \<open>The interface of a mixing step\<close>

locale byte_mixer =
  fixes mix_byte :: "u64 \<Rightarrow> byte \<Rightarrow> u64"
  assumes mix_state: "mix_byte h b = mix_byte h' b \<Longrightarrow> h = h'"
    and mix_input: "mix_byte h b = mix_byte h b' \<Longrightarrow> b = b'"
begin

lemma fold_state: "foldl mix_byte h bs = foldl mix_byte h' bs \<longleftrightarrow> h = h'"
  by (induction bs arbitrary: h h') (auto dest: mix_state)

lemma fold_one_byte:
  "foldl mix_byte h (pre @ b # post) = foldl mix_byte h (pre @ b' # post) \<longleftrightarrow> b = b'"
  by (auto simp: fold_state dest: mix_input)

lemma fold_suffix:
  "foldl mix_byte h (bs @ post) = foldl mix_byte h (bs' @ post) \<longleftrightarrow> foldl mix_byte h bs = foldl mix_byte h bs'"
  by (simp add: fold_state)

end

section \<open>FNV-1a is such a step\<close>

text \<open>The prime is odd, so multiplication by it is undone by multiplication with its inverse.\<close>

definition FNV_inverse :: u64 where
  "FNV_inverse = 14886173955864302971"

lemma FNV_prime_inverse: "FNV_prime * FNV_inverse = 1"
  by (simp add: FNV_prime_def FNV_inverse_def)

lemma times_prime_inject: "a * FNV_prime = b * FNV_prime \<longleftrightarrow> a = b"
proof
  assume "a * FNV_prime = b * FNV_prime"
  then have "a * FNV_prime * FNV_inverse = b * FNV_prime * FNV_inverse" by simp
  then show "a = b" by (simp only: mult.assoc FNV_prime_inverse mult_1_right)
qed simp

lemma xor_left_inject: "(a :: u64) XOR b = a XOR c \<longleftrightarrow> b = c"
proof
  assume "a XOR b = a XOR c"
  then have "(a XOR a) XOR b = (a XOR a) XOR c" by (simp only: xor.assoc)
  then show "b = c" by simp
qed simp

lemma xor_right_inject: "(a :: u64) XOR c = b XOR c \<longleftrightarrow> a = b"
  by (simp only: xor.commute [of _ c] xor_left_inject)

lemma ucast_byte_inject: "(ucast (a :: byte) :: u64) = ucast b \<longleftrightarrow> a = b"
proof -
  have "take_bit 64 (unat x) = unat x" for x :: byte
    using unsigned_less [of x, where ?'a = nat] by (simp add: take_bit_nat_eq_self_iff)
  then show ?thesis by (simp add: unsigned_ucast_eq word_unat_eq_iff)
qed

lemma chr_byte_inject: "chr_byte a = chr_byte b \<longleftrightarrow> a = b"
proof -
  have "unat (chr_byte c) = chr_code c" for c
    using chr_code_less [of c] by (simp add: chr_byte_def unat_of_nat)
  then show ?thesis by (metis chr_code_inject)
qed

interpretation fnv: byte_mixer fnv_byte
  by unfold_locales
    (simp_all add: fnv_byte_def times_prime_inject xor_left_inject xor_right_inject ucast_byte_inject)

lemma fnv1aHash_bytes: "fnv1aHash s = foldl fnv_byte FNV_offset_basis (map chr_byte s)"
  by (simp add: fnv1aHash_def foldl_map)

section \<open>Low bits\<close>

text \<open>
  The low bits of a hash depend on the low bits of the steps only: up to 40 of them, the prime is 435.
  Hashes are told apart by evaluating a few low bits on integers.
\<close>

definition fnv_low_step :: "nat \<Rightarrow> int \<Rightarrow> char \<Rightarrow> int" where
  "fnv_low_step k h c = take_bit k ((h XOR int (chr_code c)) * 435)"
lemma low_fnv_byte:
  assumes "k \<le> 40"
  shows "take_bit k (uint (fnv_byte h (chr_byte c))) = fnv_low_step k (take_bit k (uint h)) c"
proof -
  have p: "take_bit k (1099511628211 :: int) = take_bit k 435"
    using take_bit_take_bit [of k 40 "1099511628211 :: int"] assms by (simp add: take_bit_eq_mod [of 40] min_absorb1)
  have b: "uint (ucast (chr_byte c) :: u64) = int (chr_code c)"
    using order_less_le_trans [OF chr_code_less [of c], of 18446744073709551616]
    by (simp add: chr_byte_def unsigned_ucast_eq unsigned_of_nat take_bit_eq_mod of_nat_mod)
  have m: "x mod 18446744073709551616 = take_bit 64 x" for x :: int by (simp add: take_bit_eq_mod)
  have "take_bit k (uint (fnv_byte h (chr_byte c))) = take_bit k ((uint h XOR int (chr_code c)) * 1099511628211)"
    using assms by (simp add: fnv_byte_def FNV_prime_def uint_word_ariths b m unsigned_xor_eq min_def)
  also have "\<dots> = take_bit k ((uint h XOR int (chr_code c)) * 435)"
    by (metis p take_bit_mult)
  also have "\<dots> = fnv_low_step k (take_bit k (uint h)) c"
  proof -
    have "take_bit k (take_bit k (uint h) XOR int (chr_code c)) = take_bit k (uint h XOR int (chr_code c))"
      by (simp add: take_bit_xor)
    then show ?thesis unfolding fnv_low_step_def by (metis take_bit_mult)
  qed
  finally show ?thesis .
qed

lemma low_fnv: "k \<le> 40 \<Longrightarrow> take_bit k (uint (fnv1aHash s)) = foldl (fnv_low_step k) (take_bit k 14695981039346656037) s"
proof -
  assume "k \<le> 40"
  then have "take_bit k (uint (foldl (\<lambda>h c. fnv_byte h (chr_byte c)) h s)) = foldl (fnv_low_step k) (take_bit k (uint h)) s" for h
    by (induction s arbitrary: h) (simp_all add: low_fnv_byte)
  from this [of FNV_offset_basis] show ?thesis by (simp add: fnv1aHash_def FNV_offset_basis_def)
qed

end
