(* ===== verification/Bnf_Ast.thy ===== *)
theory Bnf_Ast
  imports Bnf_Types Fnv
begin

text \<open>
  \<open>src/include/piaabo/parse/bnf/ast.h\<close> with its \<open>.cpp\<close> and \<open>visitor.h\<close>: the syntax trees, their
  rendering, their comparison and the walk of a visitor. The hash a node stores is the FNV hash of
  its name. A visitor is a parameter: what it does with a node and the context. The box-drawing
  characters of the printed tree are written as their UTF-8 bytes.
\<close>

section \<open>Nodes\<close>

datatype ast_node =
    RootNode string "ast_node list"
  | IntermediaryNode production_alternative "ast_node list"
  | TerminalNode string production_unit

fun node_name :: "ast_node \<Rightarrow> string" where
  "node_name (RootNode lhs_instruction cs) = lhs_instruction"
| "node_name (IntermediaryNode a cs) = pa_lhs a"
| "node_name (TerminalNode lhs u) = lhs"

definition node_hash :: "ast_node \<Rightarrow> u64" where
  "node_hash n = fnv1aHash (node_name n)"

definition make_terminal_node :: "string \<Rightarrow> production_unit \<Rightarrow> ast_node result" where
  "make_terminal_node lhs u =
     (if pu_type u \<noteq> Terminal then
        Inl (RuntimeError (''AST TerminalNode should be instantiated only by Terminal ProductionUnits, found: '' @ unit_str True u))
      else Inr (TerminalNode lhs u))"

definition make_null_terminal :: "string \<Rightarrow> ast_node" where
  "make_null_terminal lhs = TerminalNode lhs default_unit"

section \<open>Rendering\<close>

fun node_str :: "bool \<Rightarrow> ast_node \<Rightarrow> string" where
  "node_str verbose (TerminalNode name u) =
     (if verbose then ANSI_COLOR_Dim_Yellow @ ''TerminalNode.'' @ ANSI_COLOR_Dim_Gray @ name @ ANSI_COLOR_RESET @ ''.'' @ unit_str verbose u
      else ANSI_COLOR_Dim_Gray @ name @ ANSI_COLOR_RESET)"
| "node_str verbose (IntermediaryNode a cs) =
     (if verbose then ANSI_COLOR_Dim_Yellow @ ''IntermediaryNode.'' @ ANSI_COLOR_Dim_Gray @ pa_lhs a @ ANSI_COLOR_RESET @
        ANSI_COLOR_Bright_Green @ ''.('' @ ANSI_COLOR_RESET @ alternative_str verbose a @
        ANSI_COLOR_Bright_Green @ '')'' @ ANSI_COLOR_RESET
      else ANSI_COLOR_Dim_Gray @ pa_lhs a @ ANSI_COLOR_RESET)"
| "node_str verbose (RootNode name cs) =
     (if verbose then ANSI_COLOR_Dim_Yellow @ ''RootNode.'' @ ANSI_COLOR_Dim_Gray @ name @ ANSI_COLOR_RESET
      else ANSI_COLOR_Dim_Gray @ name @ ANSI_COLOR_RESET)"

definition connector :: "bool \<Rightarrow> string" where
  "connector isLast =
     (if isLast then [CHR 0xE2, CHR 0x94, CHR 0x94, CHR 0xE2, CHR 0x94, CHR 0x80, CHR 0xE2, CHR 0x94, CHR 0x80, CHR '' '']
      else [CHR 0xE2, CHR 0x94, CHR 0x9C, CHR 0xE2, CHR 0x94, CHR 0x80, CHR 0xE2, CHR 0x94, CHR 0x80, CHR '' ''])"

definition child_prefix :: "string \<Rightarrow> bool \<Rightarrow> string" where
  "child_prefix prefix isLast = prefix @ (if isLast then ''    '' else [CHR 0xE2, CHR 0x94, CHR 0x82] @ ''   '')"

text \<open>The text \<open>printAST\<close> sends to its stream; the children are printed in order, the last one marked.\<close>

fun print_ast :: "bool \<Rightarrow> string \<Rightarrow> bool \<Rightarrow> ast_node \<Rightarrow> string"
and print_children :: "bool \<Rightarrow> string \<Rightarrow> ast_node list \<Rightarrow> string"
where
  "print_ast verbose prefix isLast (RootNode lhs cs) =
     prefix @ connector isLast @ node_str verbose (RootNode lhs cs) @ ANSI_COLOR_RESET @ '' : '' @
     ANSI_COLOR_Dim_Green @ lhs @ ANSI_COLOR_RESET @ '' : '' @ lhs @ [newline] @
     print_children verbose (child_prefix prefix isLast) cs"
| "print_ast verbose prefix isLast (IntermediaryNode a cs) =
     prefix @ connector isLast @ node_str verbose (IntermediaryNode a cs) @ ANSI_COLOR_RESET @ '' : '' @
     ANSI_COLOR_Dim_Green @ pa_lhs a @ ANSI_COLOR_RESET @ '' : '' @ alternative_str verbose a @ [newline] @
     print_children verbose (child_prefix prefix isLast) cs"
| "print_ast verbose prefix isLast (TerminalNode name u) =
     prefix @ connector isLast @ node_str verbose (TerminalNode name u) @ ANSI_COLOR_RESET @ '' : '' @
     unit_str verbose u @ [newline]"
| "print_children verbose prefix [] = []"
| "print_children verbose prefix (c # cs) = print_ast verbose prefix (cs = []) c @ print_children verbose prefix cs"

section \<open>Comparison\<close>

fun compare_nodes :: "ast_node \<Rightarrow> ast_node \<Rightarrow> bool"
and compare_children :: "ast_node list \<Rightarrow> ast_node list \<Rightarrow> bool"
where
  "compare_nodes (RootNode l cs) (RootNode l' cs') \<longleftrightarrow>
     l = l' \<and> length cs = length cs' \<and> compare_children cs cs'"
| "compare_nodes (IntermediaryNode a cs) (IntermediaryNode a' cs') \<longleftrightarrow>
     pa_lhs a = pa_lhs a' \<and> alternative_str False a = alternative_str False a' \<and>
     length cs = length cs' \<and> compare_children cs cs'"
| "compare_nodes (TerminalNode l u) (TerminalNode l' u') \<longleftrightarrow> l = l' \<and> pu_lexeme u = pu_lexeme u'"
| "compare_nodes _ _ \<longleftrightarrow> False"
| "compare_children (c # cs) (c' # cs') \<longleftrightarrow> compare_nodes c c' \<and> compare_children cs cs'"
| "compare_children _ _ \<longleftrightarrow> True"

definition compareAST :: "ast_node option \<Rightarrow> ast_node option \<Rightarrow> bool" where
  "compareAST actual expected = (case (actual, expected) of
       (None, None) \<Rightarrow> True
     | (Some a, Some e) \<Rightarrow> compare_nodes a e
     | _ \<Rightarrow> False)"

section \<open>Visitors\<close>

record 'd visitor_context =
  vc_user_data :: 'd
  vc_stack :: "ast_node list"

definition push_context :: "ast_node \<Rightarrow> 'd visitor_context \<Rightarrow> 'd visitor_context" where
  "push_context n c = c\<lparr>vc_stack := vc_stack c @ [n]\<rparr>"

definition pop_context :: "'d visitor_context \<Rightarrow> 'd visitor_context" where
  "pop_context c = (if vc_stack c \<noteq> [] then c\<lparr>vc_stack := butlast (vc_stack c)\<rparr> else c)"

fun accept_node :: "(ast_node \<Rightarrow> 'd visitor_context \<Rightarrow> 'd visitor_context) \<Rightarrow> ast_node \<Rightarrow> 'd visitor_context \<Rightarrow> 'd visitor_context"
and accept_children :: "(ast_node \<Rightarrow> 'd visitor_context \<Rightarrow> 'd visitor_context) \<Rightarrow> ast_node \<Rightarrow> ast_node list \<Rightarrow> 'd visitor_context \<Rightarrow> 'd visitor_context"
where
  "accept_node visit (TerminalNode l u) c =
     pop_context (visit (TerminalNode l u) (push_context (TerminalNode l u) c))"
| "accept_node visit (IntermediaryNode a cs) c =
     pop_context (accept_children visit (IntermediaryNode a cs) cs
       (visit (IntermediaryNode a cs) (push_context (IntermediaryNode a cs) c)))"
| "accept_node visit (RootNode l cs) c =
     pop_context (accept_children visit (RootNode l cs) cs
       (visit (RootNode l cs) (push_context (RootNode l cs) c)))"
| "accept_children visit parent [] c = c"
| "accept_children visit parent (n # ns) c =
     accept_children visit parent ns (pop_context (accept_node visit n (push_context parent c)))"

section \<open>Facts\<close>

text \<open>What the comparison sees of a tree.\<close>

datatype skeleton =
    SkRoot string "skeleton list"
  | SkInner string string "skeleton list"
  | SkLeaf string string

fun skeleton_of :: "ast_node \<Rightarrow> skeleton" where
  "skeleton_of (RootNode l cs) = SkRoot l (map skeleton_of cs)"
| "skeleton_of (IntermediaryNode a cs) = SkInner (pa_lhs a) (alternative_str False a) (map skeleton_of cs)"
| "skeleton_of (TerminalNode l u) = SkLeaf l (pu_lexeme u)"

lemma compare_skeletons:
  "compare_nodes a b \<longleftrightarrow> skeleton_of a = skeleton_of b"
  "length as = length bs \<and> compare_children as bs \<longleftrightarrow> map skeleton_of as = map skeleton_of bs"
  by (induction a b and as bs rule: compare_nodes_compare_children.induct)
    (auto dest: map_eq_imp_length_eq)

text \<open>The nodes below a node in the order they are met, each with its depth.\<close>

fun preorder :: "nat \<Rightarrow> ast_node \<Rightarrow> (ast_node \<times> nat) list" where
  "preorder d (TerminalNode l u) = [(TerminalNode l u, d)]"
| "preorder d (IntermediaryNode a cs) = (IntermediaryNode a cs, d) # concat (map (preorder (d + 2)) cs)"
| "preorder d (RootNode l cs) = (RootNode l cs, d) # concat (map (preorder (d + 2)) cs)"

text \<open>A visitor that keeps the stack: its effect on the data may depend on the node and the stack.\<close>

definition on_data :: "(ast_node \<Rightarrow> ast_node list \<Rightarrow> 'd \<Rightarrow> 'd) \<Rightarrow> ast_node \<Rightarrow> 'd visitor_context \<Rightarrow> 'd visitor_context" where
  "on_data f n c = c\<lparr>vc_user_data := f n (vc_stack c) (vc_user_data c)\<rparr>"

definition record_visit :: "ast_node \<Rightarrow> ast_node list \<Rightarrow> (ast_node \<times> nat) list \<Rightarrow> (ast_node \<times> nat) list" where
  "record_visit n stack log = log @ [(n, length stack)]"

lemma pop_push [simp]: "pop_context (push_context n c) = c"
  by (simp add: push_context_def pop_context_def)

lemma context_simps [simp]:
  "vc_stack (push_context n c) = vc_stack c @ [n]" "vc_user_data (push_context n c) = vc_user_data c"
  "vc_stack (pop_context c) = butlast (vc_stack c)" "vc_user_data (pop_context c) = vc_user_data c"
  "vc_stack (on_data f n c) = vc_stack c" "vc_user_data (on_data f n c) = f n (vc_stack c) (vc_user_data c)"
  by (simp_all add: push_context_def pop_context_def on_data_def)

lemma accept_keeps_stack:
  "vc_stack (accept_node (on_data f) n c) = vc_stack c"
  "vc_stack (accept_children (on_data f) p ns c) = vc_stack c"
  by (induction "on_data f" n c and "on_data f" p ns c rule: accept_node_accept_children.induct) simp_all

lemma accept_records:
  "vc_user_data (accept_node (on_data record_visit) n c) = vc_user_data c @ preorder (length (vc_stack c) + 1) n"
  "vc_user_data (accept_children (on_data record_visit) p ns c) =
    vc_user_data c @ concat (map (preorder (length (vc_stack c) + 2)) ns)"
  by (induction "on_data record_visit" n c and "on_data record_visit" p ns c rule: accept_node_accept_children.induct)
    (simp_all add: record_visit_def accept_keeps_stack)

section \<open>Properties\<close>

text \<open>
  Two trees compare equal exactly when they have the same shape, names, rendered alternatives
  and terminal lexemes; an absent tree equals only an absent one. The comparison is therefore an
  equivalence relation.
\<close>

theorem compareAST_correct:
  "compareAST a b \<longleftrightarrow> map_option skeleton_of a = map_option skeleton_of b"
  by (auto simp: compareAST_def compare_skeletons split: option.splits)

text \<open>
  A visitor that leaves the stack of the context alone meets every node of the tree once, in
  preorder, with the node itself on top of the stack and two entries for each of its ancestors, and
  the walk leaves the stack as it was.
\<close>

theorem accept_preorder:
  "vc_stack (accept_node (on_data f) n c) = vc_stack c \<and>
   vc_user_data (accept_node (on_data record_visit) n \<lparr>vc_user_data = [], vc_stack = []\<rparr>) = preorder 1 n"
  by (simp add: accept_keeps_stack accept_records)

end
