(* ===== verification/Bnf_Instruction.thy ===== *)
theory Bnf_Instruction
  imports Bnf_Grammar Bnf_Ast
begin

text \<open>
  \<open>src/include/piaabo/parse/bnf/instruction_lexer.h\<close>, \<open>instruction_parser.h\<close> and their \<open>.cpp\<close> files:
  the backtracking parser that reads an instruction with a grammar. Its state is the lexer, the
  grammar, the stacks of failures and successes (top first) and the position of the last failure.

  The parser calls itself on the rules of the grammar and does not return when the grammar is left
  recursive. A run therefore has fuel: a call of a rule takes one unit, and a loop over a repetition
  may run as often as the fuel of its rule says; \<open>None\<close> is a run that used it up. The result of the
  calls with less fuel is an argument of the definitions (\<open>rec\<close>), tied in \<open>parse_production_rule\<close>.
\<close>

section \<open>The instruction lexer\<close>

record instruction_lexer =
  il_input :: string
  il_pos :: nat

definition make_instruction_lexer :: "string \<Rightarrow> instruction_lexer" where
  "make_instruction_lexer s = \<lparr>il_input = s, il_pos = 0\<rparr>"

definition il_set_position :: "nat \<Rightarrow> instruction_lexer \<Rightarrow> instruction_lexer" where
  "il_set_position i l = l\<lparr>il_pos := i\<rparr>"

definition il_reset :: "instruction_lexer \<Rightarrow> instruction_lexer" where
  "il_reset l = il_set_position 0 l"

definition il_at_end :: "instruction_lexer \<Rightarrow> bool" where
  "il_at_end l \<longleftrightarrow> length (il_input l) \<le> il_pos l"

definition il_peek :: "instruction_lexer \<Rightarrow> char" where
  "il_peek l = (if il_at_end l then nul else il_input l ! il_pos l)"

definition il_advance :: "instruction_lexer \<Rightarrow> char \<times> instruction_lexer" where
  "il_advance l = (if il_at_end l then (nul, l) else (il_input l ! il_pos l, l\<lparr>il_pos := il_pos l + 1\<rparr>))"

definition il_advance_by :: "nat \<Rightarrow> instruction_lexer \<Rightarrow> char \<times> instruction_lexer" where
  "il_advance_by delta l =
     (let ch = (if \<not> il_at_end l then il_input l ! il_pos l else nul); p = il_pos l + delta
      in (ch, l\<lparr>il_pos := if p > length (il_input l) then length (il_input l) else p\<rparr>))"

definition il_set_input :: "string \<Rightarrow> instruction_lexer \<Rightarrow> instruction_lexer" where
  "il_set_input s l = il_reset (l\<lparr>il_input := s\<rparr>)"

abbreviation il_step :: "instruction_lexer \<Rightarrow> instruction_lexer" where
  "il_step l \<equiv> snd (il_advance l)"

definition il_rest :: "instruction_lexer \<Rightarrow> string" where
  "il_rest l = drop (il_pos l) (il_input l)"

interpretation il: char_source il_at_end il_peek il_step il_rest
proof
  fix l
  show "il_at_end l \<longleftrightarrow> il_rest l = []" by (simp add: il_at_end_def il_rest_def)
  assume "il_rest l \<noteq> []"
  then have "il_pos l < length (il_input l)" by (simp add: il_rest_def)
  then show "il_peek l = hd (il_rest l)" "il_rest (il_step l) = tl (il_rest l)"
    by (simp_all add: il_peek_def il_at_end_def il_rest_def hd_drop_conv_nth il_advance_def drop_Suc tl_drop)
qed

function il_skip_whitespace :: "instruction_lexer \<Rightarrow> instruction_lexer" where
  "il_skip_whitespace l = (if \<not> il_at_end l \<and> is_space (il_peek l) then il_skip_whitespace (il_step l) else l)"
  by pat_completeness auto
termination
  by (relation "measure (length \<circ> il_rest)") (auto simp: il.step_shorter)

declare il_skip_whitespace.simps [simp del]

lemma il_skip_whitespace_rest: "il_rest (il_skip_whitespace l) = dropWhile is_space (il_rest l)"
  by (rule il.skip_while) (rule il_skip_whitespace.simps)

section \<open>Escapes\<close>

fun unescape :: "string \<Rightarrow> string" where
  "unescape [] = []"
| "unescape [c] = [c]"
| "unescape (c # d # s) =
     (if c = CHR 0x5C then
        (if d = CHR ''n'' then newline # unescape s
         else if d = CHR ''r'' then CHR 0x0D # unescape s
         else if d = CHR ''t'' then CHR 0x09 # unescape s
         else if d = CHR 0x5C then CHR 0x5C # unescape s
         else if d = CHR 0x22 then CHR 0x22 # unescape s
         else if d = CHR 0x27 then CHR 0x27 # unescape s
         else CHR 0x5C # d # unescape s)
      else c # unescape (d # s))"

definition scape_chr :: "char \<Rightarrow> string" where
  "scape_chr ch = (if ch = newline then [CHR 0x5C, CHR ''n''] else if ch = CHR 0x0D then [CHR 0x5C, CHR ''r'']
     else if ch = CHR 0x09 then [CHR 0x5C, CHR ''t''] else if ch = CHR 0x22 then [CHR 0x5C, CHR 0x22]
     else if ch = CHR 0x27 then [CHR 0x5C, CHR 0x27] else [ch])"

definition scape :: "string \<Rightarrow> string" where
  "scape s = concat (map scape_chr s)"

text \<open>The text of a terminal without its quotes; \<open>front()\<close> of an empty string is its terminator.\<close>

definition remove_quotes :: "string \<Rightarrow> string" where
  "remove_quotes s =
     (if s \<noteq> [] \<and> (hd s = CHR 0x22 \<and> last s = CHR 0x22 \<or> hd s = CHR 0x27 \<and> last s = CHR 0x27)
      then (if length s = 1 then [] else take (length s - 2) (tl s)) else s)"

definition terminal_text :: "string \<Rightarrow> string" where
  "terminal_text s = unescape (remove_quotes s)"

section \<open>Runs\<close>

record instruction_parser =
  ip_lexer :: instruction_lexer
  ip_grammar :: production_grammar
  ip_errors :: "string list"
  ip_successes :: "string list"
  ip_failure_position :: nat

type_synonym 'a run = "(exn + 'a \<times> instruction_parser) option"
type_synonym rule_run = "production_rule \<Rightarrow> instruction_parser \<Rightarrow> ast_node option run"

definition make_instruction_parser :: "instruction_lexer \<Rightarrow> production_grammar \<Rightarrow> instruction_parser" where
  "make_instruction_parser l g = \<lparr>ip_lexer = l, ip_grammar = g, ip_errors = [], ip_successes = [], ip_failure_position = 0\<rparr>"

definition ret :: "'a \<Rightarrow> instruction_parser \<Rightarrow> 'a run" where
  "ret x p = Some (Inr (x, p))"

definition throw_run :: "exn \<Rightarrow> 'a run" where
  "throw_run e = Some (Inl e)"

definition run_bind :: "'a run \<Rightarrow> ('a \<Rightarrow> instruction_parser \<Rightarrow> 'b run) \<Rightarrow> 'b run" where
  "run_bind m f = (case m of None \<Rightarrow> None | Some (Inl e) \<Rightarrow> Some (Inl e) | Some (Inr (x, p)) \<Rightarrow> f x p)"

definition ip_pos :: "instruction_parser \<Rightarrow> nat" where
  "ip_pos p = il_pos (ip_lexer p)"

definition ip_seek :: "nat \<Rightarrow> instruction_parser \<Rightarrow> instruction_parser" where
  "ip_seek i p = p\<lparr>ip_lexer := il_set_position i (ip_lexer p)\<rparr>"

definition push_error :: "string \<Rightarrow> instruction_parser \<Rightarrow> instruction_parser" where
  "push_error s p = p\<lparr>ip_errors := s # ip_errors p\<rparr>"

definition push_success :: "string \<Rightarrow> instruction_parser \<Rightarrow> instruction_parser" where
  "push_success s p = p\<lparr>ip_successes := s # ip_successes p\<rparr>"

text \<open>\<open>%s\<close> prints a C string: up to the first NUL.\<close>

definition c_str :: "string \<Rightarrow> string" where
  "c_str s = takeWhile (\<lambda>c. c \<noteq> nul) s"

section \<open>Terminals\<close>

definition terminal_failure :: "production_unit \<Rightarrow> string \<Rightarrow> char \<Rightarrow> char \<Rightarrow> string" where
  "terminal_failure u lexeme ch found =
     ''        :        : --- --- >> Unable to parse '' @ ANSI_COLOR_Bright_Red @ ''Terminal Node'' @ ANSI_COLOR_RESET @
     '' : '' @ c_str (unit_str True u) @ '' :  trying to match terminal: '' @ CHR 0x22 # c_str lexeme @ CHR 0x22 #
     '' for character '' @ CHR 0x27 # c_str (scape_chr ch) @ CHR 0x27 # '' having lexer at character: '' @
     CHR 0x27 # c_str (scape_chr found) @ [CHR 0x27]"

text \<open>The loop over the characters: whether all of them match, and the state it leaves.\<close>

fun match_chars :: "production_unit \<Rightarrow> string \<Rightarrow> string \<Rightarrow> instruction_parser \<Rightarrow> bool \<times> instruction_parser" where
  "match_chars u lexeme [] p = (True, p)"
| "match_chars u lexeme (ch # chs) p =
     (if il_at_end (ip_lexer p) \<or> il_peek (ip_lexer p) \<noteq> ch then
        (False, (push_error (terminal_failure u lexeme ch (il_peek (ip_lexer p))) p)\<lparr>ip_failure_position := ip_pos p\<rparr>)
      else match_chars u lexeme chs (p\<lparr>ip_lexer := il_step (ip_lexer p)\<rparr>))"

definition parse_terminal_node :: "string \<Rightarrow> production_unit \<Rightarrow> instruction_parser \<Rightarrow> ast_node option run" where
  "parse_terminal_node lhs u p =
     (let lexeme = terminal_text (pu_lexeme u); (ok, q) = match_chars u lexeme lexeme p in
      if \<not> ok then ret None (ip_seek (ip_pos p) q)
      else case make_terminal_node lhs u of
          Inl e \<Rightarrow> throw_run e
        | Inr n \<Rightarrow> ret (Some n) (q\<lparr>ip_errors := []\<rparr>))"

section \<open>Units and alternatives\<close>

definition call_rule :: "rule_run \<Rightarrow> string \<Rightarrow> instruction_parser \<Rightarrow> ast_node option run" where
  "call_rule rec l p = (case get_rule (ip_grammar p) l of Inl e \<Rightarrow> throw_run e | Inr r \<Rightarrow> rec r p)"

fun repetition_loop :: "rule_run \<Rightarrow> nat \<Rightarrow> string \<Rightarrow> ast_node list \<Rightarrow> instruction_parser \<Rightarrow> ast_node list run" where
  "repetition_loop rec 0 l children p = None"
| "repetition_loop rec (Suc k) l children p =
     run_bind (call_rule rec l p) (\<lambda>child q.
       case child of
         None \<Rightarrow> ret children q
       | Some c \<Rightarrow> if ip_pos q = ip_pos p then ret children q
                  else repetition_loop rec k l (children @ [c]) q)"

definition parse_production_unit ::
  "rule_run \<Rightarrow> nat \<Rightarrow> production_alternative \<Rightarrow> production_unit \<Rightarrow> instruction_parser \<Rightarrow> ast_node option run"
where
  "parse_production_unit rec k alt u p = (case pu_type u of
       Terminal \<Rightarrow> parse_terminal_node (pa_lhs alt) u p
     | NonTerminal \<Rightarrow> call_rule rec (pu_lexeme u) p
     | OptionalUnit \<Rightarrow> (case strip_ends (pu_lexeme u) of
           Inl e \<Rightarrow> throw_run e
         | Inr inner \<Rightarrow> run_bind (call_rule rec inner p) (\<lambda>child q.
             ret (Some (case child of None \<Rightarrow> make_null_terminal (pa_lhs alt) | Some c \<Rightarrow> c)) q))
     | Repetition \<Rightarrow> (case strip_ends (pu_lexeme u) of
           Inl e \<Rightarrow> throw_run e
         | Inr inner \<Rightarrow> run_bind (repetition_loop rec k inner [] p) (\<lambda>children q.
             ret (Some (IntermediaryNode alt children)) q))
     | _ \<Rightarrow> throw_run (RuntimeError (''Instruction Parsing Error: Unexpected ProductionUnit type: '' @ unit_str False u)))"

fun node_children :: "ast_node \<Rightarrow> ast_node list" where
  "node_children (RootNode l cs) = cs"
| "node_children (IntermediaryNode a cs) = cs"
| "node_children (TerminalNode l u) = []"

text \<open>The loop over the units of an alternative; \<open>None\<close> when one of them does not match.\<close>

fun parse_units ::
  "rule_run \<Rightarrow> nat \<Rightarrow> production_alternative \<Rightarrow> production_unit list \<Rightarrow> ast_node list \<Rightarrow> instruction_parser \<Rightarrow> ast_node list option run"
where
  "parse_units rec k alt [] children p = ret (Some children) p"
| "parse_units rec k alt (u # us) children p =
     run_bind (parse_production_unit rec k alt u p) (\<lambda>child q.
       case child of
         None \<Rightarrow> ret None (ip_seek (ip_pos p) q)
       | Some c \<Rightarrow> parse_units rec k alt us
           (children @ (if pu_type u = Repetition then node_children c else [c])) q)"

definition parse_production_alternative_node ::
  "rule_run \<Rightarrow> nat \<Rightarrow> production_alternative \<Rightarrow> instruction_parser \<Rightarrow> ast_node option run"
where
  "parse_production_alternative_node rec k alt p =
     (if pa_content alt = UnknownContent then
        throw_run (RuntimeError (''Instruction Parsing Error: Unexpected ProductionAlternative of unknown type.'' @ alternative_str False alt))
      else let us = units_of_content (pa_content alt) in
        if us = [] then ret None p
        else run_bind (parse_units rec k alt us [] p) (\<lambda>children q.
          case children of
            None \<Rightarrow> ret None q
          | Some cs \<Rightarrow> (case pa_content alt of
                Single u \<Rightarrow> if pu_type u = Terminal then ret (Some (cs ! 0)) q
                           else ret (Some (IntermediaryNode alt cs)) q
              | _ \<Rightarrow> ret (Some (IntermediaryNode alt cs)) q)))"

section \<open>Rules\<close>

text \<open>All alternatives are tried from the same position; the matches come with their end.\<close>

fun parse_alternatives ::
  "rule_run \<Rightarrow> nat \<Rightarrow> nat \<Rightarrow> production_alternative list \<Rightarrow> (ast_node \<times> nat) list \<Rightarrow> instruction_parser \<Rightarrow> (ast_node \<times> nat) list run"
where
  "parse_alternatives rec k initial_pos [] matches p = ret matches p"
| "parse_alternatives rec k initial_pos (a # as) matches p =
     run_bind (parse_production_alternative_node rec k a (ip_seek initial_pos p)) (\<lambda>node q.
       parse_alternatives rec k initial_pos as
         (case node of None \<Rightarrow> matches | Some n \<Rightarrow> matches @ [(n, ip_pos q)]) q)"

text \<open>\<open>std::max_element\<close> by the end: the first of the longest matches.\<close>

definition best_match :: "(ast_node \<times> nat) list \<Rightarrow> ast_node \<times> nat" where
  "best_match ms = foldl (\<lambda>best m. if snd best < snd m then m else best) (hd ms) (tl ms)"

definition multiple_message :: "nat \<Rightarrow> production_rule \<Rightarrow> string" where
  "multiple_message n r = ''        : --- --- : >> '' @ ANSI_COLOR_Yellow @ ''Multiple Alternatives'' @ ANSI_COLOR_RESET @
     '' ['' @ show_nat n @ '']: found for rule '' @ c_str (rule_str False r)"

definition success_message :: "ast_node \<Rightarrow> string" where
  "success_message n = ''        :        : --- --- >> parsed '' @ ANSI_COLOR_Bright_Green @ ''parse_ProductionRule'' @
     ANSI_COLOR_RESET @ '' : '' @ c_str (node_str True n)"

definition unable_message :: "production_rule \<Rightarrow> string" where
  "unable_message r = ''        : --- --- : >> '' @ ANSI_COLOR_Bright_Red @ ''Unable'' @ ANSI_COLOR_RESET @ '' to parse '' @
     ANSI_COLOR_Cyan @ ''Rule'' @ ANSI_COLOR_RESET @ '': '' @ c_str (rule_str False r)"

definition choose_match :: "production_rule \<Rightarrow> nat \<Rightarrow> (ast_node \<times> nat) list \<Rightarrow> instruction_parser \<Rightarrow> ast_node option run" where
  "choose_match r initial_pos matches p =
     (if matches \<noteq> [] then
        let q = (if length matches > 1 then push_error (multiple_message (length matches) r) p else p);
            best = best_match matches
        in ret (Some (fst best)) (push_success (success_message (fst best)) (ip_seek (snd best) q))
      else ret None (ip_seek initial_pos (push_error (unable_message r) p)))"

definition rule_body :: "rule_run \<Rightarrow> nat \<Rightarrow> rule_run" where
  "rule_body rec k r p =
     run_bind (parse_alternatives rec k (ip_pos p) (pr_rhs r) [] p) (choose_match r (ip_pos p))"

primrec parse_production_rule :: "nat \<Rightarrow> rule_run" where
  "parse_production_rule 0 = (\<lambda>r p. None)"
| "parse_production_rule (Suc n) = rule_body (parse_production_rule n) (Suc n)"

section \<open>Instructions\<close>

definition max_success_stack :: nat where
  "max_success_stack = 150"

definition failure_report :: "string \<Rightarrow> nat \<Rightarrow> string list \<Rightarrow> string list \<Rightarrow> exn" where
  "failure_report instruction_input failure_position errors successes =
     (if failure_position > length instruction_input \<or> failure_position + 1 > length instruction_input then
        OutOfRange ''basic_string::substr''
      else RuntimeError (''Parsing failed: could not parse instruction: '' @ ANSI_COLOR_Dim_Green @
        take failure_position instruction_input @ ANSI_COLOR_RESET @ ANSI_COLOR_Bright_Red @
        take 1 (drop failure_position instruction_input) @ ANSI_COLOR_RESET @ ANSI_COLOR_Dim_Yellow @
        drop (failure_position + 1) instruction_input @ ANSI_COLOR_RESET @
        '' '' @ newline # CHR 0x09 # '' Production Failures Stack: '' @ newline #
        concat (map (\<lambda>s. s @ [newline]) errors) @
        '' '' @ newline # CHR 0x09 # '' Production Success Stack: '' @ newline #
        (if length successes > max_success_stack
         then CHR 0x09 # CHR 0x09 # '' ...truncated to size '' @ show_nat max_success_stack @ ''...'' @ [newline] else []) @
        concat (map (\<lambda>s. s @ [newline]) (take (max_success_stack - 1) successes)) @ [newline]))"

definition parse_instruction :: "nat \<Rightarrow> string \<Rightarrow> instruction_parser \<Rightarrow> ast_node run" where
  "parse_instruction fuel instruction_input p =
     (let p = p\<lparr>ip_lexer := il_reset (il_set_input instruction_input (ip_lexer p)), ip_failure_position := 0,
                ip_errors := [], ip_successes := []\<rparr> in
      run_bind (call_rule (parse_production_rule fuel) instruction_lhs p) (\<lambda>root q.
        case root of
          None \<Rightarrow> throw_run (failure_report instruction_input (ip_failure_position q) (ip_errors q) (ip_successes q))
        | Some n \<Rightarrow>
            if \<not> il_at_end (ip_lexer q) then
              throw_run (failure_report instruction_input (ip_failure_position q) (ip_errors q) (ip_successes q))
            else ret (RootNode instruction_lhs [n]) q))"

section \<open>The language of a grammar\<close>

text \<open>
  Which texts the rules of a grammar describe, without any parser: a rule derives what one of its
  alternatives does, an alternative the concatenation of what its units derive.
\<close>

inductive rule_derives :: "production_grammar \<Rightarrow> production_rule \<Rightarrow> string \<Rightarrow> bool"
and units_derive :: "production_grammar \<Rightarrow> production_unit list \<Rightarrow> string \<Rightarrow> bool"
and unit_derives :: "production_grammar \<Rightarrow> production_unit \<Rightarrow> string \<Rightarrow> bool"
and repetition_derives :: "production_grammar \<Rightarrow> string \<Rightarrow> string \<Rightarrow> bool"
for g where
  rule: "a \<in> set (pr_rhs r) \<Longrightarrow> units_of_content (pa_content a) \<noteq> [] \<Longrightarrow>
    units_derive g (units_of_content (pa_content a)) w \<Longrightarrow> rule_derives g r w"
| units_Nil: "units_derive g [] []"
| units_Cons: "unit_derives g u v \<Longrightarrow> units_derive g us w \<Longrightarrow> units_derive g (u # us) (v @ w)"
| terminal: "pu_type u = Terminal \<Longrightarrow> unit_derives g u (terminal_text (pu_lexeme u))"
| non_terminal: "pu_type u = NonTerminal \<Longrightarrow> get_rule g (pu_lexeme u) = Inr r \<Longrightarrow> rule_derives g r w \<Longrightarrow> unit_derives g u w"
| optional_absent: "pu_type u = OptionalUnit \<Longrightarrow> unit_derives g u []"
| optional_present: "pu_type u = OptionalUnit \<Longrightarrow> strip_ends (pu_lexeme u) = Inr l \<Longrightarrow> get_rule g l = Inr r \<Longrightarrow>
    rule_derives g r w \<Longrightarrow> unit_derives g u w"
| repetition: "pu_type u = Repetition \<Longrightarrow> strip_ends (pu_lexeme u) = Inr l \<Longrightarrow> repetition_derives g l w \<Longrightarrow> unit_derives g u w"
| repetition_Nil: "repetition_derives g l []"
| repetition_Cons: "get_rule g l = Inr r \<Longrightarrow> rule_derives g r v \<Longrightarrow> repetition_derives g l w \<Longrightarrow> repetition_derives g l (v @ w)"

text \<open>The text below a node.\<close>

fun node_yield :: "ast_node \<Rightarrow> string" where
  "node_yield (RootNode l cs) = concat (map node_yield cs)"
| "node_yield (IntermediaryNode a cs) = concat (map node_yield cs)"
| "node_yield (TerminalNode l u) = (if pu_type u = Terminal then terminal_text (pu_lexeme u) else [])"

abbreviation nodes_yield :: "ast_node list \<Rightarrow> string" where
  "nodes_yield ns \<equiv> concat (map node_yield ns)"

section \<open>Moving over a text\<close>

definition moves :: "instruction_parser \<Rightarrow> string \<Rightarrow> instruction_parser \<Rightarrow> bool" where
  "moves p w q \<longleftrightarrow> ip_grammar q = ip_grammar p \<and> il_input (ip_lexer q) = il_input (ip_lexer p) \<and>
     ip_pos q = ip_pos p + length w \<and> ip_pos q \<le> length (il_input (ip_lexer p)) \<and>
     il_rest (ip_lexer p) = w @ il_rest (ip_lexer q)"

text \<open>The same input and grammar, wherever the position is.\<close>

definition stays :: "instruction_parser \<Rightarrow> instruction_parser \<Rightarrow> bool" where
  "stays p q \<longleftrightarrow> ip_grammar q = ip_grammar p \<and> il_input (ip_lexer q) = il_input (ip_lexer p)"

definition ip_ok :: "instruction_parser \<Rightarrow> bool" where
  "ip_ok p \<longleftrightarrow> ip_pos p \<le> length (il_input (ip_lexer p))"

lemma moves_refl [simp]: "moves p [] p \<longleftrightarrow> ip_ok p"
  by (auto simp: moves_def ip_ok_def)

lemma moves_trans: "moves p v q \<Longrightarrow> moves q w r \<Longrightarrow> moves p (v @ w) r"
  by (simp add: moves_def)

lemma moves_ok: "moves p w q \<Longrightarrow> ip_ok q \<and> ip_grammar q = ip_grammar p \<and> stays p q"
  by (simp add: moves_def ip_ok_def stays_def)

lemma stays_trans: "stays p q \<Longrightarrow> stays q r \<Longrightarrow> stays p r"
  by (simp add: stays_def)

lemma stays_refl [simp]: "stays p p"
  by (simp add: stays_def)

lemma ip_seek_simps [simp]:
  "ip_pos (ip_seek i p) = i" "ip_grammar (ip_seek i p) = ip_grammar p"
  "il_input (ip_lexer (ip_seek i p)) = il_input (ip_lexer p)"
  "il_rest (ip_lexer (ip_seek i p)) = drop i (il_input (ip_lexer p))"
  by (simp_all add: ip_seek_def ip_pos_def il_set_position_def il_rest_def)

lemma push_simps [simp]:
  "ip_pos (push_error s p) = ip_pos p" "ip_grammar (push_error s p) = ip_grammar p" "ip_lexer (push_error s p) = ip_lexer p"
  "ip_pos (push_success s p) = ip_pos p" "ip_grammar (push_success s p) = ip_grammar p" "ip_lexer (push_success s p) = ip_lexer p"
  by (simp_all add: push_error_def push_success_def ip_pos_def)

lemma rest_eq: "il_rest (ip_lexer p) = drop (ip_pos p) (il_input (ip_lexer p))"
  by (simp add: il_rest_def ip_pos_def)

lemma moves_seek_back: "ip_ok p \<Longrightarrow> stays p q \<Longrightarrow> moves p [] (ip_seek (ip_pos p) q)"
  by (simp add: moves_def ip_ok_def stays_def rest_eq)

lemma moves_seek: "moves p w q \<Longrightarrow> stays p q' \<Longrightarrow> moves p w (ip_seek (ip_pos q) q')"
  by (auto simp: moves_def stays_def rest_eq)

section \<open>Inversion of runs\<close>

lemma run_bind_Some_iff [simp]:
  "run_bind m f = Some (Inr y) \<longleftrightarrow> (\<exists>x q. m = Some (Inr (x, q)) \<and> f x q = Some (Inr y))"
  by (auto simp: run_bind_def split: option.splits sum.splits)

lemma ret_iff [simp]: "ret x p = Some (Inr (y, q)) \<longleftrightarrow> x = y \<and> p = q"
  by (simp add: ret_def)

lemma throw_run_iff [simp]: "throw_run e \<noteq> Some (Inr y)"
  by (simp add: throw_run_def)

lemma call_rule_iff [simp]:
  "call_rule rec l p = Some (Inr y) \<longleftrightarrow> (\<exists>r. get_rule (ip_grammar p) l = Inr r \<and> rec r p = Some (Inr y))"
  by (auto simp: call_rule_def split: sum.splits)

section \<open>Terminals match their text\<close>

lemma step_moves:
  assumes "\<not> il_at_end (ip_lexer p)"
  shows "moves p [il_peek (ip_lexer p)] (p\<lparr>ip_lexer := il_step (ip_lexer p)\<rparr>)"
proof -
  have "il_step (ip_lexer p) = (ip_lexer p)\<lparr>il_pos := il_pos (ip_lexer p) + 1\<rparr>"
    using assms by (simp add: il_advance_def)
  moreover have "il_pos (ip_lexer p) < length (il_input (ip_lexer p))"
    using assms by (simp add: il_at_end_def)
  ultimately show ?thesis
    using il.remaining_step [OF assms] by (simp add: moves_def ip_pos_def)
qed

lemma match_chars_moves:
  "match_chars u lexeme chs p = (ok, q) \<Longrightarrow> ip_ok p \<Longrightarrow> stays p q \<and> (ok \<longrightarrow> moves p chs q)"
proof (induction u lexeme chs p rule: match_chars.induct)
  case (2 u lexeme ch chs p)
  show ?case
  proof (cases "il_at_end (ip_lexer p) \<or> il_peek (ip_lexer p) \<noteq> ch")
    case True
    with 2(2) show ?thesis by (auto simp: stays_def)
  next
    case False
    define p' where "p' = p\<lparr>ip_lexer := il_step (ip_lexer p)\<rparr>"
    have m: "moves p [ch] p'" using step_moves [of p] False by (simp add: p'_def)
    have "stays p' q" "ok \<longrightarrow> moves p' chs q"
      using 2(1) [OF False] 2(2) False moves_ok [OF m] by (auto simp: p'_def)
    with moves_trans [OF m] moves_ok [OF m] show ?thesis by (auto intro: stays_trans)
  qed
qed simp

lemma terminal_moves:
  assumes "parse_terminal_node lhs u p = Some (Inr (c, q))" "ip_ok p"
  shows "case c of None \<Rightarrow> moves p [] q
    | Some n \<Rightarrow> n = TerminalNode lhs u \<and> pu_type u = Terminal \<and> moves p (terminal_text (pu_lexeme u)) q"
proof -
  obtain ok p' where m: "match_chars u (terminal_text (pu_lexeme u)) (terminal_text (pu_lexeme u)) p = (ok, p')"
    by fastforce
  have p': "stays p p'" "ok \<longrightarrow> moves p (terminal_text (pu_lexeme u)) p'"
    using match_chars_moves [OF m assms(2)] by auto
  show ?thesis
  proof (cases ok)
    case True
    with assms(1) have "c = Some (TerminalNode lhs u)" "pu_type u = Terminal" "q = p'\<lparr>ip_errors := []\<rparr>"
      by (auto simp: parse_terminal_node_def m make_terminal_node_def split: if_splits)
    with True p' show ?thesis by (simp add: moves_def ip_pos_def)
  next
    case False
    with assms(1) have "c = None" "q = ip_seek (ip_pos p) p'"
      by (auto simp: parse_terminal_node_def m)
    with p' assms(2) show ?thesis by (simp add: moves_seek_back)
  qed
qed

section \<open>The contract of a rule parser\<close>

text \<open>Units that never match the empty text, given rules (\<open>N\<close>) that never do.\<close>

definition consuming :: "string set \<Rightarrow> production_unit \<Rightarrow> bool" where
  "consuming N u \<longleftrightarrow> pu_type u = Terminal \<and> terminal_text (pu_lexeme u) \<noteq> [] \<or>
     pu_type u = NonTerminal \<and> pu_lexeme u \<in> N"

definition consuming_closed :: "production_grammar \<Rightarrow> string set \<Rightarrow> bool" where
  "consuming_closed g N \<longleftrightarrow> list_all (\<lambda>r. pr_lhs r \<in> N \<longrightarrow>
     list_all (\<lambda>a. list_ex (consuming N) (units_of_content (pa_content a))) (pr_rhs r)) g"

definition outcome ::
  "production_grammar \<Rightarrow> string set \<Rightarrow> production_rule \<Rightarrow> ast_node option \<Rightarrow> instruction_parser \<Rightarrow> instruction_parser \<Rightarrow> bool"
where
  "outcome g N r c p q = (case c of None \<Rightarrow> moves p [] q
     | Some t \<Rightarrow> moves p (node_yield t) q \<and> rule_derives g r (node_yield t) \<and>
         (pr_lhs r \<in> N \<longrightarrow> node_yield t \<noteq> []))"

lemma moves_stays: "moves p w q \<Longrightarrow> stays p q"
  by (simp add: moves_ok)

text \<open>
  The interface between the parser of units and the parser of rules it calls: a call that comes back
  without a node has not moved; one that comes back with a node has moved over the text below it, and
  the rule derives that text.
\<close>

locale rule_parser =
  fixes rec :: rule_run and g :: production_grammar and N :: "string set"
  assumes closed: "consuming_closed g N"
    and contract: "ip_ok p \<Longrightarrow> ip_grammar p = g \<Longrightarrow> r \<in> set g \<Longrightarrow> rec r p = Some (Inr (c, q)) \<Longrightarrow> outcome g N r c p q"
begin

lemma call:
  assumes "ip_ok p" "ip_grammar p = g" "call_rule rec l p = Some (Inr (c, q))"
  obtains r where "get_rule g l = Inr r" "pr_lhs r = l" "outcome g N r c p q"
  using assms contract get_rule_sound by fastforce

lemma loop:
  "repetition_loop rec k l children p = Some (Inr (ns, q)) \<Longrightarrow> ip_ok p \<Longrightarrow> ip_grammar p = g \<Longrightarrow>
    \<exists>w. nodes_yield ns = nodes_yield children @ w \<and> moves p w q \<and> repetition_derives g l w"
proof (induction k arbitrary: children p)
  case (Suc k)
  then obtain c q' where run: "call_rule rec l p = Some (Inr (c, q'))"
    and rest: "(case c of None \<Rightarrow> ret children q'
       | Some t \<Rightarrow> if ip_pos q' = ip_pos p then ret children q' else repetition_loop rec k l (children @ [t]) q') = Some (Inr (ns, q))"
    by (auto simp del: call_rule_iff)
  obtain r where r: "get_rule g l = Inr r" "outcome g N r c p q'"
    using call [OF Suc.prems(2,3) run] by blast
  note nil = rule_derives_units_derive_unit_derives_repetition_derives.repetition_Nil [of g l]
  show ?case
  proof (cases c)
    case None
    with rest r(2) nil show ?thesis by (intro exI [of _ "[]"]) (auto simp: outcome_def)
  next
    case (Some t)
    with r(2) have m: "moves p (node_yield t) q'" "rule_derives g r (node_yield t)" by (auto simp: outcome_def)
    show ?thesis
    proof (cases "ip_pos q' = ip_pos p")
      case True
      with m(1) have "node_yield t = []" by (simp add: moves_def)
      with rest True m(1) nil show ?thesis by (intro exI [of _ "[]"]) (auto simp: Some)
    next
      case False
      with rest have "repetition_loop rec k l (children @ [t]) q' = Some (Inr (ns, q))" by (simp add: Some)
      from Suc.IH [OF this] moves_ok [OF m(1)] Suc.prems(3) obtain w where
        w: "nodes_yield ns = nodes_yield (children @ [t]) @ w" "moves q' w q" "repetition_derives g l w" by auto
      with moves_trans [OF m(1) w(2)] repetition_Cons [OF r(1) m(2) w(3)] show ?thesis
        by (intro exI [of _ "node_yield t @ w"]) simp
    qed
  qed
qed simp

lemma unit:
  assumes "parse_production_unit rec k alt u p = Some (Inr (c, q))" "ip_ok p" "ip_grammar p = g"
  shows "case c of None \<Rightarrow> moves p [] q
    | Some t \<Rightarrow> moves p (node_yield t) q \<and> unit_derives g u (node_yield t) \<and>
        (consuming N u \<longrightarrow> node_yield t \<noteq> []) \<and>
        nodes_yield (if pu_type u = Repetition then node_children t else [t]) = node_yield t"
proof (cases "pu_type u")
  case Terminal
  with assms(1) have "parse_terminal_node (pa_lhs alt) u p = Some (Inr (c, q))"
    by (simp add: parse_production_unit_def)
  from terminal_moves [OF this assms(2)] Terminal terminal [of u g] show ?thesis
    by (auto simp: consuming_def split: option.splits)
next
  case NonTerminal
  with assms(1) have "call_rule rec (pu_lexeme u) p = Some (Inr (c, q))"
    by (simp add: parse_production_unit_def del: call_rule_iff)
  with assms obtain r where "get_rule g (pu_lexeme u) = Inr r" "pr_lhs r = pu_lexeme u" "outcome g N r c p q"
    using call by blast
  with NonTerminal non_terminal [of u g r] show ?thesis
    by (auto simp: consuming_def outcome_def split: option.splits)
next
  case OptionalUnit
  with assms(1) obtain l c' where l: "strip_ends (pu_lexeme u) = Inr l" "call_rule rec l p = Some (Inr (c', q))"
    and c: "c = Some (case c' of None \<Rightarrow> make_null_terminal (pa_lhs alt) | Some t \<Rightarrow> t)"
    by (auto simp: parse_production_unit_def split: sum.splits simp del: call_rule_iff)
  obtain r where r: "get_rule g l = Inr r" "outcome g N r c' p q" using call [OF assms(2,3) l(2)] by blast
  show ?thesis
    using r(2) OptionalUnit optional_absent [OF OptionalUnit] optional_present [OF OptionalUnit l(1) r(1)]
    by (auto simp: c outcome_def consuming_def make_null_terminal_def default_unit_def split: option.splits)
next
  case Repetition
  with assms(1) obtain l ns where l: "strip_ends (pu_lexeme u) = Inr l" "repetition_loop rec k l [] p = Some (Inr (ns, q))"
    and c: "c = Some (IntermediaryNode alt ns)"
    by (auto simp: parse_production_unit_def split: sum.splits)
  from loop [OF l(2) assms(2,3)] repetition [OF Repetition l(1), of g] Repetition show ?thesis
    by (auto simp: c consuming_def)
qed (use assms(1) in \<open>simp_all add: parse_production_unit_def\<close>)

lemma units:
  "parse_units rec k alt us children p = Some (Inr (ns, q)) \<Longrightarrow> ip_ok p \<Longrightarrow> ip_grammar p = g \<Longrightarrow>
    stays p q \<and> (case ns of None \<Rightarrow> True
      | Some ns \<Rightarrow> \<exists>w. nodes_yield ns = nodes_yield children @ w \<and> moves p w q \<and> units_derive g us w \<and>
          (list_ex (consuming N) us \<longrightarrow> w \<noteq> []))"
proof (induction us arbitrary: children p)
  case Nil
  then show ?case using units_Nil [of g] by auto
next
  case (Cons u us)
  then obtain c q' where unit_run: "parse_production_unit rec k alt u p = Some (Inr (c, q'))"
    and rest: "(case c of None \<Rightarrow> ret None (ip_seek (ip_pos p) q')
       | Some t \<Rightarrow> parse_units rec k alt us (children @ (if pu_type u = Repetition then node_children t else [t])) q') = Some (Inr (ns, q))"
    by auto
  note u = unit [OF unit_run Cons.prems(2,3)]
  show ?case
  proof (cases c)
    case None
    with rest u show ?thesis using moves_stays by (auto simp: stays_def)
  next
    case (Some t)
    with u have t: "moves p (node_yield t) q'" "unit_derives g u (node_yield t)"
      "consuming N u \<longrightarrow> node_yield t \<noteq> []"
      "nodes_yield (if pu_type u = Repetition then node_children t else [t]) = node_yield t" by auto
    have st: "stays q' q" and "case ns of None \<Rightarrow> True
      | Some ns \<Rightarrow> \<exists>w. nodes_yield ns = nodes_yield (children @ (if pu_type u = Repetition then node_children t else [t])) @ w \<and>
          moves q' w q \<and> units_derive g us w \<and> (list_ex (consuming N) us \<longrightarrow> w \<noteq> [])"
      using Cons.IH [of _ q'] rest moves_ok [OF t(1)] Cons.prems(3) by (auto simp: Some)
    moreover have "stays p q" using st moves_stays [OF t(1)] stays_trans by blast
    moreover have "nodes_yield (children @ (if pu_type u = Repetition then node_children t else [t])) = nodes_yield children @ node_yield t"
      using t(4) by (simp only: map_append concat_append)
    ultimately show ?thesis
      using moves_trans [OF t(1)] units_Cons [OF t(2)] t(3) by (fastforce split: option.splits)
  qed
qed

lemma alternative:
  assumes "parse_production_alternative_node rec k a p = Some (Inr (c, q))" "ip_ok p" "ip_grammar p = g"
  shows "stays p q \<and> (case c of None \<Rightarrow> True
    | Some t \<Rightarrow> moves p (node_yield t) q \<and> units_of_content (pa_content a) \<noteq> [] \<and>
        units_derive g (units_of_content (pa_content a)) (node_yield t) \<and>
        (list_ex (consuming N) (units_of_content (pa_content a)) \<longrightarrow> node_yield t \<noteq> []))"
proof (cases "units_of_content (pa_content a) = []")
  case True
  with assms(1) show ?thesis by (auto simp: parse_production_alternative_node_def split: if_splits)
next
  case False
  then obtain ns q' where run: "parse_units rec k a (units_of_content (pa_content a)) [] p = Some (Inr (ns, q'))"
    and rest: "(case ns of None \<Rightarrow> ret None q'
       | Some cs \<Rightarrow> (case pa_content a of Single u \<Rightarrow> if pu_type u = Terminal then ret (Some (cs ! 0)) q' else ret (Some (IntermediaryNode a cs)) q'
          | _ \<Rightarrow> ret (Some (IntermediaryNode a cs)) q')) = Some (Inr (c, q))"
    using assms(1) by (auto simp: parse_production_alternative_node_def split: if_splits)
  note us = units [OF run assms(2,3)]
  show ?thesis
  proof (cases ns)
    case None
    with rest us show ?thesis by simp
  next
    case (Some cs)
    have "q' = q \<and> (c = Some (IntermediaryNode a cs) \<or> c = Some (cs ! 0) \<and> length cs = 1)"
    proof (cases "\<exists>u. pa_content a = Single u \<and> pu_type u = Terminal")
      case True
      then obtain u where u: "pa_content a = Single u" "pu_type u = Terminal" by blast
      with run Some have "length cs = 1" by (auto simp: units_of_content_def split: option.splits)
      with rest u show ?thesis by (simp add: Some)
    next
      case False
      with rest show ?thesis by (auto simp: Some split: alternative_content.splits if_splits)
    qed
    moreover have "nodes_yield cs = node_yield (cs ! 0)" if "length cs = 1"
      using that by (cases cs) auto
    ultimately show ?thesis using us False by (auto simp: Some)
  qed
qed

end

text \<open>A match of a rule at a position: a node whose text stands there and what the rule derives.\<close>

definition match_ok ::
  "production_grammar \<Rightarrow> string set \<Rightarrow> production_rule \<Rightarrow> instruction_parser \<Rightarrow> ast_node \<times> nat \<Rightarrow> bool"
where
  "match_ok g N r p m \<longleftrightarrow> (\<exists>q. moves p (node_yield (fst m)) q \<and> ip_pos q = snd m) \<and>
     rule_derives g r (node_yield (fst m)) \<and> (pr_lhs r \<in> N \<longrightarrow> node_yield (fst m) \<noteq> [])"

lemma best_match_in: "ms \<noteq> [] \<Longrightarrow> best_match ms \<in> set ms"
proof -
  have "foldl (\<lambda>best m. if snd best < snd m then m else best) b xs \<in> insert b (set xs)" for b :: "'a \<times> nat" and xs
    by (induction xs arbitrary: b) auto
  then show "ms \<noteq> [] \<Longrightarrow> best_match ms \<in> set ms"
    by (cases ms) (force simp: best_match_def)+
qed

lemma choose_match_outcome:
  assumes "choose_match r (ip_pos p) ms p' = Some (Inr (c, q))" "ip_ok p" "stays p p'" "list_all (match_ok g N r p) ms"
  shows "outcome g N r c p q"
proof (cases "ms = []")
  case True
  with assms(1) have "c = None" "q = ip_seek (ip_pos p) (push_error (unable_message r) p')"
    by (auto simp: choose_match_def)
  moreover have "stays p (push_error (unable_message r) p')" using assms(3) by (simp add: stays_def)
  ultimately show ?thesis using moves_seek_back assms(2) by (simp add: outcome_def)
next
  case False
  define b where "b = best_match ms"
  define p2 where "p2 = (if length ms > 1 then push_error (multiple_message (length ms) r) p' else p')"
  have c: "c = Some (fst b)" "q = push_success (success_message (fst b)) (ip_seek (snd b) p2)"
    using assms(1) False by (auto simp: choose_match_def b_def p2_def Let_def)
  have "match_ok g N r p b" using assms(4) best_match_in [OF False] by (auto simp: b_def list_all_iff)
  then obtain q' where b: "moves p (node_yield (fst b)) q'" "ip_pos q' = snd b" "rule_derives g r (node_yield (fst b))"
    "pr_lhs r \<in> N \<longrightarrow> node_yield (fst b) \<noteq> []" by (auto simp: match_ok_def)
  have "stays p p2" using assms(3) by (simp add: stays_def p2_def)
  from moves_seek [OF b(1) this] b(2) have "moves p (node_yield (fst b)) q"
    by (simp add: c(2) moves_def)
  with b show ?thesis by (simp add: outcome_def c(1))
qed

context rule_parser
begin

lemma alternatives:
  assumes "ip_ok p0" "ip_grammar p0 = g" "r \<in> set g"
  shows "parse_alternatives rec k (ip_pos p0) as ms p = Some (Inr (ms', q)) \<Longrightarrow> set as \<subseteq> set (pr_rhs r) \<Longrightarrow>
    stays p0 p \<Longrightarrow> list_all (match_ok g N r p0) ms \<Longrightarrow> stays p0 q \<and> list_all (match_ok g N r p0) ms'"
proof (induction as arbitrary: ms p)
  case (Cons a as)
  let ?p = "ip_seek (ip_pos p0) p"
  obtain c q' where run: "parse_production_alternative_node rec k a ?p = Some (Inr (c, q'))"
    and rest: "parse_alternatives rec k (ip_pos p0) as (case c of None \<Rightarrow> ms | Some n \<Rightarrow> ms @ [(n, ip_pos q')]) q' = Some (Inr (ms', q))"
    using Cons.prems(1) by auto
  have start: "moves p0 [] ?p" using moves_seek_back [OF assms(1) Cons.prems(3)] .
  then have p: "ip_ok ?p" "ip_grammar ?p = g" "stays p0 ?p" using moves_ok [OF start] assms(2) by auto
  note alt = alternative [OF run p(1,2)]
  have "match_ok g N r p0 (t, ip_pos q')" if "c = Some t" for t
  proof -
    have t: "moves ?p (node_yield t) q'" "units_of_content (pa_content a) \<noteq> []"
      "units_derive g (units_of_content (pa_content a)) (node_yield t)"
      "list_ex (consuming N) (units_of_content (pa_content a)) \<longrightarrow> node_yield t \<noteq> []"
      using alt that by auto
    have "a \<in> set (pr_rhs r)" using Cons.prems(2) by simp
    moreover from this have "pr_lhs r \<in> N \<longrightarrow> list_ex (consuming N) (units_of_content (pa_content a))"
      using closed assms(3) by (auto simp: consuming_closed_def list_all_iff)
    ultimately show ?thesis
      using moves_trans [OF start t(1)] rule [OF _ t(2,3)] t(4) by (auto simp: match_ok_def)
  qed
  then have "list_all (match_ok g N r p0) (case c of None \<Rightarrow> ms | Some n \<Rightarrow> ms @ [(n, ip_pos q')])"
    using Cons.prems(4) by (auto split: option.split)
  moreover have "stays p0 q'" using alt p(3) stays_trans by blast
  ultimately show ?case using Cons.IH [OF rest] Cons.prems(2) by auto
qed auto

lemma body:
  assumes "rule_body rec k r p = Some (Inr (c, q))" "ip_ok p" "ip_grammar p = g" "r \<in> set g"
  shows "outcome g N r c p q"
proof -
  obtain ms p' where "parse_alternatives rec k (ip_pos p) (pr_rhs r) [] p = Some (Inr (ms, p'))"
    "choose_match r (ip_pos p) ms p' = Some (Inr (c, q))"
    using assms(1) by (auto simp: rule_body_def)
  with alternatives [OF assms(2-4)] choose_match_outcome assms(2) show ?thesis by fastforce
qed

end

lemma parse_production_rule_contract:
  assumes "consuming_closed g N"
  shows "rule_parser (parse_production_rule n) g N"
proof (induction n)
  case 0
  show ?case using assms by (simp add: rule_parser_def)
next
  case (Suc n)
  show ?case using assms rule_parser.body [OF Suc] by (simp add: rule_parser_def)
qed

interpretation production_rules: rule_parser "parse_production_rule n" g "{}" for n g
  by (rule parse_production_rule_contract) (simp add: consuming_closed_def list_all_iff)

section \<open>Soundness\<close>

lemma parse_instruction_result:
  assumes "parse_instruction n s p = Some (Inr (t, q))"
  obtains r c p' where "t = RootNode instruction_lhs [c]" "get_rule (ip_grammar p) instruction_lhs = Inr r"
    "ip_ok p'" "ip_grammar p' = ip_grammar p" "il_rest (ip_lexer p') = s"
    "parse_production_rule n r p' = Some (Inr (Some c, q))" "il_at_end (ip_lexer q)"
proof -
  define p' where "p' = p\<lparr>ip_lexer := il_reset (il_set_input s (ip_lexer p)), ip_failure_position := 0, ip_errors := [], ip_successes := []\<rparr>"
  have p': "ip_ok p'" "ip_grammar p' = ip_grammar p" "il_rest (ip_lexer p') = s"
    by (simp_all add: p'_def ip_ok_def ip_pos_def il_reset_def il_set_input_def il_set_position_def il_rest_def)
  obtain root q' where root: "call_rule (parse_production_rule n) instruction_lhs p' = Some (Inr (root, q'))"
    and rest: "(case root of
        None \<Rightarrow> throw_run (failure_report s (ip_failure_position q') (ip_errors q') (ip_successes q'))
      | Some n \<Rightarrow> if \<not> il_at_end (ip_lexer q') then
            throw_run (failure_report s (ip_failure_position q') (ip_errors q') (ip_successes q'))
          else ret (RootNode instruction_lhs [n]) q') = Some (Inr (t, q))"
    using assms unfolding parse_instruction_def Let_def p'_def [symmetric] run_bind_Some_iff by blast
  obtain c where c: "root = Some c" "t = RootNode instruction_lhs [c]" "q' = q" "il_at_end (ip_lexer q)"
    using rest by (auto split: option.splits if_splits)
  obtain r where "get_rule (ip_grammar p) instruction_lhs = Inr r" "parse_production_rule n r p' = Some (Inr (Some c, q))"
    using root p'(2) c by auto
  with c p' show thesis by (intro that)
qed

section \<open>Enough fuel\<close>

text \<open>
  A grammar is not left recursive when its rules can be ranked so that a rule calls only rules of a
  smaller rank before one of its units has consumed a character.
\<close>

definition unit_calls :: "production_unit \<Rightarrow> string list" where
  "unit_calls u = (case pu_type u of
       NonTerminal \<Rightarrow> [pu_lexeme u]
     | OptionalUnit \<Rightarrow> (case strip_ends (pu_lexeme u) of Inr l \<Rightarrow> [l] | Inl _ \<Rightarrow> [])
     | Repetition \<Rightarrow> (case strip_ends (pu_lexeme u) of Inr l \<Rightarrow> [l] | Inl _ \<Rightarrow> [])
     | _ \<Rightarrow> [])"

fun starts_below :: "string set \<Rightarrow> (string \<Rightarrow> nat) \<Rightarrow> nat \<Rightarrow> production_unit list \<Rightarrow> bool" where
  "starts_below N rank k [] = True"
| "starts_below N rank k (u # us) \<longleftrightarrow>
     list_all (\<lambda>l. rank l < k) (unit_calls u) \<and> (consuming N u \<or> starts_below N rank k us)"

definition not_left_recursive :: "production_grammar \<Rightarrow> string set \<Rightarrow> (string \<Rightarrow> nat) \<Rightarrow> nat \<Rightarrow> bool" where
  "not_left_recursive g N rank R \<longleftrightarrow> consuming_closed g N \<and>
     list_all (\<lambda>r. rank (pr_lhs r) \<le> R \<and>
       list_all (\<lambda>a. starts_below N rank (rank (pr_lhs r)) (units_of_content (pa_content a))) (pr_rhs r)) g"

definition remaining :: "instruction_parser \<Rightarrow> nat" where
  "remaining p = length (il_rest (ip_lexer p))"

text \<open>The calls that must return when \<open>b\<close> units of fuel are left.\<close>

definition returns_within :: "rule_run \<Rightarrow> production_grammar \<Rightarrow> (string \<Rightarrow> nat) \<Rightarrow> nat \<Rightarrow> nat \<Rightarrow> bool" where
  "returns_within rec g rank R b \<longleftrightarrow> (\<forall>r \<in> set g. \<forall>p. ip_ok p \<longrightarrow> ip_grammar p = g \<longrightarrow>
     remaining p * (R + 1) + rank (pr_lhs r) + 1 \<le> b \<longrightarrow> rec r p \<noteq> None)"

lemma run_bind_None_iff: "run_bind m f = None \<longleftrightarrow> m = None \<or> (\<exists>x q. m = Some (Inr (x, q)) \<and> f x q = None)"
  by (auto simp: run_bind_def split: option.splits sum.splits)

lemma never_None [simp]: "ret x p \<noteq> None" "throw_run e \<noteq> None"
  "\<exists>y. ret x p = Some y" "\<exists>y. throw_run e = Some y"
  by (simp_all add: ret_def throw_run_def)

lemma moves_remaining: "moves p w q \<Longrightarrow> remaining p = length w + remaining q"
  by (simp add: moves_def remaining_def)

lemma call_returns:
  assumes "returns_within rec g rank R b" "ip_ok p" "ip_grammar p = g"
    and "remaining p * (R + 1) + rank l + 1 \<le> b"
  shows "call_rule rec l p \<noteq> None"
proof (cases "get_rule g l")
  case (Inl e)
  then show ?thesis by (simp add: call_rule_def assms(3))
next
  case (Inr r)
  then have "rec r p \<noteq> None"
    using assms get_rule_sound [OF Inr] by (auto simp: returns_within_def)
  then show ?thesis by (simp add: call_rule_def assms(3) Inr)
qed

lemma loop_returns:
  assumes "rule_parser rec g N" "\<And>q. ip_ok q \<Longrightarrow> ip_grammar q = g \<Longrightarrow> remaining q \<le> m \<Longrightarrow> call_rule rec l q \<noteq> None"
  shows "ip_ok p \<Longrightarrow> ip_grammar p = g \<Longrightarrow> remaining p \<le> m \<Longrightarrow> remaining p < k \<Longrightarrow> repetition_loop rec k l ns p \<noteq> None"
proof (induction k arbitrary: ns p)
  case (Suc k)
  have "repetition_loop rec k l (ns @ [c]) q \<noteq> None"
    if run: "call_rule rec l p = Some (Inr (Some c, q))" and "ip_pos q \<noteq> ip_pos p" for c q
  proof -
    obtain r where "outcome g N r (Some c) p q"
      using rule_parser.call [OF assms(1) Suc.prems(1,2) run] by blast
    then have m: "moves p (node_yield c) q" by (simp add: outcome_def)
    with that(2) have "node_yield c \<noteq> []" by (auto simp: moves_def)
    then have "remaining q < remaining p" using moves_remaining [OF m] by simp
    with moves_ok [OF m] Suc.prems show ?thesis by (intro Suc.IH) auto
  qed
  with assms(2) [OF Suc.prems(1-3)] show ?case
    by (auto simp: run_bind_None_iff split: option.splits simp del: not_None_eq)
qed simp

lemma unit_returns:
  assumes "rule_parser rec g N" "ip_ok p" "ip_grammar p = g" "remaining p < k"
    and "\<And>l q. l \<in> set (unit_calls u) \<Longrightarrow> ip_ok q \<Longrightarrow> ip_grammar q = g \<Longrightarrow> remaining q \<le> remaining p \<Longrightarrow> call_rule rec l q \<noteq> None"
  shows "parse_production_unit rec k alt u p \<noteq> None"
proof (cases "pu_type u")
  case Terminal
  then show ?thesis
    by (auto simp: parse_production_unit_def parse_terminal_node_def Let_def prod.case_eq_if split: sum.splits)
next
  case OptionalUnit
  then show ?thesis
    using assms(2,3,5) by (auto simp: parse_production_unit_def run_bind_None_iff unit_calls_def split: sum.splits simp del: not_None_eq)
next
  case Repetition
  then show ?thesis
    using loop_returns [OF assms(1), of "remaining p" _ p k "[]"] assms(2-5)
    by (auto simp: parse_production_unit_def run_bind_None_iff unit_calls_def split: sum.splits simp del: not_None_eq)
next
  case NonTerminal
  then show ?thesis using assms(2,3,5) by (simp add: parse_production_unit_def unit_calls_def)
qed (simp_all add: parse_production_unit_def)

text \<open>The bound on the fuel of a call made after part of the input is gone, or of a smaller rank.\<close>

lemma fuel_bound:
  assumes "m' < m \<and> j \<le> R \<or> m' \<le> m \<and> j < i" "m * (R + 1) + i \<le> b"
  shows "m' * (R + 1) + j + 1 \<le> (b :: nat)"
proof -
  have "(m' + 1) * (R + 1) \<le> m * (R + 1)" if "m' < m"
    using that by (intro mult_le_mono1) simp
  moreover have "m' * (R + 1) \<le> m * (R + 1)" if "m' \<le> m"
    using that by (rule mult_le_mono1)
  ultimately show ?thesis using assms by (auto simp: algebra_simps)
qed

lemma units_return:
  assumes "rule_parser rec g N" "returns_within rec g rank R b" "m * (R + 1) + i \<le> b" "m < k"
    and "list_all (\<lambda>r. rank (pr_lhs r) \<le> R) g"
  shows "ip_ok p \<Longrightarrow> ip_grammar p = g \<Longrightarrow> remaining p < m \<or> remaining p = m \<and> starts_below N rank i us \<Longrightarrow>
    parse_units rec k alt us ns p \<noteq> None"
proof (induction us arbitrary: ns p)
  case (Cons u us)
  have "call_rule rec l q \<noteq> None"
    if "l \<in> set (unit_calls u)" "ip_ok q" "ip_grammar q = g" "remaining q \<le> remaining p" for l q
  proof (cases "get_rule g l")
    case (Inl e)
    then show ?thesis by (simp add: call_rule_def that(3))
  next
    case (Inr r)
    have "rank l \<le> R" using get_rule_sound [OF Inr] assms(5) by (auto simp: list_all_iff)
    then have "remaining q < m \<and> rank l \<le> R \<or> remaining q \<le> m \<and> rank l < i"
      using Cons.prems(3) that(1,4) by (auto simp: list_all_iff)
    from call_returns [OF assms(2) that(2,3) fuel_bound [OF this assms(3)]] show ?thesis .
  qed
  moreover have "remaining p < k" using Cons.prems(3) assms(4) by auto
  ultimately have "parse_production_unit rec k alt u p \<noteq> None"
    using unit_returns [OF assms(1) Cons.prems(1,2)] by blast
  moreover have "parse_units rec k alt us ns' q \<noteq> None"
    if run: "parse_production_unit rec k alt u p = Some (Inr (Some c, q))" for c q ns'
  proof -
    have c: "moves p (node_yield c) q" "consuming N u \<longrightarrow> node_yield c \<noteq> []"
      using rule_parser.unit [OF assms(1) run Cons.prems(1,2)] by auto
    with moves_remaining [OF c(1)] Cons.prems(3) have "remaining q < m \<or> remaining q = m \<and> starts_below N rank i us"
      by (cases "node_yield c") auto
    with moves_ok [OF c(1)] Cons.prems(2) show ?thesis by (intro Cons.IH) auto
  qed
  ultimately show ?case by (auto simp: run_bind_None_iff split: option.splits simp del: not_None_eq)
qed simp

lemma alternatives_return:
  assumes "rule_parser rec g N" "returns_within rec g rank R b" "m * (R + 1) + i \<le> b" "m < k"
    and "list_all (\<lambda>r. rank (pr_lhs r) \<le> R) g" "ip_ok p0" "ip_grammar p0 = g" "remaining p0 = m"
  shows "stays p0 p \<Longrightarrow> list_all (\<lambda>a. starts_below N rank i (units_of_content (pa_content a))) as \<Longrightarrow>
    parse_alternatives rec k (ip_pos p0) as ms p \<noteq> None"
proof (induction as arbitrary: ms p)
  case (Cons a as)
  let ?p = "ip_seek (ip_pos p0) p"
  have start: "moves p0 [] ?p" using moves_seek_back [OF assms(6) Cons.prems(1)] .
  then have p: "ip_ok ?p" "ip_grammar ?p = g" "remaining ?p = m" "stays p0 ?p"
    using moves_ok [OF start] moves_remaining [OF start] assms(7,8) by auto
  have "parse_production_alternative_node rec k a ?p \<noteq> None"
    using units_return [OF assms(1-5) p(1,2), of "units_of_content (pa_content a)" a "[]"] p(3) Cons.prems(2)
    by (auto simp: parse_production_alternative_node_def run_bind_None_iff Let_def
        split: option.splits alternative_content.splits simp del: not_None_eq)
  moreover have "parse_alternatives rec k (ip_pos p0) as ms' q \<noteq> None"
    if "parse_production_alternative_node rec k a ?p = Some (Inr (c, q))" for c q ms'
    using rule_parser.alternative [OF assms(1) that p(1,2)] p(4) Cons.prems(2) by (intro Cons.IH) (auto intro: stays_trans)
  ultimately show ?case by (auto simp: run_bind_None_iff simp del: not_None_eq)
qed simp

lemma parse_production_rule_returns:
  assumes "not_left_recursive g N rank R"
  shows "returns_within (parse_production_rule n) g rank R n"
proof (induction n)
  case 0
  show ?case by (simp add: returns_within_def)
next
  case (Suc n)
  have rp: "rule_parser (parse_production_rule n) g N"
    using assms parse_production_rule_contract by (simp add: not_left_recursive_def)
  have ranks: "list_all (\<lambda>r. rank (pr_lhs r) \<le> R) g"
    using assms by (auto simp: not_left_recursive_def list_all_iff)
  have "rule_body (parse_production_rule n) (Suc n) r p \<noteq> None"
    if p: "r \<in> set g" "ip_ok p" "ip_grammar p = g" "remaining p * (R + 1) + rank (pr_lhs r) + 1 \<le> Suc n" for r p
  proof -
    have "list_all (\<lambda>a. starts_below N rank (rank (pr_lhs r)) (units_of_content (pa_content a))) (pr_rhs r)"
      using assms p(1) by (auto simp: not_left_recursive_def list_all_iff)
    moreover have "remaining p * (R + 1) + rank (pr_lhs r) \<le> n" "remaining p < Suc n"
      using p(4) by (auto simp: algebra_simps intro: le_less_trans [of _ "remaining p * (R + 1)"])
    ultimately have "parse_alternatives (parse_production_rule n) (Suc n) (ip_pos p) (pr_rhs r) [] p \<noteq> None"
      using alternatives_return [OF rp Suc _ _ ranks p(2,3) refl] by simp
    then show ?thesis
      by (auto simp: rule_body_def run_bind_None_iff choose_match_def Let_def simp del: not_None_eq)
  qed
  then show ?case by (simp add: returns_within_def)
qed

section \<open>More fuel changes nothing\<close>

definition run_le :: "'a run \<Rightarrow> 'a run \<Rightarrow> bool" where
  "run_le a b \<longleftrightarrow> a = None \<or> a = b"

definition rec_le :: "rule_run \<Rightarrow> rule_run \<Rightarrow> bool" where
  "rec_le f f' \<longleftrightarrow> (\<forall>r p. run_le (f r p) (f' r p))"

lemma run_le_refl [simp]: "run_le a a" and run_le_None [simp]: "run_le None b"
  by (simp_all add: run_le_def)

lemma run_bind_mono:
  "run_le m m' \<Longrightarrow> (\<And>x q. run_le (f x q) (f' x q)) \<Longrightarrow> run_le (run_bind m f) (run_bind m' f')"
  by (auto simp: run_le_def run_bind_def split: option.splits sum.splits)

lemma call_mono: "rec_le f f' \<Longrightarrow> run_le (call_rule f l p) (call_rule f' l p)"
  by (auto simp: call_rule_def rec_le_def split: sum.splits)

lemma loop_mono:
  "rec_le f f' \<Longrightarrow> k \<le> k' \<Longrightarrow> run_le (repetition_loop f k l ns p) (repetition_loop f' k' l ns p)"
proof (induction k arbitrary: k' ns p)
  case (Suc k)
  then obtain j where "k' = Suc j" "k \<le> j" by (cases k') auto
  with Suc show ?case by (auto intro!: run_bind_mono call_mono split: option.split)
qed simp

lemma unit_mono:
  "rec_le f f' \<Longrightarrow> k \<le> k' \<Longrightarrow> run_le (parse_production_unit f k a u p) (parse_production_unit f' k' a u p)"
  by (auto simp: parse_production_unit_def intro!: run_bind_mono call_mono loop_mono
      split: production_unit_type.split sum.split)

lemma units_mono:
  "rec_le f f' \<Longrightarrow> k \<le> k' \<Longrightarrow> run_le (parse_units f k a us ns p) (parse_units f' k' a us ns p)"
  by (induction us arbitrary: ns p) (auto intro!: run_bind_mono unit_mono split: option.split)

lemma alternative_mono:
  "rec_le f f' \<Longrightarrow> k \<le> k' \<Longrightarrow>
    run_le (parse_production_alternative_node f k a p) (parse_production_alternative_node f' k' a p)"
  unfolding parse_production_alternative_node_def Let_def
  by (auto intro!: run_bind_mono units_mono)

lemma alternatives_mono:
  "rec_le f f' \<Longrightarrow> k \<le> k' \<Longrightarrow> run_le (parse_alternatives f k i as ms p) (parse_alternatives f' k' i as ms p)"
  by (induction as arbitrary: ms p) (auto intro!: run_bind_mono alternative_mono)

lemma rule_mono: "n \<le> n' \<Longrightarrow> rec_le (parse_production_rule n) (parse_production_rule n')"
proof (induction n arbitrary: n')
  case (Suc n)
  then obtain j where "n' = Suc j" "n \<le> j" by (cases n') auto
  with Suc show ?case
    by (auto simp: rec_le_def rule_body_def intro!: run_bind_mono alternatives_mono)
qed (simp add: rec_le_def)

lemma instruction_mono: "n \<le> n' \<Longrightarrow> run_le (parse_instruction n s p) (parse_instruction n' s p)"
  unfolding parse_instruction_def Let_def by (intro run_bind_mono call_mono rule_mono) simp_all

section \<open>Left recursion\<close>

lemma left_recursive_run:
  assumes "get_rule g l = Inr r" "pr_rhs r = a # as" "units_of_content (pa_content a) = u # us"
    and "pu_type u = NonTerminal" "pu_lexeme u = l"
  shows "ip_grammar p = g \<Longrightarrow> parse_production_rule n r p = None"
proof (induction n arbitrary: p)
  case (Suc n)
  then have "call_rule (parse_production_rule n) l (ip_seek (ip_pos p) p) = None"
    using assms(1) by (simp add: call_rule_def)
  moreover have "pa_content a \<noteq> UnknownContent" using assms(3) by (auto simp: units_of_content_def)
  ultimately have "parse_production_alternative_node (parse_production_rule n) (Suc n) a (ip_seek (ip_pos p) p) = None"
    using assms(3-5) by (simp add: parse_production_alternative_node_def parse_production_unit_def run_bind_def Let_def)
  then show ?case by (simp add: rule_body_def assms(2) run_bind_def)
qed simp

section \<open>Instructions that stop too early\<close>

lemma match_chars_truncated:
  "chs = il_rest (ip_lexer p) @ c # rest \<Longrightarrow> ip_ok p \<Longrightarrow>
    \<exists>q. match_chars u lx chs p = (False, q) \<and> ip_failure_position q = length (il_input (ip_lexer p))"
proof (induction chs arbitrary: p)
  case (Cons ch chs)
  show ?case
  proof (cases "il_at_end (ip_lexer p)")
    case True
    then have "ip_pos p = length (il_input (ip_lexer p))"
      using Cons.prems(2) by (simp add: il_at_end_def ip_ok_def ip_pos_def)
    with True show ?thesis by simp
  next
    case False
    define p' where "p' = p\<lparr>ip_lexer := il_step (ip_lexer p)\<rparr>"
    have "moves p [il_peek (ip_lexer p)] p'" using step_moves [OF False] by (simp add: p'_def)
    then have p': "ip_ok p'" "stays p p'" using moves_ok by auto
    have "ch = il_peek (ip_lexer p)" "chs = il_rest (ip_lexer p') @ c # rest"
      using Cons.prems(1) il.remaining_step [OF False] by (auto simp: p'_def)
    with False Cons.IH [OF _ p'(1)] p'(2) show ?thesis by (simp add: p'_def stays_def)
  qed
qed simp

lemma best_match_max:
  assumes "ms \<noteq> []"
  shows "\<exists>pre post. ms = pre @ best_match ms # post \<and> list_all (\<lambda>m. snd m < snd (best_match ms)) pre \<and>
    list_all (\<lambda>m. snd m \<le> snd (best_match ms)) post"
proof -
  let ?f = "\<lambda>best m. if snd best < snd m then m else best"
  have "\<exists>pre post. b # xs = pre @ foldl ?f b xs # post \<and> list_all (\<lambda>m. snd m < snd (foldl ?f b xs)) pre \<and>
      list_all (\<lambda>m. snd m \<le> snd (foldl ?f b xs)) post" for b :: "'a \<times> nat" and xs
  proof (induction xs rule: rev_induct)
    case Nil
    show ?case by (intro exI [of _ "[]"]) simp
  next
    case (snoc x xs)
    let ?b = "foldl ?f b xs"
    obtain pre post where p: "b # xs = pre @ ?b # post" "list_all (\<lambda>m. snd m < snd ?b) pre"
      "list_all (\<lambda>m. snd m \<le> snd ?b) post" using snoc by blast
    show ?case
    proof (cases "snd ?b < snd x")
      case True
      have "list_all (\<lambda>m. snd m < snd x) (b # xs)"
        unfolding p(1) using p(2,3) True by (auto simp: list_all_iff)
      with True show ?thesis by (intro exI [of _ "b # xs"] exI [of _ "[]"]) simp
    next
      case False
      with p show ?thesis by (intro exI [of _ pre] exI [of _ "post @ [x]"]) simp
    qed
  qed
  with assms show ?thesis by (cases ms) (simp_all add: best_match_def)
qed

section \<open>Properties\<close>

definition example_rank :: "string \<Rightarrow> nat" where
  "example_rank l = (if l = ''<instruction>'' then 2 else if l = ''<pair>'' then 1 else 0)"

abbreviation example_parser :: instruction_parser where
  "example_parser \<equiv> make_instruction_parser (make_instruction_lexer []) example_pairs"

lemma example_not_left_recursive: "not_left_recursive example_pairs {''<key>'', ''<pair>''} example_rank 2"
  by code_simp

lemma example_parse:
  "(case parse_instruction 24 ''abc=;k=ab;'' example_parser of
      Some (Inr (t, q)) \<Rightarrow> node_yield t = ''abc=;k=ab;'' \<and> length (node_children t) = 1 | _ \<Rightarrow> False)"
  by code_simp

lemma parse_instruction_derives:
  assumes "parse_instruction n s p = Some (Inr (t, q))"
  shows "node_yield t = s \<and>
    (\<exists>r. get_rule (ip_grammar p) instruction_lhs = Inr r \<and> rule_derives (ip_grammar p) r s)"
proof -
  obtain r c p' where t: "t = RootNode instruction_lhs [c]" and r: "get_rule (ip_grammar p) instruction_lhs = Inr r"
    and p': "ip_ok p'" "ip_grammar p' = ip_grammar p" "il_rest (ip_lexer p') = s"
      "parse_production_rule n r p' = Some (Inr (Some c, q))" "il_at_end (ip_lexer q)"
    using parse_instruction_result [OF assms] by blast
  have "outcome (ip_grammar p) {} r (Some c) p' q"
    using production_rules.contract [OF p'(1,2) _ p'(4)] get_rule_sound [OF r] by blast
  then have "moves p' (node_yield c) q" "rule_derives (ip_grammar p) r (node_yield c)"
    by (auto simp: outcome_def)
  with p'(3,5) r show ?thesis by (auto simp: t moves_def il.at_end_iff)
qed

text \<open>
  C3: the parser of instructions is sound. When it accepts, the terminals of the tree it returns,
  read from left to right with their quotes removed and their escapes replaced, are exactly the
  instruction, and the rule \<open><instruction>\<close> of the grammar derives it.
\<close>

theorem parse_instruction_sound:
  assumes "parse_instruction n s p = Some (Inr (t, q))"
  shows "node_yield t = s \<and>
    (\<exists>r. get_rule (ip_grammar p) instruction_lhs = Inr r \<and> rule_derives (ip_grammar p) r s)"
  using parse_instruction_derives [OF assms] .

theorem parse_instruction_sound_witness:
  "\<exists>r. get_rule example_pairs instruction_lhs = Inr r \<and> rule_derives example_pairs r ''abc=;k=ab;''"
proof -
  obtain t q where "parse_instruction 24 ''abc=;k=ab;'' example_parser = Some (Inr (t, q))"
    using example_parse by (auto split: option.splits sum.splits)
  from parse_instruction_sound [OF this] show ?thesis by (simp add: make_instruction_parser_def)
qed

text \<open>
  The parser of rules either fails without moving, or succeeds having moved over a text that
  stands at its position, that the rule derives and that is the text of the terminals it returns.
\<close>

theorem parse_production_rule_sound:
  assumes "parse_production_rule n r p = Some (Inr (c, q))" "r \<in> set (ip_grammar p)"
    and "ip_pos p \<le> length (il_input (ip_lexer p))"
  shows "case c of
      None \<Rightarrow> ip_pos q = ip_pos p
    | Some t \<Rightarrow> il_rest (ip_lexer p) = node_yield t @ il_rest (ip_lexer q) \<and>
        ip_pos q = ip_pos p + length (node_yield t) \<and> rule_derives (ip_grammar p) r (node_yield t)"
  using production_rules.contract [OF _ refl assms(2,1)] assms(3)
  by (auto simp: outcome_def moves_def ip_ok_def split: option.splits)

lemma example_rule_run:
  "(case parse_production_rule 9 (example_pairs ! 1) (example_parser\<lparr>ip_lexer := make_instruction_lexer ''k=ab''\<rparr>) of
      Some (Inr (None, q)) \<Rightarrow> True | _ \<Rightarrow> False) \<and> length example_pairs = 3"
  by code_simp

theorem parse_production_rule_sound_witness:
  "\<exists>q. parse_production_rule 9 (example_pairs ! 1) (example_parser\<lparr>ip_lexer := make_instruction_lexer ''k=ab''\<rparr>) =
    Some (Inr (None, q)) \<and> ip_pos q = 0"
proof -
  let ?p = "example_parser\<lparr>ip_lexer := make_instruction_lexer ''k=ab''\<rparr>"
  obtain q where q: "parse_production_rule 9 (example_pairs ! 1) ?p = Some (Inr (None, q))"
    using example_rule_run by (auto split: option.splits sum.splits)
  have "example_pairs ! 1 \<in> set (ip_grammar ?p)"
    using example_rule_run by (simp add: make_instruction_parser_def)
  from parse_production_rule_sound [OF q this] q show ?thesis
    by (simp add: make_instruction_parser_def make_instruction_lexer_def ip_pos_def)
qed

text \<open>
  A rule takes its longest match, and the first of them when several alternatives match the
  same length: of the matches found, the ones before the chosen one end earlier and no later one
  ends behind it. The parser goes on from the end of the chosen match.
\<close>

theorem longest_match_first:
  assumes "choose_match r i ms p = Some (Inr (Some t, q))"
  shows "\<exists>pre post. ms = pre @ (t, ip_pos q) # post \<and> list_all (\<lambda>m. snd m < ip_pos q) pre \<and>
    list_all (\<lambda>m. snd m \<le> ip_pos q) post"
proof -
  have ne: "ms \<noteq> []" using assms by (auto simp: choose_match_def)
  with assms have "best_match ms = (t, ip_pos q)"
    by (auto simp: choose_match_def Let_def prod_eq_iff)
  with best_match_max [OF ne] show ?thesis by (metis snd_conv)
qed

lemma example_choice:
  "choose_match r 0 [(a, 2), (b, 5), (c, 5)] p =
    Some (Inr (Some b, push_success (success_message b) (ip_seek 5 (push_error (multiple_message 3 r) p))))"
  by (simp add: choose_match_def best_match_def ret_def eval_nat_numeral)

theorem longest_match_first_witness:
  "\<exists>pre post. [(RootNode ''a'' [], 2), (RootNode ''b'' [], 5), (RootNode ''c'' [], 5)] =
    pre @ (RootNode ''b'' [], 5 :: nat) # post \<and> list_all (\<lambda>m. snd m < 5) pre"
  using longest_match_first [OF example_choice [of "\<lparr>pr_lhs = [], pr_rhs = []\<rparr>" "RootNode ''a'' []" "RootNode ''b'' []"
      "RootNode ''c'' []" example_parser]]
  by auto

text \<open>
  C11: parsing ends. If the rules of the grammar can be ranked so that none calls itself or a rule of
  its rank before a character has been consumed, the parser returns on every instruction, with at
  most \<open>(length s + 1) * (R + 1)\<close> nested calls of rules for ranks up to \<open>R\<close>, and more fuel does not
  change its answer.
\<close>

theorem parse_instruction_returns:
  assumes "not_left_recursive (ip_grammar p) N rank R" "(length s + 1) * (R + 1) \<le> fuel"
  shows "\<exists>y. parse_instruction fuel s p = Some y \<and> (\<forall>more. parse_instruction (fuel + more) s p = Some y)"
proof -
  define p' where "p' = p\<lparr>ip_lexer := il_reset (il_set_input s (ip_lexer p)), ip_failure_position := 0, ip_errors := [], ip_successes := []\<rparr>"
  have p': "ip_ok p'" "ip_grammar p' = ip_grammar p" "remaining p' = length s"
    by (simp_all add: p'_def ip_ok_def ip_pos_def il_reset_def il_set_input_def il_set_position_def il_rest_def remaining_def)
  have "call_rule (parse_production_rule fuel) instruction_lhs p' \<noteq> None"
  proof (cases "get_rule (ip_grammar p) instruction_lhs")
    case (Inl e)
    then show ?thesis by (simp add: call_rule_def p'(2))
  next
    case (Inr r)
    have "rank instruction_lhs \<le> R"
      using assms(1) get_rule_sound [OF Inr] by (auto simp: not_left_recursive_def list_all_iff)
    then have "remaining p' * (R + 1) + rank instruction_lhs + 1 \<le> fuel"
      using assms(2) p'(3) by (simp add: algebra_simps)
    from call_returns [OF parse_production_rule_returns [OF assms(1)] p'(1,2) this] show ?thesis .
  qed
  then have "parse_instruction fuel s p \<noteq> None"
    unfolding parse_instruction_def Let_def p'_def [symmetric]
    by (auto simp: run_bind_None_iff split: option.splits simp del: not_None_eq)
  then obtain y where "parse_instruction fuel s p = Some y" by blast
  moreover have "parse_instruction (fuel + more) s p = Some y" for more
    using instruction_mono [of fuel "fuel + more" s p] calculation by (simp add: run_le_def)
  ultimately show ?thesis by blast
qed

theorem parse_instruction_returns_witness:
  "\<exists>y. parse_instruction 33 ''abc=;k=ab;'' example_parser = Some y"
  using parse_instruction_returns [of example_parser "{''<key>'', ''<pair>''}" example_rank 2 "''abc=;k=ab;''" 33]
    example_not_left_recursive
  by (auto simp: make_instruction_parser_def)

text \<open>
  C38: a rule whose first alternative starts with the rule itself never returns, whatever the input,
  the position and the fuel; an instruction is never answered when that rule is \<open><instruction>\<close>. The
  verification of grammars only refuses such an alternative when it is a single unit.
\<close>

theorem left_recursion_never_returns:
  assumes "get_rule (ip_grammar p) l = Inr r" "pr_rhs r = a # as"
    and "units_of_content (pa_content a) = u # us" "pu_type u = NonTerminal" "pu_lexeme u = l"
  shows "call_rule (parse_production_rule n) l p = None \<and>
    (l = instruction_lhs \<longrightarrow> parse_instruction n s p = None)"
proof
  show "call_rule (parse_production_rule n) l p = None"
    by (simp add: call_rule_def assms(1) left_recursive_run [OF assms refl])
  show "l = instruction_lhs \<longrightarrow> parse_instruction n s p = None"
    using assms(1) left_recursive_run [OF assms]
    by (auto simp: parse_instruction_def Let_def run_bind_def call_rule_def)
qed

definition left_recursive_text :: string where
  "left_recursive_text = ''<instruction> ::= <instruction> a | b ;'' @ [newline]"

lemma left_recursive_accepted:
  "(case grammar_of_text left_recursive_text of
      Inr g \<Rightarrow> (case get_rule g instruction_lhs of
          Inr r \<Rightarrow> (case pr_rhs r of a # as \<Rightarrow> (case units_of_content (pa_content a) of
              u # us \<Rightarrow> pu_type u = NonTerminal \<and> pu_lexeme u = instruction_lhs | [] \<Rightarrow> False) | [] \<Rightarrow> False)
        | Inl _ \<Rightarrow> False)
    | Inl _ \<Rightarrow> False)"
  by code_simp

theorem left_recursion_never_returns_witness:
  "\<exists>g. grammar_of_text left_recursive_text = Inr g \<and>
    (\<forall>n s l. parse_instruction n s (make_instruction_parser l g) = None)"
proof -
  obtain g r a as u us where g: "grammar_of_text left_recursive_text = Inr g" "get_rule g instruction_lhs = Inr r"
    "pr_rhs r = a # as" "units_of_content (pa_content a) = u # us" "pu_type u = NonTerminal" "pu_lexeme u = instruction_lhs"
    using left_recursive_accepted by (auto split: sum.splits list.splits)
  have "parse_instruction n s (make_instruction_parser l g) = None" for n s l
    using left_recursion_never_returns [OF _ g(3-6), of "make_instruction_parser l g" n s]
    by (simp add: make_instruction_parser_def g(2))
  with g(1) show ?thesis by blast
qed

text \<open>
  C35: an instruction that stops too early is not reported. When the grammar asks for a single
  terminal and the instruction is a proper prefix of it, the failure lies at the end of the input,
  the report is built from behind it, and \<open>std::out_of_range\<close> leaves the parser instead.
\<close>

theorem truncated_instruction_error:
  assumes "get_rule (ip_grammar p) instruction_lhs = Inr r" "pr_rhs r = [a]" "pa_content a = Single u"
    and "pu_type u = Terminal" "terminal_text (pu_lexeme u) = s @ c # rest"
  shows "parse_instruction (Suc n) s p = Some (Inl (OutOfRange ''basic_string::substr''))"
proof -
  define p' where "p' = p\<lparr>ip_lexer := il_reset (il_set_input s (ip_lexer p)), ip_failure_position := 0, ip_errors := [], ip_successes := []\<rparr>"
  have p': "ip_ok p'" "ip_grammar p' = ip_grammar p" "il_rest (ip_lexer p') = s" "il_input (ip_lexer p') = s" "ip_seek (ip_pos p') p' = p'"
    by (simp_all add: p'_def ip_ok_def ip_pos_def il_reset_def il_set_input_def il_set_position_def il_rest_def ip_seek_def)
  obtain q where q: "match_chars u (terminal_text (pu_lexeme u)) (terminal_text (pu_lexeme u)) p' = (False, q)"
    "ip_failure_position q = length s"
    using match_chars_truncated [of "terminal_text (pu_lexeme u)" p' c rest] p' assms(5) by auto
  define q' where "q' = ip_seek (ip_pos p') (push_error (unable_message r) (ip_seek (ip_pos p') (ip_seek (ip_pos p') q)))"
  have "parse_terminal_node (pa_lhs a) u p' = ret None (ip_seek (ip_pos p') q)"
    by (simp add: parse_terminal_node_def q(1))
  then have "parse_production_alternative_node (parse_production_rule n) (Suc n) a p' =
      ret None (ip_seek (ip_pos p') (ip_seek (ip_pos p') q))"
    using assms(3,4)
    by (simp add: parse_production_alternative_node_def units_of_content_def parse_production_unit_def run_bind_def ret_def Let_def)
  then have "call_rule (parse_production_rule (Suc n)) instruction_lhs p' = ret None q'"
    using assms(1,2) p'
    by (simp add: call_rule_def rule_body_def run_bind_def ret_def choose_match_def q'_def)
  moreover have "ip_failure_position q' = length s"
    by (simp add: q'_def ip_seek_def push_error_def q(2))
  ultimately show ?thesis
    unfolding parse_instruction_def Let_def p'_def [symmetric]
    by (simp add: run_bind_def ret_def throw_run_def failure_report_def
        del: parse_production_rule.simps call_rule_iff)
qed

theorem truncated_instruction_error_witness:
  "\<exists>g. grammar_of_text (''<instruction> ::= abc ;'' @ [newline]) = Inr g \<and>
    parse_instruction 5 ''ab'' (make_instruction_parser (make_instruction_lexer []) g) =
      Some (Inl (OutOfRange ''basic_string::substr''))"
proof -
  have "(case grammar_of_text (''<instruction> ::= abc ;'' @ [newline]) of
      Inr g \<Rightarrow> (case get_rule g instruction_lhs of
          Inr r \<Rightarrow> (case pr_rhs r of [a] \<Rightarrow> (case pa_content a of
              Single u \<Rightarrow> pu_type u = Terminal \<and> terminal_text (pu_lexeme u) = ''ab'' @ ''c'' | _ \<Rightarrow> False) | _ \<Rightarrow> False)
        | Inl _ \<Rightarrow> False)
    | Inl _ \<Rightarrow> False)"
    by code_simp
  then obtain g r a u where g: "grammar_of_text (''<instruction> ::= abc ;'' @ [newline]) = Inr g"
    "get_rule g instruction_lhs = Inr r" "pr_rhs r = [a]" "pa_content a = Single u" "pu_type u = Terminal"
    "terminal_text (pu_lexeme u) = ''ab'' @ ''c''"
    by (auto split: sum.splits list.splits alternative_content.splits)
  have "parse_instruction (Suc 4) ''ab'' (make_instruction_parser (make_instruction_lexer []) g) =
      Some (Inl (OutOfRange ''basic_string::substr''))"
    by (rule truncated_instruction_error [OF _ g(3-6)]) (simp add: make_instruction_parser_def g(2))
  with g(1) show ?thesis by (simp add: eval_nat_numeral)
qed

end
