(* ===== verification/Bnf_Typing.thy ===== *)
theory Bnf_Typing
  imports Bnf_Instruction
begin

text \<open>
  The trees the parser of instructions builds are the parse trees of its grammar: below a node of an
  alternative stand the children its units ask for, in their order. What a unit asks for is read off
  its type: a terminal its leaf, a call a tree of the rule it names, an optional unit such a tree or
  the empty leaf, a repetition any number of such trees, spliced into the children of the alternative.
  An alternative of a single terminal has no node of its own. The contract is a locale on top of the
  one of \<open>Bnf_Instruction\<close>.
\<close>

section \<open>Trees of a grammar\<close>

definition single_terminal :: "production_alternative \<Rightarrow> bool" where
  "single_terminal a \<longleftrightarrow> (case pa_content a of Single u \<Rightarrow> pu_type u = Terminal | _ \<Rightarrow> False)"

inductive rule_tree :: "production_grammar \<Rightarrow> production_rule \<Rightarrow> ast_node \<Rightarrow> bool"
and units_trees :: "production_grammar \<Rightarrow> production_alternative \<Rightarrow> production_unit list \<Rightarrow> ast_node list \<Rightarrow> bool"
and unit_trees :: "production_grammar \<Rightarrow> production_alternative \<Rightarrow> production_unit \<Rightarrow> ast_node list \<Rightarrow> bool"
and repeated_trees :: "production_grammar \<Rightarrow> string \<Rightarrow> ast_node list \<Rightarrow> bool"
for g where
  leaf: "a \<in> set (pr_rhs r) \<Longrightarrow> pa_content a = Single u \<Longrightarrow> pu_type u = Terminal \<Longrightarrow>
    rule_tree g r (TerminalNode (pa_lhs a) u)"
| node: "a \<in> set (pr_rhs r) \<Longrightarrow> \<not> single_terminal a \<Longrightarrow> units_of_content (pa_content a) \<noteq> [] \<Longrightarrow>
    units_trees g a (units_of_content (pa_content a)) ts \<Longrightarrow> rule_tree g r (IntermediaryNode a ts)"
| no_units: "units_trees g a [] []"
| more_units: "unit_trees g a u ts \<Longrightarrow> units_trees g a us ts' \<Longrightarrow> units_trees g a (u # us) (ts @ ts')"
| terminal_unit: "pu_type u = Terminal \<Longrightarrow> unit_trees g a u [TerminalNode (pa_lhs a) u]"
| call_unit: "pu_type u = NonTerminal \<Longrightarrow> get_rule g (pu_lexeme u) = Inr r \<Longrightarrow> rule_tree g r t \<Longrightarrow> unit_trees g a u [t]"
| absent_unit: "pu_type u = OptionalUnit \<Longrightarrow> unit_trees g a u [make_null_terminal (pa_lhs a)]"
| present_unit: "pu_type u = OptionalUnit \<Longrightarrow> strip_ends (pu_lexeme u) = Inr l \<Longrightarrow> get_rule g l = Inr r \<Longrightarrow>
    rule_tree g r t \<Longrightarrow> unit_trees g a u [t]"
| repeated_unit: "pu_type u = Repetition \<Longrightarrow> strip_ends (pu_lexeme u) = Inr l \<Longrightarrow> repeated_trees g l ts \<Longrightarrow> unit_trees g a u ts"
| repeated_none: "repeated_trees g l []"
| repeated_more: "get_rule g l = Inr r \<Longrightarrow> rule_tree g r t \<Longrightarrow> node_yield t \<noteq> [] \<Longrightarrow> repeated_trees g l ts \<Longrightarrow>
    repeated_trees g l (t # ts)"

text \<open>The tree of an instruction: a root over one tree of the rule \<open><instruction>\<close>.\<close>

definition instruction_tree :: "production_grammar \<Rightarrow> ast_node \<Rightarrow> bool" where
  "instruction_tree g t \<longleftrightarrow>
     (\<exists>r c. get_rule g instruction_lhs = Inr r \<and> rule_tree g r c \<and> t = RootNode instruction_lhs [c])"

lemmas tree_intros = rule_tree_units_trees_unit_trees_repeated_trees.intros

lemma repeated_append: "repeated_trees g l ts \<Longrightarrow> repeated_trees g l ts' \<Longrightarrow> repeated_trees g l (ts @ ts')"
  by (induction ts) (auto elim: repeated_trees.cases intro: tree_intros)

section \<open>The contract of a rule\<close>

locale typed_rule_parser = rule_parser +
  assumes typed: "ip_ok p \<Longrightarrow> ip_grammar p = g \<Longrightarrow> r \<in> set g \<Longrightarrow> rec r p = Some (Inr (Some c, q)) \<Longrightarrow>
    rule_tree g r c"
begin

lemma typed_call:
  assumes "ip_ok p" "ip_grammar p = g" "call_rule rec l p = Some (Inr (Some c, q))"
  obtains r where "get_rule g l = Inr r" "rule_tree g r c"
  using assms typed get_rule_sound by fastforce

lemma typed_loop:
  "repetition_loop rec k l children p = Some (Inr (ns, q)) \<Longrightarrow> ip_ok p \<Longrightarrow> ip_grammar p = g \<Longrightarrow>
    repeated_trees g l children \<Longrightarrow> repeated_trees g l ns"
proof (induction k arbitrary: children p)
  case (Suc k)
  then obtain c q' where run: "call_rule rec l p = Some (Inr (c, q'))"
    and rest: "(case c of None \<Rightarrow> ret children q'
       | Some t \<Rightarrow> if ip_pos q' = ip_pos p then ret children q' else repetition_loop rec k l (children @ [t]) q') = Some (Inr (ns, q))"
    by (auto simp del: call_rule_iff)
  show ?case
  proof (cases c)
    case None
    with rest Suc.prems(4) show ?thesis by simp
  next
    case (Some t)
    with run obtain r where r: "get_rule g l = Inr r" "rule_tree g r t"
      using typed_call [OF Suc.prems(2,3)] by blast
    have m: "moves p (node_yield t) q'"
      using call [OF Suc.prems(2,3) run] Some by (auto simp: outcome_def)
    show ?thesis
    proof (cases "ip_pos q' = ip_pos p")
      case True
      with rest Some Suc.prems(4) show ?thesis by simp
    next
      case False
      with m have "node_yield t \<noteq> []" by (auto simp: moves_def)
      with r have "repeated_trees g l (children @ [t])"
        using repeated_append [OF Suc.prems(4)] by (blast intro: tree_intros)
      moreover have "repetition_loop rec k l (children @ [t]) q' = Some (Inr (ns, q))" using rest Some False by simp
      ultimately show ?thesis using Suc.IH moves_ok [OF m] Suc.prems(3) by blast
    qed
  qed
qed simp

lemma typed_unit:
  assumes "parse_production_unit rec k alt u p = Some (Inr (Some c, q))" "ip_ok p" "ip_grammar p = g"
  shows "unit_trees g alt u (if pu_type u = Repetition then node_children c else [c])"
proof (cases "pu_type u")
  case Terminal
  with assms(1) have "c = TerminalNode (pa_lhs alt) u"
    using terminal_moves [OF _ assms(2)] by (fastforce simp: parse_production_unit_def)
  with Terminal show ?thesis by (simp add: terminal_unit)
next
  case NonTerminal
  with assms(1) have "call_rule rec (pu_lexeme u) p = Some (Inr (Some c, q))"
    by (simp add: parse_production_unit_def del: call_rule_iff)
  then obtain r where "get_rule g (pu_lexeme u) = Inr r" "rule_tree g r c" using typed_call [OF assms(2,3)] by blast
  with NonTerminal show ?thesis by (simp add: call_unit)
next
  case OptionalUnit
  with assms(1) obtain l c' where l: "strip_ends (pu_lexeme u) = Inr l" "call_rule rec l p = Some (Inr (c', q))"
    and c: "c = (case c' of None \<Rightarrow> make_null_terminal (pa_lhs alt) | Some t \<Rightarrow> t)"
    by (auto simp: parse_production_unit_def split: sum.splits simp del: call_rule_iff)
  show ?thesis
  proof (cases c')
    case None
    with c OptionalUnit show ?thesis by (simp add: absent_unit)
  next
    case (Some t)
    with l obtain r where "get_rule g l = Inr r" "rule_tree g r t" using typed_call [OF assms(2,3)] by blast
    with l(1) Some c OptionalUnit show ?thesis by (simp add: present_unit)
  qed
next
  case Repetition
  with assms(1) obtain l ns where l: "strip_ends (pu_lexeme u) = Inr l" "repetition_loop rec k l [] p = Some (Inr (ns, q))"
    "c = IntermediaryNode alt ns"
    by (auto simp: parse_production_unit_def split: sum.splits)
  with typed_loop [OF l(2) assms(2,3) repeated_none] Repetition show ?thesis by (simp add: repeated_unit)
qed (use assms(1) in \<open>simp_all add: parse_production_unit_def\<close>)

lemma typed_units:
  "parse_units rec k alt us children p = Some (Inr (Some ns, q)) \<Longrightarrow> ip_ok p \<Longrightarrow> ip_grammar p = g \<Longrightarrow>
    \<exists>ts. ns = children @ ts \<and> units_trees g alt us ts"
proof (induction us arbitrary: children p)
  case Nil
  then show ?case by (auto intro: tree_intros)
next
  case (Cons u us)
  then obtain t q' where run: "parse_production_unit rec k alt u p = Some (Inr (Some t, q'))"
    and rest: "parse_units rec k alt us (children @ (if pu_type u = Repetition then node_children t else [t])) q' = Some (Inr (Some ns, q))"
    by (auto split: option.splits)
  have "moves p (node_yield t) q'" using unit [OF run Cons.prems(2,3)] by simp
  with moves_ok Cons.prems(3) have "ip_ok q'" "ip_grammar q' = g" by auto
  with Cons.IH [OF rest] obtain ts where
    "ns = children @ (if pu_type u = Repetition then node_children t else [t]) @ ts" "units_trees g alt us ts" by auto
  with more_units [OF typed_unit [OF run Cons.prems(2,3)]] show ?case by blast
qed

lemma typed_alternative:
  assumes "parse_production_alternative_node rec k a p = Some (Inr (Some c, q))" "ip_ok p" "ip_grammar p = g"
    and "a \<in> set (pr_rhs r)"
  shows "rule_tree g r c"
proof -
  have us: "units_of_content (pa_content a) \<noteq> []"
    using assms(1) by (auto simp: parse_production_alternative_node_def split: if_splits)
  then obtain ns q' where ns: "parse_units rec k a (units_of_content (pa_content a)) [] p = Some (Inr (ns, q'))"
    and rest: "(case ns of None \<Rightarrow> ret None q'
       | Some cs \<Rightarrow> (case pa_content a of Single u \<Rightarrow> if pu_type u = Terminal then ret (Some (cs ! 0)) q' else ret (Some (IntermediaryNode a cs)) q'
          | _ \<Rightarrow> ret (Some (IntermediaryNode a cs)) q')) = Some (Inr (Some c, q))"
    using assms(1) by (auto simp: parse_production_alternative_node_def split: if_splits)
  then obtain cs where cs: "ns = Some cs" by (cases ns) auto
  with typed_units [OF _ assms(2,3)] ns have ts: "units_trees g a (units_of_content (pa_content a)) cs" by fastforce
  show ?thesis
  proof (cases "single_terminal a")
    case True
    then obtain u where u: "pa_content a = Single u" "pu_type u = Terminal"
      by (auto simp: single_terminal_def split: alternative_content.splits)
    with ts have "cs = [TerminalNode (pa_lhs a) u]"
      by (auto simp: units_of_content_def elim!: units_trees.cases unit_trees.cases)
    with rest u cs have "c = TerminalNode (pa_lhs a) u" by simp
    with leaf [OF assms(4) u] show ?thesis by simp
  next
    case False
    with rest cs have "c = IntermediaryNode a cs"
      by (auto simp: single_terminal_def split: alternative_content.splits if_splits)
    with node [OF assms(4) False us ts] show ?thesis by simp
  qed
qed

lemma typed_alternatives:
  assumes "ip_ok p0" "ip_grammar p0 = g"
  shows "parse_alternatives rec k (ip_pos p0) as ms p = Some (Inr (ms', q)) \<Longrightarrow> set as \<subseteq> set (pr_rhs r) \<Longrightarrow>
    stays p0 p \<Longrightarrow> list_all (rule_tree g r \<circ> fst) ms \<Longrightarrow> list_all (rule_tree g r \<circ> fst) ms'"
proof (induction as arbitrary: ms p)
  case (Cons a as)
  let ?p = "ip_seek (ip_pos p0) p"
  obtain c q' where run: "parse_production_alternative_node rec k a ?p = Some (Inr (c, q'))"
    and rest: "parse_alternatives rec k (ip_pos p0) as (case c of None \<Rightarrow> ms | Some n \<Rightarrow> ms @ [(n, ip_pos q')]) q' = Some (Inr (ms', q))"
    using Cons.prems(1) by auto
  have start: "moves p0 [] ?p" using moves_seek_back [OF assms(1) Cons.prems(3)] .
  then have p: "ip_ok ?p" "ip_grammar ?p = g" "stays p0 ?p" using moves_ok [OF start] assms(2) by auto
  have "stays p0 q'" using alternative [OF run p(1,2)] p(3) stays_trans by blast
  moreover have "rule_tree g r t" if "c = Some t" for t
    using typed_alternative [OF _ p(1,2)] run that Cons.prems(2) by auto
  ultimately show ?case
    using Cons.IH [OF rest] Cons.prems(2,4) by (auto split: option.splits)
qed auto

lemma typed_body:
  assumes "rule_body rec k r p = Some (Inr (Some c, q))" "ip_ok p" "ip_grammar p = g" "r \<in> set g"
  shows "rule_tree g r c"
proof -
  obtain ms p' where ms: "parse_alternatives rec k (ip_pos p) (pr_rhs r) [] p = Some (Inr (ms, p'))"
    and choice: "choose_match r (ip_pos p) ms p' = Some (Inr (Some c, q))"
    using assms(1) by (auto simp: rule_body_def)
  have "list_all (rule_tree g r \<circ> fst) ms"
    using typed_alternatives [OF assms(2,3) ms] by simp
  moreover have "ms \<noteq> [] \<and> c = fst (best_match ms)"
    using choice by (auto simp: choose_match_def Let_def split: if_splits)
  ultimately show ?thesis using best_match_in [of ms] by (auto simp: list_all_iff)
qed

end

lemma parse_production_rule_typed: "typed_rule_parser (parse_production_rule n) g {}"
proof (induction n)
  case 0
  show ?case
    using production_rules.rule_parser_axioms [of 0 g]
    by (simp add: typed_rule_parser_def typed_rule_parser_axioms_def)
next
  case (Suc n)
  show ?case
    using production_rules.rule_parser_axioms [of "Suc n" g] typed_rule_parser.typed_body [OF Suc]
    by (simp add: typed_rule_parser_def typed_rule_parser_axioms_def)
qed

interpretation typed_rules: typed_rule_parser "parse_production_rule n" g "{}" for n g
  by (rule parse_production_rule_typed)

section \<open>Consequences\<close>

lemma parse_instruction_typed:
  assumes "parse_instruction n s p = Some (Inr (t, q))"
  shows "instruction_tree (ip_grammar p) t"
proof -
  obtain r c p' where t: "t = RootNode instruction_lhs [c]" and r: "get_rule (ip_grammar p) instruction_lhs = Inr r"
    and p': "ip_ok p'" "ip_grammar p' = ip_grammar p" "il_rest (ip_lexer p') = s"
      "parse_production_rule n r p' = Some (Inr (Some c, q))" "il_at_end (ip_lexer q)"
    using parse_instruction_result [OF assms] by blast
  show ?thesis
    using typed_rules.typed [OF p'(1,2) _ p'(4)] get_rule_sound [OF r] r by (simp add: t instruction_tree_def)
qed

text \<open>
  C30: the tree of an accepted instruction is a parse tree of the grammar: a root with one tree of the
  rule \<open><instruction>\<close>; every tree of a rule belongs to one alternative of that rule, and its children
  are what the units of that alternative ask for, in their order: the leaf of a terminal under the
  left-hand side of the alternative, one tree of the rule a unit calls, such a tree or the empty leaf for an optional unit,
  and for a repetition any number of trees of its rule, none of them with an empty text. An
  alternative of a single terminal is its leaf.
\<close>

theorem parsed_tree_has_grammar_type:
  assumes "parse_instruction fuel s p = Some (Inr (t, q))"
  shows "instruction_tree (ip_grammar p) t"
  using assms by (rule parse_instruction_typed)

theorem parsed_tree_has_grammar_type_witness:
  "\<exists>t. instruction_tree (ip_grammar example_parser) t \<and> node_yield t = ''abc=;k=ab;''"
proof -
  obtain t q where t: "parse_instruction 24 ''abc=;k=ab;'' example_parser = Some (Inr (t, q))"
    "node_yield t = ''abc=;k=ab;''"
    using example_parse by (auto split: option.splits sum.splits)
  from parsed_tree_has_grammar_type [OF t(1)] t(2) show ?thesis by blast
qed

end
