(* ===== verification/Parse_Utils.thy ===== *)
theory Parse_Utils
  imports Bnf_Typing
begin

text \<open>
  \<open>src/include/ujcamei/source/contract/syntax/parse_utils.h\<close> and \<open>tokens.h\<close>, with the helpers the two
  source decoders share: how a decoder reads a tree. A node is recognised by the hash of its name;
  the text of a node is that of the terminals below it. A pointer that may be null is an option.
\<close>

section \<open>Text of a terminal\<close>

definition escaped_text :: "char \<Rightarrow> string" where
  "escaped_text d =
     (if d = CHR ''n'' then [newline] else if d = CHR ''r'' then [CHR 0x0D] else if d = CHR ''t'' then [CHR 0x09]
      else if d = CHR 0x5C then [CHR 0x5C] else if d = CHR 0x22 then [CHR 0x22] else if d = CHR 0x27 then [CHR 0x27]
      else [CHR 0x5C, d])"

fun unescape_like_parser :: "string \<Rightarrow> string" where
  "unescape_like_parser [] = []"
| "unescape_like_parser [c] = [c]"
| "unescape_like_parser (c # d # s) =
     (if c = CHR 0x5C then escaped_text d @ unescape_like_parser s else c # unescape_like_parser (d # s))"

definition terminal_text_from_unit :: "production_unit \<Rightarrow> string" where
  "terminal_text_from_unit u =
     (let lex = pu_lexeme u;
          lex = (if length lex \<ge> 2 \<and> (hd lex = CHR 0x22 \<and> last lex = CHR 0x22 \<or> hd lex = CHR 0x27 \<and> last lex = CHR 0x27)
                 then take (length lex - 2) (drop 1 lex) else lex)
      in unescape_like_parser lex)"

definition is_space_or_tab :: "char \<Rightarrow> bool" where
  "is_space_or_tab c \<longleftrightarrow> c = CHR '' '' \<or> c = CHR 0x09"

definition trim_spaces_tabs :: "string \<Rightarrow> string" where
  "trim_spaces_tabs s = rev (dropWhile is_space_or_tab (rev (dropWhile is_space_or_tab s)))"

section \<open>Text of a node\<close>

fun append_all_terminals :: "ast_node \<Rightarrow> string \<Rightarrow> string"
and append_children_terminals :: "ast_node list \<Rightarrow> string \<Rightarrow> string"
where
  "append_all_terminals (TerminalNode l u) out =
     (if pu_type u = Terminal then out @ terminal_text_from_unit u else out)"
| "append_all_terminals (RootNode l cs) out = append_children_terminals cs out"
| "append_all_terminals (IntermediaryNode a cs) out = append_children_terminals cs out"
| "append_children_terminals [] out = out"
| "append_children_terminals (c # cs) out = append_children_terminals cs (append_all_terminals c out)"

definition flatten_node_text :: "ast_node option \<Rightarrow> string" where
  "flatten_node_text n = (case n of None \<Rightarrow> [] | Some n \<Rightarrow> append_all_terminals n [])"

section \<open>Looking for nodes\<close>

text \<open>\<open>dynamic_cast<const IntermediaryNode *>\<close> of a pointer that may be null.\<close>

definition as_intermediary :: "ast_node option \<Rightarrow> ast_node option" where
  "as_intermediary n = (case n of Some (IntermediaryNode a cs) \<Rightarrow> n | _ \<Rightarrow> None)"

definition find_direct_child_by_hash :: "ast_node option \<Rightarrow> u64 \<Rightarrow> ast_node option" where
  "find_direct_child_by_hash parent wanted_hash = (case parent of None \<Rightarrow> None
     | Some p \<Rightarrow> List.find (\<lambda>ch. node_hash ch = wanted_hash) (node_children p))"

fun collect_node_texts_by_hash :: "u64 \<Rightarrow> ast_node \<Rightarrow> string list \<Rightarrow> string list"
and collect_children_texts_by_hash :: "u64 \<Rightarrow> ast_node list \<Rightarrow> string list \<Rightarrow> string list"
where
  "collect_node_texts_by_hash h n out =
     (if node_hash n = h then out @ [trim_spaces_tabs (flatten_node_text (Some n))]
      else case n of RootNode l cs \<Rightarrow> collect_children_texts_by_hash h cs out
        | IntermediaryNode a cs \<Rightarrow> collect_children_texts_by_hash h cs out
        | TerminalNode l u \<Rightarrow> out)"
| "collect_children_texts_by_hash h [] out = out"
| "collect_children_texts_by_hash h (c # cs) out =
     collect_children_texts_by_hash h cs (collect_node_texts_by_hash h c out)"

fun collect_intermediary_nodes_by_hash :: "u64 \<Rightarrow> ast_node \<Rightarrow> ast_node list \<Rightarrow> ast_node list"
and collect_intermediary_children_by_hash :: "u64 \<Rightarrow> ast_node list \<Rightarrow> ast_node list \<Rightarrow> ast_node list"
where
  "collect_intermediary_nodes_by_hash h n out =
     (if node_hash n = h then (case n of IntermediaryNode a cs \<Rightarrow> out @ [n] | _ \<Rightarrow> out)
      else case n of RootNode l cs \<Rightarrow> collect_intermediary_children_by_hash h cs out
        | IntermediaryNode a cs \<Rightarrow> collect_intermediary_children_by_hash h cs out
        | TerminalNode l u \<Rightarrow> out)"
| "collect_intermediary_children_by_hash h [] out = out"
| "collect_intermediary_children_by_hash h (c # cs) out =
     collect_intermediary_children_by_hash h cs (collect_intermediary_nodes_by_hash h c out)"

definition child_text :: "ast_node option \<Rightarrow> u64 \<Rightarrow> string" where
  "child_text n h = trim_spaces_tabs (flatten_node_text (find_direct_child_by_hash n h))"

definition required_assignment_value :: "ast_node \<Rightarrow> u64 \<Rightarrow> u64 \<Rightarrow> string \<Rightarrow> string result" where
  "required_assignment_value block assignment_hash value_hash field_name =
     (let assignment = as_intermediary (find_direct_child_by_hash (Some block) assignment_hash);
          v = child_text assignment value_hash
      in if v = [] then Inl (RuntimeError (''missing value for '' @ field_name)) else Inr v)"

definition optional_assignment_value :: "ast_node \<Rightarrow> u64 \<Rightarrow> u64 \<Rightarrow> string" where
  "optional_assignment_value block assignment_hash value_hash =
     (case as_intermediary (find_direct_child_by_hash (Some block) assignment_hash) of
        None \<Rightarrow> [] | Some assignment \<Rightarrow> child_text (Some assignment) value_hash)"

section \<open>The hashes of the decoders\<close>

text \<open>
  \<open>DEFINE_HASH(SOURCE_PIPELINE_HASH_x, "<x>")\<close>: \<open>source_hash ''x''\<close> is the constant of the token \<open>x\<close>; the
  tokens declared, in order.
\<close>

definition source_hash :: "string \<Rightarrow> u64" where
  "source_hash token = fnv1aHash (CHR ''<'' # token @ [CHR ''>''])"

definition source_tokens :: "string list" where
  "source_tokens = [
    ''instruction'', ''instrument_table'', ''channel_table'', ''graph_node_table'',
    ''graph_edge_table'', ''graph_policy_block'', ''edge_resolution_policy_assignment'',
    ''edge_source_kind_assignment'', ''fetch_mode_assignment'', ''max_fetch_workers_assignment'',
    ''parallel_min_work_items_assignment'', ''channel_set_block'', ''channel_set_active_assignment'',
    ''channel_set_record_type_assignment'', ''channel_set_input_length_assignment'',
    ''channel_set_future_length_assignment'', ''channel_set_weight_assignment'',
    ''channel_set_normalization_assignment'', ''channel_set_intervals_assignment'',
    ''instrument_header_line'', ''instrument_form'', ''channel_header_line'', ''channel_form'',
    ''graph_node_header_line'', ''graph_node_form'', ''graph_edge_header_line'', ''graph_edge_form'',
    ''table_top_line'', ''table_divider_line'', ''table_bottom_line'', ''comment'',
    ''csv_policy_block'', ''csv_bootstrap_assignment'', ''csv_step_abs_tol_assignment'',
    ''csv_step_rel_tol_assignment'', ''data_analytics_policy_block'',
    ''data_analytics_max_samples_assignment'', ''data_analytics_max_features_assignment'',
    ''data_analytics_mask_epsilon_assignment'', ''data_analytics_standardize_epsilon_assignment'',
    ''source_defaults_block'', ''default_source_root_assignment'',
    ''default_kline_intervals_assignment'', ''kline_source_set_block'',
    ''kline_source_instrument_assignment'', ''kline_source_market_type_assignment'',
    ''kline_source_venue_assignment'', ''kline_source_base_asset_assignment'',
    ''kline_source_quote_asset_assignment'', ''kline_source_kind_assignment'',
    ''kline_source_root_assignment'', ''kline_intervals_assignment'', ''kline_interval_list'',
    ''source_root_path'', ''market_type'', ''venue'', ''base_asset'', ''quote_asset'', ''source_kind'',
    ''node_id'', ''node_kind'', ''edge_id'', ''base_node'', ''quote_node'', ''source_instrument'',
    ''edge_resolution_policy'', ''edge_source_kind'', ''fetch_mode'', ''policy_unsigned_int'',
    ''policy_float'', ''normalization_policy'', ''source'', ''break_block'', ''file_path'', ''active'',
    ''input_length'', ''future_length'', ''channel_weight'', ''character'', ''literal'',
    ''whitespace'', ''instrument'', ''record_type'', ''interval'', ''boolean'', ''special'',
    ''letter'', ''number'', ''newline'', ''empty'', ''frame_char'']"

section \<open>Facts\<close>

lemma unescape_like_parser_eq: "unescape_like_parser s = unescape s"
  by (induction s rule: unescape_like_parser.induct) (auto simp: escaped_text_def)

text \<open>The two routines read the same text from a terminal unless its lexeme is a lone quote.\<close>

definition lone_quote :: "production_unit \<Rightarrow> bool" where
  "lone_quote u \<longleftrightarrow> pu_lexeme u = [CHR 0x22] \<or> pu_lexeme u = [CHR 0x27]"

lemma terminal_text_from_unit_eq: "\<not> lone_quote u \<Longrightarrow> terminal_text_from_unit u = terminal_text (pu_lexeme u)"
proof (cases "length (pu_lexeme u) \<ge> 2")
  case True
  then show ?thesis
    by (auto simp: terminal_text_from_unit_def terminal_text_def remove_quotes_def unescape_like_parser_eq Let_def drop_Suc)
next
  case False
  then have "pu_lexeme u = [] \<or> (\<exists>c. pu_lexeme u = [c])"
    by (cases "pu_lexeme u") (auto simp: Suc_le_eq)
  moreover assume "\<not> lone_quote u"
  ultimately show ?thesis
    by (auto simp: terminal_text_from_unit_def terminal_text_def remove_quotes_def unescape_like_parser_eq lone_quote_def)
qed

fun no_lone_quote :: "ast_node \<Rightarrow> bool" where
  "no_lone_quote (RootNode l cs) \<longleftrightarrow> list_all no_lone_quote cs"
| "no_lone_quote (IntermediaryNode a cs) \<longleftrightarrow> list_all no_lone_quote cs"
| "no_lone_quote (TerminalNode l u) \<longleftrightarrow> pu_type u \<noteq> Terminal \<or> \<not> lone_quote u"

lemma append_all_terminals_yield:
  "no_lone_quote n \<Longrightarrow> append_all_terminals n out = out @ node_yield n"
  "list_all no_lone_quote ns \<Longrightarrow> append_children_terminals ns out = out @ nodes_yield ns"
  by (induction n out and ns out rule: append_all_terminals_append_children_terminals.induct)
    (simp_all add: terminal_text_from_unit_eq)

lemma flatten_node_yield: "no_lone_quote n \<Longrightarrow> flatten_node_text (Some n) = node_yield n"
  by (simp add: flatten_node_text_def append_all_terminals_yield)

lemma lexeme_not_lone_quote:
  assumes "lexeme_ok Terminal (pu_lexeme u)" shows "\<not> lone_quote u"
proof -
  have "\<not> unquoted_chr CHR 0x22" "\<not> unquoted_chr CHR 0x27" by code_simp+
  with assms show ?thesis by (auto simp: lexeme_ok_def quoted_text_def enclosed_by_def lone_quote_def)
qed

lemma rule_terminal_not_lone_quote:
  assumes "grammar_ok g" "r \<in> set g" "a \<in> set (pr_rhs r)" "u \<in> set (units_of_content (pa_content a))" "pu_type u = Terminal"
  shows "\<not> lone_quote u"
proof -
  have "alternative_ok (pr_lhs r) a" using assms(1-3) by (auto simp: grammar_ok_def rule_ok_def list_all_iff)
  with assms(4,5) have "lexeme_ok Terminal (pu_lexeme u)"
    by (auto simp: alternative_ok_def unit_ok_def list_all_iff)
  then show ?thesis by (rule lexeme_not_lone_quote)
qed

lemma rule_tree_no_lone_quote:
  assumes "grammar_ok g"
  shows "rule_tree g r t \<Longrightarrow> r \<in> set g \<Longrightarrow> no_lone_quote t"
    "units_trees g a us ts \<Longrightarrow> list_all (\<lambda>u. pu_type u = Terminal \<longrightarrow> \<not> lone_quote u) us \<Longrightarrow> list_all no_lone_quote ts"
    "unit_trees g a u us' \<Longrightarrow> pu_type u = Terminal \<longrightarrow> \<not> lone_quote u \<Longrightarrow> list_all no_lone_quote us'"
    "repeated_trees g l ts' \<Longrightarrow> list_all no_lone_quote ts'"
proof (induction rule: rule_tree_units_trees_unit_trees_repeated_trees.inducts)
  case (leaf a r u)
  then show ?case using rule_terminal_not_lone_quote [OF assms leaf(4,1)] by (simp add: units_of_content_def)
next
  case (node a r ts)
  then show ?case using rule_terminal_not_lone_quote [OF assms node(6,1)] by (auto simp: list_all_iff)
qed (auto simp: make_null_terminal_def default_unit_def dest!: get_rule_sound)

lemma tree_no_lone_quote: "grammar_ok g \<Longrightarrow> instruction_tree g t \<Longrightarrow> no_lone_quote t"
  using rule_tree_no_lone_quote(1) get_rule_sound by (fastforce simp: instruction_tree_def)

section \<open>Visits as folds\<close>

fun tree_nodes :: "ast_node \<Rightarrow> ast_node list" where
  "tree_nodes (RootNode l cs) = RootNode l cs # concat (map tree_nodes cs)"
| "tree_nodes (IntermediaryNode a cs) = IntermediaryNode a cs # concat (map tree_nodes cs)"
| "tree_nodes (TerminalNode l u) = [TerminalNode l u]"

text \<open>
  A visitor that ignores the stack is a fold over the nodes in preorder. A visitor that may throw
  keeps the exception as its data: the nodes that follow are not visited.
\<close>

definition visit_with :: "(ast_node \<Rightarrow> 'd \<Rightarrow> 'd) \<Rightarrow> ast_node \<Rightarrow> 'd visitor_context \<Rightarrow> 'd visitor_context" where
  "visit_with f = on_data (\<lambda>n stack. f n)"

lemma accept_folds:
  "vc_user_data (accept_node (visit_with f) n c) = fold f (tree_nodes n) (vc_user_data c)"
  "vc_user_data (accept_children (visit_with f) p ns c) = fold f (concat (map tree_nodes ns)) (vc_user_data c)"
  unfolding visit_with_def
  by (induction "on_data (\<lambda>n stack. f n)" n c and "on_data (\<lambda>n stack. f n)" p ns c rule: accept_node_accept_children.induct)
    simp_all

lemma fold_throwing: "fold (\<lambda>n d. rbind d (f n)) ns d = rbind d (fold_res f ns)"
  by (induction ns arbitrary: d) (simp_all add: rbind_assoc, (case_tac d; simp)+)


lemma source_hashes_low: "distinct (map source_hash source_tokens)"
proof -
  have k: "11 \<le> (40 :: nat)" by simp
  have "distinct (map (\<lambda>t. foldl (fnv_low_step 11) (take_bit 11 14695981039346656037) (CHR ''<'' # t @ [CHR ''>''])) source_tokens)"
    by code_simp
  also have "map (\<lambda>t. foldl (fnv_low_step 11) (take_bit 11 14695981039346656037) (CHR ''<'' # t @ [CHR ''>''])) source_tokens =
      map (\<lambda>h. take_bit 11 (uint h)) (map source_hash source_tokens)"
    by (simp only: map_map o_def source_hash_def low_fnv [OF k])
  finally show ?thesis by (rule conjunct1 [OF distinct_map [THEN iffD1]])
qed

lemma source_hash_inject: "a \<in> set source_tokens \<Longrightarrow> b \<in> set source_tokens \<Longrightarrow> source_hash a = source_hash b \<Longrightarrow> a = b"
proof -
  have "distinct (map source_hash source_tokens)" by (rule source_hashes_low)
  then have "inj_on source_hash (set source_tokens)" by (simp add: distinct_map)
  then show "a \<in> set source_tokens \<Longrightarrow> b \<in> set source_tokens \<Longrightarrow> source_hash a = source_hash b \<Longrightarrow> a = b"
    by (rule inj_onD)
qed

lemma example_pairs_ok: "grammar_ok example_pairs"
  by code_simp

section \<open>Properties\<close>

text \<open>
  No two tokens of the decoders share a hash, so a decoder that compares hashes takes the branch
  of the token it means.
\<close>

theorem source_hashes_distinct:
  "distinct source_tokens \<and> distinct (map source_hash source_tokens)"
  using source_hashes_low by (simp add: distinct_map)

text \<open>
  The text the decoders flatten out of a parsed tree is the instruction itself: with a grammar
  that passed its checks, no character of an accepted instruction is lost, added or reordered between
  the parser and the decoders, although the two remove quotes and escapes with different routines.
\<close>

theorem flatten_parsed_instruction:
  assumes "parse_instruction n s p = Some (Inr (t, q))" "grammar_ok (ip_grammar p)"
  shows "flatten_node_text (Some t) = s"
  using parse_instruction_derives [OF assms(1)]
    tree_no_lone_quote [OF assms(2) parse_instruction_typed [OF assms(1)]]
  by (simp add: flatten_node_yield)

theorem flatten_parsed_instruction_witness:
  "\<exists>t. flatten_node_text (Some t) = ''abc=;k=ab;''"
proof -
  obtain t q where t: "parse_instruction 24 ''abc=;k=ab;'' example_parser = Some (Inr (t, q))"
    using example_parse by (auto split: option.splits sum.splits)
  have "grammar_ok (ip_grammar example_parser)" using example_pairs_ok by (simp add: make_instruction_parser_def)
  from flatten_parsed_instruction [OF t this] show ?thesis by blast
qed

end
