(* ===== verification/Graph_Topology.thy ===== *)
theory Graph_Topology
  imports Parse_Utils
begin

text \<open>
  \<open>src/include/kikijyeba/topology/graph/graph_topology_spec.h\<close> and \<open>graph_topology_decoder.{h,cpp}\<close>:
  the decoded form of a market graph and its decoder, a visitor of the tree of an instruction. The
  object a decoder keeps is its parser of instructions; the mutex around a decode is left out.
\<close>

section \<open>Decoded graphs\<close>

record graph_node_form =
  gn_node_id :: string
  gn_node_kind :: string
  gn_active :: string

record graph_edge_form =
  ge_edge_id :: string
  ge_base_node :: string
  ge_quote_node :: string
  ge_source_instrument :: string
  ge_active :: string

record graph_topology_spec =
  gt_graph_node_forms :: "graph_node_form list"
  gt_graph_edge_forms :: "graph_edge_form list"
  gt_edge_resolution_policy :: string
  gt_edge_source_kind :: string
  gt_fetch_mode :: string
  gt_max_fetch_workers :: string
  gt_parallel_min_work_items :: string

definition default_graph_topology_spec :: graph_topology_spec where
  "default_graph_topology_spec = \<lparr>gt_graph_node_forms = [], gt_graph_edge_forms = [],
     gt_edge_resolution_policy = ''explicit_only'', gt_edge_source_kind = ''real'', gt_fetch_mode = ''serial'',
     gt_max_fetch_workers = ''0'', gt_parallel_min_work_items = ''16''\<rparr>"

definition graph_topology_spec_empty :: "graph_topology_spec \<Rightarrow> bool" where
  "graph_topology_spec_empty s \<longleftrightarrow> gt_graph_node_forms s = [] \<and> gt_graph_edge_forms s = []"

section \<open>The decoder\<close>

definition make_instruction_decoder :: "string \<Rightarrow> instruction_parser result" where
  "make_instruction_decoder grammar_text =
     rbind (parse_grammar (make_grammar_parser (make_grammar_lexer grammar_text))) (\<lambda>p.
       Inr (make_instruction_parser (make_instruction_lexer []) (get_grammar p)))"

definition decode_node_form :: "ast_node \<Rightarrow> graph_node_form" where
  "decode_node_form n = \<lparr>gn_node_id = child_text (Some n) (source_hash ''node_id''),
     gn_node_kind = child_text (Some n) (source_hash ''node_kind''),
     gn_active = child_text (Some n) (source_hash ''active'')\<rparr>"

definition decode_edge_form :: "ast_node \<Rightarrow> graph_edge_form" where
  "decode_edge_form n = \<lparr>ge_edge_id = child_text (Some n) (source_hash ''edge_id''),
     ge_base_node = child_text (Some n) (source_hash ''base_node''),
     ge_quote_node = child_text (Some n) (source_hash ''quote_node''),
     ge_source_instrument = child_text (Some n) (source_hash ''source_instrument''),
     ge_active = child_text (Some n) (source_hash ''active'')\<rparr>"

definition visit_graph_intermediary :: "ast_node \<Rightarrow> graph_topology_spec \<Rightarrow> graph_topology_spec" where
  "visit_graph_intermediary n out =
     (let h = node_hash n in
      if h = source_hash ''graph_node_table'' then out\<lparr>gt_graph_node_forms := []\<rparr>
      else if h = source_hash ''graph_edge_table'' then out\<lparr>gt_graph_edge_forms := []\<rparr>
      else if h = source_hash ''edge_resolution_policy_assignment'' then
        out\<lparr>gt_edge_resolution_policy := child_text (Some n) (source_hash ''edge_resolution_policy'')\<rparr>
      else if h = source_hash ''edge_source_kind_assignment'' then
        out\<lparr>gt_edge_source_kind := child_text (Some n) (source_hash ''edge_source_kind'')\<rparr>
      else if h = source_hash ''fetch_mode_assignment'' then
        out\<lparr>gt_fetch_mode := child_text (Some n) (source_hash ''fetch_mode'')\<rparr>
      else if h = source_hash ''max_fetch_workers_assignment'' then
        out\<lparr>gt_max_fetch_workers := child_text (Some n) (source_hash ''policy_unsigned_int'')\<rparr>
      else if h = source_hash ''parallel_min_work_items_assignment'' then
        out\<lparr>gt_parallel_min_work_items := child_text (Some n) (source_hash ''policy_unsigned_int'')\<rparr>
      else if h = source_hash ''graph_node_form'' then
        out\<lparr>gt_graph_node_forms := gt_graph_node_forms out @ [decode_node_form n]\<rparr>
      else if h = source_hash ''graph_edge_form'' then
        out\<lparr>gt_graph_edge_forms := gt_graph_edge_forms out @ [decode_edge_form n]\<rparr>
      else out)"

definition visit_graph_node :: "ast_node \<Rightarrow> graph_topology_spec \<Rightarrow> graph_topology_spec" where
  "visit_graph_node n out = (case n of
       RootNode l cs \<Rightarrow> out
     | IntermediaryNode a cs \<Rightarrow> visit_graph_intermediary n out
     | TerminalNode l u \<Rightarrow> out)"

definition decode_graph_topology :: "nat \<Rightarrow> string \<Rightarrow> instruction_parser \<Rightarrow> graph_topology_spec run" where
  "decode_graph_topology fuel instruction p =
     run_bind (parse_instruction fuel instruction p) (\<lambda>t q.
       ret (vc_user_data (accept_node (visit_with visit_graph_node) t
         \<lparr>vc_user_data = default_graph_topology_spec, vc_stack = []\<rparr>)) q)"

section \<open>What is decoded\<close>

text \<open>
  The declarative reading of the visitor: the forms that stand behind the last table of their kind,
  in order, and the text of the last assignment of each policy, or its default.
\<close>

definition is_inner :: "string \<Rightarrow> ast_node \<Rightarrow> bool" where
  "is_inner token n \<longleftrightarrow> as_intermediary (Some n) \<noteq> None \<and> node_hash n = source_hash token"

definition behind_last :: "('a \<Rightarrow> bool) \<Rightarrow> 'a list \<Rightarrow> 'a list" where
  "behind_last P xs = rev (takeWhile (Not \<circ> P) (rev xs))"

definition last_text :: "string \<Rightarrow> string \<Rightarrow> string \<Rightarrow> ast_node list \<Rightarrow> string" where
  "last_text absent assignment child ns = (case List.find (is_inner assignment) (rev ns) of
       None \<Rightarrow> absent | Some n \<Rightarrow> child_text (Some n) (source_hash child))"

definition graph_spec_of_nodes :: "ast_node list \<Rightarrow> graph_topology_spec" where
  "graph_spec_of_nodes ns =
     \<lparr>gt_graph_node_forms = map decode_node_form (filter (is_inner ''graph_node_form'') (behind_last (is_inner ''graph_node_table'') ns)),
      gt_graph_edge_forms = map decode_edge_form (filter (is_inner ''graph_edge_form'') (behind_last (is_inner ''graph_edge_table'') ns)),
      gt_edge_resolution_policy = last_text ''explicit_only'' ''edge_resolution_policy_assignment'' ''edge_resolution_policy'' ns,
      gt_edge_source_kind = last_text ''real'' ''edge_source_kind_assignment'' ''edge_source_kind'' ns,
      gt_fetch_mode = last_text ''serial'' ''fetch_mode_assignment'' ''fetch_mode'' ns,
      gt_max_fetch_workers = last_text ''0'' ''max_fetch_workers_assignment'' ''policy_unsigned_int'' ns,
      gt_parallel_min_work_items = last_text ''16'' ''parallel_min_work_items_assignment'' ''policy_unsigned_int'' ns\<rparr>"

lemma behind_last_simps [simp]:
  "behind_last P [] = []"
  "behind_last P (xs @ [x]) = (if P x then [] else behind_last P xs @ [x])"
  by (simp_all add: behind_last_def)

lemma last_text_simps [simp]:
  "last_text d a c [] = d"
  "last_text d a c (ns @ [n]) = (if is_inner a n then child_text (Some n) (source_hash c) else last_text d a c ns)"
  by (simp_all add: last_text_def)

lemma is_inner_simps [simp]:
  "\<not> is_inner k (RootNode l cs)" "\<not> is_inner k (TerminalNode l u)"
  "is_inner k (IntermediaryNode a cs) \<longleftrightarrow> node_hash (IntermediaryNode a cs) = source_hash k"
  by (simp_all add: is_inner_def as_intermediary_def)

definition graph_tokens :: "string list" where
  "graph_tokens = [''graph_node_table'', ''graph_edge_table'', ''edge_resolution_policy_assignment'',
     ''edge_source_kind_assignment'', ''fetch_mode_assignment'', ''max_fetch_workers_assignment'',
     ''parallel_min_work_items_assignment'', ''graph_node_form'', ''graph_edge_form'']"

lemma graph_hashes_distinct: "distinct (map source_hash graph_tokens)"
proof -
  have "list_all (\<lambda>k. list_ex ((=) k) source_tokens) graph_tokens" "distinct graph_tokens" by code_simp+
  then have "set graph_tokens \<subseteq> set source_tokens" "distinct graph_tokens"
    by (auto simp: list_all_iff list_ex_iff)
  then show ?thesis
    using source_hashes_low by (auto simp: distinct_map intro: inj_on_subset)
qed

lemma graph_hashes_distinct_rev: "distinct (map source_hash (rev graph_tokens))"
  using graph_hashes_distinct by (simp only: rev_map [symmetric] distinct_rev)

lemmas graph_hashes_differ =
  graph_hashes_distinct [unfolded graph_tokens_def list.map distinct.simps list.set insert_iff empty_iff de_Morgan_disj not_False_eq_True simp_thms]
  graph_hashes_distinct_rev [unfolded graph_tokens_def rev.simps append.simps list.map distinct.simps list.set insert_iff empty_iff de_Morgan_disj not_False_eq_True simp_thms]

lemma visit_graph_intermediary_simps:
  "node_hash n = source_hash ''graph_node_table'' \<Longrightarrow>
     visit_graph_intermediary n out = out\<lparr>gt_graph_node_forms := []\<rparr>"
  "node_hash n = source_hash ''graph_edge_table'' \<Longrightarrow>
     visit_graph_intermediary n out = out\<lparr>gt_graph_edge_forms := []\<rparr>"
  "node_hash n = source_hash ''edge_resolution_policy_assignment'' \<Longrightarrow>
     visit_graph_intermediary n out = out\<lparr>gt_edge_resolution_policy := child_text (Some n) (source_hash ''edge_resolution_policy'')\<rparr>"
  "node_hash n = source_hash ''edge_source_kind_assignment'' \<Longrightarrow>
     visit_graph_intermediary n out = out\<lparr>gt_edge_source_kind := child_text (Some n) (source_hash ''edge_source_kind'')\<rparr>"
  "node_hash n = source_hash ''fetch_mode_assignment'' \<Longrightarrow>
     visit_graph_intermediary n out = out\<lparr>gt_fetch_mode := child_text (Some n) (source_hash ''fetch_mode'')\<rparr>"
  "node_hash n = source_hash ''max_fetch_workers_assignment'' \<Longrightarrow>
     visit_graph_intermediary n out = out\<lparr>gt_max_fetch_workers := child_text (Some n) (source_hash ''policy_unsigned_int'')\<rparr>"
  "node_hash n = source_hash ''parallel_min_work_items_assignment'' \<Longrightarrow>
     visit_graph_intermediary n out = out\<lparr>gt_parallel_min_work_items := child_text (Some n) (source_hash ''policy_unsigned_int'')\<rparr>"
  "node_hash n = source_hash ''graph_node_form'' \<Longrightarrow>
     visit_graph_intermediary n out = out\<lparr>gt_graph_node_forms := gt_graph_node_forms out @ [decode_node_form n]\<rparr>"
  "node_hash n = source_hash ''graph_edge_form'' \<Longrightarrow>
     visit_graph_intermediary n out = out\<lparr>gt_graph_edge_forms := gt_graph_edge_forms out @ [decode_edge_form n]\<rparr>"
  by (simp_all only: visit_graph_intermediary_def Let_def graph_hashes_differ if_True if_False refl)

lemma visit_graph_step:
  "visit_graph_node n (graph_spec_of_nodes ns) = graph_spec_of_nodes (ns @ [n])"
proof (cases n)
  case (IntermediaryNode a cs)
  have inner: "is_inner k n \<longleftrightarrow> node_hash n = source_hash k" for k by (simp add: IntermediaryNode)
  have "visit_graph_intermediary n (graph_spec_of_nodes ns) = graph_spec_of_nodes (ns @ [n])"
  proof (cases "node_hash n \<in> source_hash ` set graph_tokens")
    case True
    then consider "node_hash n = source_hash ''graph_node_table''" | "node_hash n = source_hash ''graph_edge_table''"
      | "node_hash n = source_hash ''edge_resolution_policy_assignment''" | "node_hash n = source_hash ''edge_source_kind_assignment''"
      | "node_hash n = source_hash ''fetch_mode_assignment''" | "node_hash n = source_hash ''max_fetch_workers_assignment''"
      | "node_hash n = source_hash ''parallel_min_work_items_assignment''"
      | "node_hash n = source_hash ''graph_node_form''" | "node_hash n = source_hash ''graph_edge_form''"
      by (auto simp: graph_tokens_def)
    then show ?thesis
      by cases (simp_all only: visit_graph_intermediary_def graph_spec_of_nodes_def Let_def inner graph_hashes_differ
        behind_last_simps last_text_simps if_True if_False refl simp_thms filter.simps filter_append map_append list.map
        append_Nil2 graph_topology_spec.simps)
  next
    case False
    then show ?thesis
      by (simp add: graph_tokens_def visit_graph_intermediary_def graph_spec_of_nodes_def Let_def inner)
  qed
  then show ?thesis by (simp add: visit_graph_node_def IntermediaryNode)
qed (simp_all add: visit_graph_node_def graph_spec_of_nodes_def)

lemma visit_graph_fold: "fold visit_graph_node ns default_graph_topology_spec = graph_spec_of_nodes ns"
proof (induction ns rule: rev_induct)
  case Nil
  show ?case by (simp add: graph_spec_of_nodes_def default_graph_topology_spec_def)
next
  case (snoc n ns)
  then show ?case by (simp add: visit_graph_step)
qed

section \<open>Properties\<close>

text \<open>
  Decoding a graph instruction parses it and reads the tree declaratively: the node and edge forms
  are those behind the last table of their kind, in the order they are written, each with the trimmed
  texts of its columns; each policy is the text of its last assignment, or the default; an instruction
  that does not parse ends with the exception of the parser.
\<close>

theorem decode_graph_topology_correct:
  "decode_graph_topology fuel s p =
    run_bind (parse_instruction fuel s p) (\<lambda>t q. ret (graph_spec_of_nodes (tree_nodes t)) q)"
  by (simp add: decode_graph_topology_def accept_folds visit_graph_fold)

end
