(* ===== verification/Simple_Kv.thy ===== *)
theory Simple_Kv
  imports Prelude
begin

text \<open>
  \<open>src/include/piaabo/parse/simple_kv_block.h\<close>: the key/value block language in which the
  source splits and the lattice policies are written. The index loops of the source run over
  \<open>clean[pos..]\<close>; the model recurses on that suffix. A block's \<open>unordered_map\<close> is a map from
  strings to strings. \<open>parse_double\<close> is not modelled (floating point).
\<close>

section \<open>Strings\<close>

record kv_block =
  kv_name :: string
  kv_values :: "string \<rightharpoonup> string"

definition trim :: "string \<Rightarrow> string" where
  "trim value = rev (dropWhile is_space (rev (dropWhile is_space value)))"

definition uppercase :: "string \<Rightarrow> string" where
  "uppercase value = map to_upper value"

definition lowercase :: "string \<Rightarrow> string" where
  "lowercase value = map to_lower value"

section \<open>Comments\<close>

text \<open>The text after \<open>/*\<close>: up to and including the next \<open>*/\<close>, or everything.\<close>

fun skip_block_comment :: "string \<Rightarrow> string" where
  "skip_block_comment (a # b # r) =
     (if a = CHR ''*'' \<and> b = CHR ''/'' then r else skip_block_comment (b # r))"
| "skip_block_comment _ = []"

definition skip_line_comment :: "string \<Rightarrow> string" where
  "skip_line_comment s = dropWhile (\<lambda>c. c \<noteq> newline) s"

lemma length_skip_block_comment: "length (skip_block_comment s) \<le> length s"
  by (induction s rule: skip_block_comment.induct) auto

lemma length_skip_line_comment: "length (skip_line_comment s) \<le> length s"
  by (simp add: skip_line_comment_def length_dropWhile_le)

lemma length_skip_line_comment_Cons:
  "c \<noteq> newline \<Longrightarrow> length (skip_line_comment (c # r)) \<le> length r"
  by (simp add: skip_line_comment_def length_dropWhile_le)

function strip_comments :: "string \<Rightarrow> string" where
  "strip_comments [] = []"
| "strip_comments (c # r) =
     (if c = CHR ''/'' \<and> r \<noteq> [] \<and> hd r = CHR ''*'' then strip_comments (skip_block_comment (tl r))
      else if c = CHR ''/'' \<and> r \<noteq> [] \<and> hd r = CHR ''/'' then strip_comments (skip_line_comment (c # r))
      else if c = CHR ''#'' then strip_comments (skip_line_comment (c # r))
      else c # strip_comments r)"
  by pat_completeness auto
termination
proof (relation "measure length")
  fix c r
  assume "c = CHR ''/'' \<and> r \<noteq> [] \<and> hd r = CHR ''*''"
  then show "(skip_block_comment (tl r), c # r) \<in> measure length"
    using length_skip_block_comment [of "tl r"] by (cases r) auto
next
  fix c :: char and r :: string
  assume "c = CHR ''/'' \<and> r \<noteq> [] \<and> hd r = CHR ''/''"
  then show "(skip_line_comment (c # r), c # r) \<in> measure length"
    using length_skip_line_comment_Cons [of c r] by (auto simp: le_imp_less_Suc)
next
  fix c :: char and r :: string
  assume "c = CHR ''#''"
  then show "(skip_line_comment (c # r), c # r) \<in> measure length"
    using length_skip_line_comment_Cons [of c r] by (auto simp: le_imp_less_Suc)
qed auto

section \<open>Blocks\<close>

definition is_word_chr :: "char \<Rightarrow> bool" where
  "is_word_chr c \<longleftrightarrow> is_alnum c \<or> c = CHR ''_'' \<or> c = CHR ''.''"

definition is_sep_chr :: "char \<Rightarrow> bool" where
  "is_sep_chr c \<longleftrightarrow> is_space c \<or> c = CHR '';''"

text \<open>The body of a block and the text from its closing brace on; \<open>None\<close> when it never closes.\<close>

fun scan_body :: "nat \<Rightarrow> string \<Rightarrow> (string \<times> string) option" where
  "scan_body depth [] = None"
| "scan_body depth (c # cs) =
     (if c = CHR ''}'' \<and> depth \<le> 1 then Some ([], c # cs)
      else map_option (\<lambda>(body, rest). (c # body, rest))
        (scan_body (if c = CHR ''{'' then Suc depth else if c = CHR ''}'' then depth - 1 else depth) cs))"

lemma scan_body_append: "scan_body d s = Some (body, rest) \<Longrightarrow> s = body @ rest"
  by (induction d s arbitrary: body rest rule: scan_body.induct) (auto split: if_splits)

lemma scan_body_rest: "scan_body d s = Some (body, rest) \<Longrightarrow> \<exists>r. rest = CHR ''}'' # r"
  by (induction d s arbitrary: body rest rule: scan_body.induct) (auto split: if_splits)

text \<open>The pairs of a block's body; \<open>vs\<close> holds the pairs stored so far.\<close>

function parse_pairs :: "string \<Rightarrow> (string \<rightharpoonup> string) \<Rightarrow> string \<Rightarrow> (string \<rightharpoonup> string) result" where
  "parse_pairs name vs s =
     (let s1 = dropWhile is_sep_chr s in
      if s1 = [] then Inr vs
      else let key = uppercase (trim (takeWhile is_word_chr s1));
               s2 = dropWhile is_space (dropWhile is_word_chr s1) in
        if s2 = [] \<or> hd s2 \<noteq> CHR ''='' then
          Inl (RuntimeError (''[simple_kv] expected '=' after key '' @ key))
        else let value = trim (takeWhile (\<lambda>c. c \<noteq> CHR '';'') (tl s2));
                 s3 = dropWhile (\<lambda>c. c \<noteq> CHR '';'') (tl s2) in
          if key = [] then Inl (RuntimeError (''[simple_kv] empty key in block '' @ name))
          else if vs key \<noteq> None then
            Inl (RuntimeError (''[simple_kv] duplicate key '' @ key @ '' in block '' @ name))
          else parse_pairs name (vs(key \<mapsto> value)) (tl s3))"
  by pat_completeness auto
termination
proof (relation "measure (\<lambda>(name, vs, s). length s)", simp, goal_cases)
  case (1 name vs s s1 key s2 v s3)
  have "length s2 \<le> length s"
    using 1(1,4) by (metis length_dropWhile_le order_trans)
  moreover have "length s3 \<le> length (tl s2)"
    unfolding 1(7) by (rule length_dropWhile_le)
  moreover have "length (tl s2) < length s2"
    using 1(5) by (cases s2) auto
  ultimately show ?case by simp
qed

declare parse_pairs.simps [simp del]

function parse_blocks_from :: "string \<Rightarrow> kv_block list result" where
  "parse_blocks_from s =
     (let s1 = dropWhile is_sep_chr s in
      if s1 = [] then Inr []
      else let name = uppercase (trim (takeWhile is_word_chr s1));
               s2 = dropWhile is_space (dropWhile is_word_chr s1) in
        if name = [] then Inl (RuntimeError ''[simple_kv] expected block name'')
        else if s2 = [] \<or> hd s2 \<noteq> CHR ''{'' then
          Inl (RuntimeError (''[simple_kv] expected '{' after block '' @ name))
        else (case scan_body 1 (tl s2) of
            None \<Rightarrow> Inl (RuntimeError (''[simple_kv] unclosed block '' @ name))
          | Some (body, rest) \<Rightarrow>
              rbind (parse_pairs name Map.empty body) (\<lambda>values.
              rbind (parse_blocks_from (tl rest)) (\<lambda>blocks.
                Inr (\<lparr>kv_name = name, kv_values = values\<rparr> # blocks)))))"
  by pat_completeness auto
termination
proof (relation "measure length", simp, goal_cases)
  case (1 s s1 name s2 p body rest vals)
  have "length s2 \<le> length s"
    using 1(1,4) by (metis length_dropWhile_le order_trans)
  moreover obtain r where "rest = CHR ''}'' # r" and "tl s2 = body @ rest"
    using scan_body_append [of 1 "tl s2"] scan_body_rest [of 1 "tl s2"] 1(7,8) by auto
  then have "length (tl rest) < length (tl s2)" by simp
  moreover have "length (tl s2) < length s2"
    using 1(6) by (cases s2) auto
  ultimately show ?case by simp
qed

declare parse_blocks_from.simps [simp del]

definition parse_blocks :: "string \<Rightarrow> kv_block list result" where
  "parse_blocks text = parse_blocks_from (strip_comments text)"

definition single_block :: "string \<Rightarrow> string \<Rightarrow> kv_block result" where
  "single_block text name =
     rbind (parse_blocks text) (\<lambda>blocks.
       let target = uppercase name in
       case filter (\<lambda>b. kv_name b = target) blocks of
         [] \<Rightarrow> Inl (RuntimeError (''[simple_kv] missing block '' @ target))
       | [b] \<Rightarrow> Inr b
       | _ \<Rightarrow> Inl (RuntimeError (''[simple_kv] duplicate block '' @ target)))"

section \<open>Values\<close>

definition kv_required :: "kv_block \<Rightarrow> string \<Rightarrow> string result" where
  "kv_required block key =
     (let target = uppercase key;
          missing = RuntimeError (''[simple_kv] missing required key '' @ target @ '' in block '' @ kv_name block)
      in case kv_values block target of
           None \<Rightarrow> Inl missing
         | Some v \<Rightarrow> if trim v = [] then Inl missing else Inr (trim v))"

definition kv_optional :: "kv_block \<Rightarrow> string \<Rightarrow> string \<Rightarrow> string" where
  "kv_optional block key fallback =
     (case kv_values block (uppercase key) of
        None \<Rightarrow> fallback
      | Some v \<Rightarrow> if trim v = [] then fallback else trim v)"

definition parse_bool :: "string \<Rightarrow> bool result" where
  "parse_bool value =
     (let v = lowercase (trim value) in
      if v = ''true'' \<or> v = ''yes'' \<or> v = ''1'' then Inr True
      else if v = ''false'' \<or> v = ''no'' \<or> v = ''0'' then Inr False
      else Inl (RuntimeError (''[simple_kv] invalid bool value: '' @ v)))"

definition parse_i64 :: "string \<Rightarrow> int result" where
  "parse_i64 value =
     (let trimmed = trim value in
      rbind (stoll trimmed) (\<lambda>(out, used).
        if used \<noteq> length trimmed then
          Inl (RuntimeError (''[simple_kv] invalid int64 value: '' @ trimmed))
        else Inr out))"

function parse_list :: "string \<Rightarrow> string list" where
  "parse_list value =
     (let item = trim (takeWhile (\<lambda>c. c \<noteq> CHR '','') value);
          rest = dropWhile (\<lambda>c. c \<noteq> CHR '','') value in
      (if item = [] then [] else [item]) @ (if rest = [] then [] else parse_list (tl rest)))"
  by pat_completeness auto
termination
proof (relation "measure length", simp, goal_cases)
  case (1 v item rest)
  then have "length rest \<le> length v"
    by (simp add: length_dropWhile_le)
  moreover have "length (tl rest) < length rest"
    using 1(3) by (cases rest) auto
  ultimately show ?case by simp
qed

declare parse_list.simps [simp del]

definition parse_i64_list :: "string \<Rightarrow> int list result" where
  "parse_i64_list value = map_res parse_i64 (parse_list value)"

section \<open>Trimming and case\<close>

lemma trim_Nil [simp]: "trim [] = []"
  by (simp add: trim_def)

lemma set_trim: "set (trim s) \<subseteq> set s"
  unfolding trim_def by (metis set_dropWhileD set_rev subsetI)

lemma hd_trim: "trim s \<noteq> [] \<Longrightarrow> \<not> is_space (hd (trim s))"
proof -
  assume ne: "trim s \<noteq> []"
  define t where "t = dropWhile is_space s"
  have "t \<noteq> []" using ne unfolding trim_def t_def [symmetric] by auto
  then have hd_t: "\<not> is_space (hd t)" by (simp add: t_def hd_dropWhile)
  have "\<exists>u. t = trim s @ u"
    unfolding trim_def t_def [symmetric]
    by (metis rev_append rev_rev_ident takeWhile_dropWhile_id)
  with ne hd_t show ?thesis by auto
qed

lemma last_trim: "trim s \<noteq> [] \<Longrightarrow> \<not> is_space (last (trim s))"
  unfolding trim_def by (simp add: last_rev hd_dropWhile)

lemma trim_id: "(s \<noteq> [] \<Longrightarrow> \<not> is_space (hd s) \<and> \<not> is_space (last s)) \<Longrightarrow> trim s = s"
  by (cases "s = []") (auto simp: trim_def dropWhile_head hd_rev)

lemma trim_trim [simp]: "trim (trim s) = trim s"
  by (rule trim_id) (simp add: hd_trim last_trim)

lemma trim_no_space: "(\<And>c. c \<in> set s \<Longrightarrow> \<not> is_space c) \<Longrightarrow> trim s = s"
  by (rule trim_id) auto

lemma is_word_not_space: "is_word_chr c \<Longrightarrow> \<not> is_space c"
  by (auto simp: is_word_chr_def is_alnum_not_space) (auto simp: is_space_def chr_code_def)

lemma is_word_not_sep: "is_word_chr c \<Longrightarrow> \<not> is_sep_chr c"
  by (auto simp: is_sep_chr_def is_word_not_space)
    (auto simp: is_word_chr_def chr_class_defs chr_code_def)

lemma is_word_to_upper: "is_word_chr c \<Longrightarrow> is_word_chr (to_upper c)"
  by (auto simp: is_word_chr_def to_upper_def chr_class_defs chr_code_def split: if_splits)

lemma trim_word: "trim (takeWhile is_word_chr s) = takeWhile is_word_chr s"
  by (rule trim_no_space) (auto dest: set_takeWhileD is_word_not_space)

lemma uppercase_idem [simp]: "uppercase (uppercase s) = uppercase s"
  by (simp add: uppercase_def comp_def)

lemma uppercase_Nil_iff [simp]: "uppercase s = [] \<longleftrightarrow> s = []"
  by (simp add: uppercase_def)

section \<open>Comments are removed once and for all\<close>

lemma length_strip_comments: "length (strip_comments s) \<le> length s"
proof (induction s rule: strip_comments.induct)
  case (2 c r)
  then show ?case
    using length_skip_block_comment [of "tl r"] length_skip_line_comment [of "c # r"]
    by (auto intro: order_trans)
qed simp

lemma skip_line_comment_head:
  "skip_line_comment s = [] \<or> (\<exists>r. skip_line_comment s = newline # r)"
proof (cases "skip_line_comment s")
  case (Cons a r)
  then have "a = newline"
    using hd_dropWhile [of "\<lambda>c. c \<noteq> newline" s] by (simp add: skip_line_comment_def)
  with Cons show ?thesis by simp
qed simp

lemma strip_comments_newline [simp]: "strip_comments (newline # r) = newline # strip_comments r"
  by simp

text \<open>
  What follows a \<open>/\<close> in the result cannot start a comment: the character behind it in the
  text is neither \<open>*\<close> nor \<open>/\<close>, and a \<open>#\<close> comment leaves its newline.
\<close>

lemma strip_comments_hd:
  "s \<noteq> [] \<Longrightarrow> hd s \<notin> {CHR ''/'', CHR ''#''} \<Longrightarrow> strip_comments s = hd s # strip_comments (tl s)"
  by (cases s) auto

lemma strip_comments_Cons_id:
  assumes "strip_comments r = r" and "c \<noteq> CHR ''#''"
    and "c = CHR ''/'' \<Longrightarrow> r = [] \<or> hd r \<notin> {CHR ''*'', CHR ''/''}"
  shows "strip_comments (c # r) = c # r"
  using assms by auto

lemma strip_comments_hash_head:
  "strip_comments (CHR ''#'' # r) = [] \<or> hd (strip_comments (CHR ''#'' # r)) = newline"
  using skip_line_comment_head [of "CHR ''#'' # r"]
  by (auto simp del: strip_comments_newline)

lemma strip_comments_slash_next:
  assumes "r \<noteq> []" and "hd r \<notin> {CHR ''*'', CHR ''/''}"
  shows "strip_comments r = [] \<or> hd (strip_comments r) \<notin> {CHR ''*'', CHR ''/''}"
proof (cases "hd r = CHR ''#''")
  case True
  with assms obtain r' where "r = CHR ''#'' # r'" by (cases r) auto
  with strip_comments_hash_head [of r'] show ?thesis by auto
next
  case False
  with assms strip_comments_hd [of r] show ?thesis by auto
qed

lemma strip_comments_idem: "strip_comments (strip_comments s) = strip_comments s"
proof (induction s rule: strip_comments.induct)
  case (2 c r)
  consider "c = CHR ''/'' \<and> r \<noteq> [] \<and> hd r \<in> {CHR ''*'', CHR ''/''}" | "c = CHR ''#''"
    | "c \<noteq> CHR ''#''" "c = CHR ''/'' \<longrightarrow> r = [] \<or> hd r \<notin> {CHR ''*'', CHR ''/''}"
    by blast
  then show ?case
  proof cases
    case 1
    with "2.IH" show ?thesis by auto
  next
    case 2
    with "2.IH"(3) show ?thesis by simp
  next
    case 3
    then have "strip_comments (c # r) = c # strip_comments r" by auto
    moreover have "strip_comments (strip_comments r) = strip_comments r"
      using 3 "2.IH"(4) by auto
    ultimately show ?thesis
      using 3 strip_comments_slash_next [of r]
      by (metis strip_comments.simps(1) strip_comments_Cons_id)
  qed
qed simp

lemma strip_comments_append:
  assumes "strip_comments a = a" and "c \<notin> {CHR ''/'', CHR ''*'', CHR ''#''}"
  shows "strip_comments (a @ c # b) = a @ c # strip_comments b"
  using assms(1)
proof (induction a)
  case Nil
  then show ?case using assms(2) by simp
next
  case (Cons x xs)
  have shorter: "length (strip_comments y) < length (x # xs)" if "length y \<le> length xs" for y
    using that length_strip_comments [of y] by simp
  have "\<not> (x = CHR ''/'' \<and> xs \<noteq> [] \<and> hd xs = CHR ''*'')"
    using Cons.prems shorter [of "skip_block_comment (tl xs)"] length_skip_block_comment [of "tl xs"]
    by (fastforce split: if_splits)
  moreover have "\<not> (x = CHR ''/'' \<and> xs \<noteq> [] \<and> hd xs = CHR ''/'')"
    using Cons.prems shorter [of "skip_line_comment (x # xs)"] length_skip_line_comment_Cons [of x xs]
    by (auto split: if_splits)
  moreover have "x \<noteq> CHR ''#''"
    using Cons.prems shorter [of "skip_line_comment (x # xs)"] length_skip_line_comment_Cons [of x xs]
    by (auto split: if_splits)
  ultimately show ?case
    using Cons assms(2) by (auto simp: hd_append)
qed

section \<open>What a successful parse returns\<close>

definition is_kv_word :: "string \<Rightarrow> bool" where
  "is_kv_word w \<longleftrightarrow> w \<noteq> [] \<and> (\<forall>c \<in> set w. is_word_chr c) \<and> uppercase w = w"

definition kv_block_ok :: "kv_block \<Rightarrow> bool" where
  "kv_block_ok b \<longleftrightarrow> is_kv_word (kv_name b) \<and>
     (\<forall>k v. kv_values b k = Some v \<longrightarrow> is_kv_word k \<and> trim v = v \<and> CHR '';'' \<notin> set v)"

lemma is_kv_word_key:
  "uppercase (trim (takeWhile is_word_chr s)) \<noteq> [] \<Longrightarrow>
    is_kv_word (uppercase (trim (takeWhile is_word_chr s)))"
  unfolding is_kv_word_def trim_word
  by (auto simp: uppercase_def comp_def dest: set_takeWhileD intro!: is_word_to_upper)

text \<open>Inversion of a successful step of the two loops.\<close>

lemma parse_pairs_InrE:
  assumes "parse_pairs name vs s = Inr vs'"
  obtains "vs' = vs"
  | key t rest where "key = uppercase (trim (takeWhile is_word_chr (dropWhile is_sep_chr s)))"
      "key \<noteq> []" "vs key = None" "length rest < length s"
      "parse_pairs name (vs(key \<mapsto> trim (takeWhile (\<lambda>c. c \<noteq> CHR '';'') t))) rest = Inr vs'"
proof -
  define s1 where "s1 = dropWhile is_sep_chr s"
  define key where "key = uppercase (trim (takeWhile is_word_chr s1))"
  define s2 where "s2 = dropWhile is_space (dropWhile is_word_chr s1)"
  define rest where "rest = tl (dropWhile (\<lambda>c. c \<noteq> CHR '';'') (tl s2))"
  have eq: "parse_pairs name vs s =
    (if s1 = [] then Inr vs
     else if s2 = [] \<or> hd s2 \<noteq> CHR ''='' then
       Inl (RuntimeError (''[simple_kv] expected '=' after key '' @ key))
     else if key = [] then Inl (RuntimeError (''[simple_kv] empty key in block '' @ name))
     else if vs key \<noteq> None then
       Inl (RuntimeError (''[simple_kv] duplicate key '' @ key @ '' in block '' @ name))
     else parse_pairs name (vs(key \<mapsto> trim (takeWhile (\<lambda>c. c \<noteq> CHR '';'') (tl s2)))) rest)"
    unfolding s1_def key_def s2_def rest_def by (subst parse_pairs.simps) (simp only: Let_def)
  have "length rest < length s" if "s2 \<noteq> []"
  proof -
    have "length rest \<le> length (tl s2)"
      unfolding rest_def by (metis length_dropWhile_le length_tl diff_le_self order_trans)
    moreover have "length s2 \<le> length s"
      unfolding s2_def s1_def by (metis length_dropWhile_le order_trans)
    moreover have "length (tl s2) < length s2" using that by (cases s2) auto
    ultimately show ?thesis by linarith
  qed
  then show thesis
    using assms that(1) that(2) [of key rest "tl s2"] unfolding eq key_def s1_def
    by (auto split: if_splits)
qed

lemma parse_pairs_ok:
  assumes "parse_pairs name vs s = Inr vs'"
    and "\<forall>k v. vs k = Some v \<longrightarrow> is_kv_word k \<and> trim v = v \<and> CHR '';'' \<notin> set v"
  shows "\<forall>k v. vs' k = Some v \<longrightarrow> is_kv_word k \<and> trim v = v \<and> CHR '';'' \<notin> set v"
  using assms
proof (induction "length s" arbitrary: vs s rule: less_induct)
  case less
  have no_semi: "CHR '';'' \<notin> set (trim (takeWhile (\<lambda>c. c \<noteq> CHR '';'') t))" for t
    using set_trim by (auto dest: set_takeWhileD)
  from less.prems(1) show ?case
  proof (cases rule: parse_pairs_InrE)
    case 1
    with less.prems(2) show ?thesis by simp
  next
    case (2 key t rest)
    then have "is_kv_word key" by (simp add: is_kv_word_key)
    with 2 less.prems(2) no_semi [of t] show ?thesis
      by (intro less.hyps [OF 2(4,5)]) auto
  qed
qed

lemma parse_blocks_InrE:
  assumes "parse_blocks_from s = Inr bs"
  obtains "bs = []"
  | name body vals rest bs' where "is_kv_word name" "parse_pairs name Map.empty body = Inr vals"
      "length rest < length s" "parse_blocks_from rest = Inr bs'"
      "bs = \<lparr>kv_name = name, kv_values = vals\<rparr> # bs'"
proof -
  define s1 where "s1 = dropWhile is_sep_chr s"
  define name where "name = uppercase (trim (takeWhile is_word_chr s1))"
  define s2 where "s2 = dropWhile is_space (dropWhile is_word_chr s1)"
  have eq: "parse_blocks_from s =
    (if s1 = [] then Inr []
     else if name = [] then Inl (RuntimeError ''[simple_kv] expected block name'')
     else if s2 = [] \<or> hd s2 \<noteq> CHR ''{'' then
       Inl (RuntimeError (''[simple_kv] expected '{' after block '' @ name))
     else (case scan_body 1 (tl s2) of
         None \<Rightarrow> Inl (RuntimeError (''[simple_kv] unclosed block '' @ name))
       | Some (body, rest) \<Rightarrow>
           rbind (parse_pairs name Map.empty body) (\<lambda>values.
           rbind (parse_blocks_from (tl rest)) (\<lambda>blocks.
             Inr (\<lparr>kv_name = name, kv_values = values\<rparr> # blocks)))))"
    unfolding s1_def name_def s2_def by (subst parse_blocks_from.simps) (simp only: Let_def)
  have len: "length (tl rest) < length s" if "scan_body 1 (tl s2) = Some (body, rest)" for body rest
  proof -
    have "length s2 \<le> length s"
      unfolding s2_def s1_def by (metis length_dropWhile_le order_trans)
    moreover have "tl s2 = body @ rest" "rest \<noteq> []"
      using that scan_body_append scan_body_rest by blast+
    then have "length (tl rest) < length (tl s2)" by (cases rest) auto
    ultimately show ?thesis by (simp add: order.strict_trans2)
  qed
  have "is_kv_word name" if "name \<noteq> []"
    using that is_kv_word_key [of s1] by (simp add: name_def)
  then show thesis
    using assms len that(1) that(2) [of name] unfolding eq
    by (auto simp: res_simps simp del: length_tl split: if_splits option.splits)
qed

lemma parse_blocks_ok:
  "parse_blocks_from s = Inr bs \<Longrightarrow> b \<in> set bs \<Longrightarrow> kv_block_ok b"
proof (induction "length s" arbitrary: s bs rule: less_induct)
  case less
  from less.prems(1) show ?case
  proof (cases rule: parse_blocks_InrE)
    case 1
    with less.prems(2) show ?thesis by simp
  next
    case (2 name body vals rest bs')
    have "kv_block_ok \<lparr>kv_name = name, kv_values = vals\<rparr>"
      using parse_pairs_ok [OF 2(2)] 2(1) by (simp add: kv_block_ok_def)
    with 2 less show ?thesis by auto
  qed
qed

section \<open>Round trip\<close>

text \<open>The text of a list of blocks, one \<open>KEY=value;\<close> per pair.\<close>

definition render_pair :: "string \<times> string \<Rightarrow> string" where
  "render_pair p = fst p @ CHR ''='' # snd p @ [CHR '';'']"

definition render_block :: "string \<times> (string \<times> string) list \<Rightarrow> string" where
  "render_block b = fst b @ CHR ''{'' # concat (map render_pair (snd b)) @ [CHR ''}'']"

definition render_blocks :: "(string \<times> (string \<times> string) list) list \<Rightarrow> string" where
  "render_blocks bs = concat (map render_block bs)"

definition kv_value_ok :: "string \<Rightarrow> bool" where
  "kv_value_ok v \<longleftrightarrow> trim v = v \<and> strip_comments v = v \<and> set v \<inter> {CHR '';'', CHR ''{'', CHR ''}''} = {}"

definition kv_source_ok :: "string \<times> (string \<times> string) list \<Rightarrow> bool" where
  "kv_source_ok b \<longleftrightarrow> is_kv_word (fst b) \<and> distinct (map fst (snd b)) \<and>
     (\<forall>p \<in> set (snd b). is_kv_word (fst p) \<and> kv_value_ok (snd p))"

lemma word_chr_facts:
  "\<not> is_word_chr (CHR ''='')" "\<not> is_word_chr (CHR ''{'')" "\<not> is_word_chr (CHR ''}'')"
  "\<not> is_word_chr (CHR ''/'')" "\<not> is_word_chr (CHR ''#'')" "\<not> is_word_chr (CHR ''*'')"
  "\<not> is_word_chr (CHR '';'')" "\<not> is_space (CHR ''='')" "\<not> is_space (CHR ''{'')"
  "\<not> is_space (CHR ''}'')" "\<not> is_space (CHR '';'')"
  by (simp_all add: is_word_chr_def chr_class_defs chr_code_def)

lemma takeWhile_word: "is_kv_word w \<Longrightarrow> \<not> is_word_chr c \<Longrightarrow> takeWhile is_word_chr (w @ c # s) = w"
  by (auto simp: is_kv_word_def takeWhile_append)

lemma dropWhile_word:
  "is_kv_word w \<Longrightarrow> \<not> is_word_chr c \<Longrightarrow> dropWhile is_word_chr (w @ c # s) = c # s"
  by (auto simp: is_kv_word_def dropWhile_append)

lemma dropWhile_sep_word: "is_kv_word w \<Longrightarrow> dropWhile is_sep_chr (w @ s) = w @ s"
  by (cases w) (auto simp: is_kv_word_def is_word_not_sep)

lemma word_key: "is_kv_word w \<Longrightarrow> uppercase (trim w) = w"
  by (metis is_kv_word_def is_word_not_space trim_no_space)

lemma strip_comments_word: "is_kv_word w \<Longrightarrow> strip_comments w = w"
proof -
  have "(\<forall>c \<in> set w. is_word_chr c) \<Longrightarrow> strip_comments w = w"
    by (induction w) (use word_chr_facts in auto)
  then show "is_kv_word w \<Longrightarrow> strip_comments w = w" by (simp add: is_kv_word_def)
qed

lemma parse_pairs_step:
  assumes "is_kv_word k" "kv_value_ok v" "vs k = None"
  shows "parse_pairs name vs (render_pair (k, v) @ s) = parse_pairs name (vs(k \<mapsto> v)) s"
proof -
  have [simp]: "k \<noteq> []" "trim v = v" using assms by (auto simp: is_kv_word_def kv_value_ok_def)
  have "takeWhile (\<lambda>c. c \<noteq> CHR '';'') (v @ CHR '';'' # s) = v"
    and "dropWhile (\<lambda>c. c \<noteq> CHR '';'') (v @ CHR '';'' # s) = CHR '';'' # s"
    using assms(2) by (auto simp: kv_value_ok_def takeWhile_append dropWhile_append)
  with assms show ?thesis
    by (subst parse_pairs.simps)
      (simp add: render_pair_def Let_def takeWhile_word dropWhile_word dropWhile_sep_word word_key
        word_chr_facts)
qed

lemma parse_pairs_render:
  assumes "distinct (map fst kvs)" "\<forall>p \<in> set kvs. is_kv_word (fst p) \<and> kv_value_ok (snd p)"
    and "\<forall>p \<in> set kvs. vs (fst p) = None"
  shows "parse_pairs name vs (concat (map render_pair kvs)) = Inr (vs ++ map_of kvs)"
  using assms
proof (induction kvs arbitrary: vs)
  case Nil
  then show ?case by (subst parse_pairs.simps) simp
next
  case (Cons p kvs)
  obtain k v where p: "p = (k, v)" by (cases p)
  have "parse_pairs name (vs(k \<mapsto> v)) (concat (map render_pair kvs)) = Inr ((vs(k \<mapsto> v)) ++ map_of kvs)"
    using Cons.prems p by (intro Cons.IH) (auto simp: rev_image_eqI)
  moreover have "map_of kvs k = None"
    using Cons.prems(1) p by (simp add: map_of_eq_None_iff)
  then have "(vs(k \<mapsto> v)) ++ map_of kvs = vs ++ map_of ((k, v) # kvs)"
    by (auto simp: fun_eq_iff map_add_def split: option.splits)
  moreover have "parse_pairs name vs (concat (map render_pair (p # kvs))) =
      parse_pairs name (vs(k \<mapsto> v)) (concat (map render_pair kvs))"
    using Cons.prems p by (simp add: parse_pairs_step)
  ultimately show ?case by (simp only: p)
qed

lemma scan_body_no_brace:
  "set body \<inter> {CHR ''{'', CHR ''}''} = {} \<Longrightarrow>
    scan_body 1 (body @ CHR ''}'' # s) = Some (body, CHR ''}'' # s)"
  by (induction body) auto

lemma render_pairs_no_brace:
  "\<forall>p \<in> set kvs. is_kv_word (fst p) \<and> kv_value_ok (snd p) \<Longrightarrow>
    set (concat (map render_pair kvs)) \<inter> {CHR ''{'', CHR ''}''} = {}"
  using word_chr_facts
  by (induction kvs) (auto simp: render_pair_def is_kv_word_def kv_value_ok_def)

lemma parse_block_step:
  assumes "kv_source_ok b"
  shows "parse_blocks_from (render_block b @ s) =
    rbind (parse_blocks_from s) (\<lambda>bs. Inr (\<lparr>kv_name = fst b, kv_values = map_of (snd b)\<rparr> # bs))"
proof -
  let ?body = "concat (map render_pair (snd b))"
  have w: "is_kv_word (fst b)" and [simp]: "fst b \<noteq> []"
    using assms by (auto simp: kv_source_ok_def is_kv_word_def)
  have "scan_body 1 (?body @ CHR ''}'' # s) = Some (?body, CHR ''}'' # s)"
    using assms by (intro scan_body_no_brace render_pairs_no_brace) (simp add: kv_source_ok_def)
  moreover have "parse_pairs (fst b) Map.empty ?body = Inr (map_of (snd b))"
    using assms parse_pairs_render [of "snd b" Map.empty] by (simp add: kv_source_ok_def)
  ultimately show ?thesis
    by (subst parse_blocks_from.simps)
      (simp add: render_block_def Let_def w takeWhile_word dropWhile_word dropWhile_sep_word word_key
        word_chr_facts)
qed

lemma strip_comments_render_pairs:
  "\<forall>p \<in> set kvs. is_kv_word (fst p) \<and> kv_value_ok (snd p) \<Longrightarrow>
    strip_comments (concat (map render_pair kvs) @ s) = concat (map render_pair kvs) @ strip_comments s"
  by (induction kvs)
    (auto simp: render_pair_def strip_comments_word kv_value_ok_def strip_comments_append)

lemma strip_comments_render:
  "\<forall>b \<in> set bs. kv_source_ok b \<Longrightarrow> strip_comments (render_blocks bs) = render_blocks bs"
  by (induction bs)
    (auto simp: render_blocks_def render_block_def kv_source_ok_def strip_comments_word
      strip_comments_append strip_comments_render_pairs)

section \<open>Lists of values\<close>

lemma takeWhile_comma: "CHR '','' \<notin> set x \<Longrightarrow> takeWhile (\<lambda>c. c \<noteq> CHR '','') (x @ CHR '','' # s) = x"
  by (auto simp: takeWhile_append)

lemma dropWhile_comma:
  "CHR '','' \<notin> set x \<Longrightarrow> dropWhile (\<lambda>c. c \<noteq> CHR '','') (x @ CHR '','' # s) = CHR '','' # s"
  by (auto simp: dropWhile_append)

lemma parse_list_single:
  "CHR '','' \<notin> set x \<Longrightarrow> parse_list x = (if trim x = [] then [] else [trim x])"
proof -
  assume "CHR '','' \<notin> set x"
  then have "takeWhile (\<lambda>c. c \<noteq> CHR '','') x = x" "dropWhile (\<lambda>c. c \<noteq> CHR '','') x = []"
    by (auto simp: takeWhile_eq_all_conv dropWhile_eq_Nil_conv)
  then show ?thesis by (subst parse_list.simps) (simp only: Let_def if_True append_Nil2 simp_thms)
qed

lemma parse_list_Cons:
  "CHR '','' \<notin> set x \<Longrightarrow>
    parse_list (x @ CHR '','' # s) = (if trim x = [] then [] else [trim x]) @ parse_list s"
  by (subst parse_list.simps) (simp add: Let_def takeWhile_comma dropWhile_comma)

definition render_list :: "string list \<Rightarrow> string" where
  "render_list items = concat (map (\<lambda>x. CHR '' '' # x @ '','') items)"

definition list_item_ok :: "string \<Rightarrow> bool" where
  "list_item_ok x \<longleftrightarrow> trim x = x \<and> x \<noteq> [] \<and> CHR '','' \<notin> set x"

lemma trim_Cons_space: "is_space c \<Longrightarrow> trim (c # s) = trim s"
  by (simp add: trim_def)

lemma parse_list_render_aux:
  "\<forall>x \<in> set items. trim x = x \<and> x \<noteq> [] \<and> CHR '','' \<notin> set x \<Longrightarrow>
    parse_list (render_list items) = items"
proof (induction items)
  case Nil
  then show ?case by (subst parse_list.simps) (simp add: render_list_def)
next
  case (Cons x xs)
  have "is_space (CHR '' '')" by (simp add: is_space_def chr_code_def)
  with Cons parse_list_Cons [of "CHR '' '' # x" "render_list xs"] show ?case
    by (simp add: render_list_def trim_Cons_space)
qed

lemma parse_list_items:
  "x \<in> set (parse_list s) \<Longrightarrow> trim x = x \<and> x \<noteq> [] \<and> CHR '','' \<notin> set x"
proof (induction "length s" arbitrary: s rule: less_induct)
  case less
  define item where "item = trim (takeWhile (\<lambda>c. c \<noteq> CHR '','') s)"
  define rest where "rest = dropWhile (\<lambda>c. c \<noteq> CHR '','') s"
  have eq: "parse_list s =
      (if item = [] then [] else [item]) @ (if rest = [] then [] else parse_list (tl rest))"
    unfolding item_def rest_def by (subst parse_list.simps) (simp only: Let_def)
  have "length rest \<le> length s" by (simp add: rest_def length_dropWhile_le)
  then have shorter: "rest \<noteq> [] \<Longrightarrow> length (tl rest) < length s" by (cases rest) auto
  have "CHR '','' \<notin> set item" "trim item = item"
    unfolding item_def using set_trim by (auto dest: set_takeWhileD)
  moreover have "x \<in> set (parse_list (tl rest)) \<Longrightarrow> rest \<noteq> [] \<Longrightarrow>
      trim x = x \<and> x \<noteq> [] \<and> CHR '','' \<notin> set x"
    by (rule less.hyps [OF shorter])
  ultimately show ?case using less.prems by (auto simp: eq split: if_splits)
qed

section \<open>Numbers\<close>

lemma trim_show_int [simp]: "trim (show_int i) = show_int i"
  by (rule trim_no_space) (rule show_int_not_space)

lemma parse_i64_show_int [simp]: "in_int64 i \<Longrightarrow> parse_i64 (show_int i) = Inr i"
  by (simp add: parse_i64_def stoll_show_int)

lemma parse_i64_range: "parse_i64 s = Inr i \<Longrightarrow> in_int64 i"
  by (auto simp: parse_i64_def stoll_def res_simps Let_def split: prod.splits if_splits)

section \<open>Properties\<close>

text \<open>
  C25: parsing the text of a list of blocks returns those blocks, in order, with exactly their
  pairs: names and keys are upper-case words, keys of a block are distinct, values hold no
  semicolon, no brace and no comment.
\<close>

theorem parse_blocks_roundtrip:
  assumes "\<forall>b \<in> set bs. kv_source_ok b"
  shows "parse_blocks (render_blocks bs) =
    Inr (map (\<lambda>b. \<lparr>kv_name = fst b, kv_values = map_of (snd b)\<rparr>) bs)"
  unfolding parse_blocks_def strip_comments_render [OF assms] using assms
proof (induction bs)
  case Nil
  then show ?case by (subst parse_blocks_from.simps) (simp add: render_blocks_def)
next
  case (Cons b bs)
  then show ?case
    using parse_block_step [of b "render_blocks bs"] by (simp add: render_blocks_def)
qed

theorem parse_blocks_roundtrip_witness:
  "parse_blocks (render_blocks [(''A'', [(''K'', ''1'')])]) =
    Inr [\<lparr>kv_name = ''A'', kv_values = [''K'' \<mapsto> ''1'']\<rparr>]"
proof -
  have ok: "\<forall>b \<in> set [(''A'', [(''K'', ''1'')])]. kv_source_ok b"
    by (simp add: kv_source_ok_def is_kv_word_def kv_value_ok_def is_word_chr_def uppercase_def
      to_upper_def chr_class_defs chr_code_def trim_def)
  show ?thesis using parse_blocks_roundtrip [OF ok] by simp
qed

text \<open>
  Every block a successful parse returns is well formed: its name and its keys are
  non-empty upper-case words, its values are trimmed and hold no semicolon.
\<close>

theorem parse_blocks_well_formed:
  "parse_blocks text = Inr bs \<Longrightarrow> list_all kv_block_ok bs"
  using parse_blocks_ok by (auto simp: parse_blocks_def list_all_iff)

theorem parse_blocks_well_formed_witness:
  "list_all kv_block_ok [\<lparr>kv_name = ''A'', kv_values = Map.empty\<rparr>]"
proof -
  have "parse_blocks ''A{}'' = Inr [\<lparr>kv_name = ''A'', kv_values = Map.empty\<rparr>]"
    by (simp add: parse_blocks_def parse_blocks_from.simps parse_pairs.simps is_sep_chr_def
      is_word_chr_def uppercase_def to_upper_def chr_class_defs chr_code_def trim_def)
  then show ?thesis by (rule parse_blocks_well_formed)
qed

text \<open>
  Comments never carry meaning: removing them first, any number of times, does not change
  what a text parses to, and a block or line comment put before a text is skipped whole.
\<close>

theorem comments_are_transparent:
  "parse_blocks (strip_comments text) = parse_blocks text \<and>
   parse_blocks (''/*'' @ text) = parse_blocks (skip_block_comment text) \<and>
   parse_blocks (CHR ''#'' # text) = parse_blocks (skip_line_comment text)"
  by (simp_all add: parse_blocks_def strip_comments_idem skip_line_comment_def)

text \<open>
  A 64-bit integer survives being written and read back, and nothing outside 64 bits is
  ever returned: an integer out of range is reported as \<open>out_of_range\<close>.
\<close>

theorem parse_i64_correct:
  "parse_i64 (show_int i) = (if in_int64 i then Inr i else Inl (OutOfRange ''stoll''))"
proof (cases "in_int64 i")
  case False
  have 1: "dropWhile is_space (show_int i) = show_int i"
    by (rule dropWhile_head) (meson hd_in_set show_int_not_space)
  have 2: "takeWhile is_digit (show_nat n) = show_nat n" for n
    by (rule takeWhile_all) (rule show_nat_digits)
  have "stoll (show_int i) = Inl (OutOfRange ''stoll'')"
    unfolding stoll_def 1 read_sign_show_int using False by (simp add: 2 Let_def)
  with False show ?thesis by (simp add: parse_i64_def)
qed simp

text \<open>
  Splitting a comma-separated value into its items inverts joining them, exactly when every
  item is trimmed, non-empty and free of commas, which every item it returns is.
\<close>

theorem parse_list_roundtrip:
  "parse_list (render_list items) = items \<longleftrightarrow> list_all list_item_ok items"
proof
  show "list_all list_item_ok items" if "parse_list (render_list items) = items"
    unfolding list_all_iff list_item_ok_def using that parse_list_items by metis
  show "parse_list (render_list items) = items" if "list_all list_item_ok items"
    by (rule parse_list_render_aux) (use that in \<open>simp add: list_all_iff list_item_ok_def\<close>)
qed

end
