(* ===== verification/Instrument_Signature.thy ===== *)
theory Instrument_Signature
  imports Simple_Kv
begin

text \<open>
  \<open>src/include/ujcamei/source/registry/instrument_signature.h\<close>: the signature by which an
  instrument is identified, and the patterns with \<open>ANY\<close> fields by which a component states the
  instruments it accepts. The functions that return \<open>false\<close> and fill \<open>*error\<close> return \<open>Inl\<close> the
  error text, those that return \<open>true\<close> return \<open>Inr ()\<close>; the null output pointer of
  \<open>instrument_signature_set_field\<close> is a missing signature.
\<close>

section \<open>Signatures\<close>

record instrument_signature =
  is_symbol :: string
  is_record_type :: string
  is_market_type :: string
  is_venue :: string
  is_base_asset :: string
  is_quote_asset :: string

type_synonym check = "string + unit"

definition instrument_signature_trim_ascii :: "string \<Rightarrow> string" where
  "instrument_signature_trim_ascii s =
     (let r = dropWhile is_space s in rev (dropWhile is_space (rev r)))"

definition instrument_signature_is_any :: "string \<Rightarrow> bool" where
  "instrument_signature_is_any v \<longleftrightarrow> v = ''ANY''"

definition instrument_signature_all_any :: instrument_signature where
  "instrument_signature_all_any = \<lparr>is_symbol = ''ANY'', is_record_type = ''ANY'', is_market_type = ''ANY'',
     is_venue = ''ANY'', is_base_asset = ''ANY'', is_quote_asset = ''ANY''\<rparr>"

definition instrument_signature_fields :: "instrument_signature \<Rightarrow> (string \<times> string) list" where
  "instrument_signature_fields s = [(''SYMBOL'', is_symbol s), (''RECORD_TYPE'', is_record_type s),
     (''MARKET_TYPE'', is_market_type s), (''VENUE'', is_venue s), (''BASE_ASSET'', is_base_asset s),
     (''QUOTE_ASSET'', is_quote_asset s)]"

definition instrument_signature_set_field ::
  "instrument_signature option \<Rightarrow> string \<Rightarrow> string \<Rightarrow> string + instrument_signature"
where
  "instrument_signature_set_field signature field value' =
     (case signature of None \<Rightarrow> Inl ''missing instrument signature output''
      | Some s \<Rightarrow>
          let v = instrument_signature_trim_ascii value' in
          if field = ''SYMBOL'' then Inr (s\<lparr>is_symbol := v\<rparr>)
          else if field = ''RECORD_TYPE'' then Inr (s\<lparr>is_record_type := v\<rparr>)
          else if field = ''MARKET_TYPE'' then Inr (s\<lparr>is_market_type := v\<rparr>)
          else if field = ''VENUE'' then Inr (s\<lparr>is_venue := v\<rparr>)
          else if field = ''BASE_ASSET'' then Inr (s\<lparr>is_base_asset := v\<rparr>)
          else if field = ''QUOTE_ASSET'' then Inr (s\<lparr>is_quote_asset := v\<rparr>)
          else Inl (''unknown instrument signature field: '' @ field))"

definition instrument_signature_is_complete :: "instrument_signature \<Rightarrow> bool" where
  "instrument_signature_is_complete s \<longleftrightarrow>
     list_all (\<lambda>(_, v). instrument_signature_trim_ascii v \<noteq> []) (instrument_signature_fields s)"

definition instrument_signature_contains_any :: "instrument_signature \<Rightarrow> bool" where
  "instrument_signature_contains_any s \<longleftrightarrow>
     list_ex (\<lambda>(_, v). instrument_signature_is_any v) (instrument_signature_fields s)"

section \<open>Validation\<close>

definition validate_field :: "bool \<Rightarrow> string \<Rightarrow> string \<times> string \<Rightarrow> unit \<Rightarrow> check" where
  "validate_field allow_any label = (\<lambda>(field, v) _.
     let trimmed = instrument_signature_trim_ascii v in
     if trimmed = [] then Inl (label @ '' missing '' @ field)
     else if \<not> allow_any \<and> instrument_signature_is_any trimmed then
       Inl (label @ '' must be exact; field '' @ field @ '' cannot be ANY'')
     else Inr ())"

definition derived_symbol :: "instrument_signature \<Rightarrow> string" where
  "derived_symbol s =
     (if is_quote_asset s = ''NONE'' then is_base_asset s else is_base_asset s @ is_quote_asset s)"

definition instrument_signature_validate :: "instrument_signature \<Rightarrow> bool \<Rightarrow> string \<Rightarrow> check" where
  "instrument_signature_validate s allow_any label =
     rbind (fold_res (validate_field allow_any label) (instrument_signature_fields s) ()) (\<lambda>_.
       if \<not> instrument_signature_is_any (is_symbol s) \<and>
          (instrument_signature_is_any (is_base_asset s) \<or> instrument_signature_is_any (is_quote_asset s)) then
         Inl (label @ '' exact SYMBOL requires exact BASE_ASSET and QUOTE_ASSET'')
       else if \<not> instrument_signature_is_any (is_symbol s) \<and>
          \<not> instrument_signature_is_any (is_base_asset s) \<and> \<not> instrument_signature_is_any (is_quote_asset s) \<and>
          is_symbol s \<noteq> derived_symbol s then
         Inl (label @ '' SYMBOL/BASE_ASSET/QUOTE_ASSET mismatch: SYMBOL='' @ is_symbol s @ '' derived='' @
           derived_symbol s)
       else Inr ())"

section \<open>Matching\<close>

definition accept_field :: "string \<Rightarrow> (string \<times> string) \<times> (string \<times> string) \<Rightarrow> unit \<Rightarrow> check" where
  "accept_field label = (\<lambda>((field, accepted_value), (_, runtime_value)) _.
     if instrument_signature_is_any accepted_value then Inr ()
     else if accepted_value = runtime_value then Inr ()
     else Inl (label @ '' does not accept runtime instrument: '' @ field @ '' expected='' @ accepted_value @
       '' runtime='' @ runtime_value))"

definition instrument_signature_accepts_runtime ::
  "instrument_signature \<Rightarrow> instrument_signature \<Rightarrow> string \<Rightarrow> check"
where
  "instrument_signature_accepts_runtime accepted runtime label =
     rbind (instrument_signature_validate accepted True label) (\<lambda>_.
     rbind (instrument_signature_validate runtime False ''RUNTIME_INSTRUMENT_SIGNATURE'') (\<lambda>_.
     fold_res (accept_field label)
       (zip (instrument_signature_fields accepted) (instrument_signature_fields runtime)) ()))"

definition overlap_field :: "string \<Rightarrow> string \<Rightarrow> (string \<times> string) \<times> (string \<times> string) \<Rightarrow> unit \<Rightarrow> check" where
  "overlap_field lhs_label rhs_label = (\<lambda>((field, lhs_value), (_, rhs_value)) _.
     if instrument_signature_is_any lhs_value \<or> instrument_signature_is_any rhs_value \<or> lhs_value = rhs_value
     then Inr ()
     else Inl (lhs_label @ '' and '' @ rhs_label @ '' have no compatible instrument overlap at '' @ field @
       '': '' @ lhs_value @ '' vs '' @ rhs_value))"

definition instrument_signatures_overlap ::
  "instrument_signature \<Rightarrow> instrument_signature \<Rightarrow> string \<Rightarrow> string \<Rightarrow> check"
where
  "instrument_signatures_overlap lhs rhs lhs_label rhs_label =
     rbind (instrument_signature_validate lhs True lhs_label) (\<lambda>_.
     rbind (instrument_signature_validate rhs True rhs_label) (\<lambda>_.
     fold_res (overlap_field lhs_label rhs_label)
       (zip (instrument_signature_fields lhs) (instrument_signature_fields rhs)) ()))"

definition instrument_signature_compact_string :: "instrument_signature \<Rightarrow> string" where
  "instrument_signature_compact_string s =
     ''SYMBOL='' @ is_symbol s @ '',RECORD_TYPE='' @ is_record_type s @ '',MARKET_TYPE='' @ is_market_type s @
     '',VENUE='' @ is_venue s @ '',BASE_ASSET='' @ is_base_asset s @ '',QUOTE_ASSET='' @ is_quote_asset s"

section \<open>Facts\<close>

lemma trim_ascii_eq_trim: "instrument_signature_trim_ascii s = trim s"
  by (simp add: instrument_signature_trim_ascii_def trim_def)

abbreviation any_value :: "string \<Rightarrow> bool" where "any_value v \<equiv> v = ''ANY''"

definition signature_ok :: "instrument_signature \<Rightarrow> bool \<Rightarrow> bool" where
  "signature_ok s allow_any \<longleftrightarrow>
     list_all (\<lambda>v. trim v \<noteq> [] \<and> (allow_any \<or> \<not> any_value (trim v))) (map snd (instrument_signature_fields s)) \<and>
     (any_value (is_symbol s) \<or>
       \<not> any_value (is_base_asset s) \<and> \<not> any_value (is_quote_asset s) \<and> is_symbol s = derived_symbol s)"

lemma fold_checks_iff:
  "(\<And>x. f x () = Inr () \<longleftrightarrow> P x) \<Longrightarrow> fold_res f xs () = Inr () \<longleftrightarrow> list_all P xs"
  by (induction xs) (auto simp: res_simps)

lemma validate_iff: "instrument_signature_validate s allow_any label = Inr () \<longleftrightarrow> signature_ok s allow_any"
proof -
  have "fold_res (validate_field allow_any label) (instrument_signature_fields s) () = Inr () \<longleftrightarrow>
      list_all (\<lambda>(_, v). trim v \<noteq> [] \<and> (allow_any \<or> \<not> any_value (trim v))) (instrument_signature_fields s)"
    by (rule fold_checks_iff)
      (auto simp: validate_field_def trim_ascii_eq_trim instrument_signature_is_any_def Let_def)
  then show ?thesis
    by (auto simp: instrument_signature_validate_def signature_ok_def instrument_signature_is_any_def
        res_simps list_all_iff split: if_splits)
qed

lemma accept_fields_iff:
  "fold_res (accept_field label) ps () = Inr () \<longleftrightarrow>
    list_all (\<lambda>((_, a), (_, r)). any_value a \<or> a = r) ps"
  by (rule fold_checks_iff) (simp add: accept_field_def instrument_signature_is_any_def split: prod.split)

lemma overlap_fields_iff:
  "fold_res (overlap_field l r) ps () = Inr () \<longleftrightarrow>
    list_all (\<lambda>((_, a), (_, b)). any_value a \<or> any_value b \<or> a = b) ps"
  by (rule fold_checks_iff) (simp add: overlap_field_def instrument_signature_is_any_def split: prod.split)

lemma zip_fields:
  "list_all (\<lambda>((_, a), (_, b)). P a b) (zip xs ys) = list_all (\<lambda>(a, b). P a b) (zip (map snd xs) (map snd ys))"
  by (induction xs ys rule: list_induct2') auto

lemma accepts_iff:
  "instrument_signature_accepts_runtime a r label = Inr () \<longleftrightarrow>
     signature_ok a True \<and> signature_ok r False \<and>
     list_all (\<lambda>(x, y). any_value x \<or> x = y)
       (zip (map snd (instrument_signature_fields a)) (map snd (instrument_signature_fields r)))"
  by (simp add: instrument_signature_accepts_runtime_def rbind_Inr_iff validate_iff accept_fields_iff zip_fields)

lemma overlap_iff:
  "instrument_signatures_overlap a b l r = Inr () \<longleftrightarrow>
     signature_ok a True \<and> signature_ok b True \<and>
     list_all (\<lambda>(x, y). any_value x \<or> any_value y \<or> x = y)
       (zip (map snd (instrument_signature_fields a)) (map snd (instrument_signature_fields b)))"
  by (simp add: instrument_signatures_overlap_def rbind_Inr_iff validate_iff overlap_fields_iff
      zip_fields [of "\<lambda>a b. any_value a \<or> any_value b \<or> a = b"])

text \<open>The instrument two overlapping patterns have in common.\<close>

definition pick :: "string \<Rightarrow> string \<Rightarrow> string \<Rightarrow> string" where
  "pick x y d = (if any_value x then if any_value y then d else y else x)"

definition common_instrument :: "instrument_signature \<Rightarrow> instrument_signature \<Rightarrow> instrument_signature" where
  "common_instrument a b =
     (let base = pick (is_base_asset a) (is_base_asset b) ''X'';
          quote = pick (is_quote_asset a) (is_quote_asset b) ''X''
      in \<lparr>is_symbol = pick (is_symbol a) (is_symbol b) (if quote = ''NONE'' then base else base @ quote),
          is_record_type = pick (is_record_type a) (is_record_type b) ''X'',
          is_market_type = pick (is_market_type a) (is_market_type b) ''X'',
          is_venue = pick (is_venue a) (is_venue b) ''X'',
          is_base_asset = base, is_quote_asset = quote\<rparr>)"

definition trimmed_signature :: "instrument_signature \<Rightarrow> bool" where
  "trimmed_signature s \<longleftrightarrow> list_all (\<lambda>v. trim v = v) (map snd (instrument_signature_fields s))"

lemma pick_accepts:
  "any_value x \<or> any_value y \<or> x = y \<Longrightarrow> (any_value x \<or> x = pick x y d) \<and> (any_value y \<or> y = pick x y d)"
  by (auto simp: pick_def)

lemma pick_exact: "\<not> any_value d \<Longrightarrow> \<not> any_value (pick x y d)"
  by (simp add: pick_def)

lemma pick_trimmed: "trim x = x \<Longrightarrow> trim y = y \<Longrightarrow> trim d = d \<Longrightarrow> trim (pick x y d) = pick x y d"
  by (simp add: pick_def)

lemma pick_nonempty: "x \<noteq> [] \<Longrightarrow> y \<noteq> [] \<Longrightarrow> d \<noteq> [] \<Longrightarrow> pick x y d \<noteq> []"
  by (simp add: pick_def)

lemma trim_X: "trim ''X'' = ''X''"
  by (rule trim_no_space) (simp add: is_space_def chr_code_def)

lemma trim_append: "trim a = a \<Longrightarrow> trim b = b \<Longrightarrow> a \<noteq> [] \<Longrightarrow> b \<noteq> [] \<Longrightarrow> trim (a @ b) = a @ b"
  using hd_trim [of a] last_trim [of b] by (intro trim_id) simp_all

lemma symbol_consistent:
  assumes "signature_ok a True" "signature_ok b True"
    and "any_value (is_symbol a) \<or> any_value (is_symbol b) \<or> is_symbol a = is_symbol b"
    and "any_value (is_base_asset a) \<or> any_value (is_base_asset b) \<or> is_base_asset a = is_base_asset b"
    and "any_value (is_quote_asset a) \<or> any_value (is_quote_asset b) \<or> is_quote_asset a = is_quote_asset b"
  shows "is_symbol (common_instrument a b) = derived_symbol (common_instrument a b)"
proof -
  consider "\<not> any_value (is_symbol a)" | "any_value (is_symbol a)" "\<not> any_value (is_symbol b)"
    | "any_value (is_symbol a)" "any_value (is_symbol b)" by blast
  then show ?thesis
  proof cases
    case 1
    with assms(1) have "\<not> any_value (is_base_asset a)" "\<not> any_value (is_quote_asset a)"
      "is_symbol a = derived_symbol a" by (simp_all add: signature_ok_def)
    with 1 show ?thesis by (simp add: common_instrument_def derived_symbol_def pick_def Let_def)
  next
    case 2
    with assms(2) have b: "\<not> any_value (is_base_asset b)" "\<not> any_value (is_quote_asset b)"
      "is_symbol b = derived_symbol b" by (simp_all add: signature_ok_def)
    with assms(4,5) have "pick (is_base_asset a) (is_base_asset b) ''X'' = is_base_asset b"
      "pick (is_quote_asset a) (is_quote_asset b) ''X'' = is_quote_asset b"
      by (auto simp: pick_def)
    with 2 b(3) show ?thesis
      by (simp add: common_instrument_def derived_symbol_def Let_def pick_def [of "''ANY''"])
  next
    case 3
    then show ?thesis
      by (simp add: common_instrument_def derived_symbol_def Let_def pick_def [of "''ANY''"])
  qed
qed

section \<open>Properties\<close>

definition example_signature :: "string \<Rightarrow> string \<Rightarrow> string \<Rightarrow> instrument_signature" where
  "example_signature symb base quote = \<lparr>is_symbol = symb, is_record_type = ''kline'', is_market_type = ''ANY'',
     is_venue = ''ANY'', is_base_asset = base, is_quote_asset = quote\<rparr>"

text \<open>
  A signature is valid exactly when no field is blank, no field is \<open>ANY\<close> where an exact one is
  required, and an exact symbol comes with exact assets whose concatenation (the base asset alone
  when there is no quote asset) it is.
\<close>

theorem signature_validate_correct:
  "instrument_signature_validate s allow_any label = Inr () \<longleftrightarrow>
     instrument_signature_is_complete s \<and>
     (allow_any \<or> list_all (\<lambda>(_, v). trim v \<noteq> ''ANY'') (instrument_signature_fields s)) \<and>
     (is_symbol s = ''ANY'' \<or> is_base_asset s \<noteq> ''ANY'' \<and> is_quote_asset s \<noteq> ''ANY'' \<and>
       is_symbol s = (if is_quote_asset s = ''NONE'' then is_base_asset s
         else is_base_asset s @ is_quote_asset s))"
  by (auto simp: validate_iff signature_ok_def instrument_signature_is_complete_def trim_ascii_eq_trim
      derived_symbol_def instrument_signature_fields_def)

text \<open>
  The overlap check never separates two patterns that accept a common instrument.
\<close>

theorem overlap_complete:
  assumes "instrument_signature_accepts_runtime a r la = Inr ()"
    and "instrument_signature_accepts_runtime b r lb = Inr ()"
  shows "instrument_signatures_overlap a b la lb = Inr ()"
  using assms unfolding accepts_iff overlap_iff instrument_signature_fields_def
  by (simp, metis)

theorem overlap_complete_witness:
  "instrument_signatures_overlap (example_signature ''ANY'' ''BTC'' ''ANY'')
    (example_signature ''ANY'' ''ANY'' ''USDT'') ''a'' ''b'' = Inr ()"
proof -
  let ?r = "(example_signature ''BTCUSDT'' ''BTC'' ''USDT'')\<lparr>is_market_type := ''spot'', is_venue := ''binance''\<rparr>"
  have a: "instrument_signature_accepts_runtime (example_signature ''ANY'' ''BTC'' ''ANY'') ?r ''a'' = Inr ()"
    by code_simp
  have b: "instrument_signature_accepts_runtime (example_signature ''ANY'' ''ANY'' ''USDT'') ?r ''b'' = Inr ()"
    by code_simp
  show ?thesis by (rule overlap_complete [OF a b])
qed

text \<open>
  Two overlapping patterns without surrounding blanks accept a common instrument, unless the
  symbol derived from the assets they fix happens to spell \<open>ANY\<close>.
\<close>

theorem overlap_sound:
  assumes "instrument_signatures_overlap a b la lb = Inr ()"
    and "trimmed_signature a" "trimmed_signature b"
    and "derived_symbol (common_instrument a b) \<noteq> ''ANY''"
  shows "instrument_signature_accepts_runtime a (common_instrument a b) la = Inr () \<and>
    instrument_signature_accepts_runtime b (common_instrument a b) lb = Inr ()"
proof -
  let ?m = "common_instrument a b"
  have ok: "signature_ok a True" "signature_ok b True"
    and o: "list_all (\<lambda>(x, y). any_value x \<or> any_value y \<or> x = y)
       (zip (map snd (instrument_signature_fields a)) (map snd (instrument_signature_fields b)))"
    using assms(1) by (simp_all add: overlap_iff)
  note fo = o [unfolded instrument_signature_fields_def, simplified]
  have sym: "is_symbol ?m = derived_symbol ?m"
    using fo by (intro symbol_consistent ok) simp_all
  note ne = ok [unfolded signature_ok_def instrument_signature_fields_def, simplified]
  note tr = assms(2,3) [unfolded trimmed_signature_def instrument_signature_fields_def, simplified]
  have parts: "pick x y ''X'' \<noteq> [] \<and> trim (pick x y ''X'') = pick x y ''X'' \<and> \<not> any_value (pick x y ''X'')"
    if "trim x = x" "trim y = y" "x \<noteq> []" "y \<noteq> []" for x y
    using that by (simp add: pick_nonempty pick_trimmed trim_X pick_exact)
  have base: "is_base_asset ?m \<noteq> []" "trim (is_base_asset ?m) = is_base_asset ?m" "\<not> any_value (is_base_asset ?m)"
    and quote: "is_quote_asset ?m \<noteq> []" "trim (is_quote_asset ?m) = is_quote_asset ?m" "\<not> any_value (is_quote_asset ?m)"
    and rest: "trim (is_record_type ?m) \<noteq> []" "\<not> any_value (trim (is_record_type ?m))"
      "trim (is_market_type ?m) \<noteq> []" "\<not> any_value (trim (is_market_type ?m))"
      "trim (is_venue ?m) \<noteq> []" "\<not> any_value (trim (is_venue ?m))"
    using parts ne tr by (simp_all add: common_instrument_def Let_def)
  have "trim (is_symbol ?m) = is_symbol ?m" "is_symbol ?m \<noteq> []"
    unfolding sym derived_symbol_def using base quote by (simp_all add: trim_append)
  then have m: "signature_ok ?m False"
    using base quote rest sym assms(4)
    by (simp add: signature_ok_def instrument_signature_fields_def)
  show ?thesis
    unfolding accepts_iff using ok m fo pick_accepts
    by (simp add: instrument_signature_fields_def common_instrument_def Let_def)
qed

theorem overlap_sound_witness:
  "instrument_signature_accepts_runtime (example_signature ''ANY'' ''BTC'' ''ANY'')
    (common_instrument (example_signature ''ANY'' ''BTC'' ''ANY'') (example_signature ''ANY'' ''ANY'' ''USDT''))
    ''a'' = Inr ()"
proof -
  let ?a = "example_signature ''ANY'' ''BTC'' ''ANY''" and ?b = "example_signature ''ANY'' ''ANY'' ''USDT''"
  have o: "instrument_signatures_overlap ?a ?b ''a'' ''b'' = Inr ()" by code_simp
  have t: "trimmed_signature ?a" "trimmed_signature ?b" by code_simp+
  have d: "derived_symbol (common_instrument ?a ?b) \<noteq> ''ANY''" by code_simp
  show ?thesis using overlap_sound [OF o t d] by blast
qed

end
