(* ===== verification/Market_Graph.thy ===== *)
theory Market_Graph
  imports Fnv Instrument_Signature
begin

unbundle bit_operations_syntax

text \<open>
  \<open>src/include/kikijyeba/topology/graph/node.h\<close>, \<open>edge.h\<close> and \<open>graph.h\<close>: the market graph, whose
  nodes are assets and whose directed edges are instruments, as parallel vectors of edge
  identifiers and endpoint indexes; its construction, validation, accessors and order
  fingerprint. Indexes are \<open>int64_t\<close> and become integers. An access out of the bounds of a vector
  is undefined in the source; the model reads it with \<open>!\<close>, and the theorems only speak about
  validated graphs, where it cannot happen.
\<close>

section \<open>Edges\<close>

type_synonym asset_node_id = string
type_synonym instrument_edge_id = string
type_synonym node_index = int
type_synonym edge_index = int

datatype endpoint_role = BaseEnd | QuoteEnd

record directed_edge =
  de_edge_id :: instrument_edge_id
  de_base_node_id :: asset_node_id
  de_quote_node_id :: asset_node_id

record directed_instrument_edge =
  die_edge_id :: instrument_edge_id
  die_base_node_id :: asset_node_id
  die_quote_node_id :: asset_node_id
  die_instrument :: instrument_signature

definition instrument_edge_id_from_signature :: "instrument_signature \<Rightarrow> instrument_edge_id" where
  "instrument_edge_id_from_signature s = is_symbol s"

definition make_directed_edge :: "instrument_edge_id \<Rightarrow> asset_node_id \<Rightarrow> asset_node_id \<Rightarrow> directed_edge" where
  "make_directed_edge eid base quote =
     \<lparr>de_edge_id = eid, de_base_node_id = base, de_quote_node_id = quote\<rparr>"

definition make_directed_instrument_edge :: "instrument_signature \<Rightarrow> directed_instrument_edge" where
  "make_directed_instrument_edge s =
     \<lparr>die_edge_id = instrument_edge_id_from_signature s, die_base_node_id = is_base_asset s,
      die_quote_node_id = is_quote_asset s, die_instrument = s\<rparr>"

section \<open>The order fingerprint\<close>

definition mix_graph_fingerprint_byte :: "u64 \<Rightarrow> byte \<Rightarrow> u64" where
  "mix_graph_fingerprint_byte hash b = (hash XOR ucast b) * 1099511628211"

definition mix_graph_fingerprint_string :: "u64 \<Rightarrow> string \<Rightarrow> u64" where
  "mix_graph_fingerprint_string hash s =
     mix_graph_fingerprint_byte (foldl mix_graph_fingerprint_byte hash (map chr_byte s)) 0xff"

definition i64_byte :: "int \<Rightarrow> nat \<Rightarrow> byte" where
  "i64_byte v i = ucast (drop_bit (i * 8) (word_of_int v :: u64) AND 0xff)"

definition mix_graph_fingerprint_i64 :: "u64 \<Rightarrow> int \<Rightarrow> u64" where
  "mix_graph_fingerprint_i64 hash v =
     mix_graph_fingerprint_byte
       (foldl mix_graph_fingerprint_byte hash (map (i64_byte v) [0, 1, 2, 3, 4, 5, 6, 7])) 0xfe"

definition graph_fingerprint_hex :: "u64 \<Rightarrow> string" where
  "graph_fingerprint_hex hash = hex_fixed 16 (unat hash)"

definition compute_graph_order_fingerprint ::
  "asset_node_id list \<Rightarrow> instrument_edge_id list \<Rightarrow> node_index list \<Rightarrow> node_index list \<Rightarrow> string"
where
  "compute_graph_order_fingerprint node_ids edge_ids base_index quote_index =
     (let h0 = mix_graph_fingerprint_string 14695981039346656037 ''cuwacunu.graph.order.v1'';
          h1 = mix_graph_fingerprint_i64 h0 (int (length node_ids));
          h2 = foldl mix_graph_fingerprint_string h1 node_ids;
          h3 = mix_graph_fingerprint_i64 h2 (int (length edge_ids));
          h4 = foldl mix_graph_fingerprint_string h3 edge_ids;
          h5 = mix_graph_fingerprint_i64 h4 (int (length base_index));
          h6 = foldl mix_graph_fingerprint_i64 h5 base_index;
          h7 = mix_graph_fingerprint_i64 h6 (int (length quote_index));
          h8 = foldl mix_graph_fingerprint_i64 h7 quote_index
      in graph_fingerprint_hex h8)"

section \<open>The graph\<close>

record market_graph =
  node_ids :: "asset_node_id list"
  edge_ids :: "instrument_edge_id list"
  base_index :: "node_index list"
  quote_index :: "node_index list"

definition num_nodes :: "market_graph \<Rightarrow> node_index" where
  "num_nodes g = int (length (node_ids g))"

definition num_edges :: "market_graph \<Rightarrow> edge_index" where
  "num_edges g = int (length (edge_ids g))"

definition throw_graph :: "string \<Rightarrow> 'a result" where
  "throw_graph msg = Inl (InvalidArgument (''[market_graph_t] '' @ msg))"

definition throw_graph_range :: "string \<Rightarrow> 'a result" where
  "throw_graph_range msg = Inl (OutOfRange (''[market_graph_t] '' @ msg))"

text \<open>
  The second loop of \<open>validate\<close>: the state is \<open>seen_edges\<close>, which is only filled when duplicates
  are not allowed.
\<close>

definition check_edge :: "market_graph \<Rightarrow> bool \<Rightarrow> nat \<Rightarrow> string set \<Rightarrow> string set result" where
  "check_edge g allow_duplicates e seen =
     (let eid = edge_ids g ! e; u = base_index g ! e; v = quote_index g ! e in
      if eid = [] then throw_graph ''edge_ids must not contain empty ids''
      else if \<not> allow_duplicates \<and> eid \<in> seen then throw_graph (''duplicate edge_id: '' @ eid)
      else if u < 0 \<or> v < 0 \<or> u \<ge> num_nodes g \<or> v \<ge> num_nodes g then
        throw_graph (''edge endpoint index out of node range for edge_id: '' @ eid)
      else if u = v then throw_graph (''self edge is not valid for edge_id: '' @ eid)
      else Inr (if allow_duplicates then seen else insert eid seen))"

definition graph_validate :: "market_graph \<Rightarrow> bool \<Rightarrow> unit result" where
  "graph_validate g allow_duplicate_edge_ids =
     (if node_ids g = [] then throw_graph ''node_ids must not be empty''
      else if edge_ids g = [] then throw_graph ''edge_ids must not be empty''
      else if length (base_index g) \<noteq> length (edge_ids g) \<or> length (quote_index g) \<noteq> length (edge_ids g) then
        throw_graph ''edge_ids/base_index/quote_index size mismatch''
      else rbind (unique_loop
          (\<lambda>n. if n = [] then throw_graph ''node_ids must not contain empty ids'' else Inr ())
          (\<lambda>n. n) (\<lambda>n. InvalidArgument (''[market_graph_t] duplicate node_id: '' @ n)) (\<lambda>_. Inr ()) {}
          (node_ids g)) (\<lambda>_.
        rbind (fold_res (check_edge g allow_duplicate_edge_ids) [0..<length (edge_ids g)] {}) (\<lambda>_. Inr ())))"

definition computed_graph_order_fingerprint :: "market_graph \<Rightarrow> string" where
  "computed_graph_order_fingerprint g =
     compute_graph_order_fingerprint (node_ids g) (edge_ids g) (base_index g) (quote_index g)"

definition node_index_or_throw :: "market_graph \<Rightarrow> string \<Rightarrow> node_index result" where
  "node_index_or_throw g node_id = (case index_of node_id (node_ids g) of Some i \<Rightarrow> Inr (int i)
     | None \<Rightarrow> throw_graph_range (''unknown node_id: '' @ node_id))"

definition edge_index_or_throw :: "market_graph \<Rightarrow> string \<Rightarrow> edge_index result" where
  "edge_index_or_throw g edge_id = (case index_of edge_id (edge_ids g) of Some e \<Rightarrow> Inr (int e)
     | None \<Rightarrow> throw_graph_range (''unknown edge_id: '' @ edge_id))"

definition check_edge_index :: "market_graph \<Rightarrow> edge_index \<Rightarrow> unit result" where
  "check_edge_index g e =
     (if e < 0 \<or> e \<ge> num_edges g then throw_graph_range ''edge index out of range'' else Inr ())"

definition endpoint_index_or_throw :: "market_graph \<Rightarrow> edge_index \<Rightarrow> endpoint_role \<Rightarrow> node_index result" where
  "endpoint_index_or_throw g e role =
     rbind (check_edge_index g e) (\<lambda>_.
       let i = (case role of BaseEnd \<Rightarrow> base_index g ! nat e | QuoteEnd \<Rightarrow> quote_index g ! nat e) in
       if i < 0 \<or> i \<ge> num_nodes g then throw_graph_range ''endpoint index out of range'' else Inr i)"

definition base_node_id :: "market_graph \<Rightarrow> edge_index \<Rightarrow> asset_node_id result" where
  "base_node_id g e = rbind (endpoint_index_or_throw g e BaseEnd) (\<lambda>i. Inr (node_ids g ! nat i))"

definition quote_node_id :: "market_graph \<Rightarrow> edge_index \<Rightarrow> asset_node_id result" where
  "quote_node_id g e = rbind (endpoint_index_or_throw g e QuoteEnd) (\<lambda>i. Inr (node_ids g ! nat i))"

definition directed_edge_at :: "market_graph \<Rightarrow> edge_index \<Rightarrow> directed_edge result" where
  "directed_edge_at g e =
     rbind (check_edge_index g e) (\<lambda>_.
     rbind (base_node_id g e) (\<lambda>base.
     rbind (quote_node_id g e) (\<lambda>quote.
       Inr \<lparr>de_edge_id = edge_ids g ! nat e, de_base_node_id = base, de_quote_node_id = quote\<rparr>)))"

definition directed_edge_by_id :: "market_graph \<Rightarrow> string \<Rightarrow> directed_edge result" where
  "directed_edge_by_id g eid = rbind (edge_index_or_throw g eid) (directed_edge_at g)"

definition has_reverse_edge :: "market_graph \<Rightarrow> edge_index \<Rightarrow> bool result" where
  "has_reverse_edge g e =
     rbind (endpoint_index_or_throw g e BaseEnd) (\<lambda>base.
     rbind (endpoint_index_or_throw g e QuoteEnd) (\<lambda>quote.
       Inr (list_ex (\<lambda>i. base_index g ! i = quote \<and> quote_index g ! i = base) [0..<length (edge_ids g)])))"

section \<open>Construction\<close>

text \<open>\<open>intern_node\<close>: the identifiers and the index map so far.\<close>

definition intern_node ::
  "string \<Rightarrow> asset_node_id list \<times> (string \<rightharpoonup> node_index) \<Rightarrow> node_index \<times> asset_node_id list \<times> (string \<rightharpoonup> node_index)"
where
  "intern_node key = (\<lambda>(ids, m). case m key of
       Some i \<Rightarrow> (i, ids, m)
     | None \<Rightarrow> (int (length ids), ids @ [key], m(key \<mapsto> int (length ids))))"

definition add_edge ::
  "directed_instrument_edge \<Rightarrow> market_graph \<times> (string \<rightharpoonup> node_index) \<Rightarrow> market_graph \<times> (string \<rightharpoonup> node_index)"
where
  "add_edge edge = (\<lambda>(g, m).
     let (b, ids1, m1) = intern_node (die_base_node_id edge) (node_ids g, m);
         (q, ids2, m2) = intern_node (die_quote_node_id edge) (ids1, m1)
     in (\<lparr>node_ids = ids2, edge_ids = edge_ids g @ [die_edge_id edge],
          base_index = base_index g @ [b], quote_index = quote_index g @ [q]\<rparr>, m2))"

definition empty_graph :: market_graph where
  "empty_graph = \<lparr>node_ids = [], edge_ids = [], base_index = [], quote_index = []\<rparr>"

definition make_market_graph :: "directed_instrument_edge list \<Rightarrow> market_graph result" where
  "make_market_graph edges =
     (let g = fst (foldl (\<lambda>st e. add_edge e st) (empty_graph, Map.empty) edges)
      in rbind (graph_validate g False) (\<lambda>_. Inr g))"

section \<open>Validated graphs\<close>

definition edge_at_ok :: "market_graph \<Rightarrow> nat \<Rightarrow> bool" where
  "edge_at_ok g e \<longleftrightarrow> edge_ids g ! e \<noteq> [] \<and> 0 \<le> base_index g ! e \<and> base_index g ! e < num_nodes g \<and>
     0 \<le> quote_index g ! e \<and> quote_index g ! e < num_nodes g \<and> base_index g ! e \<noteq> quote_index g ! e"

definition graph_ok :: "market_graph \<Rightarrow> bool" where
  "graph_ok g \<longleftrightarrow> node_ids g \<noteq> [] \<and> edge_ids g \<noteq> [] \<and> length (base_index g) = length (edge_ids g) \<and>
     length (quote_index g) = length (edge_ids g) \<and> [] \<notin> set (node_ids g) \<and> distinct (node_ids g) \<and>
     list_all (edge_at_ok g) [0..<length (edge_ids g)]"

lemma throw_graph_simps [simp]:
  "throw_graph m \<noteq> Inr x" "throw_graph_range m \<noteq> Inr x"
  by (simp_all add: throw_graph_def throw_graph_range_def)

lemma check_edge_iff:
  "check_edge g allow e seen = Inr seen' \<longleftrightarrow>
     edge_at_ok g e \<and> (allow \<or> edge_ids g ! e \<notin> seen) \<and>
     seen' = (if allow then seen else insert (edge_ids g ! e) seen)"
  by (auto simp: check_edge_def edge_at_ok_def Let_def)

lemma check_edges_iff:
  "(\<exists>seen'. fold_res (check_edge g allow) es seen = Inr seen') \<longleftrightarrow>
     list_all (edge_at_ok g) es \<and>
     (allow \<or> distinct (map ((!) (edge_ids g)) es) \<and> (!) (edge_ids g) ` set es \<inter> seen = {})"
  by (induction es arbitrary: seen) (auto simp: rbind_Inr_iff check_edge_iff)

lemma graph_validate_iff: "graph_validate g allow = Inr () \<longleftrightarrow> graph_ok g \<and> (allow \<or> distinct (edge_ids g))"
proof -
  have "(\<exists>seen'. fold_res (check_edge g allow) [0..<length (edge_ids g)] {} = Inr seen') \<longleftrightarrow>
      list_all (edge_at_ok g) [0..<length (edge_ids g)] \<and> (allow \<or> distinct (edge_ids g))"
    by (simp add: check_edges_iff map_nth)
  moreover have "(\<forall>n \<in> set ns. n \<noteq> []) \<longleftrightarrow> [] \<notin> set ns" for ns :: "string list" by blast
  ultimately show ?thesis
    by (auto simp: graph_validate_def graph_ok_def rbind_Inr_iff unique_loop_iff)
qed

lemma graph_ok_edge: "graph_ok g \<Longrightarrow> 0 \<le> e \<Longrightarrow> e < num_edges g \<Longrightarrow> edge_at_ok g (nat e)"
  by (auto simp: graph_ok_def num_edges_def list_all_iff nat_less_iff)

lemma endpoint_index_ok:
  "graph_ok g \<Longrightarrow> 0 \<le> e \<Longrightarrow> e < num_edges g \<Longrightarrow>
    endpoint_index_or_throw g e BaseEnd = Inr (base_index g ! nat e) \<and>
    endpoint_index_or_throw g e QuoteEnd = Inr (quote_index g ! nat e)"
  using graph_ok_edge [of g e]
  by (simp add: endpoint_index_or_throw_def check_edge_index_def edge_at_ok_def)

lemma directed_edge_ok:
  "graph_ok g \<Longrightarrow> 0 \<le> e \<Longrightarrow> e < num_edges g \<Longrightarrow>
    directed_edge_at g e = Inr (make_directed_edge (edge_ids g ! nat e)
      (node_ids g ! nat (base_index g ! nat e)) (node_ids g ! nat (quote_index g ! nat e)))"
  by (simp add: directed_edge_at_def check_edge_index_def base_node_id_def quote_node_id_def
      endpoint_index_ok make_directed_edge_def)

section \<open>Construction\<close>

definition intern_ok :: "asset_node_id list \<Rightarrow> (string \<rightharpoonup> node_index) \<Rightarrow> bool" where
  "intern_ok ids m \<longleftrightarrow> distinct ids \<and> (\<forall>k i. m k = Some i \<longleftrightarrow> 0 \<le> i \<and> i < int (length ids) \<and> ids ! nat i = k)"

lemma intern_node_new:
  assumes "intern_ok ids m" "m key = None"
  shows "intern_ok (ids @ [key]) (m(key \<mapsto> int (length ids)))"
proof -
  have new: "key \<notin> set ids"
  proof
    assume "key \<in> set ids"
    then obtain n where "n < length ids" "ids ! n = key" by (auto simp: in_set_conv_nth)
    then have "m key = Some (int n)" using assms(1) by (simp add: intern_ok_def)
    with assms(2) show False by simp
  qed
  have "(m(key \<mapsto> int (length ids))) k = Some i \<longleftrightarrow>
      0 \<le> i \<and> i < int (length (ids @ [key])) \<and> (ids @ [key]) ! nat i = k" for k i
  proof (cases "i = int (length ids)")
    case True
    have "m k \<noteq> Some (int (length ids))" using assms(1) by (simp add: intern_ok_def)
    with True show ?thesis by auto
  next
    case False
    have "ids ! nat i \<noteq> key" if "0 \<le> i" "i < int (length ids)"
      using new that by (metis nat_less_iff nth_mem)
    moreover have "k = key \<Longrightarrow> m k = None" using assms(2) by simp
    ultimately show ?thesis
      using False assms(1) by (auto simp: intern_ok_def nth_append nat_less_iff)
  qed
  with assms(1) new show ?thesis by (simp add: intern_ok_def)
qed

lemma intern_node_ok:
  assumes "intern_ok ids m" "intern_node key (ids, m) = (i, ids', m')"
  shows "intern_ok ids' m' \<and> (\<exists>t. ids' = ids @ t) \<and> 0 \<le> i \<and> i < int (length ids') \<and> ids' ! nat i = key \<and>
    ids' = (if key \<in> set ids then ids else ids @ [key])"
proof (cases "m key")
  case None
  then have "intern_ok (ids @ [key]) (m(key \<mapsto> int (length ids)))" by (rule intern_node_new [OF assms(1)])
  moreover from this have "key \<notin> set ids" by (simp add: intern_ok_def)
  ultimately show ?thesis using assms(2) None by (auto simp: intern_node_def)
next
  case (Some j)
  then have "0 \<le> j" "j < int (length ids)" "ids ! nat j = key" using assms(1) by (simp_all add: intern_ok_def)
  moreover from this have "key \<in> set ids" by (metis nat_less_iff nth_mem)
  ultimately show ?thesis using Some assms by (auto simp: intern_node_def)
qed

definition resolves :: "asset_node_id list \<Rightarrow> node_index list \<Rightarrow> asset_node_id list \<Rightarrow> bool" where
  "resolves ids is ks \<longleftrightarrow>
     list_all2 (\<lambda>i k. 0 \<le> i \<and> i < int (length ids) \<and> ids ! nat i = k) is ks"

lemma resolves_append_ids: "resolves ids is ks \<Longrightarrow> resolves (ids @ t) is ks"
  unfolding resolves_def by (erule list_all2_mono) (auto simp: nth_append nat_less_iff)

text \<open>The elements of a list in the order in which they first appear.\<close>

definition appearances :: "'a list \<Rightarrow> 'a list" where
  "appearances xs = rev (remdups (rev xs))"

lemma appearances_simps [simp]:
  "appearances [] = []"
  "appearances (xs @ [x]) = (if x \<in> set xs then appearances xs else appearances xs @ [x])"
  "set (appearances xs) = set xs" "distinct (appearances xs)"
  by (simp_all add: appearances_def)

definition edge_endpoints :: "directed_instrument_edge list \<Rightarrow> asset_node_id list" where
  "edge_endpoints es = concat (map (\<lambda>e. [die_base_node_id e, die_quote_node_id e]) es)"

lemma set_edge_endpoints: "set (edge_endpoints es) = die_base_node_id ` set es \<union> die_quote_node_id ` set es"
  by (auto simp: edge_endpoints_def)

lemma appearances_snoc:
  "appearances (edge_endpoints (es @ [e])) =
    (let ids = appearances (edge_endpoints es);
         ids = (if die_base_node_id e \<in> set ids then ids else ids @ [die_base_node_id e])
     in if die_quote_node_id e \<in> set ids then ids else ids @ [die_quote_node_id e])"
  using appearances_simps(2) [of "edge_endpoints es @ [die_base_node_id e]" "die_quote_node_id e"]
  by (auto simp: edge_endpoints_def Let_def)

definition graph_of :: "directed_instrument_edge list \<Rightarrow> market_graph \<times> (string \<rightharpoonup> node_index) \<Rightarrow> bool" where
  "graph_of es = (\<lambda>(g, m). intern_ok (node_ids g) m \<and> edge_ids g = map die_edge_id es \<and>
     resolves (node_ids g) (base_index g) (map die_base_node_id es) \<and>
     resolves (node_ids g) (quote_index g) (map die_quote_node_id es) \<and>
     appearances (edge_endpoints es) = node_ids g)"

lemma add_edge_graph_of:
  assumes "graph_of es st"
  shows "graph_of (es @ [e]) (add_edge e st)"
proof -
  obtain g m where st: "st = (g, m)" by (cases st)
  obtain b ids1 m1 where i1: "intern_node (die_base_node_id e) (node_ids g, m) = (b, ids1, m1)"
    by (metis prod_cases3)
  obtain q ids2 m2 where i2: "intern_node (die_quote_node_id e) (ids1, m1) = (q, ids2, m2)"
    by (metis prod_cases3)
  have inv: "intern_ok (node_ids g) m" using assms by (simp add: st graph_of_def)
  note b = intern_node_ok [OF inv i1]
  note q = intern_node_ok [OF conjunct1 [OF b] i2]
  from b q obtain t1 t2 where t: "ids1 = node_ids g @ t1" "ids2 = ids1 @ t2" by blast
  have r: "resolves ids2 (base_index g) (map die_base_node_id es)"
    "resolves ids2 (quote_index g) (map die_quote_node_id es)"
    using assms unfolding t by (simp_all add: st graph_of_def resolves_append_ids)
  have "0 \<le> b" "b < int (length ids1)" "ids1 ! nat b = die_base_node_id e" using b by blast+
  then have "0 \<le> b \<and> b < int (length ids2) \<and> ids2 ! nat b = die_base_node_id e"
    unfolding t(2) by (simp add: nth_append nat_less_iff)
  moreover have "0 \<le> q \<and> q < int (length ids2) \<and> ids2 ! nat q = die_quote_node_id e" using q by blast
  ultimately have "resolves ids2 (base_index g @ [b]) (map die_base_node_id (es @ [e]))"
    "resolves ids2 (quote_index g @ [q]) (map die_quote_node_id (es @ [e]))"
    using r by (simp_all add: resolves_def list_all2_appendI)
  moreover have "appearances (edge_endpoints (es @ [e])) = ids2"
    using assms b q by (simp only: st graph_of_def prod.case appearances_snoc Let_def)
  moreover have "intern_ok ids2 m2" using q by blast
  moreover have "edge_ids g = map die_edge_id es" using assms by (simp add: st graph_of_def)
  ultimately show ?thesis
    by (simp add: st add_edge_def i1 i2 graph_of_def)
qed

lemma make_graph_of: "graph_of es (foldl (\<lambda>st e. add_edge e st) (empty_graph, Map.empty) es)"
proof (induction es rule: rev_induct)
  case Nil
  then show ?case by (simp add: graph_of_def empty_graph_def intern_ok_def resolves_def edge_endpoints_def)
next
  case (snoc e es)
  then show ?case by (simp add: add_edge_graph_of)
qed

lemma resolves_nth:
  "resolves ids is ks \<Longrightarrow> k < length ks \<Longrightarrow> length is = length ks \<and> 0 \<le> is ! k \<and> is ! k < int (length ids) \<and>
    ids ! nat (is ! k) = ks ! k"
  by (auto simp: resolves_def list_all2_conv_all_nth)

definition edge_list_ok :: "directed_instrument_edge list \<Rightarrow> bool" where
  "edge_list_ok es \<longleftrightarrow> es \<noteq> [] \<and> distinct (map die_edge_id es) \<and>
     list_all (\<lambda>e. die_edge_id e \<noteq> [] \<and> die_base_node_id e \<noteq> [] \<and> die_quote_node_id e \<noteq> [] \<and>
       die_base_node_id e \<noteq> die_quote_node_id e) es"

lemma graph_of_ok:
  assumes "graph_of es (g, m)"
  shows "graph_ok g \<and> distinct (edge_ids g) \<longleftrightarrow> edge_list_ok es"
proof -
  have ids: "distinct (node_ids g)" "edge_ids g = map die_edge_id es"
    and nodes: "appearances (edge_endpoints es) = node_ids g"
    and rb: "resolves (node_ids g) (base_index g) (map die_base_node_id es)"
    and rq: "resolves (node_ids g) (quote_index g) (map die_quote_node_id es)"
    using assms by (simp_all add: graph_of_def intern_ok_def)
  have ids3: "set (node_ids g) = die_base_node_id ` set es \<union> die_quote_node_id ` set es"
    using appearances_simps(3) [of "edge_endpoints es"] by (simp add: nodes set_edge_endpoints)
  have len: "length (base_index g) = length es" "length (quote_index g) = length es"
    using rb rq by (auto simp: resolves_def dest: list_all2_lengthD)
  have edge: "edge_at_ok g k \<longleftrightarrow> die_edge_id (es ! k) \<noteq> [] \<and> die_base_node_id (es ! k) \<noteq> die_quote_node_id (es ! k)"
    if k: "k < length es" for k
  proof -
    have b: "0 \<le> base_index g ! k" "base_index g ! k < int (length (node_ids g))"
      "node_ids g ! nat (base_index g ! k) = die_base_node_id (es ! k)"
      using resolves_nth [OF rb, of k] k by simp_all
    have q: "0 \<le> quote_index g ! k" "quote_index g ! k < int (length (node_ids g))"
      "node_ids g ! nat (quote_index g ! k) = die_quote_node_id (es ! k)"
      using resolves_nth [OF rq, of k] k by simp_all
    have "base_index g ! k = quote_index g ! k \<longleftrightarrow> die_base_node_id (es ! k) = die_quote_node_id (es ! k)"
    proof
      assume "die_base_node_id (es ! k) = die_quote_node_id (es ! k)"
      then have "nat (base_index g ! k) = nat (quote_index g ! k)"
        using b q ids(1) by (metis nth_eq_iff_index_eq nat_less_iff)
      with b(1) q(1) show "base_index g ! k = quote_index g ! k" by simp
    qed (use b q in metis)
    with b q ids(2) k show ?thesis by (simp add: edge_at_ok_def num_nodes_def)
  qed
  have "list_all (edge_at_ok g) [0..<length es] \<longleftrightarrow>
      list_all (\<lambda>e. die_edge_id e \<noteq> [] \<and> die_base_node_id e \<noteq> die_quote_node_id e) es"
    using edge by (auto simp: list_all_length)
  moreover have "node_ids g \<noteq> [] \<longleftrightarrow> es \<noteq> []" using ids3 by (cases es) auto
  moreover have "[] \<notin> set (node_ids g) \<longleftrightarrow>
      list_all (\<lambda>e. die_base_node_id e \<noteq> [] \<and> die_quote_node_id e \<noteq> []) es"
    unfolding ids3 list_all_iff by force
  ultimately show ?thesis
    using ids(1,2) len unfolding graph_ok_def edge_list_ok_def list_all_iff by auto
qed

lemma make_market_graph_iff:
  "make_market_graph es = Inr g \<longleftrightarrow>
    (\<exists>m. foldl (\<lambda>st e. add_edge e st) (empty_graph, Map.empty) es = (g, m)) \<and> edge_list_ok es"
proof -
  obtain g' m where f: "foldl (\<lambda>st e. add_edge e st) (empty_graph, Map.empty) es = (g', m)"
    by (cases "foldl (\<lambda>st e. add_edge e st) (empty_graph, Map.empty) es")
  have "graph_of es (g', m)" using make_graph_of [of es] by (simp only: f)
  from graph_of_ok [OF this] show ?thesis
    by (auto simp: make_market_graph_def f rbind_Inr_iff graph_validate_iff)
qed

lemma make_market_graph_of: "make_market_graph es = Inr g \<Longrightarrow> \<exists>m. graph_of es (g, m)"
  using make_graph_of [of es] by (auto simp: make_market_graph_iff)

section \<open>The bytes that are hashed\<close>

interpretation graph_mix: byte_mixer mix_graph_fingerprint_byte
  by unfold_locales
    (simp_all add: mix_graph_fingerprint_byte_def times_prime_inject [unfolded FNV_prime_def] xor_left_inject
      xor_right_inject ucast_byte_inject)

definition string_bytes :: "string \<Rightarrow> byte list" where
  "string_bytes s = map chr_byte s @ [0xff]"

definition i64_bytes :: "int \<Rightarrow> byte list" where
  "i64_bytes v = map (i64_byte v) [0, 1, 2, 3, 4, 5, 6, 7] @ [0xfe]"

definition graph_order_bytes :: "market_graph \<Rightarrow> byte list" where
  "graph_order_bytes g = string_bytes ''cuwacunu.graph.order.v1'' @
     i64_bytes (int (length (node_ids g))) @ concat (map string_bytes (node_ids g)) @
     i64_bytes (int (length (edge_ids g))) @ concat (map string_bytes (edge_ids g)) @
     i64_bytes (int (length (base_index g))) @ concat (map i64_bytes (base_index g)) @
     i64_bytes (int (length (quote_index g))) @ concat (map i64_bytes (quote_index g))"

lemma mix_string_bytes: "mix_graph_fingerprint_string h s = foldl mix_graph_fingerprint_byte h (string_bytes s)"
  by (simp add: mix_graph_fingerprint_string_def string_bytes_def)

lemma mix_i64_bytes: "mix_graph_fingerprint_i64 h v = foldl mix_graph_fingerprint_byte h (i64_bytes v)"
  by (simp add: mix_graph_fingerprint_i64_def i64_bytes_def)

lemma mix_list_bytes:
  "(\<And>h x. f h x = foldl mix_graph_fingerprint_byte h (b x)) \<Longrightarrow>
    foldl f h xs = foldl mix_graph_fingerprint_byte h (concat (map b xs))"
  by (induction xs arbitrary: h) simp_all

lemma order_fingerprint_bytes:
  "computed_graph_order_fingerprint g =
    graph_fingerprint_hex (foldl mix_graph_fingerprint_byte 14695981039346656037 (graph_order_bytes g))"
  unfolding computed_graph_order_fingerprint_def compute_graph_order_fingerprint_def graph_order_bytes_def
    Let_def mix_list_bytes [OF mix_string_bytes] mix_list_bytes [OF mix_i64_bytes]
    mix_string_bytes mix_i64_bytes
  by (simp only: foldl_append)

lemma graph_fingerprint_hex_inject: "graph_fingerprint_hex a = graph_fingerprint_hex b \<longleftrightarrow> a = b"
proof -
  have "unat x < 16 ^ 16" for x :: u64
    using unsigned_less [of x, where ?'a = nat] by simp
  then show ?thesis by (simp add: graph_fingerprint_hex_def hex_fixed_inject word_unat_eq_iff)
qed

text \<open>Eight bytes determine a 64-bit integer.\<close>

lemma i64_byte_bit: "k < 8 \<Longrightarrow> bit (i64_byte v i) k \<longleftrightarrow> bit (word_of_int v :: u64) (i * 8 + k)"
proof -
  assume k: "k < 8"
  have "bit (0xff :: u64) k" using k by (auto simp: less_Suc_eq numeral_eq_Suc bit_Suc)
  with k show ?thesis
    by (simp add: i64_byte_def bit_ucast_iff bit_and_iff bit_drop_bit_eq add.commute)
qed

lemma i64_bytes_inject:
  assumes "in_int64 v" "in_int64 w"
  shows "i64_bytes v = i64_bytes w \<longleftrightarrow> v = w"
proof
  assume eq: "i64_bytes v = i64_bytes w"
  then have bytes: "i64_byte v i = i64_byte w i" if "i < 8" for i
    using that by (auto simp: i64_bytes_def less_Suc_eq numeral_eq_Suc)
  have "bit (word_of_int v :: u64) n = bit (word_of_int w :: u64) n" if "n < 64" for n
  proof -
    have "n div 8 < 8" "n mod 8 < 8" "n = n div 8 * 8 + n mod 8" using that by simp_all
    then show ?thesis using bytes [of "n div 8"] i64_byte_bit by metis
  qed
  then have "(word_of_int v :: u64) = word_of_int w"
    by (intro bit_word_eqI) simp
  then have "v mod 2 ^ 64 = w mod 2 ^ 64"
    by (simp add: word_of_int_eq_iff take_bit_eq_mod)
  then have "(v - w) mod 2 ^ 64 = 0" by (simp add: mod_eq_dvd_iff)
  moreover have "\<bar>v - w\<bar> < 2 ^ 64"
    using assms by (auto simp: int64_defs)
  ultimately show "v = w"
    by (metis dvd_imp_le_int eq_iff_diff_eq_0 linorder_not_le mod_0_imp_dvd abs_numeral abs_power_minus power_abs)
qed simp

lemma length_i64_bytes [simp]: "length (i64_bytes v) = 9"
  by (simp add: i64_bytes_def)

definition id_ok :: "string \<Rightarrow> bool" where
  "id_ok s \<longleftrightarrow> CHR 0xFF \<notin> set s"

lemma string_bytes_inject:
  assumes "id_ok s" "id_ok t"
  shows "string_bytes s @ r = string_bytes t @ q \<longleftrightarrow> s = t \<and> r = q"
proof -
  have ff: "chr_byte c = 0xff \<longleftrightarrow> c = CHR 0xFF" for c
  proof -
    have "chr_byte (CHR 0xFF) = 0xff" by (simp add: chr_byte_def chr_code_def)
    then show ?thesis by (metis chr_byte_inject)
  qed
  have "0xff \<notin> set (map chr_byte s)" "0xff \<notin> set (map chr_byte t)"
    using assms ff by (force simp: id_ok_def)+
  then have "string_bytes s @ r = string_bytes t @ q \<longleftrightarrow> map chr_byte s = map chr_byte t \<and> r = q"
    by (simp add: string_bytes_def sep_inject)
  moreover have "inj chr_byte" by (simp add: inj_def chr_byte_inject)
  ultimately show ?thesis by (simp add: inj_map_eq_map)
qed

lemma strings_bytes_inject:
  assumes "length ss = length ts" "list_all id_ok ss" "list_all id_ok ts"
  shows "concat (map string_bytes ss) @ r = concat (map string_bytes ts) @ q \<longleftrightarrow> ss = ts \<and> r = q"
  using assms by (induction ss ts rule: list_induct2) (auto simp: string_bytes_inject)

lemma i64_append_inject:
  "in_int64 v \<Longrightarrow> in_int64 w \<Longrightarrow> i64_bytes v @ r = i64_bytes w @ q \<longleftrightarrow> v = w \<and> r = q"
  by (simp add: i64_bytes_inject)

lemma i64s_bytes_inject:
  assumes "length vs = length ws" "list_all in_int64 vs" "list_all in_int64 ws"
  shows "concat (map i64_bytes vs) @ r = concat (map i64_bytes ws) @ q \<longleftrightarrow> vs = ws \<and> r = q"
  using assms by (induction vs ws rule: list_induct2) (auto simp: i64_append_inject i64_bytes_inject)

definition graph_hashable :: "market_graph \<Rightarrow> bool" where
  "graph_hashable g \<longleftrightarrow> list_all id_ok (node_ids g) \<and> list_all id_ok (edge_ids g) \<and>
     list_all in_int64 (base_index g) \<and> list_all in_int64 (quote_index g) \<and>
     list_all in_int64 (map int [length (node_ids g), length (edge_ids g), length (base_index g),
       length (quote_index g)])"

lemma graph_order_bytes_inject:
  assumes "graph_hashable g" "graph_hashable h"
  shows "graph_order_bytes g = graph_order_bytes h \<longleftrightarrow> g = h"
proof
  assume eq: "graph_order_bytes g = graph_order_bytes h"
  note ok = assms [unfolded graph_hashable_def list.map list.pred_inject]
  note step = eq [unfolded graph_order_bytes_def same_append_eq]
  have n: "length (node_ids g) = length (node_ids h)"
    using step ok by (simp only: i64_append_inject of_nat_eq_iff)
  have nodes: "node_ids g = node_ids h" and 1: "i64_bytes (int (length (edge_ids g))) @ concat (map string_bytes (edge_ids g)) @
      i64_bytes (int (length (base_index g))) @ concat (map i64_bytes (base_index g)) @
      i64_bytes (int (length (quote_index g))) @ concat (map i64_bytes (quote_index g)) =
      i64_bytes (int (length (edge_ids h))) @ concat (map string_bytes (edge_ids h)) @
      i64_bytes (int (length (base_index h))) @ concat (map i64_bytes (base_index h)) @
      i64_bytes (int (length (quote_index h))) @ concat (map i64_bytes (quote_index h))"
    using step ok n by (simp_all only: i64_append_inject strings_bytes_inject)
  have e: "length (edge_ids g) = length (edge_ids h)"
    using 1 ok by (simp only: i64_append_inject of_nat_eq_iff)
  have edges: "edge_ids g = edge_ids h" and 2: "i64_bytes (int (length (base_index g))) @ concat (map i64_bytes (base_index g)) @
      i64_bytes (int (length (quote_index g))) @ concat (map i64_bytes (quote_index g)) =
      i64_bytes (int (length (base_index h))) @ concat (map i64_bytes (base_index h)) @
      i64_bytes (int (length (quote_index h))) @ concat (map i64_bytes (quote_index h))"
    using 1 ok e by (simp_all only: i64_append_inject strings_bytes_inject)
  have b: "length (base_index g) = length (base_index h)"
    using 2 ok by (simp only: i64_append_inject of_nat_eq_iff)
  have bases: "base_index g = base_index h" and 3: "i64_bytes (int (length (quote_index g))) @ concat (map i64_bytes (quote_index g)) =
      i64_bytes (int (length (quote_index h))) @ concat (map i64_bytes (quote_index h))"
    using 2 ok b by (simp_all only: i64_append_inject i64s_bytes_inject)
  have "length (quote_index g) = length (quote_index h)"
    using 3 ok by (simp only: i64_append_inject of_nat_eq_iff)
  then have "quote_index g = quote_index h"
    using 3 ok i64s_bytes_inject [of "quote_index g" "quote_index h" "[]" "[]"] by (simp add: i64_append_inject)
  with nodes edges bases show "g = h" by (simp add: market_graph.equality)
qed simp

section \<open>Properties\<close>

definition example_edges :: "directed_instrument_edge list" where
  "example_edges = map make_directed_instrument_edge
     [example_signature ''BTCUSDT'' ''BTC'' ''USDT'', example_signature ''ETHBTC'' ''ETH'' ''BTC'',
      example_signature ''USDTBTC'' ''USDT'' ''BTC'']"

definition example_graph :: market_graph where
  "example_graph = \<lparr>node_ids = [''BTC'', ''USDT'', ''ETH''], edge_ids = [''BTCUSDT'', ''ETHBTC'', ''USDTBTC''],
     base_index = [0, 2, 1], quote_index = [1, 0, 0]\<rparr>"

lemma example_graph_made: "make_market_graph example_edges = Inr example_graph"
  by code_simp

text \<open>
  C23: a graph is built from a list of instrument edges exactly when the list is not empty, edge
  identifiers are non-empty and distinct, and every edge has two different non-empty endpoints;
  the graph then passes validation, its nodes are the endpoints of the edges, base before quote, each
  once and in the order in which they first appear, and it returns every edge of the list at its
  position with its own endpoints.
\<close>

theorem make_market_graph_correct:
  "(make_market_graph es = Inr g \<longrightarrow> graph_validate g False = Inr () \<and> num_edges g = int (length es) \<and>
     node_ids g = appearances (concat (map (\<lambda>e. [die_base_node_id e, die_quote_node_id e]) es)) \<and>
     (k < length es \<longrightarrow> directed_edge_at g (int k) = Inr (make_directed_edge (die_edge_id (es ! k))
       (die_base_node_id (es ! k)) (die_quote_node_id (es ! k))))) \<and>
   ((\<exists>g. make_market_graph es = Inr g) \<longleftrightarrow> edge_list_ok es)"
proof (intro conjI impI)
  assume made: "make_market_graph es = Inr g"
  then have es: "edge_list_ok es" by (simp add: make_market_graph_iff)
  obtain m where g: "graph_of es (g, m)" using make_market_graph_of [OF made] by blast
  then have ok: "graph_ok g" "distinct (edge_ids g)" using graph_of_ok es by blast+
  then show "graph_validate g False = Inr ()" by (simp add: graph_validate_iff)
  show n: "num_edges g = int (length es)" using g by (simp add: num_edges_def graph_of_def)
  show "node_ids g = appearances (concat (map (\<lambda>e. [die_base_node_id e, die_quote_node_id e]) es))"
    using g by (simp add: graph_of_def edge_endpoints_def)
  assume k: "k < length es"
  have "resolves (node_ids g) (base_index g) (map die_base_node_id es)"
    "resolves (node_ids g) (quote_index g) (map die_quote_node_id es)"
    using g by (simp_all add: graph_of_def)
  from this [THEN resolves_nth, of k] k g
  show "directed_edge_at g (int k) = Inr (make_directed_edge (die_edge_id (es ! k))
      (die_base_node_id (es ! k)) (die_quote_node_id (es ! k)))"
    by (simp add: directed_edge_ok [OF ok(1)] n graph_of_def)
next
  obtain g m where "foldl (\<lambda>st e. add_edge e st) (empty_graph, Map.empty) es = (g, m)"
    by (cases "foldl (\<lambda>st e. add_edge e st) (empty_graph, Map.empty) es")
  then show "(\<exists>g. make_market_graph es = Inr g) \<longleftrightarrow> edge_list_ok es" by (auto simp: make_market_graph_iff)
qed

theorem make_market_graph_correct_witness:
  "directed_edge_at example_graph 1 = Inr (make_directed_edge ''ETHBTC'' ''ETH'' ''BTC'')"
  using make_market_graph_correct [of example_edges example_graph 1] example_graph_made
  by (simp add: example_edges_def make_directed_instrument_edge_def instrument_edge_id_from_signature_def
      example_signature_def)

text \<open>
  On a validated graph no accessor fails or reads out of bounds: every edge index in range
  yields its identifier and two different nodes of the graph, and any other index is reported.
\<close>

theorem validated_graph_accessors:
  assumes "graph_validate g allow = Inr ()"
  shows "(\<exists>d. directed_edge_at g e = Inr d \<and> de_edge_id d \<in> set (edge_ids g) \<and>
      de_base_node_id d \<in> set (node_ids g) \<and> de_quote_node_id d \<in> set (node_ids g) \<and>
      de_base_node_id d \<noteq> de_quote_node_id d) \<longleftrightarrow> 0 \<le> e \<and> e < num_edges g"
proof (cases "0 \<le> e \<and> e < num_edges g")
  case True
  have ok: "graph_ok g" using assms by (simp add: graph_validate_iff)
  have e: "edge_at_ok g (nat e)" using graph_ok_edge [OF ok] True by blast
  let ?b = "nat (base_index g ! nat e)" and ?q = "nat (quote_index g ! nat e)"
  have len: "?b < length (node_ids g)" "?q < length (node_ids g)" "?b \<noteq> ?q" "nat e < length (edge_ids g)"
    using e True by (auto simp: edge_at_ok_def num_nodes_def num_edges_def nat_less_iff)
  then have "node_ids g ! ?b \<noteq> node_ids g ! ?q"
    using ok by (simp add: graph_ok_def nth_eq_iff_index_eq)
  with len True show ?thesis
    by (simp add: directed_edge_ok [OF ok] make_directed_edge_def)
next
  case False
  then show ?thesis by (auto simp: directed_edge_at_def check_edge_index_def rbind_Inr_iff)
qed

theorem validated_graph_accessors_witness: "\<exists>d. directed_edge_at example_graph 2 = Inr d"
proof -
  have v: "graph_validate example_graph True = Inr ()" by code_simp
  show ?thesis
    using validated_graph_accessors [OF v, of 2] by (auto simp: num_edges_def example_graph_def)
qed

text \<open>
  On a validated graph the reverse check of an edge succeeds and is exact: it answers yes
  exactly when some edge of the graph runs between the same two nodes in the other direction.
\<close>

theorem has_reverse_edge_correct:
  assumes "graph_validate g allow = Inr ()" "0 \<le> e" "e < num_edges g"
  shows "has_reverse_edge g e = Inr True \<longleftrightarrow> (\<exists>f. 0 \<le> f \<and> f < num_edges g \<and>
      base_node_id g f = quote_node_id g e \<and> quote_node_id g f = base_node_id g e)"
    (is "?l \<longleftrightarrow> ?r")
proof -
  have ok: "graph_ok g" using assms by (simp add: graph_validate_iff)
  have same: "node_ids g ! nat i = node_ids g ! nat j \<longleftrightarrow> i = j"
    if "0 \<le> i" "i < num_nodes g" "0 \<le> j" "j < num_nodes g" for i j
    using that ok by (auto simp: graph_ok_def num_nodes_def nth_eq_iff_index_eq nat_less_iff)
  note at = graph_ok_edge [OF ok, unfolded edge_at_ok_def]
  have "?l \<longleftrightarrow> (\<exists>k < length (edge_ids g). base_index g ! k = quote_index g ! nat e \<and>
      quote_index g ! k = base_index g ! nat e)"
    using endpoint_index_ok [OF ok assms(2,3)] by (auto simp: has_reverse_edge_def list_ex_iff)
  also have "\<dots> \<longleftrightarrow> (\<exists>f. 0 \<le> f \<and> f < num_edges g \<and> base_index g ! nat f = quote_index g ! nat e \<and>
      quote_index g ! nat f = base_index g ! nat e)"
    by (rule iffI) (metis nat_int of_nat_0_le_iff num_edges_def of_nat_less_iff, metis nat_less_iff num_edges_def)
  also have "\<dots> \<longleftrightarrow> ?r"
    using endpoint_index_ok [OF ok] assms(2,3) same at
    by (auto simp: base_node_id_def quote_node_id_def)
  finally show ?thesis .
qed

theorem has_reverse_edge_correct_witness: "has_reverse_edge example_graph 0 = Inr True"
proof -
  have v: "graph_validate example_graph False = Inr ()" by code_simp
  have e: "0 \<le> (0 :: int)" "0 < num_edges example_graph" by (simp_all add: num_edges_def example_graph_def)
  have "base_node_id example_graph 2 = quote_node_id example_graph 0"
    "quote_node_id example_graph 2 = base_node_id example_graph 0" by code_simp+
  moreover have "0 \<le> (2 :: int)" "2 < num_edges example_graph" by (simp_all add: num_edges_def example_graph_def)
  ultimately show ?thesis using has_reverse_edge_correct [OF v e] by blast
qed

text \<open>
  The order fingerprint hashes a sequence of bytes that determines the graph: node and edge
  identifiers without the terminator byte and 64-bit indexes, in their order. Graphs that differ
  in a single hashed byte have different fingerprints.
\<close>

theorem order_fingerprint_input_injective:
  assumes "graph_hashable g" "graph_hashable h"
  shows "(graph_order_bytes g = graph_order_bytes h \<longleftrightarrow> g = h) \<and>
    (graph_order_bytes g = pre @ x # post \<and> graph_order_bytes h = pre @ y # post \<longrightarrow>
      (computed_graph_order_fingerprint g = computed_graph_order_fingerprint h \<longleftrightarrow> x = y))"
  using graph_order_bytes_inject [OF assms] graph_mix.fold_one_byte [of _ pre x post y]
  by (auto simp: order_fingerprint_bytes graph_fingerprint_hex_inject simp del: foldl_append foldl_Cons)

theorem order_fingerprint_input_injective_witness:
  "graph_order_bytes example_graph \<noteq> graph_order_bytes (example_graph\<lparr>node_ids := [''USDT'', ''BTC'', ''ETH'']\<rparr>)"
proof -
  have ok: "graph_hashable (example_graph\<lparr>node_ids := ns\<rparr>)"
    if "list_all id_ok ns" "length ns = 3" for ns
    using that by (simp add: graph_hashable_def example_graph_def id_ok_def int64_defs)
  have 1: "graph_hashable (example_graph\<lparr>node_ids := [''BTC'', ''USDT'', ''ETH'']\<rparr>)"
    by (rule ok) (simp_all add: id_ok_def)
  have 2: "graph_hashable (example_graph\<lparr>node_ids := [''USDT'', ''BTC'', ''ETH'']\<rparr>)"
    by (rule ok) (simp_all add: id_ok_def)
  show ?thesis
    using order_fingerprint_input_injective [OF 1 2, of "[]" 0 "[]" 0] by (simp add: example_graph_def)
qed

end
