(* ===== verification/Floating_Text.thy ===== *)
theory Floating_Text
  imports Prelude Complex_Main "HOL-Library.Log_Nat"
begin

text \<open>
  What the source uses of the floating point routines of the C library: \<open>std::strtod\<close> and
  \<open>std::strtold\<close> on a whole text, with \<open>errno\<close>. A floating value is its rational value, an infinity or
  a NaN; the formats are IEEE 754 binary64 for \<open>double\<close> and the x87 extended format for
  \<open>long double\<close>, rounded to nearest, ties to even. A subnormal result that had to be rounded sets
  \<open>errno\<close>, which the standard leaves to the implementation.
\<close>

section \<open>Rounding\<close>

datatype c_float = Finite rat | Infinite bool | NotANumber

record float_format =
  ff_precision :: nat
  ff_min_ulp :: int
  ff_max_exponent :: int

definition double_format :: float_format where
  "double_format = \<lparr>ff_precision = 53, ff_min_ulp = - 1074, ff_max_exponent = 1023\<rparr>"

definition long_double_format :: float_format where
  "long_double_format = \<lparr>ff_precision = 64, ff_min_ulp = - 16445, ff_max_exponent = 16383\<rparr>"

definition round_half_even :: "rat \<Rightarrow> int" where
  "round_half_even y =
     (let f = \<lfloor>y\<rfloor>; r = y - of_int f in
      if r < 1 / 2 \<or> r = 1 / 2 \<and> even f then f else f + 1)"

definition power_of_two :: "int \<Rightarrow> rat" where
  "power_of_two e = (if e \<ge> 0 then 2 ^ nat e else 1 / 2 ^ nat (- e))"

text \<open>The binary exponent of a positive number.\<close>

definition binary_exponent :: "rat \<Rightarrow> int" where
  "binary_exponent x =
     (let (n, d) = quotient_of x; e = int (floorlog 2 (nat n)) - int (floorlog 2 (nat d))
      in if power_of_two e \<le> x then e else e - 1)"

definition ulp_exponent :: "float_format \<Rightarrow> rat \<Rightarrow> int" where
  "ulp_exponent f x = max (binary_exponent x - (int (ff_precision f) - 1)) (ff_min_ulp f)"

definition round_float :: "float_format \<Rightarrow> rat \<Rightarrow> rat" where
  "round_float f x =
     (if x = 0 then 0
      else let u = power_of_two (ulp_exponent f \<bar>x\<bar>) in of_int (round_half_even (x / u)) * u)"

definition min_normal :: "float_format \<Rightarrow> rat" where
  "min_normal f = power_of_two (ff_min_ulp f + int (ff_precision f) - 1)"

section \<open>Texts\<close>

definition is_xdigit :: "char \<Rightarrow> bool" where
  "is_xdigit c \<longleftrightarrow> is_digit c \<or> c \<in> set ''abcdefABCDEF''"

definition xdigit_value :: "char \<Rightarrow> nat" where
  "xdigit_value c = (if is_digit c then chr_code c - 48 else chr_code (to_lower c) - 87)"

fun radix_value :: "nat \<Rightarrow> (char \<Rightarrow> nat) \<Rightarrow> nat \<Rightarrow> string \<Rightarrow> nat" where
  "radix_value b v acc [] = acc"
| "radix_value b v acc (c # cs) = radix_value b v (b * acc + v c) cs"

definition exponent_part :: "string \<Rightarrow> string \<Rightarrow> int option" where
  "exponent_part markers s = (case s of [] \<Rightarrow> Some 0
     | c # t \<Rightarrow>
         let (neg, ds) = read_sign t; n = int (digits_value 0 ds) in
         if c \<in> set markers \<and> ds \<noteq> [] \<and> list_all is_digit ds then Some (if neg then - n else n) else None)"

text \<open>Digits with an optional point; the digits, how many stand behind the point, and the rest.\<close>

definition mantissa_part :: "(char \<Rightarrow> bool) \<Rightarrow> string \<Rightarrow> string \<times> nat \<times> string" where
  "mantissa_part is_d s =
     (let ip = takeWhile is_d s; s1 = dropWhile is_d s in
      case s1 of
        [] \<Rightarrow> (ip, 0, s1)
      | c # t \<Rightarrow> if c = CHR ''.'' then (ip @ takeWhile is_d t, length (takeWhile is_d t), dropWhile is_d t)
                else (ip, 0, s1))"

definition decimal_number :: "string \<Rightarrow> rat option" where
  "decimal_number s =
     (let (ds, k, r) = mantissa_part is_digit s in
      if ds = [] then None
      else case exponent_part ''eE'' r of None \<Rightarrow> None
        | Some e \<Rightarrow> let n = of_nat (digits_value 0 ds); p = e - int k in
            Some (if p \<ge> 0 then n * 10 ^ nat p else n / 10 ^ nat (- p)))"

definition hexadecimal_number :: "string \<Rightarrow> rat option" where
  "hexadecimal_number s =
     (let (ds, k, r) = mantissa_part is_xdigit s in
      if ds = [] then None
      else case exponent_part ''pP'' r of None \<Rightarrow> None
        | Some e \<Rightarrow> Some (of_nat (radix_value 16 xdigit_value 0 ds) * power_of_two (e - 4 * int k)))"

definition special_float :: "bool \<Rightarrow> string \<Rightarrow> c_float option" where
  "special_float neg s =
     (let t = map to_lower s in
      if t = ''inf'' \<or> t = ''infinity'' then Some (Infinite neg)
      else if t = ''nan'' then Some NotANumber
      else if take 4 t = ''nan('' \<and> t \<noteq> ''nan('' \<and> last t = CHR '')'' \<and>
        list_all (\<lambda>c. is_alnum c \<or> c = CHR ''_'') (butlast (drop 4 s)) then Some NotANumber
      else None)"

text \<open>
  \<open>errno = 0; v = strto*(s, &end); errno != 0 || end != s + size\<close>: \<open>None\<close> when the text is not read
  to its end or \<open>errno\<close> is set. The callers pass a text without leading white space.
\<close>

definition strto_float :: "float_format \<Rightarrow> string \<Rightarrow> c_float option" where
  "strto_float f text =
     (let (neg, s) = read_sign text in
      case special_float neg s of
        Some v \<Rightarrow> Some v
      | None \<Rightarrow>
          (case (if take 2 s = ''0x'' \<or> take 2 s = ''0X'' then hexadecimal_number (drop 2 s) else decimal_number s) of
             None \<Rightarrow> None
           | Some x \<Rightarrow>
               let v = round_float f (if neg then - x else x) in
               if \<bar>v\<bar> \<ge> power_of_two (ff_max_exponent f + 1) then None
               else if x < min_normal f \<and> \<bar>v\<bar> \<noteq> x then None
               else Some (Finite v)))"

section \<open>Comparisons with zero\<close>

fun float_less_zero :: "c_float \<Rightarrow> bool" where
  "float_less_zero (Finite x) = (x < 0)"
| "float_less_zero (Infinite neg) = neg"
| "float_less_zero NotANumber = False"

fun float_greater_zero :: "c_float \<Rightarrow> bool" where
  "float_greater_zero (Finite x) = (0 < x)"
| "float_greater_zero (Infinite neg) = (\<not> neg)"
| "float_greater_zero NotANumber = False"

section \<open>Facts\<close>

lemma power_of_two_pos [simp]: "0 < power_of_two e"
  by (simp add: power_of_two_def)

lemma power_of_two_add_one: "power_of_two (e + 1) = 2 * power_of_two e"
proof (cases "e \<ge> 0")
  case True
  then show ?thesis by (simp add: power_of_two_def nat_add_distrib)
next
  case False
  then have "nat (- e) = Suc (nat (- (e + 1)))" by linarith
  with False show ?thesis by (cases "e = - 1") (simp_all add: power_of_two_def)
qed

lemma power_of_two_add: "power_of_two (a + b) = power_of_two a * power_of_two b"
proof (induction b rule: int_induct [where k = 0])
  case base
  show ?case by (simp add: power_of_two_def)
next
  case (step1 i)
  then show ?case using power_of_two_add_one [of "a + i"] power_of_two_add_one [of i] by (simp add: add.assoc [symmetric])
next
  case (step2 i)
  then show ?case using power_of_two_add_one [of "a + (i - 1)"] power_of_two_add_one [of "i - 1"] by (simp add: algebra_simps)
qed

lemma power_of_two_nat: "power_of_two (int n) = 2 ^ n"
  by (simp add: power_of_two_def)

lemma power_of_two_neg: "power_of_two (- e) = 1 / power_of_two e"
proof -
  have "power_of_two e * power_of_two (- e) = 1"
    using power_of_two_add [of e "- e"] by (simp add: power_of_two_def [of 0])
  then show ?thesis using power_of_two_pos [of e] by (metis less_irrefl nonzero_mult_div_cancel_left)
qed

lemma power_of_two_mono: "a \<le> b \<Longrightarrow> power_of_two a \<le> power_of_two b"
proof -
  assume "a \<le> b"
  then obtain n where "b = a + int n" using zle_iff_zadd by blast
  then show ?thesis by (simp add: power_of_two_add power_of_two_nat)
qed

lemma binary_exponent_bounds:
  assumes "0 < x"
  shows "power_of_two (binary_exponent x) \<le> x \<and> x < power_of_two (binary_exponent x + 1)"
proof -
  obtain n d where q: "quotient_of x = (n, d)" by fastforce
  then have d: "0 < d" and x: "x = of_int n / of_int d" by (auto simp: quotient_of_denom_pos quotient_of_div)
  with assms have n: "0 < n" by (simp add: zero_less_divide_iff)
  define l where "l m = floorlog 2 (nat m)" for m
  have l: "of_int m < (2 :: rat) ^ l m" "(2 :: rat) ^ l m \<le> 2 * of_int m" if m: "0 < m" for m
  proof -
    have "nat m < 2 ^ l m" "2 ^ (l m - 1) \<le> nat m" "0 < l m"
      using m floorlog_bounds [of "nat m" 2] by (auto simp: l_def floorlog_def)
    then have "int (nat m) < int (2 ^ l m)" "int (2 ^ l m) \<le> int (2 * nat m)"
      using m by (simp, cases "l m") auto
    with m have "m < 2 ^ l m" "2 ^ l m \<le> 2 * m" by simp_all
    then show "of_int m < (2 :: rat) ^ l m" "(2 :: rat) ^ l m \<le> 2 * of_int m"
      by (metis of_int_less_iff of_int_numeral of_int_power, metis of_int_le_iff of_int_mult of_int_numeral of_int_power)
  qed
  let ?e = "int (l n) - int (l d)"
  have e: "power_of_two ?e = 2 ^ l n / 2 ^ l d"
    using power_of_two_add [of "int (l n)" "- int (l d)"] by (simp add: power_of_two_neg power_of_two_nat)
  have "x < 2 ^ l n / of_int d" using l(1) [OF n] d by (simp add: x divide_strict_right_mono)
  also have "\<dots> \<le> 2 * power_of_two ?e" using l(2) [OF d] d by (simp add: e field_simps)
  finally have upper: "x < 2 * power_of_two ?e" .
  have "power_of_two ?e \<le> 2 * of_int n / 2 ^ l d" using l(2) [OF n] by (simp add: e divide_right_mono)
  also have "\<dots> \<le> 2 * x" using l(1) [OF d] d n by (simp add: x frac_le)
  finally have lower: "power_of_two ?e \<le> 2 * x" .
  have "power_of_two ?e = 2 * power_of_two (?e - 1)" using power_of_two_add_one [of "?e - 1"] by simp
  with upper lower show ?thesis
    using power_of_two_add_one [of ?e] by (auto simp: binary_exponent_def q l_def [symmetric] Let_def)
qed

lemma round_half_even_near: "\<bar>of_int (round_half_even y) - y\<bar> \<le> 1 / 2"
proof -
  have "of_int \<lfloor>y\<rfloor> \<le> y" "y < of_int \<lfloor>y\<rfloor> + 1" by linarith+
  then show ?thesis by (auto simp: round_half_even_def Let_def abs_le_iff)
qed

lemma round_half_even_int [simp]: "round_half_even (of_int i) = i"
  by (simp add: round_half_even_def)

text \<open>
  Rounding is off by at most half a unit in the last place, and a multiple of the unit is kept.
\<close>

lemma round_float_near: "\<bar>round_float f x - x\<bar> \<le> power_of_two (ulp_exponent f \<bar>x\<bar>) / 2"
proof (cases "x = 0")
  case True
  then show ?thesis by (simp add: round_float_def less_imp_le)
next
  case False
  define u where "u = power_of_two (ulp_exponent f \<bar>x\<bar>)"
  have u: "0 < u" by (simp add: u_def)
  have "round_float f x - x = (of_int (round_half_even (x / u)) - x / u) * u"
    using u False by (simp add: round_float_def u_def [symmetric] Let_def left_diff_distrib)
  also have "\<bar>\<dots>\<bar> \<le> 1 / 2 * u"
    using round_half_even_near [of "x / u"] u by (simp add: abs_mult mult_right_mono)
  finally show ?thesis by (simp add: u_def)
qed

lemma round_float_exact: "x = of_int i * power_of_two (ulp_exponent f \<bar>x\<bar>) \<Longrightarrow> round_float f x = x"
proof -
  define u where "u = power_of_two (ulp_exponent f \<bar>x\<bar>)"
  have u: "0 < u" by (simp add: u_def)
  assume "x = of_int i * power_of_two (ulp_exponent f \<bar>x\<bar>)"
  then have x: "x = of_int i * u" by (simp add: u_def)
  then have q: "x / u = of_int i" using u by simp
  have "round_float f x = (if x = 0 then 0 else of_int (round_half_even (x / u)) * u)"
    by (simp only: round_float_def u_def Let_def)
  then show ?thesis by (simp only: q round_half_even_int x [symmetric]) simp
qed

lemma binary_exponent_unique:
  assumes "power_of_two e \<le> x" "x < power_of_two (e + 1)"
  shows "binary_exponent x = e"
proof (rule ccontr)
  have x: "0 < x" using assms(1) power_of_two_pos [of e] by linarith
  note b = binary_exponent_bounds [OF x]
  assume "binary_exponent x \<noteq> e"
  then consider "binary_exponent x + 1 \<le> e" | "e + 1 \<le> binary_exponent x" by linarith
  then show False using power_of_two_mono b assms by (cases; fastforce dest: power_of_two_mono)
qed

text \<open>The texts of the number one.\<close>

lemma strto_float_one:
  assumes "decimal_number s = Some 1" "read_sign s = (False, s)" "special_float False s = None"
    and "take 2 s \<noteq> ''0x''" "take 2 s \<noteq> ''0X''"
    and f: "f = double_format \<or> f = long_double_format"
  shows "strto_float f s = Some (Finite 1)"
proof -
  have e: "binary_exponent 1 = 0"
    by (rule binary_exponent_unique) (simp_all add: power_of_two_def)
  define n where "n = (if f = double_format then 52 else 63 :: nat)"
  have n: "ulp_exponent f 1 = - int n" using f
    by (auto simp: ulp_exponent_def e double_format_def long_double_format_def n_def)
  have "round_float f 1 = 1"
    by (rule round_float_exact [of _ "2 ^ n"]) (simp add: n power_of_two_neg power_of_two_nat)
  moreover have "ff_min_ulp f + int (ff_precision f) - 1 \<le> 0 \<and> 1 \<le> ff_max_exponent f + 1"
    using f by (auto simp: double_format_def long_double_format_def)
  then have "\<not> 1 < min_normal f" "\<not> power_of_two (ff_max_exponent f + 1) \<le> 1"
    using power_of_two_mono [of _ 0] power_of_two_mono [of 1 "ff_max_exponent f + 1"]
    by (fastforce simp: min_normal_def power_of_two_def [of 0] power_of_two_def [of 1])+
  ultimately show ?thesis
    using assms(1-5) by (simp add: strto_float_def)
qed

lemma round_half_even_nonneg: "0 \<le> x \<Longrightarrow> 0 \<le> round_half_even x"
  using zero_le_floor [of x] by (simp add: round_half_even_def Let_def)

lemma round_float_nonneg:
  assumes "0 \<le> x"
  shows "0 \<le> round_float f x"
proof -
  have u: "0 < power_of_two (ulp_exponent f \<bar>x\<bar>)" by simp
  with assms have "0 \<le> round_half_even (x / power_of_two (ulp_exponent f \<bar>x\<bar>))" by (intro round_half_even_nonneg divide_nonneg_pos) auto
  with u show ?thesis by (auto simp: round_float_def Let_def intro!: mult_nonneg_nonneg less_imp_le [OF u])
qed

end
