(* ===== verification/Source_Contract.thy ===== *)
theory Source_Contract
  imports Graph_Topology Instrument_Signature Market_Graph Floating_Text
begin

text \<open>
  \<open>src/include/ujcamei/source/contract/contract.h\<close> and \<open>src/impl/ujcamei/source/contract/contract.cpp\<close>,
  with \<open>interval_type_e\<close> of \<open>registry/types/enums.h\<close>: the decoded source contract, the queries on it
  and the market graph it describes. A method with an error output returns the error instead.
\<close>

section \<open>Intervals\<close>

datatype interval_type =
    utility_constant | utility_sine | utility_triangular
  | interval_1s | interval_1m | interval_3m | interval_5m | interval_15m | interval_30m
  | interval_1h | interval_2h | interval_4h | interval_6h | interval_8h | interval_12h
  | interval_1d | interval_3d | interval_1w | interval_1M

fun interval_to_string :: "interval_type \<Rightarrow> string" where
  "interval_to_string utility_constant = ''constant''"
| "interval_to_string utility_sine = ''sine''"
| "interval_to_string utility_triangular = ''triangular''"
| "interval_to_string interval_1s = ''1s''"
| "interval_to_string interval_1m = ''1m''"
| "interval_to_string interval_3m = ''3m''"
| "interval_to_string interval_5m = ''5m''"
| "interval_to_string interval_15m = ''15m''"
| "interval_to_string interval_30m = ''30m''"
| "interval_to_string interval_1h = ''1h''"
| "interval_to_string interval_2h = ''2h''"
| "interval_to_string interval_4h = ''4h''"
| "interval_to_string interval_6h = ''6h''"
| "interval_to_string interval_8h = ''8h''"
| "interval_to_string interval_12h = ''12h''"
| "interval_to_string interval_1d = ''1d''"
| "interval_to_string interval_3d = ''3d''"
| "interval_to_string interval_1w = ''1w''"
| "interval_to_string interval_1M = ''1M''"

definition interval_table :: "(string \<times> interval_type) list" where
  "interval_table = [(''constant'', utility_constant), (''sine'', utility_sine), (''triangular'', utility_triangular),
     (''1s'', interval_1s), (''1m'', interval_1m), (''3m'', interval_3m), (''5m'', interval_5m),
     (''15m'', interval_15m), (''30m'', interval_30m), (''1h'', interval_1h), (''2h'', interval_2h),
     (''4h'', interval_4h), (''6h'', interval_6h), (''8h'', interval_8h), (''12h'', interval_12h),
     (''1d'', interval_1d), (''3d'', interval_3d), (''1w'', interval_1w), (''1M'', interval_1M)]"

definition interval_from_string :: "string \<Rightarrow> interval_type result" where
  "interval_from_string str = (case map_of interval_table str of
       Some i \<Rightarrow> Inr i
     | None \<Rightarrow> Inl (InvalidArgument (''Unknown string requested to convert into interval_type_e: '' @ str)))"

section \<open>The contract\<close>

record source_form =
  sf_instrument :: string
  sf_interval :: interval_type
  sf_record_type :: string
  sf_market_type :: string
  sf_venue :: string
  sf_base_asset :: string
  sf_quote_asset :: string
  sf_source_kind :: string
  sf_source :: string

definition default_source_form :: source_form where
  "default_source_form = \<lparr>sf_instrument = [], sf_interval = utility_constant, sf_record_type = [], sf_market_type = [],
     sf_venue = [], sf_base_asset = [], sf_quote_asset = [], sf_source_kind = ''real'', sf_source = []\<rparr>"

definition form_signature :: "source_form \<Rightarrow> instrument_signature" where
  "form_signature f = \<lparr>is_symbol = sf_instrument f, is_record_type = sf_record_type f, is_market_type = sf_market_type f,
     is_venue = sf_venue f, is_base_asset = sf_base_asset f, is_quote_asset = sf_quote_asset f\<rparr>"

record channel_form =
  cf_interval :: interval_type
  cf_active :: string
  cf_record_type :: string
  cf_input_length :: string
  cf_future_length :: string
  cf_channel_weight :: string
  cf_normalization_policy :: string

record source_data_analytics_policy =
  ap_declared :: bool
  ap_max_samples :: int
  ap_max_features :: int
  ap_mask_epsilon :: c_float
  ap_standardize_epsilon :: c_float

definition default_analytics_policy :: source_data_analytics_policy where
  "default_analytics_policy = \<lparr>ap_declared = False, ap_max_samples = 0, ap_max_features = 0,
     ap_mask_epsilon = Finite 0, ap_standardize_epsilon = Finite 0\<rparr>"

record source_universe =
  su_source_forms :: "source_form list"
  su_csv_bootstrap_deltas :: nat
  su_csv_step_abs_tol :: c_float
  su_csv_step_rel_tol :: c_float
  su_data_analytics_policy :: source_data_analytics_policy

definition default_source_universe :: source_universe where
  "default_source_universe = \<lparr>su_source_forms = [], su_csv_bootstrap_deltas = 64,
     su_csv_step_abs_tol = Finite (round_float long_double_format (1 / 10 ^ 8)),
     su_csv_step_rel_tol = Finite (round_float long_double_format (1 / 10 ^ 10)),
     su_data_analytics_policy = default_analytics_policy\<rparr>"

record source_spec =
  ss_source_forms :: "source_form list"
  ss_channel_forms :: "channel_form list"
  ss_graph_node_forms :: "graph_node_form list"
  ss_graph_edge_forms :: "graph_edge_form list"
  ss_graph_edge_resolution_policy :: string
  ss_graph_edge_source_kind :: string
  ss_graph_fetch_mode :: string
  ss_graph_max_fetch_workers :: string
  ss_graph_parallel_min_work_items :: string
  ss_csv_bootstrap_deltas :: nat
  ss_csv_step_abs_tol :: c_float
  ss_csv_step_rel_tol :: c_float
  ss_data_analytics_policy :: source_data_analytics_policy

definition default_source_spec :: source_spec where
  "default_source_spec = \<lparr>ss_source_forms = [], ss_channel_forms = [], ss_graph_node_forms = [], ss_graph_edge_forms = [],
     ss_graph_edge_resolution_policy = ''explicit_only'', ss_graph_edge_source_kind = ''real'',
     ss_graph_fetch_mode = ''serial'', ss_graph_max_fetch_workers = ''0'', ss_graph_parallel_min_work_items = ''16'',
     ss_csv_bootstrap_deltas = 64, ss_csv_step_abs_tol = Finite (round_float long_double_format (1 / 10 ^ 8)),
     ss_csv_step_rel_tol = Finite (round_float long_double_format (1 / 10 ^ 10)),
     ss_data_analytics_policy = default_analytics_policy\<rparr>"

definition make_source_universe_from_compat :: "source_spec \<Rightarrow> source_universe" where
  "make_source_universe_from_compat spec =
     \<lparr>su_source_forms = ss_source_forms spec, su_csv_bootstrap_deltas = ss_csv_bootstrap_deltas spec,
      su_csv_step_abs_tol = ss_csv_step_abs_tol spec, su_csv_step_rel_tol = ss_csv_step_rel_tol spec,
      su_data_analytics_policy = ss_data_analytics_policy spec\<rparr>"

definition make_compat_source_spec_from_universe :: "source_universe \<Rightarrow> source_spec" where
  "make_compat_source_spec_from_universe universe =
     default_source_spec\<lparr>ss_source_forms := su_source_forms universe,
       ss_csv_bootstrap_deltas := su_csv_bootstrap_deltas universe, ss_csv_step_abs_tol := su_csv_step_abs_tol universe,
       ss_csv_step_rel_tol := su_csv_step_rel_tol universe,
       ss_data_analytics_policy := su_data_analytics_policy universe\<rparr>"

section \<open>Queries\<close>

definition is_true :: "string \<Rightarrow> bool" where
  "is_true s \<longleftrightarrow> trim s = ''true''"

definition universe_filter_source_forms :: "source_universe \<Rightarrow> instrument_signature \<Rightarrow> interval_type \<Rightarrow> source_form list" where
  "universe_filter_source_forms u target_signature target_interval =
     filter (\<lambda>form. sf_interval form = target_interval \<and>
       instrument_signature_compact_string (form_signature form) = instrument_signature_compact_string target_signature)
       (su_source_forms u)"

definition spec_filter_source_forms :: "source_spec \<Rightarrow> instrument_signature \<Rightarrow> interval_type \<Rightarrow> source_form list" where
  "spec_filter_source_forms s = universe_filter_source_forms (make_source_universe_from_compat s)"

definition universe_active_sources_match :: "source_universe \<Rightarrow> instrument_signature \<Rightarrow> check" where
  "universe_active_sources_match u runtime =
     rbind (instrument_signature_validate runtime False ''RUNTIME_INSTRUMENT_SIGNATURE'') (\<lambda>_.
       if list_ex (\<lambda>form. instrument_signature_compact_string (form_signature form) =
           instrument_signature_compact_string runtime) (su_source_forms u) then Inr ()
       else Inl (''no source row for runtime instrument '' @ instrument_signature_compact_string runtime))"

text \<open>The loop over the channels; the state is \<open>saw_active\<close>.\<close>

definition match_channel :: "source_spec \<Rightarrow> instrument_signature \<Rightarrow> channel_form \<Rightarrow> bool \<Rightarrow> string + bool" where
  "match_channel s runtime channel saw_active =
     (if trim (cf_active channel) \<noteq> ''true'' then Inr saw_active
      else if trim (cf_record_type channel) \<noteq> is_record_type runtime then
        Inl (''active source channel record_type '' @ CHR 0x27 # trim (cf_record_type channel) @ CHR 0x27 #
          '' does not match RUNTIME_INSTRUMENT_SIGNATURE.RECORD_TYPE '' @ is_record_type runtime)
      else if spec_filter_source_forms s runtime (cf_interval channel) = [] then
        Inl (''no source row row for runtime instrument '' @ instrument_signature_compact_string runtime @
          '' on an active interval'')
      else Inr True)"

definition spec_active_sources_match :: "source_spec \<Rightarrow> instrument_signature \<Rightarrow> check" where
  "spec_active_sources_match s runtime =
     rbind (instrument_signature_validate runtime False ''RUNTIME_INSTRUMENT_SIGNATURE'') (\<lambda>_.
     rbind (fold_res (match_channel s runtime) (ss_channel_forms s) False) (\<lambda>saw_active.
       if \<not> saw_active then Inl ''source channel DSL has no active rows'' else Inr ()))"

definition count_channels :: "source_spec \<Rightarrow> int" where
  "count_channels s = int (length (filter (\<lambda>c. cf_active c = ''true'') (ss_channel_forms s)))"

text \<open>An active row whose text \<open>std::stoll\<close> does not read is skipped.\<close>

definition max_length_step :: "(channel_form \<Rightarrow> string) \<Rightarrow> channel_form \<Rightarrow> int \<Rightarrow> int" where
  "max_length_step field c m =
     (if cf_active c = ''true'' then (case stoll (field c) of Inl e \<Rightarrow> m | Inr (v, used) \<Rightarrow> if v > m then v else m) else m)"

definition max_input_length :: "source_spec \<Rightarrow> int" where
  "max_input_length s = fold (max_length_step cf_input_length) (ss_channel_forms s) 0"

definition max_future_length :: "source_spec \<Rightarrow> int" where
  "max_future_length s = fold (max_length_step cf_future_length) (ss_channel_forms s) 0"

section \<open>The market graph\<close>

definition throw_spec :: "string \<Rightarrow> 'a result" where
  "throw_spec msg = Inl (RuntimeError (''[source_spec_t] '' @ msg))"

definition add_active_node ::
  "graph_node_form \<Rightarrow> market_graph \<times> (string \<rightharpoonup> node_index) \<Rightarrow> (market_graph \<times> (string \<rightharpoonup> node_index)) result"
where
  "add_active_node node = (\<lambda>(graph, node_to_index).
     if \<not> is_true (gn_active node) then Inr (graph, node_to_index)
     else let node_id = trim (gn_node_id node) in
       if node_id = [] then throw_spec ''active graph node has empty id''
       else if node_id \<in> dom node_to_index then throw_spec (''duplicate active graph node: '' @ node_id)
       else Inr (graph\<lparr>node_ids := node_ids graph @ [node_id]\<rparr>,
         node_to_index(node_id \<mapsto> int (length (node_ids graph)))))"

definition add_active_edge :: "(string \<rightharpoonup> node_index) \<Rightarrow> graph_edge_form \<Rightarrow> market_graph \<Rightarrow> market_graph result" where
  "add_active_edge node_to_index edge graph =
     (if \<not> is_true (ge_active edge) then Inr graph
      else let edge_id = trim (ge_edge_id edge); base_node = trim (ge_base_node edge); quote_node = trim (ge_quote_node edge) in
        if edge_id = [] \<or> base_node = [] \<or> quote_node = [] then throw_spec ''active graph edge has empty id or endpoint''
        else case (node_to_index base_node, node_to_index quote_node) of
            (Some b, Some q) \<Rightarrow> Inr (graph\<lparr>edge_ids := edge_ids graph @ [edge_id],
              base_index := base_index graph @ [b], quote_index := quote_index graph @ [q]\<rparr>)
          | _ \<Rightarrow> throw_spec (''graph edge '' @ edge_id @ '' references inactive or missing node''))"

definition active_market_graph :: "source_spec \<Rightarrow> market_graph result" where
  "active_market_graph s =
     rbind (fold_res add_active_node (ss_graph_node_forms s) (empty_graph, Map.empty)) (\<lambda>(graph, node_to_index).
     rbind (fold_res (add_active_edge node_to_index) (ss_graph_edge_forms s) graph) (\<lambda>graph.
     rbind (graph_validate graph False) (\<lambda>_. Inr graph)))"

definition matches_edge :: "graph_edge_form \<Rightarrow> source_form \<Rightarrow> bool" where
  "matches_edge edge form \<longleftrightarrow> trim (sf_instrument form) = trim (ge_source_instrument edge) \<and>
     \<not> (trim (sf_base_asset form) \<noteq> trim (ge_base_node edge) \<or> trim (sf_quote_asset form) \<noteq> trim (ge_quote_node edge))"

definition add_edge_instrument ::
  "source_form list \<Rightarrow> graph_edge_form \<Rightarrow> (string \<rightharpoonup> instrument_signature) \<Rightarrow> (string \<rightharpoonup> instrument_signature) result"
where
  "add_edge_instrument forms edge out =
     (if \<not> is_true (ge_active edge) then Inr out
      else let edge_id = trim (ge_edge_id edge) in
        case List.find (matches_edge edge) forms of
          None \<Rightarrow> throw_spec (''graph edge '' @ edge_id @ '' has no matching source instrument row'')
        | Some matched \<Rightarrow>
            Inr (if edge_id \<in> dom out then out else out(edge_id \<mapsto> form_signature matched)))"

definition active_edge_instrument_map :: "source_spec \<Rightarrow> (string \<rightharpoonup> instrument_signature) result" where
  "active_edge_instrument_map s = fold_res (add_edge_instrument (ss_source_forms s)) (ss_graph_edge_forms s) Map.empty"


section \<open>Intervals and their texts\<close>

lemma interval_table_complete: "map_of interval_table (interval_to_string i) = Some i"
  by (cases i) (simp_all add: interval_table_def)

lemma interval_table_sound: "map_of interval_table str = Some i \<Longrightarrow> interval_to_string i = str"
proof -
  have "list_all (\<lambda>(s, i). interval_to_string i = s) interval_table" by code_simp
  moreover assume "map_of interval_table str = Some i"
  ultimately show ?thesis by (auto simp: list_all_iff dest!: map_of_SomeD)
qed

lemma interval_from_string_iff [res_simps]: "interval_from_string str = Inr i \<longleftrightarrow> str = interval_to_string i"
  using interval_table_complete interval_table_sound
  by (auto simp: interval_from_string_def split: option.splits)

lemma interval_to_string_inject [simp]: "interval_to_string i = interval_to_string j \<longleftrightarrow> i = j"
  by (metis interval_table_complete option.inject)

section \<open>The graph that is described\<close>

text \<open>
  What the contract says without loops: the active nodes and edges in the order of the rows, an edge
  between the positions of its endpoints.
\<close>

definition active_node_names :: "source_spec \<Rightarrow> string list" where
  "active_node_names s = map (\<lambda>n. trim (gn_node_id n)) (filter (\<lambda>n. is_true (gn_active n)) (ss_graph_node_forms s))"

definition active_edge_rows :: "source_spec \<Rightarrow> graph_edge_form list" where
  "active_edge_rows s = filter (\<lambda>e. is_true (ge_active e)) (ss_graph_edge_forms s)"

definition index_map :: "string list \<Rightarrow> string \<rightharpoonup> node_index" where
  "index_map ids k = map_option int (index_of k ids)"

definition described_graph :: "source_spec \<Rightarrow> market_graph" where
  "described_graph s =
     (let ns = active_node_names s; es = active_edge_rows s in
      \<lparr>node_ids = ns, edge_ids = map (\<lambda>e. trim (ge_edge_id e)) es,
       base_index = map (\<lambda>e. the (index_map ns (trim (ge_base_node e)))) es,
       quote_index = map (\<lambda>e. the (index_map ns (trim (ge_quote_node e)))) es\<rparr>)"

definition edge_row_ok :: "string list \<Rightarrow> graph_edge_form \<Rightarrow> bool" where
  "edge_row_ok ns e \<longleftrightarrow> trim (ge_edge_id e) \<noteq> [] \<and> trim (ge_base_node e) \<in> set ns \<and> trim (ge_quote_node e) \<in> set ns \<and>
     trim (ge_base_node e) \<noteq> trim (ge_quote_node e)"

definition graph_described :: "source_spec \<Rightarrow> bool" where
  "graph_described s \<longleftrightarrow>
     active_node_names s \<noteq> [] \<and> [] \<notin> set (active_node_names s) \<and> distinct (active_node_names s) \<and>
     active_edge_rows s \<noteq> [] \<and> distinct (map (\<lambda>e. trim (ge_edge_id e)) (active_edge_rows s)) \<and>
     list_all (edge_row_ok (active_node_names s)) (active_edge_rows s)"

lemma index_of_append:
  "index_of x (xs @ ys) = (case index_of x xs of Some i \<Rightarrow> Some i | None \<Rightarrow> map_option ((+) (length xs)) (index_of x ys))"
  by (cases "index_of x ys"; induction xs) (auto split: option.splits)

lemma index_map_snoc: "k \<notin> set ids \<Longrightarrow> index_map (ids @ [k]) = (index_map ids)(k \<mapsto> int (length ids))"
proof
  fix x
  assume "k \<notin> set ids"
  then have "index_of k ids = None" by (simp add: index_of_None)
  then show "index_map (ids @ [k]) x = ((index_map ids)(k \<mapsto> int (length ids))) x"
    by (auto simp: index_map_def index_of_append split: option.splits)
qed

lemma index_map_None: "index_map ids k = None \<longleftrightarrow> k \<notin> set ids"
  by (simp add: index_map_def index_of_None)

lemma dom_index_map [simp]: "dom (index_map ids) = set ids"
  by (auto simp: dom_def index_map_None simp del: not_None_eq)

lemma index_map_nth: "k \<in> set ids \<Longrightarrow> \<exists>i < length ids. index_map ids k = Some (int i) \<and> ids ! i = k"
  using index_of_Some [of k ids] index_of_None [of k ids] by (cases "index_of k ids") (auto simp: index_map_def)

lemma throw_spec_simps [simp]: "throw_spec m \<noteq> Inr x" "rbind (throw_spec m) f = throw_spec m"
  by (simp_all add: throw_spec_def)

lemma add_active_node_simps:
  "\<not> is_true (gn_active n) \<Longrightarrow> add_active_node n st = Inr st"
  "is_true (gn_active n) \<Longrightarrow> add_active_node n (g, index_map (node_ids g)) =
    (if trim (gn_node_id n) = [] then throw_spec ''active graph node has empty id''
     else if trim (gn_node_id n) \<in> set (node_ids g) then throw_spec (''duplicate active graph node: '' @ trim (gn_node_id n))
     else Inr (g\<lparr>node_ids := node_ids g @ [trim (gn_node_id n)]\<rparr>, index_map (node_ids g @ [trim (gn_node_id n)])))"
  by (cases st) (simp_all add: add_active_node_def Let_def index_map_snoc)

lemma active_nodes_fold:
  "fold_res add_active_node rows (g, index_map (node_ids g)) = Inr (g', m') \<longleftrightarrow>
    (let new = map (\<lambda>n. trim (gn_node_id n)) (filter (\<lambda>n. is_true (gn_active n)) rows) in
     [] \<notin> set new \<and> distinct new \<and> set new \<inter> set (node_ids g) = {} \<and>
     g' = g\<lparr>node_ids := node_ids g @ new\<rparr> \<and> m' = index_map (node_ids g @ new))"
proof (induction rows arbitrary: g)
  case (Cons n rows)
  let ?k = "trim (gn_node_id n)"
  show ?case
  proof (cases "is_true (gn_active n)")
    case active: True
    then show ?thesis
      using Cons.IH [of "g\<lparr>node_ids := node_ids g @ [?k]\<rparr>"]
      by (cases "?k = []"; cases "?k \<in> set (node_ids g)") (auto simp: add_active_node_simps Let_def)
  next
    case False
    then have "fold_res add_active_node (n # rows) st = fold_res add_active_node rows st" for st
      by (simp add: add_active_node_simps)
    with False show ?thesis using Cons.IH by simp
  qed
qed (auto simp: Let_def)

lemma add_active_edge_iff:
  "is_true (ge_active e) \<Longrightarrow> add_active_edge m e g = Inr g' \<longleftrightarrow>
    trim (ge_edge_id e) \<noteq> [] \<and> trim (ge_base_node e) \<noteq> [] \<and> trim (ge_quote_node e) \<noteq> [] \<and>
    trim (ge_base_node e) \<in> dom m \<and> trim (ge_quote_node e) \<in> dom m \<and>
    g' = g\<lparr>edge_ids := edge_ids g @ [trim (ge_edge_id e)], base_index := base_index g @ [the (m (trim (ge_base_node e)))],
      quote_index := quote_index g @ [the (m (trim (ge_quote_node e)))]\<rparr>"
  by (cases "m (trim (ge_base_node e))"; cases "m (trim (ge_quote_node e))")
    (auto simp: add_active_edge_def Let_def domIff)

lemma add_active_edge_inactive: "\<not> is_true (ge_active e) \<Longrightarrow> add_active_edge m e g = Inr g"
  by (simp add: add_active_edge_def)

lemma active_edges_fold:
  "fold_res (add_active_edge m) rows g = Inr g' \<longleftrightarrow>
    (let es = filter (\<lambda>e. is_true (ge_active e)) rows in
     list_all (\<lambda>e. trim (ge_edge_id e) \<noteq> [] \<and> trim (ge_base_node e) \<noteq> [] \<and> trim (ge_quote_node e) \<noteq> [] \<and>
       trim (ge_base_node e) \<in> dom m \<and> trim (ge_quote_node e) \<in> dom m) es \<and>
     g' = \<lparr>node_ids = node_ids g, edge_ids = edge_ids g @ map (\<lambda>e. trim (ge_edge_id e)) es,
       base_index = base_index g @ map (\<lambda>e. the (m (trim (ge_base_node e)))) es,
       quote_index = quote_index g @ map (\<lambda>e. the (m (trim (ge_quote_node e)))) es\<rparr>)"
proof (induction rows arbitrary: g)
  case (Cons e rows)
  show ?case
  proof (cases "is_true (ge_active e)")
    case True
    then show ?thesis by (simp add: rbind_Inr_iff add_active_edge_iff Cons.IH Let_def conj_ac)
  next
    case False
    then have "fold_res (add_active_edge m) (e # rows) g = fold_res (add_active_edge m) rows g"
      by (simp add: add_active_edge_inactive)
    with False show ?thesis using Cons.IH by simp
  qed
qed (auto simp: Let_def)

lemma described_graph_ok:
  assumes "[] \<notin> set (active_node_names s)" "distinct (active_node_names s)"
    and "list_all (\<lambda>e. trim (ge_edge_id e) \<noteq> [] \<and> trim (ge_base_node e) \<in> set (active_node_names s) \<and>
      trim (ge_quote_node e) \<in> set (active_node_names s)) (active_edge_rows s)"
  shows "graph_validate (described_graph s) False = Inr () \<longleftrightarrow> graph_described s"
proof -
  let ?ns = "active_node_names s" and ?es = "active_edge_rows s"
  have "edge_at_ok (described_graph s) i \<longleftrightarrow> edge_row_ok ?ns (?es ! i)" if "i < length ?es" for i
  proof -
    have "?es ! i \<in> set ?es" using that by simp
    with assms(3) have e: "trim (ge_edge_id (?es ! i)) \<noteq> []" "trim (ge_base_node (?es ! i)) \<in> set ?ns"
      "trim (ge_quote_node (?es ! i)) \<in> set ?ns" by (simp_all add: list_all_iff)
    obtain b where b: "b < length ?ns" "index_map ?ns (trim (ge_base_node (?es ! i))) = Some (int b)"
      "?ns ! b = trim (ge_base_node (?es ! i))" using index_map_nth [OF e(2)] by blast
    obtain q where q: "q < length ?ns" "index_map ?ns (trim (ge_quote_node (?es ! i))) = Some (int q)"
      "?ns ! q = trim (ge_quote_node (?es ! i))" using index_map_nth [OF e(3)] by blast
    have "trim (ge_base_node (?es ! i)) = trim (ge_quote_node (?es ! i)) \<longleftrightarrow> b = q"
      using nth_eq_iff_index_eq [OF assms(2) b(1) q(1)] b(3) q(3) by simp
    with that e b(1,2) q(1,2) show ?thesis
      by (simp add: edge_at_ok_def edge_row_ok_def described_graph_def Let_def num_nodes_def)
  qed
  then have "list_all (edge_at_ok (described_graph s)) [0..<length ?es] \<longleftrightarrow> list_all (edge_row_ok ?ns) ?es"
    by (auto simp: list_all_length)
  moreover have "length (edge_ids (described_graph s)) = length ?es" by (simp add: described_graph_def Let_def)
  ultimately show ?thesis
    using assms(1,2) by (auto simp: graph_validate_iff graph_ok_def graph_described_def described_graph_def Let_def)
qed

lemma active_market_graph_iff: "active_market_graph s = Inr g \<longleftrightarrow> graph_described s \<and> g = described_graph s"
proof -
  let ?ns = "active_node_names s" and ?es = "active_edge_rows s"
  have nodes: "fold_res add_active_node (ss_graph_node_forms s) (empty_graph, Map.empty) = Inr (g', m') \<longleftrightarrow>
      [] \<notin> set ?ns \<and> distinct ?ns \<and> g' = empty_graph\<lparr>node_ids := ?ns\<rparr> \<and> m' = index_map ?ns" for g' m'
    using active_nodes_fold [of "ss_graph_node_forms s" empty_graph g' m']
    by (simp add: active_node_names_def Let_def empty_graph_def index_map_def [abs_def])
  have edges: "fold_res (add_active_edge (index_map ?ns)) (ss_graph_edge_forms s) (empty_graph\<lparr>node_ids := ?ns\<rparr>) = Inr g' \<longleftrightarrow>
      list_all (\<lambda>e. trim (ge_edge_id e) \<noteq> [] \<and> trim (ge_base_node e) \<noteq> [] \<and> trim (ge_quote_node e) \<noteq> [] \<and>
        trim (ge_base_node e) \<in> set ?ns \<and> trim (ge_quote_node e) \<in> set ?ns) ?es \<and> g' = described_graph s" for g'
    by (simp add: active_edges_fold active_edge_rows_def described_graph_def Let_def empty_graph_def)
  have "active_market_graph s = Inr g \<longleftrightarrow> [] \<notin> set ?ns \<and> distinct ?ns \<and>
      list_all (\<lambda>e. trim (ge_edge_id e) \<noteq> [] \<and> trim (ge_base_node e) \<noteq> [] \<and> trim (ge_quote_node e) \<noteq> [] \<and>
        trim (ge_base_node e) \<in> set ?ns \<and> trim (ge_quote_node e) \<in> set ?ns) ?es \<and>
      graph_validate (described_graph s) False = Inr () \<and> g = described_graph s"
    by (auto simp: active_market_graph_def rbind_Inr_iff nodes edges)
  also have "\<dots> \<longleftrightarrow> graph_described s \<and> g = described_graph s" (is "?l \<longleftrightarrow> ?r")
  proof
    assume ?l
    then show ?r using described_graph_ok [of s] by (auto simp: list_all_iff)
  next
    assume r: ?r
    then have "[] \<notin> set ?ns" "distinct ?ns" "list_all (edge_row_ok ?ns) ?es"
      by (simp_all add: graph_described_def)
    moreover from this have "list_all (\<lambda>e. trim (ge_edge_id e) \<noteq> [] \<and> trim (ge_base_node e) \<noteq> [] \<and> trim (ge_quote_node e) \<noteq> [] \<and>
        trim (ge_base_node e) \<in> set ?ns \<and> trim (ge_quote_node e) \<in> set ?ns) ?es"
      by (auto simp: list_all_iff edge_row_ok_def)
    ultimately show ?l using described_graph_ok [of s] r by (auto simp: list_all_iff)
  qed
  finally show ?thesis .
qed

lemma add_edge_instrument_simps:
  "\<not> is_true (ge_active e) \<Longrightarrow> add_edge_instrument forms e out = Inr out"
  "is_true (ge_active e) \<Longrightarrow> List.find (matches_edge e) forms = Some f \<Longrightarrow> add_edge_instrument forms e out =
    Inr (if trim (ge_edge_id e) \<in> dom out then out else out(trim (ge_edge_id e) \<mapsto> form_signature f))"
  "is_true (ge_active e) \<Longrightarrow> List.find (matches_edge e) forms = None \<Longrightarrow> add_edge_instrument forms e out \<noteq> Inr m"
  by (simp_all add: add_edge_instrument_def Let_def)

lemma edge_instrument_fold:
  "fold_res (add_edge_instrument forms) rows m0 = Inr m \<longleftrightarrow>
    (let es = filter (\<lambda>e. is_true (ge_active e)) rows in
     list_all (\<lambda>e. list_ex (matches_edge e) forms) es \<and>
     m = map_of (map (\<lambda>e. (trim (ge_edge_id e), form_signature (the (List.find (matches_edge e) forms)))) es) ++ m0)"
proof (induction rows arbitrary: m0)
  case (Cons e rows)
  show ?case
  proof (cases "is_true (ge_active e)")
    case active: True
    have f: "List.find (matches_edge e) forms = None \<longleftrightarrow> \<not> list_ex (matches_edge e) forms"
      by (auto simp: find_None_iff list_ex_iff)
    have m: "m1 ++ (if k \<in> dom m0 then m0 else m0(k \<mapsto> v)) = m1(k \<mapsto> v) ++ m0" for m1 k and v :: instrument_signature
      by (rule ext) (auto simp: map_add_def split: option.splits)
    show ?thesis
    proof (cases "List.find (matches_edge e) forms")
      case None
      with f active add_edge_instrument_simps(3) [OF active None] show ?thesis by (simp add: rbind_Inr_iff)
    next
      case (Some matched)
      with f have "list_ex (matches_edge e) forms" by simp
      then show ?thesis
        using Cons.IH [of "if trim (ge_edge_id e) \<in> dom m0 then m0 else m0(trim (ge_edge_id e) \<mapsto> form_signature matched)"]
        by (simp only: fold_res.simps add_edge_instrument_simps(2) [OF active Some] Some rbind.simps filter.simps active if_True
          Let_def list.map map_of.simps prod.sel option.sel m list.pred_inject simp_thms)
    qed
  qed (simp add: add_edge_instrument_simps Cons.IH)
qed (auto simp: Let_def)

lemma active_edge_instrument_map_iff:
  "active_edge_instrument_map s = Inr m \<longleftrightarrow>
    list_all (\<lambda>e. list_ex (matches_edge e) (ss_source_forms s)) (active_edge_rows s) \<and>
    m = map_of (map (\<lambda>e. (trim (ge_edge_id e), form_signature (the (List.find (matches_edge e) (ss_source_forms s)))))
      (active_edge_rows s))"
  by (simp add: active_edge_instrument_map_def edge_instrument_fold active_edge_rows_def Let_def)

section \<open>The graph property\<close>

text \<open>
  C24: \<open>active_market_graph\<close> succeeds exactly when the active rows describe a graph: at least one active
  node and edge, ids that are not empty and not repeated, endpoints that are different active nodes. The
  graph then has the active nodes and edges in the order of their rows, and every edge runs between the
  positions of its endpoints.
\<close>

theorem active_market_graph_correct:
  "case active_market_graph s of
     Inr g \<Rightarrow> graph_described s \<and> node_ids g = active_node_names s \<and>
       edge_ids g = map (\<lambda>e. trim (ge_edge_id e)) (active_edge_rows s) \<and>
       map (\<lambda>b. node_ids g ! nat b) (base_index g) = map (\<lambda>e. trim (ge_base_node e)) (active_edge_rows s) \<and>
       map (\<lambda>q. node_ids g ! nat q) (quote_index g) = map (\<lambda>e. trim (ge_quote_node e)) (active_edge_rows s) \<and>
       graph_validate g False = Inr ()
   | Inl _ \<Rightarrow> \<not> graph_described s"
proof (cases "active_market_graph s")
  case (Inl e)
  then show ?thesis using active_market_graph_iff [of s "described_graph s"] by simp
next
  case (Inr g)
  then have d: "graph_described s" "g = described_graph s" using active_market_graph_iff by auto
  have "active_node_names s ! nat (the (index_map (active_node_names s) k)) = k" if "k \<in> set (active_node_names s)" for k
    using index_map_nth [OF that] by auto
  moreover have "trim (ge_base_node e) \<in> set (active_node_names s) \<and> trim (ge_quote_node e) \<in> set (active_node_names s)"
    if "e \<in> set (active_edge_rows s)" for e
    using d(1) that by (simp add: graph_described_def edge_row_ok_def list_all_iff)
  moreover have "graph_validate g False = Inr ()"
    using d described_graph_ok [of s] by (auto simp: graph_described_def edge_row_ok_def list_all_iff)
  ultimately show ?thesis using Inr d by (simp add: described_graph_def Let_def)
qed

end
