(* ===== verification/Source_Rules.thy ===== *)
theory Source_Rules
  imports Source_Contract
begin

text \<open>
  The rules of \<open>src/impl/ujcamei/source/contract/runtime/decode.cpp\<close>: the readers of numeric fields, the
  accepted words, and the validation of the channels, of the graph and of the source universe. A loop is
  a fold over the set it fills; the row that breaks a rule ends it with the exception of the source.
\<close>

section \<open>Numeric fields\<close>

text \<open>
  \<open>std::from_chars\<close> in base 10: digits, behind a minus sign for a signed type only; \<open>None\<close> when there
  is no digit or the number does not fit, otherwise the number and the text behind it.
\<close>

definition from_chars_i64 :: "string \<Rightarrow> (int \<times> string) option" where
  "from_chars_i64 s =
     (let neg = (s \<noteq> [] \<and> hd s = CHR ''-''); body = (if neg then tl s else s); ds = takeWhile is_digit body;
          n = int (digits_value 0 ds); v = (if neg then - n else n)
      in if ds = [] \<or> \<not> in_int64 v then None else Some (v, dropWhile is_digit body))"

definition from_chars_u64 :: "string \<Rightarrow> (int \<times> string) option" where
  "from_chars_u64 s =
     (let ds = takeWhile is_digit s; v = int (digits_value 0 ds)
      in if ds = [] \<or> v \<ge> 2 ^ 64 then None else Some (v, dropWhile is_digit s))"

definition field_error :: "string \<Rightarrow> string \<Rightarrow> string \<Rightarrow> 'a result" where
  "field_error row_label field v =
     Inl (RuntimeError (row_label @ '' has invalid '' @ field @ '' '' @ CHR 0x27 # v @ [CHR 0x27]))"

definition parse_i64_field :: "(int \<Rightarrow> bool) \<Rightarrow> string \<Rightarrow> string \<Rightarrow> string \<Rightarrow> int result" where
  "parse_i64_field accepted text field row_label =
     (let v = trim text in
      if v = [] then Inl (RuntimeError (row_label @ '' has empty '' @ field))
      else case from_chars_i64 v of
          None \<Rightarrow> field_error row_label field v
        | Some (parsed, rest) \<Rightarrow>
            if rest \<noteq> [] \<or> \<not> accepted parsed then field_error row_label field v else Inr parsed)"

definition parse_positive_i64_field :: "string \<Rightarrow> string \<Rightarrow> string \<Rightarrow> int result" where
  "parse_positive_i64_field = parse_i64_field (\<lambda>v. v > 0)"

definition parse_nonnegative_i64_field :: "string \<Rightarrow> string \<Rightarrow> string \<Rightarrow> int result" where
  "parse_nonnegative_i64_field = parse_i64_field (\<lambda>v. v \<ge> 0)"

definition parse_finite_double_field :: "string \<Rightarrow> string \<Rightarrow> string \<Rightarrow> rat result" where
  "parse_finite_double_field text field row_label =
     (let v = trim text in
      if v = [] then Inl (RuntimeError (row_label @ '' has empty '' @ field))
      else case strto_float double_format v of
          Some (Finite x) \<Rightarrow> Inr x
        | _ \<Rightarrow> field_error row_label field v)"

section \<open>Accepted words\<close>

definition valid_source_kind :: "string \<Rightarrow> bool" where
  "valid_source_kind s \<longleftrightarrow> trim s \<in> {''real'', ''synthetic'', ''derived''}"

definition valid_bool_text :: "string \<Rightarrow> bool" where
  "valid_bool_text s \<longleftrightarrow> trim s \<in> {''true'', ''false''}"

definition valid_channel_record_type :: "string \<Rightarrow> bool" where
  "valid_channel_record_type s \<longleftrightarrow> trim s \<in> {''kline'', ''trade'', ''basic''}"

definition supported_runtime_record_type :: "string \<Rightarrow> bool" where
  "supported_runtime_record_type s \<longleftrightarrow> trim s = ''kline''"

definition valid_normalization_policy :: "string \<Rightarrow> bool" where
  "valid_normalization_policy s \<longleftrightarrow> trim s \<in> {''none'', ''log_returns''}"

definition valid_graph_edge_resolution_policy :: "string \<Rightarrow> bool" where
  "valid_graph_edge_resolution_policy s \<longleftrightarrow> trim s \<in> {''explicit_only'', ''edge_discovery''}"

definition valid_graph_fetch_mode :: "string \<Rightarrow> bool" where
  "valid_graph_fetch_mode s \<longleftrightarrow> trim s \<in> {''serial'', ''parallel_by_edge''}"

definition channel_key :: "interval_type \<Rightarrow> string \<Rightarrow> string" where
  "channel_key interval record_type = interval_to_string interval @ CHR ''/'' # trim record_type"

section \<open>Channels\<close>

definition throw_runtime :: "string \<Rightarrow> 'a result" where
  "throw_runtime msg = Inl (RuntimeError msg)"

definition quoted :: "string \<Rightarrow> string" where
  "quoted s = CHR 0x27 # s @ [CHR 0x27]"

definition weight_is_one :: "rat \<Rightarrow> bool" where
  "weight_is_one w \<longleftrightarrow> \<not> \<bar>round_float double_format (w - 1)\<bar> > round_float double_format (1 / 10 ^ 12)"

definition check_channel :: "string set \<Rightarrow> channel_form \<Rightarrow> bool \<times> string set \<Rightarrow> (bool \<times> string set) result" where
  "check_channel source_channels channel = (\<lambda>(saw_active, declared).
     let key = channel_key (cf_interval channel) (cf_record_type channel);
         row_label = ''ujcamei.source.retrieval.channels row '' @ key;
         active = is_true (cf_active channel) in
     if \<not> valid_bool_text (cf_active channel) then
       throw_runtime (row_label @ '' has invalid active value '' @ quoted (cf_active channel))
     else if \<not> valid_channel_record_type (cf_record_type channel) then
       throw_runtime (row_label @ '' has invalid record_type '' @ quoted (cf_record_type channel))
     else if active \<and> \<not> supported_runtime_record_type (cf_record_type channel) then
       throw_runtime (row_label @ '' has active record_type '' @ quoted (cf_record_type channel) @
         '', but the current graph-first runtime supports only kline retrieval channels'')
     else if key \<in> declared then throw_runtime (''duplicate '' @ row_label)
     else
       rbind (parse_positive_i64_field (cf_input_length channel) ''input_length'' row_label) (\<lambda>_.
       rbind (parse_positive_i64_field (cf_future_length channel) ''future_length'' row_label) (\<lambda>_.
       rbind (parse_finite_double_field (cf_channel_weight channel) ''channel_weight'' row_label) (\<lambda>w.
       if \<not> weight_is_one w then
         throw_runtime (row_label @ '' has channel_weight other than 1.0, but weighted channel contribution is not implemented in v1'')
       else if \<not> valid_normalization_policy (cf_normalization_policy channel) then
         throw_runtime (row_label @ '' has invalid normalization_policy '' @ quoted (cf_normalization_policy channel))
       else if key \<notin> source_channels then
         throw_runtime (row_label @ '' has no matching interval/record_type in Ujcamei sources DSL'')
       else Inr (saw_active \<or> active, insert key declared)))))"

definition validate_source_channel_contract :: "source_spec \<Rightarrow> unit result" where
  "validate_source_channel_contract spec =
     (if ss_source_forms spec = [] then throw_runtime ''sources DSL must declare at least one source row''
      else if ss_channel_forms spec = [] then
        throw_runtime ''ujcamei.source.retrieval.channels DSL must declare at least one channel row''
      else
        let source_channels = set (map (\<lambda>f. channel_key (sf_interval f) (sf_record_type f)) (ss_source_forms spec)) in
        rbind (fold_res (check_channel source_channels) (ss_channel_forms spec) (False, {})) (\<lambda>(saw_active, _).
          if \<not> saw_active then
            throw_runtime ''ujcamei.source.retrieval.channels DSL must declare at least one active channel row''
          else Inr ()))"

section \<open>The graph\<close>

definition active_channel_rows :: "source_spec \<Rightarrow> channel_form list" where
  "active_channel_rows spec = filter (\<lambda>c. is_true (cf_active c)) (ss_channel_forms spec)"

definition check_graph_node :: "graph_node_form \<Rightarrow> string set \<Rightarrow> string set result" where
  "check_graph_node node active_nodes =
     (if \<not> valid_bool_text (gn_active node) then
        throw_runtime (''graph node '' @ gn_node_id node @ '' has invalid active value '' @ quoted (gn_active node))
      else if \<not> is_true (gn_active node) then Inr active_nodes
      else let node_id = trim (gn_node_id node); node_kind = trim (gn_node_kind node) in
        if node_id = [] then throw_runtime ''active graph node has empty node_id''
        else if node_kind \<noteq> ''asset'' then
          throw_runtime (''graph node '' @ node_id @ '' has unsupported node_kind '' @ quoted node_kind)
        else if node_id \<in> active_nodes then throw_runtime (''duplicate active graph node_id '' @ quoted node_id)
        else Inr (insert node_id active_nodes))"

text \<open>The rows a channel of an edge resolves to.\<close>

definition edge_channel_rows :: "source_spec \<Rightarrow> graph_edge_form \<Rightarrow> channel_form \<Rightarrow> source_form list" where
  "edge_channel_rows spec edge channel =
     filter (\<lambda>f. sf_interval f = cf_interval channel \<and>
       \<not> (trim (sf_instrument f) \<noteq> trim (ge_source_instrument edge) \<or> trim (sf_record_type f) \<noteq> trim (cf_record_type channel)))
       (ss_source_forms spec)"

definition check_edge_channel :: "source_spec \<Rightarrow> string \<Rightarrow> graph_edge_form \<Rightarrow> channel_form \<Rightarrow> unit \<Rightarrow> unit result" where
  "check_edge_channel spec edge_source_kind edge channel u =
     (let rows = edge_channel_rows spec edge channel; edge_id = trim (ge_edge_id edge) in
      if rows = [] then
        throw_runtime (''kikijyeba.topology.graph graph edge '' @ edge_id @ '' has no Ujcamei source row for an active channel'')
      else if length rows \<noteq> 1 then
        throw_runtime (''kikijyeba.topology.graph graph edge '' @ edge_id @
          '' has ambiguous Ujcamei source rows for an active channel'')
      else if trim (sf_base_asset (hd rows)) \<noteq> trim (ge_base_node edge) \<or>
          trim (sf_quote_asset (hd rows)) \<noteq> trim (ge_quote_node edge) then
        throw_runtime (''graph edge '' @ edge_id @ '' endpoint nodes do not match source row base/quote'')
      else if trim (sf_source_kind (hd rows)) \<noteq> edge_source_kind then
        throw_runtime (''graph edge '' @ edge_id @ '' must resolve to source rows with EDGE_SOURCE_KIND '' @ quoted edge_source_kind)
      else Inr ())"

definition check_graph_edge ::
  "source_spec \<Rightarrow> string \<Rightarrow> string set \<Rightarrow> graph_edge_form \<Rightarrow> string set \<Rightarrow> string set result"
where
  "check_graph_edge spec edge_source_kind active_nodes edge active_edges =
     (if \<not> valid_bool_text (ge_active edge) then
        throw_runtime (''graph edge '' @ ge_edge_id edge @ '' has invalid active value '' @ quoted (ge_active edge))
      else if \<not> is_true (ge_active edge) then Inr active_edges
      else
        let edge_id = trim (ge_edge_id edge); base_node = trim (ge_base_node edge);
            quote_node = trim (ge_quote_node edge); source_instrument = trim (ge_source_instrument edge) in
        if edge_id = [] \<or> base_node = [] \<or> quote_node = [] \<or> source_instrument = [] then
          throw_runtime ''active graph edge has empty id, endpoint, or source_instrument''
        else if edge_id \<in> active_edges then throw_runtime (''duplicate active graph edge_id '' @ quoted edge_id)
        else if edge_id \<noteq> source_instrument then
          throw_runtime (''graph edge '' @ edge_id @ '' must use matching source_instrument in v1'')
        else if base_node = quote_node then throw_runtime (''graph edge '' @ edge_id @ '' is a self edge'')
        else if base_node \<notin> active_nodes \<or> quote_node \<notin> active_nodes then
          throw_runtime (''graph edge '' @ edge_id @ '' references inactive or missing nodes'')
        else rbind (fold_res (check_edge_channel spec edge_source_kind edge) (active_channel_rows spec) ()) (\<lambda>_.
          Inr (insert edge_id active_edges)))"

definition validate_graph_contract :: "source_spec \<Rightarrow> unit result" where
  "validate_graph_contract spec =
     (if ss_graph_node_forms spec = [] \<and> ss_graph_edge_forms spec = [] then Inr ()
      else
        let edge_resolution_policy = trim (ss_graph_edge_resolution_policy spec);
            edge_source_kind = trim (ss_graph_edge_source_kind spec);
            fetch_mode = trim (ss_graph_fetch_mode spec);
            label = ''kikijyeba.topology.graph GRAPH_POLICY'' in
        if \<not> valid_graph_edge_resolution_policy edge_resolution_policy then
          throw_runtime (''kikijyeba.topology.graph DSL has invalid EDGE_RESOLUTION_POLICY '' @ quoted (ss_graph_edge_resolution_policy spec))
        else if \<not> valid_source_kind edge_source_kind then
          throw_runtime (''kikijyeba.topology.graph DSL has invalid EDGE_SOURCE_KIND '' @ quoted (ss_graph_edge_source_kind spec))
        else if \<not> valid_graph_fetch_mode fetch_mode then
          throw_runtime (''kikijyeba.topology.graph DSL has invalid FETCH_MODE '' @ quoted (ss_graph_fetch_mode spec))
        else
          rbind (parse_nonnegative_i64_field (ss_graph_max_fetch_workers spec) ''MAX_FETCH_WORKERS'' label) (\<lambda>_.
          rbind (parse_nonnegative_i64_field (ss_graph_parallel_min_work_items spec) ''PARALLEL_MIN_WORK_ITEMS'' label) (\<lambda>items.
          if items \<le> 0 then throw_runtime (label @ '' PARALLEL_MIN_WORK_ITEMS must be positive'')
          else rbind (fold_res check_graph_node (ss_graph_node_forms spec) {}) (\<lambda>active_nodes.
            if active_nodes = {} then throw_runtime ''kikijyeba.topology.graph DSL must declare at least one active node''
            else if active_channel_rows spec = [] then
              throw_runtime ''kikijyeba.topology.graph DSL requires at least one active channel''
            else rbind (fold_res (check_graph_edge spec edge_source_kind active_nodes) (ss_graph_edge_forms spec) {}) (\<lambda>active_edges.
              if active_edges = {} then
                (if edge_resolution_policy = ''edge_discovery'' then Inr ()
                 else throw_runtime ''kikijyeba.topology.graph DSL must declare at least one active edge'')
              else rbind (active_market_graph spec) (\<lambda>_. Inr ()))))))"

section \<open>The universe\<close>

definition check_source_row :: "source_form \<Rightarrow> unit \<Rightarrow> unit result" where
  "check_source_row f u =
     (case instrument_signature_validate (form_signature f) False (''source row '' @ sf_instrument f) of
        Inl e \<Rightarrow> throw_runtime e
      | Inr _ \<Rightarrow>
          if \<not> valid_source_kind (sf_source_kind f) then
            throw_runtime (''source row '' @ sf_instrument f @ '' has invalid source_kind '' @ quoted (sf_source_kind f))
          else Inr ())"

definition validate_source_universe :: "source_universe \<Rightarrow> unit result" where
  "validate_source_universe u =
     (let p = su_data_analytics_policy u in
      if su_source_forms u = [] then throw_runtime ''sources DSL must declare at least one source row''
      else if \<not> ap_declared p then throw_runtime ''DATA_ANALYTICS_POLICY block is required in sources DSL''
      else if ap_max_samples p \<le> 0 \<or> ap_max_features p \<le> 0 then
        throw_runtime ''DATA_ANALYTICS_POLICY requires MAX_SAMPLES and MAX_FEATURES > 0''
      else if float_less_zero (ap_mask_epsilon p) then throw_runtime ''DATA_ANALYTICS_POLICY.MASK_EPSILON must be >= 0''
      else if \<not> float_greater_zero (ap_standardize_epsilon p) then
        throw_runtime ''DATA_ANALYTICS_POLICY.STANDARDIZE_EPSILON must be > 0''
      else fold_res check_source_row (su_source_forms u) ())"


section \<open>Numeric fields, declaratively\<close>

lemma throw_runtime_simps [simp]: "throw_runtime m \<noteq> Inr x" "rbind (throw_runtime m) f = throw_runtime m"
  by (simp_all add: throw_runtime_def)

lemma field_error_simp [simp]: "field_error l f v \<noteq> Inr x"
  by (simp add: field_error_def)

lemma parse_i64_field_iff [res_simps]:
  "parse_i64_field acc t f l = Inr v \<longleftrightarrow> from_chars_i64 (trim t) = Some (v, []) \<and> acc v"
  by (auto simp: parse_i64_field_def Let_def from_chars_i64_def split: option.splits if_splits)

lemma parse_positive_iff [res_simps]:
  "parse_positive_i64_field t f l = Inr v \<longleftrightarrow> from_chars_i64 (trim t) = Some (v, []) \<and> v > 0"
  by (simp add: parse_positive_i64_field_def parse_i64_field_iff)

lemma parse_nonnegative_iff [res_simps]:
  "parse_nonnegative_i64_field t f l = Inr v \<longleftrightarrow> from_chars_i64 (trim t) = Some (v, []) \<and> v \<ge> 0"
  by (simp add: parse_nonnegative_i64_field_def parse_i64_field_iff)

lemma parse_finite_double_iff [res_simps]:
  "parse_finite_double_field t f l = Inr x \<longleftrightarrow> trim t \<noteq> [] \<and> strto_float double_format (trim t) = Some (Finite x)"
  by (auto simp: parse_finite_double_field_def Let_def split: option.splits c_float.splits)

text \<open>A text \<open>from_chars\<close> reads to its end: an optional minus sign and digits, in range.\<close>

lemma from_chars_full:
  "from_chars_i64 s = Some (v, []) \<longleftrightarrow>
    (\<exists>ds. (s = ds \<and> v = int (digits_value 0 ds) \<or> s = CHR ''-'' # ds \<and> v = - int (digits_value 0 ds)) \<and>
      ds \<noteq> [] \<and> list_all is_digit ds \<and> in_int64 v)"
proof (cases "s \<noteq> [] \<and> hd s = CHR ''-''")
  case True
  then obtain ds where s: "s = CHR ''-'' # ds" by (cases s) auto
  have "\<not> is_digit CHR ''-''" by (simp add: is_digit_def chr_code_def)
  then show ?thesis
    by (auto simp: from_chars_i64_def s Let_def list_all_iff takeWhile_eq_all_conv [THEN iffD2] dest: set_takeWhileD)
next
  case False
  have "takeWhile is_digit s = s" if "dropWhile is_digit s = []" using that by (simp add: takeWhile_eq_all_conv)
  with False show ?thesis
    by (auto simp: from_chars_i64_def Let_def list_all_iff takeWhile_eq_all_conv [THEN iffD2])
qed

text \<open>\<open>std::stoll\<close> reads the same number from a text with white space around it.\<close>

lemma trim_split: "\<exists>a b. s = a @ trim s @ b \<and> list_all is_space a \<and> list_all is_space b"
proof -
  let ?m = "dropWhile is_space s"
  have "s = takeWhile is_space s @ ?m" by simp
  moreover have "?m = trim s @ rev (takeWhile is_space (rev ?m))"
    using takeWhile_dropWhile_id [of is_space "rev ?m"] by (metis rev_append rev_rev_ident trim_def)
  ultimately have "s = takeWhile is_space s @ trim s @ rev (takeWhile is_space (rev ?m))" by simp
  then show ?thesis by (intro exI) (auto simp: list_all_iff dest: set_takeWhileD)
qed

lemma stoll_from_chars:
  assumes "from_chars_i64 (trim t) = Some (v, [])"
  shows "\<exists>used. stoll t = Inr (v, used)"
proof -
  obtain ds where s: "trim t = ds \<and> v = int (digits_value 0 ds) \<or> trim t = CHR ''-'' # ds \<and> v = - int (digits_value 0 ds)"
    and ds: "ds \<noteq> []" "list_all is_digit ds" "in_int64 v" using assms by (auto simp: from_chars_full)
  obtain a b where t: "t = a @ trim t @ b" "list_all is_space a" "list_all is_space b" using trim_split by blast
  have h: "trim t \<noteq> []" using s ds(1) by auto
  have "dropWhile is_space t = trim t @ b"
  proof -
    have "dropWhile is_space t = dropWhile is_space (trim t @ b)"
      using t by (metis dropWhile_append2 list_all_iff)
    also have "\<dots> = trim t @ b"
      using hd_trim [OF h] h by (cases "trim t") auto
    finally show ?thesis .
  qed
  moreover have "takeWhile is_digit (ds @ b) = ds"
    using ds(2) t(3) is_digit_not_space
    by (cases b) (auto simp: list_all_iff takeWhile_append takeWhile_eq_all_conv [THEN iffD2])
  moreover have "is_digit (hd ds)" using ds(1,2) by (cases ds) auto
  moreover from this have "read_sign (ds @ b) = (False, ds @ b)"
    using ds(1) digit_not_sign by (cases ds) (auto simp: read_sign_def)
  ultimately show ?thesis
    using s ds by (auto simp: stoll_def Let_def read_sign_def)
qed

section \<open>The channel contract\<close>

definition channel_ok :: "string set \<Rightarrow> channel_form \<Rightarrow> bool" where
  "channel_ok source_channels c \<longleftrightarrow>
     valid_bool_text (cf_active c) \<and> valid_channel_record_type (cf_record_type c) \<and>
     (is_true (cf_active c) \<longrightarrow> trim (cf_record_type c) = ''kline'') \<and>
     (\<exists>v > 0. from_chars_i64 (trim (cf_input_length c)) = Some (v, [])) \<and>
     (\<exists>v > 0. from_chars_i64 (trim (cf_future_length c)) = Some (v, [])) \<and>
     (\<exists>w. trim (cf_channel_weight c) \<noteq> [] \<and> strto_float double_format (trim (cf_channel_weight c)) = Some (Finite w) \<and> weight_is_one w) \<and>
     valid_normalization_policy (cf_normalization_policy c) \<and>
     channel_key (cf_interval c) (cf_record_type c) \<in> source_channels"

abbreviation key_of_channel :: "channel_form \<Rightarrow> string" where
  "key_of_channel c \<equiv> channel_key (cf_interval c) (cf_record_type c)"

definition channel_contract_ok :: "source_spec \<Rightarrow> bool" where
  "channel_contract_ok s \<longleftrightarrow>
     ss_source_forms s \<noteq> [] \<and> active_channel_rows s \<noteq> [] \<and>
     distinct (map key_of_channel (ss_channel_forms s)) \<and>
     list_all (channel_ok (set (map (\<lambda>f. channel_key (sf_interval f) (sf_record_type f)) (ss_source_forms s)))) (ss_channel_forms s)"

lemma check_channel_iff:
  "check_channel sc c (a, d) = Inr (a', d') \<longleftrightarrow>
    channel_ok sc c \<and> key_of_channel c \<notin> d \<and> a' = (a \<or> is_true (cf_active c)) \<and> d' = insert (key_of_channel c) d"
  by (auto simp: check_channel_def channel_ok_def Let_def supported_runtime_record_type_def res_simps)

lemma check_channels_iff:
  "fold_res (check_channel sc) cs (a, d) = Inr (a', d') \<longleftrightarrow>
    list_all (channel_ok sc) cs \<and> distinct (map key_of_channel cs) \<and> key_of_channel ` set cs \<inter> d = {} \<and>
    a' = (a \<or> list_ex (\<lambda>c. is_true (cf_active c)) cs) \<and> d' = key_of_channel ` set cs \<union> d"
proof (induction cs arbitrary: a d)
  case (Cons c cs)
  have "fold_res (check_channel sc) (c # cs) (a, d) = Inr (a', d') \<longleftrightarrow>
      channel_ok sc c \<and> key_of_channel c \<notin> d \<and>
      fold_res (check_channel sc) cs (a \<or> is_true (cf_active c), insert (key_of_channel c) d) = Inr (a', d')"
    by (auto simp: rbind_Inr_iff check_channel_iff split_paired_Ex)
  then show ?case by (auto simp: Cons.IH)
qed auto

lemma validate_channels_iff: "validate_source_channel_contract s = Inr u \<longleftrightarrow> channel_contract_ok s"
proof -
  have "list_ex (\<lambda>c. is_true (cf_active c)) (ss_channel_forms s) \<longleftrightarrow> active_channel_rows s \<noteq> []"
    by (auto simp: active_channel_rows_def list_ex_iff filter_empty_conv)
  moreover have "ss_channel_forms s = [] \<Longrightarrow> active_channel_rows s = []" by (simp add: active_channel_rows_def)
  ultimately show ?thesis
    by (auto simp: validate_source_channel_contract_def channel_contract_ok_def Let_def rbind_Inr_iff check_channels_iff)
qed

section \<open>The graph contract\<close>

definition node_row_ok :: "graph_node_form \<Rightarrow> bool" where
  "node_row_ok n \<longleftrightarrow> valid_bool_text (gn_active n) \<and>
     (is_true (gn_active n) \<longrightarrow> trim (gn_node_id n) \<noteq> [] \<and> trim (gn_node_kind n) = ''asset'')"

text \<open>An edge is resolved on a channel by exactly one row, with its endpoints and source kind.\<close>

definition edge_resolved :: "source_spec \<Rightarrow> string \<Rightarrow> graph_edge_form \<Rightarrow> channel_form \<Rightarrow> bool" where
  "edge_resolved s kind e c \<longleftrightarrow> (\<exists>f. edge_channel_rows s e c = [f] \<and>
     trim (sf_base_asset f) = trim (ge_base_node e) \<and> trim (sf_quote_asset f) = trim (ge_quote_node e) \<and>
     trim (sf_source_kind f) = kind)"

definition edge_contract_ok :: "source_spec \<Rightarrow> string \<Rightarrow> string set \<Rightarrow> graph_edge_form \<Rightarrow> bool" where
  "edge_contract_ok s kind ns e \<longleftrightarrow> valid_bool_text (ge_active e) \<and>
     (is_true (ge_active e) \<longrightarrow>
        trim (ge_edge_id e) \<noteq> [] \<and> trim (ge_edge_id e) = trim (ge_source_instrument e) \<and>
        trim (ge_base_node e) \<noteq> [] \<and> trim (ge_quote_node e) \<noteq> [] \<and>
        trim (ge_base_node e) \<noteq> trim (ge_quote_node e) \<and> trim (ge_base_node e) \<in> ns \<and> trim (ge_quote_node e) \<in> ns \<and>
        list_all (edge_resolved s kind e) (active_channel_rows s))"

definition graph_contract_ok :: "source_spec \<Rightarrow> bool" where
  "graph_contract_ok s \<longleftrightarrow>
     (ss_graph_node_forms s = [] \<and> ss_graph_edge_forms s = []) \<or>
     (valid_graph_edge_resolution_policy (ss_graph_edge_resolution_policy s) \<and>
      valid_source_kind (ss_graph_edge_source_kind s) \<and> valid_graph_fetch_mode (ss_graph_fetch_mode s) \<and>
      (\<exists>v \<ge> 0. from_chars_i64 (trim (ss_graph_max_fetch_workers s)) = Some (v, [])) \<and>
      (\<exists>v > 0. from_chars_i64 (trim (ss_graph_parallel_min_work_items s)) = Some (v, [])) \<and>
      list_all node_row_ok (ss_graph_node_forms s) \<and> distinct (active_node_names s) \<and> active_node_names s \<noteq> [] \<and>
      active_channel_rows s \<noteq> [] \<and>
      list_all (edge_contract_ok s (trim (ss_graph_edge_source_kind s)) (set (active_node_names s))) (ss_graph_edge_forms s) \<and>
      distinct (map (\<lambda>e. trim (ge_edge_id e)) (active_edge_rows s)) \<and>
      (active_edge_rows s = [] \<longrightarrow> trim (ss_graph_edge_resolution_policy s) = ''edge_discovery''))"

lemma check_nodes_iff:
  "fold_res check_graph_node ns d = Inr d' \<longleftrightarrow>
    list_all node_row_ok ns \<and>
    (let new = map (\<lambda>n. trim (gn_node_id n)) (filter (\<lambda>n. is_true (gn_active n)) ns) in
     distinct new \<and> set new \<inter> d = {} \<and> d' = set new \<union> d)"
proof (induction ns arbitrary: d)
  case (Cons n ns)
  have "check_graph_node n d = Inr d'' \<longleftrightarrow> node_row_ok n \<and>
      (if is_true (gn_active n) then trim (gn_node_id n) \<notin> d \<and> d'' = insert (trim (gn_node_id n)) d else d'' = d)" for d''
    by (auto simp: check_graph_node_def node_row_ok_def Let_def)
  then show ?case by (auto simp: rbind_Inr_iff Cons.IH Let_def)
qed (auto simp: Let_def)

lemma check_edge_channel_iff:
  "check_edge_channel s kind e c u = Inr v \<longleftrightarrow> edge_resolved s kind e c"
proof (cases "edge_channel_rows s e c")
  case (Cons f fs)
  then show ?thesis by (cases fs) (auto simp: check_edge_channel_def edge_resolved_def Let_def)
qed (simp add: check_edge_channel_def edge_resolved_def)

lemma check_edge_channels_iff:
  "fold_res (check_edge_channel s kind e) cs u = Inr v \<longleftrightarrow> list_all (edge_resolved s kind e) cs"
  by (induction cs arbitrary: u) (simp_all add: rbind_Inr_iff check_edge_channel_iff)

lemma check_graph_edge_iff:
  "check_graph_edge s kind ns e d = Inr d' \<longleftrightarrow> edge_contract_ok s kind ns e \<and>
    (if is_true (ge_active e) then trim (ge_edge_id e) \<notin> d \<and> d' = insert (trim (ge_edge_id e)) d else d' = d)"
  by (auto simp: check_graph_edge_def edge_contract_ok_def Let_def rbind_Inr_iff check_edge_channels_iff)

lemma check_edges_iff':
  "fold_res (check_graph_edge s kind ns) es d = Inr d' \<longleftrightarrow>
    list_all (edge_contract_ok s kind ns) es \<and>
    (let new = map (\<lambda>e. trim (ge_edge_id e)) (filter (\<lambda>e. is_true (ge_active e)) es) in
     distinct new \<and> set new \<inter> d = {} \<and> d' = set new \<union> d)"
proof (induction es arbitrary: d)
  case (Cons e es)
  show ?case by (auto simp: rbind_Inr_iff check_graph_edge_iff Cons.IH Let_def)
qed (auto simp: Let_def)


lemma graph_contract_described:
  assumes "graph_contract_ok s" "active_edge_rows s \<noteq> []"
  shows "graph_described s"
proof -
  have "ss_graph_edge_forms s \<noteq> []" using assms(2) by (auto simp: active_edge_rows_def)
  with assms(1) have g: "list_all node_row_ok (ss_graph_node_forms s)" "distinct (active_node_names s)" "active_node_names s \<noteq> []"
    "list_all (edge_contract_ok s (trim (ss_graph_edge_source_kind s)) (set (active_node_names s))) (ss_graph_edge_forms s)"
    "distinct (map (\<lambda>e. trim (ge_edge_id e)) (active_edge_rows s))"
    by (auto simp: graph_contract_ok_def)
  have "[] \<notin> set (active_node_names s)" using g(1) by (auto simp: active_node_names_def node_row_ok_def list_all_iff)
  moreover have "list_all (edge_row_ok (active_node_names s)) (active_edge_rows s)"
    using g(4) by (auto simp: active_edge_rows_def edge_row_ok_def edge_contract_ok_def list_all_iff)
  ultimately show ?thesis using g assms(2) by (simp add: graph_described_def)
qed

lemma validate_graph_iff: "validate_graph_contract s = Inr () \<longleftrightarrow> graph_contract_ok s"
proof (cases "ss_graph_node_forms s = [] \<and> ss_graph_edge_forms s = []")
  case True
  then show ?thesis by (simp add: validate_graph_contract_def graph_contract_ok_def)
next
  case False
  let ?kind = "trim (ss_graph_edge_source_kind s)" and ?ns = "set (active_node_names s)"
  have t: "valid_graph_edge_resolution_policy (trim x) = valid_graph_edge_resolution_policy x"
    "valid_source_kind (trim x) = valid_source_kind x" "valid_graph_fetch_mode (trim x) = valid_graph_fetch_mode x" for x
    by (simp_all add: valid_graph_edge_resolution_policy_def valid_source_kind_def valid_graph_fetch_mode_def)
  have nodes: "fold_res check_graph_node (ss_graph_node_forms s) {} = Inr d \<longleftrightarrow>
      list_all node_row_ok (ss_graph_node_forms s) \<and> distinct (active_node_names s) \<and> d = ?ns" for d
    by (simp add: check_nodes_iff active_node_names_def Let_def)
  have edges: "fold_res (check_graph_edge s ?kind ?ns) (ss_graph_edge_forms s) {} = Inr d \<longleftrightarrow>
      list_all (edge_contract_ok s ?kind ?ns) (ss_graph_edge_forms s) \<and>
      distinct (map (\<lambda>e. trim (ge_edge_id e)) (active_edge_rows s)) \<and> d = set (map (\<lambda>e. trim (ge_edge_id e)) (active_edge_rows s))" for d
    by (simp add: check_edges_iff' active_edge_rows_def Let_def)
  have "validate_graph_contract s = Inr () \<longleftrightarrow> graph_contract_ok s \<and> (active_edge_rows s = [] \<or> (\<exists>g. active_market_graph s = Inr g))"
    using False
    by (auto simp: validate_graph_contract_def graph_contract_ok_def Let_def rbind_Inr_iff res_simps t nodes edges split: if_splits)
      (metis not_le)+
  also have "\<dots> \<longleftrightarrow> graph_contract_ok s"
    using graph_contract_described active_market_graph_iff by blast
  finally show ?thesis .
qed

section \<open>What a validated contract guarantees\<close>

lemma validated_edge:
  assumes "graph_contract_ok s" "e \<in> set (active_edge_rows s)"
  shows "edge_contract_ok s (trim (ss_graph_edge_source_kind s)) (set (active_node_names s)) e \<and> is_true (ge_active e) \<and>
    active_channel_rows s \<noteq> []"
  using assms by (auto simp: active_edge_rows_def graph_contract_ok_def list_all_iff)

text \<open>The row the instrument of an edge is taken from.\<close>

lemma validated_edge_matched:
  assumes "graph_contract_ok s" "e \<in> set (active_edge_rows s)"
  obtains f where "List.find (matches_edge e) (ss_source_forms s) = Some f"
    "trim (sf_instrument f) = trim (ge_edge_id e)" "trim (sf_base_asset f) = trim (ge_base_node e)"
    "trim (sf_quote_asset f) = trim (ge_quote_node e)"
proof -
  note e = validated_edge [OF assms]
  then obtain c where "c \<in> set (active_channel_rows s)" by (meson list.set_sel(1))
  with e have "edge_resolved s (trim (ss_graph_edge_source_kind s)) e c"
    by (auto simp: edge_contract_ok_def list_all_iff)
  then obtain f where f: "edge_channel_rows s e c = [f]" "trim (sf_base_asset f) = trim (ge_base_node e)"
    "trim (sf_quote_asset f) = trim (ge_quote_node e)" by (auto simp: edge_resolved_def)
  have "f \<in> set (edge_channel_rows s e c)" by (simp add: f(1))
  then have "f \<in> set (ss_source_forms s)" "trim (sf_instrument f) = trim (ge_source_instrument e)"
    unfolding edge_channel_rows_def by simp_all
  with f have "f \<in> set (ss_source_forms s)" "matches_edge e f"
    by (simp_all add: matches_edge_def)
  then obtain f' where f': "List.find (matches_edge e) (ss_source_forms s) = Some f'"
    by (cases "List.find (matches_edge e) (ss_source_forms s)") (auto simp: find_None_iff)
  then have "matches_edge e f'" using find_Some_D by fast
  with e have "trim (sf_instrument f') = trim (ge_edge_id e)" "trim (sf_base_asset f') = trim (ge_base_node e)"
    "trim (sf_quote_asset f') = trim (ge_quote_node e)"
    by (simp_all add: matches_edge_def edge_contract_ok_def)
  with f' show thesis by (rule that)
qed

lemma validated_instruments:
  assumes "graph_contract_ok s"
  obtains m where "active_edge_instrument_map s = Inr m"
    "\<And>e. e \<in> set (active_edge_rows s) \<Longrightarrow> \<exists>f. m (trim (ge_edge_id e)) = Some (form_signature f) \<and> f \<in> set (ss_source_forms s) \<and>
      trim (sf_instrument f) = trim (ge_edge_id e) \<and> trim (sf_base_asset f) = trim (ge_base_node e) \<and>
      trim (sf_quote_asset f) = trim (ge_quote_node e)"
proof -
  let ?row = "\<lambda>e. (trim (ge_edge_id e), form_signature (the (List.find (matches_edge e) (ss_source_forms s))))"
  let ?m = "map_of (map ?row (active_edge_rows s))"
  have "list_ex (matches_edge e) (ss_source_forms s)" if "e \<in> set (active_edge_rows s)" for e
    using validated_edge_matched [OF assms that] by (metis find_Some_D list_ex_iff)
  then have "active_edge_instrument_map s = Inr ?m"
    by (simp add: active_edge_instrument_map_iff list_all_iff)
  moreover have "\<exists>f. ?m (trim (ge_edge_id e)) = Some (form_signature f) \<and> f \<in> set (ss_source_forms s) \<and>
      trim (sf_instrument f) = trim (ge_edge_id e) \<and> trim (sf_base_asset f) = trim (ge_base_node e) \<and>
      trim (sf_quote_asset f) = trim (ge_quote_node e)" if e: "e \<in> set (active_edge_rows s)" for e
  proof -
    obtain f where f: "List.find (matches_edge e) (ss_source_forms s) = Some f"
      "trim (sf_instrument f) = trim (ge_edge_id e)" "trim (sf_base_asset f) = trim (ge_base_node e)"
      "trim (sf_quote_asset f) = trim (ge_quote_node e)" using validated_edge_matched [OF assms e] .
    have "ss_graph_edge_forms s \<noteq> []" using e by (auto simp: active_edge_rows_def)
    with assms have "distinct (map fst (map ?row (active_edge_rows s)))"
      by (auto simp: graph_contract_ok_def o_def)
    moreover have "(trim (ge_edge_id e), form_signature f) \<in> set (map ?row (active_edge_rows s))"
      using e f(1) by (force simp: image_iff)
    ultimately have "?m (trim (ge_edge_id e)) = Some (form_signature f)"
      by (rule map_of_is_SomeI)
    with f find_Some_D [OF f(1)] show ?thesis by blast
  qed
  ultimately show thesis by (rule that)
qed

text \<open>The longest of the active channels: what the validation read is what the queries read.\<close>

definition length_value :: "string \<Rightarrow> int" where
  "length_value t = (case from_chars_i64 (trim t) of Some (v, r) \<Rightarrow> v | None \<Rightarrow> 0)"

lemma max_length_fold:
  assumes "\<And>c. c \<in> set cs \<Longrightarrow> \<exists>v > 0. from_chars_i64 (trim (field c)) = Some (v, [])"
  shows "fold (max_length_step field) cs m =
    fold max (map (\<lambda>c. length_value (field c)) (filter (\<lambda>c. cf_active c = ''true'') cs)) m"
  using assms
proof (induction cs arbitrary: m)
  case (Cons c cs)
  then obtain v where v: "v > 0" "from_chars_i64 (trim (field c)) = Some (v, [])" by auto
  obtain used where "stoll (field c) = Inr (v, used)" using stoll_from_chars [OF v(2)] by blast
  with v Cons show ?case by (simp add: max_length_step_def length_value_def max_def)
qed simp

section \<open>The numeric property\<close>

text \<open>
  A positive number field is read exactly. The reader accepts a text if and only if, without the
  blanks around it, it is a row of decimal digits whose value is at least 1 and fits a signed 64-bit
  integer, and it returns that value: no sign, no rest, no wrap-around.
\<close>

theorem positive_field_exact:
  "parse_positive_i64_field text field row_label = Inr v \<longleftrightarrow>
    trim text \<noteq> [] \<and> list_all is_digit (trim text) \<and> v = int (digits_value 0 (trim text)) \<and> 0 < v \<and> v < 2 ^ 63"
proof -
  have "parse_positive_i64_field text field row_label = Inr v \<longleftrightarrow>
      trim text \<noteq> [] \<and> from_chars_i64 (trim text) = Some (v, []) \<and> 0 < v"
    by (auto simp: parse_positive_i64_field_def parse_i64_field_def Let_def field_error_def split: option.splits if_splits)
  moreover have "from_chars_i64 t = Some (v, []) \<and> 0 < v \<longleftrightarrow>
      t \<noteq> [] \<and> list_all is_digit t \<and> v = int (digits_value 0 t) \<and> 0 < v \<and> v < 2 ^ 63" for t
    unfolding from_chars_full by (auto simp: int64_defs)
  ultimately show ?thesis by blast
qed

section \<open>The contract property\<close>

text \<open>
  C6: a source specification that passes the validation of its channels and of its graph and has an
  active edge is good for its queries: the market graph and the instruments of its edges exist, every
  edge of the graph has the signature of a source row whose instrument, base and quote are the edge's
  own, and each active edge is fed on each active channel by exactly one row, of the graph's source kind.
\<close>

theorem validated_contract_answers:
  assumes "validate_source_channel_contract s = Inr ()" "validate_graph_contract s = Inr ()" "active_edge_rows s \<noteq> []"
  shows "\<exists>g m. active_market_graph s = Inr g \<and> active_edge_instrument_map s = Inr m \<and>
    edge_ids g = map (\<lambda>e. trim (ge_edge_id e)) (active_edge_rows s) \<and> active_channel_rows s \<noteq> [] \<and>
    (\<forall>e \<in> set (active_edge_rows s).
      (\<exists>f \<in> set (ss_source_forms s). m (trim (ge_edge_id e)) = Some (form_signature f) \<and>
        trim (sf_instrument f) = trim (ge_edge_id e) \<and> trim (sf_base_asset f) = trim (ge_base_node e) \<and>
        trim (sf_quote_asset f) = trim (ge_quote_node e)) \<and>
      (\<forall>c \<in> set (active_channel_rows s). edge_resolved s (trim (ss_graph_edge_source_kind s)) e c))"
proof -
  have ok: "graph_contract_ok s" "channel_contract_ok s"
    using assms by (simp_all add: validate_graph_iff validate_channels_iff)
  obtain m where m: "active_edge_instrument_map s = Inr m"
    "\<And>e. e \<in> set (active_edge_rows s) \<Longrightarrow> \<exists>f. m (trim (ge_edge_id e)) = Some (form_signature f) \<and> f \<in> set (ss_source_forms s) \<and>
      trim (sf_instrument f) = trim (ge_edge_id e) \<and> trim (sf_base_asset f) = trim (ge_base_node e) \<and>
      trim (sf_quote_asset f) = trim (ge_quote_node e)" by (rule validated_instruments [OF ok(1)]) blast
  have "active_market_graph s = Inr (described_graph s)"
    using graph_contract_described [OF ok(1) assms(3)] by (simp add: active_market_graph_iff)
  moreover have "edge_ids (described_graph s) = map (\<lambda>e. trim (ge_edge_id e)) (active_edge_rows s)"
    by (simp add: described_graph_def Let_def)
  moreover have "edge_resolved s (trim (ss_graph_edge_source_kind s)) e c"
    if "e \<in> set (active_edge_rows s)" "c \<in> set (active_channel_rows s)" for e c
    using validated_edge [OF ok(1) that(1)] that(2) by (auto simp: edge_contract_ok_def list_all_iff)
  moreover have "active_channel_rows s \<noteq> []" using ok(2) by (simp add: channel_contract_ok_def)
  ultimately show ?thesis using m by blast
qed

definition example_source_spec :: source_spec where
  "example_source_spec = default_source_spec\<lparr>
     ss_source_forms := [default_source_form\<lparr>sf_instrument := ''BTCUSDT'', sf_interval := interval_1d, sf_record_type := ''kline'',
       sf_source_kind := ''real'', sf_base_asset := ''BTC'', sf_quote_asset := ''USDT'', sf_source := ''/d''\<rparr>],
     ss_channel_forms := [\<lparr>cf_interval = interval_1d, cf_active = ''true'', cf_record_type = ''kline'', cf_input_length = ''30'',
       cf_future_length = ''1'', cf_channel_weight = ''1.0'', cf_normalization_policy = ''none''\<rparr>],
     ss_graph_node_forms := [\<lparr>gn_node_id = ''BTC'', gn_node_kind = ''asset'', gn_active = ''true''\<rparr>,
       \<lparr>gn_node_id = ''USDT'', gn_node_kind = ''asset'', gn_active = ''true''\<rparr>],
     ss_graph_edge_forms := [\<lparr>ge_edge_id = ''BTCUSDT'', ge_base_node = ''BTC'', ge_quote_node = ''USDT'',
       ge_source_instrument = ''BTCUSDT'', ge_active = ''true''\<rparr>],
     ss_graph_edge_resolution_policy := ''explicit_only'', ss_graph_edge_source_kind := ''real'', ss_graph_fetch_mode := ''serial'',
     ss_graph_max_fetch_workers := ''4'', ss_graph_parallel_min_work_items := ''2''\<rparr>"

lemmas example_rows = active_channel_rows_def active_edge_rows_def active_node_names_def

lemma example_source_spec_ok:
  "channel_contract_ok example_source_spec" "graph_contract_ok example_source_spec" "active_edge_rows example_source_spec \<noteq> []"
proof -
  let ?s = example_source_spec
  have words: "trim ''1.0'' = ''1.0''" "trim ''30'' = ''30''" "trim ''1'' = ''1''" "trim ''4'' = ''4''" "trim ''2'' = ''2''"
    "trim ''true'' = ''true''" "trim ''kline'' = ''kline''" "trim ''none'' = ''none''" "trim ''real'' = ''real''"
    "trim ''BTC'' = ''BTC''" "trim ''USDT'' = ''USDT''" "trim ''BTCUSDT'' = ''BTCUSDT''" "trim ''asset'' = ''asset''"
    "trim ''explicit_only'' = ''explicit_only''" "trim ''serial'' = ''serial''" by code_simp+
  have numbers: "from_chars_i64 ''30'' = Some (30, [])" "from_chars_i64 ''1'' = Some (1, [])"
    "from_chars_i64 ''4'' = Some (4, [])" "from_chars_i64 ''2'' = Some (2, [])" by code_simp+
  have weight: "strto_float double_format ''1.0'' = Some (Finite 1)" by (rule strto_float_one; code_simp)
  have one: "weight_is_one 1"
    using round_float_nonneg [of "1 / 10 ^ 12" double_format] by (simp add: weight_is_one_def round_float_def [of _ 0] not_less)
  have active: "is_true ''true''" by code_simp
  show "active_edge_rows ?s \<noteq> []" by (simp add: example_source_spec_def example_rows active)
  have "list_all (channel_ok {channel_key interval_1d ''kline''}) (ss_channel_forms ?s)"
    by (simp add: example_source_spec_def channel_ok_def valid_bool_text_def valid_channel_record_type_def
      valid_normalization_policy_def words numbers weight one)
  then show "channel_contract_ok ?s"
    by (simp add: channel_contract_ok_def example_source_spec_def example_rows active default_source_form_def)
  show "graph_contract_ok ?s"
    by (simp add: graph_contract_ok_def example_source_spec_def example_rows active words numbers node_row_ok_def
      edge_contract_ok_def edge_resolved_def edge_channel_rows_def default_source_form_def valid_bool_text_def valid_source_kind_def
      valid_graph_edge_resolution_policy_def valid_graph_fetch_mode_def)
qed

theorem validated_contract_answers_witness:
  "\<exists>g m. active_market_graph example_source_spec = Inr g \<and> active_edge_instrument_map example_source_spec = Inr m"
  using validated_contract_answers [of example_source_spec] example_source_spec_ok
  by (auto simp: validate_channels_iff validate_graph_iff)

end
