(* ===== verification/Source_Decoders.thy ===== *)
theory Source_Decoders
  imports Source_Rules
begin

text \<open>
  \<open>src/impl/ujcamei/source/retrieval/retrieval_channel_decoder.cpp\<close>,
  \<open>src/impl/ujcamei/source/registry/source_registry_decoder.cpp\<close> and the decoding of the split DSL in
  \<open>src/impl/ujcamei/source/contract/runtime/decode.cpp\<close>: from the texts of three grammars and three
  instructions to a validated source contract. The visitors throw: their data is a result, and nothing
  is visited behind an exception.
\<close>

section \<open>Channels\<close>

text \<open>\<open>try { string_to_enum(value) } catch (...)\<close> on a trimmed text.\<close>

definition interval_or_error :: "string \<Rightarrow> string \<Rightarrow> interval_type result" where
  "interval_or_error v field_name =
     (if v = [] then throw_runtime (''missing value for '' @ field_name)
      else case interval_from_string v of
          Inl e \<Rightarrow> throw_runtime (''invalid interval for '' @ field_name @ '': '' @ v)
        | Inr i \<Rightarrow> Inr i)"

definition channel_interval_strict :: "string \<Rightarrow> string \<Rightarrow> interval_type result" where
  "channel_interval_strict text field_name = interval_or_error (trim_spaces_tabs text) field_name"

definition collect_texts :: "u64 \<Rightarrow> ast_node option \<Rightarrow> string list" where
  "collect_texts h n = (case n of None \<Rightarrow> [] | Some n \<Rightarrow> collect_node_texts_by_hash h n [])"

definition channel_set_base :: "ast_node \<Rightarrow> channel_form result" where
  "channel_set_base node =
     rbind (required_assignment_value node (source_hash ''channel_set_active_assignment'') (source_hash ''active'') ''CHANNEL_SET.ACTIVE'') (\<lambda>active.
     rbind (required_assignment_value node (source_hash ''channel_set_record_type_assignment'') (source_hash ''record_type'') ''CHANNEL_SET.RECORD_TYPE'') (\<lambda>record_type.
     rbind (required_assignment_value node (source_hash ''channel_set_input_length_assignment'') (source_hash ''input_length'') ''CHANNEL_SET.INPUT_LENGTH'') (\<lambda>input_length.
     rbind (required_assignment_value node (source_hash ''channel_set_future_length_assignment'') (source_hash ''future_length'') ''CHANNEL_SET.FUTURE_LENGTH'') (\<lambda>future_length.
     rbind (required_assignment_value node (source_hash ''channel_set_weight_assignment'') (source_hash ''channel_weight'') ''CHANNEL_SET.CHANNEL_WEIGHT'') (\<lambda>channel_weight.
     rbind (required_assignment_value node (source_hash ''channel_set_normalization_assignment'') (source_hash ''normalization_policy'') ''CHANNEL_SET.NORMALIZATION_POLICY'') (\<lambda>normalization_policy.
       Inr \<lparr>cf_interval = utility_constant, cf_active = active, cf_record_type = record_type, cf_input_length = input_length,
         cf_future_length = future_length, cf_channel_weight = channel_weight,
         cf_normalization_policy = normalization_policy\<rparr>))))))"

definition append_channel_set :: "ast_node \<Rightarrow> source_spec \<Rightarrow> source_spec result" where
  "append_channel_set node out =
     rbind (channel_set_base node) (\<lambda>base.
       let intervals = collect_texts (source_hash ''interval'')
             (as_intermediary (find_direct_child_by_hash (Some node) (source_hash ''channel_set_intervals_assignment''))) in
       if intervals = [] then throw_runtime ''CHANNEL_SET.INTERVALS must not be empty''
       else rbind (map_res (\<lambda>interval. rbind (channel_interval_strict interval ''CHANNEL_SET.INTERVALS'') (\<lambda>i.
           Inr (base\<lparr>cf_interval := i\<rparr>))) intervals) (\<lambda>rows.
         Inr (out\<lparr>ss_channel_forms := ss_channel_forms out @ rows\<rparr>)))"

definition decode_channel_form :: "ast_node \<Rightarrow> channel_form result" where
  "decode_channel_form node =
     (let text = (\<lambda>token. child_text (Some node) (source_hash token)) in
      rbind (channel_interval_strict (text ''interval'') ''channel row interval'') (\<lambda>i.
        Inr \<lparr>cf_interval = i, cf_active = text ''active'', cf_record_type = text ''record_type'',
          cf_input_length = text ''input_length'', cf_future_length = text ''future_length'',
          cf_channel_weight = text ''channel_weight'', cf_normalization_policy = text ''normalization_policy''\<rparr>))"

definition visit_channel_node :: "ast_node \<Rightarrow> source_spec \<Rightarrow> source_spec result" where
  "visit_channel_node n out = (case n of
       RootNode l cs \<Rightarrow> Inr out
     | IntermediaryNode a cs \<Rightarrow>
         let h = node_hash n in
         if h = source_hash ''channel_table'' then Inr out
         else if h = source_hash ''channel_set_block'' then append_channel_set n out
         else if h = source_hash ''channel_form'' then
           rbind (decode_channel_form n) (\<lambda>f. Inr (out\<lparr>ss_channel_forms := ss_channel_forms out @ [f]\<rparr>))
         else Inr out
     | TerminalNode l u \<Rightarrow> Inr out)"

text \<open>The walk of a visitor that may throw; the result of the decode is the data it leaves.\<close>

definition accept_throwing :: "(ast_node \<Rightarrow> 'd \<Rightarrow> 'd result) \<Rightarrow> ast_node \<Rightarrow> 'd \<Rightarrow> 'd result" where
  "accept_throwing f t d =
     vc_user_data (accept_node (visit_with (\<lambda>n r. rbind r (f n))) t \<lparr>vc_user_data = Inr d, vc_stack = []\<rparr>)"

definition lift_result :: "'a result \<Rightarrow> instruction_parser \<Rightarrow> 'a run" where
  "lift_result r q = (case r of Inl e \<Rightarrow> throw_run e | Inr x \<Rightarrow> ret x q)"

definition decode_retrieval_channels :: "nat \<Rightarrow> string \<Rightarrow> instruction_parser \<Rightarrow> source_spec run" where
  "decode_retrieval_channels fuel instruction p =
     run_bind (parse_instruction fuel instruction p) (\<lambda>t q.
       lift_result (accept_throwing visit_channel_node t default_source_spec) q)"

section \<open>The source registry\<close>

record source_registry_decode_context =
  rc_spec :: source_spec
  rc_default_source_root :: string
  rc_default_kline_intervals :: "string list"

definition parse_u64_strict :: "string \<Rightarrow> string \<Rightarrow> int result" where
  "parse_u64_strict text field_name =
     (let v = trim text in
      if v = [] then throw_runtime (''missing value for '' @ field_name)
      else case from_chars_u64 v of
          Some (parsed, []) \<Rightarrow> Inr parsed
        | _ \<Rightarrow> throw_runtime (''invalid integer for '' @ field_name @ '': '' @ v))"

definition parse_long_double_strict :: "string \<Rightarrow> string \<Rightarrow> c_float result" where
  "parse_long_double_strict text field_name =
     (let v = trim text in
      if v = [] then throw_runtime (''missing value for '' @ field_name)
      else case strto_float long_double_format v of
          Some x \<Rightarrow> Inr x
        | None \<Rightarrow> throw_runtime (''invalid float for '' @ field_name @ '': '' @ v))"

definition source_interval_strict :: "string \<Rightarrow> string \<Rightarrow> interval_type result" where
  "source_interval_strict text field_name = interval_or_error (trim text) field_name"

function strip_trailing_slashes :: "string \<Rightarrow> string" where
  "strip_trailing_slashes root_path =
     (if length root_path > 1 \<and> last root_path = CHR ''/'' then strip_trailing_slashes (butlast root_path) else root_path)"
  by pat_completeness auto
termination by (relation "measure length") auto

declare strip_trailing_slashes.simps [simp del]

definition make_kline_source_path :: "string \<Rightarrow> string \<Rightarrow> string \<Rightarrow> string" where
  "make_kline_source_path root_path instrument interval =
     strip_trailing_slashes (trim root_path) @ ''/'' @ instrument @ ''/'' @ interval @ ''/'' @ instrument @ ''-'' @ interval @ ''-all-years.csv''"

definition registry_source_defaults_block :: "ast_node \<Rightarrow> ast_node option result" where
  "registry_source_defaults_block root_path =
     (case collect_intermediary_nodes_by_hash (source_hash ''source_defaults_block'') root_path [] of
        [] \<Rightarrow> Inr None
      | [b] \<Rightarrow> Inr (Some b)
      | _ \<Rightarrow> throw_runtime ''SOURCE_DEFAULTS must be declared at most once'')"

definition registry_default_source_root :: "ast_node option \<Rightarrow> string result" where
  "registry_default_source_root block = (case block of None \<Rightarrow> Inr []
     | Some b \<Rightarrow> required_assignment_value b (source_hash ''default_source_root_assignment'') (source_hash ''source_root_path'')
         ''SOURCE_DEFAULTS.SOURCE_ROOT'')"

definition registry_default_kline_intervals :: "ast_node option \<Rightarrow> string list result" where
  "registry_default_kline_intervals block = (case block of None \<Rightarrow> Inr []
     | Some b \<Rightarrow> (case as_intermediary (find_direct_child_by_hash (Some b) (source_hash ''default_kline_intervals_assignment'')) of
           None \<Rightarrow> Inr []
         | Some a \<Rightarrow> let intervals = collect_texts (source_hash ''interval'') (Some a) in
             if intervals = [] then throw_runtime ''SOURCE_DEFAULTS.KLINE_INTERVALS must not be empty when declared''
             else Inr intervals))"

definition kline_set_base :: "ast_node \<Rightarrow> source_form result" where
  "kline_set_base node =
     rbind (required_assignment_value node (source_hash ''kline_source_instrument_assignment'') (source_hash ''instrument'') ''KLINE_SOURCE_SET.INSTRUMENT'') (\<lambda>instrument.
     rbind (required_assignment_value node (source_hash ''kline_source_market_type_assignment'') (source_hash ''market_type'') ''KLINE_SOURCE_SET.MARKET_TYPE'') (\<lambda>market_type.
     rbind (required_assignment_value node (source_hash ''kline_source_venue_assignment'') (source_hash ''venue'') ''KLINE_SOURCE_SET.VENUE'') (\<lambda>venue.
     rbind (required_assignment_value node (source_hash ''kline_source_base_asset_assignment'') (source_hash ''base_asset'') ''KLINE_SOURCE_SET.BASE_ASSET'') (\<lambda>base_asset.
     rbind (required_assignment_value node (source_hash ''kline_source_quote_asset_assignment'') (source_hash ''quote_asset'') ''KLINE_SOURCE_SET.QUOTE_ASSET'') (\<lambda>quote_asset.
     rbind (required_assignment_value node (source_hash ''kline_source_kind_assignment'') (source_hash ''source_kind'') ''KLINE_SOURCE_SET.SOURCE_KIND'') (\<lambda>source_kind.
       Inr (default_source_form\<lparr>sf_instrument := instrument, sf_record_type := ''kline'', sf_market_type := market_type,
         sf_venue := venue, sf_base_asset := base_asset, sf_quote_asset := quote_asset, sf_source_kind := source_kind\<rparr>)))))))"

definition check_signature :: "source_form \<Rightarrow> string \<Rightarrow> unit result" where
  "check_signature f label = (case instrument_signature_validate (form_signature f) False label of
       Inl e \<Rightarrow> throw_runtime e | Inr _ \<Rightarrow> Inr ())"

definition kline_row :: "source_form \<Rightarrow> string \<Rightarrow> string \<Rightarrow> source_form result" where
  "kline_row base source_root interval =
     rbind (source_interval_strict interval ''KLINE_SOURCE_SET.INTERVALS'') (\<lambda>i.
       Inr (base\<lparr>sf_interval := i, sf_source := make_kline_source_path source_root (sf_instrument base) interval\<rparr>))"

definition append_kline_source_set :: "ast_node \<Rightarrow> string \<Rightarrow> string list \<Rightarrow> source_spec \<Rightarrow> source_spec result" where
  "append_kline_source_set node default_source_root default_kline_intervals out =
     rbind (kline_set_base node) (\<lambda>base.
       let root_path = optional_assignment_value node (source_hash ''kline_source_root_assignment'') (source_hash ''source_root_path'');
           source_root = (if root_path = [] then default_source_root else root_path) in
       if source_root = [] then
         throw_runtime ''KLINE_SOURCE_SET.SOURCE_ROOT is required when SOURCE_DEFAULTS.SOURCE_ROOT is absent''
       else rbind (check_signature base (''KLINE_SOURCE_SET '' @ sf_instrument base)) (\<lambda>_.
         let own = collect_texts (source_hash ''interval'')
               (as_intermediary (find_direct_child_by_hash (Some node) (source_hash ''kline_intervals_assignment'')));
             intervals = (if own = [] then default_kline_intervals else own) in
         if intervals = [] then
           throw_runtime ''KLINE_SOURCE_SET.INTERVALS is required when SOURCE_DEFAULTS.KLINE_INTERVALS is absent''
         else rbind (map_res (kline_row base source_root) intervals) (\<lambda>rows.
           Inr (out\<lparr>ss_source_forms := ss_source_forms out @ rows\<rparr>))))"

definition decode_source_form :: "ast_node \<Rightarrow> source_form result" where
  "decode_source_form node =
     (let text = (\<lambda>token. child_text (Some node) (source_hash token));
          f = default_source_form\<lparr>sf_instrument := text ''instrument'', sf_record_type := text ''record_type'',
            sf_market_type := text ''market_type'', sf_venue := text ''venue'', sf_base_asset := text ''base_asset'',
            sf_quote_asset := text ''quote_asset'', sf_source_kind := text ''source_kind'', sf_source := text ''source''\<rparr> in
      rbind (check_signature f (''source row '' @ sf_instrument f)) (\<lambda>_.
      rbind (source_interval_strict (text ''interval'') ''source row interval'') (\<lambda>i. Inr (f\<lparr>sf_interval := i\<rparr>))))"


definition u64_policy_value :: "ast_node \<Rightarrow> string \<Rightarrow> int result" where
  "u64_policy_value n field_name =
     parse_u64_strict (flatten_node_text (find_direct_child_by_hash (Some n) (source_hash ''policy_unsigned_int''))) field_name"

definition float_policy_value :: "ast_node \<Rightarrow> string \<Rightarrow> c_float result" where
  "float_policy_value n field_name =
     parse_long_double_strict (flatten_node_text (find_direct_child_by_hash (Some n) (source_hash ''policy_float''))) field_name"

definition checked_count :: "ast_node \<Rightarrow> string \<Rightarrow> int result" where
  "checked_count n field_name =
     rbind (u64_policy_value n field_name) (\<lambda>parsed.
       if parsed < 1 then throw_runtime (field_name @ '' must be >= 1'')
       else if parsed > int64_max then throw_runtime (field_name @ '' exceeds int64 range'')
       else Inr parsed)"

definition visit_source_intermediary ::
  "ast_node \<Rightarrow> source_registry_decode_context \<Rightarrow> source_registry_decode_context result"
where
  "visit_source_intermediary n ctx =
     (let h = node_hash n; out = rc_spec ctx; policy = ss_data_analytics_policy out;
          keep = (\<lambda>spec. Inr (ctx\<lparr>rc_spec := spec\<rparr>));
          keep_policy = (\<lambda>p. Inr (ctx\<lparr>rc_spec := out\<lparr>ss_data_analytics_policy := p\<rparr>\<rparr>)) in
      if h = source_hash ''instrument_table'' then Inr ctx
      else if h = source_hash ''data_analytics_policy_block'' then keep_policy (policy\<lparr>ap_declared := True\<rparr>)
      else if h = source_hash ''kline_source_set_block'' then
        rbind (append_kline_source_set n (rc_default_source_root ctx) (rc_default_kline_intervals ctx) out) keep
      else if h = source_hash ''csv_bootstrap_assignment'' then
        rbind (u64_policy_value n ''CSV_BOOTSTRAP_DELTAS'') (\<lambda>parsed.
          if parsed < 2 then throw_runtime ''CSV_BOOTSTRAP_DELTAS must be >= 2''
          else keep (out\<lparr>ss_csv_bootstrap_deltas := nat parsed\<rparr>))
      else if h = source_hash ''csv_step_abs_tol_assignment'' then
        rbind (float_policy_value n ''CSV_STEP_ABS_TOL'') (\<lambda>parsed.
          if \<not> float_greater_zero parsed then throw_runtime ''CSV_STEP_ABS_TOL must be > 0''
          else keep (out\<lparr>ss_csv_step_abs_tol := parsed\<rparr>))
      else if h = source_hash ''csv_step_rel_tol_assignment'' then
        rbind (float_policy_value n ''CSV_STEP_REL_TOL'') (\<lambda>parsed.
          if float_less_zero parsed then throw_runtime ''CSV_STEP_REL_TOL must be >= 0''
          else keep (out\<lparr>ss_csv_step_rel_tol := parsed\<rparr>))
      else if h = source_hash ''data_analytics_max_samples_assignment'' then
        rbind (checked_count n ''MAX_SAMPLES'') (\<lambda>parsed. keep_policy (policy\<lparr>ap_max_samples := parsed\<rparr>))
      else if h = source_hash ''data_analytics_max_features_assignment'' then
        rbind (checked_count n ''MAX_FEATURES'') (\<lambda>parsed. keep_policy (policy\<lparr>ap_max_features := parsed\<rparr>))
      else if h = source_hash ''data_analytics_mask_epsilon_assignment'' then
        rbind (float_policy_value n ''MASK_EPSILON'') (\<lambda>parsed.
          if float_less_zero parsed then throw_runtime ''MASK_EPSILON must be >= 0''
          else keep_policy (policy\<lparr>ap_mask_epsilon := parsed\<rparr>))
      else if h = source_hash ''data_analytics_standardize_epsilon_assignment'' then
        rbind (float_policy_value n ''STANDARDIZE_EPSILON'') (\<lambda>parsed.
          if \<not> float_greater_zero parsed then throw_runtime ''STANDARDIZE_EPSILON must be > 0''
          else keep_policy (policy\<lparr>ap_standardize_epsilon := parsed\<rparr>))
      else if h = source_hash ''instrument_form'' then
        rbind (decode_source_form n) (\<lambda>f. keep (out\<lparr>ss_source_forms := ss_source_forms out @ [f]\<rparr>))
      else Inr ctx)"

definition visit_source_node :: "ast_node \<Rightarrow> source_registry_decode_context \<Rightarrow> source_registry_decode_context result" where
  "visit_source_node n ctx = (case n of
       RootNode l cs \<Rightarrow> Inr ctx
     | IntermediaryNode a cs \<Rightarrow> visit_source_intermediary n ctx
     | TerminalNode l u \<Rightarrow> Inr ctx)"

definition decode_registry_tree :: "ast_node \<Rightarrow> source_spec result" where
  "decode_registry_tree t =
     rbind (registry_source_defaults_block t) (\<lambda>block.
     rbind (registry_default_source_root block) (\<lambda>root_path.
     rbind (registry_default_kline_intervals block) (\<lambda>intervals.
     rbind (accept_throwing visit_source_node t
         \<lparr>rc_spec = default_source_spec, rc_default_source_root = root_path, rc_default_kline_intervals = intervals\<rparr>) (\<lambda>ctx.
       Inr (rc_spec ctx)))))"

definition decode_source_registry :: "nat \<Rightarrow> string \<Rightarrow> instruction_parser \<Rightarrow> source_spec run" where
  "decode_source_registry fuel instruction p =
     run_bind (parse_instruction fuel instruction p) (\<lambda>t q. lift_result (decode_registry_tree t) q)"

section \<open>The split DSL\<close>

text \<open>
  A decode of the split DSL makes its decoders, runs each once and throws them away. \<open>None\<close> is a run of
  one of the parsers that used up its fuel.
\<close>

type_synonym 'a decoding = "'a result option"

definition decoding_bind :: "'a decoding \<Rightarrow> ('a \<Rightarrow> 'b decoding) \<Rightarrow> 'b decoding" where
  "decoding_bind m f = (case m of None \<Rightarrow> None | Some (Inl e) \<Rightarrow> Some (Inl e) | Some (Inr x) \<Rightarrow> f x)"

definition result_of_run :: "'a run \<Rightarrow> 'a decoding" where
  "result_of_run m = (case m of None \<Rightarrow> None | Some (Inl e) \<Rightarrow> Some (Inl e) | Some (Inr (x, q)) \<Rightarrow> Some (Inr x))"

definition has_non_ws :: "string \<Rightarrow> bool" where
  "has_non_ws s \<longleftrightarrow> list_ex (\<lambda>c. \<not> is_space c) s"

definition decode_source_universe_from_split_dsl :: "nat \<Rightarrow> string \<Rightarrow> string \<Rightarrow> source_universe decoding" where
  "decode_source_universe_from_split_dsl fuel source_grammar source_instruction =
     (if \<not> has_non_ws source_grammar \<or> \<not> has_non_ws source_instruction then Some (throw_runtime ''Ujcamei sources DSL is required'')
      else decoding_bind (Some (make_instruction_decoder source_grammar)) (\<lambda>sources_decoder.
        decoding_bind (result_of_run (decode_source_registry fuel source_instruction sources_decoder)) (\<lambda>sources_part.
        let universe = make_source_universe_from_compat sources_part in
        decoding_bind (Some (validate_source_universe universe)) (\<lambda>_. Some (Inr universe)))))"

definition decode_graph_part :: "nat \<Rightarrow> string \<Rightarrow> string \<Rightarrow> graph_topology_spec decoding" where
  "decode_graph_part fuel graph_grammar graph_instruction =
     (if has_non_ws graph_grammar \<or> has_non_ws graph_instruction then
        (if \<not> has_non_ws graph_grammar \<or> \<not> has_non_ws graph_instruction then
           Some (throw_runtime ''graph DSL requires both grammar and instruction text'')
         else decoding_bind (Some (make_instruction_decoder graph_grammar)) (\<lambda>graph_decoder.
           result_of_run (decode_graph_topology fuel graph_instruction graph_decoder)))
      else Some (Inr default_graph_topology_spec))"

definition merge_source_spec :: "source_universe \<Rightarrow> source_spec \<Rightarrow> graph_topology_spec \<Rightarrow> source_spec" where
  "merge_source_spec source_universe channels_part graph_part =
     \<lparr>ss_source_forms = su_source_forms source_universe, ss_channel_forms = ss_channel_forms channels_part,
      ss_graph_node_forms = gt_graph_node_forms graph_part, ss_graph_edge_forms = gt_graph_edge_forms graph_part,
      ss_graph_edge_resolution_policy = gt_edge_resolution_policy graph_part,
      ss_graph_edge_source_kind = gt_edge_source_kind graph_part, ss_graph_fetch_mode = gt_fetch_mode graph_part,
      ss_graph_max_fetch_workers = gt_max_fetch_workers graph_part,
      ss_graph_parallel_min_work_items = gt_parallel_min_work_items graph_part,
      ss_csv_bootstrap_deltas = su_csv_bootstrap_deltas source_universe,
      ss_csv_step_abs_tol = su_csv_step_abs_tol source_universe, ss_csv_step_rel_tol = su_csv_step_rel_tol source_universe,
      ss_data_analytics_policy = su_data_analytics_policy source_universe\<rparr>"

definition decode_source_spec_from_split_dsl ::
  "nat \<Rightarrow> string \<Rightarrow> string \<Rightarrow> string \<Rightarrow> string \<Rightarrow> string \<Rightarrow> string \<Rightarrow> source_spec decoding"
where
  "decode_source_spec_from_split_dsl fuel source_grammar source_instruction channel_grammar channel_instruction
       graph_grammar graph_instruction =
     (if has_non_ws source_grammar \<and> has_non_ws source_instruction \<and> has_non_ws channel_grammar \<and> has_non_ws channel_instruction then
        decoding_bind (Some (make_instruction_decoder channel_grammar)) (\<lambda>channels_decoder.
        decoding_bind (decode_source_universe_from_split_dsl fuel source_grammar source_instruction) (\<lambda>universe.
        decoding_bind (result_of_run (decode_retrieval_channels fuel channel_instruction channels_decoder)) (\<lambda>channels_part.
        decoding_bind (decode_graph_part fuel graph_grammar graph_instruction) (\<lambda>graph_part.
        let merged = merge_source_spec universe channels_part graph_part in
        decoding_bind (Some (validate_source_channel_contract merged)) (\<lambda>_.
        decoding_bind (Some (validate_graph_contract merged)) (\<lambda>_. Some (Inr merged)))))))
      else Some (throw_runtime ''split source DSL is required''))"

section \<open>Facts\<close>

lemma accept_throwing_fold: "accept_throwing f t d = fold_res f (tree_nodes t) d"
  by (simp add: accept_throwing_def accept_folds fold_throwing)

lemma decoding_bind_iff [simp]:
  "decoding_bind m f = Some (Inr y) \<longleftrightarrow> (\<exists>x. m = Some (Inr x) \<and> f x = Some (Inr y))"
  by (auto simp: decoding_bind_def split: option.splits sum.splits)

lemma result_of_run_iff [simp]: "result_of_run m = Some (Inr x) \<longleftrightarrow> (\<exists>q. m = Some (Inr (x, q)))"
  by (auto simp: result_of_run_def split: option.splits sum.splits)

lemma lift_result_iff [simp]: "lift_result r q = Some (Inr (x, q')) \<longleftrightarrow> r = Inr x \<and> q = q'"
  by (auto simp: lift_result_def split: sum.splits)

lemma interval_or_error_iff [res_simps]: "interval_or_error v l = Inr i \<longleftrightarrow> v = interval_to_string i"
proof -
  have "interval_to_string i \<noteq> []" by (cases i) simp_all
  then show ?thesis
    by (auto simp: interval_or_error_def interval_from_string_iff split: sum.splits)
      (metis interval_from_string_iff sum.distinct(1))
qed

text \<open>Every source row a decode accepts names one exact instrument.\<close>

definition source_row_ok :: "source_form \<Rightarrow> bool" where
  "source_row_ok f \<longleftrightarrow> signature_ok (form_signature f) False \<and> valid_source_kind (sf_source_kind f)"

definition universe_ok :: "source_universe \<Rightarrow> bool" where
  "universe_ok u \<longleftrightarrow> su_source_forms u \<noteq> [] \<and> list_all source_row_ok (su_source_forms u) \<and>
     ap_declared (su_data_analytics_policy u) \<and> 0 < ap_max_samples (su_data_analytics_policy u) \<and>
     0 < ap_max_features (su_data_analytics_policy u) \<and> \<not> float_less_zero (ap_mask_epsilon (su_data_analytics_policy u)) \<and>
     float_greater_zero (ap_standardize_epsilon (su_data_analytics_policy u))"

lemma check_source_row_iff: "check_source_row f u = Inr v \<longleftrightarrow> source_row_ok f"
  using validate_iff [of "form_signature f" False "''source row '' @ sf_instrument f"]
  by (auto simp: check_source_row_def source_row_ok_def split: sum.splits)

lemma validate_universe_iff: "validate_source_universe u = Inr v \<longleftrightarrow> universe_ok u"
proof -
  have "fold_res check_source_row fs w = Inr v \<longleftrightarrow> list_all source_row_ok fs" for fs w
    by (induction fs arbitrary: w) (simp_all add: rbind_Inr_iff check_source_row_iff)
  then show ?thesis by (auto simp: validate_source_universe_def universe_ok_def Let_def not_le)
qed

lemma universe_decoded:
  assumes "decode_source_universe_from_split_dsl fuel g i = Some (Inr u)"
  shows "universe_ok u"
  using assms by (auto simp: decode_source_universe_from_split_dsl_def Let_def validate_universe_iff split: if_splits)

lemma decoded_contract:
  assumes "decode_source_spec_from_split_dsl fuel sg si cg ci gg gi = Some (Inr s)"
  shows "channel_contract_ok s \<and> graph_contract_ok s \<and> universe_ok (make_source_universe_from_compat s)"
proof -
  obtain u c t where u: "decode_source_universe_from_split_dsl fuel sg si = Some (Inr u)"
    and s: "s = merge_source_spec u c t" "validate_source_channel_contract s = Inr ()" "validate_graph_contract s = Inr ()"
    using assms by (auto simp: decode_source_spec_from_split_dsl_def Let_def split: if_splits)
  have "make_source_universe_from_compat s = u"
    by (simp add: s(1) merge_source_spec_def make_source_universe_from_compat_def)
  then show ?thesis using s universe_decoded [OF u] by (simp add: validate_channels_iff validate_graph_iff)
qed

end
