(* ===== verification/Source_Dock.thy ===== *)
theory Source_Dock
  imports Source_Decoders "HOL-Library.Char_ord" "HOL-Library.List_Lexorder" "HOL-Library.Product_Lexorder"
begin

text \<open>
  \<open>src/include/kikijyeba/protocol/source_dock.h\<close>: the graph-first dock, the discovery of the edges the
  source rows support, and the plan a dock and a universe resolve to. A \<open>std::map\<close> is an association list
  that is sorted by its keys where it is iterated; the order of strings is the lexicographic one.
\<close>

section \<open>Policies\<close>

datatype edge_resolution_policy = ExplicitOnly | EdgeDiscovery

datatype fetch_mode = SerialFetch | ParallelByEdge

record graph_first_source_dock =
  gd_edge_resolution_policy :: edge_resolution_policy
  gd_edge_source_kind :: string
  gd_fetch_mode :: fetch_mode
  gd_max_fetch_workers :: int
  gd_parallel_min_work_items :: int
  gd_channel_forms :: "channel_form list"
  gd_graph_node_forms :: "graph_node_form list"
  gd_graph_edge_forms :: "graph_edge_form list"

definition graph_first_dock_active_text :: "string \<Rightarrow> bool" where
  "graph_first_dock_active_text v \<longleftrightarrow> lowercase (trim v) = ''true''"

definition throw_dock :: "string \<Rightarrow> 'a result" where
  "throw_dock msg = Inl (RuntimeError (''[graph_first_source_dock] '' @ msg))"

definition graph_first_dock_parse_positive_i64 :: "string \<Rightarrow> string \<Rightarrow> int result" where
  "graph_first_dock_parse_positive_i64 v field =
     rbind (parse_i64 v) (\<lambda>out. if out \<le> 0 then throw_dock (field @ '' must be positive'') else Inr out)"

fun edge_resolution_policy_name :: "edge_resolution_policy \<Rightarrow> string" where
  "edge_resolution_policy_name ExplicitOnly = ''explicit_only''"
| "edge_resolution_policy_name EdgeDiscovery = ''edge_discovery''"

definition parse_edge_resolution_policy :: "string \<Rightarrow> edge_resolution_policy result" where
  "parse_edge_resolution_policy v =
     (let normalized = lowercase (trim v) in
      if normalized = [] \<or> normalized = ''explicit_only'' then Inr ExplicitOnly
      else if normalized = ''edge_discovery'' then Inr EdgeDiscovery
      else throw_dock (''unknown EDGE_RESOLUTION_POLICY: '' @ v))"

fun fetch_mode_name :: "fetch_mode \<Rightarrow> string" where
  "fetch_mode_name SerialFetch = ''serial''"
| "fetch_mode_name ParallelByEdge = ''parallel_by_edge''"

definition parse_fetch_mode :: "string \<Rightarrow> fetch_mode result" where
  "parse_fetch_mode v =
     (let normalized = lowercase (trim v) in
      if normalized = [] \<or> normalized = ''serial'' then Inr SerialFetch
      else if normalized = ''parallel_by_edge'' then Inr ParallelByEdge
      else throw_dock (''unknown FETCH_MODE: '' @ v))"

definition parse_dock_nonnegative_i64 :: "string \<Rightarrow> string \<Rightarrow> int result" where
  "parse_dock_nonnegative_i64 v field =
     rbind (parse_i64 v) (\<lambda>parsed. if parsed < 0 then throw_dock (field @ '' must be nonnegative'') else Inr parsed)"

definition parse_dock_positive_i64_or_default :: "string \<Rightarrow> string \<Rightarrow> int \<Rightarrow> int result" where
  "parse_dock_positive_i64_or_default v field default_value =
     (let trimmed = trim v in
      if trimmed = [] then Inr default_value
      else rbind (parse_i64 trimmed) (\<lambda>parsed. if parsed \<le> 0 then throw_dock (field @ '' must be positive'') else Inr parsed))"

definition parse_edge_source_kind :: "string \<Rightarrow> string result" where
  "parse_edge_source_kind v =
     (let normalized = lowercase (trim v) in
      if normalized = [] \<or> normalized = ''real'' then Inr ''real''
      else if normalized = ''synthetic'' \<or> normalized = ''derived'' then Inr normalized
      else throw_dock (''unknown EDGE_SOURCE_KIND: '' @ v))"

text \<open>The dock of the policy texts and the forms, which its two makers share.\<close>

definition dock_of_texts ::
  "string \<Rightarrow> string \<Rightarrow> string \<Rightarrow> string \<Rightarrow> string \<Rightarrow> channel_form list \<Rightarrow> graph_node_form list \<Rightarrow> graph_edge_form list \<Rightarrow>
    graph_first_source_dock result"
where
  "dock_of_texts policy kind mode workers items channels nodes edges =
     rbind (parse_edge_resolution_policy policy) (\<lambda>policy.
     rbind (parse_edge_source_kind kind) (\<lambda>kind.
     rbind (parse_fetch_mode mode) (\<lambda>mode.
     rbind (parse_dock_nonnegative_i64 workers ''MAX_FETCH_WORKERS'') (\<lambda>workers.
     rbind (parse_dock_positive_i64_or_default items ''PARALLEL_MIN_WORK_ITEMS'' 16) (\<lambda>items.
       Inr \<lparr>gd_edge_resolution_policy = policy, gd_edge_source_kind = kind, gd_fetch_mode = mode,
         gd_max_fetch_workers = workers, gd_parallel_min_work_items = items, gd_channel_forms = channels,
         gd_graph_node_forms = nodes, gd_graph_edge_forms = edges\<rparr>)))))"

definition make_graph_first_source_dock :: "source_spec \<Rightarrow> graph_first_source_dock result" where
  "make_graph_first_source_dock s =
     dock_of_texts (ss_graph_edge_resolution_policy s) (ss_graph_edge_source_kind s) (ss_graph_fetch_mode s)
       (ss_graph_max_fetch_workers s) (ss_graph_parallel_min_work_items s) (ss_channel_forms s)
       (ss_graph_node_forms s) (ss_graph_edge_forms s)"

definition decode_dock_graph_part :: "nat \<Rightarrow> string \<Rightarrow> string \<Rightarrow> graph_topology_spec decoding" where
  "decode_dock_graph_part fuel graph_grammar graph_instruction =
     (if trim graph_grammar \<noteq> [] \<or> trim graph_instruction \<noteq> [] then
        (if trim graph_grammar = [] \<or> trim graph_instruction = [] then
           Some (throw_dock ''graph dock DSL requires both grammar and instruction text'')
         else decoding_bind (Some (make_instruction_decoder graph_grammar)) (\<lambda>graph_decoder.
           result_of_run (decode_graph_topology fuel graph_instruction graph_decoder)))
      else Some (Inr default_graph_topology_spec))"

definition decode_graph_first_source_dock_from_split_dsl ::
  "nat \<Rightarrow> string \<Rightarrow> string \<Rightarrow> string \<Rightarrow> string \<Rightarrow> graph_first_source_dock decoding"
where
  "decode_graph_first_source_dock_from_split_dsl fuel channel_grammar channel_instruction graph_grammar graph_instruction =
     (if trim channel_grammar = [] \<or> trim channel_instruction = [] then Some (throw_dock ''channel dock DSL is required'')
      else decoding_bind (Some (make_instruction_decoder channel_grammar)) (\<lambda>channels_decoder.
        decoding_bind (result_of_run (decode_retrieval_channels fuel channel_instruction channels_decoder)) (\<lambda>channels_part.
        decoding_bind (decode_dock_graph_part fuel graph_grammar graph_instruction) (\<lambda>g.
          Some (dock_of_texts (gt_edge_resolution_policy g) (gt_edge_source_kind g) (gt_fetch_mode g)
            (gt_max_fetch_workers g) (gt_parallel_min_work_items g) (ss_channel_forms channels_part)
            (gt_graph_node_forms g) (gt_graph_edge_forms g))))))"

section \<open>Discovery\<close>

text \<open>
  A candidate is its source instrument, base and quote; \<open>operator<\<close> compares the three in this order.
\<close>

type_synonym edge_candidate_key = "string \<times> string \<times> string"
type_synonym coverage = "(edge_candidate_key \<times> string list) list"

definition active_channels :: "graph_first_source_dock \<Rightarrow> channel_form list" where
  "active_channels dock = filter (\<lambda>c. graph_first_dock_active_text (cf_active c)) (gd_channel_forms dock)"

definition channel_label :: "channel_form \<Rightarrow> string" where
  "channel_label c = interval_to_string (cf_interval c) @ CHR ''/'' # cf_record_type c"

text \<open>\<open>coverage[key].insert(label)\<close>.\<close>

fun cover :: "edge_candidate_key \<Rightarrow> string \<Rightarrow> coverage \<Rightarrow> coverage" where
  "cover key label [] = [(key, [label])]"
| "cover key label ((k, ls) # m) =
     (if k = key then (k, List.insert label ls) # m else (k, ls) # cover key label m)"

definition supports_channel :: "source_form \<Rightarrow> channel_form \<Rightarrow> bool" where
  "supports_channel f c \<longleftrightarrow> sf_interval f = cf_interval c \<and> sf_record_type f = cf_record_type c"

definition candidate_of :: "source_form \<Rightarrow> edge_candidate_key" where
  "candidate_of f = (sf_instrument f, sf_base_asset f, sf_quote_asset f)"

definition cover_channel :: "source_form \<Rightarrow> channel_form \<Rightarrow> coverage \<Rightarrow> coverage" where
  "cover_channel f c m = (if supports_channel f c then cover (candidate_of f) (channel_label c) m else m)"

definition cover_source ::
  "graph_first_source_dock \<Rightarrow> string set \<Rightarrow> channel_form list \<Rightarrow> source_form \<Rightarrow> coverage \<Rightarrow> coverage"
where
  "cover_source dock active_nodes channels f m =
     (if sf_source_kind f \<noteq> gd_edge_source_kind dock \<or> sf_source f = [] then m
      else if sf_base_asset f = sf_quote_asset f \<or> sf_base_asset f \<notin> active_nodes \<or> sf_quote_asset f \<notin> active_nodes then m
      else fold (cover_channel f) channels m)"

definition source_coverage :: "source_universe \<Rightarrow> graph_first_source_dock \<Rightarrow> coverage" where
  "source_coverage u dock =
     (let active_nodes = set (map gn_node_id (filter (\<lambda>n. graph_first_dock_active_text (gn_active n)) (gd_graph_node_forms dock)))
      in fold (cover_source dock active_nodes (active_channels dock)) (su_source_forms u) [])"

definition covered_candidates :: "source_universe \<Rightarrow> graph_first_source_dock \<Rightarrow> edge_candidate_key list" where
  "covered_candidates u dock =
     (let required = length (active_channels dock) in
      map fst (filter (\<lambda>(k, ls). required > 0 \<and> length ls = required) (sort_key fst (source_coverage u dock))))"

definition edge_form_of_candidate :: "edge_candidate_key \<Rightarrow> graph_edge_form" where
  "edge_form_of_candidate = (\<lambda>(instrument, base, quote).
     \<lparr>ge_edge_id = instrument, ge_base_node = base, ge_quote_node = quote, ge_source_instrument = instrument, ge_active = ''true''\<rparr>)"

definition discover_graph_edge_forms :: "source_universe \<Rightarrow> graph_first_source_dock \<Rightarrow> graph_edge_form list" where
  "discover_graph_edge_forms u dock =
     map edge_form_of_candidate (sort_key (\<lambda>(instrument, base, quote). (base, quote, instrument)) (covered_candidates u dock))"

section \<open>Plans\<close>

definition resolve_graph_first_source_dock_edges ::
  "source_universe \<Rightarrow> graph_first_source_dock \<Rightarrow> graph_first_source_dock result"
where
  "resolve_graph_first_source_dock_edges u dock =
     (if gd_edge_resolution_policy dock = ExplicitOnly then Inr dock
      else let edges = discover_graph_edge_forms u dock in
        if edges = [] then
          throw_dock ''edge_discovery resolved no active graph edges for the active nodes/channels/source-kind policy''
        else Inr (dock\<lparr>gd_graph_edge_forms := edges\<rparr>))"

definition make_graph_first_compat_source_spec :: "source_universe \<Rightarrow> graph_first_source_dock \<Rightarrow> source_spec" where
  "make_graph_first_compat_source_spec u dock =
     \<lparr>ss_source_forms = su_source_forms u, ss_channel_forms = gd_channel_forms dock,
      ss_graph_node_forms = gd_graph_node_forms dock, ss_graph_edge_forms = gd_graph_edge_forms dock,
      ss_graph_edge_resolution_policy = edge_resolution_policy_name (gd_edge_resolution_policy dock),
      ss_graph_edge_source_kind = gd_edge_source_kind dock, ss_graph_fetch_mode = fetch_mode_name (gd_fetch_mode dock),
      ss_graph_max_fetch_workers = show_int (gd_max_fetch_workers dock),
      ss_graph_parallel_min_work_items = show_int (gd_parallel_min_work_items dock),
      ss_csv_bootstrap_deltas = su_csv_bootstrap_deltas u, ss_csv_step_abs_tol = su_csv_step_abs_tol u,
      ss_csv_step_rel_tol = su_csv_step_rel_tol u, ss_data_analytics_policy = su_data_analytics_policy u\<rparr>"

record resolved_source_plan =
  rp_compat_source_spec :: source_spec
  rp_market_graph :: market_graph
  rp_edge_instruments :: "string \<rightharpoonup> instrument_signature"

definition resolve_graph_first_source_plan :: "source_universe \<Rightarrow> graph_first_source_dock \<Rightarrow> resolved_source_plan result" where
  "resolve_graph_first_source_plan u dock =
     (if su_source_forms u = [] then throw_dock ''Ujcamei source universe is empty''
      else if gd_channel_forms dock = [] then throw_dock ''graph-first channel dock is empty''
      else rbind (resolve_graph_first_source_dock_edges u dock) (\<lambda>resolved_dock.
        if gd_graph_node_forms resolved_dock = [] \<or> gd_graph_edge_forms resolved_dock = [] then
          throw_dock ''graph-first graph dock is empty''
        else
          let s = make_graph_first_compat_source_spec u resolved_dock in
          rbind (active_market_graph s) (\<lambda>g.
          rbind (active_edge_instrument_map s) (\<lambda>m.
            Inr \<lparr>rp_compat_source_spec = s, rp_market_graph = g, rp_edge_instruments = m\<rparr>))))"

definition active_channel_count :: "graph_first_source_dock \<Rightarrow> int" where
  "active_channel_count dock = int (length (active_channels dock))"

definition dock_max_length :: "(channel_form \<Rightarrow> string) \<Rightarrow> string \<Rightarrow> graph_first_source_dock \<Rightarrow> int result" where
  "dock_max_length field name dock =
     fold_res (\<lambda>c out. if graph_first_dock_active_text (cf_active c) then
         rbind (graph_first_dock_parse_positive_i64 (field c) name) (\<lambda>v. Inr (max out v)) else Inr out)
       (gd_channel_forms dock) 0"

definition dock_max_input_length :: "graph_first_source_dock \<Rightarrow> int result" where
  "dock_max_input_length = dock_max_length cf_input_length ''input_length''"

definition dock_max_future_length :: "graph_first_source_dock \<Rightarrow> int result" where
  "dock_max_future_length = dock_max_length cf_future_length ''future_length''"


section \<open>What the coverage holds\<close>

definition covered :: "coverage \<Rightarrow> edge_candidate_key \<Rightarrow> string set" where
  "covered m k = (case map_of m k of None \<Rightarrow> {} | Some ls \<Rightarrow> set ls)"

definition coverage_ok :: "coverage \<Rightarrow> bool" where
  "coverage_ok m \<longleftrightarrow> distinct (map fst m) \<and> (\<forall>(k, ls) \<in> set m. distinct ls)"

lemma keys_cover: "fst ` set (cover key label m) = insert key (fst ` set m)"
  by (induction m rule: cover.induct) auto

lemma cover_ok: "coverage_ok m \<Longrightarrow> coverage_ok (cover key label m)"
proof (induction m rule: cover.induct)
  case (2 key label k ls m)
  then show ?case using keys_cover [of key label m] by (auto simp: coverage_ok_def)
qed (simp add: coverage_ok_def)

lemma covered_cover: "covered (cover key label m) k = (if k = key then insert label (covered m k) else covered m k)"
  by (induction m rule: cover.induct) (auto simp: covered_def split: option.splits)

lemma cover_channels:
  "coverage_ok m \<Longrightarrow> coverage_ok (fold (cover_channel f) cs m) \<and>
    covered (fold (cover_channel f) cs m) k =
      covered m k \<union> (if k = candidate_of f then channel_label ` {c \<in> set cs. supports_channel f c} else {})"
proof (induction cs arbitrary: m)
  case (Cons c cs)
  have "coverage_ok (cover_channel f c m)" using Cons.prems cover_ok by (simp add: cover_channel_def)
  from Cons.IH [OF this] show ?case by (auto simp: cover_channel_def covered_cover)
qed simp

definition eligible_source :: "graph_first_source_dock \<Rightarrow> source_form \<Rightarrow> bool" where
  "eligible_source dock f \<longleftrightarrow> sf_source_kind f = gd_edge_source_kind dock \<and> sf_source f \<noteq> [] \<and>
     sf_base_asset f \<noteq> sf_quote_asset f \<and>
     (let active_nodes = map gn_node_id (filter (\<lambda>n. graph_first_dock_active_text (gn_active n)) (gd_graph_node_forms dock))
      in sf_base_asset f \<in> set active_nodes \<and> sf_quote_asset f \<in> set active_nodes)"

lemma source_coverage_ok:
  "coverage_ok (source_coverage u dock) \<and>
    covered (source_coverage u dock) k =
      {channel_label c | c f. c \<in> set (active_channels dock) \<and> f \<in> set (su_source_forms u) \<and> eligible_source dock f \<and>
        candidate_of f = k \<and> supports_channel f c}"
proof -
  define ns where "ns = set (map gn_node_id (filter (\<lambda>n. graph_first_dock_active_text (gn_active n)) (gd_graph_node_forms dock)))"
  have "coverage_ok m \<Longrightarrow> coverage_ok (fold (cover_source dock ns (active_channels dock)) fs m) \<and>
      covered (fold (cover_source dock ns (active_channels dock)) fs m) k = covered m k \<union>
        {channel_label c | c f. c \<in> set (active_channels dock) \<and> f \<in> set fs \<and> eligible_source dock f \<and>
          candidate_of f = k \<and> supports_channel f c}" for fs m
  proof (induction fs arbitrary: m)
    case (Cons f fs)
    have step: "cover_source dock ns (active_channels dock) f m =
        (if eligible_source dock f then fold (cover_channel f) (active_channels dock) m else m)"
      by (auto simp: cover_source_def eligible_source_def Let_def ns_def)
    have "coverage_ok (cover_source dock ns (active_channels dock) f m)"
      unfolding step using cover_channels [OF Cons.prems] Cons.prems by simp
    from Cons.IH [OF this] show ?case
      using cover_channels [OF Cons.prems, of f "active_channels dock" k] by (auto simp: step)
  qed simp
  moreover have "coverage_ok []" by (simp add: coverage_ok_def)
  moreover have "covered [] k = {}" by (simp add: covered_def)
  ultimately show ?thesis by (simp add: source_coverage_def Let_def ns_def)
qed

section \<open>What is discovered\<close>

text \<open>
  A candidate is discoverable when the active channels have different labels and each of them is fed by
  an eligible row of the candidate.
\<close>

definition discoverable :: "source_universe \<Rightarrow> graph_first_source_dock \<Rightarrow> edge_candidate_key \<Rightarrow> bool" where
  "discoverable u dock k \<longleftrightarrow> active_channels dock \<noteq> [] \<and> distinct (map channel_label (active_channels dock)) \<and>
     list_all (\<lambda>c. list_ex (\<lambda>f. eligible_source dock f \<and> candidate_of f = k \<and> supports_channel f c) (su_source_forms u))
       (active_channels dock)"

lemma channel_label_inject:
  "channel_label c = channel_label d \<longleftrightarrow> cf_interval c = cf_interval d \<and> cf_record_type c = cf_record_type d"
proof -
  have "CHR ''/'' \<notin> set (interval_to_string i)" for i by (cases i) simp_all
  then show ?thesis using sep_inject [of "CHR ''/''"] by (simp add: channel_label_def)
qed

lemma all_labels_covered:
  assumes "S \<subseteq> channel_label ` set cs"
  shows "card S = length cs \<longleftrightarrow> distinct (map channel_label cs) \<and> S = channel_label ` set cs"
proof -
  have "card S \<le> card (channel_label ` set cs)" using assms by (simp add: card_mono)
  also have "card (channel_label ` set cs) = card (set (map channel_label cs))" by simp
  also have "\<dots> \<le> length cs" using card_length [of "map channel_label cs"] by simp
  finally have le: "card S \<le> card (channel_label ` set cs)" "card (channel_label ` set cs) \<le> length cs"
    using card_length [of "map channel_label cs"] assms by (simp_all add: card_mono)
  have "distinct (map channel_label cs) \<longleftrightarrow> card (channel_label ` set cs) = length cs"
    using distinct_card [of "map channel_label cs"] card_distinct [of "map channel_label cs"] by auto
  then show ?thesis using le assms card_subset_eq [of "channel_label ` set cs" S] by auto
qed

lemma covered_candidates_iff: "k \<in> set (covered_candidates u dock) \<longleftrightarrow> discoverable u dock k"
proof -
  let ?m = "source_coverage u dock" and ?cs = "active_channels dock"
  note ok = source_coverage_ok [of u dock, THEN conjunct1] and cov = source_coverage_ok [of u dock k, THEN conjunct2]
  have len: "length ls = card (covered ?m k)" if "(k, ls) \<in> set ?m" for ls
  proof -
    have "map_of ?m k = Some ls" using ok that by (simp add: coverage_ok_def)
    moreover have "distinct ls" using ok that by (auto simp: coverage_ok_def)
    ultimately show ?thesis by (simp add: covered_def distinct_card)
  qed
  have "k \<in> set (covered_candidates u dock) \<longleftrightarrow>
      (\<exists>ls. (k, ls) \<in> set ?m \<and> length ?cs > 0 \<and> length ls = length ?cs)"
    by (cases k) (auto simp: covered_candidates_def Let_def image_iff Bex_def)
  also have "\<dots> \<longleftrightarrow> length ?cs > 0 \<and> card (covered ?m k) = length ?cs"
  proof (cases "map_of ?m k")
    case None
    then have "(k, ls) \<notin> set ?m" for ls by (force simp: map_of_eq_None_iff)
    with None show ?thesis by (auto simp: covered_def)
  next
    case (Some ls)
    then have "(k, ls) \<in> set ?m" by (rule map_of_SomeD)
    with len show ?thesis by metis
  qed
  also have "\<dots> \<longleftrightarrow> ?cs \<noteq> [] \<and> distinct (map channel_label ?cs) \<and> covered ?m k = channel_label ` set ?cs"
    using all_labels_covered [of "covered ?m k" ?cs] cov by auto
  also have "covered ?m k = channel_label ` set ?cs \<longleftrightarrow>
      list_all (\<lambda>c. list_ex (\<lambda>f. eligible_source dock f \<and> candidate_of f = k \<and> supports_channel f c) (su_source_forms u)) ?cs"
    (is "?l \<longleftrightarrow> ?r")
  proof
    assume l: ?l
    have "\<exists>f \<in> set (su_source_forms u). eligible_source dock f \<and> candidate_of f = k \<and> supports_channel f c" if "c \<in> set ?cs" for c
    proof -
      have "channel_label c \<in> covered ?m k" using l that by simp
      then obtain d f where "channel_label c = channel_label d" "f \<in> set (su_source_forms u)" "eligible_source dock f"
        "candidate_of f = k" "supports_channel f d" unfolding cov by blast
      then show ?thesis by (auto simp: channel_label_inject supports_channel_def)
    qed
    then show ?r by (auto simp: list_all_iff list_ex_iff)
  next
    assume ?r
    then show ?l unfolding cov by (fastforce simp: list_all_iff list_ex_iff)
  qed
  finally show ?thesis by (simp add: discoverable_def)
qed

lemma distinct_covered_candidates: "distinct (covered_candidates u dock)"
proof -
  have "distinct (map fst (sort_key fst (source_coverage u dock)))"
    using source_coverage_ok [of u dock] by (simp add: coverage_ok_def distinct_map)
  then show ?thesis by (simp add: covered_candidates_def Let_def distinct_map_filter)
qed

lemma edge_form_inject: "edge_form_of_candidate a = edge_form_of_candidate b \<longleftrightarrow> a = b"
  by (cases a; cases b) (auto simp: edge_form_of_candidate_def)

text \<open>The order of the edges: base, quote, instrument.\<close>

definition edge_order :: "graph_edge_form \<Rightarrow> string \<times> string \<times> string" where
  "edge_order e = (ge_base_node e, ge_quote_node e, ge_source_instrument e)"

lemma discover_correct:
  "distinct (discover_graph_edge_forms u dock) \<and> sorted (map edge_order (discover_graph_edge_forms u dock)) \<and>
   (e \<in> set (discover_graph_edge_forms u dock) \<longleftrightarrow> (\<exists>k. discoverable u dock k \<and> e = edge_form_of_candidate k))"
proof -
  let ?key = "\<lambda>(instrument, base, quote). (base, quote, instrument)"
  have "map edge_order (discover_graph_edge_forms u dock) = map ?key (sort_key ?key (covered_candidates u dock))"
    by (simp add: discover_graph_edge_forms_def edge_order_def edge_form_of_candidate_def split_def)
  then have "sorted (map edge_order (discover_graph_edge_forms u dock))" by (metis sorted_sort_key)
  moreover have "distinct (discover_graph_edge_forms u dock)"
    using distinct_covered_candidates
    by (simp add: discover_graph_edge_forms_def distinct_map inj_on_def edge_form_inject)
  moreover have "set (discover_graph_edge_forms u dock) = edge_form_of_candidate ` {k. discoverable u dock k}"
    by (simp add: discover_graph_edge_forms_def covered_candidates_iff [symmetric])
  ultimately show ?thesis by blast
qed

section \<open>Plans, declaratively\<close>

lemma throw_dock_simps [simp]: "throw_dock m \<noteq> Inr x" "rbind (throw_dock m) f = throw_dock m"
  by (simp_all add: throw_dock_def)

lemma resolved_edges_iff:
  "resolve_graph_first_source_dock_edges u dock = Inr d \<longleftrightarrow>
    (if gd_edge_resolution_policy dock = ExplicitOnly then d = dock
     else discover_graph_edge_forms u dock \<noteq> [] \<and> d = dock\<lparr>gd_graph_edge_forms := discover_graph_edge_forms u dock\<rparr>)"
  by (auto simp: resolve_graph_first_source_dock_edges_def Let_def)

lemma resolved_plan_iff:
  "resolve_graph_first_source_plan u dock = Inr p \<longleftrightarrow>
    su_source_forms u \<noteq> [] \<and> gd_channel_forms dock \<noteq> [] \<and>
    (\<exists>d. resolve_graph_first_source_dock_edges u dock = Inr d \<and> gd_graph_node_forms d \<noteq> [] \<and> gd_graph_edge_forms d \<noteq> [] \<and>
      rp_compat_source_spec p = make_graph_first_compat_source_spec u d \<and>
      active_market_graph (rp_compat_source_spec p) = Inr (rp_market_graph p) \<and>
      active_edge_instrument_map (rp_compat_source_spec p) = Inr (rp_edge_instruments p))"
  by (cases p) (auto simp: resolve_graph_first_source_plan_def Let_def rbind_Inr_iff)

section \<open>The discovery properties\<close>

text \<open>
  C14: edge discovery is sound and complete. The edges discovered for a dock are those of the candidates
  that have a source row of the dock's kind, between different active nodes, for every active channel;
  each is there once, in the order of base node, quote node and instrument. Nothing is discovered when
  two active channels have the same label.
\<close>

theorem discovery_sound_complete:
  "set (discover_graph_edge_forms u dock) = edge_form_of_candidate ` {k. discoverable u dock k} \<and>
   distinct (discover_graph_edge_forms u dock) \<and> sorted (map edge_order (discover_graph_edge_forms u dock))"
  using discover_correct [of u dock] by blast

text \<open>
  C39: resolving a plan succeeds exactly when the universe and the channels are not empty, there are
  edges (those of the dock, or the discovered ones), the active rows describe a graph and each active
  edge has a source row; the plan is then the specification of the resolved dock with that graph and
  those instruments.
\<close>

theorem resolved_plan_correct:
  "resolve_graph_first_source_plan u dock = Inr p \<longleftrightarrow>
    (let edges = (if gd_edge_resolution_policy dock = ExplicitOnly then gd_graph_edge_forms dock
           else discover_graph_edge_forms u dock);
         s = make_graph_first_compat_source_spec u (dock\<lparr>gd_graph_edge_forms := edges\<rparr>)
     in su_source_forms u \<noteq> [] \<and> gd_channel_forms dock \<noteq> [] \<and> gd_graph_node_forms dock \<noteq> [] \<and> edges \<noteq> [] \<and>
        graph_described s \<and> list_all (\<lambda>e. list_ex (matches_edge e) (su_source_forms u)) (active_edge_rows s) \<and>
        p = \<lparr>rp_compat_source_spec = s, rp_market_graph = described_graph s,
          rp_edge_instruments = map_of (map (\<lambda>e. (trim (ge_edge_id e),
            form_signature (the (List.find (matches_edge e) (su_source_forms u))))) (active_edge_rows s))\<rparr>)"
proof -
  have d: "dock\<lparr>gd_graph_edge_forms := gd_graph_edge_forms dock\<rparr> = dock" by simp
  have "gd_graph_node_forms (dock\<lparr>gd_graph_edge_forms := es\<rparr>) = gd_graph_node_forms dock" for es by simp
  moreover have "ss_source_forms (make_graph_first_compat_source_spec u d) = su_source_forms u" for d
    by (simp add: make_graph_first_compat_source_spec_def)
  ultimately show ?thesis
    by (cases p) (auto simp: resolved_plan_iff resolved_edges_iff active_market_graph_iff active_edge_instrument_map_iff Let_def d)
qed

end
