(* ===== verification/Union_Find.thy ===== *)
theory Union_Find
  imports Prelude
begin

text \<open>
  \<open>dsu_t\<close> of \<open>src/include/kikijyeba/protocol/source_dock.h\<close>: union by rank with path compression. \<open>find\<close>
  follows parents until a node is its own; it takes one unit of fuel for each node it visits, and as many
  units as there are nodes are enough. The contract of the structure is a locale, whose client lemmas say
  that uniting pairs yields the equivalence they generate.
\<close>

section \<open>The structure\<close>

record dsu =
  dsu_parent :: "nat list"
  dsu_rank :: "nat list"

definition make_dsu :: "nat \<Rightarrow> dsu" where
  "make_dsu n = \<lparr>dsu_parent = [0..<n], dsu_rank = replicate n 0\<rparr>"

definition dsu_size :: "dsu \<Rightarrow> nat" where
  "dsu_size d = length (dsu_parent d)"

fun dsu_find_fuel :: "nat \<Rightarrow> nat \<Rightarrow> dsu \<Rightarrow> (nat \<times> dsu) option" where
  "dsu_find_fuel 0 x d = None"
| "dsu_find_fuel (Suc k) x d =
     (if dsu_parent d ! x \<noteq> x then
        (case dsu_find_fuel k (dsu_parent d ! x) d of
           None \<Rightarrow> None
         | Some (r, d') \<Rightarrow> Some (r, d'\<lparr>dsu_parent := (dsu_parent d')[x := r]\<rparr>))
      else Some (dsu_parent d ! x, d))"

definition dsu_find :: "nat \<Rightarrow> dsu \<Rightarrow> (nat \<times> dsu) option" where
  "dsu_find x d = dsu_find_fuel (dsu_size d) x d"

definition dsu_link :: "nat \<Rightarrow> nat \<Rightarrow> dsu \<Rightarrow> dsu" where
  "dsu_link a b d =
     (let (a, b) = (if dsu_rank d ! a < dsu_rank d ! b then (b, a) else (a, b));
          d1 = d\<lparr>dsu_parent := (dsu_parent d)[b := a]\<rparr>
      in if dsu_rank d1 ! a = dsu_rank d1 ! b then d1\<lparr>dsu_rank := (dsu_rank d1)[a := dsu_rank d1 ! a + 1]\<rparr> else d1)"

definition dsu_unite :: "nat \<Rightarrow> nat \<Rightarrow> dsu \<Rightarrow> dsu option" where
  "dsu_unite a b d = (case dsu_find a d of
       None \<Rightarrow> None
     | Some (ra, d1) \<Rightarrow> (case dsu_find b d1 of
           None \<Rightarrow> None
         | Some (rb, d2) \<Rightarrow> Some (if ra = rb then d2 else dsu_link ra rb d2)))"

section \<open>Roots\<close>

inductive root_of :: "dsu \<Rightarrow> nat \<Rightarrow> nat \<Rightarrow> bool" for d where
  root_here: "dsu_parent d ! x = x \<Longrightarrow> root_of d x x"
| root_above: "dsu_parent d ! x \<noteq> x \<Longrightarrow> root_of d (dsu_parent d ! x) r \<Longrightarrow> root_of d x r"

lemma root_of_deterministic: "root_of d x r \<Longrightarrow> root_of d x s \<Longrightarrow> r = s"
proof (induction arbitrary: s rule: root_of.induct)
  case (root_here x)
  from root_here.prems root_here.hyps show ?case by (cases rule: root_of.cases) auto
next
  case (root_above x r)
  from root_above.prems root_above.hyps(1) root_above.IH show ?case by (cases rule: root_of.cases) auto
qed

lemma root_of_root: "root_of d x r \<Longrightarrow> dsu_parent d ! r = r"
  by (induction rule: root_of.induct) auto

text \<open>Parents are nodes, and ranks grow strictly towards the root.\<close>

definition dsu_ok :: "dsu \<Rightarrow> bool" where
  "dsu_ok d \<longleftrightarrow> length (dsu_rank d) = dsu_size d \<and>
     (\<forall>x < dsu_size d. dsu_parent d ! x < dsu_size d \<and>
        (dsu_parent d ! x \<noteq> x \<longrightarrow> dsu_rank d ! x < dsu_rank d ! (dsu_parent d ! x)))"

lemma dsu_okD:
  assumes "dsu_ok d" "x < dsu_size d"
  shows "dsu_parent d ! x < dsu_size d" "dsu_parent d ! x \<noteq> x \<Longrightarrow> dsu_rank d ! x < dsu_rank d ! (dsu_parent d ! x)"
  using assms by (simp_all add: dsu_ok_def)

lemma root_of_bounds:
  "root_of d x r \<Longrightarrow> dsu_ok d \<Longrightarrow> x < dsu_size d \<Longrightarrow>
    r < dsu_size d \<and> (if x = r then True else dsu_rank d ! x < dsu_rank d ! r)"
proof (induction rule: root_of.induct)
  case (root_above x r)
  with dsu_okD [OF root_above.prems] show ?case by (auto split: if_splits)
qed auto

definition above :: "dsu \<Rightarrow> nat \<Rightarrow> nat set" where
  "above d x = {y. y < dsu_size d \<and> dsu_rank d ! x < dsu_rank d ! y}"

lemma above_step:
  assumes "dsu_ok d" "x < dsu_size d" "dsu_parent d ! x \<noteq> x"
  shows "card (above d (dsu_parent d ! x)) < card (above d x)"
proof (rule psubset_card_mono)
  show "finite (above d x)" by (simp add: above_def)
  show "above d (dsu_parent d ! x) \<subset> above d x"
    using dsu_okD [OF assms(1,2)] assms(3) by (auto simp: above_def)
qed

lemma root_of_total: "dsu_ok d \<Longrightarrow> x < dsu_size d \<Longrightarrow> \<exists>r. root_of d x r"
proof (induction "card (above d x)" arbitrary: x rule: less_induct)
  case less
  show ?case
  proof (cases "dsu_parent d ! x = x")
    case True
    then show ?thesis by (blast intro: root_here)
  next
    case False
    with above_step [OF less.prems False] less.hyps [OF _ less.prems(1)] dsu_okD [OF less.prems] obtain r
      where "root_of d (dsu_parent d ! x) r" by blast
    with False show ?thesis by (blast intro: root_above)
  qed
qed

text \<open>Moving a node that is not a root below another node of its tree keeps the roots.\<close>

lemma compress:
  assumes ok: "dsu_ok d" and x: "x < dsu_size d" "root_of d x r" "x \<noteq> r"
  defines "d' \<equiv> d\<lparr>dsu_parent := (dsu_parent d)[x := r]\<rparr>"
  shows "dsu_ok d' \<and> dsu_size d' = dsu_size d \<and> (\<forall>y < dsu_size d. root_of d' y s \<longleftrightarrow> root_of d y s)"
proof -
  note r = root_of_bounds [OF x(2) ok x(1)] root_of_root [OF x(2)]
  have p: "dsu_parent d' ! y = (if y = x then r else dsu_parent d ! y)" if "y < dsu_size d" for y
    using that by (simp add: d'_def dsu_size_def nth_list_update)
  have size: "dsu_size d' = dsu_size d" "dsu_rank d' = dsu_rank d" by (simp_all add: d'_def dsu_size_def)
  have ok': "dsu_ok d'"
    using ok r x(3) by (auto simp: dsu_ok_def size p split: if_splits)
  have fwd: "root_of d y s \<Longrightarrow> y < dsu_size d \<Longrightarrow> root_of d' y s" for y s
  proof (induction rule: root_of.induct)
    case (root_here y)
    have "y \<noteq> x" using root_of_deterministic [OF x(2)] root_of.root_here [OF root_here(1)] x(3) by blast
    with root_here show ?case by (intro root_of.root_here) (simp add: p)
  next
    case (root_above y s)
    show ?case
    proof (cases "y = x")
      case True
      have "root_of d x s" using root_of.root_above [OF root_above(1,2)] True by simp
      then have s: "s = r" using root_of_deterministic [OF x(2)] by simp
      have "dsu_parent d' ! r = r" using r x(3) by (simp add: p)
      then have "root_of d' (dsu_parent d' ! x) r" using p [OF x(1)] by (simp add: root_of.root_here)
      moreover have "dsu_parent d' ! x \<noteq> x" using p [OF x(1)] x(3) by simp
      ultimately show ?thesis unfolding True s by (rule root_of.root_above [rotated])
    next
      case False
      then have y: "dsu_parent d' ! y = dsu_parent d ! y" using p [OF root_above.prems] by simp
      have "root_of d' (dsu_parent d ! y) s" by (rule root_above.IH) (rule dsu_okD(1) [OF ok root_above.prems])
      then show ?thesis using root_above.hyps(1) y by (simp add: root_of.root_above)
    qed
  qed
  have "root_of d' y s \<longleftrightarrow> root_of d y s" if y: "y < dsu_size d" for y
  proof -
    obtain s' where s': "root_of d y s'" using root_of_total [OF ok y] by blast
    from fwd [OF this y] s' root_of_deterministic show ?thesis by metis
  qed
  with ok' size show ?thesis by blast
qed

section \<open>Find and unite\<close>

lemma find_fuel:
  "dsu_ok d \<Longrightarrow> x < dsu_size d \<Longrightarrow> card (above d x) < k \<Longrightarrow>
    \<exists>r d'. dsu_find_fuel k x d = Some (r, d') \<and> dsu_ok d' \<and> dsu_size d' = dsu_size d \<and> root_of d x r \<and>
      (\<forall>y < dsu_size d. \<forall>s. root_of d' y s \<longleftrightarrow> root_of d y s)"
proof (induction k arbitrary: x)
  case (Suc k)
  show ?case
  proof (cases "dsu_parent d ! x = x")
    case True
    with Suc.prems show ?thesis by (auto intro: root_here)
  next
    case False
    let ?p = "dsu_parent d ! x"
    have p: "?p < dsu_size d" using dsu_okD(1) [OF Suc.prems(1,2)] .
    have "card (above d ?p) < k" using above_step [OF Suc.prems(1,2) False] Suc.prems(3) by simp
    from Suc.IH [OF Suc.prems(1) p this] obtain r d' where r: "dsu_find_fuel k ?p d = Some (r, d')" "dsu_ok d'"
      "dsu_size d' = dsu_size d" "root_of d ?p r" "\<And>y s. y < dsu_size d \<Longrightarrow> root_of d' y s \<longleftrightarrow> root_of d y s" by blast
    have rx: "root_of d x r" using root_above [OF False r(4)] .
    have "x \<noteq> r" using root_of_root [OF rx] False by auto
    moreover have "root_of d' x r" using r(5) [OF Suc.prems(2)] rx by simp
    ultimately have c: "dsu_ok (d'\<lparr>dsu_parent := (dsu_parent d')[x := r]\<rparr>)"
      "dsu_size (d'\<lparr>dsu_parent := (dsu_parent d')[x := r]\<rparr>) = dsu_size d"
      "\<And>y s. y < dsu_size d \<Longrightarrow> root_of (d'\<lparr>dsu_parent := (dsu_parent d')[x := r]\<rparr>) y s \<longleftrightarrow> root_of d y s"
      using compress [OF r(2), of x r] Suc.prems(2) r(3,5) by simp_all
    have "dsu_find_fuel (Suc k) x d = Some (r, d'\<lparr>dsu_parent := (dsu_parent d')[x := r]\<rparr>)"
      using False r(1) by simp
    with c rx show ?thesis by blast
  qed
qed simp

lemma dsu_find_correct:
  assumes "dsu_ok d" "x < dsu_size d"
  obtains r d' where "dsu_find x d = Some (r, d')" "dsu_ok d'" "dsu_size d' = dsu_size d" "root_of d x r"
    "\<And>y s. y < dsu_size d \<Longrightarrow> root_of d' y s \<longleftrightarrow> root_of d y s"
proof -
  have "above d x \<subseteq> {y. y < dsu_size d} - {x}" by (auto simp: above_def)
  then have "card (above d x) \<le> card ({y. y < dsu_size d} - {x})" by (intro card_mono) auto
  also have "\<dots> < dsu_size d" using assms(2) by simp
  finally show thesis using find_fuel [OF assms] that unfolding dsu_find_def by blast
qed

text \<open>Linking two roots: the nodes of one tree get the root of the other.\<close>

lemma dsu_link_correct:
  assumes ok: "dsu_ok d" and a: "a < dsu_size d" "dsu_parent d ! a = a" and b: "b < dsu_size d" "dsu_parent d ! b = b" and "a \<noteq> b"
  obtains c where "c = a \<or> c = b" "dsu_ok (dsu_link a b d)" "dsu_size (dsu_link a b d) = dsu_size d"
    "\<And>y s. y < dsu_size d \<Longrightarrow> root_of d y s \<Longrightarrow> root_of (dsu_link a b d) y (if s = a \<or> s = b then c else s)"
proof -
  define c e where "c = (if dsu_rank d ! a < dsu_rank d ! b then b else a)" and "e = (if dsu_rank d ! a < dsu_rank d ! b then a else b)"
  define d' where "d' = dsu_link a b d"
  have ce: "c < dsu_size d" "e < dsu_size d" "c \<noteq> e" "dsu_parent d ! c = c" "dsu_parent d ! e = e"
    "dsu_rank d ! e \<le> dsu_rank d ! c" "{c, e} = {a, b}"
    using a b assms(6) by (auto simp: c_def e_def)
  have len: "length (dsu_rank d) = dsu_size d" using ok by (simp add: dsu_ok_def)
  have d': "d' = \<lparr>dsu_parent = (dsu_parent d)[e := c],
      dsu_rank = (if dsu_rank d ! c = dsu_rank d ! e then (dsu_rank d)[c := dsu_rank d ! c + 1] else dsu_rank d)\<rparr>"
    by (cases d) (auto simp: d'_def dsu_link_def c_def e_def Let_def)
  have size: "dsu_size d' = dsu_size d" by (simp add: d' dsu_size_def)
  have p: "dsu_parent d' ! y = (if y = e then c else dsu_parent d ! y)" if "y < dsu_size d" for y
    using that by (simp add: d' dsu_size_def nth_list_update)
  have r: "dsu_rank d' ! y = (if y = c \<and> dsu_rank d ! c = dsu_rank d ! e then dsu_rank d ! y + 1 else dsu_rank d ! y)"
    if "y < dsu_size d" for y using that len by (simp add: d' nth_list_update)
  have "length (dsu_rank d') = dsu_size d'" using len size by (simp add: d')
  moreover have "dsu_parent d' ! y < dsu_size d' \<and> (dsu_parent d' ! y \<noteq> y \<longrightarrow> dsu_rank d' ! y < dsu_rank d' ! (dsu_parent d' ! y))"
    if y: "y < dsu_size d'" for y
  proof (cases "y = e")
    case True
    then show ?thesis using ce y size by (auto simp: p r)
  next
    case False
    with y size have "dsu_parent d' ! y = dsu_parent d ! y" by (simp add: p)
    moreover have py: "y < dsu_size d" "dsu_parent d ! y < dsu_size d" using dsu_okD(1) [OF ok] y size by simp_all
    moreover have "dsu_rank d ! y < dsu_rank d ! (dsu_parent d ! y)" if "dsu_parent d ! y \<noteq> y"
      using dsu_okD(2) [OF ok py(1) that] .
    ultimately show ?thesis using ce(4) size by (cases "y = c") (auto simp: r less_Suc_eq)
  qed
  ultimately have ok': "dsu_ok d'" by (simp add: dsu_ok_def)
  have "root_of d y s \<Longrightarrow> y < dsu_size d \<Longrightarrow> root_of d' y (if s = a \<or> s = b then c else s)" for y s
  proof (induction rule: root_of.induct)
    case (root_here y)
    have here: "dsu_parent d' ! c = c" using ce(1,3,4) by (simp add: p)
    show ?case
    proof (cases "y = e")
      case True
      have "root_of d' e c" using p [OF ce(2)] here ce(3) by (simp add: root_of.root_above root_of.root_here)
      with True ce(7) show ?thesis by auto
    next
      case False
      then have "root_of d' y y" using p [OF root_here.prems] root_here.hyps by (simp add: root_of.root_here)
      with False ce(7) show ?thesis by auto
    qed
  next
    case (root_above y s)
    then have "y \<noteq> e" using ce(5) by auto
    then have y: "dsu_parent d' ! y = dsu_parent d ! y" using p [OF root_above.prems] by simp
    have "root_of d' (dsu_parent d ! y) (if s = a \<or> s = b then c else s)"
      by (rule root_above.IH) (rule dsu_okD(1) [OF ok root_above.prems])
    then show ?case using root_above.hyps(1) y by (simp add: root_of.root_above)
  qed
  moreover have "c = a \<or> c = b" by (simp add: c_def)
  ultimately show thesis using ok' size that [of c] unfolding d'_def [symmetric] by blast
qed

section \<open>The contract\<close>

text \<open>
  Every node has a root; finding keeps the roots, uniting gives the nodes of two roots one of them.
\<close>

locale disjoint_sets =
  fixes wf :: "'d \<Rightarrow> bool"
    and nodes :: "'d \<Rightarrow> nat"
    and root_node :: "'d \<Rightarrow> nat \<Rightarrow> nat"
    and find :: "nat \<Rightarrow> 'd \<Rightarrow> (nat \<times> 'd) option"
    and unite :: "nat \<Rightarrow> nat \<Rightarrow> 'd \<Rightarrow> 'd option"
  assumes root_bound: "wf d \<Longrightarrow> x < nodes d \<Longrightarrow> root_node d x < nodes d"
    and root_root: "wf d \<Longrightarrow> x < nodes d \<Longrightarrow> root_node d (root_node d x) = root_node d x"
    and find_step: "wf d \<Longrightarrow> x < nodes d \<Longrightarrow> \<exists>d'. find x d = Some (root_node d x, d') \<and> wf d' \<and> nodes d' = nodes d \<and>
      (\<forall>y < nodes d. root_node d' y = root_node d y)"
    and unite_step: "wf d \<Longrightarrow> a < nodes d \<Longrightarrow> b < nodes d \<Longrightarrow>
      \<exists>d' c. unite a b d = Some d' \<and> wf d' \<and> nodes d' = nodes d \<and> (c = root_node d a \<or> c = root_node d b) \<and>
        (\<forall>y < nodes d. root_node d' y =
          (if root_node d y = root_node d a \<or> root_node d y = root_node d b then c else root_node d y))"
begin

fun unite_all :: "(nat \<times> nat) list \<Rightarrow> 'd \<Rightarrow> 'd option" where
  "unite_all [] d = Some d"
| "unite_all ((a, b) # ps) d = (case unite a b d of None \<Rightarrow> None | Some d' \<Rightarrow> unite_all ps d')"

fun find_all :: "nat list \<Rightarrow> 'd \<Rightarrow> (nat list \<times> 'd) option" where
  "find_all [] d = Some ([], d)"
| "find_all (x # xs) d = (case find x d of None \<Rightarrow> None
     | Some (r, d') \<Rightarrow> (case find_all xs d' of None \<Rightarrow> None | Some (rs, d'') \<Rightarrow> Some (r # rs, d'')))"

definition linked :: "'d \<Rightarrow> nat \<Rightarrow> nat \<Rightarrow> bool" where
  "linked d x y \<longleftrightarrow> x < nodes d \<and> y < nodes d \<and> root_node d x = root_node d y"

definition classes :: "'d \<Rightarrow> nat" where
  "classes d = card (root_node d ` {..<nodes d})"

text \<open>The equivalence that pairs of nodes generate: the least one that holds them.\<close>

lemma unite_linked:
  assumes "wf d" "a < nodes d" "b < nodes d"
  obtains d' where "unite a b d = Some d'" "wf d'" "nodes d' = nodes d"
    "\<And>x y. linked d' x y \<longleftrightarrow> linked d x y \<or> linked d x a \<and> linked d b y \<or> linked d x b \<and> linked d a y"
    "classes d \<le> classes d' + 1"
proof -
  obtain d' c where d': "unite a b d = Some d'" "wf d'" "nodes d' = nodes d" "c = root_node d a \<or> c = root_node d b"
    "\<And>y. y < nodes d \<Longrightarrow> root_node d' y =
      (if root_node d y = root_node d a \<or> root_node d y = root_node d b then c else root_node d y)"
    using unite_step [OF assms] by blast
  have "linked d' x y \<longleftrightarrow> linked d x y \<or> linked d x a \<and> linked d b y \<or> linked d x b \<and> linked d a y" for x y
    using d'(3,4,5) assms(2,3) unfolding linked_def by (cases "x < nodes d \<and> y < nodes d") (auto split: if_splits)
  moreover have "classes d \<le> classes d' + 1"
  proof -
    let ?N = "{..<nodes d}" and ?e = "if c = root_node d a then root_node d b else root_node d a"
    have "root_node d ` ?N \<subseteq> insert ?e (root_node d' ` ?N)"
    proof (rule image_subsetI)
      fix y assume "y \<in> ?N"
      with d'(4) d'(5) [of y] d'(5) [OF assms(2)] d'(5) [OF assms(3)] assms(2,3)
      show "root_node d y \<in> insert ?e (root_node d' ` ?N)"
        by (cases "root_node d y = root_node d a \<or> root_node d y = root_node d b")
          (auto simp: image_iff Bex_def split: if_splits)
    qed
    then have "card (root_node d ` ?N) \<le> card (insert ?e (root_node d' ` ?N))" by (intro card_mono) auto
    also have "\<dots> \<le> card (root_node d' ` ?N) + 1" by (simp add: card_insert_if)
    finally show ?thesis by (simp add: classes_def d'(3))
  qed
  ultimately show thesis using d'(1-3) that by blast
qed

lemma linked_refl: "x < nodes d \<Longrightarrow> linked d x x"
  by (simp add: linked_def)

lemma linked_sym: "linked d x y \<Longrightarrow> linked d y x"
  by (simp add: linked_def)

lemma linked_trans: "linked d x y \<Longrightarrow> linked d y z \<Longrightarrow> linked d x z"
  by (simp add: linked_def)

definition generated :: "(nat \<times> nat) set \<Rightarrow> nat \<Rightarrow> nat \<Rightarrow> bool" where
  "generated R x y \<longleftrightarrow> (x, y) \<in> (R \<union> R\<inverse>)\<^sup>*"

lemma generated_linked:
  assumes "\<And>a b. (a, b) \<in> R \<Longrightarrow> linked d a b" "generated R x y" "x < nodes d"
  shows "linked d x y"
  using assms(2) unfolding generated_def
proof (induction rule: rtrancl_induct)
  case base
  show ?case using assms(3) by (rule linked_refl)
next
  case (step y z)
  then have "linked d y z" using assms(1) linked_sym by blast
  with step.IH show ?case by (rule linked_trans)
qed

lemma generated_trans: "generated R x y \<Longrightarrow> generated R y z \<Longrightarrow> generated R x z"
  unfolding generated_def by (rule rtrancl_trans)

lemma generated_pair: "(a, b) \<in> R \<Longrightarrow> generated R a b \<and> generated R b a"
  unfolding generated_def by auto

lemma unite_all_linked:
  "wf d \<Longrightarrow> set ps \<subseteq> {..<nodes d} \<times> {..<nodes d} \<Longrightarrow> (\<And>x y. linked d x y \<Longrightarrow> generated R x y) \<Longrightarrow> set ps \<subseteq> R \<Longrightarrow>
    \<exists>d'. unite_all ps d = Some d' \<and> wf d' \<and> nodes d' = nodes d \<and> (\<forall>x y. linked d x y \<longrightarrow> linked d' x y) \<and>
      (\<forall>(a, b) \<in> set ps. linked d' a b) \<and> (\<forall>x y. linked d' x y \<longrightarrow> generated R x y) \<and> classes d \<le> classes d' + length ps"
proof (induction ps arbitrary: d)
  case (Cons p ps)
  obtain a b where p: "p = (a, b)" by fastforce
  with Cons.prems have ab: "a < nodes d" "b < nodes d" "(a, b) \<in> R" by auto
  obtain d1 where d1: "unite a b d = Some d1" "wf d1" "nodes d1 = nodes d"
    "\<And>x y. linked d1 x y \<longleftrightarrow> linked d x y \<or> linked d x a \<and> linked d b y \<or> linked d x b \<and> linked d a y"
    "classes d \<le> classes d1 + 1"
    by (rule unite_linked [OF Cons.prems(1) ab(1,2)]) blast
  have "generated R x y" if "linked d1 x y" for x y
    using that Cons.prems(3) generated_pair [OF ab(3)] generated_trans unfolding d1(4) by metis
  then obtain d' where d': "unite_all ps d1 = Some d'" "wf d'" "nodes d' = nodes d1" "\<And>x y. linked d1 x y \<Longrightarrow> linked d' x y"
    "\<forall>(a, b) \<in> set ps. linked d' a b" "\<forall>x y. linked d' x y \<longrightarrow> generated R x y" "classes d1 \<le> classes d' + length ps"
    using Cons.IH [OF d1(2)] Cons.prems(2,4) d1(3) by auto
  have "linked d1 a b" using d1(4) linked_refl ab by blast
  moreover have "classes d \<le> classes d' + length (p # ps)" using d1(5) d'(7) by simp
  ultimately show ?case using d1 d' p by auto
qed auto

text \<open>From a structure where no two nodes are linked, uniting pairs links what they generate.\<close>

lemma unite_all_generates:
  assumes "wf d" "\<And>x y. linked d x y \<Longrightarrow> x = y" "set ps \<subseteq> {..<nodes d} \<times> {..<nodes d}"
  obtains d' where "unite_all ps d = Some d'" "wf d'" "nodes d' = nodes d"
    "\<And>x y. x < nodes d \<Longrightarrow> y < nodes d \<Longrightarrow> root_node d' x = root_node d' y \<longleftrightarrow> generated (set ps) x y"
    "classes d \<le> classes d' + length ps"
proof -
  have "generated (set ps) x y" if "linked d x y" for x y
    using assms(2) [OF that] by (simp add: generated_def)
  then obtain d' where d': "unite_all ps d = Some d'" "wf d'" "nodes d' = nodes d"
    "\<And>a b. (a, b) \<in> set ps \<Longrightarrow> linked d' a b" "\<And>x y. linked d' x y \<Longrightarrow> generated (set ps) x y"
    "classes d \<le> classes d' + length ps"
    using unite_all_linked [OF assms(1,3), of "set ps"] by blast
  have "root_node d' x = root_node d' y \<longleftrightarrow> generated (set ps) x y" if "x < nodes d" "y < nodes d" for x y
    using generated_linked [of "set ps" d' x y] d'(3,4,5) that by (auto simp: linked_def)
  with d' that show thesis by blast
qed

text \<open>The roots of all nodes: as many different ones as there are classes.\<close>

lemma find_all_roots:
  "wf d \<Longrightarrow> set xs \<subseteq> {..<nodes d} \<Longrightarrow> \<exists>d'. find_all xs d = Some (map (root_node d) xs, d')"
proof (induction xs arbitrary: d)
  case (Cons x xs)
  then obtain d1 where d1: "find x d = Some (root_node d x, d1)" "wf d1" "nodes d1 = nodes d"
    "\<And>y. y < nodes d \<Longrightarrow> root_node d1 y = root_node d y"
    using find_step [of d x] by auto
  moreover obtain d' where "find_all xs d1 = Some (map (root_node d1) xs, d')" using Cons.IH [of d1] d1 Cons.prems(2) by auto
  moreover have "map (root_node d1) xs = map (root_node d) xs" using d1(4) Cons.prems(2) by auto
  ultimately show ?case by simp
qed auto

end

section \<open>The structure meets the contract\<close>

definition dsu_root :: "dsu \<Rightarrow> nat \<Rightarrow> nat" where
  "dsu_root d x = (THE r. root_of d x r)"

lemma dsu_root_iff: "dsu_ok d \<Longrightarrow> x < dsu_size d \<Longrightarrow> dsu_root d x = r \<longleftrightarrow> root_of d x r"
  unfolding dsu_root_def using root_of_total root_of_deterministic by (metis the_equality)

interpretation dsu: disjoint_sets dsu_ok dsu_size dsu_root dsu_find dsu_unite
proof
  fix d x assume d: "dsu_ok d" "x < dsu_size d"
  then have r: "root_of d x (dsu_root d x)" using dsu_root_iff by blast
  show b: "dsu_root d x < dsu_size d" using root_of_bounds [OF r d] by simp
  show "dsu_root d (dsu_root d x) = dsu_root d x"
    using dsu_root_iff [OF d(1) b] root_here [OF root_of_root [OF r]] by simp
  show "\<exists>d'. dsu_find x d = Some (dsu_root d x, d') \<and> dsu_ok d' \<and> dsu_size d' = dsu_size d \<and>
      (\<forall>y < dsu_size d. dsu_root d' y = dsu_root d y)"
  proof -
    obtain r' d' where d': "dsu_find x d = Some (r', d')" "dsu_ok d'" "dsu_size d' = dsu_size d" "root_of d x r'"
      "\<And>y s. y < dsu_size d \<Longrightarrow> root_of d' y s \<longleftrightarrow> root_of d y s" using dsu_find_correct [OF d] by blast
    then have "dsu_root d' y = dsu_root d y" if "y < dsu_size d" for y
      using that dsu_root_iff d(1) by metis
    moreover have "r' = dsu_root d x" using d'(4) dsu_root_iff [OF d, of r'] by simp
    ultimately show ?thesis using d' by blast
  qed
next
  fix d a b assume d: "dsu_ok d" "a < dsu_size d" "b < dsu_size d"
  obtain ra d1 where d1: "dsu_find a d = Some (ra, d1)" "dsu_ok d1" "dsu_size d1 = dsu_size d" "root_of d a ra"
    "\<And>y s. y < dsu_size d \<Longrightarrow> root_of d1 y s \<longleftrightarrow> root_of d y s" using dsu_find_correct [OF d(1,2)] by blast
  have b1: "b < dsu_size d1" using d(3) d1(3) by simp
  obtain rb d2 where d2: "dsu_find b d1 = Some (rb, d2)" "dsu_ok d2" "dsu_size d2 = dsu_size d1" "root_of d1 b rb"
    "\<And>y s. y < dsu_size d1 \<Longrightarrow> root_of d2 y s \<longleftrightarrow> root_of d1 y s" using dsu_find_correct [OF d1(2) b1] by blast
  have eq: "root_of d2 y s \<longleftrightarrow> root_of d y s" "dsu_root d2 y = dsu_root d y" if "y < dsu_size d" for y s
    using that d1 d2 dsu_root_iff d(1) by (simp_all, metis)
  have r: "ra = dsu_root d a" "rb = dsu_root d b"
    using d1(4,5) d2(4) d(3) dsu_root_iff [OF d(1,2), of ra] dsu_root_iff [OF d(1,3), of rb] by simp_all
  let ?d' = "if ra = rb then d2 else dsu_link ra rb d2"
  have u: "dsu_unite a b d = Some ?d'" using d1(1) d2(1) by (simp add: dsu_unite_def)
  show "\<exists>d' c. dsu_unite a b d = Some d' \<and> dsu_ok d' \<and> dsu_size d' = dsu_size d \<and> (c = dsu_root d a \<or> c = dsu_root d b) \<and>
      (\<forall>y < dsu_size d. dsu_root d' y =
        (if dsu_root d y = dsu_root d a \<or> dsu_root d y = dsu_root d b then c else dsu_root d y))"
  proof (cases "ra = rb")
    case True
    then have "dsu_unite a b d = Some d2" using u by simp
    then show ?thesis using True r d2(2,3) d1(3) eq(2) by (intro exI [of _ d2] exI [of _ ra]) auto
  next
    case False
    have R: "root_of d a ra" "root_of d b rb" using d1(4) d2(4) d1(5) d(3) by auto
    have bounds: "ra < dsu_size d2" "rb < dsu_size d2"
      using root_of_bounds [OF R(1) d(1,2)] root_of_bounds [OF R(2) d(1,3)] d1(3) d2(3) by simp_all
    have "root_of d2 a ra" "root_of d2 b rb" using R eq(1) d(2,3) by simp_all
    then have "dsu_parent d2 ! ra = ra" "dsu_parent d2 ! rb = rb" by (simp_all add: root_of_root)
    from dsu_link_correct [OF d2(2) bounds(1) this(1) bounds(2) this(2) False] obtain c where
      c: "c = ra \<or> c = rb" "dsu_ok (dsu_link ra rb d2)" "dsu_size (dsu_link ra rb d2) = dsu_size d2"
      "\<And>y s. y < dsu_size d2 \<Longrightarrow> root_of d2 y s \<Longrightarrow> root_of (dsu_link ra rb d2) y (if s = ra \<or> s = rb then c else s)"
      by blast
    have "dsu_root (dsu_link ra rb d2) y = (if dsu_root d y = ra \<or> dsu_root d y = rb then c else dsu_root d y)"
      if y: "y < dsu_size d" for y
    proof -
      have "root_of d2 y (dsu_root d y)" using dsu_root_iff [OF d(1) y] eq(1) [OF y] by blast
      from c(4) [OF _ this] y d1(3) d2(3) c(2,3) show ?thesis using dsu_root_iff by simp
    qed
    with c u False r d1(3) d2(3) show ?thesis by (intro exI [of _ "dsu_link ra rb d2"] exI [of _ c]) auto
  qed
qed

lemma make_dsu_ok: "dsu_ok (make_dsu n) \<and> dsu_size (make_dsu n) = n"
  by (simp add: make_dsu_def dsu_ok_def dsu_size_def)

lemma make_dsu_root: "x < n \<Longrightarrow> dsu_root (make_dsu n) x = x"
  using dsu_root_iff [of "make_dsu n" x x] make_dsu_ok [of n] root_here [of "make_dsu n" x] by (simp add: make_dsu_def)

lemma make_dsu_discrete: "dsu.linked (make_dsu n) x y \<Longrightarrow> x = y"
  using make_dsu_ok [of n] by (auto simp: dsu.linked_def make_dsu_root)

lemma make_dsu_classes: "dsu.classes (make_dsu n) = n"
proof -
  have "dsu_root (make_dsu n) ` {..<n} = {..<n}" using make_dsu_root by force
  then show ?thesis using make_dsu_ok [of n] by (simp add: dsu.classes_def)
qed

section \<open>The property\<close>

text \<open>
  C36: uniting pairs of nodes of a fresh structure returns, every \<open>find\<close> inside within the fuel of one unit
  per node, and afterwards two nodes have the same root exactly when a path over the pairs leads from one
  to the other; finding the root of any node returns too.
\<close>

theorem united_pairs_generate:
  assumes "set ps \<subseteq> {..<n} \<times> {..<n}"
  shows "\<exists>d. fold (\<lambda>(a, b) m. Option.bind m (dsu_unite a b)) ps (Some (make_dsu n)) = Some d \<and> dsu_size d = n \<and>
    (\<forall>x < n. \<forall>y < n. \<exists>r s d' d''. dsu_find x d = Some (r, d') \<and> dsu_find y d = Some (s, d'') \<and> r < n \<and>
      (r = s \<longleftrightarrow> (x, y) \<in> (set ps \<union> (set ps)\<inverse>)\<^sup>*))"
proof -
  have fold: "fold (\<lambda>(a, b) m. Option.bind m (dsu_unite a b)) ps (Some d) = dsu.unite_all ps d" for d
  proof (induction ps arbitrary: d)
    case (Cons p ps)
    have "fold (\<lambda>(a, b) m. Option.bind m (dsu_unite a b)) ps None = None" by (induction ps) auto
    with Cons.IH show ?case by (cases p; cases "dsu_unite (fst p) (snd p) d") simp_all
  qed simp
  have ok: "dsu_ok (make_dsu n)" "dsu_size (make_dsu n) = n" using make_dsu_ok by auto
  obtain d where d: "dsu.unite_all ps (make_dsu n) = Some d" "dsu_ok d" "dsu_size d = dsu_size (make_dsu n)"
    "\<And>x y. x < dsu_size (make_dsu n) \<Longrightarrow> y < dsu_size (make_dsu n) \<Longrightarrow> dsu_root d x = dsu_root d y \<longleftrightarrow> dsu.generated (set ps) x y"
    by (rule dsu.unite_all_generates [OF ok(1) make_dsu_discrete]) (use assms ok in auto)
  have "\<exists>r s d' d''. dsu_find x d = Some (r, d') \<and> dsu_find y d = Some (s, d'') \<and> r < n \<and>
      (r = s \<longleftrightarrow> (x, y) \<in> (set ps \<union> (set ps)\<inverse>)\<^sup>*)" if "x < n" "y < n" for x y
    using dsu.find_step [OF d(2), of x] dsu.find_step [OF d(2), of y] dsu.root_bound [OF d(2), of x] d(3,4) ok(2) that
    by (force simp: dsu.generated_def)
  then show ?thesis using d(1,3) ok(2) fold by auto
qed

theorem united_pairs_generate_witness:
  "\<exists>d. fold (\<lambda>(a, b) m. Option.bind m (dsu_unite a b)) [(0, 1), (2, 1)] (Some (make_dsu 4)) = Some d \<and> dsu_size d = 4"
  using united_pairs_generate [of "[(0, 1), (2, 1)]" 4] by auto

end
