(* ===== verification/Source_Report.thy ===== *)
theory Source_Report
  imports Source_Dock Union_Find
begin

text \<open>
  \<open>analyze_graph_first_source_resolution\<close> of \<open>src/include/kikijyeba/protocol/source_dock.h\<close>: the report on
  how a dock resolves against a universe, in the stages of the function. A stage is a fold over the report
  and the local containers it fills; the report is \<open>None\<close> only if the union-find structure were to run out
  of fuel, which does not happen. Node indices are natural numbers.
\<close>

section \<open>The report\<close>

record resolution_warning =
  rw_code :: string
  rw_message :: string
  rw_edge_id :: string
  rw_reverse_edge_id :: string
  rw_node_id :: string
  rw_source_instrument :: string

record resolution_report =
  rr_edge_resolution_policy :: string
  rr_edge_source_kind :: string
  rr_fetch_mode :: string
  rr_max_fetch_workers :: int
  rr_parallel_min_work_items :: int
  rr_active_node_count :: int
  rr_possible_directed_edge_count :: int
  rr_available_source_directed_edge_count :: int
  rr_selected_edge_count :: int
  rr_missing_directed_pair_count :: int
  rr_available_unselected_edge_count :: int
  rr_selected_missing_source_edge_count :: int
  rr_reverse_pair_count :: int
  rr_selected_missing_reverse_count :: int
  rr_isolated_node_count :: int
  rr_connected_component_count :: int
  rr_selected_cycle_dimension :: int
  rr_active_node_ids :: "string list"
  rr_selected_edge_ids :: "string list"
  rr_available_source_edge_ids :: "string list"
  rr_missing_directed_pairs :: "string list"
  rr_available_unselected_edge_ids :: "string list"
  rr_selected_missing_source_edge_ids :: "string list"
  rr_isolated_node_ids :: "string list"
  rr_in_degree :: "int list"
  rr_out_degree :: "int list"
  rr_warnings :: "resolution_warning list"

definition report_has_warnings :: "resolution_report \<Rightarrow> bool" where
  "report_has_warnings r \<longleftrightarrow> rr_warnings r \<noteq> []"

definition report_summary :: "resolution_report \<Rightarrow> string" where
  "report_summary r =
     ''graph_first_source_resolution: edge_policy='' @ rr_edge_resolution_policy r @
     '' edge_source_kind='' @ rr_edge_source_kind r @ '' fetch_mode='' @ rr_fetch_mode r @
     '' max_fetch_workers='' @ show_int (rr_max_fetch_workers r) @
     '' parallel_min_work_items='' @ show_int (rr_parallel_min_work_items r) @
     '' active_nodes='' @ show_int (rr_active_node_count r) @
     '' possible_directed_edges='' @ show_int (rr_possible_directed_edge_count r) @
     '' available_source_edges='' @ show_int (rr_available_source_directed_edge_count r) @
     '' selected_edges='' @ show_int (rr_selected_edge_count r) @
     '' missing_directed_pairs='' @ show_int (rr_missing_directed_pair_count r) @
     '' available_unselected_edges='' @ show_int (rr_available_unselected_edge_count r) @
     '' selected_missing_source_edges='' @ show_int (rr_selected_missing_source_edge_count r) @
     '' reverse_pairs='' @ show_int (rr_reverse_pair_count r) @
     '' missing_selected_reverses='' @ show_int (rr_selected_missing_reverse_count r) @
     '' isolated_nodes='' @ show_int (rr_isolated_node_count r) @
     '' connected_components='' @ show_int (rr_connected_component_count r) @
     '' cycle_dimension='' @ show_int (rr_selected_cycle_dimension r) @
     '' warnings='' @ show_nat (length (rr_warnings r))"

definition empty_report :: "graph_first_source_dock \<Rightarrow> resolution_report" where
  "empty_report dock = \<lparr>
     rr_edge_resolution_policy = edge_resolution_policy_name (gd_edge_resolution_policy dock),
     rr_edge_source_kind = gd_edge_source_kind dock, rr_fetch_mode = fetch_mode_name (gd_fetch_mode dock),
     rr_max_fetch_workers = gd_max_fetch_workers dock, rr_parallel_min_work_items = gd_parallel_min_work_items dock,
     rr_active_node_count = 0, rr_possible_directed_edge_count = 0, rr_available_source_directed_edge_count = 0,
     rr_selected_edge_count = 0, rr_missing_directed_pair_count = 0, rr_available_unselected_edge_count = 0,
     rr_selected_missing_source_edge_count = 0, rr_reverse_pair_count = 0, rr_selected_missing_reverse_count = 0,
     rr_isolated_node_count = 0, rr_connected_component_count = 0, rr_selected_cycle_dimension = 0,
     rr_active_node_ids = [], rr_selected_edge_ids = [], rr_available_source_edge_ids = [], rr_missing_directed_pairs = [],
     rr_available_unselected_edge_ids = [], rr_selected_missing_source_edge_ids = [], rr_isolated_node_ids = [],
     rr_in_degree = [], rr_out_degree = [], rr_warnings = []\<rparr>"

definition add_warning ::
  "string \<Rightarrow> string \<Rightarrow> string \<Rightarrow> string \<Rightarrow> string \<Rightarrow> string \<Rightarrow> resolution_report \<Rightarrow> resolution_report"
where
  "add_warning code message edge_id reverse_edge_id node_id source_instrument r =
     r\<lparr>rr_warnings := rr_warnings r @ [\<lparr>rw_code = code, rw_message = message, rw_edge_id = edge_id,
       rw_reverse_edge_id = reverse_edge_id, rw_node_id = node_id, rw_source_instrument = source_instrument\<rparr>]\<rparr>"

definition edge_pair_label :: "string \<Rightarrow> string \<Rightarrow> string" where
  "edge_pair_label base quote = base @ ''->'' @ quote"

definition candidate_label :: "edge_candidate_key \<Rightarrow> string" where
  "candidate_label = (\<lambda>(instrument, base, quote). instrument @ '':'' @ edge_pair_label base quote)"

section \<open>Nodes\<close>

text \<open>\<open>node_to_index\<close> is the position of a name in \<open>active_node_ids\<close>.\<close>

definition report_node :: "graph_node_form \<Rightarrow> resolution_report \<Rightarrow> resolution_report" where
  "report_node n r =
     (if \<not> graph_first_dock_active_text (gn_active n) then r
      else if gn_node_id n \<in> set (rr_active_node_ids r) then
        add_warning ''duplicate_active_node'' ''duplicate active node id in graph dock'' [] [] (gn_node_id n) [] r
      else r\<lparr>rr_active_node_ids := rr_active_node_ids r @ [gn_node_id n]\<rparr>)"

definition report_nodes :: "graph_first_source_dock \<Rightarrow> resolution_report" where
  "report_nodes dock =
     (let r = fold report_node (gd_graph_node_forms dock) (empty_report dock);
          n = int (length (rr_active_node_ids r));
          r = r\<lparr>rr_active_node_count := n, rr_possible_directed_edge_count := n * max 0 (n - 1),
                rr_in_degree := replicate (length (rr_active_node_ids r)) 0,
                rr_out_degree := replicate (length (rr_active_node_ids r)) 0\<rparr>;
          r = (if rr_active_node_ids r = [] then
                 add_warning ''empty_active_node_set'' ''graph-first dock has no active nodes'' [] [] [] [] r else r)
      in if active_channels dock = [] then
           add_warning ''empty_active_channel_set'' ''graph-first dock has no active channels'' [] [] [] [] r
         else r)"

section \<open>Available edges\<close>

definition report_coverage :: "source_universe \<Rightarrow> graph_first_source_dock \<Rightarrow> resolution_report \<Rightarrow> coverage" where
  "report_coverage u dock r =
     fold (cover_source dock (set (rr_active_node_ids r)) (active_channels dock)) (su_source_forms u) []"

definition report_candidates :: "source_universe \<Rightarrow> graph_first_source_dock \<Rightarrow> resolution_report \<Rightarrow> edge_candidate_key list" where
  "report_candidates u dock r =
     (let required = length (active_channels dock) in
      map fst (filter (\<lambda>(k, ls). required > 0 \<and> length ls = required) (sort_key fst (report_coverage u dock r))))"

definition missing_pairs :: "edge_candidate_key list \<Rightarrow> string list \<Rightarrow> string list" where
  "missing_pairs candidates nodes =
     concat (map (\<lambda>base. map (edge_pair_label base)
       (filter (\<lambda>quote. base \<noteq> quote \<and> (base, quote) \<notin> set (map snd candidates)) nodes)) nodes)"

definition report_available :: "edge_candidate_key list \<Rightarrow> resolution_report \<Rightarrow> resolution_report" where
  "report_available candidates r =
     (let missing = missing_pairs candidates (rr_active_node_ids r);
          r = r\<lparr>rr_available_source_edge_ids := sort (map candidate_label candidates),
                rr_available_source_directed_edge_count := int (length candidates),
                rr_missing_directed_pairs := missing, rr_missing_directed_pair_count := int (length missing)\<rparr>
      in if missing \<noteq> [] then
           add_warning ''missing_available_directed_pairs''
             ''some active node ordered pairs have no real source coverage for all active channels'' [] [] [] [] r
         else r)"

section \<open>Selected edges\<close>

record selected_edge =
  se_edge_id :: string
  se_source_instrument :: string
  se_base_node :: string
  se_quote_node :: string

record selection =
  sl_report :: resolution_report
  sl_edges :: "selected_edge list"
  sl_seen :: "string set"
  sl_candidates :: "edge_candidate_key set"

definition bump :: "string list \<Rightarrow> string \<Rightarrow> int list \<Rightarrow> int list" where
  "bump nodes n degrees = (case index_of n nodes of None \<Rightarrow> degrees | Some i \<Rightarrow> degrees[i := degrees ! i + 1])"

definition select_edge :: "edge_candidate_key list \<Rightarrow> graph_edge_form \<Rightarrow> selection \<Rightarrow> selection" where
  "select_edge available e s =
     (let r = sl_report s; nodes = rr_active_node_ids r in
      if \<not> graph_first_dock_active_text (ge_active e) then s
      else if ge_edge_id e \<in> sl_seen s then
        s\<lparr>sl_report := add_warning ''duplicate_selected_edge'' ''duplicate selected edge id in graph dock'' (ge_edge_id e) [] [] [] r\<rparr>
      else
        let s = s\<lparr>sl_seen := insert (ge_edge_id e) (sl_seen s)\<rparr>;
            r = r\<lparr>rr_selected_edge_ids := rr_selected_edge_ids r @ [ge_edge_id e]\<rparr> in
        if ge_base_node e \<notin> set nodes \<or> ge_quote_node e \<notin> set nodes \<or> ge_base_node e = ge_quote_node e then
          s\<lparr>sl_report := add_warning ''invalid_selected_edge_endpoints''
            ''selected edge endpoints are not valid active nodes'' (ge_edge_id e) [] [] [] r\<rparr>
        else
          let instrument = (if ge_source_instrument e = [] then ge_edge_id e else ge_source_instrument e);
              candidate = (instrument, ge_base_node e, ge_quote_node e);
              found = candidate \<in> set available;
              r = (if found then r
                   else add_warning ''selected_edge_missing_source_coverage''
                     ''selected edge does not have full real source coverage for all active channels'' (ge_edge_id e) [] [] instrument
                     (r\<lparr>rr_selected_missing_source_edge_ids := rr_selected_missing_source_edge_ids r @ [ge_edge_id e]\<rparr>))
          in s\<lparr>sl_candidates := (if found then insert candidate (sl_candidates s) else sl_candidates s),
               sl_edges := sl_edges s @ [\<lparr>se_edge_id = ge_edge_id e, se_source_instrument = instrument,
                 se_base_node = ge_base_node e, se_quote_node = ge_quote_node e\<rparr>],
               sl_report := r\<lparr>rr_out_degree := bump nodes (ge_base_node e) (rr_out_degree r),
                 rr_in_degree := bump nodes (ge_quote_node e) (rr_in_degree r)\<rparr>\<rparr>)"

definition select_edges :: "graph_first_source_dock \<Rightarrow> edge_candidate_key list \<Rightarrow> resolution_report \<Rightarrow> selection" where
  "select_edges dock available r =
     (let s = fold (select_edge available) (gd_graph_edge_forms dock)
            \<lparr>sl_report = r, sl_edges = [], sl_seen = {}, sl_candidates = {}\<rparr>;
          r = sl_report s;
          unselected = map candidate_label (filter (\<lambda>c. c \<notin> sl_candidates s) available);
          r = r\<lparr>rr_selected_edge_count := int (length (sl_edges s)),
                rr_selected_missing_source_edge_count := int (length (rr_selected_missing_source_edge_ids r)),
                rr_available_unselected_edge_ids := unselected,
                rr_available_unselected_edge_count := int (length unselected)\<rparr>
      in s\<lparr>sl_report := if unselected \<noteq> [] then
           add_warning ''available_unselected_edges''
             ''real source edges exist for active nodes but are not selected by the graph dock'' [] [] [] [] r
         else r\<rparr>)"

definition reverse_of :: "selected_edge \<Rightarrow> selected_edge \<Rightarrow> bool" where
  "reverse_of e f \<longleftrightarrow> se_base_node f = se_quote_node e \<and> se_quote_node f = se_base_node e"

definition report_reverses :: "selected_edge list \<Rightarrow> resolution_report \<Rightarrow> resolution_report" where
  "report_reverses es r =
     (let reverses = (\<lambda>i. filter (\<lambda>j. reverse_of (es ! i) (es ! j)) [0..<length es]) in
      fold (\<lambda>i r.
          if reverses i = [] then r\<lparr>rr_selected_missing_reverse_count := rr_selected_missing_reverse_count r + 1\<rparr>
          else r\<lparr>rr_reverse_pair_count := rr_reverse_pair_count r + int (length (filter (\<lambda>j. i < j) (reverses i)))\<rparr>)
        [0..<length es] r)"

section \<open>Components\<close>

fun unite_selected :: "string list \<Rightarrow> selected_edge list \<Rightarrow> dsu \<times> int \<Rightarrow> (dsu \<times> int) option" where
  "unite_selected nodes [] st = Some st"
| "unite_selected nodes (e # es) (d, n) =
     (case (index_of (se_base_node e) nodes, index_of (se_quote_node e) nodes) of
        (Some b, Some q) \<Rightarrow> (case dsu_unite b q d of None \<Rightarrow> None | Some d' \<Rightarrow> unite_selected nodes es (d', n + 1))
      | _ \<Rightarrow> unite_selected nodes es (d, n))"

definition report_degree :: "nat \<Rightarrow> resolution_report \<Rightarrow> resolution_report" where
  "report_degree n r =
     (if rr_in_degree r ! n = 0 \<and> rr_out_degree r ! n = 0 then
        add_warning ''isolated_active_node'' ''active node has no selected incident edge'' [] [] (rr_active_node_ids r ! n) []
          (r\<lparr>rr_isolated_node_count := rr_isolated_node_count r + 1,
             rr_isolated_node_ids := rr_isolated_node_ids r @ [rr_active_node_ids r ! n]\<rparr>)
      else if rr_in_degree r ! n = 0 \<or> rr_out_degree r ! n = 0 then
        add_warning ''directionally_unbalanced_node'' ''active node has selected edges only on one directed side'' [] []
          (rr_active_node_ids r ! n) [] r
      else r)"

text \<open>The loop over the nodes; the keys of \<open>nodes_per_component\<close> are the roots seen.\<close>

fun report_components :: "nat list \<Rightarrow> dsu \<times> nat set \<times> resolution_report \<Rightarrow> (dsu \<times> nat set \<times> resolution_report) option" where
  "report_components [] st = Some st"
| "report_components (n # ns) (d, roots, r) =
     (case dsu_find n d of None \<Rightarrow> None
      | Some (c, d') \<Rightarrow> report_components ns (d', insert c roots, report_degree n r))"

definition report_structure :: "selected_edge list \<Rightarrow> resolution_report \<Rightarrow> resolution_report option" where
  "report_structure es r =
     (let nodes = rr_active_node_ids r in
      if nodes = [] then Some r
      else case unite_selected nodes es (make_dsu (length nodes), 0) of
          None \<Rightarrow> None
        | Some (d, edge_count) \<Rightarrow>
            (case report_components [0..<length nodes] (d, {}, r) of
               None \<Rightarrow> None
             | Some (_, roots, r) \<Rightarrow>
                 Some (r\<lparr>rr_connected_component_count := int (card roots),
                   rr_selected_cycle_dimension := max 0 (edge_count - rr_active_node_count r + int (card roots))\<rparr>)))"

definition analyze_graph_first_source_resolution ::
  "source_universe \<Rightarrow> graph_first_source_dock \<Rightarrow> resolution_report option"
where
  "analyze_graph_first_source_resolution u dock =
     (let r = report_nodes dock;
          available = report_candidates u dock r;
          s = select_edges dock available (report_available available r)
      in report_structure (sl_edges s) (report_reverses (sl_edges s) (sl_report s)))"


section \<open>Nodes and available edges\<close>

lemma add_warning_simps [simp]:
  "rr_active_node_ids (add_warning a b c d e f r) = rr_active_node_ids r"
  "rr_active_node_count (add_warning a b c d e f r) = rr_active_node_count r"
  "rr_selected_edge_count (add_warning a b c d e f r) = rr_selected_edge_count r"
  "rr_selected_missing_source_edge_ids (add_warning a b c d e f r) = rr_selected_missing_source_edge_ids r"
  "rr_available_unselected_edge_ids (add_warning a b c d e f r) = rr_available_unselected_edge_ids r"
  "rr_available_source_edge_ids (add_warning a b c d e f r) = rr_available_source_edge_ids r"
  "rr_isolated_node_ids (add_warning a b c d e f r) = rr_isolated_node_ids r"
  "rr_in_degree (add_warning a b c d e f r) = rr_in_degree r"
  "rr_out_degree (add_warning a b c d e f r) = rr_out_degree r"
  by (simp_all add: add_warning_def)

definition active_names :: "graph_first_source_dock \<Rightarrow> string list" where
  "active_names dock = map gn_node_id (filter (\<lambda>n. graph_first_dock_active_text (gn_active n)) (gd_graph_node_forms dock))"

lemma report_nodes_fold:
  "set (rr_active_node_ids (fold report_node ns r)) =
     set (rr_active_node_ids r) \<union> set (map gn_node_id (filter (\<lambda>n. graph_first_dock_active_text (gn_active n)) ns)) \<and>
   (distinct (rr_active_node_ids r) \<longrightarrow> distinct (rr_active_node_ids (fold report_node ns r)))"
proof (induction ns arbitrary: r)
  case (Cons n ns)
  show ?case using Cons.IH [of "report_node n r"] by (auto simp: report_node_def)
qed simp

lemma report_nodes_ids:
  "set (rr_active_node_ids (report_nodes dock)) = set (active_names dock) \<and> distinct (rr_active_node_ids (report_nodes dock)) \<and>
   rr_active_node_count (report_nodes dock) = int (length (rr_active_node_ids (report_nodes dock)))"
proof -
  define r where "r = fold report_node (gd_graph_node_forms dock) (empty_report dock)"
  have "rr_active_node_ids (empty_report dock) = []" by (simp add: empty_report_def)
  then have "set (rr_active_node_ids r) = set (active_names dock) \<and> distinct (rr_active_node_ids r)"
    using report_nodes_fold [of "gd_graph_node_forms dock" "empty_report dock"] by (simp add: r_def active_names_def)
  moreover have "rr_active_node_ids (report_nodes dock) = rr_active_node_ids r \<and>
      rr_active_node_count (report_nodes dock) = int (length (rr_active_node_ids r))"
    by (simp add: report_nodes_def Let_def r_def [symmetric])
  ultimately show ?thesis by simp
qed

text \<open>The analysis and the discovery find the same candidates.\<close>

lemma report_candidates_eq: "report_candidates u dock (report_nodes dock) = covered_candidates u dock"
  using report_nodes_ids [of dock]
  by (simp add: report_candidates_def covered_candidates_def report_coverage_def source_coverage_def Let_def active_names_def)

section \<open>Selected edges\<close>

lemma select_edge_keeps:
  assumes "list_all (\<lambda>e. se_base_node e \<in> set (rr_active_node_ids (sl_report s)) \<and> se_quote_node e \<in> set (rr_active_node_ids (sl_report s))) (sl_edges s)"
  shows "rr_active_node_ids (sl_report (select_edge available e s)) = rr_active_node_ids (sl_report s) \<and>
    rr_active_node_count (sl_report (select_edge available e s)) = rr_active_node_count (sl_report s) \<and>
    list_all (\<lambda>e. se_base_node e \<in> set (rr_active_node_ids (sl_report s)) \<and> se_quote_node e \<in> set (rr_active_node_ids (sl_report s)))
      (sl_edges (select_edge available e s))"
  using assms by (simp add: select_edge_def Let_def)

lemma select_fold_keeps:
  assumes "list_all (\<lambda>e. se_base_node e \<in> set (rr_active_node_ids (sl_report s)) \<and> se_quote_node e \<in> set (rr_active_node_ids (sl_report s))) (sl_edges s)"
  shows "rr_active_node_ids (sl_report (fold (select_edge available) es s)) = rr_active_node_ids (sl_report s) \<and>
    rr_active_node_count (sl_report (fold (select_edge available) es s)) = rr_active_node_count (sl_report s) \<and>
    list_all (\<lambda>e. se_base_node e \<in> set (rr_active_node_ids (sl_report s)) \<and> se_quote_node e \<in> set (rr_active_node_ids (sl_report s)))
      (sl_edges (fold (select_edge available) es s))"
  using assms
proof (induction es arbitrary: s)
  case (Cons e es)
  show ?case using select_edge_keeps [OF Cons.prems, of available e] Cons.IH [of "select_edge available e s"] by simp
qed simp

lemma select_edges_keeps:
  "rr_active_node_ids (sl_report (select_edges dock available r)) = rr_active_node_ids r \<and>
   rr_active_node_count (sl_report (select_edges dock available r)) = rr_active_node_count r \<and>
   rr_selected_edge_count (sl_report (select_edges dock available r)) = int (length (sl_edges (select_edges dock available r))) \<and>
   list_all (\<lambda>e. se_base_node e \<in> set (rr_active_node_ids r) \<and> se_quote_node e \<in> set (rr_active_node_ids r))
     (sl_edges (select_edges dock available r))"
  using select_fold_keeps [of "\<lparr>sl_report = r, sl_edges = [], sl_seen = {}, sl_candidates = {}\<rparr>" available "gd_graph_edge_forms dock"]
  by (simp add: select_edges_def Let_def)

lemma report_reverses_keeps:
  "rr_active_node_ids (report_reverses es r) = rr_active_node_ids r \<and>
   rr_active_node_count (report_reverses es r) = rr_active_node_count r \<and>
   rr_selected_edge_count (report_reverses es r) = rr_selected_edge_count r"
proof -
  have "rr_active_node_ids (fold (\<lambda>i r. if p i then r\<lparr>rr_selected_missing_reverse_count := f r\<rparr> else r\<lparr>rr_reverse_pair_count := g i r\<rparr>) is r) = rr_active_node_ids r \<and>
    rr_active_node_count (fold (\<lambda>i r. if p i then r\<lparr>rr_selected_missing_reverse_count := f r\<rparr> else r\<lparr>rr_reverse_pair_count := g i r\<rparr>) is r) = rr_active_node_count r \<and>
    rr_selected_edge_count (fold (\<lambda>i r. if p i then r\<lparr>rr_selected_missing_reverse_count := f r\<rparr> else r\<lparr>rr_reverse_pair_count := g i r\<rparr>) is r) = rr_selected_edge_count r"
    for p f g "is" and r :: resolution_report
    by (induction "is" arbitrary: r) simp_all
  then show ?thesis by (simp add: report_reverses_def Let_def)
qed

section \<open>Components\<close>

definition edge_links :: "string list \<Rightarrow> selected_edge list \<Rightarrow> (nat \<times> nat) list" where
  "edge_links nodes es = map (\<lambda>e. (the (index_of (se_base_node e) nodes), the (index_of (se_quote_node e) nodes))) es"

lemma index_of_position: "x \<in> set xs \<Longrightarrow> index_of x xs = Some (the (index_of x xs)) \<and> the (index_of x xs) < length xs"
  using index_of_None [of x xs] index_of_Some [of x xs] by (cases "index_of x xs") auto

lemma unite_selected_links:
  "list_all (\<lambda>e. se_base_node e \<in> set nodes \<and> se_quote_node e \<in> set nodes) es \<Longrightarrow>
    unite_selected nodes es (d, k) = map_option (\<lambda>d'. (d', k + int (length es))) (dsu.unite_all (edge_links nodes es) d)"
proof (induction es arbitrary: d k)
  case (Cons e es)
  then obtain b q where "index_of (se_base_node e) nodes = Some b" "index_of (se_quote_node e) nodes = Some q"
    using index_of_position [of "se_base_node e" nodes] index_of_position [of "se_quote_node e" nodes] by auto
  with Cons show ?case by (simp add: edge_links_def add.assoc split: option.split)
qed (simp add: edge_links_def)

lemma edge_links_bounds:
  "list_all (\<lambda>e. se_base_node e \<in> set nodes \<and> se_quote_node e \<in> set nodes) es \<Longrightarrow>
    set (edge_links nodes es) \<subseteq> {..<length nodes} \<times> {..<length nodes}"
  using index_of_position by (fastforce simp: edge_links_def list_all_iff)

lemma report_degree_keeps:
  "rr_active_node_count (report_degree n r) = rr_active_node_count r \<and>
   rr_selected_edge_count (report_degree n r) = rr_selected_edge_count r \<and>
   rr_active_node_ids (report_degree n r) = rr_active_node_ids r"
  by (simp add: report_degree_def)

lemma report_components_roots:
  "dsu_ok d \<Longrightarrow> set ns \<subseteq> {..<dsu_size d} \<Longrightarrow>
    \<exists>d'. report_components ns (d, roots, r) = Some (d', roots \<union> dsu_root d ` set ns, fold report_degree ns r)"
proof (induction ns arbitrary: d roots r)
  case (Cons n ns)
  then have n: "n < dsu_size d" by simp
  obtain d1 where d1: "dsu_find n d = Some (dsu_root d n, d1)" "dsu_ok d1" "dsu_size d1 = dsu_size d"
    "\<And>y. y < dsu_size d \<Longrightarrow> dsu_root d1 y = dsu_root d y"
    using dsu.find_step [OF Cons.prems(1) n] by blast
  have "dsu_root d1 ` set ns = dsu_root d ` set ns" using d1(4) Cons.prems(2) by (intro image_cong) auto
  moreover obtain d' where "report_components ns (d1, insert (dsu_root d n) roots, report_degree n r) =
      Some (d', insert (dsu_root d n) roots \<union> dsu_root d1 ` set ns, fold report_degree ns (report_degree n r))"
    using Cons.IH [OF d1(2)] d1(3) Cons.prems(2) by fastforce
  ultimately show ?case using d1(1) by simp
qed auto

lemma fold_degree_keeps:
  "rr_active_node_count (fold report_degree ns r) = rr_active_node_count r \<and>
   rr_selected_edge_count (fold report_degree ns r) = rr_selected_edge_count r \<and>
   rr_active_node_ids (fold report_degree ns r) = rr_active_node_ids r"
  by (induction ns arbitrary: r) (simp_all add: report_degree_keeps)

text \<open>The classes of the nodes under the links of the edges.\<close>

definition component_relation :: "nat \<Rightarrow> (nat \<times> nat) list \<Rightarrow> (nat \<times> nat) set" where
  "component_relation n links = {(x, y). x < n \<and> y < n \<and> dsu.generated (set links) x y}"

lemma card_image_quotient: "card (f ` A) = card (A // {(x, y). x \<in> A \<and> y \<in> A \<and> f x = f y})"
proof (rule bij_betw_same_card [of "\<lambda>v. {y \<in> A. f y = v}"])
  show "bij_betw (\<lambda>v. {y \<in> A. f y = v}) (f ` A) (A // {(x, y). x \<in> A \<and> y \<in> A \<and> f x = f y})"
  proof (rule bij_betwI')
    fix v w assume "v \<in> f ` A" "w \<in> f ` A"
    then show "({y \<in> A. f y = v} = {y \<in> A. f y = w}) = (v = w)" by blast
  next
    fix v assume "v \<in> f ` A"
    then obtain x where x: "x \<in> A" "v = f x" by blast
    then have "{y \<in> A. f y = v} = {(x, y). x \<in> A \<and> y \<in> A \<and> f x = f y} `` {x}" by auto
    with x(1) show "{y \<in> A. f y = v} \<in> A // {(x, y). x \<in> A \<and> y \<in> A \<and> f x = f y}" by (auto simp: quotient_def)
  next
    fix c assume "c \<in> A // {(x, y). x \<in> A \<and> y \<in> A \<and> f x = f y}"
    then obtain x where x: "x \<in> A" "c = {(x, y). x \<in> A \<and> y \<in> A \<and> f x = f y} `` {x}" by (auto simp: quotient_def)
    then have "c = {y \<in> A. f y = f x}" by auto
    with x(1) show "\<exists>v \<in> f ` A. c = {y \<in> A. f y = v}" by blast
  qed
qed

lemma report_structure_correct:
  assumes "list_all (\<lambda>e. se_base_node e \<in> set (rr_active_node_ids r) \<and> se_quote_node e \<in> set (rr_active_node_ids r)) es"
    and "rr_active_node_ids r \<noteq> []" "rr_active_node_count r = int (length (rr_active_node_ids r))"
  obtains r' where "report_structure es r = Some r'"
    "rr_connected_component_count r' = int (card ({..<length (rr_active_node_ids r)} //
      component_relation (length (rr_active_node_ids r)) (edge_links (rr_active_node_ids r) es)))"
    "rr_selected_cycle_dimension r' = int (length es) - rr_active_node_count r + rr_connected_component_count r'"
    "rr_selected_cycle_dimension r' \<ge> 0" "rr_active_node_ids r' = rr_active_node_ids r"
    "rr_active_node_count r' = rr_active_node_count r" "rr_selected_edge_count r' = rr_selected_edge_count r"
proof -
  let ?nodes = "rr_active_node_ids r"
  let ?n = "length ?nodes" and ?links = "edge_links ?nodes es"
  have ok: "dsu_ok (make_dsu ?n)" and size: "dsu_size (make_dsu ?n) = ?n" using make_dsu_ok [of ?n] by simp_all
  have bounds: "set ?links \<subseteq> {..<dsu_size (make_dsu ?n)} \<times> {..<dsu_size (make_dsu ?n)}"
    using edge_links_bounds [OF assms(1)] by (simp add: size)
  obtain d where d: "dsu.unite_all ?links (make_dsu ?n) = Some d" "dsu_ok d" "dsu_size d = dsu_size (make_dsu ?n)"
    "\<And>x y. x < dsu_size (make_dsu ?n) \<Longrightarrow> y < dsu_size (make_dsu ?n) \<Longrightarrow>
      dsu_root d x = dsu_root d y \<longleftrightarrow> dsu.generated (set ?links) x y"
    "dsu.classes (make_dsu ?n) \<le> dsu.classes d + length ?links"
    by (rule dsu.unite_all_generates [OF ok make_dsu_discrete bounds]) blast+
  obtain d' where d': "report_components [0..<?n] (d, {}, r) = Some (d', dsu_root d ` {..<?n}, fold report_degree [0..<?n] r)"
    using report_components_roots [OF d(2), of "[0..<?n]" "{}" r] d(3) size by (auto simp: atLeast0LessThan)
  have quotient: "card (dsu_root d ` {..<?n}) = card ({..<?n} // component_relation ?n ?links)"
  proof -
    have "{(x, y). x \<in> {..<?n} \<and> y \<in> {..<?n} \<and> dsu_root d x = dsu_root d y} = component_relation ?n ?links"
      using d(4) by (auto simp: component_relation_def size)
    then show ?thesis using card_image_quotient [of "dsu_root d" "{..<?n}"] by simp
  qed
  have "?n \<le> card (dsu_root d ` {..<?n}) + length es"
    using d(5) make_dsu_classes [of ?n] d(3) size by (simp add: dsu.classes_def [of d] edge_links_def)
  then have "0 \<le> int (length es) - int ?n + int (card (dsu_root d ` {..<?n}))" by simp
  moreover have "report_structure es r = Some ((fold report_degree [0..<?n] r)\<lparr>
      rr_connected_component_count := int (card (dsu_root d ` {..<?n})),
      rr_selected_cycle_dimension := max 0 (int (length es) - int ?n + int (card (dsu_root d ` {..<?n})))\<rparr>)"
    using assms(2,3) d(1) d' unite_selected_links [OF assms(1), of "make_dsu ?n" 0] fold_degree_keeps
    by (simp add: report_structure_def Let_def)
  ultimately show thesis
    using that assms(3) quotient fold_degree_keeps by (simp add: max_def)
qed


section \<open>Analysis of discovered edges\<close>

lemma active_true_text: "graph_first_dock_active_text ''true''"
  by code_simp

lemma select_discovered:
  assumes "(i, b, q) \<in> set available" "b \<in> set (rr_active_node_ids (sl_report s))" "q \<in> set (rr_active_node_ids (sl_report s))"
    and "b \<noteq> q" "i \<notin> sl_seen s"
  defines "s' \<equiv> select_edge available (edge_form_of_candidate (i, b, q)) s"
  shows "sl_candidates s' = insert (i, b, q) (sl_candidates s) \<and> sl_seen s' = insert i (sl_seen s) \<and>
    rr_active_node_ids (sl_report s') = rr_active_node_ids (sl_report s) \<and>
    rr_selected_missing_source_edge_ids (sl_report s') = rr_selected_missing_source_edge_ids (sl_report s) \<and>
    length (sl_edges s') = length (sl_edges s) + 1"
  using assms(1-5) unfolding s'_def
  by (auto simp add: select_edge_def edge_form_of_candidate_def active_true_text Let_def)

lemma select_discovered_fold:
  "distinct (map fst ks) \<Longrightarrow> fst ` set ks \<inter> sl_seen s = {} \<Longrightarrow> set ks \<subseteq> set available \<Longrightarrow>
    list_all (\<lambda>(i, b, q). b \<in> set (rr_active_node_ids (sl_report s)) \<and> q \<in> set (rr_active_node_ids (sl_report s)) \<and> b \<noteq> q) ks \<Longrightarrow>
    sl_candidates (fold (select_edge available) (map edge_form_of_candidate ks) s) = set ks \<union> sl_candidates s \<and>
    rr_selected_missing_source_edge_ids (sl_report (fold (select_edge available) (map edge_form_of_candidate ks) s)) =
      rr_selected_missing_source_edge_ids (sl_report s) \<and>
    length (sl_edges (fold (select_edge available) (map edge_form_of_candidate ks) s)) = length (sl_edges s) + length ks"
proof (induction ks arbitrary: s)
  case (Cons k ks)
  obtain i b q where k: "k = (i, b, q)" by (cases k)
  let ?s = "select_edge available (edge_form_of_candidate k) s"
  have step: "sl_candidates ?s = insert k (sl_candidates s)" "sl_seen ?s = insert i (sl_seen s)"
    "rr_active_node_ids (sl_report ?s) = rr_active_node_ids (sl_report s)"
    "rr_selected_missing_source_edge_ids (sl_report ?s) = rr_selected_missing_source_edge_ids (sl_report s)"
    "length (sl_edges ?s) = length (sl_edges s) + 1"
    using select_discovered [of i b q available s] Cons.prems by (simp_all add: k)
  have "i \<notin> fst ` set ks" using Cons.prems(1) by (simp add: k)
  with Cons.IH [of ?s] Cons.prems step show ?case by (auto simp: k)
qed simp

lemma discovered_dock_parts:
  defines "d \<equiv> \<lambda>u dock. dock\<lparr>gd_graph_edge_forms := discover_graph_edge_forms u dock\<rparr>"
  shows "report_nodes (d u dock) = report_nodes dock" "covered_candidates u (d u dock) = covered_candidates u dock"
proof -
  have e: "empty_report (d u dock) = empty_report dock" "active_channels (d u dock) = active_channels dock"
    by (simp_all add: d_def empty_report_def active_channels_def)
  have forms: "gd_graph_node_forms (d u dock) = gd_graph_node_forms dock" by (simp add: d_def)
  show "report_nodes (d u dock) = report_nodes dock" unfolding report_nodes_def e forms ..
  have "cover_source (d u dock) = cover_source dock" by (intro ext) (simp add: cover_source_def d_def)
  then show "covered_candidates u (d u dock) = covered_candidates u dock"
    unfolding covered_candidates_def source_coverage_def e forms by simp
qed

lemma structure_keeps_ids:
  assumes "report_structure es r = Some r'"
  shows "rr_selected_missing_source_edge_ids r' = rr_selected_missing_source_edge_ids r \<and>
    rr_available_unselected_edge_ids r' = rr_available_unselected_edge_ids r \<and> rr_selected_edge_count r' = rr_selected_edge_count r \<and>
    rr_available_source_directed_edge_count r' = rr_available_source_directed_edge_count r"
proof -
  have step: "report_components ns (d, roots, r) = Some (d', roots', r') \<Longrightarrow>
      rr_selected_missing_source_edge_ids r' = rr_selected_missing_source_edge_ids r \<and>
      rr_available_unselected_edge_ids r' = rr_available_unselected_edge_ids r \<and> rr_selected_edge_count r' = rr_selected_edge_count r \<and>
      rr_available_source_directed_edge_count r' = rr_available_source_directed_edge_count r" for ns d roots r d' roots' r'
    by (induction ns arbitrary: d roots r)
      (auto simp: report_degree_def add_warning_def split: option.splits if_splits)
  with assms show ?thesis
    by (auto simp: report_structure_def Let_def split: if_splits option.splits dest!: step)
qed

lemma reverses_keep_ids:
  "rr_selected_missing_source_edge_ids (report_reverses es r) = rr_selected_missing_source_edge_ids r \<and>
   rr_available_unselected_edge_ids (report_reverses es r) = rr_available_unselected_edge_ids r \<and>
   rr_available_source_directed_edge_count (report_reverses es r) = rr_available_source_directed_edge_count r"
proof -
  define f where "f = (\<lambda>i (r :: resolution_report). if filter (\<lambda>j. reverse_of (es ! i) (es ! j)) [0..<length es] = []
      then r\<lparr>rr_selected_missing_reverse_count := rr_selected_missing_reverse_count r + 1\<rparr>
      else r\<lparr>rr_reverse_pair_count := rr_reverse_pair_count r +
        int (length (filter (\<lambda>j. i < j) (filter (\<lambda>j. reverse_of (es ! i) (es ! j)) [0..<length es])))\<rparr>)"
  have "rr_selected_missing_source_edge_ids (fold f is r) = rr_selected_missing_source_edge_ids r \<and>
    rr_available_unselected_edge_ids (fold f is r) = rr_available_unselected_edge_ids r \<and>
    rr_available_source_directed_edge_count (fold f is r) = rr_available_source_directed_edge_count r" for "is"
    by (induction "is" arbitrary: r) (simp_all add: f_def)
  then show ?thesis by (simp add: report_reverses_def Let_def f_def)
qed

section \<open>The report properties\<close>

text \<open>What the analysis selects, and the relation of the active nodes its selected edges generate.\<close>

definition analyzed_selection :: "source_universe \<Rightarrow> graph_first_source_dock \<Rightarrow> selection" where
  "analyzed_selection u dock =
     select_edges dock (covered_candidates u dock) (report_available (covered_candidates u dock) (report_nodes dock))"

lemma report_available_keeps:
  "rr_active_node_ids (report_available ks r) = rr_active_node_ids r"
  "rr_active_node_count (report_available ks r) = rr_active_node_count r"
  "rr_available_source_directed_edge_count (report_available ks r) = int (length ks)"
  "rr_selected_missing_source_edge_ids (report_available ks r) = rr_selected_missing_source_edge_ids r"
  by (simp_all add: report_available_def Let_def) (simp_all add: add_warning_def)

lemma analysis_structure:
  "analyze_graph_first_source_resolution u dock =
    report_structure (sl_edges (analyzed_selection u dock))
      (report_reverses (sl_edges (analyzed_selection u dock)) (sl_report (analyzed_selection u dock)))"
  by (simp add: analyze_graph_first_source_resolution_def analyzed_selection_def report_candidates_eq Let_def)

lemma analyzed_selection_keeps:
  fixes u dock
  defines "s \<equiv> analyzed_selection u dock"
  shows "rr_active_node_ids (report_reverses (sl_edges s) (sl_report s)) = rr_active_node_ids (report_nodes dock)"
    "rr_active_node_count (report_reverses (sl_edges s) (sl_report s)) = int (length (rr_active_node_ids (report_nodes dock)))"
    "rr_selected_edge_count (report_reverses (sl_edges s) (sl_report s)) = int (length (sl_edges s))"
    "list_all (\<lambda>e. se_base_node e \<in> set (rr_active_node_ids (report_nodes dock)) \<and>
       se_quote_node e \<in> set (rr_active_node_ids (report_nodes dock))) (sl_edges s)"
  using select_edges_keeps [of dock "covered_candidates u dock" "report_available (covered_candidates u dock) (report_nodes dock)"]
    report_nodes_ids [of dock]
  by (simp_all add: s_def analyzed_selection_def report_reverses_keeps report_available_keeps)

lemma analysis_components:
  "\<exists>r. analyze_graph_first_source_resolution u dock = Some r \<and>
    set (rr_active_node_ids r) = set (active_names dock) \<and> distinct (rr_active_node_ids r) \<and>
    rr_selected_edge_count r = int (length (sl_edges (analyzed_selection u dock))) \<and>
    (rr_active_node_ids r = [] \<or>
      rr_connected_component_count r = int (card ({..<length (rr_active_node_ids r)} //
        component_relation (length (rr_active_node_ids r))
          (edge_links (rr_active_node_ids r) (sl_edges (analyzed_selection u dock))))) \<and>
      rr_selected_cycle_dimension r =
        rr_selected_edge_count r - int (length (rr_active_node_ids r)) + rr_connected_component_count r \<and>
      0 \<le> rr_selected_edge_count r - int (length (rr_active_node_ids r)) + rr_connected_component_count r)"
proof -
  define s where "s = analyzed_selection u dock"
  define r0 where "r0 = report_reverses (sl_edges s) (sl_report s)"
  note k = analyzed_selection_keeps [where u = u and dock = dock, folded s_def, folded r0_def]
  note n = report_nodes_ids [of dock]
  show ?thesis
  proof (cases "rr_active_node_ids (report_nodes dock) = []")
    case True
    then have "report_structure (sl_edges s) r0 = Some r0" by (simp add: report_structure_def k(1) Let_def)
    then show ?thesis using True k n by (simp add: analysis_structure s_def [symmetric] r0_def [symmetric])
  next
    case False
    obtain r where r: "report_structure (sl_edges s) r0 = Some r"
      "rr_connected_component_count r = int (card ({..<length (rr_active_node_ids r0)} //
        component_relation (length (rr_active_node_ids r0)) (edge_links (rr_active_node_ids r0) (sl_edges s))))"
      "rr_selected_cycle_dimension r = int (length (sl_edges s)) - rr_active_node_count r0 + rr_connected_component_count r"
      "rr_selected_cycle_dimension r \<ge> 0" "rr_active_node_ids r = rr_active_node_ids r0"
      "rr_selected_edge_count r = rr_selected_edge_count r0"
      by (rule report_structure_correct [of r0 "sl_edges s"]) (use False k in auto)
    then show ?thesis using k n by (simp add: analysis_structure s_def [symmetric] r0_def [symmetric])
  qed
qed

lemma analysis_returns: "\<exists>r. analyze_graph_first_source_resolution u dock = Some r"
  using analysis_components [of u dock] by blast

lemma select_fold_keeps_available:
  "rr_available_source_directed_edge_count (sl_report (fold (select_edge available) es s)) =
    rr_available_source_directed_edge_count (sl_report s)"
proof (induction es arbitrary: s)
  case (Cons e es)
  have "rr_available_source_directed_edge_count (sl_report (select_edge available e s)) =
      rr_available_source_directed_edge_count (sl_report s)"
    by (simp add: select_edge_def Let_def) (simp add: add_warning_def)
  with Cons.IH [of "select_edge available e s"] show ?case by simp
qed simp

text \<open>
  The analysis always returns. Its active nodes are those of the dock without repetitions; when there
  are any, it counts as connected components the classes of the positions of the active nodes under the
  equivalence that the selected edges generate, and as cycle dimension the number of selected edges
  minus the number of nodes plus the number of components, which is never negative, so that the
  clamp at zero is never used.
\<close>

theorem analysis_counts_components:
  "\<exists>r. analyze_graph_first_source_resolution u dock = Some r \<and>
    set (rr_active_node_ids r) = set (active_names dock) \<and> distinct (rr_active_node_ids r) \<and>
    rr_selected_edge_count r = int (length (sl_edges (analyzed_selection u dock))) \<and>
    (rr_active_node_ids r = [] \<or>
      rr_connected_component_count r = int (card ({..<length (rr_active_node_ids r)} //
        component_relation (length (rr_active_node_ids r))
          (edge_links (rr_active_node_ids r) (sl_edges (analyzed_selection u dock))))) \<and>
      rr_selected_cycle_dimension r =
        rr_selected_edge_count r - int (length (rr_active_node_ids r)) + rr_connected_component_count r \<and>
      0 \<le> rr_selected_edge_count r - int (length (rr_active_node_ids r)) + rr_connected_component_count r)"
  by (rule analysis_components)

lemma report_nodes_nothing_missing: "rr_selected_missing_source_edge_ids (report_nodes dock) = []"
proof -
  have "rr_selected_missing_source_edge_ids (fold report_node ns r) = rr_selected_missing_source_edge_ids r" for ns r
    by (induction ns arbitrary: r) (simp_all add: report_node_def)
  then show ?thesis by (simp add: report_nodes_def Let_def empty_report_def)
qed

lemma discoverable_ends:
  "discoverable u dock (i, b, q) \<Longrightarrow> b \<in> set (active_names dock) \<and> q \<in> set (active_names dock) \<and> b \<noteq> q"
  by (cases "active_channels dock")
    (auto simp: discoverable_def list_ex_iff eligible_source_def candidate_of_def active_names_def Let_def)

text \<open>
  A dock with the edges discovered for it is resolved completely. When no instrument names two
  candidates, the analysis of the dock finds a source for every selected edge, selects every available
  edge and has as many selected edges as available ones.
\<close>

theorem discovered_dock_resolved:
  assumes "distinct (map fst (covered_candidates u dock))"
  shows "\<exists>r. analyze_graph_first_source_resolution u
      (dock\<lparr>gd_graph_edge_forms := discover_graph_edge_forms u dock\<rparr>) = Some r \<and>
    rr_selected_missing_source_edge_ids r = [] \<and> rr_available_unselected_edge_ids r = [] \<and>
    rr_selected_edge_count r = rr_available_source_directed_edge_count r \<and>
    rr_available_source_directed_edge_count r = int (length (covered_candidates u dock))"
proof -
  define d where "d = dock\<lparr>gd_graph_edge_forms := discover_graph_edge_forms u dock\<rparr>"
  define available where "available = covered_candidates u dock"
  define ks where "ks = sort_key (\<lambda>(instrument, base, quote). (base, quote, instrument)) available"
  define r1 where "r1 = report_available available (report_nodes dock)"
  define s0 where "s0 = \<lparr>sl_report = r1, sl_edges = [], sl_seen = {}, sl_candidates = {}\<rparr>"
  note parts = discovered_dock_parts [of u dock, folded d_def, folded available_def]
  have sel: "analyzed_selection u d = select_edges d available r1"
    by (simp add: analyzed_selection_def parts r1_def)
  have forms: "gd_graph_edge_forms d = map edge_form_of_candidate ks"
    by (simp add: d_def discover_graph_edge_forms_def ks_def available_def)
  have "list_all (\<lambda>(i, b, q). b \<in> set (rr_active_node_ids r1) \<and> q \<in> set (rr_active_node_ids r1) \<and> b \<noteq> q) ks"
    using discoverable_ends covered_candidates_iff report_nodes_ids [of dock]
    by (fastforce simp: ks_def available_def r1_def report_available_keeps list_all_iff)
  moreover have "distinct (map fst ks)" using assms distinct_covered_candidates [of u dock]
    by (simp add: ks_def available_def distinct_map)
  moreover have "set ks = set available" "length ks = length available" by (simp_all add: ks_def)
  ultimately have f: "sl_candidates (fold (select_edge available) (map edge_form_of_candidate ks) s0) = set available"
    "rr_selected_missing_source_edge_ids (sl_report (fold (select_edge available) (map edge_form_of_candidate ks) s0)) = []"
    "length (sl_edges (fold (select_edge available) (map edge_form_of_candidate ks) s0)) = length available"
    using select_discovered_fold [of ks s0 available]
    by (simp_all add: s0_def r1_def report_available_keeps report_nodes_nothing_missing)
  define s where "s = fold (select_edge available) (map edge_form_of_candidate ks) s0"
  have "select_edges d available r1 =
      s\<lparr>sl_report := (sl_report s)\<lparr>rr_selected_edge_count := int (length available), rr_selected_missing_source_edge_count := 0,
        rr_available_unselected_edge_ids := [], rr_available_unselected_edge_count := 0\<rparr>\<rparr>"
    using f by (simp add: select_edges_def forms s0_def [symmetric] s_def [symmetric] Let_def)
  moreover have "rr_available_source_directed_edge_count (sl_report s) = int (length available)"
    using select_fold_keeps_available [of available "map edge_form_of_candidate ks" s0]
    by (simp add: s_def s0_def r1_def report_available_keeps)
  ultimately have r: "rr_selected_missing_source_edge_ids (sl_report (analyzed_selection u d)) = []"
    "rr_available_unselected_edge_ids (sl_report (analyzed_selection u d)) = []"
    "rr_available_source_directed_edge_count (sl_report (analyzed_selection u d)) = int (length available)"
    "length (sl_edges (analyzed_selection u d)) = length available"
    using f by (simp_all add: sel s_def)
  obtain r where "analyze_graph_first_source_resolution u d = Some r"
    using analysis_returns by blast
  with r structure_keeps_ids [of "sl_edges (analyzed_selection u d)" _ r] analyzed_selection_keeps(3) [where u = u and dock = d] show ?thesis
    by (auto simp: d_def [symmetric] available_def [symmetric] analysis_structure reverses_keep_ids)
qed

text \<open>Two assets, one daily row of each direction, discovered edges.\<close>

definition example_row :: "string \<Rightarrow> string \<Rightarrow> source_form" where
  "example_row base quote = default_source_form\<lparr>sf_instrument := base @ quote, sf_interval := interval_1d, sf_record_type := ''kline'',
     sf_source_kind := ''real'', sf_base_asset := base, sf_quote_asset := quote, sf_source := ''/d''\<rparr>"

definition example_universe :: source_universe where
  "example_universe = default_source_universe\<lparr>su_source_forms := [example_row ''BTC'' ''USDT'', example_row ''ETH'' ''USDT'']\<rparr>"

definition example_dock :: graph_first_source_dock where
  "example_dock = \<lparr>gd_edge_resolution_policy = EdgeDiscovery, gd_edge_source_kind = ''real'', gd_fetch_mode = SerialFetch,
     gd_max_fetch_workers = 4, gd_parallel_min_work_items = 2,
     gd_channel_forms = [\<lparr>cf_interval = interval_1d, cf_active = ''true'', cf_record_type = ''kline'', cf_input_length = ''30'',
       cf_future_length = ''1'', cf_channel_weight = ''1.0'', cf_normalization_policy = ''none''\<rparr>],
     gd_graph_node_forms = map (\<lambda>n. \<lparr>gn_node_id = n, gn_node_kind = ''asset'', gn_active = ''true''\<rparr>) [''BTC'', ''ETH'', ''USDT''],
     gd_graph_edge_forms = []\<rparr>"

lemma example_candidates:
  "covered_candidates example_universe example_dock = [(''BTCUSDT'', ''BTC'', ''USDT''), (''ETHUSDT'', ''ETH'', ''USDT'')]"
proof -
  have "su_source_forms example_universe = [example_row ''BTC'' ''USDT'', example_row ''ETH'' ''USDT'']"
    by (simp add: example_universe_def)
  then have "source_coverage example_universe example_dock =
      fold (cover_source example_dock {''BTC'', ''ETH'', ''USDT''} (active_channels example_dock))
        [example_row ''BTC'' ''USDT'', example_row ''ETH'' ''USDT''] []"
    by (simp add: source_coverage_def Let_def example_dock_def active_true_text)
  also have "\<dots> = [((''BTCUSDT'', ''BTC'', ''USDT''), [''1d/kline'']), ((''ETHUSDT'', ''ETH'', ''USDT''), [''1d/kline''])]"
    by code_simp
  finally have c: "source_coverage example_universe example_dock =
      [((''BTCUSDT'', ''BTC'', ''USDT''), [''1d/kline'']), ((''ETHUSDT'', ''ETH'', ''USDT''), [''1d/kline''])]" .
  have "length (active_channels example_dock) = 1" by code_simp
  with c show ?thesis by (simp add: covered_candidates_def)
qed

theorem discovered_dock_resolved_witness:
  "\<exists>r. analyze_graph_first_source_resolution example_universe
      (example_dock\<lparr>gd_graph_edge_forms := discover_graph_edge_forms example_universe example_dock\<rparr>) = Some r \<and>
    rr_selected_edge_count r = 2"
  using discovered_dock_resolved [of example_universe example_dock] by (auto simp: example_candidates)

end
