(* ===== verification/Exposure_Intervals.thy ===== *)
theory Exposure_Intervals
  imports Simple_Kv "HOL-Library.Multiset"
begin

text \<open>
  \<open>src/include/hero/lattice_hero/lattice/exposure/exposure_ledger.h\<close>, the part of the exposure
  ledger that decides which anchors a component has seen: anchor intervals, the uses of a
  fact, the registry of fact families, the overlaps with a protected range
  (\<open>forbidden_exposure_overlaps\<close>) and the anchors covered for a use (\<open>coverage_for_use\<close>).

  A fact of the source has some two hundred fields. The record holds those the operations
  modelled here read; the rest is the extension of the record (its type parameter). The digest
  of a fact hashes the text of all of them, floating point numbers included: it and the two
  values the selection signal derives from file system paths are parameters of the operations
  (\<open>ledger_env\<close>), about which only the injectivity of the digest is ever assumed. The ratio
  \<open>coverage_fraction\<close>, a \<open>double\<close>, is left out.
\<close>

section \<open>Intervals\<close>

datatype anchor_interval = Interval (ai_begin: int) (ai_end: int)

definition ai_empty :: "anchor_interval \<Rightarrow> bool" where
  "ai_empty r \<longleftrightarrow> ai_end r \<le> ai_begin r"

definition ai_length :: "anchor_interval \<Rightarrow> int" where
  "ai_length r = (if ai_empty r then 0 else ai_end r - ai_begin r)"

definition default_interval :: anchor_interval where
  "default_interval = Interval 0 0"

definition intervals_overlap :: "anchor_interval \<Rightarrow> anchor_interval \<Rightarrow> bool" where
  "intervals_overlap a b \<longleftrightarrow>
     \<not> ai_empty a \<and> \<not> ai_empty b \<and> ai_begin a < ai_end b \<and> ai_begin b < ai_end a"

definition interval_intersection :: "anchor_interval \<Rightarrow> anchor_interval \<Rightarrow> anchor_interval" where
  "interval_intersection a b =
     (let out = Interval (max (ai_begin a) (ai_begin b)) (min (ai_end a) (ai_end b))
      in if ai_empty out then default_interval else out)"

text \<open>The order of the comparison functions: by beginning, then by end.\<close>

instantiation anchor_interval :: linorder
begin

definition less_eq_anchor_interval :: "anchor_interval \<Rightarrow> anchor_interval \<Rightarrow> bool" where
  "less_eq_anchor_interval a b \<longleftrightarrow>
     (if ai_begin a \<noteq> ai_begin b then ai_begin a < ai_begin b else ai_end a \<le> ai_end b)"

definition less_anchor_interval :: "anchor_interval \<Rightarrow> anchor_interval \<Rightarrow> bool" where
  "less_anchor_interval a b \<longleftrightarrow>
     (if ai_begin a \<noteq> ai_begin b then ai_begin a < ai_begin b else ai_end a < ai_end b)"

instance
  by standard
    (auto simp: less_eq_anchor_interval_def less_anchor_interval_def anchor_interval.expand
      split: if_splits)

end

section \<open>Roles, uses and fact families\<close>

datatype exposure_split_role = ExpUnknown | ExpTrain | ExpValidation | ExpTest

datatype exposure_use = ObservedInput | TargetSupervision | EvaluationMetric | SelectionSignal

definition exposure_split_role_name :: "exposure_split_role \<Rightarrow> string" where
  "exposure_split_role_name role = (case role of ExpUnknown \<Rightarrow> ''unknown'' | ExpTrain \<Rightarrow> ''train''
     | ExpValidation \<Rightarrow> ''validation'' | ExpTest \<Rightarrow> ''test'')"

definition parse_exposure_split_role :: "string \<Rightarrow> exposure_split_role result" where
  "parse_exposure_split_role value =
     (let v = lowercase (trim value) in
      if v = [] \<or> v = ''unknown'' then Inr ExpUnknown
      else if v = ''train'' then Inr ExpTrain
      else if v = ''validation'' then Inr ExpValidation
      else if v = ''test'' then Inr ExpTest
      else Inl (RuntimeError (''[lattice_exposure] invalid split role: '' @ v)))"

definition exposure_use_name :: "exposure_use \<Rightarrow> string" where
  "exposure_use_name u = (case u of ObservedInput \<Rightarrow> ''observed_input''
     | TargetSupervision \<Rightarrow> ''target_supervision'' | EvaluationMetric \<Rightarrow> ''evaluation_metric''
     | SelectionSignal \<Rightarrow> ''selection_signal'')"

definition parse_exposure_use :: "string \<Rightarrow> exposure_use result" where
  "parse_exposure_use value =
     (let v = lowercase (trim value) in
      if v = ''observed_input'' then Inr ObservedInput
      else if v = ''target_supervision'' then Inr TargetSupervision
      else if v = ''evaluation_metric'' then Inr EvaluationMetric
      else if v = ''selection_signal'' then Inr SelectionSignal
      else Inl (RuntimeError (''[lattice_exposure] invalid exposure use: '' @ v)))"

text \<open>The loop over the characters, with the current \<open>token\<close> and the uses read so far.\<close>

definition push_use :: "string \<Rightarrow> exposure_use list \<Rightarrow> exposure_use list result" where
  "push_use token out =
     (if trim token = [] then Inr out
      else rbind (parse_exposure_use (trim token)) (\<lambda>u. Inr (out @ [u])))"

fun parse_exposure_uses :: "string \<Rightarrow> exposure_use list \<Rightarrow> string \<Rightarrow> exposure_use list result" where
  "parse_exposure_uses token out [] = push_use token out"
| "parse_exposure_uses token out (ch # rest) =
     (if ch = CHR ''|'' \<or> ch = CHR '','' \<or> ch = CHR ''+'' then
        rbind (push_use token out) (\<lambda>out'. parse_exposure_uses [] out' rest)
      else parse_exposure_uses (token @ [ch]) out rest)"

definition parse_exposure_use_list :: "string \<Rightarrow> exposure_use list result" where
  "parse_exposure_use_list value = parse_exposure_uses [] [] value"

datatype fact_family =
    FExposure | FNodeExposure | FCheckpoint | FSourceReceipt | FSourceAnalytics | FTargetTransform
  | FForecastBaseline | FForecastEval | FObserverBelief | FAllocationEngine | FReplayEnvironment
  | FPolicyTraining | FTsodaoSettingsProtection | FPolicyAcceptance | FPaperOnlineReadiness
  | FPaperOnlineSession | FSelectionSignal | FRepresentationSupport

definition lattice_fact_family_name :: "fact_family \<Rightarrow> string" where
  "lattice_fact_family_name family = (case family of
     FExposure \<Rightarrow> ''exposure''
   | FNodeExposure \<Rightarrow> ''node_exposure''
   | FCheckpoint \<Rightarrow> ''checkpoint''
   | FSourceReceipt \<Rightarrow> ''source_receipt''
   | FSourceAnalytics \<Rightarrow> ''source_analytics''
   | FTargetTransform \<Rightarrow> ''target_transform''
   | FForecastBaseline \<Rightarrow> ''forecast_baseline''
   | FForecastEval \<Rightarrow> ''forecast_eval''
   | FObserverBelief \<Rightarrow> ''observer_belief''
   | FAllocationEngine \<Rightarrow> ''allocation_engine''
   | FReplayEnvironment \<Rightarrow> ''replay_environment''
   | FPolicyTraining \<Rightarrow> ''policy_training''
   | FTsodaoSettingsProtection \<Rightarrow> ''tsodao_settings_protection''
   | FPolicyAcceptance \<Rightarrow> ''policy_acceptance''
   | FPaperOnlineReadiness \<Rightarrow> ''paper_online_readiness''
   | FPaperOnlineSession \<Rightarrow> ''paper_online_session''
   | FSelectionSignal \<Rightarrow> ''selection_signal''
   | FRepresentationSupport \<Rightarrow> ''representation_support'')"

record fact_family_descriptor =
  fd_family :: fact_family
  fd_family_name :: string
  fd_fact_schema :: string
  fd_relation :: string
  fd_summary_schema :: string
  fd_authority_model :: string
  fd_parent_exposure_bound :: bool
  fd_target_kind :: bool
  fd_dispatchable :: bool
  fd_runtime_executor :: bool
  fd_readiness_authority :: bool
  fd_coverage_authority :: bool
  fd_leakage_authority :: bool
  fd_contract_identity_authority :: bool
  fd_quality_authority :: bool
  fd_performance_authority :: bool
  fd_checkpoint_selector :: bool
  fd_allocation_authority :: bool
  fd_execution_authority :: bool
  fd_market_readiness_authority :: bool
  fd_deployment_authority :: bool
  fd_policy_gate :: bool
  fd_target_dependency_authority :: bool
  fd_runtime_wave_authority :: bool
  fd_marshal_reachability :: bool
  fd_checkpoint_source_authority :: bool
  fd_plan_checkpoint_input_authority :: bool

text \<open>
  The initialisers of the registry give the first fourteen members; the others keep their
  default, \<open>false\<close>.
\<close>

definition family_descriptor ::
  "fact_family \<Rightarrow> string \<Rightarrow> string \<Rightarrow> string \<Rightarrow> string \<Rightarrow> string \<Rightarrow>
   bool \<Rightarrow> bool \<Rightarrow> bool \<Rightarrow> bool \<Rightarrow> bool \<Rightarrow> bool \<Rightarrow> bool \<Rightarrow> bool \<Rightarrow> fact_family_descriptor"
where
  "family_descriptor family name schema relation summary authority b1 b2 b3 b4 b5 b6 b7 b8 =
     \<lparr>fd_family = family, fd_family_name = name, fd_fact_schema = schema, fd_relation = relation,
      fd_summary_schema = summary, fd_authority_model = authority,
      fd_parent_exposure_bound = b1, fd_target_kind = b2, fd_dispatchable = b3, fd_runtime_executor = b4, fd_readiness_authority = b5, fd_coverage_authority = b6, fd_leakage_authority = b7, fd_contract_identity_authority = b8,
      fd_quality_authority = False, fd_performance_authority = False, fd_checkpoint_selector = False, fd_allocation_authority = False, fd_execution_authority = False, fd_market_readiness_authority = False, fd_deployment_authority = False, fd_policy_gate = False, fd_target_dependency_authority = False, fd_runtime_wave_authority = False, fd_marshal_reachability = False, fd_checkpoint_source_authority = False, fd_plan_checkpoint_input_authority = False\<rparr>"

definition lattice_fact_family_registry :: "fact_family_descriptor list" where
  "lattice_fact_family_registry = [
  family_descriptor FExposure ''exposure'' ''kikijyeba.lattice.exposure.v1'' ''exposure'' ''kikijyeba.lattice.exposure_summary.v1'' ''proof_evidence''
      False False False False True True True True,
  family_descriptor FNodeExposure ''node_exposure'' ''kikijyeba.lattice.node_exposure.v1'' ''node_exposure'' ''kikijyeba.lattice.node_support_summary.v1'' ''visibility_only''
      True False False False False False False False,
  family_descriptor FCheckpoint ''checkpoint'' ''kikijyeba.lattice.checkpoint.v1'' ''checkpoint'' ''kikijyeba.lattice.checkpoint_summary.v1'' ''checkpoint_identity''
      False False False False True False False True,
  family_descriptor FSourceReceipt ''source_receipt'' ''kikijyeba.lattice.source_receipt.v1'' ''source_receipt'' ''kikijyeba.lattice.source_receipt_summary.v1'' ''audit_only''
      True False False False False False False False,
  family_descriptor FSourceAnalytics ''source_analytics'' ''kikijyeba.lattice.source_analytics.v1'' ''source_analytics'' ''kikijyeba.lattice.source_analytics_summary.v1'' ''visibility_only''
      True False False False False False False False,
  family_descriptor FTargetTransform ''target_transform'' ''kikijyeba.lattice.target_transform.v1'' ''target_transform'' ''kikijyeba.lattice.target_transform_summary.v1'' ''artifact_contract''
      True False False False False False False False,
  family_descriptor FForecastBaseline ''forecast_baseline'' ''kikijyeba.lattice.forecast_baseline.v1'' ''forecast_baseline'' ''kikijyeba.lattice.forecast_baseline_summary.v1'' ''evidence_prerequisite''
      True False False False False False False False,
  family_descriptor FForecastEval ''forecast_eval'' ''kikijyeba.lattice.forecast_eval.v1'' ''forecast_eval'' ''kikijyeba.lattice.forecast_eval_summary.v1'' ''artifact_evidence''
      True False False False False False False False,
  family_descriptor FObserverBelief ''observer_belief'' ''kikijyeba.lattice.observer_belief.v1'' ''observer_belief'' ''kikijyeba.lattice.observer_belief_summary.v1'' ''visibility_only''
      True False False False False False False False,
  family_descriptor FAllocationEngine ''allocation_engine'' ''kikijyeba.lattice.allocation_engine.v1'' ''allocation_engine'' ''kikijyeba.lattice.allocation_engine_summary.v1'' ''audit_only''
      True False False False False False False False,
  family_descriptor FReplayEnvironment ''replay_environment'' ''kikijyeba.lattice.replay_environment.v1'' ''replay_environment'' ''kikijyeba.lattice.replay_environment_summary.v1'' ''audit_only''
      True False False False False False False False,
  family_descriptor FPolicyTraining ''policy_training'' ''kikijyeba.lattice.policy_training.v1'' ''policy_training'' ''kikijyeba.lattice.policy_training_summary.v1'' ''audit_only''
      True False False False False False False False,
  family_descriptor FTsodaoSettingsProtection ''tsodao_settings_protection'' ''kikijyeba.lattice.tsodao_settings_protection.v1'' ''tsodao_settings_protection'' ''kikijyeba.lattice.tsodao_settings_protection_summary.v1'' ''settings_protection_artifact''
      True False False False False False False False,
  family_descriptor FPolicyAcceptance ''policy_acceptance'' ''kikijyeba.lattice.policy_acceptance.v1'' ''policy_acceptance'' ''kikijyeba.lattice.policy_acceptance_summary.v1'' ''policy_acceptance_artifact''
      True False False False False False False False,
  family_descriptor FPaperOnlineReadiness ''paper_online_readiness'' ''kikijyeba.lattice.paper_online_readiness.v1'' ''paper_online_readiness'' ''kikijyeba.lattice.paper_online_readiness_summary.v1'' ''paper_online_readiness_artifact''
      True False False False False False False False,
  family_descriptor FPaperOnlineSession ''paper_online_session'' ''kikijyeba.lattice.paper_online_session.v1'' ''paper_online_session'' ''kikijyeba.lattice.paper_online_session_summary.v1'' ''paper_online_session_artifact''
      True False False False False False False False,
  family_descriptor FSelectionSignal ''selection_signal'' ''kikijyeba.lattice.selection_signal.v1'' ''selection_signal'' ''kikijyeba.lattice.selection_signal_summary.v1'' ''leakage_visibility''
      True False False False False False False False,
  family_descriptor FRepresentationSupport ''representation_support'' ''kikijyeba.lattice.representation_support.v1'' ''representation_support'' ''kikijyeba.lattice.representation_support_summary.v1'' ''visibility_only''
      True False False False False False False False]"

definition parse_lattice_fact_family :: "string \<Rightarrow> fact_family option result" where
  "parse_lattice_fact_family value =
     (let v = lowercase (trim value) in
      if v = [] \<or> v = ''all'' then Inr None
      else case List.find (\<lambda>d. v = fd_family_name d \<or> v = fd_relation d \<or> v = fd_fact_schema d)
             lattice_fact_family_registry of
          Some d \<Rightarrow> Inr (Some (fd_family d))
        | None \<Rightarrow> Inl (RuntimeError (''[lattice_exposure] unknown fact family: '' @ v)))"

section \<open>Facts\<close>

record exposure_use_set =
  us_observed_input :: bool
  us_target_supervision :: bool
  us_evaluation_metric :: bool
  us_selection_signal :: bool
  us_mutated_component :: bool

record lattice_exposure_fact =
  ef_target_component_family_id :: string
  ef_job_id :: string
  ef_wave_id :: string
  ef_job_status :: string
  ef_anchor_range :: anchor_interval
  ef_observed_footprint :: anchor_interval
  ef_target_footprint :: anchor_interval
  ef_source_input_length :: int
  ef_source_future_length :: int
  ef_split_name :: string
  ef_coverage_precision :: string
  ef_completed_anchor_range :: anchor_interval
  ef_use :: exposure_use_set

definition exposure_use_set_has_use :: "exposure_use_set \<Rightarrow> exposure_use \<Rightarrow> bool" where
  "exposure_use_set_has_use s u = (case u of ObservedInput \<Rightarrow> us_observed_input s
     | TargetSupervision \<Rightarrow> us_target_supervision s | EvaluationMetric \<Rightarrow> us_evaluation_metric s
     | SelectionSignal \<Rightarrow> us_selection_signal s)"

definition fact_has_use :: "'x lattice_exposure_fact_scheme \<Rightarrow> exposure_use \<Rightarrow> bool" where
  "fact_has_use f u = (case u of ObservedInput \<Rightarrow> us_observed_input (ef_use f)
     | TargetSupervision \<Rightarrow> us_target_supervision (ef_use f)
     | EvaluationMetric \<Rightarrow> us_evaluation_metric (ef_use f)
     | SelectionSignal \<Rightarrow> us_selection_signal (ef_use f))"

definition anchor_coverage_for_use :: "'x lattice_exposure_fact_scheme \<Rightarrow> exposure_use \<Rightarrow> anchor_interval" where
  "anchor_coverage_for_use f u =
     (if ef_job_status f \<noteq> ''completed'' then default_interval
      else if ef_coverage_precision f = ''contiguous_completed_range_v1'' then
        ef_completed_anchor_range f
      else default_interval)"

definition source_footprint_for_use :: "'x lattice_exposure_fact_scheme \<Rightarrow> exposure_use \<Rightarrow> anchor_interval" where
  "source_footprint_for_use f u = (case u of ObservedInput \<Rightarrow> ef_observed_footprint f
     | TargetSupervision \<Rightarrow> ef_target_footprint f
     | EvaluationMetric \<Rightarrow> ef_anchor_range f
     | SelectionSignal \<Rightarrow> ef_anchor_range f)"

definition left_context_rows_for_fact :: "'x lattice_exposure_fact_scheme \<Rightarrow> int" where
  "left_context_rows_for_fact f =
     (if ef_source_input_length f > 0 then max 0 (ef_source_input_length f - 1)
      else if \<not> ai_empty (ef_anchor_range f) \<and> \<not> ai_empty (ef_observed_footprint f) then
        max 0 (ai_begin (ef_anchor_range f) - ai_begin (ef_observed_footprint f))
      else 0)"

definition right_future_rows_for_fact :: "'x lattice_exposure_fact_scheme \<Rightarrow> int" where
  "right_future_rows_for_fact f =
     (if ef_source_future_length f > 0 then ef_source_future_length f
      else if \<not> ai_empty (ef_anchor_range f) \<and> \<not> ai_empty (ef_target_footprint f) then
        max 0 (ai_end (ef_target_footprint f) - ai_end (ef_anchor_range f))
      else 0)"

text \<open>The parameters: the digests and the selected checkpoint of a fact.\<close>

record 'f ledger_env =
  exposure_fact_digest :: "'f \<Rightarrow> string"
  selection_event_digest_of :: "'f \<Rightarrow> string"
  selected_checkpoint_of :: "'f \<Rightarrow> string"

section \<open>Overlaps with a protected range\<close>

record forbidden_exposure_query =
  forbidden_range :: anchor_interval
  forbidden_uses :: "exposure_use list"
  require_mutated_component :: bool

record forbidden_exposure_overlap =
  fo_fact_digest :: string
  fo_job_id :: string
  fo_wave_id :: string
  fo_target_component_family_id :: string
  fo_split_name :: string
  fo_use :: exposure_use
  fo_mutated_component :: bool
  fo_selector_id :: string
  fo_selector_kind :: string
  fo_selection_event_digest :: string
  fo_selected_checkpoint :: string
  fo_source_footprint :: anchor_interval
  fo_protected_range :: anchor_interval
  fo_intersection :: anchor_interval

definition forbidden_overlap_for_use ::
  "'x lattice_exposure_fact_scheme ledger_env \<Rightarrow> forbidden_exposure_query \<Rightarrow>
   'x lattice_exposure_fact_scheme \<Rightarrow> exposure_use \<Rightarrow> forbidden_exposure_overlap list"
where
  "forbidden_overlap_for_use env query f u =
     (let footprint = source_footprint_for_use f u;
          inter = interval_intersection footprint (forbidden_range query);
          selected = (u = SelectionSignal)
      in if \<not> fact_has_use f u \<or> ai_empty (anchor_coverage_for_use f u) \<or> ai_empty inter then []
         else [\<lparr>fo_fact_digest = exposure_fact_digest env f,
                fo_job_id = ef_job_id f,
                fo_wave_id = ef_wave_id f,
                fo_target_component_family_id = ef_target_component_family_id f,
                fo_split_name = ef_split_name f,
                fo_use = u,
                fo_mutated_component = us_mutated_component (ef_use f),
                fo_selector_id = (if selected then
                    (if ef_job_id f = [] then ef_wave_id f else ef_job_id f) else []),
                fo_selector_kind = (if selected then ''checkpoint_selection'' else []),
                fo_selection_event_digest = (if selected then selection_event_digest_of env f else []),
                fo_selected_checkpoint = (if selected then selected_checkpoint_of env f else []),
                fo_source_footprint = footprint,
                fo_protected_range = forbidden_range query,
                fo_intersection = inter\<rparr>])"

definition forbidden_exposure_overlaps ::
  "'x lattice_exposure_fact_scheme ledger_env \<Rightarrow> 'x lattice_exposure_fact_scheme list \<Rightarrow>
   forbidden_exposure_query \<Rightarrow> forbidden_exposure_overlap list"
where
  "forbidden_exposure_overlaps env facts query =
     concat (map (\<lambda>f.
       if require_mutated_component query \<and> \<not> us_mutated_component (ef_use f) then []
       else concat (map (forbidden_overlap_for_use env query f) (forbidden_uses query))) facts)"

definition has_forbidden_exposure_overlap ::
  "'x lattice_exposure_fact_scheme ledger_env \<Rightarrow> 'x lattice_exposure_fact_scheme list \<Rightarrow>
   forbidden_exposure_query \<Rightarrow> bool"
where
  "has_forbidden_exposure_overlap env facts query \<longleftrightarrow> forbidden_exposure_overlaps env facts query \<noteq> []"

section \<open>Coverage\<close>

record 'f exposure_coverage =
  ec_target_range :: anchor_interval
  ec_contributing_intervals :: "anchor_interval list"
  ec_contributing_fact_digests :: "string list"
  ec_contributing_facts :: "'f list"
  ec_covered_intervals :: "anchor_interval list"
  ec_missing_intervals :: "anchor_interval list"
  ec_covered_anchors :: int
  ec_missing_anchors :: int

type_synonym 'f contribution = "anchor_interval \<times> string \<times> 'f"

text \<open>
  The first loop: the contributions in the order of the facts; \<open>seen\<close> holds the digests
  inserted so far.
\<close>

fun collect_contributions ::
  "('x lattice_exposure_fact_scheme \<Rightarrow> string) \<Rightarrow> anchor_interval \<Rightarrow> exposure_use \<Rightarrow> bool \<Rightarrow>
   string set \<Rightarrow> 'x lattice_exposure_fact_scheme list \<Rightarrow>
   'x lattice_exposure_fact_scheme contribution list"
where
  "collect_contributions digest target u req_mut seen [] = []"
| "collect_contributions digest target u req_mut seen (f # facts) =
     (if req_mut \<and> \<not> us_mutated_component (ef_use f) then
        collect_contributions digest target u req_mut seen facts
      else if \<not> fact_has_use f u then collect_contributions digest target u req_mut seen facts
      else if digest f \<in> seen then collect_contributions digest target u req_mut seen facts
      else let interval = interval_intersection (anchor_coverage_for_use f u) target;
               rest = collect_contributions digest target u req_mut (insert (digest f) seen) facts
        in if ai_empty interval then rest else (interval, digest f, f) # rest)"

text \<open>The sort: by interval, then by digest.\<close>

definition sort_contributions :: "'f contribution list \<Rightarrow> 'f contribution list" where
  "sort_contributions cs = sort_key (\<lambda>(interval, digest, _). (interval, digest)) cs"

definition merge_interval :: "anchor_interval list \<Rightarrow> anchor_interval \<Rightarrow> anchor_interval list" where
  "merge_interval merged interval =
     (if merged = [] \<or> ai_end (last merged) < ai_begin interval then merged @ [interval]
      else butlast merged @
        [Interval (ai_begin (last merged)) (max (ai_end (last merged)) (ai_end interval))])"

definition merge_intervals :: "anchor_interval list \<Rightarrow> anchor_interval list" where
  "merge_intervals intervals = foldl merge_interval [] intervals"

fun missing_from :: "int \<Rightarrow> int \<Rightarrow> anchor_interval list \<Rightarrow> anchor_interval list" where
  "missing_from cursor target_end [] =
     (if cursor < target_end then [Interval cursor target_end] else [])"
| "missing_from cursor target_end (interval # merged) =
     (if cursor < ai_begin interval then [Interval cursor (ai_begin interval)] else []) @
     missing_from (max cursor (ai_end interval)) target_end merged"

definition missing_intervals :: "anchor_interval \<Rightarrow> anchor_interval list \<Rightarrow> anchor_interval list" where
  "missing_intervals target merged =
     (if ai_empty target then [] else missing_from (ai_begin target) (ai_end target) merged)"

definition coverage_for_use ::
  "('x lattice_exposure_fact_scheme \<Rightarrow> string) \<Rightarrow> 'x lattice_exposure_fact_scheme list \<Rightarrow>
   anchor_interval \<Rightarrow> exposure_use \<Rightarrow> bool \<Rightarrow> 'x lattice_exposure_fact_scheme exposure_coverage"
where
  "coverage_for_use digest facts target u req_mut =
     (let cs = sort_contributions (collect_contributions digest target u req_mut {} facts);
          intervals = map fst cs;
          merged = merge_intervals intervals;
          missing = missing_intervals target merged
      in \<lparr>ec_target_range = target,
          ec_contributing_intervals = intervals,
          ec_contributing_fact_digests = map (fst \<circ> snd) cs,
          ec_contributing_facts = map (snd \<circ> snd) cs,
          ec_covered_intervals = merged,
          ec_missing_intervals = missing,
          ec_covered_anchors = sum_list (map ai_length merged),
          ec_missing_anchors = sum_list (map ai_length missing)\<rparr>)"

section \<open>Anchors of intervals\<close>

definition in_interval :: "anchor_interval \<Rightarrow> int \<Rightarrow> bool" where
  "in_interval r i \<longleftrightarrow> ai_begin r \<le> i \<and> i < ai_end r"

definition covers :: "anchor_interval list \<Rightarrow> int \<Rightarrow> bool" where
  "covers rs i \<longleftrightarrow> list_ex (\<lambda>r. in_interval r i) rs"

definition separated :: "anchor_interval list \<Rightarrow> bool" where
  "separated rs \<longleftrightarrow> sorted_wrt (\<lambda>a b. ai_end a < ai_begin b) rs \<and> list_all (\<lambda>r. \<not> ai_empty r) rs"

lemma covers_simps [simp]:
  "covers [] i = False" "covers (r # rs) i = (in_interval r i \<or> covers rs i)"
  "covers (rs @ qs) i = (covers rs i \<or> covers qs i)"
  by (auto simp: covers_def)

lemma covers_iff: "covers rs i \<longleftrightarrow> (\<exists>r \<in> set rs. in_interval r i)"
  by (auto simp: covers_def list_ex_iff)

lemma ai_empty_iff: "ai_empty r \<longleftrightarrow> (\<forall>i. \<not> in_interval r i)"
  by (auto simp: ai_empty_def in_interval_def)

lemma in_intersection: "in_interval (interval_intersection a b) i \<longleftrightarrow> in_interval a i \<and> in_interval b i"
  by (auto simp: interval_intersection_def in_interval_def ai_empty_def default_interval_def Let_def)

lemma intersection_empty_iff: "ai_empty (interval_intersection a b) \<longleftrightarrow> \<not> intervals_overlap a b"
  by (auto simp: interval_intersection_def intervals_overlap_def ai_empty_def default_interval_def Let_def)

lemma intersection_within:
  "\<not> ai_empty (interval_intersection a b) \<Longrightarrow>
    ai_begin b \<le> ai_begin (interval_intersection a b) \<and> ai_end (interval_intersection a b) \<le> ai_end b"
  by (auto simp: interval_intersection_def ai_empty_def default_interval_def Let_def split: if_splits)

section \<open>Merging\<close>

lemma separated_snoc:
  "separated (rs @ [r]) \<longleftrightarrow> separated rs \<and> \<not> ai_empty r \<and> (\<forall>q \<in> set rs. ai_end q < ai_begin r)"
  by (auto simp: separated_def sorted_wrt_append)

lemma merge_interval_step:
  assumes "separated merged" "\<not> ai_empty r" "merged \<noteq> [] \<Longrightarrow> ai_begin (last merged) \<le> ai_begin r"
  shows "separated (merge_interval merged r)"
    and "covers (merge_interval merged r) i \<longleftrightarrow> covers merged i \<or> in_interval r i"
    and "merge_interval merged r \<noteq> [] \<and> ai_begin (last (merge_interval merged r)) \<le> ai_begin r"
proof -
  have "merged = [] \<or> (\<exists>qs q. merged = qs @ [q])" by (cases merged rule: rev_cases) auto
  then consider "merged = []" | qs q where "merged = qs @ [q]" by blast
  note cases = this
  show "separated (merge_interval merged r)"
    using cases assms
    by cases (auto simp: merge_interval_def separated_snoc separated_def ai_empty_def sorted_wrt_append)
  show "covers (merge_interval merged r) i \<longleftrightarrow> covers merged i \<or> in_interval r i"
    using cases assms
    by cases (auto simp: merge_interval_def separated_snoc in_interval_def ai_empty_def)
  show "merge_interval merged r \<noteq> [] \<and> ai_begin (last (merge_interval merged r)) \<le> ai_begin r"
    using cases assms by cases (auto simp: merge_interval_def)
qed

lemma merge_intervals_from:
  assumes "separated merged" "list_all (\<lambda>r. \<not> ai_empty r) rs"
    and "sorted_wrt (\<lambda>a b. ai_begin a \<le> ai_begin b) rs"
    and "merged \<noteq> [] \<Longrightarrow> \<forall>r \<in> set rs. ai_begin (last merged) \<le> ai_begin r"
  shows "separated (foldl merge_interval merged rs) \<and>
    (\<forall>i. covers (foldl merge_interval merged rs) i \<longleftrightarrow> covers merged i \<or> covers rs i)"
  using assms
proof (induction rs arbitrary: merged)
  case (Cons r rs)
  note step = merge_interval_step [of merged r]
  have pre: "separated merged" "\<not> ai_empty r" "merged \<noteq> [] \<Longrightarrow> ai_begin (last merged) \<le> ai_begin r"
    using Cons.prems by auto
  have "\<forall>q \<in> set rs. ai_begin (last (merge_interval merged r)) \<le> ai_begin q"
    using step(3) [OF pre] Cons.prems(3) by force
  then show ?case
    using Cons.IH [of "merge_interval merged r"] Cons.prems step [OF pre] by auto
qed simp

lemma merge_intervals_correct:
  assumes "list_all (\<lambda>r. \<not> ai_empty r) rs" "sorted_wrt (\<lambda>a b. ai_begin a \<le> ai_begin b) rs"
  shows "separated (merge_intervals rs)" "covers (merge_intervals rs) i \<longleftrightarrow> covers rs i"
  using merge_intervals_from [of "[]" rs] assms
  by (auto simp: merge_intervals_def separated_def)

section \<open>Missing anchors and counts\<close>

lemma ai_length_pos: "ai_begin r < ai_end r \<Longrightarrow> ai_length r = ai_end r - ai_begin r"
  by (simp add: ai_length_def ai_empty_def)

lemma missing_from_covers:
  assumes "separated rs" "\<forall>r \<in> set rs. c \<le> ai_begin r \<and> ai_end r \<le> e"
  shows "covers (missing_from c e rs) i \<longleftrightarrow> c \<le> i \<and> i < e \<and> \<not> covers rs i"
  using assms
proof (induction rs arbitrary: c)
  case (Cons r rs)
  have r: "c \<le> ai_begin r" "ai_begin r < ai_end r" "ai_end r \<le> e"
    using Cons.prems by (auto simp: separated_def ai_empty_def)
  have later: "\<forall>q \<in> set rs. ai_end r \<le> ai_begin q \<and> ai_end q \<le> e"
    using Cons.prems by (auto simp: separated_def less_imp_le)
  have no: "covers rs i \<Longrightarrow> ai_end r \<le> i"
    using later by (auto simp: covers_iff in_interval_def)
  have "max c (ai_end r) = ai_end r" using r by simp
  then have "covers (missing_from (max c (ai_end r)) e rs) i \<longleftrightarrow> ai_end r \<le> i \<and> i < e \<and> \<not> covers rs i"
    using Cons.IH [of "ai_end r"] Cons.prems later by (simp add: separated_def)
  then show ?case using r no by (auto simp: in_interval_def)
qed (auto simp: in_interval_def)

lemma missing_from_length:
  assumes "separated rs" "\<forall>r \<in> set rs. c \<le> ai_begin r \<and> ai_end r \<le> e" "c \<le> e"
  shows "sum_list (map ai_length (missing_from c e rs)) + sum_list (map ai_length rs) = e - c"
  using assms
proof (induction rs arbitrary: c)
  case (Cons r rs)
  have r: "c \<le> ai_begin r" "ai_begin r < ai_end r" "ai_end r \<le> e"
    using Cons.prems by (auto simp: separated_def ai_empty_def)
  have "\<forall>q \<in> set rs. ai_end r \<le> ai_begin q \<and> ai_end q \<le> e"
    using Cons.prems by (auto simp: separated_def less_imp_le)
  then have "sum_list (map ai_length (missing_from (ai_end r) e rs)) + sum_list (map ai_length rs) = e - ai_end r"
    using Cons.IH [of "ai_end r"] Cons.prems r by (simp add: separated_def)
  moreover have "max c (ai_end r) = ai_end r" using r by simp
  ultimately show ?case using r by (auto simp: ai_length_pos)
qed (auto simp: ai_length_def ai_empty_def)

lemma separated_count:
  "separated rs \<Longrightarrow> finite {i. covers rs i} \<and> int (card {i. covers rs i}) = sum_list (map ai_length rs)"
proof (induction rs)
  case (Cons r rs)
  then have IH: "finite {i. covers rs i}" "int (card {i. covers rs i}) = sum_list (map ai_length rs)"
    by (auto simp: separated_def)
  have r: "ai_begin r < ai_end r" "\<forall>q \<in> set rs. ai_end r < ai_begin q"
    using Cons.prems by (auto simp: separated_def ai_empty_def)
  have "{i. covers (r # rs) i} = {ai_begin r..<ai_end r} \<union> {i. covers rs i}"
    by (auto simp: in_interval_def)
  moreover have "{ai_begin r..<ai_end r} \<inter> {i. covers rs i} = {}"
    using r by (fastforce simp: covers_iff in_interval_def)
  ultimately show ?case
    using IH r by (simp add: card_Un_disjoint ai_length_pos)
next
  case Nil
  have "covers [] = (\<lambda>_. False)" by (simp add: fun_eq_iff)
  then show ?case by simp
qed

section \<open>Contributions\<close>

definition contributes ::
  "'x lattice_exposure_fact_scheme \<Rightarrow> anchor_interval \<Rightarrow> exposure_use \<Rightarrow> bool \<Rightarrow> bool"
where
  "contributes f target u req_mut \<longleftrightarrow> (req_mut \<longrightarrow> us_mutated_component (ef_use f)) \<and> fact_has_use f u \<and>
     \<not> ai_empty (interval_intersection (anchor_coverage_for_use f u) target)"

lemma collect_sound:
  "(r, d, f) \<in> set (collect_contributions digest target u m seen fs) \<Longrightarrow>
    f \<in> set fs \<and> contributes f target u m \<and> d = digest f \<and> d \<notin> seen \<and>
    r = interval_intersection (anchor_coverage_for_use f u) target"
proof (induction digest target u m seen fs rule: collect_contributions.induct)
  case (2 digest target u m seen g fs)
  let ?r = "interval_intersection (anchor_coverage_for_use g u) target"
  consider "m \<and> \<not> us_mutated_component (ef_use g)" | "\<not> fact_has_use g u" | "digest g \<in> seen"
    | "m \<longrightarrow> us_mutated_component (ef_use g)" "fact_has_use g u" "digest g \<notin> seen"
    by blast
  then show ?case
  proof cases
    case 4
    then have "collect_contributions digest target u m seen (g # fs) =
        (if ai_empty ?r then [] else [(?r, digest g, g)]) @
        collect_contributions digest target u m (insert (digest g) seen) fs"
      by (auto simp: Let_def)
    with 4 "2.prems" "2.IH"(4) show ?thesis by (fastforce simp: contributes_def split: if_splits)
  qed (use 2 in \<open>auto split: if_splits\<close>)
qed simp

lemma collect_complete:
  "inj_on digest (set fs) \<Longrightarrow> f \<in> set fs \<Longrightarrow> contributes f target u m \<Longrightarrow> digest f \<notin> seen \<Longrightarrow>
    (interval_intersection (anchor_coverage_for_use f u) target, digest f, f) \<in>
      set (collect_contributions digest target u m seen fs)"
proof (induction digest target u m seen fs rule: collect_contributions.induct)
  case (2 digest target u m seen g fs)
  have inj: "inj_on digest (set fs)" using "2.prems"(1) by (auto simp: inj_on_def)
  show ?case
  proof (cases "f = g")
    case True
    with "2.prems" show ?thesis by (auto simp: contributes_def Let_def)
  next
    case False
    then have "f \<in> set fs" "digest f \<noteq> digest g"
      using "2.prems" by (auto simp: inj_on_def)
    with "2.IH" inj "2.prems" show ?thesis by (auto simp: Let_def)
  qed
qed simp

lemma collect_distinct:
  "distinct (map (fst \<circ> snd) (collect_contributions digest target u m seen fs))"
proof (induction digest target u m seen fs rule: collect_contributions.induct)
  case (2 digest target u m seen g fs)
  have "digest g \<notin> (fst \<circ> snd) ` set (collect_contributions digest target u m (insert (digest g) seen) fs)"
    using collect_sound [of _ _ _ digest target u m "insert (digest g) seen" fs] by fastforce
  with 2 show ?case by (auto simp: Let_def)
qed simp

lemma set_collect:
  assumes "inj_on digest (set fs)"
  shows "set (collect_contributions digest target u m {} fs) =
    (\<lambda>f. (interval_intersection (anchor_coverage_for_use f u) target, digest f, f)) `
      {f \<in> set fs. contributes f target u m}"
  using collect_sound [of _ _ _ digest target u m "{}" fs] collect_complete [OF assms, of _ target u m "{}"]
  by (auto simp: image_iff)

lemma sort_contributions_sorted:
  "sorted_wrt (\<lambda>a b. ai_begin a \<le> ai_begin b) (map fst (sort_contributions cs))"
proof -
  have "sorted (map (\<lambda>(r, d, _). (r, d)) (sort_contributions cs))"
    unfolding sort_contributions_def by (rule sorted_sort_key)
  then show ?thesis
    unfolding sorted_wrt_map
    by (rule sorted_wrt_mono_rel [rotated])
      (auto simp: less_eq_prod_def less_eq_anchor_interval_def less_anchor_interval_def split: if_splits)
qed

lemma set_sort_contributions [simp]: "set (sort_contributions cs) = set cs"
  by (simp add: sort_contributions_def)

lemma collect_within:
  "(r, d, f) \<in> set (collect_contributions digest target u m seen fs) \<Longrightarrow>
    \<not> ai_empty r \<and> ai_begin target \<le> ai_begin r \<and> ai_end r \<le> ai_end target"
  using intersection_within by (auto simp: contributes_def dest!: collect_sound)

text \<open>The intervals of a coverage, in order, with the facts they come from.\<close>

lemma coverage_intervals:
  fixes digest target u m facts
  defines "ivs \<equiv> map fst (sort_contributions (collect_contributions digest target u m {} facts))"
  shows "list_all (\<lambda>r. \<not> ai_empty r) ivs" "sorted_wrt (\<lambda>a b. ai_begin a \<le> ai_begin b) ivs"
    and "\<forall>r \<in> set ivs. ai_begin target \<le> ai_begin r \<and> ai_end r \<le> ai_end target"
  using collect_within [of _ _ _ digest target u m "{}" facts] sort_contributions_sorted
  by (auto simp: ivs_def list_all_iff)

lemma merge_within:
  assumes "list_all (\<lambda>r. \<not> ai_empty r) rs" "sorted_wrt (\<lambda>a b. ai_begin a \<le> ai_begin b) rs"
    and "\<forall>r \<in> set rs. b \<le> ai_begin r \<and> ai_end r \<le> e" "q \<in> set (merge_intervals rs)"
  shows "b \<le> ai_begin q \<and> ai_end q \<le> e"
proof -
  have q: "ai_begin q < ai_end q"
    using merge_intervals_correct(1) [OF assms(1,2)] assms(4)
    by (auto simp: separated_def list_all_iff ai_empty_def)
  have "b \<le> i \<and> i < e" if "covers (merge_intervals rs) i" for i
  proof -
    have "covers rs i" using that merge_intervals_correct(2) [OF assms(1,2)] by blast
    then show ?thesis using assms(3) by (force simp: covers_iff in_interval_def)
  qed
  moreover have "covers (merge_intervals rs) (ai_begin q)" "covers (merge_intervals rs) (ai_end q - 1)"
    using assms(4) q by (auto simp: covers_iff in_interval_def)
  ultimately show ?thesis by fastforce
qed

lemma coverage_fields:
  fixes digest target u m facts
  defines "ivs \<equiv> map fst (sort_contributions (collect_contributions digest target u m {} facts))"
  shows "ec_covered_intervals (coverage_for_use digest facts target u m) = merge_intervals ivs"
    and "ec_missing_intervals (coverage_for_use digest facts target u m) =
      missing_intervals target (merge_intervals ivs)"
    and "ec_covered_anchors (coverage_for_use digest facts target u m) =
      sum_list (map ai_length (merge_intervals ivs))"
    and "ec_missing_anchors (coverage_for_use digest facts target u m) =
      sum_list (map ai_length (missing_intervals target (merge_intervals ivs)))"
  by (simp_all add: coverage_for_use_def ivs_def Let_def)

lemma empty_target_merged:
  assumes "ai_empty target"
  shows "merge_intervals (map fst (sort_contributions (collect_contributions digest target u m {} facts))) = []"
proof -
  have "collect_contributions digest target u m {} facts = []"
  proof (rule ccontr)
    assume "collect_contributions digest target u m {} facts \<noteq> []"
    then obtain r d f where "(r, d, f) \<in> set (collect_contributions digest target u m {} facts)"
      by (metis list.set_intros(1) neq_Nil_conv prod_cases3)
    from collect_sound [OF this] assms show False
      by (auto simp: contributes_def intersection_empty_iff intervals_overlap_def)
  qed
  then show ?thesis by (simp add: sort_contributions_def merge_intervals_def)
qed

section \<open>Overlaps\<close>

lemma forbidden_for_use_Nil:
  "forbidden_overlap_for_use env query f u = [] \<longleftrightarrow> \<not> fact_has_use f u \<or>
     ai_empty (anchor_coverage_for_use f u) \<or>
     ai_empty (interval_intersection (source_footprint_for_use f u) (forbidden_range query))"
  by (simp add: forbidden_overlap_for_use_def Let_def)

lemma overlaps_nonempty_iff:
  "forbidden_exposure_overlaps env facts query \<noteq> [] \<longleftrightarrow>
    (\<exists>f \<in> set facts. (require_mutated_component query \<longrightarrow> us_mutated_component (ef_use f)) \<and>
      (\<exists>u \<in> set (forbidden_uses query). forbidden_overlap_for_use env query f u \<noteq> []))"
  unfolding forbidden_exposure_overlaps_def by (induction facts) auto

lemma forbidden_for_use_in:
  assumes "w \<in> set (forbidden_overlap_for_use env query f u)"
  shows "fo_fact_digest w = exposure_fact_digest env f" "fo_job_id w = ef_job_id f" "fo_use w = u"
    and "fo_intersection w = interval_intersection (source_footprint_for_use f u) (forbidden_range query)"
  using assms by (simp_all add: forbidden_overlap_for_use_def Let_def split: if_split_asm)

section \<open>Names\<close>

lemma parse_uses_token:
  "set s \<inter> {CHR ''|'', CHR '','', CHR ''+''} = {} \<Longrightarrow>
    parse_exposure_uses tok out (s @ rest) = parse_exposure_uses (tok @ s) out rest"
  by (induction s arbitrary: tok) auto

lemma parse_use_name:
  "parse_exposure_use (trim (exposure_use_name u)) = Inr u" "trim (exposure_use_name u) \<noteq> []"
proof -
  have "\<forall>u \<in> set [ObservedInput, TargetSupervision, EvaluationMetric, SelectionSignal].
      parse_exposure_use (trim (exposure_use_name u)) = Inr u \<and> trim (exposure_use_name u) \<noteq> []"
    by code_simp
  then show "parse_exposure_use (trim (exposure_use_name u)) = Inr u" "trim (exposure_use_name u) \<noteq> []"
    by (cases u; simp)+
qed

lemma push_use_name: "push_use (exposure_use_name u) out = Inr (out @ [u])"
  by (simp add: push_use_def parse_use_name)

lemma use_name_no_separator: "set (exposure_use_name u) \<inter> {CHR ''|'', CHR '','', CHR ''+''} = {}"
  by (cases u) (auto simp: exposure_use_name_def)

definition lower_chr :: "char \<Rightarrow> bool" where
  "lower_chr c \<longleftrightarrow> \<not> is_upper c \<and> \<not> is_space c"

lemma lowercase_trim_id: "list_all lower_chr s \<Longrightarrow> lowercase (trim s) = s"
proof -
  assume s: "list_all lower_chr s"
  then have "trim s = s" by (intro trim_no_space) (auto simp: list_all_iff lower_chr_def)
  moreover have "lowercase s = s"
    using s by (auto simp: lowercase_def list_all_iff lower_chr_def to_lower_def intro: map_idI)
  ultimately show ?thesis by simp
qed

lemma family_name_lower: "list_all lower_chr (lattice_fact_family_name fam)"
  by (cases fam)
    (simp_all add: lattice_fact_family_name_def lower_chr_def is_upper_def is_space_def chr_code_def)

lemma family_schema_lower:
  "list_all lower_chr (''kikijyeba.lattice.'' @ lattice_fact_family_name fam @ ''.v1'')"
  using family_name_lower [of fam] by (simp add: lower_chr_def is_upper_def is_space_def chr_code_def)

lemma registry_texts:
  "list_all (\<lambda>d. fd_family_name d = lattice_fact_family_name (fd_family d) \<and> fd_relation d = fd_family_name d \<and>
     fd_fact_schema d = ''kikijyeba.lattice.'' @ fd_family_name d @ ''.v1'') lattice_fact_family_registry"
  by (simp add: lattice_fact_family_registry_def family_descriptor_def lattice_fact_family_name_def)

lemma registry_families: "fam \<in> fd_family ` set lattice_fact_family_registry"
proof -
  have "fd_family ` set lattice_fact_family_registry = set (map fd_family lattice_fact_family_registry)"
    by simp
  also have "map fd_family lattice_fact_family_registry = [FExposure, FNodeExposure, FCheckpoint,
      FSourceReceipt, FSourceAnalytics, FTargetTransform, FForecastBaseline, FForecastEval,
      FObserverBelief, FAllocationEngine, FReplayEnvironment, FPolicyTraining,
      FTsodaoSettingsProtection, FPolicyAcceptance, FPaperOnlineReadiness, FPaperOnlineSession,
      FSelectionSignal, FRepresentationSupport]"
    by (simp add: lattice_fact_family_registry_def family_descriptor_def)
  finally show ?thesis by (cases fam) simp_all
qed

lemma family_name_inject: "lattice_fact_family_name f = lattice_fact_family_name g \<longleftrightarrow> f = g"
  by (cases f; cases g; simp add: lattice_fact_family_name_def)

lemma family_name_no_k: "lattice_fact_family_name f \<noteq> ''kikijyeba.lattice.'' @ s"
  by (cases f) (simp_all add: lattice_fact_family_name_def)

lemma family_found:
  assumes "v = lattice_fact_family_name fam \<or> v = ''kikijyeba.lattice.'' @ lattice_fact_family_name fam @ ''.v1''"
  shows "\<exists>d. List.find (\<lambda>d. v = fd_family_name d \<or> v = fd_relation d \<or> v = fd_fact_schema d)
    lattice_fact_family_registry = Some d \<and> fd_family d = fam"
proof -
  let ?P = "\<lambda>d. v = fd_family_name d \<or> v = fd_relation d \<or> v = fd_fact_schema d"
  have texts: "\<And>d. d \<in> set lattice_fact_family_registry \<Longrightarrow> ?P d \<longleftrightarrow> fd_family d = fam"
    using registry_texts assms family_name_no_k family_name_no_k [symmetric]
    by (auto simp: list_all_iff family_name_inject)
  obtain e where "e \<in> set lattice_fact_family_registry" "?P e"
    using registry_families [of fam] texts by blast
  then obtain d where d: "List.find ?P lattice_fact_family_registry = Some d"
    by (metis (mono_tags, lifting) find_None_iff not_Some_eq)
  with texts [of d] show ?thesis by (auto dest: find_Some_D)
qed

lemma family_name_not_all: "lattice_fact_family_name f \<noteq> []" "lattice_fact_family_name f \<noteq> ''all''"
  by (cases f; simp add: lattice_fact_family_name_def)+

section \<open>Properties\<close>

definition example_uses :: exposure_use_set where
  "example_uses = \<lparr>us_observed_input = True, us_target_supervision = False,
     us_evaluation_metric = False, us_selection_signal = False, us_mutated_component = True\<rparr>"

definition example_fact :: "string \<Rightarrow> int \<Rightarrow> int \<Rightarrow> lattice_exposure_fact" where
  "example_fact job b e = \<lparr>ef_target_component_family_id = ''encoder'', ef_job_id = job, ef_wave_id = ''w'',
     ef_job_status = ''completed'', ef_anchor_range = Interval b e, ef_observed_footprint = Interval b e,
     ef_target_footprint = Interval b e, ef_source_input_length = 1, ef_source_future_length = 0,
     ef_split_name = ''train'',
     ef_coverage_precision = ''contiguous_completed_range_v1'',
     ef_completed_anchor_range = Interval b e, ef_use = example_uses\<rparr>"

definition example_facts :: "lattice_exposure_fact list" where
  "example_facts = [example_fact ''j2'' 5 9, example_fact ''j1'' 0 4, example_fact ''j3'' 6 12]"

lemma example_digest_inj: "inj_on ef_job_id (set example_facts)"
  by (simp add: example_facts_def example_fact_def)

text \<open>
  C5: the intervals reported as covered are non-empty, in increasing order and separated by at
  least one anchor, and they contain an anchor exactly when it lies in the target range and some
  fact with the requested use (and, if asked for, a mutated component) completed it. Facts with
  different contents are assumed to have different digests.
\<close>

theorem coverage_exact:
  assumes "inj_on digest (set facts)"
  shows "separated (ec_covered_intervals (coverage_for_use digest facts target u m)) \<and>
    (covers (ec_covered_intervals (coverage_for_use digest facts target u m)) i \<longleftrightarrow>
      in_interval target i \<and>
      (\<exists>f \<in> set facts. (m \<longrightarrow> us_mutated_component (ef_use f)) \<and> fact_has_use f u \<and>
        in_interval (anchor_coverage_for_use f u) i))"
proof -
  let ?cs = "collect_contributions digest target u m {} facts"
  note ivs = coverage_intervals(1,2) [of digest target u m facts]
  have "covers (map fst ?cs) i \<longleftrightarrow> in_interval target i \<and>
      (\<exists>f \<in> set facts. (m \<longrightarrow> us_mutated_component (ef_use f)) \<and> fact_has_use f u \<and>
        in_interval (anchor_coverage_for_use f u) i)"
    by (auto simp: covers_iff set_collect [OF assms] image_image contributes_def in_intersection ai_empty_iff)
  then show ?thesis
    unfolding coverage_fields
    using merge_intervals_correct [OF ivs] by (simp add: covers_iff)
qed

theorem coverage_exact_witness:
  "covers (ec_covered_intervals (coverage_for_use ef_job_id example_facts (Interval 2 10) ObservedInput True)) 7"
proof -
  have "in_interval (Interval 2 10) 7" by (simp add: in_interval_def)
  moreover have "\<exists>f \<in> set example_facts. (True \<longrightarrow> us_mutated_component (ef_use f)) \<and>
      fact_has_use f ObservedInput \<and> in_interval (anchor_coverage_for_use f ObservedInput) 7"
    by (simp add: example_facts_def example_fact_def example_uses_def fact_has_use_def
        anchor_coverage_for_use_def in_interval_def)
  ultimately show ?thesis
    using coverage_exact [OF example_digest_inj, of "Interval 2 10" ObservedInput True 7] by blast
qed

text \<open>
  C29: covered and missing intervals partition the target range: an anchor is missing exactly
  when it is in the target and not covered, the reported numbers are the numbers of covered and
  of missing anchors, and together they are the length of the target.
\<close>

theorem coverage_partition:
  "(covers (ec_missing_intervals (coverage_for_use digest facts target u m)) i \<longleftrightarrow>
      in_interval target i \<and> \<not> covers (ec_covered_intervals (coverage_for_use digest facts target u m)) i) \<and>
    ec_covered_anchors (coverage_for_use digest facts target u m) =
      int (card {i. covers (ec_covered_intervals (coverage_for_use digest facts target u m)) i}) \<and>
    ec_covered_anchors (coverage_for_use digest facts target u m) +
      ec_missing_anchors (coverage_for_use digest facts target u m) = ai_length target"
proof -
  let ?ivs = "map fst (sort_contributions (collect_contributions digest target u m {} facts))"
  let ?merged = "merge_intervals ?ivs"
  note ivs = coverage_intervals [of digest target u m facts]
  have sep: "separated ?merged" by (rule merge_intervals_correct(1) [OF ivs(1,2)])
  have within: "\<forall>q \<in> set ?merged. ai_begin target \<le> ai_begin q \<and> ai_end q \<le> ai_end target"
    using merge_within [OF ivs] by blast
  have count: "sum_list (map ai_length ?merged) = int (card {i. covers ?merged i})"
    using separated_count [OF sep] by simp
  show ?thesis
  proof (cases "ai_empty target")
    case True
    then have "?merged = []" by (rule empty_target_merged)
    with True show ?thesis
      unfolding coverage_fields using count
      by (simp add: missing_intervals_def ai_empty_iff ai_length_def)
  next
    case False
    then have "ai_begin target \<le> ai_end target" by (simp add: ai_empty_def)
    with missing_from_length [OF sep within this] missing_from_covers [OF sep within, of i] False show ?thesis
      unfolding coverage_fields using count
      by (simp add: missing_intervals_def in_interval_def ai_length_def)
  qed
qed

text \<open>
  Coverage depends only on the set of facts: neither their order nor a fact recorded twice
  changes any part of the report.
\<close>

theorem coverage_order_and_duplicates:
  assumes "inj_on digest (set facts)" "set facts' = set facts"
  shows "coverage_for_use digest facts' target u m = coverage_for_use digest facts target u m"
proof -
  let ?cs = "collect_contributions digest target u m {} facts"
  let ?ds = "collect_contributions digest target u m {} facts'"
  have "set ?ds = set ?cs"
    using assms by (simp add: set_collect)
  moreover have "distinct ?cs" "distinct ?ds"
    using collect_distinct [of digest target u m "{}"] by (auto simp: distinct_map)
  ultimately have "mset ?ds = mset ?cs" by (simp add: set_eq_iff_mset_eq_distinct)
  moreover have "inj_on (\<lambda>(r, d, _). (r, d)) (set ?ds)"
    using collect_distinct [of digest target u m "{}" facts']
    unfolding distinct_map inj_on_def by fastforce
  ultimately have "sort_contributions ?ds = sort_contributions ?cs"
    unfolding sort_contributions_def by (intro sort_key_inj_key_eq) simp_all
  then show ?thesis by (simp add: coverage_for_use_def)
qed

theorem coverage_order_and_duplicates_witness:
  "coverage_for_use ef_job_id (rev example_facts @ example_facts) (Interval 0 20) ObservedInput True =
    coverage_for_use ef_job_id example_facts (Interval 0 20) ObservedInput True"
  by (rule coverage_order_and_duplicates [OF example_digest_inj]) simp

text \<open>
  C18: the leakage check is sound and complete: an overlap is reported exactly when some fact
  (with a mutated component, if the query asks for it) has a forbidden use with a completed
  coverage and a source footprint that shares an anchor with the protected range.
\<close>

theorem forbidden_overlap_sound_complete:
  "has_forbidden_exposure_overlap env facts query \<longleftrightarrow>
    (\<exists>f \<in> set facts. \<exists>u \<in> set (forbidden_uses query).
       (if require_mutated_component query then us_mutated_component (ef_use f) else True) \<and> fact_has_use f u \<and>
       (\<exists>j. in_interval (anchor_coverage_for_use f u) j) \<and>
       (\<exists>i. in_interval (source_footprint_for_use f u) i \<and> in_interval (forbidden_range query) i))"
proof -
  have "forbidden_overlap_for_use env query f u \<noteq> [] \<longleftrightarrow> fact_has_use f u \<and>
      (\<exists>j. in_interval (anchor_coverage_for_use f u) j) \<and>
      (\<exists>i. in_interval (source_footprint_for_use f u) i \<and> in_interval (forbidden_range query) i)" for f u
    by (simp add: forbidden_for_use_Nil) (simp add: ai_empty_iff in_intersection)
  then show ?thesis
    unfolding has_forbidden_exposure_overlap_def overlaps_nonempty_iff if_bool_eq_conj by blast
qed

text \<open>
  Every reported overlap is a genuine one: it names the digest, job and use of a fact, and
  the anchors of its intersection are exactly those shared by that fact's footprint and the
  protected range.
\<close>

theorem forbidden_overlap_witnesses:
  assumes "w \<in> set (forbidden_exposure_overlaps env facts query)"
  shows "\<exists>f \<in> set facts. fo_fact_digest w = exposure_fact_digest env f \<and> fo_job_id w = ef_job_id f \<and>
    fo_use w \<in> set (forbidden_uses query) \<and> fact_has_use f (fo_use w) \<and>
    (in_interval (fo_intersection w) i \<longleftrightarrow>
      in_interval (source_footprint_for_use f (fo_use w)) i \<and> in_interval (forbidden_range query) i) \<and>
    \<not> ai_empty (fo_intersection w)"
proof -
  from assms obtain f u where f: "f \<in> set facts" "u \<in> set (forbidden_uses query)"
    and w: "w \<in> set (forbidden_overlap_for_use env query f u)"
    by (auto simp: forbidden_exposure_overlaps_def split: if_splits)
  have "fact_has_use f u" "\<not> ai_empty (fo_intersection w)"
    using w forbidden_for_use_Nil [of env query f u] forbidden_for_use_in(4) [OF w] by auto
  with f forbidden_for_use_in [OF w] show ?thesis by (auto simp: in_intersection)
qed

theorem forbidden_overlap_witnesses_witness:
  "\<exists>w :: forbidden_exposure_overlap. \<exists>f \<in> set example_facts. fo_job_id w = ef_job_id f \<and> \<not> ai_empty (fo_intersection w)"
proof -
  let ?env = "\<lparr>exposure_fact_digest = ef_job_id, selection_event_digest_of = \<lambda>_. [], selected_checkpoint_of = \<lambda>_. []\<rparr>"
  let ?q = "\<lparr>forbidden_range = Interval 3 6, forbidden_uses = [ObservedInput], require_mutated_component = True\<rparr>"
  have "forbidden_exposure_overlaps ?env example_facts ?q \<noteq> []"
    by code_simp
  then obtain w where "w \<in> set (forbidden_exposure_overlaps ?env example_facts ?q)"
    by (meson last_in_set)
  then obtain f where "f \<in> set example_facts" "fo_job_id w = ef_job_id f" "\<not> ai_empty (fo_intersection w)"
    using forbidden_overlap_witnesses [of w ?env example_facts ?q 0] by auto
  then show ?thesis by blast
qed

text \<open>
  A list of uses survives being written with the separator \<open>|\<close> and read back.
\<close>

theorem exposure_use_list_roundtrip:
  "parse_exposure_use_list (concat (map (\<lambda>u. exposure_use_name u @ ''|'') us)) = Inr us"
proof -
  have "parse_exposure_uses [] out (concat (map (\<lambda>u. exposure_use_name u @ ''|'') us)) = Inr (out @ us)" for out
    by (induction us arbitrary: out)
      (simp_all add: push_use_def [of "[]"] parse_uses_token use_name_no_separator push_use_name)
  then show ?thesis by (simp add: parse_exposure_use_list_def)
qed

text \<open>
  Every fact family is found by its name, by its schema identifier and by its relation, and
  \<open>all\<close> stands for no restriction.
\<close>

theorem fact_family_lookup:
  "parse_lattice_fact_family (lattice_fact_family_name fam) = Inr (Some fam) \<and>
   parse_lattice_fact_family (''kikijyeba.lattice.'' @ lattice_fact_family_name fam @ ''.v1'') = Inr (Some fam) \<and>
   parse_lattice_fact_family ''all'' = Inr None"
proof -
  have "parse_lattice_fact_family ''all'' = Inr None"
    by (simp add: parse_lattice_fact_family_def lowercase_trim_id lower_chr_def is_upper_def is_space_def chr_code_def)
  moreover have "parse_lattice_fact_family (lattice_fact_family_name fam) = Inr (Some fam)"
    using family_found [of "lattice_fact_family_name fam" fam]
    by (auto simp: parse_lattice_fact_family_def lowercase_trim_id family_name_lower family_name_not_all)
  moreover have "parse_lattice_fact_family (''kikijyeba.lattice.'' @ lattice_fact_family_name fam @ ''.v1'') = Inr (Some fam)"
    using family_found [of "''kikijyeba.lattice.'' @ lattice_fact_family_name fam @ ''.v1''" fam]
    unfolding parse_lattice_fact_family_def lowercase_trim_id [OF family_schema_lower] Let_def by auto
  ultimately show ?thesis by blast
qed

end
