(* ===== verification/Source_Splits.thy ===== *)
theory Source_Splits
  imports Simple_Kv Fnv "HOL-Library.Signed_Division" "HOL-Library.Multiset"
begin

unbundle bit_operations_syntax

text \<open>
  \<open>src/include/ujcamei/source/splits/source_split_catalog.h\<close>: the catalog of train, validation
  and test splits of the source, decoded from key/value blocks, and its materialisation on a
  number of accepted anchors. A split selects a range of anchor indexes or a range of rational
  fractions of the anchors. \<open>int64_t\<close> values are integers; the decoder only lets values of
  \<open>in_int64\<close> in, and the products of the code are taken in 128 bits, where they cannot
  overflow. Reading the catalog from a file (\<open>read_text_file_or_throw\<close>) is not modelled.
\<close>

section \<open>Data\<close>

record source_anchor_interval =
  sai_begin :: int
  sai_end :: int

definition sai_length :: "source_anchor_interval \<Rightarrow> int" where
  "sai_length r = sai_end r - sai_begin r"

datatype source_split_role = RoleUnknown | RoleTrain | RoleValidation | RoleTest

datatype source_split_selector_kind = AnchorIndexRange | FractionRange

record source_fraction =
  numerator :: int
  denominator :: int

record source_fraction_range =
  frac_begin :: source_fraction
  frac_end :: source_fraction

record source_split =
  split_id :: string
  split_role :: source_split_role
  selector_kind :: source_split_selector_kind
  anchor_range :: source_anchor_interval
  fraction_range :: source_fraction_range
  min_count :: int

record source_split_catalog =
  cat_schema :: string
  catalog_id :: string
  cursor_domain :: string
  splits :: "source_split list"

definition default_fraction :: source_fraction where
  "default_fraction = \<lparr>numerator = 0, denominator = 1\<rparr>"

definition default_fraction_range :: source_fraction_range where
  "default_fraction_range = \<lparr>frac_begin = default_fraction, frac_end = \<lparr>numerator = 1, denominator = 1\<rparr>\<rparr>"

definition default_split :: source_split where
  "default_split = \<lparr>split_id = [], split_role = RoleUnknown, selector_kind = AnchorIndexRange,
     anchor_range = \<lparr>sai_begin = 0, sai_end = 0\<rparr>, fraction_range = default_fraction_range, min_count = 1\<rparr>"

definition graph_anchor_domain :: string where
  "graph_anchor_domain = ''ujcamei.graph_anchor''"

definition default_catalog :: source_split_catalog where
  "default_catalog = \<lparr>cat_schema = ''ujcamei.source.splits.v1'', catalog_id = [],
     cursor_domain = graph_anchor_domain, splits = []\<rparr>"

section \<open>Names\<close>

definition source_split_role_name :: "source_split_role \<Rightarrow> string" where
  "source_split_role_name role = (case role of RoleUnknown \<Rightarrow> ''unknown'' | RoleTrain \<Rightarrow> ''train''
     | RoleValidation \<Rightarrow> ''validation'' | RoleTest \<Rightarrow> ''test'')"

definition parse_source_split_role :: "string \<Rightarrow> source_split_role result" where
  "parse_source_split_role value =
     (let v = lowercase (trim value) in
      if v = ''train'' then Inr RoleTrain
      else if v = ''validation'' then Inr RoleValidation
      else if v = ''test'' then Inr RoleTest
      else if v = ''unknown'' then Inr RoleUnknown
      else Inl (RuntimeError (''[source_split] unknown ROLE: '' @ v)))"

definition source_split_selector_kind_name :: "source_split_selector_kind \<Rightarrow> string" where
  "source_split_selector_kind_name kind = (case kind of
     AnchorIndexRange \<Rightarrow> ''anchor_index_range'' | FractionRange \<Rightarrow> ''fraction_range'')"

definition parse_source_split_selector_kind :: "string \<Rightarrow> source_split_selector_kind result" where
  "parse_source_split_selector_kind value =
     (let v = lowercase (trim value) in
      if v = ''anchor_index_range'' \<or> v = ''anchor_index'' then Inr AnchorIndexRange
      else if v = ''fraction_range'' \<or> v = ''fraction'' then Inr FractionRange
      else Inl (RuntimeError (''[source_split] unknown SELECTOR: '' @ v)))"

definition find_split :: "source_split_catalog \<Rightarrow> string \<Rightarrow> source_split option" where
  "find_split c sid = List.find (\<lambda>s. split_id s = sid) (splits c)"

section \<open>Numbers and fractions\<close>

definition parse_nonnegative_i64 :: "kv_block \<Rightarrow> string \<Rightarrow> int result" where
  "parse_nonnegative_i64 block key =
     rbind (kv_required block key) (\<lambda>raw. rbind (parse_i64 raw) (\<lambda>v.
       if v < 0 then Inl (RuntimeError (''[source_split] '' @ key @ '' must be non-negative''))
       else Inr v))"

definition parse_positive_i64 :: "kv_block \<Rightarrow> string \<Rightarrow> int \<Rightarrow> int result" where
  "parse_positive_i64 block key fallback =
     rbind (parse_i64 (trim (kv_optional block key (show_int fallback)))) (\<lambda>v.
       if v \<le> 0 then Inl (RuntimeError (''[source_split] '' @ key @ '' must be positive''))
       else Inr v)"

definition has_key :: "kv_block \<Rightarrow> string \<Rightarrow> bool" where
  "has_key block key \<longleftrightarrow> kv_values block key \<noteq> None"

definition parse_fraction :: "string \<Rightarrow> string \<Rightarrow> source_fraction result" where
  "parse_fraction raw key =
     (let raw' = trim raw;
          pre = takeWhile (\<lambda>c. c \<noteq> CHR ''/'') raw';
          post = dropWhile (\<lambda>c. c \<noteq> CHR ''/'') raw'
      in if post = [] \<or> CHR ''/'' \<in> set (tl post) then
           Inl (RuntimeError (''[source_split] '' @ key @ '' must be a rational fraction like 65/100''))
         else rbind (parse_i64 pre) (\<lambda>num. rbind (parse_i64 (tl post)) (\<lambda>den.
           if num < 0 then
             Inl (RuntimeError (''[source_split] '' @ key @ '' numerator must be non-negative''))
           else if den \<le> 0 then
             Inl (RuntimeError (''[source_split] '' @ key @ '' denominator must be positive''))
           else if num > den then
             Inl (RuntimeError (''[source_split] '' @ key @ '' must be less than or equal to 1''))
           else let divisor = gcd num den in
             Inr (if divisor > 1 then \<lparr>numerator = num div divisor, denominator = den div divisor\<rparr>
                  else \<lparr>numerator = num, denominator = den\<rparr>))))"

definition fraction_less :: "source_fraction \<Rightarrow> source_fraction \<Rightarrow> bool" where
  "fraction_less lhs rhs \<longleftrightarrow> numerator lhs * denominator rhs < numerator rhs * denominator lhs"

definition fraction_boundary_floor :: "source_fraction \<Rightarrow> int \<Rightarrow> int result" where
  "fraction_boundary_floor fraction n =
     (if n < 0 then
        Inl (RuntimeError ''[source_split] accepted anchor count must be non-negative'')
      else let product = n * numerator fraction;
               cut = product sdiv denominator fraction
        in if cut > int64_max then
             Inl (RuntimeError ''[source_split] materialized fraction boundary exceeds int64 range'')
           else Inr cut)"

definition fraction_text :: "source_fraction \<Rightarrow> string" where
  "fraction_text fraction = show_int (numerator fraction) @ ''/'' @ show_int (denominator fraction)"

definition hex_u64 :: "u64 \<Rightarrow> string" where
  "hex_u64 v = hex_fixed 16 (unat v)"

definition split_mix_byte :: "u64 \<Rightarrow> byte \<Rightarrow> u64" where
  "split_mix_byte hash b = (hash XOR ucast b) * 1099511628211"

definition split_mix_hash_string :: "u64 \<Rightarrow> string \<Rightarrow> u64" where
  "split_mix_hash_string hash v = foldl split_mix_byte hash (map chr_byte v)"

section \<open>Decoding a catalog\<close>

definition throw_split :: "string \<Rightarrow> 'a result" where
  "throw_split msg = Inl (RuntimeError (''[source_split] '' @ msg))"

definition decode_anchor_split :: "kv_block \<Rightarrow> bool \<Rightarrow> source_split \<Rightarrow> source_split result" where
  "decode_anchor_split block has_anchor_begin split =
     (if \<not> has_anchor_begin then
        throw_split (''anchor_index_range requires ANCHOR_INDEX_BEGIN and ANCHOR_INDEX_END for '' @ split_id split)
      else rbind (parse_nonnegative_i64 block ''ANCHOR_INDEX_BEGIN'') (\<lambda>b.
           rbind (parse_nonnegative_i64 block ''ANCHOR_INDEX_END'') (\<lambda>e.
        if e \<le> b then
          throw_split (''ANCHOR_INDEX_END must be greater than ANCHOR_INDEX_BEGIN for '' @ split_id split)
        else if e - b < min_count split then
          throw_split (''materialized split is smaller than MIN_COUNT for '' @ split_id split)
        else Inr (split\<lparr>anchor_range := \<lparr>sai_begin = b, sai_end = e\<rparr>\<rparr>))))"

definition decode_fraction_split :: "kv_block \<Rightarrow> bool \<Rightarrow> source_split \<Rightarrow> source_split result" where
  "decode_fraction_split block has_fraction_begin split =
     (if \<not> has_fraction_begin then
        throw_split (''fraction_range requires BEGIN_FRACTION and END_FRACTION for '' @ split_id split)
      else rbind (kv_required block ''BEGIN_FRACTION'') (\<lambda>rb.
           rbind (parse_fraction rb ''BEGIN_FRACTION'') (\<lambda>b.
           rbind (kv_required block ''END_FRACTION'') (\<lambda>re.
           rbind (parse_fraction re ''END_FRACTION'') (\<lambda>e.
        if \<not> fraction_less b e then
          throw_split (''END_FRACTION must be greater than BEGIN_FRACTION for '' @ split_id split)
        else Inr (split\<lparr>fraction_range := \<lparr>frac_begin = b, frac_end = e\<rparr>\<rparr>))))))"

definition decode_selector :: "kv_block \<Rightarrow> bool \<Rightarrow> source_split_selector_kind result" where
  "decode_selector block has_fraction_begin =
     (let selector_text = kv_optional block ''SELECTOR'' [] in
      if trim selector_text \<noteq> [] then parse_source_split_selector_kind selector_text
      else Inr (if has_fraction_begin then FractionRange else AnchorIndexRange))"

definition decode_split :: "kv_block \<Rightarrow> source_split result" where
  "decode_split block =
     rbind (kv_required block ''SPLIT_ID'') (\<lambda>sid.
     rbind (kv_required block ''ROLE'') (\<lambda>role_text.
     rbind (parse_source_split_role role_text) (\<lambda>role.
       let has_anchor_begin = has_key block ''ANCHOR_INDEX_BEGIN'';
           has_anchor_end = has_key block ''ANCHOR_INDEX_END'';
           has_fraction_begin = has_key block ''BEGIN_FRACTION'';
           has_fraction_end = has_key block ''END_FRACTION''
       in if has_anchor_begin \<noteq> has_anchor_end then
            throw_split (''ANCHOR_INDEX_BEGIN and ANCHOR_INDEX_END must be authored together for '' @ sid)
          else if has_fraction_begin \<noteq> has_fraction_end then
            throw_split (''BEGIN_FRACTION and END_FRACTION must be authored together for '' @ sid)
          else if has_anchor_begin \<and> has_fraction_begin then
            throw_split (''split cannot mix anchor indexes and fractions: '' @ sid)
          else rbind (decode_selector block has_fraction_begin) (\<lambda>kind.
               rbind (parse_positive_i64 block ''MIN_COUNT'' 1) (\<lambda>n.
            let split = default_split\<lparr>split_id := sid, split_role := role, selector_kind := kind, min_count := n\<rparr>
            in case kind of
                 AnchorIndexRange \<Rightarrow> decode_anchor_split block has_anchor_begin split
               | FractionRange \<Rightarrow> decode_fraction_split block has_fraction_begin split)))))"

text \<open>One pass of the decoder's loop: the catalog, \<open>saw_catalog\<close> and \<open>split_ids\<close> so far.\<close>

definition decode_catalog_block ::
  "kv_block \<Rightarrow> source_split_catalog \<times> bool \<times> string list \<Rightarrow> (source_split_catalog \<times> bool \<times> string list) result"
where
  "decode_catalog_block block = (\<lambda>(out, saw_catalog, split_ids).
     if kv_name block = ''UJCAMEI_SOURCE_SPLIT_CATALOG'' then
       if saw_catalog then throw_split ''only one UJCAMEI_SOURCE_SPLIT_CATALOG block is allowed''
       else rbind (kv_required block ''CATALOG_ID'') (\<lambda>cid.
         Inr (out\<lparr>catalog_id := cid,
                  cursor_domain := kv_optional block ''CURSOR_DOMAIN'' (cursor_domain out)\<rparr>,
              True, split_ids))
     else if kv_name block \<noteq> ''UJCAMEI_SOURCE_SPLIT'' then
       throw_split (''unexpected block: '' @ kv_name block)
     else rbind (decode_split block) (\<lambda>split.
       if split_id split \<in> set split_ids then throw_split (''duplicate SPLIT_ID: '' @ split_id split)
       else Inr (out\<lparr>splits := splits out @ [split]\<rparr>, saw_catalog, split_ids @ [split_id split])))"

definition decode_source_split_catalog_from_dsl :: "string \<Rightarrow> source_split_catalog result" where
  "decode_source_split_catalog_from_dsl dsl_text =
     rbind (parse_blocks dsl_text) (\<lambda>blocks.
     rbind (fold_res decode_catalog_block blocks (default_catalog, False, [])) (\<lambda>(out, saw_catalog, split_ids).
       if \<not> saw_catalog then throw_split ''UJCAMEI_SOURCE_SPLIT_CATALOG block is required''
       else if catalog_id out = [] then throw_split ''CATALOG_ID is required''
       else if cursor_domain out \<noteq> graph_anchor_domain then
         throw_split ''v1 only supports CURSOR_DOMAIN=ujcamei.graph_anchor''
       else if splits out = [] then
         throw_split ''at least one UJCAMEI_SOURCE_SPLIT block is required''
       else Inr out))"

section \<open>Materialisation\<close>

definition materialize_source_split_range :: "source_split \<Rightarrow> int \<Rightarrow> source_anchor_interval result" where
  "materialize_source_split_range split accepted_anchor_count =
     (if selector_kind split = AnchorIndexRange then
        if accepted_anchor_count > 0 \<and> sai_end (anchor_range split) > accepted_anchor_count then
          throw_split (''anchor_index_range exceeds accepted anchor domain for '' @ split_id split)
        else Inr (anchor_range split)
      else if accepted_anchor_count \<le> 0 then
        throw_split (''fraction_range requires a positive accepted anchor count for '' @ split_id split)
      else rbind (fraction_boundary_floor (frac_begin (fraction_range split)) accepted_anchor_count) (\<lambda>b.
           rbind (fraction_boundary_floor (frac_end (fraction_range split)) accepted_anchor_count) (\<lambda>e.
        if e \<le> b then
          throw_split (''fraction_range materialized to an empty split for '' @ split_id split)
        else if e - b < min_count split then
          throw_split (''materialized split is smaller than MIN_COUNT for '' @ split_id split)
        else Inr \<lparr>sai_begin = b, sai_end = e\<rparr>)))"

definition materialize_source_split :: "source_split \<Rightarrow> int \<Rightarrow> source_split result" where
  "materialize_source_split split accepted_anchor_count =
     rbind (materialize_source_split_range split accepted_anchor_count) (\<lambda>r.
       Inr (split\<lparr>anchor_range := r, selector_kind := AnchorIndexRange\<rparr>))"

definition materialize_source_split_catalog :: "source_split_catalog \<Rightarrow> int \<Rightarrow> source_split_catalog result" where
  "materialize_source_split_catalog catalog accepted_anchor_count =
     rbind (map_res (\<lambda>s. materialize_source_split s accepted_anchor_count) (splits catalog)) (\<lambda>ss.
       Inr (catalog\<lparr>splits := ss\<rparr>))"

section \<open>Canonical text and fingerprint\<close>

definition canonical_split_line :: "source_split \<Rightarrow> string" where
  "canonical_split_line split =
     ''split='' @ split_id split @ ''|'' @ source_split_role_name (split_role split) @
     (if selector_kind split = AnchorIndexRange then
        ''|'' @ show_int (sai_begin (anchor_range split)) @ ''|'' @ show_int (sai_end (anchor_range split))
      else ''|'' @ source_split_selector_kind_name (selector_kind split) @ ''|fraction='' @
        fraction_text (frac_begin (fraction_range split)) @ '':'' @
        fraction_text (frac_end (fraction_range split)) @ ''|min_count='' @ show_int (min_count split)) @
     [newline]"

definition canonical_source_split_catalog_text :: "source_split_catalog \<Rightarrow> string" where
  "canonical_source_split_catalog_text catalog =
     ''schema='' @ cat_schema catalog @ [newline] @
     ''catalog_id='' @ catalog_id catalog @ [newline] @
     ''cursor_domain='' @ cursor_domain catalog @ [newline] @
     concat (map canonical_split_line (sort_key split_id (splits catalog)))"

definition source_split_catalog_fingerprint :: "source_split_catalog \<Rightarrow> string" where
  "source_split_catalog_fingerprint catalog =
     hex_u64 (split_mix_hash_string
       (split_mix_hash_string 14695981039346656037 ''ujcamei.source.splits.v1'')
       (canonical_source_split_catalog_text catalog))"

section \<open>Well-formed catalogs\<close>

definition fraction_ok :: "source_fraction \<Rightarrow> bool" where
  "fraction_ok f \<longleftrightarrow> 0 \<le> numerator f \<and> numerator f \<le> denominator f \<and> 0 < denominator f \<and>
     coprime (numerator f) (denominator f) \<and> in_int64 (numerator f) \<and> in_int64 (denominator f)"

definition split_ok :: "source_split \<Rightarrow> bool" where
  "split_ok s \<longleftrightarrow> split_id s \<noteq> [] \<and> trim (split_id s) = split_id s \<and> 0 < min_count s \<and>
     (case selector_kind s of
        AnchorIndexRange \<Rightarrow> 0 \<le> sai_begin (anchor_range s) \<and>
          min_count s \<le> sai_length (anchor_range s) \<and> in_int64 (sai_end (anchor_range s))
      | FractionRange \<Rightarrow> fraction_ok (frac_begin (fraction_range s)) \<and>
          fraction_ok (frac_end (fraction_range s)) \<and>
          fraction_less (frac_begin (fraction_range s)) (frac_end (fraction_range s)))"

definition unique_split_ids :: "source_split_catalog \<Rightarrow> bool" where
  "unique_split_ids c \<longleftrightarrow> distinct (map split_id (splits c))"

definition catalog_ok :: "source_split_catalog \<Rightarrow> bool" where
  "catalog_ok c \<longleftrightarrow> catalog_id c \<noteq> [] \<and> cursor_domain c = graph_anchor_domain \<and> splits c \<noteq> [] \<and>
     unique_split_ids c \<and> list_all split_ok (splits c)"

interpretation catalog_lookup: keyed_lookup splits split_id find_split unique_split_ids
  by unfold_locales
    (auto simp: find_split_def unique_split_ids_def find_distinct_key dest: find_Some_D)

lemma kv_required_trimmed: "kv_required b k = Inr v \<Longrightarrow> v \<noteq> [] \<and> trim v = v"
  by (auto simp: kv_required_def Let_def split: option.splits if_splits)

lemma in_int64_div: "0 \<le> a \<Longrightarrow> 0 < d \<Longrightarrow> in_int64 a \<Longrightarrow> in_int64 (a div d)"
  by (auto simp: int64_defs pos_imp_zdiv_nonneg_iff intro: order_trans [OF _ zdiv_mono2 [of a 1 d], simplified]
      order_trans [of "a div d" a])
    (smt (verit) zdiv_mono2 pos_imp_zdiv_nonneg_iff div_by_1)+

lemma reduced_fraction_ok:
  assumes "0 \<le> a" "a \<le> b" "0 < b" "in_int64 a" "in_int64 b"
  shows "gcd a b > 1 \<Longrightarrow> fraction_ok \<lparr>numerator = a div gcd a b, denominator = b div gcd a b\<rparr>"
    and "gcd a b \<le> 1 \<Longrightarrow> fraction_ok \<lparr>numerator = a, denominator = b\<rparr>"
proof -
  have pos: "0 < gcd a b" using assms by (simp add: gcd_pos_int)
  have "coprime (a div gcd a b) (b div gcd a b)"
    using assms by (intro div_gcd_coprime) auto
  moreover have "0 < b div gcd a b"
    using assms pos by (simp add: pos_imp_zdiv_pos_iff zdvd_imp_le)
  moreover have "0 \<le> a div gcd a b" "a div gcd a b \<le> b div gcd a b"
    using assms pos by (auto simp: pos_imp_zdiv_nonneg_iff intro: zdiv_mono1)
  ultimately show "fraction_ok \<lparr>numerator = a div gcd a b, denominator = b div gcd a b\<rparr>"
    using assms pos in_int64_div [of a "gcd a b"] in_int64_div [of b "gcd a b"]
    by (auto simp: fraction_ok_def)
  show "fraction_ok \<lparr>numerator = a, denominator = b\<rparr>" if "gcd a b \<le> 1"
  proof -
    have "gcd a b = 1" using pos that by linarith
    then show ?thesis using assms by (simp add: fraction_ok_def coprime_iff_gcd_eq_1)
  qed
qed

lemma parse_fraction_ok: "parse_fraction raw key = Inr f \<Longrightarrow> fraction_ok f"
  unfolding parse_fraction_def Let_def
  by (clarsimp simp: res_simps not_le not_less split: if_splits)
    (auto intro: reduced_fraction_ok parse_i64_range)

lemma parse_nonnegative_i64_ok: "parse_nonnegative_i64 b k = Inr v \<Longrightarrow> 0 \<le> v \<and> in_int64 v"
  by (auto simp: parse_nonnegative_i64_def res_simps parse_i64_range split: if_splits)

lemma parse_positive_i64_ok: "parse_positive_i64 b k d = Inr v \<Longrightarrow> 0 < v"
  by (auto simp: parse_positive_i64_def res_simps split: if_splits)

lemma throw_split_simps [simp]: "throw_split m \<noteq> Inr x" "Inr x \<noteq> throw_split m"
  by (simp_all add: throw_split_def)

lemma decode_anchor_split_ok:
  assumes "decode_anchor_split b h s = Inr s'" "selector_kind s = AnchorIndexRange"
    "split_id s \<noteq> []" "trim (split_id s) = split_id s" "0 < min_count s"
  shows "split_ok s'"
  using assms
  by (auto simp: decode_anchor_split_def res_simps split_ok_def sai_length_def
      dest!: parse_nonnegative_i64_ok split: if_splits)

lemma decode_fraction_split_ok:
  assumes "decode_fraction_split b h s = Inr s'" "selector_kind s = FractionRange"
    "split_id s \<noteq> []" "trim (split_id s) = split_id s" "0 < min_count s"
  shows "split_ok s'"
  using assms
  by (auto simp: decode_fraction_split_def res_simps split_ok_def
      dest!: parse_fraction_ok split: if_splits)

lemma decode_split_InrE:
  assumes "decode_split b = Inr s"
  obtains kind h h' s0 where
    "(case kind of AnchorIndexRange \<Rightarrow> decode_anchor_split b h s0
       | FractionRange \<Rightarrow> decode_fraction_split b h' s0) = Inr s"
    "selector_kind s0 = kind" "split_id s0 \<noteq> []" "trim (split_id s0) = split_id s0" "0 < min_count s0"
proof -
  obtain sid role kind n where d: "sid \<noteq> []" "trim sid = sid" "0 < n"
    and c: "(case kind of
        AnchorIndexRange \<Rightarrow> decode_anchor_split b (has_key b ''ANCHOR_INDEX_BEGIN'')
          (default_split\<lparr>split_id := sid, split_role := role, selector_kind := kind, min_count := n\<rparr>)
      | FractionRange \<Rightarrow> decode_fraction_split b (has_key b ''BEGIN_FRACTION'')
          (default_split\<lparr>split_id := sid, split_role := role, selector_kind := kind, min_count := n\<rparr>)) = Inr s"
    using assms unfolding decode_split_def Let_def
    by (simp only: rbind_Inr_iff split: if_splits) (auto dest!: kv_required_trimmed parse_positive_i64_ok)
  show thesis by (rule that [OF c]) (simp_all add: d)
qed

lemma decode_split_ok: "decode_split b = Inr s \<Longrightarrow> split_ok s"
  by (erule decode_split_InrE)
    (auto intro: decode_anchor_split_ok decode_fraction_split_ok
      split: source_split_selector_kind.split_asm)

text \<open>The invariant of the decoder's loop.\<close>

definition decode_state_ok :: "source_split_catalog \<times> bool \<times> string list \<Rightarrow> bool" where
  "decode_state_ok = (\<lambda>(out, saw_catalog, split_ids).
     split_ids = map split_id (splits out) \<and> unique_split_ids out \<and> list_all split_ok (splits out))"

lemma decode_catalog_block_ok:
  "decode_state_ok st \<Longrightarrow> decode_catalog_block b st = Inr st' \<Longrightarrow> decode_state_ok st'"
  by (cases st)
    (auto simp: decode_state_ok_def decode_catalog_block_def unique_split_ids_def res_simps
      dest: decode_split_ok split: if_splits)

lemma decode_loop_ok:
  assumes "fold_res decode_catalog_block bs (default_catalog, False, []) = Inr st"
  shows "decode_state_ok st"
proof -
  have "decode_state_ok (default_catalog, False, [])"
    by (simp add: decode_state_ok_def unique_split_ids_def default_catalog_def)
  then show ?thesis
    using assms decode_catalog_block_ok by (intro fold_res_invariant [OF assms, of decode_state_ok])
qed

section \<open>Boundaries\<close>

lemma boundary_bounds:
  assumes "fraction_ok f" "0 \<le> n"
  shows "0 \<le> n * numerator f div denominator f" "n * numerator f div denominator f \<le> n"
proof -
  have f: "0 \<le> numerator f" "numerator f \<le> denominator f" "0 < denominator f"
    using assms by (auto simp: fraction_ok_def)
  show "0 \<le> n * numerator f div denominator f"
    using f assms by (simp add: pos_imp_zdiv_nonneg_iff)
  have "n * numerator f \<le> n * denominator f" using f assms by (intro mult_left_mono) auto
  then show "n * numerator f div denominator f \<le> n"
    using f by (metis zdiv_mono1 nonzero_mult_div_cancel_right less_irrefl)
qed

lemma fraction_boundary_floor_eq:
  assumes "fraction_ok f" "0 \<le> n" "n \<le> int64_max"
  shows "fraction_boundary_floor f n = Inr (n * numerator f div denominator f)"
proof -
  have "0 \<le> n * numerator f" "0 < denominator f"
    using assms by (auto simp: fraction_ok_def)
  then have "(n * numerator f) sdiv denominator f = n * numerator f div denominator f"
    by (cases "n * numerator f = 0") (auto simp: signed_divide_int_def sgn_if)
  with assms boundary_bounds [OF assms(1,2)] show ?thesis
    by (simp add: fraction_boundary_floor_def)
qed

lemma fraction_le_boundary:
  assumes "0 < denominator f" "0 < denominator g" "0 \<le> n"
    and "numerator f * denominator g \<le> numerator g * denominator f"
  shows "n * numerator f div denominator f \<le> n * numerator g div denominator g"
proof -
  have "n * numerator f div denominator f = (n * numerator f * denominator g) div (denominator f * denominator g)"
    using assms by (simp add: mult.commute [of _ "denominator g"])
  also have "\<dots> \<le> (n * numerator g * denominator f) div (denominator f * denominator g)"
    using assms by (intro zdiv_mono1) (auto simp: mult.assoc intro: mult_left_mono)
  also have "\<dots> = n * numerator g div denominator g"
    using assms by (simp add: mult.commute [of _ "denominator f"])
  finally show ?thesis .
qed

section \<open>Ranges\<close>

lemma materialize_fraction_eq:
  assumes "split_ok s" "selector_kind s = FractionRange" "0 < n" "n \<le> int64_max"
  shows "materialize_source_split_range s n =
    (let b = n * numerator (frac_begin (fraction_range s)) div denominator (frac_begin (fraction_range s));
         e = n * numerator (frac_end (fraction_range s)) div denominator (frac_end (fraction_range s))
     in if e \<le> b then throw_split (''fraction_range materialized to an empty split for '' @ split_id s)
        else if e - b < min_count s then
          throw_split (''materialized split is smaller than MIN_COUNT for '' @ split_id s)
        else Inr \<lparr>sai_begin = b, sai_end = e\<rparr>)"
  using assms
  by (simp add: materialize_source_split_range_def split_ok_def fraction_boundary_floor_eq Let_def)

lemma materialize_range_bounds:
  assumes "split_ok s" "0 < n" "n \<le> int64_max" "materialize_source_split_range s n = Inr r"
  shows "0 \<le> sai_begin r \<and> sai_begin r < sai_end r \<and> sai_end r \<le> n \<and> min_count s \<le> sai_length r"
proof (cases "selector_kind s")
  case AnchorIndexRange
  with assms show ?thesis
    by (auto simp: materialize_source_split_range_def split_ok_def sai_length_def split: if_splits)
next
  case FractionRange
  with assms(1) have "fraction_ok (frac_begin (fraction_range s))" "fraction_ok (frac_end (fraction_range s))"
    by (auto simp: split_ok_def)
  with FractionRange assms show ?thesis
    using boundary_bounds [of _ n]
    by (auto simp: materialize_fraction_eq Let_def sai_length_def split: if_splits)
qed

definition in_anchors :: "source_anchor_interval \<Rightarrow> int \<Rightarrow> bool" where
  "in_anchors r i \<longleftrightarrow> sai_begin r \<le> i \<and> i < sai_end r"

lemma materialize_split_ok:
  assumes "split_ok s" "0 < n" "n \<le> int64_max" "materialize_source_split s n = Inr t"
  shows "split_ok t \<and> selector_kind t = AnchorIndexRange \<and> sai_end (anchor_range t) \<le> n \<and>
    split_id t = split_id s \<and> split_role t = split_role s \<and> min_count t = min_count s"
proof -
  from assms(4) obtain r where r: "materialize_source_split_range s n = Inr r"
    and t: "t = s\<lparr>anchor_range := r, selector_kind := AnchorIndexRange\<rparr>"
    by (auto simp: materialize_source_split_def res_simps)
  from materialize_range_bounds [OF assms(1-3) r] assms(1) show ?thesis
    using assms(2,3) by (auto simp: t split_ok_def in_int64_def int64_min_def int64_max_def sai_length_def)
qed

lemma materialize_anchored:
  "selector_kind t = AnchorIndexRange \<Longrightarrow> sai_end (anchor_range t) \<le> m \<Longrightarrow>
    materialize_source_split t m = Inr t"
  by (cases t) (simp add: materialize_source_split_def materialize_source_split_range_def)

lemma materialize_all:
  assumes "list_all split_ok ss" "0 < n" "n \<le> int64_max"
    and "map_res (\<lambda>s. materialize_source_split s n) ss = Inr ts"
  shows "list_all (\<lambda>t. split_ok t \<and> selector_kind t = AnchorIndexRange \<and> sai_end (anchor_range t) \<le> n) ts \<and>
    map split_id ts = map split_id ss \<and> map split_role ts = map split_role ss"
  using assms(1,4)
proof (induction ss arbitrary: ts)
  case (Cons s ss)
  then obtain t us where ts: "ts = t # us" "materialize_source_split s n = Inr t"
    "map_res (\<lambda>s. materialize_source_split s n) ss = Inr us"
    by (auto simp del: map_res_Inr_iff simp: rbind_Inr_iff)
  with Cons materialize_split_ok [of s n t] assms(2,3) show ?case
    by auto
qed (simp add: map_res_Inr_iff)

lemma materialize_all_again:
  "list_all (\<lambda>t. selector_kind t = AnchorIndexRange \<and> sai_end (anchor_range t) \<le> m) ts \<Longrightarrow>
    map_res (\<lambda>s. materialize_source_split s m) ts = Inr ts"
  by (induction ts) (simp_all add: materialize_anchored del: map_res_Inr_iff)

lemma fraction_ranges_ordered:
  assumes "split_ok s" "split_ok t" "selector_kind s = FractionRange" "selector_kind t = FractionRange"
    and "\<not> fraction_less (frac_begin (fraction_range t)) (frac_end (fraction_range s))"
    and "0 < n" "n \<le> int64_max"
    and "materialize_source_split_range s n = Inr r" "materialize_source_split_range t n = Inr q"
  shows "sai_end r \<le> sai_begin q"
proof -
  let ?e = "frac_end (fraction_range s)" and ?b = "frac_begin (fraction_range t)"
  have d: "0 < denominator ?e" "0 < denominator ?b"
    using assms(1-4) by (auto simp: split_ok_def fraction_ok_def)
  have r: "sai_end r = n * numerator ?e div denominator ?e"
    using assms(1,3,6-8) by (auto simp: materialize_fraction_eq Let_def split: if_splits)
  have q: "sai_begin q = n * numerator ?b div denominator ?b"
    using assms(2,4,6,7,9) by (auto simp: materialize_fraction_eq Let_def split: if_splits)
  show ?thesis
    unfolding r q using d assms(5,6) by (intro fraction_le_boundary) (auto simp: fraction_less_def)
qed

section \<open>Fingerprints\<close>

interpretation split_mix: byte_mixer split_mix_byte
  by unfold_locales
    (simp_all add: split_mix_byte_def times_prime_inject [unfolded FNV_prime_def] xor_left_inject
      xor_right_inject ucast_byte_inject)

lemma hex_u64_inject: "hex_u64 a = hex_u64 b \<longleftrightarrow> a = b"
proof -
  have "unat x < 16 ^ 16" for x :: u64
    using unsigned_less [of x, where ?'a = nat] by simp
  then show ?thesis by (simp add: hex_u64_def hex_fixed_inject word_unat_eq_iff)
qed

section \<open>Properties\<close>

definition example_catalog_text :: string where
  "example_catalog_text =
    ''UJCAMEI_SOURCE_SPLIT_CATALOG{CATALOG_ID=c;}UJCAMEI_SOURCE_SPLIT{SPLIT_ID=a;ROLE=train;BEGIN_FRACTION=0/4;END_FRACTION=2/4;}UJCAMEI_SOURCE_SPLIT{SPLIT_ID=b;ROLE=test;ANCHOR_INDEX_BEGIN=7;ANCHOR_INDEX_END=9;}''"

definition example_split_a :: source_split where
  "example_split_a = default_split\<lparr>split_id := ''a'', split_role := RoleTrain, selector_kind := FractionRange,
     fraction_range := \<lparr>frac_begin = \<lparr>numerator = 0, denominator = 1\<rparr>,
       frac_end = \<lparr>numerator = 1, denominator = 2\<rparr>\<rparr>\<rparr>"

definition example_split_b :: source_split where
  "example_split_b = default_split\<lparr>split_id := ''b'', split_role := RoleTest,
     anchor_range := \<lparr>sai_begin = 7, sai_end = 9\<rparr>\<rparr>"

definition example_catalog :: source_split_catalog where
  "example_catalog = default_catalog\<lparr>catalog_id := ''c'', splits := [example_split_a, example_split_b]\<rparr>"

lemma example_catalog_decoded:
  "decode_source_split_catalog_from_dsl example_catalog_text = Inr example_catalog"
  by code_simp

lemma example_splits_ok: "split_ok example_split_a" "split_ok example_split_b"
  by code_simp+

text \<open>
  C10: a catalog the decoder accepts is well formed: it has an identifier, the supported cursor
  domain and at least one split; split identifiers are unique; every split has a positive
  minimum count and either an anchor range at least that long or two fractions in lowest terms,
  in increasing order, between 0 and 1.
\<close>

theorem decoded_catalog_well_formed:
  "decode_source_split_catalog_from_dsl dsl_text = Inr c \<Longrightarrow> catalog_ok c"
  by (auto simp: decode_source_split_catalog_from_dsl_def res_simps catalog_ok_def decode_state_ok_def
      dest!: decode_loop_ok split: if_splits)

theorem decoded_catalog_well_formed_witness: "catalog_ok example_catalog"
  by (rule decoded_catalog_well_formed [OF example_catalog_decoded])

text \<open>
  Looking a split up in a well-formed catalog finds exactly the split with that identifier.
\<close>

theorem find_split_correct:
  "catalog_ok c \<Longrightarrow> find_split c sid = Some s \<longleftrightarrow> s \<in> set (splits c) \<and> split_id s = sid"
  by (rule catalog_lookup.lookup_iff) (simp add: catalog_ok_def)

theorem find_split_correct_witness:
  "find_split example_catalog ''b'' = Some example_split_b"
proof -
  have "catalog_ok example_catalog" by code_simp
  then show ?thesis
    by (simp add: find_split_correct example_catalog_def example_split_b_def)
qed

text \<open>
  A boundary of a decoded fraction is its exact floor on the anchors, lies between zero and
  the number of anchors, and the 64-bit range error is never raised.
\<close>

theorem fraction_boundary_correct:
  assumes "parse_fraction raw key = Inr f" "0 \<le> n" "n \<le> int64_max"
  shows "\<exists>cut. fraction_boundary_floor f n = Inr cut \<and> 0 \<le> cut \<and> cut \<le> n \<and>
    cut * denominator f \<le> n * numerator f \<and> n * numerator f < (cut + 1) * denominator f"
proof -
  have f: "fraction_ok f" using assms(1) by (rule parse_fraction_ok)
  then have d: "0 < denominator f" by (simp add: fraction_ok_def)
  let ?cut = "n * numerator f div denominator f"
  have m: "n * numerator f = ?cut * denominator f + n * numerator f mod denominator f" by simp
  have "0 \<le> n * numerator f mod denominator f" "n * numerator f mod denominator f < denominator f"
    using d by simp_all
  then have "?cut * denominator f \<le> n * numerator f" "n * numerator f < (?cut + 1) * denominator f"
    using m by (simp_all only: distrib_right mult_1)
  then show ?thesis
    using fraction_boundary_floor_eq [OF f assms(2,3)] boundary_bounds [OF f assms(2)] by blast
qed

theorem fraction_boundary_correct_witness:
  "\<exists>cut. fraction_boundary_floor \<lparr>numerator = 13, denominator = 20\<rparr> 7 = Inr cut \<and> 0 \<le> cut \<and> cut \<le> 7 \<and>
    cut * 20 \<le> 7 * 13 \<and> 7 * 13 < (cut + 1) * 20"
proof -
  have "parse_fraction '' 65/100'' [] = Inr \<lparr>numerator = 13, denominator = 20\<rparr>" by code_simp
  from fraction_boundary_correct [OF this, of 7] show ?thesis by (simp add: int64_max_def)
qed

text \<open>
  A fraction in lowest terms is read back from its canonical text, whatever key it is
  reported under, and reading a fraction only ever produces such fractions.
\<close>

theorem parse_fraction_canonical:
  "parse_fraction (fraction_text f) key = Inr f \<longleftrightarrow> fraction_ok f"
proof
  show "fraction_ok f" if "parse_fraction (fraction_text f) key = Inr f"
    using that by (rule parse_fraction_ok)
next
  assume f: "fraction_ok f"
  have no: "CHR ''/'' \<notin> set (show_int i)" for i
    by (auto simp: show_int_def is_digit_def chr_code_def dest!: show_nat_digits split: if_splits)
  have "trim (fraction_text f) = fraction_text f"
    by (rule trim_no_space)
      (auto simp: fraction_text_def is_space_def chr_code_def dest: show_int_not_space)
  moreover have "takeWhile (\<lambda>c. c \<noteq> CHR ''/'') (fraction_text f) = show_int (numerator f)"
    and "dropWhile (\<lambda>c. c \<noteq> CHR ''/'') (fraction_text f) = CHR ''/'' # show_int (denominator f)"
    using no by (auto simp: fraction_text_def takeWhile_append dropWhile_append)
  moreover have "gcd (numerator f) (denominator f) = 1"
    using f by (simp add: fraction_ok_def coprime_iff_gcd_eq_1)
  moreover have "CHR ''/'' \<in> set (fraction_text f)" by (simp add: fraction_text_def)
  ultimately show "parse_fraction (fraction_text f) key = Inr f"
    using f no by (simp add: parse_fraction_def fraction_ok_def Let_def)
qed

text \<open>
  C13: materialising a decoded split on \<open>n\<close> anchors either fails or yields a non-empty range of
  existing anchors no shorter than the split's minimum count.
\<close>

theorem materialized_range_safe:
  assumes "decode_source_split_catalog_from_dsl dsl_text = Inr c" "find_split c sid = Some s"
    and "0 < n" "n \<le> int64_max" "materialize_source_split_range s n = Inr r"
  shows "0 \<le> sai_begin r \<and> sai_begin r < sai_end r \<and> sai_end r \<le> n \<and> min_count s \<le> sai_length r"
proof -
  have "split_ok s"
    using decode_loop_ok assms(1,2) catalog_lookup.lookup_sound [of c sid s]
    by (fastforce simp: decode_source_split_catalog_from_dsl_def res_simps decode_state_ok_def
        list_all_iff split: if_splits)
  then show ?thesis using assms(3-5) by (rule materialize_range_bounds)
qed

theorem materialized_range_safe_witness:
  "0 \<le> (0::int) \<and> 0 < (4::int) \<and> 4 \<le> (9::int) \<and> min_count example_split_a \<le> sai_length \<lparr>sai_begin = 0, sai_end = 4\<rparr>"
proof -
  have f: "find_split example_catalog ''a'' = Some example_split_a" by code_simp
  have m: "materialize_source_split_range example_split_a 9 = Inr \<lparr>sai_begin = 0, sai_end = 4\<rparr>"
    by code_simp
  show ?thesis
    using materialized_range_safe [OF example_catalog_decoded f _ _ m] by (simp add: int64_max_def)
qed

text \<open>
  C2: fraction splits do not leak into each other: when one begins no earlier than the other
  ends, their materialised ranges share no anchor, and when it begins exactly there the second
  range starts at the very anchor where the first one ends.
\<close>

theorem fraction_splits_disjoint:
  assumes "split_ok s" "split_ok t" "selector_kind s = FractionRange" "selector_kind t = FractionRange"
    and "\<not> fraction_less (frac_begin (fraction_range t)) (frac_end (fraction_range s))"
    and "0 < n" "n \<le> int64_max"
    and "materialize_source_split_range s n = Inr r" "materialize_source_split_range t n = Inr q"
  shows "sai_end r \<le> sai_begin q \<and> \<not> (in_anchors r i \<and> in_anchors q i) \<and>
    (frac_begin (fraction_range t) = frac_end (fraction_range s) \<longrightarrow> sai_begin q = sai_end r)"
proof -
  have "sai_end r \<le> sai_begin q" by (rule fraction_ranges_ordered [OF assms])
  moreover have "frac_begin (fraction_range t) = frac_end (fraction_range s) \<longrightarrow> sai_begin q = sai_end r"
    using assms by (auto simp: materialize_fraction_eq Let_def split: if_splits)
  ultimately show ?thesis by (auto simp: in_anchors_def)
qed

theorem fraction_splits_disjoint_witness:
  "(4::int) \<le> 4 \<and> \<not> (in_anchors \<lparr>sai_begin = 0, sai_end = 4\<rparr> 4 \<and> in_anchors \<lparr>sai_begin = 4, sai_end = 9\<rparr> 4)"
proof -
  let ?t = "example_split_a\<lparr>fraction_range := \<lparr>frac_begin = \<lparr>numerator = 1, denominator = 2\<rparr>,
    frac_end = \<lparr>numerator = 1, denominator = 1\<rparr>\<rparr>\<rparr>"
  have t: "split_ok ?t" "selector_kind ?t = FractionRange" "selector_kind example_split_a = FractionRange"
    "\<not> fraction_less (frac_begin (fraction_range ?t)) (frac_end (fraction_range example_split_a))"
    by code_simp+
  have n: "0 < (9::int)" "9 \<le> int64_max" by (simp_all add: int64_max_def)
  have m: "materialize_source_split_range example_split_a 9 = Inr \<lparr>sai_begin = 0, sai_end = 4\<rparr>"
    "materialize_source_split_range ?t 9 = Inr \<lparr>sai_begin = 4, sai_end = 9\<rparr>"
    by code_simp+
  show ?thesis
    using fraction_splits_disjoint [OF example_splits_ok(1) t(1,3,2,4) n m, of 4] by simp
qed

text \<open>
  Materialising a well-formed catalog keeps its splits, in order, with their identifiers and
  roles, all inside the anchors, gives a well-formed catalog again, and materialising that one
  for the same or a larger number of anchors changes nothing.
\<close>

theorem materialize_catalog_idempotent:
  assumes "catalog_ok c" "0 < n" "n \<le> int64_max" "materialize_source_split_catalog c n = Inr c'"
    and "n \<le> m"
  shows "catalog_ok c' \<and> map split_id (splits c') = map split_id (splits c) \<and>
    map split_role (splits c') = map split_role (splits c) \<and>
    materialize_source_split_catalog c' m = Inr c'"
proof -
  obtain ts where ts: "map_res (\<lambda>s. materialize_source_split s n) (splits c) = Inr ts"
    and c': "c' = c\<lparr>splits := ts\<rparr>"
    using assms(4) by (auto simp: materialize_source_split_catalog_def rbind_Inr_iff)
  have ok: "list_all split_ok (splits c)" using assms(1) by (simp add: catalog_ok_def)
  note all = materialize_all [OF ok assms(2,3) ts]
  then have "list_all (\<lambda>t. selector_kind t = AnchorIndexRange \<and> sai_end (anchor_range t) \<le> m) ts"
    using assms(5) by (auto simp: list_all_iff)
  then have "materialize_source_split_catalog c' m = Inr c'"
    using materialize_all_again [of m ts] by (simp add: materialize_source_split_catalog_def c')
  moreover have "catalog_ok c'"
    using all assms(1) by (auto simp: c' catalog_ok_def unique_split_ids_def list_all_iff)
  ultimately show ?thesis using all by (simp add: c')
qed

theorem materialize_catalog_idempotent_witness:
  "\<exists>c'. materialize_source_split_catalog example_catalog 9 = Inr c' \<and> catalog_ok c' \<and>
    materialize_source_split_catalog c' 12 = Inr c'"
proof -
  let ?c = "example_catalog\<lparr>splits := [example_split_a\<lparr>selector_kind := AnchorIndexRange,
    anchor_range := \<lparr>sai_begin = 0, sai_end = 4\<rparr>\<rparr>, example_split_b]\<rparr>"
  have c: "catalog_ok example_catalog" by code_simp
  have m: "materialize_source_split_catalog example_catalog 9 = Inr ?c" by code_simp
  have n: "0 < (9::int)" "9 \<le> int64_max" by (simp_all add: int64_max_def)
  show ?thesis using materialize_catalog_idempotent [OF c n m, of 12] m by auto
qed

text \<open>
  The canonical text and the fingerprint of a catalog do not depend on the order in which
  its splits were authored.
\<close>

theorem catalog_fingerprint_order_independent:
  assumes "unique_split_ids c" "mset (splits d) = mset (splits c)"
    and "cat_schema d = cat_schema c" "catalog_id d = catalog_id c" "cursor_domain d = cursor_domain c"
  shows "canonical_source_split_catalog_text d = canonical_source_split_catalog_text c \<and>
    source_split_catalog_fingerprint d = source_split_catalog_fingerprint c"
proof -
  have "inj_on split_id (set (splits d))"
    using assms(1,2) by (metis unique_split_ids_def distinct_map mset_eq_setD)
  then have "sort_key split_id (splits d) = sort_key split_id (splits c)"
    using assms(2) by (intro sort_key_inj_key_eq) simp_all
  then show ?thesis
    using assms(3-5)
    by (simp add: canonical_source_split_catalog_text_def source_split_catalog_fingerprint_def)
qed

theorem catalog_fingerprint_order_independent_witness:
  "source_split_catalog_fingerprint (example_catalog\<lparr>splits := [example_split_b, example_split_a]\<rparr>) =
    source_split_catalog_fingerprint example_catalog"
proof -
  have u: "unique_split_ids example_catalog" by code_simp
  show ?thesis
    using catalog_fingerprint_order_independent
      [OF u, of "example_catalog\<lparr>splits := [example_split_b, example_split_a]\<rparr>"]
    by (simp add: example_catalog_def)
qed

text \<open>
  Two catalogs whose canonical texts differ in exactly one character always have different
  fingerprints.
\<close>

theorem catalog_fingerprint_detects_change:
  assumes "canonical_source_split_catalog_text c = pre @ x # post"
    and "canonical_source_split_catalog_text d = pre @ y # post"
  shows "source_split_catalog_fingerprint c = source_split_catalog_fingerprint d \<longleftrightarrow> x = y"
  by (simp add: source_split_catalog_fingerprint_def hex_u64_inject split_mix_hash_string_def assms
      split_mix.fold_one_byte chr_byte_inject del: foldl_append foldl_Cons)

theorem catalog_fingerprint_detects_change_witness:
  "source_split_catalog_fingerprint (default_catalog\<lparr>catalog_id := ''a''\<rparr>) \<noteq>
    source_split_catalog_fingerprint (default_catalog\<lparr>catalog_id := ''b''\<rparr>)"
proof -
  define pre where "pre = ''schema=ujcamei.source.splits.v1'' @ newline # ''catalog_id=''"
  define post where "post = newline # ''cursor_domain=ujcamei.graph_anchor'' @ [newline]"
  have c: "canonical_source_split_catalog_text (default_catalog\<lparr>catalog_id := [x]\<rparr>) = pre @ x # post" for x
    by (simp add: canonical_source_split_catalog_text_def default_catalog_def graph_anchor_domain_def
        pre_def post_def)
  show ?thesis by (subst catalog_fingerprint_detects_change [OF c c]) simp
qed

end
