(* ===== verification/Wikimyei_Assembly.thy ===== *)
theory Wikimyei_Assembly
  imports Fnv
begin

unbundle bit_operations_syntax

text \<open>
  \<open>src/include/wikimyei/assembly.h\<close>: the docks by which the components of the system state what
  they consume and produce, the assemblies they make up, their validation and their
  fingerprints. The sets the validators fill to detect duplicates are the \<open>seen\<close> argument of
  \<open>unique_loop\<close>.
\<close>

section \<open>Docks\<close>

datatype dock_direction = Consumes | Produces

datatype dock_role = Conditioning | SupervisedTarget | Output | DiagnosticSidecar

datatype dock_domain =
    GraphEdgeKlineEvidence | FutureGraphEdgeKlineEvidence | NodeLiftedState
  | FutureNodeLiftedState | NodeRepresentation | FutureNodeDistribution
  | NodeliftPotentialBelief | AllocationBelief | AllocationTarget | BeliefDiagnostics
  | PortfolioDiagnostics | PriceResidualSidecar | ActivitySidecar

record dock =
  dock_name :: string
  dock_direction_of :: dock_direction
  dock_role_of :: dock_role
  dock_domain_of :: dock_domain
  coordinate_space :: string
  value_shape :: string
  mask_shape :: string
  dock_variables :: "string list"
  dock_required :: bool
  target_side_only :: bool

definition dock_direction_name :: "dock_direction \<Rightarrow> string" where
  "dock_direction_name d = (case d of Consumes \<Rightarrow> ''consumes'' | Produces \<Rightarrow> ''produces'')"

definition dock_role_name :: "dock_role \<Rightarrow> string" where
  "dock_role_name r = (case r of Conditioning \<Rightarrow> ''conditioning''
     | SupervisedTarget \<Rightarrow> ''supervised_target'' | Output \<Rightarrow> ''output''
     | DiagnosticSidecar \<Rightarrow> ''diagnostic_sidecar'')"

definition dock_domain_name :: "dock_domain \<Rightarrow> string" where
  "dock_domain_name d = (case d of
     GraphEdgeKlineEvidence \<Rightarrow> ''graph_edge_kline_evidence''
   | FutureGraphEdgeKlineEvidence \<Rightarrow> ''future_graph_edge_kline_evidence''
   | NodeLiftedState \<Rightarrow> ''node_lifted_state''
   | FutureNodeLiftedState \<Rightarrow> ''future_node_lifted_state''
   | NodeRepresentation \<Rightarrow> ''node_representation''
   | FutureNodeDistribution \<Rightarrow> ''future_node_distribution''
   | NodeliftPotentialBelief \<Rightarrow> ''nodelift_potential_belief''
   | AllocationBelief \<Rightarrow> ''allocation_belief''
   | AllocationTarget \<Rightarrow> ''allocation_target''
   | BeliefDiagnostics \<Rightarrow> ''belief_diagnostics''
   | PortfolioDiagnostics \<Rightarrow> ''portfolio_diagnostics''
   | PriceResidualSidecar \<Rightarrow> ''price_residual_sidecar''
   | ActivitySidecar \<Rightarrow> ''activity_sidecar'')"

definition throw_assembly :: "string \<Rightarrow> 'a result" where
  "throw_assembly msg = Inl (RuntimeError (''[wikimyei_assembly] '' @ msg))"

definition validate_dock :: "dock \<Rightarrow> unit result" where
  "validate_dock d =
     (if dock_name d = [] then throw_assembly ''dock name is required''
      else if coordinate_space d = [] then
        throw_assembly (''dock coordinate_space is required for dock: '' @ dock_name d)
      else if value_shape d = [] then
        throw_assembly (''dock value_shape is required for dock: '' @ dock_name d)
      else unique_loop
        (\<lambda>v. if v = [] then throw_assembly (''dock variable is empty for dock: '' @ dock_name d) else Inr ())
        (\<lambda>v. v)
        (\<lambda>v. RuntimeError (''[wikimyei_assembly] duplicate dock variable '' @
               [CHR 0x27] @ v @ [CHR 0x27] @ '' for dock: '' @ dock_name d))
        (\<lambda>_. Inr ()) {} (dock_variables d))"

definition dock_domain_compatible :: "dock \<Rightarrow> dock \<Rightarrow> bool" where
  "dock_domain_compatible producer consumer \<longleftrightarrow>
     dock_direction_of producer = Produces \<and> dock_direction_of consumer = Consumes \<and>
     dock_domain_of producer = dock_domain_of consumer \<and>
     coordinate_space producer = coordinate_space consumer"

definition make_dock ::
  "string \<Rightarrow> dock_direction \<Rightarrow> dock_role \<Rightarrow> dock_domain \<Rightarrow> string \<Rightarrow> string \<Rightarrow> string \<Rightarrow> bool \<Rightarrow> bool \<Rightarrow>
   string list \<Rightarrow> dock result"
where
  "make_dock name direction role domain space shape mshape req target_side vars =
     (let out = \<lparr>dock_name = name, dock_direction_of = direction, dock_role_of = role,
        dock_domain_of = domain, coordinate_space = space, value_shape = shape, mask_shape = mshape,
        dock_variables = vars, dock_required = req, target_side_only = target_side\<rparr>
      in rbind (validate_dock out) (\<lambda>_. Inr out))"

section \<open>Assemblies\<close>

datatype assembly_trainability = Deterministic | Trainable

record wikimyei_assembly =
  family :: string
  component_assembly_id :: string
  version_token :: string
  trainability :: assembly_trainability
  docks :: "dock list"
  assembly_constraints :: "string list"

definition assembly_trainability_name :: "assembly_trainability \<Rightarrow> string" where
  "assembly_trainability_name t = (case t of Deterministic \<Rightarrow> ''deterministic'' | Trainable \<Rightarrow> ''trainable'')"

definition make_assembly_token :: "string \<Rightarrow> string \<Rightarrow> string \<Rightarrow> string result" where
  "make_assembly_token fam cid version =
     (if fam = [] \<or> cid = [] \<or> version = [] then
        throw_assembly ''family, component_assembly_id, and version_token are required''
      else Inr (fam @ ''/'' @ cid @ ''/'' @ version))"

definition validate_wikimyei_assembly :: "wikimyei_assembly \<Rightarrow> unit result" where
  "validate_wikimyei_assembly a =
     rbind (make_assembly_token (family a) (component_assembly_id a) (version_token a)) (\<lambda>_.
       if docks a = [] then throw_assembly (''assembly has no docks: '' @ component_assembly_id a)
       else unique_loop validate_dock dock_name
         (\<lambda>d. RuntimeError (''[wikimyei_assembly] duplicate dock name: '' @ dock_name d))
         (\<lambda>_. Inr ()) {} (docks a))"

definition find_dock :: "wikimyei_assembly \<Rightarrow> dock_direction \<Rightarrow> dock_domain \<Rightarrow> dock option" where
  "find_dock a direction domain =
     List.find (\<lambda>d. dock_direction_of d = direction \<and> dock_domain_of d = domain) (docks a)"

definition require_dock :: "wikimyei_assembly \<Rightarrow> dock_direction \<Rightarrow> dock_domain \<Rightarrow> string \<Rightarrow> unit result" where
  "require_dock a direction domain label =
     (if find_dock a direction domain = None then
        throw_assembly (''missing '' @ label @ '' dock for '' @ component_assembly_id a)
      else Inr ())"

definition require_compatible_docks ::
  "wikimyei_assembly \<Rightarrow> dock_domain \<Rightarrow> wikimyei_assembly \<Rightarrow> dock_domain \<Rightarrow> string \<Rightarrow> unit result"
where
  "require_compatible_docks producer produced_domain consumer consumed_domain label =
     (let err = throw_assembly (''incompatible '' @ label @ '' docks: '' @ component_assembly_id producer @
            '' -> '' @ component_assembly_id consumer)
      in case (find_dock producer Produces produced_domain, find_dock consumer Consumes consumed_domain) of
           (Some produced, Some consumed) \<Rightarrow>
             if dock_domain_compatible produced consumed then Inr () else err
         | _ \<Rightarrow> err)"

section \<open>Canonical text and fingerprint\<close>

definition mix_hash_byte :: "u64 \<Rightarrow> byte \<Rightarrow> u64" where
  "mix_hash_byte hash b = (hash XOR ucast b) * 1099511628211"

definition mix_hash_string :: "u64 \<Rightarrow> string \<Rightarrow> u64" where
  "mix_hash_string hash s = mix_hash_byte (foldl mix_hash_byte hash (map chr_byte s)) 0xff"

definition hash_hex :: "u64 \<Rightarrow> string" where
  "hash_hex hash = hex_fixed 16 (unat hash)"

definition dock_line :: "dock \<Rightarrow> string" where
  "dock_line d = ''dock='' @ dock_name d @ CHR ''|'' # dock_direction_name (dock_direction_of d) @ CHR ''|'' #
     dock_role_name (dock_role_of d) @ CHR ''|'' # dock_domain_name (dock_domain_of d) @ CHR ''|'' #
     coordinate_space d @ CHR ''|'' # value_shape d @ CHR ''|'' # mask_shape d @ CHR ''|'' #
     (if dock_required d then ''required'' else ''optional'') @ CHR ''|'' #
     (if target_side_only d then ''target_side'' else ''same_anchor'')"

definition dock_text :: "dock \<Rightarrow> string" where
  "dock_text d = dock_line d @ newline #
     concat (map (\<lambda>v. ''dock_variable='' @ dock_name d @ CHR ''|'' # v @ [newline]) (dock_variables d))"

definition canonical_assembly_text :: "wikimyei_assembly \<Rightarrow> string" where
  "canonical_assembly_text a =
     ''family='' @ family a @ newline #
     ''component_assembly_id='' @ component_assembly_id a @ newline #
     ''version_token='' @ version_token a @ newline #
     ''trainability='' @ assembly_trainability_name (trainability a) @ newline #
     concat (map dock_text (docks a)) @
     concat (map (\<lambda>c. ''constraint='' @ c @ [newline]) (assembly_constraints a))"

definition assembly_fingerprint :: "wikimyei_assembly \<Rightarrow> string" where
  "assembly_fingerprint a =
     hash_hex (mix_hash_string (mix_hash_string 14695981039346656037 ''cuwacunu.wikimyei.assembly.v1'')
       (canonical_assembly_text a))"

section \<open>Validation\<close>

definition dock_ok :: "dock \<Rightarrow> bool" where
  "dock_ok d \<longleftrightarrow> dock_name d \<noteq> [] \<and> coordinate_space d \<noteq> [] \<and> value_shape d \<noteq> [] \<and>
     [] \<notin> set (dock_variables d) \<and> distinct (dock_variables d)"

definition assembly_ok :: "wikimyei_assembly \<Rightarrow> bool" where
  "assembly_ok a \<longleftrightarrow> family a \<noteq> [] \<and> component_assembly_id a \<noteq> [] \<and> version_token a \<noteq> [] \<and>
     docks a \<noteq> [] \<and> list_all dock_ok (docks a) \<and> distinct (map dock_name (docks a))"

lemma throw_assembly_simps [simp]: "throw_assembly m \<noteq> Inr x" "Inr x \<noteq> throw_assembly m"
  by (simp_all add: throw_assembly_def)

lemma validate_dock_iff: "validate_dock d = Inr u \<longleftrightarrow> dock_ok d"
proof -
  have "(\<forall>v \<in> set vs. v \<noteq> []) \<longleftrightarrow> [] \<notin> set vs" for vs :: "string list" by blast
  then show ?thesis by (simp add: validate_dock_def dock_ok_def unique_loop_iff)
qed

lemma make_dock_iff:
  "make_dock n dir r dmn sp sh ms req ts vs = Inr d \<longleftrightarrow> dock_ok d \<and> d = \<lparr>dock_name = n,
     dock_direction_of = dir, dock_role_of = r, dock_domain_of = dmn, coordinate_space = sp,
     value_shape = sh, mask_shape = ms, dock_variables = vs, dock_required = req, target_side_only = ts\<rparr>"
  by (auto simp: make_dock_def res_simps validate_dock_iff Let_def)

lemma validate_assembly_iff: "validate_wikimyei_assembly a = Inr u \<longleftrightarrow> assembly_ok a"
  by (auto simp: validate_wikimyei_assembly_def make_assembly_token_def assembly_ok_def unique_loop_iff
      validate_dock_iff res_simps list_all_iff split: if_splits)

lemma find_dock_Some:
  "find_dock a dir dmn = Some d \<Longrightarrow> d \<in> set (docks a) \<and> dock_direction_of d = dir \<and> dock_domain_of d = dmn"
  unfolding find_dock_def by (drule find_Some_D) simp

definition docks_linked :: "wikimyei_assembly \<Rightarrow> dock_domain \<Rightarrow> wikimyei_assembly \<Rightarrow> dock_domain \<Rightarrow> bool" where
  "docks_linked producer d consumer e \<longleftrightarrow> (\<exists>p c. find_dock producer Produces d = Some p \<and>
     find_dock consumer Consumes e = Some c \<and> d = e \<and> coordinate_space p = coordinate_space c)"

lemma require_compatible_iff:
  "require_compatible_docks producer d consumer e label = Inr u \<longleftrightarrow> docks_linked producer d consumer e"
  by (auto simp: require_compatible_docks_def docks_linked_def dock_domain_compatible_def Let_def
      dest: find_dock_Some split: option.splits)

lemma require_dock_iff: "require_dock a dir dmn label = Inr u \<longleftrightarrow> find_dock a dir dmn \<noteq> None"
  by (simp add: require_dock_def)

section \<open>The hash\<close>

interpretation assembly_mix: byte_mixer mix_hash_byte
  by unfold_locales
    (simp_all add: mix_hash_byte_def times_prime_inject [unfolded FNV_prime_def] xor_left_inject
      xor_right_inject ucast_byte_inject)

lemma hash_hex_inject: "hash_hex a = hash_hex b \<longleftrightarrow> a = b"
proof -
  have "unat x < 16 ^ 16" for x :: u64
    using unsigned_less [of x, where ?'a = nat] by simp
  then show ?thesis by (simp add: hash_hex_def hex_fixed_inject word_unat_eq_iff)
qed

lemma mix_hash_string_bytes: "mix_hash_string h s = foldl mix_hash_byte h (map chr_byte s @ [0xff])"
  by (simp add: mix_hash_string_def)

lemma mix_hash_string_one_char:
  "mix_hash_string h (pre @ x # post) = mix_hash_string h (pre @ y # post) \<longleftrightarrow> x = y"
  using assembly_mix.fold_one_byte [of h "map chr_byte pre" "chr_byte x" "map chr_byte post @ [0xff]" "chr_byte y"]
  by (simp add: mix_hash_string_bytes chr_byte_inject del: foldl_append foldl_Cons)

section \<open>The canonical text determines the assembly\<close>

definition field_ok :: "string \<Rightarrow> bool" where
  "field_ok s \<longleftrightarrow> newline \<notin> set s \<and> CHR ''|'' \<notin> set s"

definition dock_text_ok :: "dock \<Rightarrow> bool" where
  "dock_text_ok d \<longleftrightarrow> field_ok (dock_name d) \<and> field_ok (coordinate_space d) \<and> field_ok (value_shape d) \<and>
     field_ok (mask_shape d) \<and> list_all field_ok (dock_variables d)"

definition assembly_text_ok :: "wikimyei_assembly \<Rightarrow> bool" where
  "assembly_text_ok a \<longleftrightarrow> field_ok (family a) \<and> field_ok (component_assembly_id a) \<and>
     field_ok (version_token a) \<and> list_all dock_text_ok (docks a) \<and>
     list_all (\<lambda>c. newline \<notin> set c) (assembly_constraints a)"

lemma name_fields:
  "field_ok (dock_direction_name dir)" "field_ok (dock_role_name r)" "field_ok (dock_domain_name dmn)"
  "field_ok (assembly_trainability_name t)"
  by ((cases dir; simp add: dock_direction_name_def field_ok_def),
      (cases r; simp add: dock_role_name_def field_ok_def),
      (cases dmn; simp add: dock_domain_name_def field_ok_def),
      (cases t; simp add: assembly_trainability_name_def field_ok_def))

lemma name_injects:
  "dock_direction_name dir = dock_direction_name dir' \<longleftrightarrow> dir = dir'"
  "dock_role_name r = dock_role_name r' \<longleftrightarrow> r = r'"
  "dock_domain_name dmn = dock_domain_name dmn' \<longleftrightarrow> dmn = dmn'"
  "assembly_trainability_name t = assembly_trainability_name t' \<longleftrightarrow> t = t'"
  by ((cases dir; cases dir'; simp add: dock_direction_name_def),
      (cases r; cases r'; simp add: dock_role_name_def),
      (cases dmn; cases dmn'; simp add: dock_domain_name_def),
      (cases t; cases t'; simp add: assembly_trainability_name_def))

lemma field_newline: "field_ok a \<Longrightarrow> field_ok b \<Longrightarrow> a @ newline # r = b @ newline # s \<longleftrightarrow> a = b \<and> r = s"
  by (rule sep_inject) (simp_all add: field_ok_def)

lemma field_bar: "field_ok a \<Longrightarrow> field_ok b \<Longrightarrow> a @ CHR ''|'' # r = b @ CHR ''|'' # s \<longleftrightarrow> a = b \<and> r = s"
  by (rule sep_inject) (simp_all add: field_ok_def)

text \<open>What may follow the lines of a dock.\<close>

definition block_start :: "string \<Rightarrow> bool" where
  "block_start r \<longleftrightarrow> r = [] \<or> (\<exists>t. r = ''dock='' @ t) \<or> (\<exists>t. r = ''constraint='' @ t)"

lemma variables_inject:
  assumes "block_start r" "block_start s" "field_ok n" "list_all field_ok vs" "list_all field_ok ws"
    and "concat (map (\<lambda>v. ''dock_variable='' @ n @ CHR ''|'' # v @ [newline]) vs) @ r =
      concat (map (\<lambda>v. ''dock_variable='' @ n @ CHR ''|'' # v @ [newline]) ws) @ s"
  shows "vs = ws \<and> r = s"
  using assms(4-6)
proof (induction vs arbitrary: ws)
  case Nil
  then show ?case using assms(1) by (cases ws) (auto simp: block_start_def)
next
  case (Cons v vs)
  show ?case
  proof (cases ws)
    case Nil
    with Cons.prems assms(2) show ?thesis by (auto simp: block_start_def)
  next
    case (Cons w ws')
    with Cons.prems have "field_ok v" "field_ok w" by simp_all
    with Cons Cons.prems Cons.IH [of ws'] show ?thesis
      by (simp add: field_bar assms(3) field_newline)
  qed
qed

lemma flag_texts:
  "((if b then ''required'' else ''optional'') @ CHR ''|'' # r =
     (if c then ''required'' else ''optional'') @ CHR ''|'' # s) \<longleftrightarrow> b = c \<and> r = s"
  "((if b then ''target_side'' else ''same_anchor'') @ newline # r =
     (if c then ''target_side'' else ''same_anchor'') @ newline # s) \<longleftrightarrow> b = c \<and> r = s"
  by auto

lemma dock_text_inject:
  assumes "dock_text_ok d" "dock_text_ok e" "block_start r" "block_start s"
    and "dock_text d @ r = dock_text e @ s"
  shows "d = e \<and> r = s"
proof -
  have f: "field_ok (dock_name d)" "field_ok (dock_name e)" "field_ok (coordinate_space d)"
    "field_ok (coordinate_space e)" "field_ok (value_shape d)" "field_ok (value_shape e)"
    "field_ok (mask_shape d)" "field_ok (mask_shape e)"
    "list_all field_ok (dock_variables d)" "list_all field_ok (dock_variables e)"
    using assms(1,2) by (simp_all add: dock_text_ok_def)
  have line: "dock_line d @ newline # x = dock_line e @ newline # y \<Longrightarrow>
      dock_name d = dock_name e \<and> dock_direction_of d = dock_direction_of e \<and>
      dock_role_of d = dock_role_of e \<and> dock_domain_of d = dock_domain_of e \<and>
      coordinate_space d = coordinate_space e \<and> value_shape d = value_shape e \<and>
      mask_shape d = mask_shape e \<and> dock_required d = dock_required e \<and>
      target_side_only d = target_side_only e \<and> x = y" for x y
    using f name_fields
    by (simp only: dock_line_def append_assoc append_Cons append_Nil list.inject
        simp_thms field_bar name_injects flag_texts)
  have "dock_line d @ newline #
      (concat (map (\<lambda>v. ''dock_variable='' @ dock_name d @ CHR ''|'' # v @ [newline]) (dock_variables d)) @ r) =
      dock_line e @ newline #
      (concat (map (\<lambda>v. ''dock_variable='' @ dock_name e @ CHR ''|'' # v @ [newline]) (dock_variables e)) @ s)"
    using assms(5) by (simp only: dock_text_def append_assoc append_Cons)
  note eqs = line [OF this]
  have "dock_variables d = dock_variables e \<and> r = s"
    by (rule variables_inject [OF assms(3,4) f(1) f(9,10)]) (use eqs in metis)
  with eqs show ?thesis by (simp add: dock.equality)
qed

definition constraint_text :: "string list \<Rightarrow> string" where
  "constraint_text cs = concat (map (\<lambda>c. ''constraint='' @ c @ [newline]) cs)"

lemma constraint_text_start: "constraint_text cs = [] \<or> (\<exists>t. constraint_text cs = ''constraint='' @ t)"
  by (cases cs) (simp_all add: constraint_text_def)

lemma constraint_text_inject:
  "list_all (\<lambda>c. newline \<notin> set c) cs \<Longrightarrow> list_all (\<lambda>c. newline \<notin> set c) bs \<Longrightarrow>
    constraint_text cs = constraint_text bs \<longleftrightarrow> cs = bs"
proof (induction cs arbitrary: bs)
  case Nil
  then show ?case by (cases bs) (simp_all add: constraint_text_def)
next
  case (Cons c cs)
  then show ?case by (cases bs) (auto simp: constraint_text_def sep_inject)
qed

lemma dock_texts_start: "block_start (concat (map dock_text ds) @ constraint_text cs)"
  using constraint_text_start [of cs]
  by (cases ds) (auto simp: block_start_def dock_text_def dock_line_def)

lemma docks_inject:
  assumes "list_all dock_text_ok ds" "list_all dock_text_ok es"
    and "concat (map dock_text ds) @ constraint_text cs = concat (map dock_text es) @ constraint_text bs"
  shows "ds = es \<and> constraint_text cs = constraint_text bs"
  using assms
proof (induction ds arbitrary: es)
  case Nil
  then show ?case
    using constraint_text_start [of cs] by (cases es) (auto simp: dock_text_def dock_line_def)
next
  case (Cons d ds)
  show ?case
  proof (cases es)
    case Nil
    with Cons.prems show ?thesis
      using constraint_text_start [of bs] by (auto simp: dock_text_def dock_line_def)
  next
    case (Cons e es')
    have "d = e \<and> concat (map dock_text ds) @ constraint_text cs = concat (map dock_text es') @ constraint_text bs"
      using Cons.prems Cons by (intro dock_text_inject dock_texts_start) simp_all
    with Cons Cons.prems Cons.IH [of es'] show ?thesis by simp
  qed
qed

section \<open>Properties\<close>

definition example_dock :: "string \<Rightarrow> dock_direction \<Rightarrow> dock_domain \<Rightarrow> string list \<Rightarrow> dock" where
  "example_dock n dir dmn vs = \<lparr>dock_name = n, dock_direction_of = dir, dock_role_of = Conditioning,
     dock_domain_of = dmn, coordinate_space = ''node'', value_shape = ''[B,N]'', mask_shape = [],
     dock_variables = vs, dock_required = True, target_side_only = False\<rparr>"

definition example_assembly :: "string \<Rightarrow> dock list \<Rightarrow> wikimyei_assembly" where
  "example_assembly n ds = \<lparr>family = ''wikimyei'', component_assembly_id = n, version_token = ''v1'',
     trainability = Trainable, docks = ds, assembly_constraints = [''causal'']\<rparr>"

text \<open>
  Validation accepts an assembly exactly when it has a family, an identifier, a version and at
  least one dock, dock names are unique, and every dock has a name, a coordinate space, a value
  shape and distinct non-empty variables.
\<close>

theorem validate_assembly_correct:
  "validate_wikimyei_assembly a = Inr () \<longleftrightarrow>
     family a \<noteq> [] \<and> component_assembly_id a \<noteq> [] \<and> version_token a \<noteq> [] \<and> docks a \<noteq> [] \<and>
     distinct (map dock_name (docks a)) \<and>
     list_all (\<lambda>d. dock_name d \<noteq> [] \<and> coordinate_space d \<noteq> [] \<and> value_shape d \<noteq> [] \<and>
       [] \<notin> set (dock_variables d) \<and> distinct (dock_variables d)) (docks a)"
  by (auto simp: validate_assembly_iff assembly_ok_def dock_ok_def [abs_def])

text \<open>
  The canonical text identifies an assembly: when their fields contain neither newlines nor
  bars, two assemblies with the same text are the same, docks, variables, flags and constraints
  included.
\<close>

theorem canonical_assembly_text_injective:
  assumes "assembly_text_ok a" "assembly_text_ok b"
  shows "canonical_assembly_text a = canonical_assembly_text b \<longleftrightarrow> a = b"
proof
  assume eq: "canonical_assembly_text a = canonical_assembly_text b"
  have f: "field_ok (family a)" "field_ok (family b)" "field_ok (component_assembly_id a)"
    "field_ok (component_assembly_id b)" "field_ok (version_token a)" "field_ok (version_token b)"
    using assms by (simp_all add: assembly_text_ok_def)
  have head: "family a = family b \<and> component_assembly_id a = component_assembly_id b \<and>
      version_token a = version_token b \<and> trainability a = trainability b \<and>
      concat (map dock_text (docks a)) @ constraint_text (assembly_constraints a) =
      concat (map dock_text (docks b)) @ constraint_text (assembly_constraints b)"
    using eq f name_fields(4)
    by (simp add: canonical_assembly_text_def constraint_text_def field_newline name_injects)
  then have "docks a = docks b \<and> assembly_constraints a = assembly_constraints b"
    using docks_inject [of "docks a" "docks b"] assms
    by (metis assembly_text_ok_def constraint_text_inject)
  with head show "a = b" by (simp add: wikimyei_assembly.equality)
qed simp

theorem canonical_assembly_text_injective_witness:
  "canonical_assembly_text (example_assembly ''a'' [example_dock ''in'' Consumes NodeLiftedState [''B'']]) \<noteq>
   canonical_assembly_text (example_assembly ''a'' [example_dock ''in'' Consumes NodeLiftedState [''N'']])"
proof -
  have ok: "assembly_text_ok (example_assembly ''a'' [example_dock ''in'' Consumes NodeLiftedState [[c]]])"
    if "c \<noteq> newline" "c \<noteq> CHR ''|''" for c
    using that by (simp add: assembly_text_ok_def example_assembly_def example_dock_def dock_text_ok_def field_ok_def)
  show ?thesis
    by (subst canonical_assembly_text_injective [OF ok ok])
      (simp_all add: example_assembly_def example_dock_def)
qed

text \<open>
  Two assemblies whose canonical texts differ in exactly one character always have different
  fingerprints.
\<close>

theorem assembly_fingerprint_detects_change:
  assumes "canonical_assembly_text a = pre @ x # post" "canonical_assembly_text b = pre @ y # post"
  shows "assembly_fingerprint a = assembly_fingerprint b \<longleftrightarrow> x = y"
  by (simp only: assembly_fingerprint_def hash_hex_inject assms mix_hash_string_one_char)

theorem assembly_fingerprint_detects_change_witness:
  "assembly_fingerprint (example_assembly ''a'' []) \<noteq> assembly_fingerprint (example_assembly ''b'' [])"
proof -
  define pre where "pre = ''family=wikimyei'' @ newline # ''component_assembly_id=''"
  define post where "post = newline # ''version_token=v1'' @ newline # ''trainability=trainable'' @ newline #
    ''constraint=causal'' @ [newline]"
  have t: "canonical_assembly_text (example_assembly [c] []) = pre @ c # post" for c
    by (simp add: canonical_assembly_text_def example_assembly_def assembly_trainability_name_def
        pre_def post_def)
  show ?thesis by (subst assembly_fingerprint_detects_change [OF t t]) simp
qed

end
