(* ===== verification/Lattice_Split.thy ===== *)
theory Lattice_Split
  imports Exposure_Intervals Source_Splits Wikimyei_Assembly
begin

text \<open>
  \<open>src/include/hero/lattice_hero/lattice/split/split_policy.h\<close>: the policy that says which uses
  of each split are allowed and from which it is protected. An overlay of protections is decoded
  from key/value blocks, bound to the catalog of source splits, and materialised on a number of
  accepted anchors. Reading the two files is not modelled.
\<close>

section \<open>Data\<close>

record lattice_split =
  ls_split_id :: string
  ls_role :: exposure_split_role
  ls_anchor_range :: anchor_interval
  source_split_intent :: source_split
  anchor_range_materialized :: bool
  ls_allow_uses :: "exposure_use list"
  ls_protect_from_uses :: "exposure_use list"
  ls_protect_requires_mutated_component :: bool

record lattice_split_protection =
  lp_split_id :: string
  lp_allow_uses :: "exposure_use list"
  lp_protect_from_uses :: "exposure_use list"
  lp_protect_requires_mutated_component :: bool

record lattice_split_policy_overlay =
  ov_schema :: string
  ov_policy_id :: string
  ov_source_split_catalog_id :: string
  ov_purge_left_context :: string
  ov_purge_right_future :: string
  ov_protections :: "lattice_split_protection list"

record lattice_split_policy =
  po_schema :: string
  po_policy_id :: string
  po_source_split_catalog_id :: string
  po_source_split_catalog_fingerprint :: string
  po_cursor_domain :: string
  po_purge_left_context :: string
  po_purge_right_future :: string
  po_splits :: "lattice_split list"

definition default_overlay :: lattice_split_policy_overlay where
  "default_overlay = \<lparr>ov_schema = ''kikijyeba.lattice.split_policy.v1'', ov_policy_id = [],
     ov_source_split_catalog_id = [], ov_purge_left_context = ''auto_from_Hx'',
     ov_purge_right_future = ''auto_from_Hf'', ov_protections = []\<rparr>"

definition find_lattice_split :: "lattice_split_policy \<Rightarrow> string \<Rightarrow> lattice_split option" where
  "find_lattice_split p sid = List.find (\<lambda>s. ls_split_id s = sid) (po_splits p)"

section \<open>Decoding the overlay\<close>

definition throw_lattice :: "string \<Rightarrow> 'a result" where
  "throw_lattice msg = Inl (RuntimeError (''[lattice_split] '' @ msg))"

definition parse_optional_exposure_uses :: "kv_block \<Rightarrow> string \<Rightarrow> exposure_use list result" where
  "parse_optional_exposure_uses block key =
     (let raw = kv_optional block key [] in
      if trim raw = [] then Inr [] else parse_exposure_use_list raw)"

definition exposure_role_from_source_role :: "source_split_role \<Rightarrow> exposure_split_role" where
  "exposure_role_from_source_role role = (case role of RoleUnknown \<Rightarrow> ExpUnknown
     | RoleTrain \<Rightarrow> ExpTrain | RoleValidation \<Rightarrow> ExpValidation | RoleTest \<Rightarrow> ExpTest)"

definition decode_protection :: "kv_block \<Rightarrow> lattice_split_protection result" where
  "decode_protection block =
     rbind (kv_required block ''SPLIT_ID'') (\<lambda>sid.
     rbind (parse_optional_exposure_uses block ''ALLOW_USES'') (\<lambda>allow.
     rbind (parse_optional_exposure_uses block ''PROTECT_FROM_USES'') (\<lambda>prot.
     rbind (parse_bool (kv_optional block ''PROTECT_REQUIRES_MUTATED_COMPONENT'' ''true'')) (\<lambda>mutated.
       Inr \<lparr>lp_split_id = sid, lp_allow_uses = allow, lp_protect_from_uses = prot,
            lp_protect_requires_mutated_component = mutated\<rparr>))))"

text \<open>One pass of the decoder's loop: the overlay, \<open>saw_policy\<close> and \<open>protected_split_ids\<close>.\<close>

definition decode_overlay_block ::
  "kv_block \<Rightarrow> lattice_split_policy_overlay \<times> bool \<times> string list \<Rightarrow>
   (lattice_split_policy_overlay \<times> bool \<times> string list) result"
where
  "decode_overlay_block block = (\<lambda>(out, saw_policy, ids).
     if kv_name block = ''LATTICE_SPLIT_POLICY'' then
       if saw_policy then throw_lattice ''only one LATTICE_SPLIT_POLICY block is allowed''
       else rbind (kv_required block ''POLICY_ID'') (\<lambda>pid.
            rbind (kv_required block ''SOURCE_SPLIT_CATALOG_ID'') (\<lambda>cid.
         Inr (out\<lparr>ov_policy_id := pid, ov_source_split_catalog_id := cid,
                  ov_purge_left_context := kv_optional block ''PURGE_LEFT_CONTEXT'' (ov_purge_left_context out),
                  ov_purge_right_future := kv_optional block ''PURGE_RIGHT_FUTURE'' (ov_purge_right_future out)\<rparr>,
              True, ids)))
     else if kv_name block \<noteq> ''LATTICE_SPLIT_PROTECTION'' then
       throw_lattice (''unexpected block: '' @ kv_name block)
     else rbind (decode_protection block) (\<lambda>p.
       if lp_split_id p \<in> set ids then
         throw_lattice (''duplicate LATTICE_SPLIT_PROTECTION SPLIT_ID: '' @ lp_split_id p)
       else Inr (out\<lparr>ov_protections := ov_protections out @ [p]\<rparr>, saw_policy, ids @ [lp_split_id p])))"

definition decode_lattice_split_policy_overlay_from_dsl :: "string \<Rightarrow> lattice_split_policy_overlay result" where
  "decode_lattice_split_policy_overlay_from_dsl dsl_text =
     rbind (parse_blocks dsl_text) (\<lambda>blocks.
     rbind (fold_res decode_overlay_block blocks (default_overlay, False, [])) (\<lambda>(out, saw_policy, ids).
       if \<not> saw_policy then throw_lattice ''LATTICE_SPLIT_POLICY block is required''
       else if ov_policy_id out = [] then throw_lattice ''POLICY_ID is required''
       else if ov_source_split_catalog_id out = [] then throw_lattice ''SOURCE_SPLIT_CATALOG_ID is required''
       else Inr out))"

section \<open>Binding to the source catalog\<close>

definition bind_split :: "source_split \<Rightarrow> lattice_split" where
  "bind_split s =
     (let materialized = (selector_kind s = AnchorIndexRange)
      in \<lparr>ls_split_id = split_id s, ls_role = exposure_role_from_source_role (split_role s),
          ls_anchor_range = (if materialized then
            Interval (sai_begin (anchor_range s)) (sai_end (anchor_range s)) else default_interval),
          source_split_intent = s, anchor_range_materialized = materialized,
          ls_allow_uses = [], ls_protect_from_uses = [], ls_protect_requires_mutated_component = True\<rparr>)"

definition protect_split :: "lattice_split_protection \<Rightarrow> lattice_split \<Rightarrow> lattice_split" where
  "protect_split p s = s\<lparr>ls_allow_uses := lp_allow_uses p, ls_protect_from_uses := lp_protect_from_uses p,
     ls_protect_requires_mutated_component := lp_protect_requires_mutated_component p\<rparr>"

text \<open>\<open>find_if\<close> and the three assignments through the iterator; \<open>None\<close> is the end iterator.\<close>

fun protect_first :: "lattice_split_protection \<Rightarrow> lattice_split list \<Rightarrow> lattice_split list option" where
  "protect_first p [] = None"
| "protect_first p (s # ss) =
     (if ls_split_id s = lp_split_id p then Some (protect_split p s # ss)
      else map_option ((#) s) (protect_first p ss))"

definition apply_protection :: "lattice_split_protection \<Rightarrow> lattice_split list \<Rightarrow> lattice_split list result" where
  "apply_protection p ss = (case protect_first p ss of
       None \<Rightarrow> throw_lattice (''LATTICE_SPLIT_PROTECTION references unknown source split: '' @ lp_split_id p)
     | Some ss' \<Rightarrow> Inr ss')"

definition bind_lattice_split_policy_to_source_catalog ::
  "lattice_split_policy_overlay \<Rightarrow> source_split_catalog \<Rightarrow> lattice_split_policy result"
where
  "bind_lattice_split_policy_to_source_catalog overlay catalog =
     (if ov_source_split_catalog_id overlay \<noteq> catalog_id catalog then
        throw_lattice (''SOURCE_SPLIT_CATALOG_ID mismatch: policy references '' @
          ov_source_split_catalog_id overlay @ '' but source catalog is '' @ catalog_id catalog)
      else rbind (fold_res apply_protection (ov_protections overlay) (map bind_split (splits catalog))) (\<lambda>ss.
        if ss = [] then throw_lattice ''source split catalog has no splits''
        else Inr \<lparr>po_schema = ''kikijyeba.lattice.split_policy.v1'', po_policy_id = ov_policy_id overlay,
          po_source_split_catalog_id = catalog_id catalog,
          po_source_split_catalog_fingerprint = source_split_catalog_fingerprint catalog,
          po_cursor_domain = cursor_domain catalog,
          po_purge_left_context = ov_purge_left_context overlay,
          po_purge_right_future = ov_purge_right_future overlay, po_splits = ss\<rparr>))"

definition decode_lattice_split_policy_from_dsl :: "string \<Rightarrow> source_split_catalog \<Rightarrow> lattice_split_policy result" where
  "decode_lattice_split_policy_from_dsl policy_dsl_text catalog =
     rbind (decode_lattice_split_policy_overlay_from_dsl policy_dsl_text) (\<lambda>overlay.
       bind_lattice_split_policy_to_source_catalog overlay catalog)"

section \<open>Materialisation\<close>

definition materialize_lattice_split :: "lattice_split \<Rightarrow> int \<Rightarrow> lattice_split result" where
  "materialize_lattice_split split accepted_anchor_count =
     rbind (materialize_source_split_range (source_split_intent split) accepted_anchor_count) (\<lambda>r.
       Inr (split\<lparr>ls_anchor_range := Interval (sai_begin r) (sai_end r), anchor_range_materialized := True\<rparr>))"

definition materialize_lattice_split_policy :: "lattice_split_policy \<Rightarrow> int \<Rightarrow> lattice_split_policy result" where
  "materialize_lattice_split_policy policy accepted_anchor_count =
     rbind (map_res (\<lambda>s. materialize_lattice_split s accepted_anchor_count) (po_splits policy)) (\<lambda>ss.
       Inr (policy\<lparr>po_splits := ss\<rparr>))"

section \<open>Canonical text and fingerprint\<close>

fun join_bar :: "string list \<Rightarrow> string" where
  "join_bar [] = []"
| "join_bar [n] = n"
| "join_bar (n # ns) = n @ CHR ''|'' # join_bar ns"

definition append_exposure_use_list :: "exposure_use list \<Rightarrow> string" where
  "append_exposure_use_list us = join_bar (sort (map exposure_use_name us))"

definition lattice_split_line :: "lattice_split \<Rightarrow> string" where
  "lattice_split_line split =
     (let src = source_split_intent split in
      ''split='' @ ls_split_id split @ ''|'' @ exposure_split_role_name (ls_role split) @
      (if selector_kind src = AnchorIndexRange then
         ''|'' @ show_int (sai_begin (anchor_range src)) @ ''|'' @ show_int (sai_end (anchor_range src))
       else ''|'' @ source_split_selector_kind_name (selector_kind src) @ ''|fraction='' @
         fraction_text (frac_begin (fraction_range src)) @ '':'' @
         fraction_text (frac_end (fraction_range src)) @ ''|min_count='' @ show_int (min_count src)) @
      ''|allow='' @ append_exposure_use_list (ls_allow_uses split) @
      ''|protect='' @ append_exposure_use_list (ls_protect_from_uses split) @
      ''|protect_requires_mutated_component='' @
      (if ls_protect_requires_mutated_component split then ''true'' else ''false'') @ [newline])"

definition canonical_lattice_split_policy_text :: "lattice_split_policy \<Rightarrow> string" where
  "canonical_lattice_split_policy_text p =
     ''schema='' @ po_schema p @ [newline] @
     ''policy_id='' @ po_policy_id p @ [newline] @
     ''source_split_catalog_id='' @ po_source_split_catalog_id p @ [newline] @
     ''source_split_catalog_fingerprint='' @ po_source_split_catalog_fingerprint p @ [newline] @
     ''cursor_domain='' @ po_cursor_domain p @ [newline] @
     ''purge_left_context='' @ po_purge_left_context p @ [newline] @
     ''purge_right_future='' @ po_purge_right_future p @ [newline] @
     concat (map lattice_split_line (sort_key ls_split_id (po_splits p)))"

definition lattice_split_policy_fingerprint :: "lattice_split_policy \<Rightarrow> string" where
  "lattice_split_policy_fingerprint p =
     hash_hex (mix_hash_string (mix_hash_string 14695981039346656037 ''kikijyeba.lattice.split_policy.v1'')
       (canonical_lattice_split_policy_text p))"

section \<open>The decoded overlay\<close>

definition unique_protections :: "lattice_split_policy_overlay \<Rightarrow> bool" where
  "unique_protections ov \<longleftrightarrow> distinct (map lp_split_id (ov_protections ov))"

definition overlay_state_ok :: "lattice_split_policy_overlay \<times> bool \<times> string list \<Rightarrow> bool" where
  "overlay_state_ok = (\<lambda>(out, saw_policy, ids).
     ids = map lp_split_id (ov_protections out) \<and> unique_protections out)"

lemma throw_lattice_simps [simp]: "throw_lattice m \<noteq> Inr x" "Inr x \<noteq> throw_lattice m"
  by (simp_all add: throw_lattice_def)

lemma decode_overlay_block_ok:
  "overlay_state_ok st \<Longrightarrow> decode_overlay_block b st = Inr st' \<Longrightarrow> overlay_state_ok st'"
  by (cases st)
    (auto simp: overlay_state_ok_def decode_overlay_block_def unique_protections_def res_simps split: if_splits)

lemma decode_overlay_unique:
  assumes "decode_lattice_split_policy_overlay_from_dsl dsl_text = Inr ov"
  shows "unique_protections ov"
proof -
  from assms obtain bs saw ids where
    "fold_res decode_overlay_block bs (default_overlay, False, []) = Inr (ov, saw, ids)"
    by (auto simp: decode_lattice_split_policy_overlay_from_dsl_def res_simps split: if_splits)
  moreover have "overlay_state_ok (default_overlay, False, [])"
    by (simp add: overlay_state_ok_def unique_protections_def default_overlay_def)
  ultimately have "overlay_state_ok (ov, saw, ids)"
    by (rule fold_res_invariant) (rule decode_overlay_block_ok)
  then show ?thesis by (simp add: overlay_state_ok_def)
qed

section \<open>Protections\<close>

definition unique_lattice_ids :: "lattice_split_policy \<Rightarrow> bool" where
  "unique_lattice_ids p \<longleftrightarrow> distinct (map ls_split_id (po_splits p))"

interpretation policy_lookup: keyed_lookup po_splits ls_split_id find_lattice_split unique_lattice_ids
  by unfold_locales
    (auto simp: find_lattice_split_def unique_lattice_ids_def find_distinct_key dest: find_Some_D)

definition protect_by :: "lattice_split_protection list \<Rightarrow> lattice_split \<Rightarrow> lattice_split" where
  "protect_by ps s = (case List.find (\<lambda>p. lp_split_id p = ls_split_id s) ps of
       None \<Rightarrow> s | Some p \<Rightarrow> protect_split p s)"

lemma protect_split_simps [simp]:
  "ls_split_id (protect_split p s) = ls_split_id s" "ls_role (protect_split p s) = ls_role s"
  "source_split_intent (protect_split p s) = source_split_intent s"
  "ls_anchor_range (protect_split p s) = ls_anchor_range s"
  "anchor_range_materialized (protect_split p s) = anchor_range_materialized s"
  by (simp_all add: protect_split_def)

lemma protect_by_simps [simp]:
  "ls_split_id (protect_by ps s) = ls_split_id s" "ls_role (protect_by ps s) = ls_role s"
  "source_split_intent (protect_by ps s) = source_split_intent s"
  "ls_anchor_range (protect_by ps s) = ls_anchor_range s"
  "anchor_range_materialized (protect_by ps s) = anchor_range_materialized s"
  by (simp_all add: protect_by_def split: option.split)

lemma protect_first_eq:
  "distinct (map ls_split_id ss) \<Longrightarrow> protect_first p ss =
    (if lp_split_id p \<in> ls_split_id ` set ss
     then Some (map (\<lambda>s. if ls_split_id s = lp_split_id p then protect_split p s else s) ss) else None)"
proof (induction ss)
  case (Cons s ss)
  have "map (\<lambda>s. if ls_split_id s = lp_split_id p then protect_split p s else s) ss = ss"
    if "lp_split_id p \<notin> ls_split_id ` set ss"
    using that by (intro map_idI) force
  with Cons show ?case by auto
qed simp

lemma apply_protection_iff:
  "distinct (map ls_split_id ss) \<Longrightarrow> apply_protection p ss = Inr ss' \<longleftrightarrow>
    lp_split_id p \<in> ls_split_id ` set ss \<and>
    ss' = map (\<lambda>s. if ls_split_id s = lp_split_id p then protect_split p s else s) ss"
  by (auto simp: apply_protection_def protect_first_eq)

lemma apply_protections_iff:
  assumes "distinct (map ls_split_id ss)" "distinct (map lp_split_id ps)"
  shows "fold_res apply_protection ps ss = Inr ss' \<longleftrightarrow>
    lp_split_id ` set ps \<subseteq> ls_split_id ` set ss \<and> ss' = map (protect_by ps) ss"
  using assms
proof (induction ps arbitrary: ss)
  case Nil
  have "map (protect_by []) ss = ss" by (simp add: protect_by_def map_idI)
  then show ?case by auto
next
  case (Cons p ps)
  define ss1 where "ss1 = map (\<lambda>s. if ls_split_id s = lp_split_id p then protect_split p s else s) ss"
  have ids: "map ls_split_id ss1 = map ls_split_id ss" by (simp add: ss1_def)
  have sets: "ls_split_id ` set ss1 = ls_split_id ` set ss" using ids by (metis list.set_map)
  have "List.find (\<lambda>q. lp_split_id q = lp_split_id p) ps = None"
    using Cons.prems(2) unfolding find_None_iff by (simp, metis image_eqI)
  then have maps: "map (protect_by ps) ss1 = map (protect_by (p # ps)) ss"
    unfolding ss1_def by (auto simp: protect_by_def)
  have "fold_res apply_protection ps ss1 = Inr ss' \<longleftrightarrow>
      lp_split_id ` set ps \<subseteq> ls_split_id ` set ss \<and> ss' = map (protect_by (p # ps)) ss"
    using Cons.IH [of ss1] Cons.prems by (simp add: ids sets maps)
  then show ?case
    using Cons.prems by (auto simp: rbind_Inr_iff apply_protection_iff ss1_def [symmetric])
qed

lemma bind_split_simps [simp]:
  "ls_split_id (bind_split s) = split_id s" "source_split_intent (bind_split s) = s"
  "ls_role (bind_split s) = exposure_role_from_source_role (split_role s)"
  "anchor_range_materialized (bind_split s) \<longleftrightarrow> selector_kind s = AnchorIndexRange"
  by (simp_all add: bind_split_def Let_def)

lemma bind_iff:
  assumes "unique_split_ids c" "unique_protections ov"
  shows "bind_lattice_split_policy_to_source_catalog ov c = Inr p \<longleftrightarrow>
    ov_source_split_catalog_id ov = catalog_id c \<and> splits c \<noteq> [] \<and>
    lp_split_id ` set (ov_protections ov) \<subseteq> split_id ` set (splits c) \<and>
    p = \<lparr>po_schema = ''kikijyeba.lattice.split_policy.v1'', po_policy_id = ov_policy_id ov,
      po_source_split_catalog_id = catalog_id c,
      po_source_split_catalog_fingerprint = source_split_catalog_fingerprint c,
      po_cursor_domain = cursor_domain c, po_purge_left_context = ov_purge_left_context ov,
      po_purge_right_future = ov_purge_right_future ov,
      po_splits = map (\<lambda>s. protect_by (ov_protections ov) (bind_split s)) (splits c)\<rparr>"
proof -
  have "fold_res apply_protection (ov_protections ov) (map bind_split (splits c)) = Inr ss \<longleftrightarrow>
      lp_split_id ` set (ov_protections ov) \<subseteq> split_id ` set (splits c) \<and>
      ss = map (\<lambda>s. protect_by (ov_protections ov) (bind_split s)) (splits c)" for ss
    using assms
    by (subst apply_protections_iff)
      (simp_all add: unique_split_ids_def unique_protections_def comp_def image_image)
  then show ?thesis
    by (auto simp: bind_lattice_split_policy_to_source_catalog_def rbind_Inr_iff)
qed

lemma bind_unique_ids:
  assumes "unique_split_ids c" "unique_protections ov" "bind_lattice_split_policy_to_source_catalog ov c = Inr p"
  shows "unique_lattice_ids p" "map source_split_intent (po_splits p) = splits c"
  using assms by (auto simp: bind_iff unique_lattice_ids_def unique_split_ids_def comp_def)

section \<open>Properties\<close>

definition example_policy_text :: string where
  "example_policy_text = ''LATTICE_SPLIT_POLICY{POLICY_ID=p;SOURCE_SPLIT_CATALOG_ID=c;}LATTICE_SPLIT_PROTECTION{SPLIT_ID=b;ALLOW_USES=evaluation_metric;PROTECT_FROM_USES=observed_input|target_supervision;}''"

definition example_overlay :: lattice_split_policy_overlay where
  "example_overlay = default_overlay\<lparr>ov_policy_id := ''p'', ov_source_split_catalog_id := ''c'',
     ov_protections := [\<lparr>lp_split_id = ''b'', lp_allow_uses = [EvaluationMetric],
       lp_protect_from_uses = [ObservedInput, TargetSupervision],
       lp_protect_requires_mutated_component = True\<rparr>]\<rparr>"

definition example_policy :: lattice_split_policy where
  "example_policy = \<lparr>po_schema = ''kikijyeba.lattice.split_policy.v1'', po_policy_id = ''p'',
     po_source_split_catalog_id = ''c'',
     po_source_split_catalog_fingerprint = source_split_catalog_fingerprint example_catalog,
     po_cursor_domain = ''ujcamei.graph_anchor'', po_purge_left_context = ''auto_from_Hx'',
     po_purge_right_future = ''auto_from_Hf'',
     po_splits = [bind_split example_split_a,
       (bind_split example_split_b)\<lparr>ls_allow_uses := [EvaluationMetric],
         ls_protect_from_uses := [ObservedInput, TargetSupervision]\<rparr>]\<rparr>"

lemma example_overlay_decoded:
  "decode_lattice_split_policy_overlay_from_dsl example_policy_text = Inr example_overlay"
  by code_simp

lemma example_catalog_unique: "unique_split_ids example_catalog"
  by code_simp

lemma example_policy_bound: "bind_lattice_split_policy_to_source_catalog example_overlay example_catalog = Inr example_policy"
proof -
  have u: "unique_protections example_overlay"
    using example_overlay_decoded by (rule decode_overlay_unique)
  have ss: "map (\<lambda>s. protect_by (ov_protections example_overlay) (bind_split s)) (splits example_catalog) =
      po_splits example_policy"
    by (simp add: example_policy_def) code_simp
  have "ov_source_split_catalog_id example_overlay = catalog_id example_catalog" "splits example_catalog \<noteq> []"
    "lp_split_id ` set (ov_protections example_overlay) \<subseteq> split_id ` set (splits example_catalog)"
    "catalog_id example_catalog = ''c''" "cursor_domain example_catalog = ''ujcamei.graph_anchor''"
    "ov_policy_id example_overlay = ''p''" "ov_purge_left_context example_overlay = ''auto_from_Hx''"
    "ov_purge_right_future example_overlay = ''auto_from_Hf''"
    by (simp_all add: example_overlay_def default_overlay_def example_catalog_def default_catalog_def
        graph_anchor_domain_def example_split_a_def example_split_b_def)
  then show ?thesis
    unfolding bind_iff [OF example_catalog_unique u] ss by (simp add: example_policy_def)
qed

text \<open>
  A decoded policy binds to a catalog with unique identifiers exactly when it names that
  catalog, the catalog has splits and every protection names one of them; the bound policy then
  has the splits of the catalog, in order, each with the uses of the protection that names it, or
  without any restriction when none does.
\<close>

theorem bind_policy_correct:
  assumes "decode_lattice_split_policy_overlay_from_dsl dsl_text = Inr ov" "unique_split_ids c"
  shows "((\<exists>p. bind_lattice_split_policy_to_source_catalog ov c = Inr p) \<longleftrightarrow>
      ov_source_split_catalog_id ov = catalog_id c \<and> splits c \<noteq> [] \<and>
      lp_split_id ` set (ov_protections ov) \<subseteq> split_id ` set (splits c)) \<and>
    (bind_lattice_split_policy_to_source_catalog ov c = Inr p \<longrightarrow>
      po_splits p = map (\<lambda>s. case List.find (\<lambda>q. lp_split_id q = split_id s) (ov_protections ov) of
          None \<Rightarrow> bind_split s
        | Some q \<Rightarrow> (bind_split s)\<lparr>ls_allow_uses := lp_allow_uses q, ls_protect_from_uses := lp_protect_from_uses q,
            ls_protect_requires_mutated_component := lp_protect_requires_mutated_component q\<rparr>) (splits c))"
  using decode_overlay_unique [OF assms(1)] assms(2)
  by (auto simp: bind_iff protect_by_def protect_split_def split: option.split)

theorem bind_policy_correct_witness:
  "\<exists>p. bind_lattice_split_policy_to_source_catalog example_overlay example_catalog = Inr p"
  using bind_policy_correct [OF example_overlay_decoded example_catalog_unique]
  by (simp add: example_overlay_def example_catalog_def default_overlay_def default_catalog_def
      example_split_b_def example_split_a_def default_split_def)

text \<open>
  The policy and the source catalog agree on the anchors: once the catalog of a bound policy
  materialises, so does the policy, and its splits have the same identifiers and anchor ranges,
  all marked as materialised.
\<close>

theorem policy_materialization_agrees:
  assumes "unique_split_ids c" "unique_protections ov"
    and "bind_lattice_split_policy_to_source_catalog ov c = Inr p"
    and "materialize_source_split_catalog c n = Inr c'"
  shows "\<exists>p'. materialize_lattice_split_policy p n = Inr p' \<and>
    map ls_split_id (po_splits p') = map split_id (splits c') \<and>
    map ls_anchor_range (po_splits p') =
      map (\<lambda>s. Interval (sai_begin (anchor_range s)) (sai_end (anchor_range s))) (splits c') \<and>
    list_all anchor_range_materialized (po_splits p')"
proof -
  obtain ts where ts: "map_res (\<lambda>s. materialize_source_split s n) (splits c) = Inr ts" "splits c' = ts"
    using assms(4) by (auto simp: materialize_source_split_catalog_def rbind_Inr_iff)
  have p: "po_splits p = map (\<lambda>s. protect_by (ov_protections ov) (bind_split s)) (splits c)"
    using assms(3) by (simp add: bind_iff [OF assms(1,2)])
  have "\<exists>us. map_res (\<lambda>s. materialize_lattice_split s n)
        (map (\<lambda>s. protect_by (ov_protections ov) (bind_split s)) ss) = Inr us \<and>
      map ls_split_id us = map split_id ts \<and>
      map ls_anchor_range us = map (\<lambda>s. Interval (sai_begin (anchor_range s)) (sai_end (anchor_range s))) ts \<and>
      list_all anchor_range_materialized us"
    if "map_res (\<lambda>s. materialize_source_split s n) ss = Inr ts" for ss ts
    using that
  proof (induction ss arbitrary: ts)
    case (Cons s ss)
    then obtain t ts' where t: "ts = t # ts'" "materialize_source_split s n = Inr t"
      "map_res (\<lambda>s. materialize_source_split s n) ss = Inr ts'"
      by (auto simp del: map_res_Inr_iff simp: rbind_Inr_iff)
    from Cons.IH [OF t(3)] t(1,2) show ?case
      by (auto simp del: map_res_Inr_iff simp: materialize_lattice_split_def materialize_source_split_def rbind_Inr_iff)
  qed simp
  from this [OF ts(1)] show ?thesis
    by (auto simp del: map_res_Inr_iff simp: materialize_lattice_split_policy_def p ts(2))
qed

theorem policy_materialization_agrees_witness:
  "\<exists>p'. materialize_lattice_split_policy example_policy 9 = Inr p' \<and>
    map ls_anchor_range (po_splits p') = [Interval 0 4, Interval 7 9]"
proof -
  have u: "unique_protections example_overlay"
    using example_overlay_decoded by (rule decode_overlay_unique)
  have m: "materialize_source_split_catalog example_catalog 9 =
      Inr (example_catalog\<lparr>splits := [example_split_a\<lparr>selector_kind := AnchorIndexRange,
        anchor_range := \<lparr>sai_begin = 0, sai_end = 4\<rparr>\<rparr>, example_split_b]\<rparr>)"
    by code_simp
  show ?thesis
    using policy_materialization_agrees [OF example_catalog_unique u example_policy_bound m]
    by (auto simp: example_split_b_def)
qed

text \<open>
  The fingerprint of a policy depends neither on the order of its splits nor on the order in
  which the uses of a split are listed.
\<close>

theorem policy_fingerprint_order_independent:
  assumes "unique_lattice_ids p" "mset (po_splits q) = mset (po_splits p)"
    and "q = p\<lparr>po_splits := po_splits q\<rparr>"
  shows "lattice_split_policy_fingerprint q = lattice_split_policy_fingerprint p \<and>
    (mset us = mset vs \<longrightarrow> append_exposure_use_list us = append_exposure_use_list vs)"
proof -
  have "inj_on ls_split_id (set (po_splits q))"
    using assms(1,2) by (metis unique_lattice_ids_def distinct_map mset_eq_setD)
  then have "sort_key ls_split_id (po_splits q) = sort_key ls_split_id (po_splits p)"
    using assms(2) by (intro sort_key_inj_key_eq) simp_all
  moreover obtain ss where q: "q = p\<lparr>po_splits := ss\<rparr>" using assms(3) by blast
  ultimately have "lattice_split_policy_fingerprint q = lattice_split_policy_fingerprint p"
    by (simp add: lattice_split_policy_fingerprint_def canonical_lattice_split_policy_text_def)
  moreover have "append_exposure_use_list us = append_exposure_use_list vs" if "mset us = mset vs"
  proof -
    have "sort (map exposure_use_name us) = sort (map exposure_use_name vs)"
      using that by (intro properties_for_sort) (metis mset_map mset_sort, simp)
    then show ?thesis by (simp add: append_exposure_use_list_def)
  qed
  ultimately show ?thesis by blast
qed

theorem policy_fingerprint_order_independent_witness:
  "lattice_split_policy_fingerprint (example_policy\<lparr>po_splits := rev (po_splits example_policy)\<rparr>) =
    lattice_split_policy_fingerprint example_policy"
proof -
  have u: "unique_lattice_ids example_policy"
    by (simp add: unique_lattice_ids_def example_policy_def example_split_a_def example_split_b_def)
  show ?thesis
    using policy_fingerprint_order_independent
      [OF u, of "example_policy\<lparr>po_splits := rev (po_splits example_policy)\<rparr>" "[]" "[]"] by simp
qed

end
