(* ===== verification/Target_Types.thy ===== *)
theory Target_Types
  imports Exposure_Intervals Simple_Kv Floating_Text
begin

text \<open>
  The records of \<open>src/include/hero/lattice_hero/lattice/target/lattice_target.h\<close>: the specification of a
  target with its warnings and requirements, guards, the clauses a compiled target keeps, and the
  initialisers of the structs. \<open>std::size_t\<close> is a 64-bit word; a \<open>double\<close> is a \<open>c_float\<close>. The thresholds of
  the two synthetic oracle gates are a record of their own.
\<close>

type_synonym size = "64 word"

definition size_of_i64 :: "int \<Rightarrow> size" where
  "size_of_i64 i = word_of_int i"

definition i64_of_size :: "size \<Rightarrow> int" where
  "i64_of_size w = sint w"

definition throw_target :: "string \<Rightarrow> 'a result" where
  "throw_target msg = Inl (RuntimeError (''[lattice_target] '' @ msg))"

datatype target_kind = Not_Applicable | Vicreg_Ready | Mtf_Representation_Ready | Channel_Mdn_Ready

record lattice_warning_spec =
  lw_warning_id :: string
  lw_kind :: string
  lw_split :: string
  lw_anchor_index_begin :: "size option"
  lw_anchor_index_end :: "size option"
  lw_use :: exposure_use
  lw_scope :: string
  lw_require_mutated_component :: bool
  lw_cursor_epochs_above :: c_float
  lw_metric :: string
  lw_above :: c_float
  lw_below :: c_float
  lw_accepted_fraction_below :: c_float
  lw_skipped_failed_fetch_probe_above :: "int option"

definition default_warning_spec :: lattice_warning_spec where
  "default_warning_spec = \<lparr>lw_warning_id = [], lw_kind = [], lw_split = [], lw_anchor_index_begin = None,
     lw_anchor_index_end = None, lw_use = ObservedInput, lw_scope = ''target_component_family_id'',
     lw_require_mutated_component = True, lw_cursor_epochs_above = NotANumber, lw_metric = [],
     lw_above = NotANumber, lw_below = NotANumber, lw_accepted_fraction_below = NotANumber,
     lw_skipped_failed_fetch_probe_above = None\<rparr>"

record geometry_requirement =
  gr_requirement_id :: string
  gr_metric :: string
  gr_op :: string
  gr_value :: c_float
  gr_require_mutated_component :: bool

record oracle_thresholds =
  or_max_ev_mae :: c_float
  or_max_ev_rmse :: c_float
  or_min_directional_accuracy :: c_float
  or_max_price_ev_mae :: c_float
  or_max_price_ev_rmse :: c_float
  or_max_activity_ev_mae :: c_float
  or_max_activity_ev_rmse :: c_float
  or_min_close_directional_accuracy :: c_float
  or_max_edge_return_ev_mae :: c_float
  or_max_edge_return_ev_rmse :: c_float
  or_min_edge_return_directional_accuracy :: c_float
  or_min_edge_return_pairwise_rank_accuracy :: c_float
  or_min_edge_return_best_asset_agreement :: c_float
  or_min_edge_return_correlation :: c_float

definition default_oracle_thresholds :: oracle_thresholds where
  "default_oracle_thresholds = \<lparr>or_max_ev_mae = NotANumber, or_max_ev_rmse = NotANumber,
     or_min_directional_accuracy = NotANumber, or_max_price_ev_mae = NotANumber, or_max_price_ev_rmse = NotANumber,
     or_max_activity_ev_mae = NotANumber, or_max_activity_ev_rmse = NotANumber,
     or_min_close_directional_accuracy = NotANumber, or_max_edge_return_ev_mae = NotANumber,
     or_max_edge_return_ev_rmse = NotANumber, or_min_edge_return_directional_accuracy = NotANumber,
     or_min_edge_return_pairwise_rank_accuracy = NotANumber, or_min_edge_return_best_asset_agreement = NotANumber,
     or_min_edge_return_correlation = NotANumber\<rparr>"

record lattice_target_spec =
  ts_target_id :: string
  ts_target_spec_fingerprint :: string
  ts_use_profile :: string
  ts_guard_id :: string
  ts_target_class :: string
  ts_kind :: target_kind
  ts_target_kind_applicable :: bool
  ts_proof_kind :: string
  ts_subject_fact_family :: string
  ts_protocol_id :: string
  ts_component :: string
  ts_checkpoint_source :: string
  ts_evaluated_checkpoint_source :: string
  ts_source_range :: string
  ts_train_split :: string
  ts_anchor_index_begin :: "size option"
  ts_anchor_index_end :: "size option"
  ts_upstream_target_id :: string
  ts_require_contract_match :: bool
  ts_require_component_match :: bool
  ts_require_checkpoint_exists :: bool
  ts_require_finite_loss :: bool
  ts_min_optimizer_steps :: int
  ts_min_valid_target_fraction :: c_float
  ts_require_active_node_head_count :: int
  ts_require_trained_node_head_count :: int
  ts_require_evaluated_node_head_count :: int
  ts_min_observed_input_coverage :: c_float
  ts_min_target_supervision_coverage :: c_float
  ts_min_evaluation_metric_coverage :: c_float
  ts_oracle :: oracle_thresholds
  ts_forbid_split :: string
  ts_forbid_anchor_index_begin :: "size option"
  ts_forbid_anchor_index_end :: "size option"
  ts_forbid_exposure_uses :: "exposure_use list"
  ts_forbid_uses_from_split_policy :: bool
  ts_forbid_requires_mutated_component :: bool
  ts_plan_mode :: string
  ts_plan_input_mdn_checkpoint :: string
  ts_plan_input_representation_checkpoint :: string
  ts_max_waves :: int
  ts_warning_specs :: "lattice_warning_spec list"
  ts_geometry_requirements :: "geometry_requirement list"
  ts_language_warnings :: "string list"

definition default_target_spec :: lattice_target_spec where
  "default_target_spec = \<lparr>ts_target_id = [], ts_target_spec_fingerprint = [], ts_use_profile = [], ts_guard_id = [],
     ts_target_class = ''readiness'', ts_kind = Not_Applicable, ts_target_kind_applicable = True, ts_proof_kind = [],
     ts_subject_fact_family = [], ts_protocol_id = [], ts_component = [], ts_checkpoint_source = ''output_checkpoint'',
     ts_evaluated_checkpoint_source = [], ts_source_range = ''all'', ts_train_split = [], ts_anchor_index_begin = None,
     ts_anchor_index_end = None, ts_upstream_target_id = [], ts_require_contract_match = True,
     ts_require_component_match = True, ts_require_checkpoint_exists = True, ts_require_finite_loss = True,
     ts_min_optimizer_steps = 0, ts_min_valid_target_fraction = Finite 0, ts_require_active_node_head_count = 0,
     ts_require_trained_node_head_count = 0, ts_require_evaluated_node_head_count = 0,
     ts_min_observed_input_coverage = Finite 0, ts_min_target_supervision_coverage = Finite 0,
     ts_min_evaluation_metric_coverage = Finite 0, ts_oracle = default_oracle_thresholds, ts_forbid_split = [],
     ts_forbid_anchor_index_begin = None, ts_forbid_anchor_index_end = None, ts_forbid_exposure_uses = [],
     ts_forbid_uses_from_split_policy = False, ts_forbid_requires_mutated_component = True,
     ts_plan_mode = ''train | debug'', ts_plan_input_mdn_checkpoint = [], ts_plan_input_representation_checkpoint = [],
     ts_max_waves = 1, ts_warning_specs = [], ts_geometry_requirements = [], ts_language_warnings = []\<rparr>"

record lattice_guard_spec =
  lg_guard_id :: string
  lg_split :: string
  lg_forbid_anchor_index_begin :: "size option"
  lg_forbid_anchor_index_end :: "size option"
  lg_uses :: "exposure_use list"
  lg_requires_mutated_component :: bool

section \<open>Clauses\<close>

text \<open>A field is a key and its value.\<close>

type_synonym clause_fields = "(string \<times> string) list"

record dependency_clause =
  dc_clause_id :: string
  dc_target_id :: string
  dc_upstream_target_id :: string
  dc_binding :: string
  dc_require_exact_loaded_checkpoint :: bool
  dc_fields :: clause_fields

text \<open>Requirements, forbidden exposures and warnings have the same members; a plan has no kind.\<close>

record target_clause =
  tc_clause_id :: string
  tc_target_id :: string
  tc_kind :: string
  tc_fields :: clause_fields

record plan_clause =
  pc_clause_id :: string
  pc_target_id :: string
  pc_fields :: clause_fields

record lattice_target_compiled =
  lc_lowered_v0 :: lattice_target_spec
  lc_dependencies :: "dependency_clause list"
  lc_requirements :: "target_clause list"
  lc_forbids :: "target_clause list"
  lc_plans :: "plan_clause list"
  lc_warning_clauses :: "target_clause list"
  lc_applied_profiles :: "string list"
  lc_applied_guards :: "string list"
  lc_warnings :: "string list"
  lc_target_spec_fingerprint :: string

end
