(* ===== verification/Target_Splits.thy ===== *)
theory Target_Splits
  imports Lattice_Split Target_Types
begin

text \<open>
  \<open>src/include/hero/lattice_hero/lattice/target/lattice_target_evaluator.h\<close>, the part of the
  target evaluator that turns the splits a target names into anchor ranges
  (\<open>resolve_split_references\<close>), dilates the protected range by the context and the future of the
  facts (\<open>expanded_forbidden_exposure_interval\<close>) and checks it for leakage (the end of the
  exposure check, \<open>leakage_gate\<close> here), with the lenient readers of manifest values.

  \<open>std::size_t\<close> is a 64-bit word: an anchor is cast to it when a split is resolved and back to
  \<open>int64_t\<close> when the range is read. The specifications are those of \<open>Target_Types\<close>.
  Which facts belong to the closure of the checkpoint is decided elsewhere: the gate takes them as an argument.
\<close>

section \<open>Suggested waves\<close>

record lattice_suggested_wave =
  sw_target :: string
  sw_mode :: string
  sw_source_range :: string
  sw_anchor_index_begin :: "size option"
  sw_anchor_index_end :: "size option"
  sw_input_mdn_checkpoint :: string
  sw_input_representation_checkpoint :: string

definition make_suggested_wave :: "'x lattice_target_spec_scheme \<Rightarrow> lattice_suggested_wave" where
  "make_suggested_wave spec = \<lparr>sw_target = ts_component spec, sw_mode = ts_plan_mode spec,
     sw_source_range = ts_source_range spec, sw_anchor_index_begin = ts_anchor_index_begin spec,
     sw_anchor_index_end = ts_anchor_index_end spec,
     sw_input_mdn_checkpoint = ts_plan_input_mdn_checkpoint spec,
     sw_input_representation_checkpoint = ts_plan_input_representation_checkpoint spec\<rparr>"

section \<open>Lenient readers\<close>

definition map_get :: "(string \<rightharpoonup> string) \<Rightarrow> string \<Rightarrow> string \<Rightarrow> string" where
  "map_get m key fallback = (case m key of None \<Rightarrow> fallback | Some v \<Rightarrow> v)"

definition parse_bool_fallback :: "string \<Rightarrow> bool \<Rightarrow> bool" where
  "parse_bool_fallback raw fallback =
     (let v = lowercase (trim raw) in
      if v = [] then fallback
      else if v = ''true'' \<or> v = ''yes'' \<or> v = ''1'' then True
      else if v = ''false'' \<or> v = ''no'' \<or> v = ''0'' then False
      else fallback)"

definition parse_i64_fallback :: "string \<Rightarrow> int \<Rightarrow> int" where
  "parse_i64_fallback raw fallback =
     (let v = trim raw in
      if v = [] then fallback else (case parse_i64 v of Inr i \<Rightarrow> i | Inl _ \<Rightarrow> fallback))"

fun first_i64 :: "(string \<rightharpoonup> string) \<Rightarrow> (string \<rightharpoonup> string) \<Rightarrow> string list \<Rightarrow> int \<Rightarrow> int" where
  "first_i64 a b [] fallback = fallback"
| "first_i64 a b (key # keys) fallback =
     (if map_get a key [] \<noteq> [] then parse_i64_fallback (map_get a key []) fallback
      else if map_get b key [] \<noteq> [] then parse_i64_fallback (map_get b key []) fallback
      else first_i64 a b keys fallback)"

text \<open>The digits of the accepted anchor count; the guard keeps the value within 64 bits.\<close>

fun accepted_digits :: "int \<Rightarrow> string \<Rightarrow> int option" where
  "accepted_digits v [] = Some v"
| "accepted_digits v (ch # raw) =
     (if \<not> is_digit ch then None
      else let digit = int (chr_code ch) - 48 in
        if v > (int64_max - digit) div 10 then None else accepted_digits (v * 10 + digit) raw)"

definition accepted_prefix :: string where
  "accepted_prefix = ''accepted=''"

text \<open>The loop over the atoms between bars, from \<open>offset\<close> on.\<close>

function accepted_anchor_count_from_source_cursor_token :: "string \<Rightarrow> int option" where
  "accepted_anchor_count_from_source_cursor_token token =
     (let atom = takeWhile (\<lambda>c. c \<noteq> CHR ''|'') token;
          rest = dropWhile (\<lambda>c. c \<noteq> CHR ''|'') token
      in if take (length accepted_prefix) atom = accepted_prefix then
           let raw = drop (length accepted_prefix) atom in
           if raw = [] then None
           else (case accepted_digits 0 raw of
               None \<Rightarrow> None
             | Some v \<Rightarrow> if v \<le> 0 then None else Some v)
         else if rest = [] then None
         else accepted_anchor_count_from_source_cursor_token (tl rest))"
  by pat_completeness auto
termination
proof (relation "measure length", simp, goal_cases)
  case (1 token atom rest)
  then have "length rest \<le> length token" by (simp add: length_dropWhile_le)
  moreover have "length (tl rest) < length rest" using 1(4) by (cases rest) auto
  ultimately show ?case by simp
qed

declare accepted_anchor_count_from_source_cursor_token.simps [simp del]

text \<open>A reference \<open>latest_satisfying:<id>\<close> and the identifier it names.\<close>

definition latest_satisfying_target_id_from_reference :: "string \<Rightarrow> string" where
  "latest_satisfying_target_id_from_reference source =
     (let prefix = ''latest_satisfying:''; trimmed = trim source in
      if take (length prefix) (lowercase trimmed) \<noteq> prefix then [] else trim (drop (length prefix) trimmed))"

definition latest_satisfying_checkpoint_source_target_id :: "'x lattice_target_spec_scheme \<Rightarrow> string" where
  "latest_satisfying_checkpoint_source_target_id spec =
     (let prefix = ''latest_satisfying:''; source = trim (ts_checkpoint_source spec) in
      if take (length prefix) (lowercase source) \<noteq> prefix then [] else trim (drop (length prefix) source))"

section \<open>Resolving split references\<close>

definition materialized_split_for_reference :: "lattice_split \<Rightarrow> int option \<Rightarrow> lattice_split result" where
  "materialized_split_for_reference split accepted =
     (if anchor_range_materialized split then Inr split
      else case accepted of
          None \<Rightarrow> throw_target ''fractional split reference requires active source_cursor_token with accepted anchor count''
        | Some n \<Rightarrow> materialize_lattice_split split n)"

definition resolve_train_split ::
  "lattice_split_policy \<Rightarrow> int option \<Rightarrow> 'x lattice_target_spec_scheme \<Rightarrow> 'x lattice_target_spec_scheme result"
where
  "resolve_train_split policy accepted spec =
     (if ts_train_split spec = [] then Inr spec
      else case find_lattice_split policy (ts_train_split spec) of
          None \<Rightarrow> throw_target (''unknown TRAIN_SPLIT: '' @ ts_train_split spec)
        | Some split \<Rightarrow> rbind (materialized_split_for_reference split accepted) (\<lambda>m.
            Inr (spec\<lparr>ts_source_range := ''anchor_index'',
                      ts_anchor_index_begin := Some (size_of_i64 (ai_begin (ls_anchor_range m))),
                      ts_anchor_index_end := Some (size_of_i64 (ai_end (ls_anchor_range m)))\<rparr>)))"

definition resolve_forbidden_uses ::
  "lattice_split \<Rightarrow> 'x lattice_target_spec_scheme \<Rightarrow> 'x lattice_target_spec_scheme result"
where
  "resolve_forbidden_uses split spec =
     (if \<not> ts_forbid_uses_from_split_policy spec then Inr spec
      else if ls_protect_from_uses split = [] then
        throw_target (''PROTECT_SPLIT references split without PROTECT_FROM_USES: '' @ ts_forbid_split spec)
      else Inr (spec\<lparr>ts_forbid_exposure_uses := ls_protect_from_uses split,
                     ts_forbid_requires_mutated_component := ls_protect_requires_mutated_component split,
                     ts_forbid_uses_from_split_policy := False\<rparr>))"

definition resolve_forbid_split ::
  "lattice_split_policy \<Rightarrow> int option \<Rightarrow> 'x lattice_target_spec_scheme \<Rightarrow> 'x lattice_target_spec_scheme result"
where
  "resolve_forbid_split policy accepted spec =
     (if ts_forbid_split spec = [] then Inr spec
      else case find_lattice_split policy (ts_forbid_split spec) of
          None \<Rightarrow> throw_target (''unknown FORBID_SPLIT: '' @ ts_forbid_split spec)
        | Some split \<Rightarrow> rbind (materialized_split_for_reference split accepted) (\<lambda>m.
            rbind (resolve_forbidden_uses split spec) (\<lambda>spec'.
            Inr (spec'\<lparr>ts_forbid_anchor_index_begin := Some (size_of_i64 (ai_begin (ls_anchor_range m))),
                       ts_forbid_anchor_index_end := Some (size_of_i64 (ai_end (ls_anchor_range m)))\<rparr>))))"

definition resolve_warning :: "lattice_split_policy \<Rightarrow> int option \<Rightarrow> lattice_warning_spec \<Rightarrow> lattice_warning_spec result" where
  "resolve_warning policy accepted w =
     (if lw_split w = [] then Inr w
      else case find_lattice_split policy (lw_split w) of
          None \<Rightarrow> throw_target (''unknown LATTICE_WARN SPLIT: '' @ lw_split w)
        | Some split \<Rightarrow>
            if lw_anchor_index_begin w \<noteq> None \<or> lw_anchor_index_end w \<noteq> None then
              throw_target ''LATTICE_WARN must use either SPLIT or explicit ANCHOR_INDEX_BEGIN/END, not both''
            else rbind (materialized_split_for_reference split accepted) (\<lambda>m.
              Inr (w\<lparr>lw_anchor_index_begin := Some (size_of_i64 (ai_begin (ls_anchor_range m))),
                     lw_anchor_index_end := Some (size_of_i64 (ai_end (ls_anchor_range m)))\<rparr>)))"

definition resolve_split_references ::
  "'x lattice_target_spec_scheme \<Rightarrow> lattice_split_policy option \<Rightarrow> int option \<Rightarrow> 'x lattice_target_spec_scheme result"
where
  "resolve_split_references spec split_policy accepted =
     (if ts_train_split spec = [] \<and> ts_forbid_split spec = [] \<and>
         \<not> list_ex (\<lambda>w. lw_split w \<noteq> []) (ts_warning_specs spec) then Inr spec
      else case split_policy of
          None \<Rightarrow> throw_target ''target references lattice split names but no split policy was loaded''
        | Some policy \<Rightarrow>
            rbind (resolve_train_split policy accepted spec) (\<lambda>spec1.
            rbind (resolve_forbid_split policy accepted spec1) (\<lambda>spec2.
            rbind (map_res (resolve_warning policy accepted) (ts_warning_specs spec2)) (\<lambda>ws.
              Inr (spec2\<lparr>ts_warning_specs := ws\<rparr>)))))"

section \<open>The ranges of a target\<close>

definition interval_of_sizes :: "size option \<Rightarrow> size option \<Rightarrow> anchor_interval" where
  "interval_of_sizes b e = (case (b, e) of
       (Some b, Some e) \<Rightarrow> Interval (i64_of_size b) (i64_of_size e)
     | _ \<Rightarrow> default_interval)"

definition target_anchor_interval :: "'x lattice_target_spec_scheme \<Rightarrow> anchor_interval" where
  "target_anchor_interval spec = interval_of_sizes (ts_anchor_index_begin spec) (ts_anchor_index_end spec)"

definition forbidden_exposure_interval :: "'x lattice_target_spec_scheme \<Rightarrow> anchor_interval" where
  "forbidden_exposure_interval spec =
     interval_of_sizes (ts_forbid_anchor_index_begin spec) (ts_forbid_anchor_index_end spec)"

definition warning_anchor_interval :: "'x lattice_target_spec_scheme \<Rightarrow> lattice_warning_spec \<Rightarrow> anchor_interval" where
  "warning_anchor_interval spec w =
     (if lw_anchor_index_begin w \<noteq> None \<and> lw_anchor_index_end w \<noteq> None then
        interval_of_sizes (lw_anchor_index_begin w) (lw_anchor_index_end w)
      else target_anchor_interval spec)"

definition split_purge_policy_enabled :: "string \<Rightarrow> bool" where
  "split_purge_policy_enabled raw =
     (let v = lowercase (trim raw) in
      v = [] \<or> v = ''auto_from_hx'' \<or> v = ''auto_from_hf'' \<or> v = ''auto'')"

text \<open>
  The source adds the dilation to a signed 64-bit end without a check; an end that leaves the range is undefined
  there, and the sum here.
\<close>

definition expanded_forbidden_exposure_interval ::
  "'x lattice_target_spec_scheme \<Rightarrow> lattice_split_policy \<Rightarrow> 'y lattice_exposure_fact_scheme list \<Rightarrow> anchor_interval"
where
  "expanded_forbidden_exposure_interval spec policy facts =
     (let out = forbidden_exposure_interval spec in
      if ai_empty out \<or> ts_forbid_split spec = [] then out
      else let left_context = foldl (\<lambda>m f. max m (left_context_rows_for_fact f)) 0 facts;
               right_future = foldl (\<lambda>m f. max m (right_future_rows_for_fact f)) 0 facts
        in Interval
          (if split_purge_policy_enabled (po_purge_left_context policy)
           then ai_begin out - left_context else ai_begin out)
          (if split_purge_policy_enabled (po_purge_right_future policy)
           then ai_end out + right_future else ai_end out))"

section \<open>The leakage gate\<close>

record leakage_proof =
  lk_checked :: bool
  lk_split_name :: string
  lk_base_range :: anchor_interval
  lk_protected_range :: anchor_interval
  lk_dilation_left :: int
  lk_dilation_right :: int
  lk_forbidden_uses :: "string list"
  lk_require_mutated_component :: bool
  lk_overlap_found :: bool
  lk_overlap_witnesses :: "forbidden_exposure_overlap list"
  lk_passed :: bool

definition default_leakage_proof :: leakage_proof where
  "default_leakage_proof = \<lparr>lk_checked = False, lk_split_name = [], lk_base_range = default_interval,
     lk_protected_range = default_interval, lk_dilation_left = 0, lk_dilation_right = 0,
     lk_forbidden_uses = [], lk_require_mutated_component = True, lk_overlap_found = False,
     lk_overlap_witnesses = [], lk_passed = True\<rparr>"

definition forbidden_use_names :: "exposure_use list \<Rightarrow> string list" where
  "forbidden_use_names us = map exposure_use_name us"

text \<open>
  The proof it records and, when the check fails, the reason pushed. \<open>closure\<close> holds the facts of
  the checkpoint's closure when it was checked.
\<close>

definition leakage_gate ::
  "'y lattice_exposure_fact_scheme ledger_env \<Rightarrow> 'x lattice_target_spec_scheme \<Rightarrow> lattice_split_policy option \<Rightarrow>
   'y lattice_exposure_fact_scheme list \<Rightarrow> 'y lattice_exposure_fact_scheme list option \<Rightarrow>
   leakage_proof \<times> string option"
where
  "leakage_gate env spec split_policy facts closure =
     (let base = forbidden_exposure_interval spec;
          range = (case split_policy of
              Some policy \<Rightarrow> expanded_forbidden_exposure_interval spec policy facts
            | None \<Rightarrow> base)
      in if ai_empty range then (default_leakage_proof, None)
         else let forbidden_facts = (case closure of Some fs \<Rightarrow> fs | None \<Rightarrow> facts);
                  query = \<lparr>forbidden_range = range, forbidden_uses = ts_forbid_exposure_uses spec,
                    require_mutated_component = ts_forbid_requires_mutated_component spec\<rparr>;
                  witnesses = forbidden_exposure_overlaps env forbidden_facts query;
                  overlap = (witnesses \<noteq> []);
                  base_range = (if ai_empty base then range else base)
           in (\<lparr>lk_checked = True, lk_split_name = ts_forbid_split spec, lk_base_range = base_range,
                lk_protected_range = range,
                lk_dilation_left = (if ai_empty base_range then 0
                  else max 0 (ai_begin base_range - ai_begin range)),
                lk_dilation_right = (if ai_empty base_range then 0
                  else max 0 (ai_end range - ai_end base_range)),
                lk_forbidden_uses = forbidden_use_names (ts_forbid_exposure_uses spec),
                lk_require_mutated_component = ts_forbid_requires_mutated_component spec,
                lk_overlap_found = overlap, lk_overlap_witnesses = witnesses, lk_passed = \<not> overlap\<rparr>,
               if overlap then Some (''checkpoint exposure overlaps forbidden anchor range ['' @
                   show_int (ai_begin range) @ '', '' @ show_int (ai_end range) @ '')'')
               else None))"

section \<open>Numbers\<close>

lemma i64_of_size_of_i64: "in_int64 i \<Longrightarrow> i64_of_size (size_of_i64 i) = i"
proof -
  assume "in_int64 i"
  then have "signed_take_bit 63 i = i" by (intro signed_take_bit_int_eq_self) (simp_all add: int64_defs)
  then show ?thesis by (simp add: i64_of_size_def size_of_i64_def sint_sbintrunc')
qed

lemma digits_value_ge: "acc \<le> digits_value acc ds"
proof (induction ds arbitrary: acc)
  case (Cons d ds)
  have "acc \<le> 10 * acc + (chr_code d - 48)" by simp
  then show ?case using Cons [of "10 * acc + (chr_code d - 48)"] by simp
qed simp

lemma accepted_digits_eq:
  "int v \<le> int64_max \<Longrightarrow> accepted_digits (int v) ds =
    (if list_all is_digit ds \<and> int (digits_value v ds) \<le> int64_max then Some (int (digits_value v ds)) else None)"
proof (induction ds arbitrary: v)
  case (Cons d ds)
  let ?w = "10 * v + (chr_code d - 48)"
  show ?case
  proof (cases "is_digit d")
    case True
    then have digit: "int (chr_code d) - 48 = int (chr_code d - 48)" "chr_code d - 48 \<le> 9"
      unfolding is_digit_def by linarith+
    have guard: "int v > (int64_max - int (chr_code d - 48)) div 10 \<longleftrightarrow> int ?w > int64_max"
    proof -
      have "(M - x) div 10 < y \<longleftrightarrow> M < 10 * y + x" for M x y :: int
      proof -
        have "M - x = 10 * ((M - x) div 10) + (M - x) mod 10" "0 \<le> (M - x) mod 10" "(M - x) mod 10 < 10"
          by simp_all
        then show ?thesis by linarith
      qed
      then show ?thesis by (simp only: of_nat_add of_nat_mult of_nat_numeral)
    qed
    have next_v: "int v * 10 + int (chr_code d - 48) = int ?w" by simp
    have step: "accepted_digits (int v) (d # ds) =
        (if int ?w > int64_max then None else accepted_digits (int ?w) ds)"
      by (simp only: accepted_digits.simps Let_def digit(1) guard next_v True not_True_eq_False if_False)
    show ?thesis
    proof (cases "int ?w > int64_max")
      case True
      then have "\<not> int (digits_value v (d # ds)) \<le> int64_max"
        using digits_value_ge [of ?w ds] by simp
      with True show ?thesis by (simp only: step if_True simp_thms if_False)
    next
      case False
      then have "int ?w \<le> int64_max" by simp
      from Cons.IH [OF this] False \<open>is_digit d\<close> show ?thesis
        by (simp only: step if_False list.pred_inject digits_value.simps simp_thms)
    qed
  qed simp
qed simp

lemma foldl_max_ge: "(m :: int) \<le> foldl (\<lambda>m f. max m (g f)) m fs"
  "f \<in> set fs \<Longrightarrow> g f \<le> foldl (\<lambda>m f. max m (g f)) m fs"
proof (induction fs arbitrary: m)
  case (Cons x fs)
  {
    case 1
    show ?case using Cons(1) [of "max m (g x)"] by simp
  next
    case 2
    then show ?case using Cons(1) [of "max m (g x)"] Cons(2) [of "max m (g x)"] by auto
  }
qed simp_all

section \<open>References\<close>

lemma throw_target_simps [simp]: "throw_target m \<noteq> Inr x" "Inr x \<noteq> throw_target m"
  by (simp_all add: throw_target_def)

lemma resolve_train_keeps:
  "resolve_train_split p n spec = Inr spec' \<Longrightarrow> ts_forbid_split spec' = ts_forbid_split spec \<and>
    ts_forbid_uses_from_split_policy spec' = ts_forbid_uses_from_split_policy spec"
  by (auto simp: resolve_train_split_def rbind_Inr_iff split: if_splits option.splits)

lemma resolve_forbid_split_Inr:
  assumes "resolve_forbid_split p n spec = Inr spec'" "ts_forbid_split spec \<noteq> []"
  obtains s m where "find_lattice_split p (ts_forbid_split spec) = Some s"
    "materialized_split_for_reference s n = Inr m"
    "ts_forbid_anchor_index_begin spec' = Some (size_of_i64 (ai_begin (ls_anchor_range m)))"
    "ts_forbid_anchor_index_end spec' = Some (size_of_i64 (ai_end (ls_anchor_range m)))"
    "ts_forbid_split spec' = ts_forbid_split spec"
    "ts_forbid_uses_from_split_policy spec \<Longrightarrow> ts_forbid_exposure_uses spec' = ls_protect_from_uses s \<and>
      ts_forbid_requires_mutated_component spec' = ls_protect_requires_mutated_component s"
proof -
  obtain s where s: "find_lattice_split p (ts_forbid_split spec) = Some s"
    using assms by (auto simp: resolve_forbid_split_def split: option.splits)
  with assms obtain m spec1 where m: "materialized_split_for_reference s n = Inr m"
    and spec1: "resolve_forbidden_uses s spec = Inr spec1"
    and spec': "spec' = spec1\<lparr>ts_forbid_anchor_index_begin := Some (size_of_i64 (ai_begin (ls_anchor_range m))),
      ts_forbid_anchor_index_end := Some (size_of_i64 (ai_end (ls_anchor_range m)))\<rparr>"
    by (auto simp: resolve_forbid_split_def rbind_Inr_iff)
  have "ts_forbid_split spec1 = ts_forbid_split spec"
    "ts_forbid_uses_from_split_policy spec \<Longrightarrow> ts_forbid_exposure_uses spec1 = ls_protect_from_uses s \<and>
      ts_forbid_requires_mutated_component spec1 = ls_protect_requires_mutated_component s"
    using spec1 by (auto simp: resolve_forbidden_uses_def split: if_splits)
  with s m show thesis by (intro that [of s m]) (simp_all add: spec')
qed

lemma resolve_references_forbid:
  assumes "resolve_split_references spec (Some p) n = Inr spec'" "ts_forbid_split spec \<noteq> []"
  obtains s m where "find_lattice_split p (ts_forbid_split spec) = Some s"
    "materialized_split_for_reference s n = Inr m"
    "ts_forbid_anchor_index_begin spec' = Some (size_of_i64 (ai_begin (ls_anchor_range m)))"
    "ts_forbid_anchor_index_end spec' = Some (size_of_i64 (ai_end (ls_anchor_range m)))"
    "ts_forbid_split spec' = ts_forbid_split spec"
    "ts_forbid_uses_from_split_policy spec \<Longrightarrow> ts_forbid_exposure_uses spec' = ls_protect_from_uses s \<and>
      ts_forbid_requires_mutated_component spec' = ls_protect_requires_mutated_component s"
proof -
  from assms obtain spec1 spec2 ws where 1: "resolve_train_split p n spec = Inr spec1"
    and 2: "resolve_forbid_split p n spec1 = Inr spec2" and 3: "spec' = spec2\<lparr>ts_warning_specs := ws\<rparr>"
    by (auto simp: resolve_split_references_def rbind_Inr_iff simp del: map_res_Inr_iff)
  note keep = resolve_train_keeps [OF 1]
  then have "ts_forbid_split spec1 \<noteq> []" using assms(2) by simp
  from resolve_forbid_split_Inr [OF 2 this] obtain s m where
    "find_lattice_split p (ts_forbid_split spec1) = Some s"
    "materialized_split_for_reference s n = Inr m"
    "ts_forbid_anchor_index_begin spec2 = Some (size_of_i64 (ai_begin (ls_anchor_range m)))"
    "ts_forbid_anchor_index_end spec2 = Some (size_of_i64 (ai_end (ls_anchor_range m)))"
    "ts_forbid_split spec2 = ts_forbid_split spec1"
    "ts_forbid_uses_from_split_policy spec1 \<Longrightarrow> ts_forbid_exposure_uses spec2 = ls_protect_from_uses s \<and>
      ts_forbid_requires_mutated_component spec2 = ls_protect_requires_mutated_component s"
    by blast
  then show thesis using keep by (intro that [of s m]) (simp_all add: 3)
qed

lemma resolve_forbid_keeps:
  "resolve_forbid_split p n spec = Inr spec' \<Longrightarrow> ts_anchor_index_begin spec' = ts_anchor_index_begin spec \<and>
    ts_anchor_index_end spec' = ts_anchor_index_end spec \<and> ts_source_range spec' = ts_source_range spec"
  by (auto simp: resolve_forbid_split_def resolve_forbidden_uses_def rbind_Inr_iff split: if_splits option.splits)

lemma resolve_references_train:
  assumes "resolve_split_references spec (Some p) n = Inr spec'" "ts_train_split spec \<noteq> []"
  obtains s m where "find_lattice_split p (ts_train_split spec) = Some s"
    "materialized_split_for_reference s n = Inr m" "ts_source_range spec' = ''anchor_index''"
    "ts_anchor_index_begin spec' = Some (size_of_i64 (ai_begin (ls_anchor_range m)))"
    "ts_anchor_index_end spec' = Some (size_of_i64 (ai_end (ls_anchor_range m)))"
proof -
  from assms obtain spec1 spec2 ws where 1: "resolve_train_split p n spec = Inr spec1"
    and 2: "resolve_forbid_split p n spec1 = Inr spec2" and 3: "spec' = spec2\<lparr>ts_warning_specs := ws\<rparr>"
    by (auto simp: resolve_split_references_def rbind_Inr_iff simp del: map_res_Inr_iff)
  obtain s m where "find_lattice_split p (ts_train_split spec) = Some s"
    "materialized_split_for_reference s n = Inr m"
    "spec1 = spec\<lparr>ts_source_range := ''anchor_index'',
      ts_anchor_index_begin := Some (size_of_i64 (ai_begin (ls_anchor_range m))),
      ts_anchor_index_end := Some (size_of_i64 (ai_end (ls_anchor_range m)))\<rparr>"
    using 1 assms(2) by (auto simp: resolve_train_split_def rbind_Inr_iff split: option.splits)
  with resolve_forbid_keeps [OF 2] show thesis by (intro that [of s m]) (simp_all add: 3)
qed

definition lattice_split_ok :: "lattice_split \<Rightarrow> bool" where
  "lattice_split_ok s \<longleftrightarrow> split_ok (source_split_intent s) \<and>
     (anchor_range_materialized s \<longrightarrow> selector_kind (source_split_intent s) = AnchorIndexRange \<and>
       ls_anchor_range s = Interval (sai_begin (anchor_range (source_split_intent s)))
         (sai_end (anchor_range (source_split_intent s))))"

lemma bound_split_ok:
  assumes "decode_source_split_catalog_from_dsl ct = Inr c" "decode_lattice_split_policy_from_dsl pt c = Inr p"
    and "s \<in> set (po_splits p)"
  shows "lattice_split_ok s"
proof -
  have c: "unique_split_ids c" "list_all split_ok (splits c)"
    using assms(1) decode_loop_ok
    by (fastforce simp: decode_source_split_catalog_from_dsl_def res_simps decode_state_ok_def split: if_splits)+
  from assms(2) obtain ov where ov: "decode_lattice_split_policy_overlay_from_dsl pt = Inr ov"
    and b: "bind_lattice_split_policy_to_source_catalog ov c = Inr p"
    by (auto simp: decode_lattice_split_policy_from_dsl_def rbind_Inr_iff)
  from b have "po_splits p = map (\<lambda>s. protect_by (ov_protections ov) (bind_split s)) (splits c)"
    by (simp add: bind_iff [OF c(1) decode_overlay_unique [OF ov]])
  with assms(3) obtain t where "t \<in> set (splits c)" "s = protect_by (ov_protections ov) (bind_split t)"
    by auto
  with c(2) show ?thesis
    by (auto simp: lattice_split_ok_def list_all_iff bind_split_def Let_def)
qed

lemma reference_range:
  assumes "lattice_split_ok s" "materialized_split_for_reference s (Some n) = Inr m" "n \<le> int64_max"
  shows "ai_begin (ls_anchor_range m) < ai_end (ls_anchor_range m) \<and>
    in_int64 (ai_begin (ls_anchor_range m)) \<and> in_int64 (ai_end (ls_anchor_range m))"
proof (cases "anchor_range_materialized s")
  case True
  with assms(1,2) show ?thesis
    by (auto simp: lattice_split_ok_def materialized_split_for_reference_def split_ok_def sai_length_def
        int64_defs)
next
  case False
  with assms(2) obtain r where r: "materialize_source_split_range (source_split_intent s) n = Inr r"
    and m: "ls_anchor_range m = Interval (sai_begin r) (sai_end r)"
    by (auto simp: materialized_split_for_reference_def materialize_lattice_split_def rbind_Inr_iff)
  show ?thesis
  proof (cases "0 < n")
    case True
    from materialize_range_bounds [OF _ True assms(3) r] assms(1,3) show ?thesis
      by (auto simp: m lattice_split_ok_def int64_defs)
  next
    case False
    with r assms(1) show ?thesis
      by (auto simp: m materialize_source_split_range_def lattice_split_ok_def split_ok_def sai_length_def
          int64_defs split: if_splits)
  qed
qed

section \<open>The protected range\<close>

lemma expanded_contains:
  assumes "ai_begin (forbidden_exposure_interval spec) < ai_end (forbidden_exposure_interval spec)"
  shows "ai_begin (expanded_forbidden_exposure_interval spec p facts) \<le> ai_begin (forbidden_exposure_interval spec)"
    and "ai_end (forbidden_exposure_interval spec) \<le> ai_end (expanded_forbidden_exposure_interval spec p facts)"
  using foldl_max_ge(1) [of 0 left_context_rows_for_fact facts]
    foldl_max_ge(1) [of 0 right_future_rows_for_fact facts]
  by (simp_all add: expanded_forbidden_exposure_interval_def Let_def)

lemma leakage_gate_passed:
  assumes "leakage_gate env spec (Some p) facts closure = (proof', None)"
    and "ai_begin (forbidden_exposure_interval spec) < ai_end (forbidden_exposure_interval spec)"
  shows "lk_checked proof' \<and> lk_passed proof' \<and>
    \<not> has_forbidden_exposure_overlap env (case closure of Some fs \<Rightarrow> fs | None \<Rightarrow> facts)
      \<lparr>forbidden_range = expanded_forbidden_exposure_interval spec p facts,
       forbidden_uses = ts_forbid_exposure_uses spec,
       require_mutated_component = ts_forbid_requires_mutated_component spec\<rparr>"
proof -
  have "\<not> ai_empty (expanded_forbidden_exposure_interval spec p facts)"
    using expanded_contains [OF assms(2), of p facts] assms(2) by (simp add: ai_empty_def)
  with assms(1) show ?thesis
    by (auto simp: leakage_gate_def Let_def has_forbidden_exposure_overlap_def split: if_splits)
qed

lemma no_overlap_disjoint:
  assumes "\<not> has_forbidden_exposure_overlap env facts query"
    and "f \<in> set facts" "u \<in> set (forbidden_uses query)"
    and "require_mutated_component query \<longrightarrow> us_mutated_component (ef_use f)" "fact_has_use f u"
    and "\<not> ai_empty (anchor_coverage_for_use f u)" "in_interval (source_footprint_for_use f u) i"
  shows "\<not> in_interval (forbidden_range query) i"
proof
  assume i: "in_interval (forbidden_range query) i"
  then have "forbidden_overlap_for_use env query f u \<noteq> []"
    using assms(5-7) by (auto simp: forbidden_for_use_Nil ai_empty_iff in_intersection)
  with assms(1-4) show False
    unfolding has_forbidden_exposure_overlap_def overlaps_nonempty_iff by blast
qed

section \<open>Properties\<close>

definition example_target :: lattice_target_spec where
  "example_target = default_target_spec\<lparr>ts_component := ''encoder'', ts_checkpoint_source := ''latest_satisfying: base'',
     ts_train_split := ''a'', ts_forbid_split := ''b'', ts_forbid_uses_from_split_policy := True\<rparr>"

definition example_resolved :: lattice_target_spec where
  "example_resolved = example_target\<lparr>ts_source_range := ''anchor_index'',
     ts_anchor_index_begin := Some 0, ts_anchor_index_end := Some 4,
     ts_forbid_anchor_index_begin := Some 7, ts_forbid_anchor_index_end := Some 9,
     ts_forbid_exposure_uses := [ObservedInput, TargetSupervision],
     ts_forbid_uses_from_split_policy := False\<rparr>"

lemma example_policy_decoded: "decode_lattice_split_policy_from_dsl example_policy_text example_catalog = Inr example_policy"
  by (simp add: decode_lattice_split_policy_from_dsl_def example_overlay_decoded example_policy_bound)

lemma example_target_resolved: "resolve_split_references example_target (Some example_policy) (Some 9) = Inr example_resolved"
proof -
  have a: "find_lattice_split example_policy ''a'' = Some (bind_split example_split_a)"
    and b: "find_lattice_split example_policy ''b'' = Some ((bind_split example_split_b)\<lparr>ls_allow_uses := [EvaluationMetric],
         ls_protect_from_uses := [ObservedInput, TargetSupervision]\<rparr>)"
    by (simp_all add: find_lattice_split_def example_policy_def example_split_a_def example_split_b_def)
  have ma: "materialized_split_for_reference (bind_split example_split_a) (Some 9) =
      Inr ((bind_split example_split_a)\<lparr>ls_anchor_range := Interval 0 4, anchor_range_materialized := True\<rparr>)"
    by code_simp
  have mb: "materialized_split_for_reference ((bind_split example_split_b)\<lparr>ls_allow_uses := [EvaluationMetric],
         ls_protect_from_uses := [ObservedInput, TargetSupervision]\<rparr>) (Some 9) =
      Inr ((bind_split example_split_b)\<lparr>ls_allow_uses := [EvaluationMetric],
         ls_protect_from_uses := [ObservedInput, TargetSupervision]\<rparr>)"
    by code_simp
  show ?thesis
    by (simp add: resolve_split_references_def resolve_train_split_def resolve_forbid_split_def
        resolve_forbidden_uses_def example_target_def default_target_spec_def example_resolved_def a b ma mb size_of_i64_def)
      (simp add: bind_split_def example_split_b_def default_split_def Let_def)
qed

text \<open>
  C1: a target that protects a split trains without leakage. Take a policy decoded from its text
  and bound to a decoded catalog, and a target whose forbidden split takes its uses from the
  policy. Once its references are resolved and the leakage gate raises no objection, the check
  has really been made, the protected split has a non-empty range of anchors, and no fact with a
  completed coverage and a use the split is protected from (with a mutated component, where the
  policy asks for one) has an anchor of that range in its source footprint, nor an anchor the
  purge policy adds around it.
\<close>

theorem protected_split_never_leaks:
  assumes "decode_source_split_catalog_from_dsl catalog_text = Inr c"
    and "decode_lattice_split_policy_from_dsl policy_text c = Inr p"
    and "n \<le> int64_max" "resolve_split_references spec (Some p) (Some n) = Inr spec'"
    and "ts_forbid_split spec \<noteq> []" "ts_forbid_uses_from_split_policy spec"
    and "leakage_gate env spec' (Some p) facts closure = (proof', None)"
    and "f \<in> set (case closure of Some fs \<Rightarrow> fs | None \<Rightarrow> facts)"
    and "find_lattice_split p (ts_forbid_split spec) = Some s" "u \<in> set (ls_protect_from_uses s)"
    and "ls_protect_requires_mutated_component s \<longrightarrow> us_mutated_component (ef_use f)"
    and "fact_has_use f u" "\<not> ai_empty (anchor_coverage_for_use f u)"
    and "in_interval (source_footprint_for_use f u) i"
  shows "lk_checked proof' \<and> (\<exists>m. materialized_split_for_reference s (Some n) = Inr m \<and>
    \<not> ai_empty (ls_anchor_range m) \<and> \<not> in_interval (ls_anchor_range m) i \<and>
    \<not> in_interval (expanded_forbidden_exposure_interval spec' p facts) i)"
proof -
  from resolve_references_forbid [OF assms(4,5)] obtain s' m where
    s': "find_lattice_split p (ts_forbid_split spec) = Some s'"
    and m: "materialized_split_for_reference s' (Some n) = Inr m"
    and range: "ts_forbid_anchor_index_begin spec' = Some (size_of_i64 (ai_begin (ls_anchor_range m)))"
      "ts_forbid_anchor_index_end spec' = Some (size_of_i64 (ai_end (ls_anchor_range m)))"
    and uses: "ts_forbid_exposure_uses spec' = ls_protect_from_uses s'"
      "ts_forbid_requires_mutated_component spec' = ls_protect_requires_mutated_component s'"
    using assms(6) by blast
  have s: "s' = s" using s' assms(9) by simp
  have "s \<in> set (po_splits p)" using policy_lookup.lookup_sound [OF assms(9)] by blast
  then have "lattice_split_ok s" by (rule bound_split_ok [OF assms(1,2)])
  note r = reference_range [OF this m [unfolded s] assms(3)]
  then have base: "forbidden_exposure_interval spec' = ls_anchor_range m"
    by (simp add: forbidden_exposure_interval_def interval_of_sizes_def range i64_of_size_of_i64)
  have pos: "ai_begin (forbidden_exposure_interval spec') < ai_end (forbidden_exposure_interval spec')"
    using r by (simp add: base)
  note gate = leakage_gate_passed [OF assms(7) pos]
  let ?q = "\<lparr>forbidden_range = expanded_forbidden_exposure_interval spec' p facts,
    forbidden_uses = ts_forbid_exposure_uses spec',
    require_mutated_component = ts_forbid_requires_mutated_component spec'\<rparr>"
  have "\<not> in_interval (forbidden_range ?q) i"
    by (rule no_overlap_disjoint [of env _ ?q f u i])
      (use gate assms(8,10-14) in \<open>simp_all add: uses s\<close>)
  then have "\<not> in_interval (expanded_forbidden_exposure_interval spec' p facts) i" by simp
  moreover from this have "\<not> in_interval (ls_anchor_range m) i"
    using expanded_contains [OF pos, of p facts] by (auto simp: in_interval_def base)
  ultimately show ?thesis using gate m r by (auto simp: s ai_empty_def)
qed

theorem protected_split_never_leaks_witness:
  "\<exists>m. materialized_split_for_reference ((bind_split example_split_b)\<lparr>ls_allow_uses := [EvaluationMetric],
       ls_protect_from_uses := [ObservedInput, TargetSupervision]\<rparr>) (Some 9) = Inr m \<and>
     \<not> in_interval (ls_anchor_range m) 3"
proof -
  let ?env = "\<lparr>exposure_fact_digest = ef_job_id, selection_event_digest_of = \<lambda>_. [], selected_checkpoint_of = \<lambda>_. []\<rparr>"
  let ?f = "example_fact ''j1'' 0 4"
  let ?s = "(bind_split example_split_b)\<lparr>ls_allow_uses := [EvaluationMetric],
         ls_protect_from_uses := [ObservedInput, TargetSupervision]\<rparr>"
  have n: "(9 :: int) \<le> int64_max" by (simp add: int64_max_def)
  have t: "ts_forbid_split example_target \<noteq> []" "ts_forbid_uses_from_split_policy example_target"
    by (simp_all add: example_target_def default_target_spec_def)
  have "split_purge_policy_enabled ''auto_from_Hx''" "split_purge_policy_enabled ''auto_from_Hf''"
    by code_simp+
  then have purge: "split_purge_policy_enabled (po_purge_left_context example_policy)"
    "split_purge_policy_enabled (po_purge_right_future example_policy)"
    by (simp_all add: example_policy_def)
  have e: "expanded_forbidden_exposure_interval example_resolved example_policy [?f] = Interval 7 9"
  proof -
    have b: "forbidden_exposure_interval example_resolved = Interval 7 9"
      by (simp add: forbidden_exposure_interval_def interval_of_sizes_def example_resolved_def
          example_target_def default_target_spec_def i64_of_size_def)
    have "left_context_rows_for_fact ?f = 0" "right_future_rows_for_fact ?f = 0" by code_simp+
    then show ?thesis
      by (simp add: expanded_forbidden_exposure_interval_def purge b Let_def)
  qed
  have o: "forbidden_exposure_overlaps ?env [?f] \<lparr>forbidden_range = Interval 7 9,
      forbidden_uses = ts_forbid_exposure_uses example_resolved,
      require_mutated_component = ts_forbid_requires_mutated_component example_resolved\<rparr> = []"
    by code_simp
  obtain pr where g: "leakage_gate ?env example_resolved (Some example_policy) [?f] None = (pr, None)"
    by (simp add: leakage_gate_def e o Let_def ai_empty_def)
  have f: "?f \<in> set (case None of Some fs \<Rightarrow> fs | None \<Rightarrow> [?f])" by simp
  have s: "find_lattice_split example_policy (ts_forbid_split example_target) = Some ?s"
    by (simp add: find_lattice_split_def example_policy_def example_target_def default_target_spec_def example_split_a_def example_split_b_def)
  have u: "ObservedInput \<in> set (ls_protect_from_uses ?s)"
    "ls_protect_requires_mutated_component ?s \<longrightarrow> us_mutated_component (ef_use ?f)"
    "fact_has_use ?f ObservedInput" "\<not> ai_empty (anchor_coverage_for_use ?f ObservedInput)"
    "in_interval (source_footprint_for_use ?f ObservedInput) 3"
    by code_simp+
  show ?thesis
    using protected_split_never_leaks [OF example_catalog_decoded example_policy_decoded n
        example_target_resolved t g f s u] by blast
qed

lemma reference_fraction:
  assumes "lattice_split_ok s" "selector_kind (source_split_intent s) = FractionRange"
    and "materialized_split_for_reference s (Some n) = Inr m"
  obtains r where "materialize_source_split_range (source_split_intent s) n = Inr r"
    "ls_anchor_range m = Interval (sai_begin r) (sai_end r)" "0 < n"
proof -
  have "\<not> anchor_range_materialized s" using assms(1,2) by (auto simp: lattice_split_ok_def)
  with assms(3) obtain r where "materialize_source_split_range (source_split_intent s) n = Inr r"
    "ls_anchor_range m = Interval (sai_begin r) (sai_end r)"
    by (auto simp: materialized_split_for_reference_def materialize_lattice_split_def rbind_Inr_iff)
  with assms(2) show thesis
    by (intro that) (auto simp: materialize_source_split_range_def split: if_splits)
qed

definition example_fraction_text :: string where
  "example_fraction_text =
    ''UJCAMEI_SOURCE_SPLIT_CATALOG{CATALOG_ID=c;}UJCAMEI_SOURCE_SPLIT{SPLIT_ID=a;ROLE=train;BEGIN_FRACTION=0/4;END_FRACTION=2/4;}UJCAMEI_SOURCE_SPLIT{SPLIT_ID=b;ROLE=test;BEGIN_FRACTION=1/2;END_FRACTION=1/1;}''"

definition example_fraction_b :: source_split where
  "example_fraction_b = default_split\<lparr>split_id := ''b'', split_role := RoleTest, selector_kind := FractionRange,
     fraction_range := \<lparr>frac_begin = \<lparr>numerator = 1, denominator = 2\<rparr>,
       frac_end = \<lparr>numerator = 1, denominator = 1\<rparr>\<rparr>\<rparr>"

definition example_fractions :: source_split_catalog where
  "example_fractions = default_catalog\<lparr>catalog_id := ''c'', splits := [example_split_a, example_fraction_b]\<rparr>"

definition example_fraction_policy :: lattice_split_policy where
  "example_fraction_policy = example_policy\<lparr>
     po_source_split_catalog_fingerprint := source_split_catalog_fingerprint example_fractions,
     po_splits := [bind_split example_split_a,
       (bind_split example_fraction_b)\<lparr>ls_allow_uses := [EvaluationMetric],
         ls_protect_from_uses := [ObservedInput, TargetSupervision]\<rparr>]\<rparr>"

lemma example_fractions_decoded:
  "decode_source_split_catalog_from_dsl example_fraction_text = Inr example_fractions"
  by code_simp

lemma example_fraction_policy_decoded:
  "decode_lattice_split_policy_from_dsl example_policy_text example_fractions = Inr example_fraction_policy"
proof -
  have u: "unique_protections example_overlay"
    using example_overlay_decoded by (rule decode_overlay_unique)
  have c: "unique_split_ids example_fractions" by code_simp
  have ss: "map (\<lambda>s. protect_by (ov_protections example_overlay) (bind_split s)) (splits example_fractions) =
      po_splits example_fraction_policy"
    by (simp add: example_fraction_policy_def) code_simp
  show ?thesis
    unfolding decode_lattice_split_policy_from_dsl_def example_overlay_decoded rbind.simps bind_iff [OF c u] ss
    by (simp add: example_fraction_policy_def example_policy_def example_overlay_def default_overlay_def
        example_fractions_def default_catalog_def graph_anchor_domain_def example_split_a_def
        example_fraction_b_def)
qed

lemma example_fractions_resolved:
  "resolve_split_references example_target (Some example_fraction_policy) (Some 9) =
    Inr (example_resolved\<lparr>ts_forbid_anchor_index_begin := Some 4\<rparr>)"
proof -
  have a: "find_lattice_split example_fraction_policy ''a'' = Some (bind_split example_split_a)"
    and b: "find_lattice_split example_fraction_policy ''b'' = Some ((bind_split example_fraction_b)\<lparr>ls_allow_uses := [EvaluationMetric],
         ls_protect_from_uses := [ObservedInput, TargetSupervision]\<rparr>)"
    by (simp_all add: find_lattice_split_def example_fraction_policy_def example_policy_def
        example_split_a_def example_fraction_b_def)
  have ma: "materialized_split_for_reference (bind_split example_split_a) (Some 9) =
      Inr ((bind_split example_split_a)\<lparr>ls_anchor_range := Interval 0 4, anchor_range_materialized := True\<rparr>)"
    by code_simp
  have mb: "materialized_split_for_reference ((bind_split example_fraction_b)\<lparr>ls_allow_uses := [EvaluationMetric],
         ls_protect_from_uses := [ObservedInput, TargetSupervision]\<rparr>) (Some 9) =
      Inr ((bind_split example_fraction_b)\<lparr>ls_allow_uses := [EvaluationMetric],
         ls_protect_from_uses := [ObservedInput, TargetSupervision], ls_anchor_range := Interval 4 9,
         anchor_range_materialized := True\<rparr>)"
    by code_simp
  show ?thesis
    by (simp add: resolve_split_references_def resolve_train_split_def resolve_forbid_split_def
        resolve_forbidden_uses_def example_target_def default_target_spec_def example_resolved_def a b ma mb size_of_i64_def)
      (simp add: bind_split_def example_fraction_b_def default_split_def Let_def)
qed

text \<open>
  C20: a target whose training split ends, as a fraction, no later than its protected split
  begins is resolved to a training range that ends no later than the protected range begins, on
  any number of anchors: the casts through \<open>size_t\<close> lose nothing and the two ranges have no anchor
  in common.
\<close>

theorem train_range_before_protected_range:
  assumes "decode_source_split_catalog_from_dsl catalog_text = Inr c"
    and "decode_lattice_split_policy_from_dsl policy_text c = Inr p"
    and "n \<le> int64_max" "resolve_split_references spec (Some p) (Some n) = Inr spec'"
    and "find_lattice_split p (ts_train_split spec) = Some s" "ts_train_split spec \<noteq> []"
    and "find_lattice_split p (ts_forbid_split spec) = Some t" "ts_forbid_split spec \<noteq> []"
    and "selector_kind (source_split_intent s) = FractionRange"
    and "selector_kind (source_split_intent t) = FractionRange"
    and "\<not> fraction_less (frac_begin (fraction_range (source_split_intent t)))
      (frac_end (fraction_range (source_split_intent s)))"
  shows "ai_end (target_anchor_interval spec') \<le> ai_begin (forbidden_exposure_interval spec') \<and>
    \<not> ai_empty (target_anchor_interval spec') \<and> \<not> ai_empty (forbidden_exposure_interval spec') \<and>
    \<not> intervals_overlap (target_anchor_interval spec') (forbidden_exposure_interval spec')"
proof -
  obtain ms where ms: "materialized_split_for_reference s (Some n) = Inr ms"
    and train: "ts_anchor_index_begin spec' = Some (size_of_i64 (ai_begin (ls_anchor_range ms)))"
      "ts_anchor_index_end spec' = Some (size_of_i64 (ai_end (ls_anchor_range ms)))"
    using resolve_references_train [OF assms(4,6)] assms(5) by (metis option.inject)
  obtain mt where mt: "materialized_split_for_reference t (Some n) = Inr mt"
    and forbid: "ts_forbid_anchor_index_begin spec' = Some (size_of_i64 (ai_begin (ls_anchor_range mt)))"
      "ts_forbid_anchor_index_end spec' = Some (size_of_i64 (ai_end (ls_anchor_range mt)))"
    using resolve_references_forbid [OF assms(4,8)] assms(7) by (metis option.inject)
  have ok: "lattice_split_ok s" "lattice_split_ok t"
    using bound_split_ok [OF assms(1,2)] policy_lookup.lookup_sound assms(5,7) by blast+
  note rs = reference_range [OF ok(1) ms assms(3)] and rt = reference_range [OF ok(2) mt assms(3)]
  obtain r where r: "materialize_source_split_range (source_split_intent s) n = Inr r"
    "ls_anchor_range ms = Interval (sai_begin r) (sai_end r)" and n: "0 < n"
    using reference_fraction [OF ok(1) assms(9) ms] by blast
  obtain q where q: "materialize_source_split_range (source_split_intent t) n = Inr q"
    "ls_anchor_range mt = Interval (sai_begin q) (sai_end q)"
    using reference_fraction [OF ok(2) assms(10) mt] by blast
  have "sai_end r \<le> sai_begin q"
    using fraction_ranges_ordered [OF _ _ assms(9,10,11) n assms(3) r(1) q(1)] ok
    by (simp add: lattice_split_ok_def)
  moreover have "target_anchor_interval spec' = ls_anchor_range ms"
    using rs by (simp add: target_anchor_interval_def interval_of_sizes_def train i64_of_size_of_i64)
  moreover have "forbidden_exposure_interval spec' = ls_anchor_range mt"
    using rt by (simp add: forbidden_exposure_interval_def interval_of_sizes_def forbid i64_of_size_of_i64)
  ultimately show ?thesis
    using rs rt r(2) q(2) by (auto simp: ai_empty_def intervals_overlap_def)
qed

theorem train_range_before_protected_range_witness:
  "\<not> intervals_overlap (target_anchor_interval example_resolved)
    (forbidden_exposure_interval (example_resolved\<lparr>ts_forbid_anchor_index_begin := Some 4\<rparr>))"
proof -
  have n: "(9 :: int) \<le> int64_max" by (simp add: int64_max_def)
  have t: "ts_train_split example_target \<noteq> []" "ts_forbid_split example_target \<noteq> []"
    by (simp_all add: example_target_def default_target_spec_def)
  have a: "find_lattice_split example_fraction_policy (ts_train_split example_target) = Some (bind_split example_split_a)"
    and b: "find_lattice_split example_fraction_policy (ts_forbid_split example_target) =
      Some ((bind_split example_fraction_b)\<lparr>ls_allow_uses := [EvaluationMetric],
         ls_protect_from_uses := [ObservedInput, TargetSupervision]\<rparr>)"
    by (simp_all add: find_lattice_split_def example_fraction_policy_def example_policy_def
        example_split_a_def example_fraction_b_def example_target_def default_target_spec_def)
  show ?thesis
    using train_range_before_protected_range [OF example_fractions_decoded
        example_fraction_policy_decoded n example_fractions_resolved a t(1) b t(2)]
    by (simp add: example_split_a_def example_fraction_b_def fraction_less_def
        target_anchor_interval_def)
qed

text \<open>
  The number of accepted anchors is read from the first \<open>accepted=\<close> atom of a source cursor
  token, for every positive 64-bit number and whatever atoms surround it; a larger number is
  never truncated: it is reported as missing.
\<close>

theorem accepted_anchor_count_correct:
  "accepted_anchor_count_from_source_cursor_token (''cursor|'' @ ''accepted='' @ show_nat n @ CHR ''|'' # rest) =
    (if 0 < n \<and> int n \<le> int64_max then Some (int n) else None)"
proof -
  have bar: "CHR ''|'' \<notin> set (show_nat n)" by (rule show_nat_no_char) (simp add: is_digit_def chr_code_def)
  have all: "list_all is_digit (show_nat n)" using show_nat_digits by (auto simp: list_all_iff)
  have digits: "accepted_digits 0 (show_nat n) = (if int n \<le> int64_max then Some (int n) else None)"
    using accepted_digits_eq [of 0 "show_nat n"] all by (simp add: int64_max_def)
  have tw: "takeWhile (\<lambda>c. c \<noteq> CHR ''|'') (show_nat n @ CHR ''|'' # rest) = show_nat n"
    using bar by (auto simp: takeWhile_append)
  have "accepted_anchor_count_from_source_cursor_token (''accepted='' @ show_nat n @ CHR ''|'' # rest) =
      (if 0 < n \<and> int n \<le> int64_max then Some (int n) else None)"
    by (subst accepted_anchor_count_from_source_cursor_token.simps)
      (simp add: Let_def tw accepted_prefix_def digits)
  then show ?thesis
    by (subst accepted_anchor_count_from_source_cursor_token.simps)
      (simp add: Let_def accepted_prefix_def)
qed

end
