(* ===== verification/Target_Vocabulary.thy ===== *)
theory Target_Vocabulary
  imports Target_Types
begin

text \<open>
  The vocabulary of the target language of \<open>lattice_target.h\<close>: kinds and classes of targets, aliases of keys,
  dimensions of thresholds, proof templates, scopes, and references to the latest satisfying checkpoint of
  another target.

  Where the code throws on the first of several conditions, \<open>run_checks\<close> takes the list of the conditions
  with their messages.
\<close>

section \<open>Checks and numbers\<close>

type_synonym check = "bool \<times> string"

fun run_checks :: "check list \<Rightarrow> unit result" where
  "run_checks [] = Inr ()"
| "run_checks ((bad, msg) # cs) = (if bad then throw_target msg else run_checks cs)"

lemma run_checks_Inr_iff [res_simps]: "run_checks cs = Inr u \<longleftrightarrow> list_all (\<lambda>(bad, _). \<not> bad) cs"
  by (induction cs rule: run_checks.induct) (auto simp: throw_target_def)

lemma throw_target_neq_Inr [simp]: "throw_target m \<noteq> Inr x" "Inr x \<noteq> throw_target m"
  by (simp_all add: throw_target_def)

text \<open>\<open>std::stod\<close>: the longest prefix that is a number; \<open>kv::parse_double\<close> wants it to be all of the text.\<close>

definition float_syntax :: "string \<Rightarrow> bool" where
  "float_syntax text =
     (let (neg, s) = read_sign text in
      special_float neg s \<noteq> None \<or>
      (if take 2 s = ''0x'' \<or> take 2 s = ''0X'' then hexadecimal_number (drop 2 s) else decimal_number s) \<noteq> None)"

definition stod :: "string \<Rightarrow> (c_float \<times> nat) result" where
  "stod s =
     (case filter float_syntax (map (\<lambda>n. take n s) (rev [0..<Suc (length s)])) of
        [] \<Rightarrow> Inl (InvalidArgument ''stod'')
      | p # _ \<Rightarrow> (case strto_float double_format p of
            None \<Rightarrow> Inl (OutOfRange ''stod'')
          | Some v \<Rightarrow> Inr (v, length p)))"

definition parse_double :: "string \<Rightarrow> c_float result" where
  "parse_double raw =
     (let trimmed = trim raw in
      rbind (stod trimmed) (\<lambda>(out, used).
        if used \<noteq> length trimmed then Inl (RuntimeError (''[simple_kv] invalid double value: '' @ trimmed)) else Inr out))"

lemma strto_float_zero: "strto_float double_format ''0'' = Some (Finite 0)"
proof -
  have "read_sign ''0'' = (False, ''0'')" "special_float False ''0'' = None" "decimal_number ''0'' = Some 0"
    by code_simp+
  then show ?thesis
    by (simp add: strto_float_def round_float_def not_le)
qed

lemma parse_double_zero: "parse_double ''0'' = Inr (Finite 0)"
proof -
  have t: "trim ''0'' = ''0''"
    and f: "filter float_syntax (map (\<lambda>n. take n ''0'') (rev [0..<Suc (length ''0'')])) = [''0'']"
    by code_simp+
  have "stod ''0'' = Inr (Finite 0, 1)"
    unfolding stod_def f by (simp add: strto_float_zero)
  then show ?thesis
    by (simp add: parse_double_def t)
qed

fun is_finite :: "c_float \<Rightarrow> bool" where
  "is_finite (Finite _) = True"
| "is_finite _ = False"

fun float_less :: "c_float \<Rightarrow> c_float \<Rightarrow> bool" where
  "float_less (Finite x) (Finite y) \<longleftrightarrow> x < y"
| "float_less (Finite _) (Infinite neg) \<longleftrightarrow> \<not> neg"
| "float_less (Infinite neg) (Finite _) \<longleftrightarrow> neg"
| "float_less (Infinite a) (Infinite b) \<longleftrightarrow> a \<and> \<not> b"
| "float_less _ _ \<longleftrightarrow> False"

text \<open>\<open>std::max\<close>\<close>

definition float_max :: "c_float \<Rightarrow> c_float \<Rightarrow> c_float" where
  "float_max a b = (if float_less a b then b else a)"

text \<open>\<open>std::floor(value) == value\<close>\<close>

fun is_integral :: "c_float \<Rightarrow> bool" where
  "is_integral (Finite x) \<longleftrightarrow> of_int \<lfloor>x\<rfloor> = x"
| "is_integral (Infinite _) \<longleftrightarrow> True"
| "is_integral NotANumber \<longleftrightarrow> False"

text \<open>A literal of type \<open>double\<close>\<close>

definition double_literal :: "rat \<Rightarrow> c_float" where
  "double_literal q = Finite (round_float double_format q)"

section \<open>Dimensions\<close>

definition finite_dimension :: "c_float \<Rightarrow> string \<Rightarrow> string \<Rightarrow> string \<Rightarrow> check list" where
  "finite_dimension v field unit' tid =
     [(\<not> is_finite v, field @ '' must be a finite '' @ unit' @ '' value for '' @ tid)]"

definition non_negative_dimension :: "c_float \<Rightarrow> string \<Rightarrow> string \<Rightarrow> string \<Rightarrow> check list" where
  "non_negative_dimension v field unit' tid = finite_dimension v field unit' tid @
     [(float_less v (Finite 0), field @ '' must be a non-negative '' @ unit' @ '' value for '' @ tid)]"

text \<open>The minimum comes with its text.\<close>

definition dimension_at_least :: "c_float \<Rightarrow> string \<Rightarrow> string \<Rightarrow> rat \<times> string \<Rightarrow> string \<Rightarrow> check list" where
  "dimension_at_least v field unit' minimum tid = finite_dimension v field unit' tid @
     [(float_less v (Finite (fst minimum)), field @ '' must be a '' @ unit' @ '' value >= '' @ snd minimum @ '' for '' @ tid)]"

definition fraction_dimension :: "c_float \<Rightarrow> string \<Rightarrow> string \<Rightarrow> check list" where
  "fraction_dimension v field tid = finite_dimension v field ''fraction'' tid @
     [(float_less v (Finite 0) \<or> float_less (Finite 1) v, field @ '' must be a fraction in [0, 1] for '' @ tid)]"

definition non_negative_count :: "int \<Rightarrow> string \<Rightarrow> string \<Rightarrow> check list" where
  "non_negative_count v field tid = [(v < 0, field @ '' must be a non-negative count for '' @ tid)]"

definition count_threshold :: "c_float \<Rightarrow> string \<Rightarrow> string \<Rightarrow> check list" where
  "count_threshold v field tid = non_negative_dimension v field ''count'' tid @
     [(\<not> is_integral v, field @ '' must be an integral count threshold for '' @ tid)]"

text \<open>What the checks leave\<close>

definition is_fraction :: "c_float \<Rightarrow> bool" where
  "is_fraction v \<longleftrightarrow> (case v of Finite x \<Rightarrow> 0 \<le> x \<and> x \<le> 1 | _ \<Rightarrow> False)"

lemma fraction_dimension_ok: "list_all (\<lambda>(bad, _). \<not> bad) (fraction_dimension v field tid) \<longleftrightarrow> is_fraction v"
  by (cases v) (auto simp: fraction_dimension_def finite_dimension_def is_fraction_def)

lemma non_negative_count_ok: "list_all (\<lambda>(bad, _). \<not> bad) (non_negative_count n field tid) \<longleftrightarrow> 0 \<le> n"
  by (auto simp: non_negative_count_def)

section \<open>Kinds\<close>

definition lattice_target_kind_name :: "target_kind \<Rightarrow> string" where
  "lattice_target_kind_name k = (case k of Not_Applicable \<Rightarrow> ''not_applicable'' | Vicreg_Ready \<Rightarrow> ''vicreg_ready''
     | Mtf_Representation_Ready \<Rightarrow> ''mtf_representation_ready'' | Channel_Mdn_Ready \<Rightarrow> ''channel_mdn_ready'')"

definition parse_lattice_target_kind :: "string \<Rightarrow> target_kind result" where
  "parse_lattice_target_kind raw =
     (let v = lowercase (trim raw) in
      if v = ''not_applicable'' \<or> v = ''none'' then throw_target (''TARGET_KIND '' @ v @
        '' is internal to artifact_readiness; omit TARGET_KIND for artifact targets'')
      else if v = ''representation_ready'' then throw_target
        ''TARGET_KIND representation_ready was removed from the active vocabulary; use vicreg_ready or mtf_representation_ready''
      else if v = ''node_mdn_ready'' then throw_target
        ''TARGET_KIND node_mdn_ready was removed from the active vocabulary; use channel_mdn_ready''
      else if v = ''vicreg_ready'' then Inr Vicreg_Ready
      else if v = ''mtf_representation_ready'' \<or> v = ''mtf_jepa_mae_vicreg_ready'' then Inr Mtf_Representation_Ready
      else if v = ''channel_mdn_ready'' then Inr Channel_Mdn_Ready
      else throw_target (''invalid TARGET_KIND: '' @ v))"

definition for_kind :: "target_kind \<Rightarrow> 'a \<Rightarrow> 'a \<Rightarrow> 'a \<Rightarrow> 'a result" where
  "for_kind k vicreg mtf mdn = (case k of Not_Applicable \<Rightarrow> throw_target ''target kind is not applicable''
     | Vicreg_Ready \<Rightarrow> Inr vicreg | Mtf_Representation_Ready \<Rightarrow> Inr mtf | Channel_Mdn_Ready \<Rightarrow> Inr mdn)"

definition lattice_target_kind_is_mdn :: "target_kind \<Rightarrow> bool result" where
  "lattice_target_kind_is_mdn k = for_kind k False False True"

definition upstream_representation_component_for_target_kind :: "target_kind \<Rightarrow> string result" where
  "upstream_representation_component_for_target_kind k = for_kind k ''wikimyei.representation.encoding.vicreg''
     ''wikimyei.representation.encoding.vicreg'' ''wikimyei.representation.encoding.vicreg''"

definition default_component_for_target_kind :: "target_kind \<Rightarrow> string result" where
  "default_component_for_target_kind k = for_kind k ''wikimyei.representation.encoding.vicreg''
     ''wikimyei.representation.encoding.mtf_jepa_mae_vicreg'' ''wikimyei.inference.expected_value.mdn''"

definition job_kind_for_target_kind :: "target_kind \<Rightarrow> string result" where
  "job_kind_for_target_kind k = for_kind k ''channel_representation_vicreg''
     ''channel_representation_mtf_jepa_mae_vicreg'' ''channel_inference_mdn''"

definition component_fingerprint_key_for_target_kind :: "target_kind \<Rightarrow> string result" where
  "component_fingerprint_key_for_target_kind k = for_kind k ''vicreg_assembly_fingerprint''
     ''mtf_jepa_mae_vicreg_assembly_fingerprint'' ''mdn_assembly_fingerprint''"

definition lattice_target_kind_is_representation :: "target_kind \<Rightarrow> bool" where
  "lattice_target_kind_is_representation k \<longleftrightarrow> k = Vicreg_Ready \<or> k = Mtf_Representation_Ready"

section \<open>Keys and aliases\<close>

definition has_lattice_key :: "kv_block \<Rightarrow> string \<Rightarrow> bool" where
  "has_lattice_key block key \<longleftrightarrow> kv_values block (uppercase key) \<noteq> None"

text \<open>The value and the warnings, which grow when both names are used.\<close>

definition optional_alias ::
  "kv_block \<Rightarrow> string \<Rightarrow> string \<Rightarrow> string \<Rightarrow> string list \<Rightarrow> string \<Rightarrow> (string \<times> string list) result"
where
  "optional_alias block canonical alias' fallback warnings subject =
     (let both = (has_lattice_key block canonical \<and> has_lattice_key block alias') in
      if both \<and> trim (kv_optional block canonical []) \<noteq> trim (kv_optional block alias' []) then
        throw_target (subject @ '' mixes '' @ canonical @ '' and '' @ alias' @ '' with different values'')
      else Inr (if has_lattice_key block alias' then kv_optional block alias' fallback else kv_optional block canonical fallback,
        if both then warnings @ [''[lattice_target] '' @ subject @ '' specifies both '' @ canonical @ '' and alias '' @ alias' @
          ''; prefer '' @ alias'] else warnings))"

definition optional_i64_alias ::
  "kv_block \<Rightarrow> string \<Rightarrow> string \<Rightarrow> string \<Rightarrow> string list \<Rightarrow> string \<Rightarrow> (int \<times> string list) result"
where
  "optional_i64_alias block canonical alias' fallback warnings subject =
     rbind (optional_alias block canonical alias' fallback warnings subject) (\<lambda>(raw, warnings).
     rbind (parse_i64 raw) (\<lambda>i. Inr (i, warnings)))"

section \<open>Classes\<close>

definition validate_lattice_target_class :: "string \<Rightarrow> string \<Rightarrow> unit result" where
  "validate_lattice_target_class c tid =
     (if c = [] \<or> c \<in> {''readiness'', ''evaluation_readiness'', ''leakage_guard'', ''artifact_readiness'',
          ''policy_execution_input_handoff'', ''synthetic_forecast_oracle_gate'',
          ''synthetic_edge_return_projection_oracle_gate''} then Inr ()
      else if c \<in> {''policy_gate'', ''validation_performance'', ''performance_acceptance''} then
        throw_target (''TARGET_CLASS='' @ c @ '' is reserved for future explicit policy gates; current targets must '' @
          ''use readiness, evaluation_readiness, leakage_guard, artifact_readiness, and LATTICE_WARN visibility until thresholds, '' @
          ''uncertainty, baselines, selector split, and leakage policy are declared for '' @ tid)
      else if c \<in> {''market_readiness'', ''deployment_readiness''} then
        throw_target (''TARGET_CLASS='' @ c @ '' is not a Lattice proof-core target class; market/deployment readiness must remain '' @
          ''outside Lattice or behind a separately declared disabled policy gate for '' @ tid)
      else throw_target (''unsupported TARGET_CLASS='' @ c @ '' for '' @ tid))"

definition is_artifact_readiness_target_class :: "string \<Rightarrow> bool" where
  "is_artifact_readiness_target_class c \<longleftrightarrow> lowercase (trim c) = ''artifact_readiness''"

definition is_policy_execution_input_handoff_target_class :: "string \<Rightarrow> bool" where
  "is_policy_execution_input_handoff_target_class c \<longleftrightarrow> lowercase (trim c) = ''policy_execution_input_handoff''"

definition is_synthetic_forecast_oracle_gate_target_class :: "string \<Rightarrow> bool" where
  "is_synthetic_forecast_oracle_gate_target_class c \<longleftrightarrow> lowercase (trim c) = ''synthetic_forecast_oracle_gate''"

definition is_synthetic_edge_return_projection_oracle_gate_target_class :: "string \<Rightarrow> bool" where
  "is_synthetic_edge_return_projection_oracle_gate_target_class c \<longleftrightarrow>
     lowercase (trim c) = ''synthetic_edge_return_projection_oracle_gate''"

definition is_kindless_lattice_target_class :: "string \<Rightarrow> bool" where
  "is_kindless_lattice_target_class c \<longleftrightarrow> is_artifact_readiness_target_class c \<or>
     is_policy_execution_input_handoff_target_class c \<or> is_synthetic_forecast_oracle_gate_target_class c \<or>
     is_synthetic_edge_return_projection_oracle_gate_target_class c"

definition lattice_target_kind_applicable :: "lattice_target_spec \<Rightarrow> bool" where
  "lattice_target_kind_applicable spec \<longleftrightarrow> ts_target_kind_applicable spec \<and>
     \<not> is_kindless_lattice_target_class (ts_target_class spec) \<and> ts_kind spec \<noteq> Not_Applicable"

definition lattice_target_effective_kind_name :: "lattice_target_spec \<Rightarrow> string" where
  "lattice_target_effective_kind_name spec =
     (if lattice_target_kind_applicable spec then lattice_target_kind_name (ts_kind spec) else ''not_applicable'')"

definition lattice_target_effective_kind_selector :: "lattice_target_spec \<Rightarrow> string" where
  "lattice_target_effective_kind_selector spec =
     (if lattice_target_kind_applicable spec then lattice_target_kind_name (ts_kind spec) else ''none'')"

definition is_latest_satisfying_checkpoint_selectable_target_class :: "string \<Rightarrow> bool" where
  "is_latest_satisfying_checkpoint_selectable_target_class c \<longleftrightarrow>
     (let n = lowercase (trim c) in n = [] \<or> n = ''readiness'' \<or> n = ''leakage_guard'')"

section \<open>Proof templates\<close>

record proof_template =
  pt_subject_fact_family :: string
  pt_proof_kind :: string
  pt_proof_claim :: string

definition lattice_artifact_readiness_proof_templates :: "proof_template list" where
  "lattice_artifact_readiness_proof_templates =
     [proof_template.make ''target_transform'' ''target_transform_contract_bound''
        (''target transform contract existence, identity, units, mask policy, and support-surface binding''),
      proof_template.make ''forecast_baseline'' ''forecast_baseline_artifact_bound''
        (''forecast baseline artifact existence, identity, target-transform binding, and support-surface binding''),
      proof_template.make ''forecast_eval'' ''forecast_eval_artifact_bound''
        (''forecast evaluation artifact existence, checkpoint lineage, target-transform binding, baseline '' @
         ''binding, selection-signal audit binding, and support counts''),
      proof_template.make ''observer_belief'' ''observer_belief_artifact_bound''
        (''observer belief artifact existence, forecast lineage, raw-vs-allocation belief typing, '' @
         ''scenario/covariance diagnostics, and deterministic-output binding''),
      proof_template.make ''allocation_engine'' ''allocation_artifact_bound''
        (''allocation artifact existence, observer-belief binding, forecast lineage, accounting-numeraire and '' @
         ''graph-node binding, objective/constraint diagnostics, and fallback/de-risk reasons''),
      proof_template.make ''replay_environment'' ''replay_environment_artifact_bound''
        (''replay environment report existence, lineage, digest identity, bounded reset/step evidence, time-law '' @
         ''cleanliness, projection coverage, Cajtucu execution traces, execution profile binding, and policy-set '' @
         ''binding''),
      proof_template.make ''replay_environment'' ''policy_execution_input_handoff_bound''
        (''policy execution handoff replay-source identity, inherited no-lookahead provenance, replay job-dir '' @
         ''digest, parent forecast/observer/allocation closure, checkpoint and generation-vector binding, and '' @
         ''non-dispatch/non-readiness authority denials''),
      proof_template.make ''policy_training'' ''policy_training_artifact_bound''
        (''policy training artifact identity, checkpoint lineage, train/validation/test range separation, '' @
         ''training-only normalization and replay-buffer binding, selector policy, sealed-test declaration, '' @
         ''environment/action/reward/execution-profile binding, and parent replay evidence binding''),
      proof_template.make ''tsodao_settings_protection'' ''tsodao_settings_protection_artifact_bound''
        (''Tsodao protected-settings artifact identity, protected policy-training fact binding, protected digest '' @
         ''match, evidence digest binding, and non-selection/non-optimization authority denials''),
      proof_template.make ''policy_acceptance'' ''policy_acceptance_contract_bound''
        (''policy acceptance contract identity, accepted policy-training fact binding, Tsodao protected-settings '' @
         ''binding, mandatory baselines, after-cost metrics, uncertainty policy, selector/test split discipline, '' @
         ''negative leakage tests, promotion criteria, and non-selection/non-deployment authority denials''),
      proof_template.make ''paper_online_readiness'' ''paper_online_readiness_contract_bound''
        (''paper-online readiness contract identity, accepted policy binding, session lifecycle, clock/staleness '' @
         ''policy, idempotent execution intent handling, duplicate protection, persistent paper-ledger recovery, '' @
         ''direct-edge universe validation, locked Cajtucu execution profile, reward/report artifact policy, '' @
         ''abort/kill switch semantics, and non-execution/non-live authority denials'')]"

definition proof_template_for_family :: "string \<Rightarrow> proof_template option" where
  "proof_template_for_family family =
     List.find (\<lambda>t. pt_subject_fact_family t = lowercase (trim family)) lattice_artifact_readiness_proof_templates"

definition proof_template_for_family_and_kind :: "string \<Rightarrow> string \<Rightarrow> proof_template option" where
  "proof_template_for_family_and_kind family kind =
     List.find (\<lambda>t. pt_subject_fact_family t = lowercase (trim family) \<and> pt_proof_kind t = lowercase (trim kind))
       lattice_artifact_readiness_proof_templates"

definition validate_artifact_readiness_proof_template :: "string \<Rightarrow> string \<Rightarrow> string \<Rightarrow> unit result" where
  "validate_artifact_readiness_proof_template family kind tid =
     (let family = lowercase (trim family); kind = lowercase (trim kind) in
      case proof_template_for_family family of
        None \<Rightarrow> throw_target (''TARGET_CLASS=artifact_readiness SUBJECT_FACT_FAMILY '' @ family @
          '' has no artifact proof template for '' @ tid @
          ''; add a first-class proof template before promoting fact-family evidence to target proof'')
      | Some t \<Rightarrow> (case proof_template_for_family_and_kind family kind of
            None \<Rightarrow> throw_target (''TARGET_CLASS=artifact_readiness PROOF_KIND '' @ kind @
              '' does not match SUBJECT_FACT_FAMILY '' @ family @ '' for '' @ tid @ ''; expected '' @ pt_proof_kind t @
              '' or another first-class proof template for that fact family'')
          | Some _ \<Rightarrow> Inr ()))"

definition default_proof_kind_for_subject_fact_family :: "string \<Rightarrow> string" where
  "default_proof_kind_for_subject_fact_family family =
     (case proof_template_for_family family of None \<Rightarrow> [] | Some t \<Rightarrow> pt_proof_kind t)"

definition normalize_lattice_subject_fact_family :: "string \<Rightarrow> string \<Rightarrow> string result" where
  "normalize_lattice_subject_fact_family raw tid =
     (let trimmed = trim raw in
      if trimmed = [] then Inr []
      else rbind (parse_lattice_fact_family trimmed) (\<lambda>parsed. case parsed of
          None \<Rightarrow> throw_target (''unsupported SUBJECT_FACT_FAMILY '' @ trimmed @ '' for '' @ tid)
        | Some f \<Rightarrow> Inr (lattice_fact_family_name f)))"

section \<open>Scopes\<close>

record artifact_scope =
  as_protocol_id :: string
  as_source_range :: string
  as_train_split :: string

record leakage_guard_scope =
  gs_target_class :: string
  gs_target_kind :: string
  gs_component :: string
  gs_source_range :: string
  gs_protect_split :: string
  gs_require_finite_loss :: string
  gs_plan_mode :: string
  gs_max_waves :: string

definition lattice_artifact_scope_defaults :: "string \<Rightarrow> string \<Rightarrow> artifact_scope option result" where
  "lattice_artifact_scope_defaults scope tid =
     (let n = lowercase (trim scope) in
      if n = [] then Inr None
      else if n = ''cwu_02v_validation'' then Inr (Some \<lparr>as_protocol_id = ''cwu_02v'', as_source_range = ''anchor_index'',
        as_train_split = ''validation_holdout''\<rparr>)
      else throw_target (''unsupported ARTIFACT_SCOPE '' @ scope @ '' for '' @ tid))"

definition lattice_leakage_guard_scope_defaults :: "string \<Rightarrow> string \<Rightarrow> leakage_guard_scope option result" where
  "lattice_leakage_guard_scope_defaults scope tid =
     (let n = lowercase (trim scope);
        out = \<lparr>gs_target_class = ''leakage_guard'', gs_target_kind = ''channel_mdn_ready'',
          gs_component = ''wikimyei.inference.expected_value.mdn'', gs_source_range = ''all'', gs_protect_split = [],
          gs_require_finite_loss = ''false'', gs_plan_mode = ''run|debug'', gs_max_waves = ''0''\<rparr> in
      if n = [] then Inr None
      else if n = ''channel_mdn_validation'' then Inr (Some (out\<lparr>gs_protect_split := ''validation_holdout''\<rparr>))
      else if n = ''channel_mdn_test'' then Inr (Some (out\<lparr>gs_protect_split := ''test_holdout''\<rparr>))
      else throw_target (''unsupported LEAKAGE_GUARD_SCOPE '' @ scope @ '' for '' @ tid))"

definition confirm_scope_field :: "string \<Rightarrow> string \<Rightarrow> string \<Rightarrow> string \<Rightarrow> string \<Rightarrow> string \<Rightarrow> check" where
  "confirm_scope_field name field actual expected scope tid =
     (trim actual \<noteq> [] \<and> actual \<noteq> expected, name @ '' '' @ scope @ '' conflicts with '' @ field @ ''='' @ actual @ '' for '' @ tid)"

section \<open>References to checkpoints\<close>

abbreviation latest_prefix :: string where "latest_prefix \<equiv> ''latest_satisfying:''"

definition latest_satisfying_reference_target_id :: "string \<Rightarrow> string" where
  "latest_satisfying_reference_target_id source =
     (let trimmed = trim source in
      if take (length latest_prefix) (lowercase trimmed) \<noteq> latest_prefix then []
      else trim (drop (length latest_prefix) trimmed))"

definition latest_satisfying_reference :: "string \<Rightarrow> string" where
  "latest_satisfying_reference target_id =
     (let trimmed = trim target_id in if trimmed = [] then [] else latest_prefix @ trimmed)"

text \<open>A reference made of an id leads back to it.\<close>

lemma latest_satisfying_reference_inverse [simp]:
  "latest_satisfying_reference_target_id (latest_satisfying_reference t) = trim t"
proof (cases "trim t = []")
  case False
  have "trim (latest_prefix @ trim t) = latest_prefix @ trim t"
    by (rule trim_id) (use False last_trim [of t] in \<open>auto simp: is_space_def chr_code_def\<close>)
  moreover have "take (length latest_prefix) (lowercase (latest_prefix @ trim t)) = latest_prefix"
    by (simp add: lowercase_def to_lower_def is_upper_def chr_code_def)
  ultimately show ?thesis
    using False by (simp add: latest_satisfying_reference_target_id_def latest_satisfying_reference_def Let_def)
qed (simp add: latest_satisfying_reference_target_id_def latest_satisfying_reference_def Let_def)

end
