(* ===== verification/Target_Clauses.thy ===== *)
theory Target_Clauses
  imports Target_Vocabulary
begin

text \<open>
  The clauses of the target language (\<open>lattice_target.h\<close>): the fields a clause keeps, guards, and what
  \<open>LATTICE_DEPENDS\<close>, \<open>LATTICE_REQUIRES\<close>, \<open>LATTICE_FORBIDS\<close> and \<open>LATTICE_PLAN\<close> do to a specification.
\<close>

section \<open>Fields\<close>

text \<open>The fields of a block, sorted by key. The keys of a parsed block are finite.\<close>

definition lattice_clause_fields_from_block :: "kv_block \<Rightarrow> clause_fields" where
  "lattice_clause_fields_from_block block =
     map (\<lambda>k. (k, the (kv_values block k))) (sorted_list_of_set (dom (kv_values block)))"

definition lattice_clause_field_value :: "clause_fields \<Rightarrow> string \<Rightarrow> string \<Rightarrow> string" where
  "lattice_clause_field_value fs key fallback =
     (case List.find (\<lambda>f. fst f = uppercase key) fs of
        None \<Rightarrow> fallback
      | Some f \<Rightarrow> if trim (snd f) = [] then fallback else trim (snd f))"

definition sort_lattice_clause_fields :: "clause_fields \<Rightarrow> clause_fields" where
  "sort_lattice_clause_fields fs = sort_key fst fs"

definition ensure_lattice_clause_field :: "clause_fields \<Rightarrow> string \<Rightarrow> string \<Rightarrow> clause_fields" where
  "ensure_lattice_clause_field fs key v =
     (if list_ex (\<lambda>f. fst f = uppercase key) fs then fs
      else sort_lattice_clause_fields (fs @ [(uppercase key, v)]))"

definition auto_clause_id :: "string \<Rightarrow> string \<Rightarrow> nat \<Rightarrow> string" where
  "auto_clause_id pre tid i = pre @ '':'' @ tid @ '':'' @ show_nat i"

definition make_lattice_dependency_clause :: "kv_block \<Rightarrow> nat \<Rightarrow> dependency_clause result" where
  "make_lattice_dependency_clause block i =
     (let fs = lattice_clause_fields_from_block block in
      rbind (kv_required block ''TARGET_ID'') (\<lambda>tid.
      rbind (kv_required block ''UPSTREAM_TARGET_ID'') (\<lambda>up.
      rbind (parse_bool (kv_optional block ''REQUIRE_EXACT_LOADED_CHECKPOINT'' ''true'')) (\<lambda>exact.
      Inr \<lparr>dc_clause_id = lattice_clause_field_value fs ''DEPENDENCY_ID'' (auto_clause_id ''depends'' tid i),
        dc_target_id = tid, dc_upstream_target_id = up,
        dc_binding = lowercase (kv_optional block ''BINDING'' ''loaded_representation_checkpoint''),
        dc_require_exact_loaded_checkpoint = exact, dc_fields = fs\<rparr>))))"

definition make_lattice_requirement_clause :: "kv_block \<Rightarrow> nat \<Rightarrow> target_clause result" where
  "make_lattice_requirement_clause block i =
     (let fs = lattice_clause_fields_from_block block in
      rbind (kv_required block ''TARGET_ID'') (\<lambda>tid.
      rbind (kv_required block ''KIND'') (\<lambda>kind.
      Inr \<lparr>tc_clause_id = kv_optional block ''REQUIREMENT_ID'' (auto_clause_id ''requires'' tid i), tc_target_id = tid,
        tc_kind = lowercase kind,
        tc_fields = (if lowercase kind = ''exposure_coverage''
          then ensure_lattice_clause_field (ensure_lattice_clause_field fs ''SCOPE'' ''target_component_family_id'')
            ''COORDINATE'' ''graph_anchor_coverage''
          else fs)\<rparr>)))"

definition make_lattice_forbid_clause :: "kv_block \<Rightarrow> nat \<Rightarrow> target_clause result" where
  "make_lattice_forbid_clause block i =
     rbind (kv_required block ''TARGET_ID'') (\<lambda>tid.
     Inr \<lparr>tc_clause_id = kv_optional block ''FORBID_ID'' (auto_clause_id ''forbids'' tid i), tc_target_id = tid,
       tc_kind = lowercase (kv_optional block ''KIND'' ''exposure_overlap''),
       tc_fields = lattice_clause_fields_from_block block\<rparr>)"

text \<open>The names of the uses, separated by bars\<close>

fun join_uses :: "exposure_use list \<Rightarrow> string" where
  "join_uses [] = []"
| "join_uses [u] = exposure_use_name u"
| "join_uses (u # v # us) = exposure_use_name u @ CHR ''|'' # join_uses (v # us)"

definition effect_name :: "bool \<Rightarrow> string" where
  "effect_name mutated = (if mutated then ''mutated_component'' else ''any'')"

definition make_lattice_forbid_clause_from_guard :: "string \<Rightarrow> lattice_guard_spec \<Rightarrow> target_clause" where
  "make_lattice_forbid_clause_from_guard tid guard =
     \<lparr>tc_clause_id = lg_guard_id guard, tc_target_id = tid, tc_kind = ''exposure_overlap'',
      tc_fields = sort_lattice_clause_fields (
        [(''COORDINATE'', ''source_row_footprint''), (''EFFECT'', effect_name (lg_requires_mutated_component guard))] @
        (if lg_split guard = [] then [] else [(''SPLIT'', lg_split guard)]) @
        (case lg_forbid_anchor_index_begin guard of None \<Rightarrow> []
         | Some b \<Rightarrow> [(''FORBID_EXPOSURE_ANCHOR_INDEX_BEGIN'', show_nat (unat b))]) @
        (case lg_forbid_anchor_index_end guard of None \<Rightarrow> []
         | Some e \<Rightarrow> [(''FORBID_EXPOSURE_ANCHOR_INDEX_END'', show_nat (unat e))]) @
        [(''USES'', join_uses (lg_uses guard)), (''EVIDENCE_SCOPE'', ''output_checkpoint_closure''),
         (''COMPONENT_SCOPE'', ''all_components''), (''SOURCE'', ''LATTICE_GUARD'')])\<rparr>"

definition make_lattice_forbid_clause_from_split_protection :: "lattice_target_spec \<Rightarrow> target_clause" where
  "make_lattice_forbid_clause_from_split_protection spec =
     \<lparr>tc_clause_id = ''protect_split:'' @ ts_target_id spec @ '':'' @ ts_forbid_split spec, tc_target_id = ts_target_id spec,
      tc_kind = ''exposure_overlap'',
      tc_fields = sort_lattice_clause_fields
        [(''COMPONENT_SCOPE'', ''all_components''), (''COORDINATE'', ''source_row_footprint''),
         (''EVIDENCE_SCOPE'', ''output_checkpoint_closure''),
         (''EFFECT'', effect_name (ts_forbid_requires_mutated_component spec)), (''SOURCE'', ''PROTECT_SPLIT''),
         (''SPLIT'', ts_forbid_split spec), (''USES'', ''split_policy_default'')]\<rparr>"

definition make_lattice_plan_clause :: "kv_block \<Rightarrow> nat \<Rightarrow> plan_clause result" where
  "make_lattice_plan_clause block i =
     rbind (kv_required block ''TARGET_ID'') (\<lambda>tid.
     Inr \<lparr>pc_clause_id = kv_optional block ''PLAN_ID'' (auto_clause_id ''plan'' tid i), pc_target_id = tid,
       pc_fields = lattice_clause_fields_from_block block\<rparr>)"

section \<open>Guards\<close>

text \<open>An anchor that must not be negative, when the key is there\<close>

definition read_anchor :: "string \<Rightarrow> string \<Rightarrow> size option result" where
  "read_anchor raw msg =
     (if trim raw = [] then Inr None
      else rbind (parse_i64 raw) (\<lambda>v. if v < 0 then throw_target msg else Inr (Some (size_of_i64 v))))"

definition range_order_check :: "size option \<Rightarrow> size option \<Rightarrow> bool" where
  "range_order_check b e = (case (b, e) of (Some b, Some e) \<Rightarrow> e \<le> b | _ \<Rightarrow> False)"

definition decode_lattice_guard_spec_block :: "kv_block \<Rightarrow> lattice_guard_spec result" where
  "decode_lattice_guard_spec_block block =
     rbind (kv_required block ''GUARD_ID'') (\<lambda>gid.
     rbind (run_checks [(lowercase (kv_optional block ''KIND'' ''exposure_overlap'') \<noteq> ''exposure_overlap'',
       ''LATTICE_GUARD KIND must be exposure_overlap for '' @ gid)]) (\<lambda>_.
     rbind (read_anchor (kv_optional block ''FORBID_EXPOSURE_ANCHOR_INDEX_BEGIN'' [])
       (''guard '' @ gid @ '' has negative forbidden begin'')) (\<lambda>b.
     rbind (read_anchor (kv_optional block ''FORBID_EXPOSURE_ANCHOR_INDEX_END'' [])
       (''guard '' @ gid @ '' has negative forbidden end'')) (\<lambda>e.
     rbind (if trim (kv_optional block ''USES'' []) = [] then Inr [] else parse_exposure_use_list (kv_optional block ''USES'' [])) (\<lambda>uses.
     let split = kv_optional block ''SPLIT'' [];
       scope = lowercase (kv_optional block ''EVIDENCE_SCOPE'' (kv_optional block ''SCOPE'' ''checkpoint_closure''));
       effect = lowercase (kv_optional block ''EFFECT'' ''mutated_component'') in
     rbind (run_checks
       [(scope \<noteq> ''checkpoint_closure'' \<and> scope \<noteq> ''output_checkpoint_closure'',
          ''LATTICE_GUARD EVIDENCE_SCOPE must be checkpoint_closure or output_checkpoint_closure for '' @ gid),
        (lowercase (kv_optional block ''COMPONENT_SCOPE'' ''all_components'') \<noteq> ''all_components'',
          ''LATTICE_GUARD COMPONENT_SCOPE must be all_components for '' @ gid),
        (lowercase (kv_optional block ''COORDINATE'' ''source_row_footprint'') \<noteq> ''source_row_footprint'',
          ''LATTICE_GUARD COORDINATE must be source_row_footprint for '' @ gid),
        (effect \<noteq> ''mutated_component'' \<and> effect \<noteq> ''any'', ''LATTICE_GUARD EFFECT must be mutated_component or any for '' @ gid),
        ((split \<noteq> []) = (b \<noteq> None \<or> e \<noteq> None),
          ''LATTICE_GUARD must use either SPLIT or explicit FORBID_EXPOSURE_ANCHOR_INDEX_BEGIN/END for '' @ gid),
        ((b \<noteq> None) \<noteq> (e \<noteq> None), ''LATTICE_GUARD explicit forbidden range must provide both begin and end for '' @ gid),
        (range_order_check b e, ''LATTICE_GUARD forbidden end must be greater than begin for '' @ gid),
        (uses = [], ''LATTICE_GUARD USES is required for '' @ gid)]) (\<lambda>_.
     Inr \<lparr>lg_guard_id = gid, lg_split = split, lg_forbid_anchor_index_begin = b, lg_forbid_anchor_index_end = e,
       lg_uses = uses, lg_requires_mutated_component = (effect = ''mutated_component'')\<rparr>))))))"

definition apply_lattice_guard :: "lattice_guard_spec \<Rightarrow> lattice_target_spec \<Rightarrow> lattice_target_spec result" where
  "apply_lattice_guard guard spec =
     (if ts_forbid_split spec \<noteq> [] \<or> ts_forbid_anchor_index_begin spec \<noteq> None \<or> ts_forbid_anchor_index_end spec \<noteq> None \<or>
         ts_forbid_exposure_uses spec \<noteq> [] then
        throw_target (''target '' @ ts_target_id spec @ '' mixes GUARD with explicit forbidden exposure fields'')
      else Inr (spec\<lparr>ts_forbid_split := lg_split guard,
        ts_forbid_anchor_index_begin := lg_forbid_anchor_index_begin guard,
        ts_forbid_anchor_index_end := lg_forbid_anchor_index_end guard, ts_forbid_exposure_uses := lg_uses guard,
        ts_forbid_uses_from_split_policy := False,
        ts_forbid_requires_mutated_component := lg_requires_mutated_component guard\<rparr>))"

section \<open>Shared steps\<close>

text \<open>The value to assign to a field, or the conflict\<close>

definition assign_or_confirm_string :: "string \<Rightarrow> string \<Rightarrow> string \<Rightarrow> string \<Rightarrow> string result" where
  "assign_or_confirm_string field v name tid =
     (if v = [] then Inr field
      else if field \<noteq> [] \<and> field \<noteq> v then throw_target (''target '' @ tid @ '' has conflicting '' @ name @ '' values'')
      else Inr v)"

definition require_anchor_index_source_range :: "string \<Rightarrow> lattice_target_spec \<Rightarrow> lattice_target_spec result" where
  "require_anchor_index_source_range why spec =
     (if ts_source_range spec = [] \<or> ts_source_range spec = ''all'' then Inr (spec\<lparr>ts_source_range := ''anchor_index''\<rparr>)
      else if ts_source_range spec \<noteq> ''anchor_index'' then
        throw_target (''target '' @ ts_target_id spec @ '' cannot use '' @ why @ '' unless SOURCE_RANGE=anchor_index'')
      else Inr spec)"

definition require_lowered_bool_true :: "string \<Rightarrow> string \<Rightarrow> string \<Rightarrow> unit result" where
  "require_lowered_bool_true raw name tid =
     rbind (parse_bool raw) (\<lambda>b. run_checks [(\<not> b, ''target '' @ tid @ '' clause can only lower '' @ name @ ''=true in v0'')])"

definition default_exposure_coverage_use_for_target :: "lattice_target_spec \<Rightarrow> exposure_use option" where
  "default_exposure_coverage_use_for_target spec =
     (let c = lowercase (trim (ts_target_class spec)) in
      if c = ''evaluation_readiness'' then Some EvaluationMetric
      else if c = ''artifact_readiness'' \<or> c = ''policy_execution_input_handoff'' \<or> c = ''leakage_guard'' then None
      else (case ts_kind spec of Vicreg_Ready \<Rightarrow> Some ObservedInput | Mtf_Representation_Ready \<Rightarrow> Some ObservedInput
          | Channel_Mdn_Ready \<Rightarrow> Some TargetSupervision | Not_Applicable \<Rightarrow> None))"

section \<open>Dependencies, forbidden exposures and plans\<close>

definition apply_lattice_depends_clause :: "kv_block \<Rightarrow> lattice_target_spec \<Rightarrow> lattice_target_spec result" where
  "apply_lattice_depends_clause block spec =
     rbind (kv_required block ''UPSTREAM_TARGET_ID'') (\<lambda>up.
     rbind (assign_or_confirm_string (ts_upstream_target_id spec) up ''UPSTREAM_TARGET_ID'' (ts_target_id spec)) (\<lambda>up'.
     let binding = lowercase (kv_optional block ''BINDING'' ''loaded_representation_checkpoint'');
       exact = kv_optional block ''REQUIRE_EXACT_LOADED_CHECKPOINT'' [] in
     rbind (run_checks [(binding \<noteq> ''loaded_representation_checkpoint'' \<and> binding \<noteq> ''target'',
       ''LATTICE_DEPENDS BINDING must be loaded_representation_checkpoint or target for '' @ ts_target_id spec)]) (\<lambda>_.
     rbind (if trim exact = [] then Inr ()
       else require_lowered_bool_true exact ''REQUIRE_EXACT_LOADED_CHECKPOINT'' (ts_target_id spec)) (\<lambda>_.
     Inr (spec\<lparr>ts_upstream_target_id := up'\<rparr>)))))"

text \<open>The block of a guard that a \<open>LATTICE_FORBIDS\<close> clause stands for\<close>

definition copy_key :: "kv_block \<Rightarrow> string \<Rightarrow> (string \<rightharpoonup> string) \<Rightarrow> (string \<rightharpoonup> string) result" where
  "copy_key block key m =
     (if has_lattice_key block key then rbind (kv_required block key) (\<lambda>v. Inr (m(key \<mapsto> v))) else Inr m)"

definition forbids_guard_block :: "kv_block \<Rightarrow> string \<Rightarrow> kv_block result" where
  "forbids_guard_block block tid =
     rbind (copy_key block ''SPLIT'' [''GUARD_ID'' \<mapsto> kv_optional block ''FORBID_ID'' (tid @ ''_forbid''),
       ''KIND'' \<mapsto> ''exposure_overlap'']) (\<lambda>m.
     rbind (copy_key block ''FORBID_EXPOSURE_ANCHOR_INDEX_BEGIN'' m) (\<lambda>m.
     rbind (copy_key block ''FORBID_EXPOSURE_ANCHOR_INDEX_END'' m) (\<lambda>m.
     rbind (kv_required block ''USES'') (\<lambda>uses.
     rbind (copy_key block ''COMPONENT_SCOPE'' (m(''USES'' \<mapsto> uses, ''SCOPE'' \<mapsto>
       kv_optional block ''EVIDENCE_SCOPE'' (kv_optional block ''SCOPE'' ''checkpoint_closure'')))) (\<lambda>m.
     Inr \<lparr>kv_name = ''LATTICE_GUARD'', kv_values = m(''EFFECT'' \<mapsto> kv_optional block ''EFFECT'' ''mutated_component'',
       ''COORDINATE'' \<mapsto> kv_optional block ''COORDINATE'' ''source_row_footprint'')\<rparr>)))))"

definition apply_lattice_forbids_clause :: "kv_block \<Rightarrow> lattice_target_spec \<Rightarrow> lattice_target_spec result" where
  "apply_lattice_forbids_clause block spec =
     (if lowercase (kv_optional block ''KIND'' ''exposure_overlap'') \<noteq> ''exposure_overlap'' then
        throw_target (''LATTICE_FORBIDS KIND must be exposure_overlap for '' @ ts_target_id spec)
      else rbind (forbids_guard_block block (ts_target_id spec)) (\<lambda>g.
        rbind (decode_lattice_guard_spec_block g) (\<lambda>guard. apply_lattice_guard guard spec)))"

definition plan_wave_range :: "kv_block \<Rightarrow> lattice_target_spec \<Rightarrow> lattice_target_spec result" where
  "plan_wave_range block spec =
     (if \<not> has_lattice_key block ''WAVE_RANGE'' then Inr spec
      else rbind (kv_required block ''WAVE_RANGE'') (\<lambda>wave_range.
        rbind (run_checks [(take 6 wave_range \<noteq> ''split:'',
          ''LATTICE_PLAN WAVE_RANGE v0 must be split:<id> for '' @ ts_target_id spec)]) (\<lambda>_.
        rbind (require_anchor_index_source_range ''WAVE_RANGE=split:<id>'' spec) (\<lambda>spec.
        rbind (assign_or_confirm_string (ts_train_split spec) (drop 6 wave_range) ''OVER_SPLIT'' (ts_target_id spec)) (\<lambda>split.
        Inr (spec\<lparr>ts_train_split := split\<rparr>))))))"

definition plan_attempts :: "kv_block \<Rightarrow> lattice_target_spec \<Rightarrow> lattice_target_spec result" where
  "plan_attempts block spec =
     (if has_lattice_key block ''PLAN_MAX_ATTEMPTS'' \<or> has_lattice_key block ''MAX_WAVES'' then
        rbind (parse_i64 (kv_optional block ''PLAN_MAX_ATTEMPTS'' (kv_optional block ''MAX_WAVES'' ''1''))) (\<lambda>v.
        rbind (run_checks [(v < 0, ''LATTICE_PLAN PLAN_MAX_ATTEMPTS must be non-negative for '' @ ts_target_id spec)]) (\<lambda>_.
        Inr (spec\<lparr>ts_max_waves := v\<rparr>)))
      else Inr spec)"

definition plan_input :: "kv_block \<Rightarrow> string \<Rightarrow> string \<Rightarrow> string \<Rightarrow> string result" where
  "plan_input block key field tid =
     (if has_lattice_key block key then rbind (kv_required block key) (\<lambda>v. assign_or_confirm_string field v key tid)
      else Inr field)"

definition apply_lattice_plan_clause :: "kv_block \<Rightarrow> lattice_target_spec \<Rightarrow> lattice_target_spec result" where
  "apply_lattice_plan_clause block spec =
     (if kv_optional block ''WAVE_TARGET'' (ts_component spec) \<noteq> ts_component spec then
        throw_target (''LATTICE_PLAN WAVE_TARGET must match SUBJECT_COMPONENT for '' @ ts_target_id spec)
      else
        let spec = spec\<lparr>ts_plan_mode := kv_optional block ''WAVE_MODE'' (kv_optional block ''PLAN_MODE'' (ts_plan_mode spec))\<rparr>;
          tid = ts_target_id spec in
        rbind (plan_wave_range block spec) (\<lambda>spec.
        rbind (plan_attempts block spec) (\<lambda>spec.
        rbind (plan_input block ''PLAN_INPUT_MDN_CHECKPOINT'' (ts_plan_input_mdn_checkpoint spec) tid) (\<lambda>mdn.
        rbind (plan_input block ''PLAN_INPUT_REPRESENTATION_CHECKPOINT'' (ts_plan_input_representation_checkpoint spec) tid) (\<lambda>rep.
        rbind (if lowercase (trim (ts_target_class spec)) \<noteq> ''evaluation_readiness'' \<and> ts_kind spec = Channel_Mdn_Ready \<and>
            rep = [] \<and> ts_upstream_target_id spec \<noteq> []
          then assign_or_confirm_string rep (latest_satisfying_reference (ts_upstream_target_id spec))
            ''PLAN_INPUT_REPRESENTATION_CHECKPOINT'' tid
          else Inr rep) (\<lambda>rep.
        rbind (if mdn = [] \<and> ts_evaluated_checkpoint_source spec \<noteq> []
          then assign_or_confirm_string mdn (ts_evaluated_checkpoint_source spec) ''PLAN_INPUT_MDN_CHECKPOINT'' tid
          else Inr mdn) (\<lambda>mdn.
        Inr (spec\<lparr>ts_plan_input_mdn_checkpoint := mdn, ts_plan_input_representation_checkpoint := rep\<rparr>))))))))"

end
