(* ===== verification/Runtime_Index.thy ===== *)
theory Runtime_Index
  imports Wikimyei_Assembly "HOL-Library.Multiset" "HOL-Library.Sublist"
begin

text \<open>
  The index of runtime facts of \<open>src/include/hero/lattice_hero/lattice/exposure/exposure_ledger.h\<close>: rows
  of a relation, a key and a digest, their canonical order and digest, the counts per relation, queries, and
  the comparison of an index that was stored with one that was built anew.
\<close>

section \<open>Rows\<close>

datatype index_row = Index_Row (ir_relation: string) (ir_key: string) (ir_digest: string)

text \<open>\<open>runtime_index_row_less\<close>, the order in which rows are sorted\<close>

definition index_row_less :: "index_row \<Rightarrow> index_row \<Rightarrow> bool" where
  "index_row_less a b \<longleftrightarrow>
     (if ir_relation a \<noteq> ir_relation b then ir_relation a < ir_relation b
      else if ir_key a \<noteq> ir_key b then ir_key a < ir_key b
      else ir_digest a < ir_digest b)"

instantiation index_row :: linorder
begin

definition less_index_row :: "index_row \<Rightarrow> index_row \<Rightarrow> bool" where
  "less_index_row = index_row_less"

definition less_eq_index_row :: "index_row \<Rightarrow> index_row \<Rightarrow> bool" where
  "less_eq_index_row a b \<longleftrightarrow>
     (if ir_relation a \<noteq> ir_relation b then ir_relation a < ir_relation b
      else if ir_key a \<noteq> ir_key b then ir_key a < ir_key b
      else ir_digest a \<le> ir_digest b)"

instance
  by standard
    (auto simp: less_eq_index_row_def less_index_row_def index_row_less_def index_row.expand split: if_splits)

end

text \<open>\<open>exposure_digest_for_text\<close>\<close>

definition exposure_digest_for_text :: "string \<Rightarrow> string" where
  "exposure_digest_for_text text =
     hash_hex (mix_hash_string (mix_hash_string 14695981039346656037 ''kikijyeba.lattice.exposure.v1'') text)"

definition row_lines :: "index_row \<Rightarrow> string" where
  "row_lines row = ''relation='' @ ir_relation row @ [newline] @ ''key='' @ ir_key row @ [newline] @
     ''digest='' @ ir_digest row @ [newline]"

definition runtime_index_rows_text :: "index_row list \<Rightarrow> string" where
  "runtime_index_rows_text rows =
     (let rows = sort rows in
      ''schema=kikijyeba.lattice.runtime_index_rows.v1'' @ [newline] @
      ''row_count='' @ show_nat (length rows) @ [newline] @ concat (map row_lines rows))"

definition runtime_index_rows_digest :: "index_row list \<Rightarrow> string" where
  "runtime_index_rows_digest rows = exposure_digest_for_text (runtime_index_rows_text rows)"

definition runtime_index_relation_counts :: "index_row list \<Rightarrow> (string \<times> int) list" where
  "runtime_index_relation_counts rows =
     map (\<lambda>r. (r, int (length (filter (\<lambda>row. ir_relation row = r) rows)))) (sort (remdups (map ir_relation rows)))"

definition runtime_index_relation_counts_equal :: "(string \<times> int) list \<Rightarrow> (string \<times> int) list \<Rightarrow> bool" where
  "runtime_index_relation_counts_equal a b \<longleftrightarrow>
     length a = length b \<and> list_all (\<lambda>((r, n), (r', n')). r = r' \<and> n = n') (zip a b)"

section \<open>Queries\<close>

record index_query =
  iq_relation :: string
  iq_key :: string
  iq_key_contains :: string
  iq_digest :: string
  iq_digest_prefix :: string

definition runtime_index_query_matches :: "index_row \<Rightarrow> index_query \<Rightarrow> bool" where
  "runtime_index_query_matches row q \<longleftrightarrow>
     \<not> (iq_relation q \<noteq> [] \<and> ir_relation row \<noteq> iq_relation q) \<and>
     \<not> (iq_key q \<noteq> [] \<and> ir_key row \<noteq> iq_key q) \<and>
     \<not> (iq_key_contains q \<noteq> [] \<and> \<not> sublist (iq_key_contains q) (ir_key row)) \<and>
     \<not> (iq_digest q \<noteq> [] \<and> ir_digest row \<noteq> iq_digest q) \<and>
     \<not> (iq_digest_prefix q \<noteq> [] \<and> \<not> prefix (iq_digest_prefix q) (ir_digest row))"

record index_query_result =
  qr_scanned_row_count :: int
  qr_matching_row_count :: int
  qr_rows :: "index_row list"

definition query_step :: "index_query \<Rightarrow> nat \<Rightarrow> index_query_result \<Rightarrow> index_row \<Rightarrow> index_query_result" where
  "query_step q limit out row =
     (if \<not> runtime_index_query_matches row q then out
      else let out = out\<lparr>qr_matching_row_count := qr_matching_row_count out + 1\<rparr> in
        if length (qr_rows out) < limit then out\<lparr>qr_rows := qr_rows out @ [row]\<rparr> else out)"

definition query_runtime_index_rows :: "index_row list \<Rightarrow> index_query \<Rightarrow> nat \<Rightarrow> index_query_result" where
  "query_runtime_index_rows rows q limit =
     foldl (query_step q limit)
       \<lparr>qr_scanned_row_count = int (length rows), qr_matching_row_count = 0, qr_rows = []\<rparr> rows"

section \<open>Comparison\<close>

record index_parity =
  pa_checked :: bool
  pa_passed :: bool
  pa_row_count_matches :: bool
  pa_relation_counts_match :: bool
  pa_rows_match :: bool
  pa_indexed_row_count :: int
  pa_live_row_count :: int
  pa_missing_from_index_count :: int
  pa_extra_in_index_count :: int
  pa_indexed_relation_counts :: "(string \<times> int) list"
  pa_live_relation_counts :: "(string \<times> int) list"
  pa_missing_from_index :: "index_row list"
  pa_extra_in_index :: "index_row list"
  pa_issues :: "string list"

definition add_missing :: "nat \<Rightarrow> index_row \<Rightarrow> index_parity \<Rightarrow> index_parity" where
  "add_missing limit row out =
     (let out = out\<lparr>pa_missing_from_index_count := pa_missing_from_index_count out + 1\<rparr> in
      if length (pa_missing_from_index out) < limit
      then out\<lparr>pa_missing_from_index := pa_missing_from_index out @ [row]\<rparr> else out)"

definition add_extra :: "nat \<Rightarrow> index_row \<Rightarrow> index_parity \<Rightarrow> index_parity" where
  "add_extra limit row out =
     (let out = out\<lparr>pa_extra_in_index_count := pa_extra_in_index_count out + 1\<rparr> in
      if length (pa_extra_in_index out) < limit
      then out\<lparr>pa_extra_in_index := pa_extra_in_index out @ [row]\<rparr> else out)"

text \<open>The two cursors are the rests of the lists.\<close>

fun parity_loop :: "nat \<Rightarrow> index_row list \<Rightarrow> index_row list \<Rightarrow> index_parity \<Rightarrow> index_parity" where
  "parity_loop limit [] [] out = out"
| "parity_loop limit [] (b # live) out = parity_loop limit [] live (add_missing limit b out)"
| "parity_loop limit (a # indexed) [] out = parity_loop limit indexed [] (add_extra limit a out)"
| "parity_loop limit (a # indexed) (b # live) out =
     (if a = b then parity_loop limit indexed live out
      else if b < a then parity_loop limit (a # indexed) live (add_missing limit b out)
      else parity_loop limit indexed (b # live) (add_extra limit a out))"

definition compare_runtime_index_rows :: "index_row list \<Rightarrow> index_row list \<Rightarrow> nat \<Rightarrow> index_parity" where
  "compare_runtime_index_rows indexed live limit =
     (let indexed = sort indexed; live = sort live;
        ci = runtime_index_relation_counts indexed; cl = runtime_index_relation_counts live;
        out = \<lparr>pa_checked = True, pa_passed = False, pa_row_count_matches = (length indexed = length live),
          pa_relation_counts_match = runtime_index_relation_counts_equal ci cl, pa_rows_match = False,
          pa_indexed_row_count = int (length indexed), pa_live_row_count = int (length live),
          pa_missing_from_index_count = 0, pa_extra_in_index_count = 0, pa_indexed_relation_counts = ci,
          pa_live_relation_counts = cl, pa_missing_from_index = [], pa_extra_in_index = [], pa_issues = []\<rparr>;
        out = parity_loop limit indexed live out;
        out = out\<lparr>pa_rows_match := pa_missing_from_index_count out = 0 \<and> pa_extra_in_index_count out = 0\<rparr>;
        issues = (if \<not> pa_row_count_matches out then [''row_count_mismatch''] else []) @
          (if \<not> pa_relation_counts_match out then [''relation_counts_mismatch''] else []) @
          (if \<not> pa_rows_match out then [''row_digest_set_mismatch''] else [])
      in out\<lparr>pa_issues := issues, pa_passed := (issues = [])\<rparr>)"

definition compare_runtime_index_query_results :: "index_query_result \<Rightarrow> index_query_result \<Rightarrow> nat \<Rightarrow> index_parity" where
  "compare_runtime_index_query_results indexed live limit =
     (let out = compare_runtime_index_rows (qr_rows indexed) (qr_rows live) limit;
        out = out\<lparr>pa_indexed_row_count := qr_matching_row_count indexed,
          pa_live_row_count := qr_matching_row_count live,
          pa_row_count_matches := (qr_matching_row_count indexed = qr_matching_row_count live)\<rparr>;
        complete = (\<lambda>r. int (length (qr_rows r)) = qr_matching_row_count r);
        issues = pa_issues out @ (if \<not> complete indexed \<or> \<not> complete live then [''query_result_preview_incomplete''] else []);
        issues = issues @ (if \<not> pa_row_count_matches out \<and> ''row_count_mismatch'' \<notin> set issues
          then [''row_count_mismatch''] else [])
      in out\<lparr>pa_issues := issues, pa_passed := (issues = [])\<rparr>)"

section \<open>Queries filter\<close>

lemma query_step_simps:
  "\<not> runtime_index_query_matches row q \<Longrightarrow> query_step q limit out row = out"
  "runtime_index_query_matches row q \<Longrightarrow> length (qr_rows out) < limit \<Longrightarrow> query_step q limit out row =
     out\<lparr>qr_matching_row_count := qr_matching_row_count out + 1, qr_rows := qr_rows out @ [row]\<rparr>"
  "runtime_index_query_matches row q \<Longrightarrow> \<not> length (qr_rows out) < limit \<Longrightarrow> query_step q limit out row =
     out\<lparr>qr_matching_row_count := qr_matching_row_count out + 1\<rparr>"
  by (simp_all add: query_step_def Let_def)

lemma query_step_foldl:
  "foldl (query_step q limit) out rows =
     out\<lparr>qr_matching_row_count := qr_matching_row_count out + int (length (filter (\<lambda>r. runtime_index_query_matches r q) rows)),
       qr_rows := qr_rows out @ take (limit - length (qr_rows out)) (filter (\<lambda>r. runtime_index_query_matches r q) rows)\<rparr>"
proof (induction rows arbitrary: out)
  case (Cons row rows)
  consider "\<not> runtime_index_query_matches row q"
    | "runtime_index_query_matches row q" "length (qr_rows out) < limit"
    | "runtime_index_query_matches row q" "\<not> length (qr_rows out) < limit" by blast
  then show ?case
  proof cases
    case 2
    then obtain d where "limit - length (qr_rows out) = Suc d" "limit - Suc (length (qr_rows out)) = d"
      by (cases "limit - length (qr_rows out)") auto
    with 2 show ?thesis by (simp add: Cons.IH query_step_simps)
  qed (simp_all add: Cons.IH query_step_simps)
qed simp

lemma query_runtime_index_rows_eq:
  "query_runtime_index_rows rows q limit =
     \<lparr>qr_scanned_row_count = int (length rows),
      qr_matching_row_count = int (length (filter (\<lambda>r. runtime_index_query_matches r q) rows)),
      qr_rows = take limit (filter (\<lambda>r. runtime_index_query_matches r q) rows)\<rparr>"
  by (simp add: query_runtime_index_rows_def query_step_foldl)

section \<open>The merge computes differences of multisets\<close>

fun missing_rows :: "'a::linorder list \<Rightarrow> 'a list \<Rightarrow> 'a list" where
  "missing_rows [] live = live"
| "missing_rows indexed [] = []"
| "missing_rows (a # indexed) (b # live) =
     (if a = b then missing_rows indexed live
      else if b < a then b # missing_rows (a # indexed) live
      else missing_rows indexed (b # live))"

lemma missing_rows_mset:
  "sorted indexed \<Longrightarrow> sorted live \<Longrightarrow> mset (missing_rows indexed live) = mset live - mset indexed"
proof (induction indexed live rule: missing_rows.induct)
  case (3 a indexed b live)
  show ?case
  proof (cases "a = b")
    case False
    show ?thesis
    proof (cases "b < a")
      case True
      then have "b \<notin># mset (a # indexed)" using 3(4) by auto
      with True 3 False show ?thesis by (simp add: diff_add_mset_swap)
    next
      case F: False
      with False have "a \<notin># mset (b # live)" using 3(5) by (auto simp: not_less)
      then have "mset (b # live) - mset (a # indexed) = mset (b # live) - mset indexed"
        by (metis diff_diff_add_mset diff_single_trivial mset.simps(2) add_mset_add_single add.commute)
      with False F 3 show ?thesis by simp
    qed
  qed (use 3 in simp)
qed simp_all

lemma missing_rows_subset: "set (missing_rows indexed live) \<subseteq> set live"
  by (induction indexed live rule: missing_rows.induct) auto

lemma missing_rows_sorted: "sorted live \<Longrightarrow> sorted (missing_rows indexed live)"
proof (induction indexed live rule: missing_rows.induct)
  case (3 a indexed b live)
  then show ?case using missing_rows_subset [of "a # indexed" live] by auto
qed simp_all

lemma missing_rows_eq:
  assumes "sorted indexed" "sorted live"
  shows "missing_rows indexed live = sorted_list_of_multiset (mset live - mset indexed)"
proof -
  have "sorted_list_of_multiset (mset (missing_rows indexed live)) = sort (missing_rows indexed live)" by simp
  also have "\<dots> = missing_rows indexed live" using missing_rows_sorted [OF assms(2)] by (simp add: sorted_sort_id)
  finally show ?thesis using missing_rows_mset [OF assms] by simp
qed

lemma missing_rows_Nil [simp]: "missing_rows indexed [] = []"
  by (cases indexed) simp_all

lemma take_step:
  "take (limit - length out) [x] @ take (limit - length (out @ take (limit - length out) [x])) xs =
     take (limit - length out) (x # xs)"
proof (cases "limit - length out")
  case (Suc n)
  then have "limit - Suc (length out) = n" by simp
  with Suc show ?thesis by simp
qed simp

lemma add_missing_eq:
  "add_missing limit row out =
     out\<lparr>pa_missing_from_index_count := pa_missing_from_index_count out + 1,
       pa_missing_from_index := pa_missing_from_index out @ take (limit - length (pa_missing_from_index out)) [row]\<rparr>"
  by (auto simp: add_missing_def Let_def take_Cons')

lemma add_extra_eq:
  "add_extra limit row out =
     out\<lparr>pa_extra_in_index_count := pa_extra_in_index_count out + 1,
       pa_extra_in_index := pa_extra_in_index out @ take (limit - length (pa_extra_in_index out)) [row]\<rparr>"
  by (auto simp: add_extra_def Let_def take_Cons')

lemma parity_loop_eq:
  "parity_loop limit indexed live out =
     out\<lparr>pa_missing_from_index_count := pa_missing_from_index_count out + int (length (missing_rows indexed live)),
       pa_extra_in_index_count := pa_extra_in_index_count out + int (length (missing_rows live indexed)),
       pa_missing_from_index := pa_missing_from_index out @
         take (limit - length (pa_missing_from_index out)) (missing_rows indexed live),
       pa_extra_in_index := pa_extra_in_index out @
         take (limit - length (pa_extra_in_index out)) (missing_rows live indexed)\<rparr>"
proof (induction limit indexed live out rule: parity_loop.induct)
  case (2 limit b live out)
  then show ?case by (simp add: add_missing_eq take_step del: length_append)
next
  case (3 limit a indexed out)
  then show ?case by (simp add: add_extra_eq take_step del: length_append)
next
  case (4 limit a indexed b live out)
  consider "a = b" | "a \<noteq> b" "b < a" | "a \<noteq> b" "\<not> b < a" "a < b" by fastforce
  then show ?case
  proof cases
    case 1
    with 4 show ?thesis by simp
  next
    case 2
    with 4(2) show ?thesis by (auto simp: add_missing_eq take_step simp del: length_append)
  next
    case 3
    with 4(3) show ?thesis by (auto simp: add_extra_eq take_step simp del: length_append)
  qed
qed simp

section \<open>Counts\<close>

lemma relation_counts_equal_iff: "runtime_index_relation_counts_equal a b \<longleftrightarrow> a = b"
proof -
  have "runtime_index_relation_counts_equal a b \<longleftrightarrow> list_all2 (=) a b"
    by (auto simp: runtime_index_relation_counts_equal_def list_all2_iff list_all_iff)
  then show ?thesis by (simp add: list.rel_eq)
qed

lemma relation_counts_mset:
  assumes "mset a = mset b"
  shows "runtime_index_relation_counts a = runtime_index_relation_counts b"
proof -
  have "set a = set b" using assms by (metis set_mset_mset)
  then have "sort (remdups (map ir_relation a)) = sort (remdups (map ir_relation b))"
    by (intro properties_for_sort) (simp_all flip: set_eq_iff_mset_remdups_eq)
  moreover have "length (filter P a) = length (filter P b)" for P
    using assms by (metis mset_filter size_mset)
  ultimately show ?thesis by (simp add: runtime_index_relation_counts_def)
qed

section \<open>The comparison is exact\<close>

lemma compare_fields:
  fixes indexed live limit
  defines "p \<equiv> compare_runtime_index_rows indexed live limit"
  shows "pa_missing_from_index p = take limit (sorted_list_of_multiset (mset live - mset indexed))"
    "pa_extra_in_index p = take limit (sorted_list_of_multiset (mset indexed - mset live))"
    "pa_missing_from_index_count p = int (size (mset live - mset indexed))"
    "pa_extra_in_index_count p = int (size (mset indexed - mset live))"
    "pa_issues p = (if length indexed = length live then [] else [''row_count_mismatch'']) @
       (if runtime_index_relation_counts indexed = runtime_index_relation_counts live then [] else [''relation_counts_mismatch'']) @
       (if mset indexed = mset live then [] else [''row_digest_set_mismatch''])"
    "pa_passed p \<longleftrightarrow> pa_issues p = []"
proof -
  have missing: "missing_rows (sort a) (sort b) = sorted_list_of_multiset (mset b - mset a)" for a b :: "index_row list"
    using missing_rows_eq [of "sort a" "sort b"] by simp
  have size: "length (sorted_list_of_multiset m) = size m" for m :: "index_row multiset"
    by (metis mset_sorted_list_of_multiset size_mset)
  have nil: "sorted_list_of_multiset m = [] \<longleftrightarrow> m = {#}" for m :: "index_row multiset"
    by (metis mset_sorted_list_of_multiset mset_zero_iff)
  have diff: "(mset live - mset indexed = {#} \<and> mset indexed - mset live = {#}) \<longleftrightarrow> mset indexed = mset live"
    by (metis Diff_eq_empty_iff_mset subset_mset.antisym subset_mset.order_refl)
  have counts: "runtime_index_relation_counts (sort a) = runtime_index_relation_counts a" for a
    by (rule relation_counts_mset) simp
  show "pa_missing_from_index p = take limit (sorted_list_of_multiset (mset live - mset indexed))"
    "pa_extra_in_index p = take limit (sorted_list_of_multiset (mset indexed - mset live))"
    "pa_missing_from_index_count p = int (size (mset live - mset indexed))"
    "pa_extra_in_index_count p = int (size (mset indexed - mset live))"
    by (simp_all add: p_def compare_runtime_index_rows_def Let_def parity_loop_eq missing size)
  show "pa_issues p = (if length indexed = length live then [] else [''row_count_mismatch'']) @
       (if runtime_index_relation_counts indexed = runtime_index_relation_counts live then [] else [''relation_counts_mismatch'']) @
       (if mset indexed = mset live then [] else [''row_digest_set_mismatch''])"
    using diff nil
    by (simp add: p_def compare_runtime_index_rows_def Let_def parity_loop_eq missing size counts relation_counts_equal_iff)
  show "pa_passed p \<longleftrightarrow> pa_issues p = []"
    by (simp add: p_def compare_runtime_index_rows_def Let_def)
qed

lemma compare_passed: "pa_passed (compare_runtime_index_rows indexed live limit) \<longleftrightarrow> mset indexed = mset live"
proof -
  have "mset indexed = mset live \<Longrightarrow> length indexed = length live" by (metis size_mset)
  with relation_counts_mset [of indexed live] show ?thesis
    by (simp add: compare_fields split: if_splits)
qed

text \<open>
  C37: the comparison of a stored index with a live one passes exactly when both hold the same rows,
  each as often; otherwise it counts the rows that are missing from the index and those it has in
  excess, and previews them in order, up to the limit.
\<close>

theorem index_parity_exact:
  "let p = compare_runtime_index_rows indexed live limit;
     missing = mset live - mset indexed; extra = mset indexed - mset live in
   (pa_passed p \<longleftrightarrow> mset indexed = mset live) \<and>
   pa_missing_from_index_count p = int (size missing) \<and> pa_extra_in_index_count p = int (size extra) \<and>
   pa_missing_from_index p = take limit (sorted_list_of_multiset missing) \<and>
   pa_extra_in_index p = take limit (sorted_list_of_multiset extra)"
  unfolding Let_def by (intro conjI compare_passed compare_fields)

text \<open>
  Two answers of a query agree exactly when neither was cut off by its limit and the same rows
  match the query in both indexes.
\<close>

theorem query_parity_exact:
  fixes q rows live
  defines "matching \<equiv> \<lambda>rows. filter (\<lambda>r. runtime_index_query_matches r q) rows"
  shows "pa_passed (compare_runtime_index_query_results
       (query_runtime_index_rows rows q limit) (query_runtime_index_rows live q limit') preview) \<longleftrightarrow>
     length (matching rows) \<le> limit \<and> length (matching live) \<le> limit' \<and> mset (matching rows) = mset (matching live)"
proof -
  let ?a = "take limit (matching rows)" and ?b = "take limit' (matching live)"
  have empty: "pa_issues (compare_runtime_index_rows ?a ?b preview) = [] \<longleftrightarrow> mset ?a = mset ?b"
    using compare_passed [of ?a ?b preview] compare_fields(6) [of ?a ?b preview] by simp
  have "mset (matching rows) = mset (matching live) \<Longrightarrow> length (matching rows) = length (matching live)"
    by (metis size_mset)
  with empty show ?thesis
    by (auto simp: compare_runtime_index_query_results_def query_runtime_index_rows_eq Let_def matching_def
      split: if_splits)
qed

end
