(* ===== verification/Policy_Gates.thy ===== *)
theory Policy_Gates
  imports Target_Clauses Runtime_Index
begin

text \<open>
  The reserved policy gates of \<open>lattice_target.h\<close>: their canonical text and fingerprint, the inputs that a gate
  must have, and its decoding, which accepts a gate only when it is disabled.

  The text of a \<open>double\<close> in an output stream is the argument \<open>print_double\<close>.
\<close>

record policy_gate =
  pg_policy_id :: string
  pg_policy_kind :: string
  pg_target_id :: string
  pg_metric :: string
  pg_metric_definition :: string
  pg_baseline :: string
  pg_baseline_definition :: string
  pg_threshold :: c_float
  pg_uncertainty_policy :: string
  pg_uncertainty_model :: string
  pg_support_minimum :: c_float
  pg_selector_split :: string
  pg_anti_leakage_policy :: string
  pg_tie_policy :: string
  pg_negative_tests :: string
  pg_calibration_requirements :: string
  pg_holdout_declaration :: string
  pg_threshold_selection_audit :: string
  pg_enabled :: bool
  pg_policy_fingerprint :: string
  pg_status :: string
  pg_disabled_reason :: string
  pg_fields :: clause_fields

definition disabled_reason :: string where
  "disabled_reason = ''policy gates are reserved until metric and baseline definitions, thresholds, uncertainty '' @
     ''policy/model, support minimums, selector split, leakage policy, negative tests, calibration requirements, '' @
     ''holdout declaration, and threshold-selection audit are explicit''"

definition text_line :: "string \<Rightarrow> string \<Rightarrow> string" where
  "text_line key v = key @ ''='' @ v @ [newline]"

definition bool_text :: "bool \<Rightarrow> string" where
  "bool_text b = (if b then ''true'' else ''false'')"

definition canonical_lattice_policy_gate_text :: "(c_float \<Rightarrow> string) \<Rightarrow> policy_gate \<Rightarrow> string" where
  "canonical_lattice_policy_gate_text print_double g =
     text_line ''policy_id'' (pg_policy_id g) @ text_line ''policy_kind'' (pg_policy_kind g) @
     text_line ''target_id'' (pg_target_id g) @ text_line ''metric'' (pg_metric g) @
     text_line ''metric_definition'' (pg_metric_definition g) @ text_line ''baseline'' (pg_baseline g) @
     text_line ''baseline_definition'' (pg_baseline_definition g) @
     text_line ''threshold'' (print_double (pg_threshold g)) @
     text_line ''uncertainty_policy'' (pg_uncertainty_policy g) @ text_line ''uncertainty_model'' (pg_uncertainty_model g) @
     text_line ''support_minimum'' (print_double (pg_support_minimum g)) @
     text_line ''selector_split'' (pg_selector_split g) @ text_line ''anti_leakage_policy'' (pg_anti_leakage_policy g) @
     text_line ''tie_policy'' (pg_tie_policy g) @ text_line ''negative_tests'' (pg_negative_tests g) @
     text_line ''calibration_requirements'' (pg_calibration_requirements g) @
     text_line ''holdout_declaration'' (pg_holdout_declaration g) @
     text_line ''threshold_selection_audit'' (pg_threshold_selection_audit g) @
     text_line ''enabled'' (bool_text (pg_enabled g)) @ text_line ''status'' (pg_status g)"

definition lattice_policy_gate_fingerprint :: "(c_float \<Rightarrow> string) \<Rightarrow> policy_gate \<Rightarrow> string" where
  "lattice_policy_gate_fingerprint print_double g = exposure_digest_for_text
     (''kikijyeba.lattice.policy_gate.reserved.v1'' @ [newline] @ canonical_lattice_policy_gate_text print_double g)"

definition is_reserved_lattice_policy_gate_kind :: "string \<Rightarrow> bool" where
  "is_reserved_lattice_policy_gate_kind kind \<longleftrightarrow> kind = ''forecast_quality_acceptance'' \<or> kind = ''allocation_acceptance''"

definition expected_subject_fact_family_for_policy_gate_kind :: "string \<Rightarrow> string" where
  "expected_subject_fact_family_for_policy_gate_kind kind =
     (if kind = ''forecast_quality_acceptance'' then ''forecast_eval''
      else if kind = ''allocation_acceptance'' then ''allocation_engine'' else [])"

definition lattice_policy_gate_missing_required_inputs :: "policy_gate \<Rightarrow> string list" where
  "lattice_policy_gate_missing_required_inputs g = map snd (filter fst
     [(pg_policy_id g = [], ''POLICY_ID''), (pg_policy_kind g = [], ''POLICY_KIND''), (pg_target_id g = [], ''TARGET_ID''),
      (pg_metric g = [], ''METRIC''), (pg_metric_definition g = [], ''METRIC_DEFINITION''), (pg_baseline g = [], ''BASELINE''),
      (pg_baseline_definition g = [], ''BASELINE_DEFINITION''), (\<not> is_finite (pg_threshold g), ''THRESHOLD''),
      (pg_uncertainty_policy g = [], ''UNCERTAINTY_POLICY''), (pg_uncertainty_model g = [], ''UNCERTAINTY_MODEL''),
      (\<not> is_finite (pg_support_minimum g) \<or> float_less (pg_support_minimum g) (Finite 0), ''SUPPORT_MINIMUM''),
      (pg_selector_split g = [], ''SELECTOR_SPLIT''), (pg_anti_leakage_policy g = [], ''ANTI_LEAKAGE_POLICY''),
      (pg_tie_policy g = [], ''TIE_POLICY''), (pg_negative_tests g = [], ''NEGATIVE_TESTS''),
      (pg_calibration_requirements g = [], ''CALIBRATION_REQUIREMENTS''),
      (pg_holdout_declaration g = [], ''HOLDOUT_DECLARATION''),
      (pg_threshold_selection_audit g = [], ''THRESHOLD_SELECTION_AUDIT'')])"

definition lattice_policy_gate_input_contract_complete :: "policy_gate \<Rightarrow> bool" where
  "lattice_policy_gate_input_contract_complete g \<longleftrightarrow> lattice_policy_gate_missing_required_inputs g = []"

section \<open>Decoding\<close>

definition read_policy_gate :: "kv_block \<Rightarrow> policy_gate result" where
  "read_policy_gate block =
     (let lowered = (\<lambda>key f. rbind (kv_required block key) (\<lambda>v. f (lowercase v)));
        raw = (\<lambda>key f. rbind (kv_required block key) f) in
      raw ''POLICY_ID'' (\<lambda>policy_id.
      lowered ''POLICY_KIND'' (\<lambda>policy_kind.
      raw ''TARGET_ID'' (\<lambda>target_id.
      lowered ''METRIC'' (\<lambda>metric.
      raw ''METRIC_DEFINITION'' (\<lambda>metric_definition.
      lowered ''BASELINE'' (\<lambda>baseline.
      raw ''BASELINE_DEFINITION'' (\<lambda>baseline_definition.
      rbind (kv_required block ''THRESHOLD'') (\<lambda>raw_threshold.
      rbind (parse_double raw_threshold) (\<lambda>threshold.
      lowered ''UNCERTAINTY_POLICY'' (\<lambda>uncertainty_policy.
      lowered ''UNCERTAINTY_MODEL'' (\<lambda>uncertainty_model.
      rbind (kv_required block ''SUPPORT_MINIMUM'') (\<lambda>raw_support.
      rbind (parse_double raw_support) (\<lambda>support_minimum.
      raw ''SELECTOR_SPLIT'' (\<lambda>selector_split.
      lowered ''ANTI_LEAKAGE_POLICY'' (\<lambda>anti_leakage_policy.
      lowered ''TIE_POLICY'' (\<lambda>tie_policy.
      raw ''NEGATIVE_TESTS'' (\<lambda>negative_tests.
      raw ''CALIBRATION_REQUIREMENTS'' (\<lambda>calibration_requirements.
      raw ''HOLDOUT_DECLARATION'' (\<lambda>holdout_declaration.
      raw ''THRESHOLD_SELECTION_AUDIT'' (\<lambda>threshold_selection_audit.
      rbind (kv_required block ''ENABLED'') (\<lambda>raw_enabled.
      rbind (parse_bool raw_enabled) (\<lambda>enabled.
      Inr \<lparr>pg_policy_id = policy_id, pg_policy_kind = policy_kind, pg_target_id = target_id, pg_metric = metric,
        pg_metric_definition = metric_definition, pg_baseline = baseline, pg_baseline_definition = baseline_definition,
        pg_threshold = threshold, pg_uncertainty_policy = uncertainty_policy, pg_uncertainty_model = uncertainty_model,
        pg_support_minimum = support_minimum, pg_selector_split = selector_split,
        pg_anti_leakage_policy = anti_leakage_policy, pg_tie_policy = tie_policy, pg_negative_tests = negative_tests,
        pg_calibration_requirements = calibration_requirements, pg_holdout_declaration = holdout_declaration,
        pg_threshold_selection_audit = threshold_selection_audit, pg_enabled = enabled,
        pg_policy_fingerprint = kv_optional block ''POLICY_FINGERPRINT'' [], pg_status = ''disabled_reserved'', pg_disabled_reason = disabled_reason,
        pg_fields = lattice_clause_fields_from_block block\<rparr>)))))))))))))))))))))))"

fun comma_list :: "string list \<Rightarrow> string" where
  "comma_list [] = []"
| "comma_list [x] = x"
| "comma_list (x # y # xs) = x @ '','' @ comma_list (y # xs)"

definition policy_gate_checks :: "policy_gate \<Rightarrow> check list" where
  "policy_gate_checks g =
     (let pid = pg_policy_id g; missing = lattice_policy_gate_missing_required_inputs g in
      [(pid = [], ''LATTICE_POLICY_GATE requires non-empty POLICY_ID''),
       (pg_target_id g = [], ''LATTICE_POLICY_GATE requires non-empty TARGET_ID''),
       (\<not> is_reserved_lattice_policy_gate_kind (pg_policy_kind g),
         ''LATTICE_POLICY_GATE POLICY_KIND is unsupported for '' @ pid @ ''; supported disabled reservation kinds are '' @
         ''forecast_quality_acceptance and allocation_acceptance; performance_acceptance, market_readiness, and '' @
         ''deployment_readiness remain fail-closed future decision surfaces''),
       (\<not> is_finite (pg_threshold g), ''LATTICE_POLICY_GATE THRESHOLD must be finite for '' @ pid),
       (\<not> is_finite (pg_support_minimum g) \<or> float_less (pg_support_minimum g) (Finite 0),
         ''LATTICE_POLICY_GATE SUPPORT_MINIMUM must be finite and non-negative for '' @ pid),
       (missing \<noteq> [], ''LATTICE_POLICY_GATE '' @ pid @ '' is missing required policy input'' @
         (if length missing \<noteq> 1 then ''s'' else []) @ '': '' @ comma_list missing),
       (pg_enabled g, ''LATTICE_POLICY_GATE is reserved and disabled; future policy gates must remain ENABLED=false until '' @
         ''policy authority, metric/baseline definitions, uncertainty model, selector split, anti-leakage tests, '' @
         ''calibration requirements, holdout declaration, and threshold-selection audit are explicit for '' @ pid)])"

definition decode_lattice_policy_gate_spec_block :: "(c_float \<Rightarrow> string) \<Rightarrow> kv_block \<Rightarrow> policy_gate result" where
  "decode_lattice_policy_gate_spec_block print_double block =
     rbind (run_checks [(kv_name block \<noteq> ''LATTICE_POLICY_GATE'', ''expected LATTICE_POLICY_GATE block'')]) (\<lambda>_.
     rbind (read_policy_gate block) (\<lambda>g.
     rbind (run_checks (policy_gate_checks g)) (\<lambda>_.
     let expected = lattice_policy_gate_fingerprint print_double g in
     if pg_policy_fingerprint g = [] then Inr (g\<lparr>pg_policy_fingerprint := expected\<rparr>)
     else rbind (run_checks [(pg_policy_fingerprint g \<noteq> expected,
       ''LATTICE_POLICY_GATE POLICY_FINGERPRINT mismatch for '' @ pg_policy_id g @
       ''; supplied fingerprint does not match the reserved policy declaration'')]) (\<lambda>_. Inr g))))"

text \<open>The gates of a text, each id once\<close>

fun policy_gates_loop :: "(c_float \<Rightarrow> string) \<Rightarrow> kv_block list \<Rightarrow> policy_gate list \<Rightarrow> policy_gate list result" where
  "policy_gates_loop print_double [] out = Inr out"
| "policy_gates_loop print_double (block # blocks) out =
     (if kv_name block \<noteq> ''LATTICE_POLICY_GATE'' then policy_gates_loop print_double blocks out
      else rbind (decode_lattice_policy_gate_spec_block print_double block) (\<lambda>g.
        if pg_policy_id g \<in> pg_policy_id ` set out then throw_target (''duplicate POLICY_ID: '' @ pg_policy_id g)
        else policy_gates_loop print_double blocks (out @ [g])))"

definition decode_lattice_policy_gates_from_dsl :: "(c_float \<Rightarrow> string) \<Rightarrow> string \<Rightarrow> policy_gate list result" where
  "decode_lattice_policy_gates_from_dsl print_double text =
     rbind (parse_blocks text) (\<lambda>blocks. policy_gates_loop print_double blocks [])"

section \<open>What an accepted gate is\<close>

text \<open>A gate that is only a reservation\<close>

definition reserved_gate :: "policy_gate \<Rightarrow> bool" where
  "reserved_gate g \<longleftrightarrow> \<not> pg_enabled g \<and> pg_status g = ''disabled_reserved'' \<and>
     is_reserved_lattice_policy_gate_kind (pg_policy_kind g) \<and> lattice_policy_gate_input_contract_complete g"

lemma fingerprint_update [simp]:
  "lattice_policy_gate_fingerprint print_double (g\<lparr>pg_policy_fingerprint := f\<rparr>) = lattice_policy_gate_fingerprint print_double g"
  "lattice_policy_gate_missing_required_inputs (g\<lparr>pg_policy_fingerprint := f\<rparr>) = lattice_policy_gate_missing_required_inputs g"
  by (simp_all add: lattice_policy_gate_fingerprint_def canonical_lattice_policy_gate_text_def
      lattice_policy_gate_missing_required_inputs_def)

lemma read_policy_gate_status: "read_policy_gate block = Inr g \<Longrightarrow> pg_status g = ''disabled_reserved''"
  unfolding read_policy_gate_def Let_def by (auto simp only: rbind_Inr_iff sum.inject policy_gate.simps)

lemma policy_gate_checks_ok:
  "list_all (\<lambda>(bad, _). \<not> bad) (policy_gate_checks g) \<Longrightarrow>
   \<not> pg_enabled g \<and> is_reserved_lattice_policy_gate_kind (pg_policy_kind g) \<and> lattice_policy_gate_missing_required_inputs g = []"
  by (simp add: policy_gate_checks_def Let_def)

lemma decoded_gate_reserved:
  assumes "decode_lattice_policy_gate_spec_block print_double block = Inr g"
  shows "reserved_gate g \<and> pg_policy_fingerprint g = lattice_policy_gate_fingerprint print_double g"
proof -
  obtain h where h: "read_policy_gate block = Inr h" "list_all (\<lambda>(bad, _). \<not> bad) (policy_gate_checks h)"
    "g = h\<lparr>pg_policy_fingerprint := lattice_policy_gate_fingerprint print_double h\<rparr> \<or>
      g = h \<and> pg_policy_fingerprint h = lattice_policy_gate_fingerprint print_double h"
    using assms unfolding decode_lattice_policy_gate_spec_block_def Let_def rbind_Inr_iff run_checks_Inr_iff
    by (auto simp: rbind_Inr_iff run_checks_Inr_iff split: if_splits)
  from h(3) show ?thesis
    using policy_gate_checks_ok [OF h(2)] read_policy_gate_status [OF h(1)]
    by (elim disjE conjE) (simp_all add: reserved_gate_def lattice_policy_gate_input_contract_complete_def)
qed

lemma policy_gates_loop_ok:
  "policy_gates_loop print_double blocks out = Inr gs \<Longrightarrow> distinct (map pg_policy_id out) \<Longrightarrow>
   (\<forall>g \<in> set out. reserved_gate g \<and> pg_policy_fingerprint g = lattice_policy_gate_fingerprint print_double g) \<Longrightarrow>
   distinct (map pg_policy_id gs) \<and>
   (\<forall>g \<in> set gs. reserved_gate g \<and> pg_policy_fingerprint g = lattice_policy_gate_fingerprint print_double g)"
proof (induction print_double blocks out rule: policy_gates_loop.induct)
  case (2 print_double block blocks out)
  show ?case
  proof (cases "kv_name block = ''LATTICE_POLICY_GATE''")
    case True
    then obtain g where g: "decode_lattice_policy_gate_spec_block print_double block = Inr g"
      "pg_policy_id g \<notin> pg_policy_id ` set out" "policy_gates_loop print_double blocks (out @ [g]) = Inr gs"
      using "2.prems"(1) by (auto simp: res_simps split: if_splits)
    show ?thesis
      using "2.IH"(2) [of g] g True "2.prems"(2,3) decoded_gate_reserved [OF g(1)] by auto
  qed (use "2.IH"(1) "2.prems" in auto)
qed simp

text \<open>
  C32: No text switches a policy gate on: every gate among the blocks that is accepted is disabled, of a reserved
  kind, has all the inputs that a gate needs, carries the fingerprint of its own text, and no two have the same id.
\<close>

theorem policy_gates_stay_reserved:
  assumes "policy_gates_loop print_double blocks [] = Inr gs"
  shows "distinct (map pg_policy_id gs) \<and> list_all reserved_gate gs \<and>
    map pg_policy_fingerprint gs = map (lattice_policy_gate_fingerprint print_double) gs"
  using policy_gates_loop_ok [OF assms] by (auto simp: list_all_iff)

definition example_gate_block :: kv_block where
  "example_gate_block = \<lparr>kv_name = ''LATTICE_POLICY_GATE'', kv_values = map_of [(''POLICY_ID'', ''g''),
     (''POLICY_KIND'', ''allocation_acceptance''), (''TARGET_ID'', ''t''), (''METRIC'', ''m''), (''METRIC_DEFINITION'', ''d''),
     (''BASELINE'', ''b''), (''BASELINE_DEFINITION'', ''d''), (''THRESHOLD'', ''0''), (''UNCERTAINTY_POLICY'', ''u''),
     (''UNCERTAINTY_MODEL'', ''u''), (''SUPPORT_MINIMUM'', ''0''), (''SELECTOR_SPLIT'', ''s''), (''ANTI_LEAKAGE_POLICY'', ''a''),
     (''TIE_POLICY'', ''t''), (''NEGATIVE_TESTS'', ''n''), (''CALIBRATION_REQUIREMENTS'', ''c''),
     (''HOLDOUT_DECLARATION'', ''h''), (''THRESHOLD_SELECTION_AUDIT'', ''a''), (''ENABLED'', ''false'')]\<rparr>"

definition example_gate :: policy_gate where
  "example_gate = \<lparr>pg_policy_id = ''g'', pg_policy_kind = ''allocation_acceptance'', pg_target_id = ''t'', pg_metric = ''m'',
     pg_metric_definition = ''d'', pg_baseline = ''b'', pg_baseline_definition = ''d'', pg_threshold = Finite 0,
     pg_uncertainty_policy = ''u'', pg_uncertainty_model = ''u'', pg_support_minimum = Finite 0, pg_selector_split = ''s'',
     pg_anti_leakage_policy = ''a'', pg_tie_policy = ''t'', pg_negative_tests = ''n'', pg_calibration_requirements = ''c'',
     pg_holdout_declaration = ''h'', pg_threshold_selection_audit = ''a'', pg_enabled = False, pg_policy_fingerprint = [],
     pg_status = ''disabled_reserved'', pg_disabled_reason = disabled_reason, pg_fields = lattice_clause_fields_from_block example_gate_block\<rparr>"

lemma example_gate_required:
  "kv_required example_gate_block ''POLICY_ID'' = Inr ''g''"
  "kv_required example_gate_block ''POLICY_KIND'' = Inr ''allocation_acceptance''"
  "kv_required example_gate_block ''TARGET_ID'' = Inr ''t''"
  "kv_required example_gate_block ''METRIC'' = Inr ''m''"
  "kv_required example_gate_block ''METRIC_DEFINITION'' = Inr ''d''"
  "kv_required example_gate_block ''BASELINE'' = Inr ''b''"
  "kv_required example_gate_block ''BASELINE_DEFINITION'' = Inr ''d''"
  "kv_required example_gate_block ''THRESHOLD'' = Inr ''0''"
  "kv_required example_gate_block ''UNCERTAINTY_POLICY'' = Inr ''u''"
  "kv_required example_gate_block ''UNCERTAINTY_MODEL'' = Inr ''u''"
  "kv_required example_gate_block ''SUPPORT_MINIMUM'' = Inr ''0''"
  "kv_required example_gate_block ''SELECTOR_SPLIT'' = Inr ''s''"
  "kv_required example_gate_block ''ANTI_LEAKAGE_POLICY'' = Inr ''a''"
  "kv_required example_gate_block ''TIE_POLICY'' = Inr ''t''"
  "kv_required example_gate_block ''NEGATIVE_TESTS'' = Inr ''n''"
  "kv_required example_gate_block ''CALIBRATION_REQUIREMENTS'' = Inr ''c''"
  "kv_required example_gate_block ''HOLDOUT_DECLARATION'' = Inr ''h''"
  "kv_required example_gate_block ''THRESHOLD_SELECTION_AUDIT'' = Inr ''a''"
  "kv_required example_gate_block ''ENABLED'' = Inr ''false''"
  "kv_optional example_gate_block ''POLICY_FINGERPRINT'' [] = []"
  by code_simp+

lemma example_gate_values:
  "parse_bool ''false'' = Inr False"
  "lowercase ''allocation_acceptance'' = ''allocation_acceptance''" "lowercase ''m'' = ''m''" "lowercase ''b'' = ''b''"
  "lowercase ''u'' = ''u''" "lowercase ''a'' = ''a''" "lowercase ''t'' = ''t''"
  by code_simp+

lemma example_gate_read: "read_policy_gate example_gate_block = Inr example_gate"
  unfolding read_policy_gate_def Let_def example_gate_required example_gate_values parse_double_zero rbind.simps example_gate_def ..

lemma example_gate_ok:
  "kv_name example_gate_block = ''LATTICE_POLICY_GATE''" "pg_policy_fingerprint example_gate = []"
  "list_all (\<lambda>(bad, _). \<not> bad) (policy_gate_checks example_gate)"
proof -
  have "lattice_policy_gate_missing_required_inputs example_gate = []"
    unfolding lattice_policy_gate_missing_required_inputs_def by (simp add: example_gate_def)
  then show "list_all (\<lambda>(bad, _). \<not> bad) (policy_gate_checks example_gate)"
    unfolding policy_gate_checks_def Let_def
    by (simp add: is_reserved_lattice_policy_gate_kind_def) (simp add: example_gate_def)
qed (simp_all add: example_gate_block_def example_gate_def)

lemma example_gate_decodes:
  "decode_lattice_policy_gate_spec_block print_double example_gate_block =
   Inr (example_gate\<lparr>pg_policy_fingerprint := lattice_policy_gate_fingerprint print_double example_gate\<rparr>)"
proof -
  have "run_checks (policy_gate_checks example_gate) = Inr ()"
    using example_gate_ok(3) by (simp add: run_checks_Inr_iff)
  then show ?thesis
    unfolding decode_lattice_policy_gate_spec_block_def by (simp add: example_gate_read example_gate_ok(1,2))
qed

theorem policy_gates_stay_reserved_witness:
  "list_all reserved_gate [example_gate\<lparr>pg_policy_fingerprint := lattice_policy_gate_fingerprint (\<lambda>_. ''0'') example_gate\<rparr>]"
proof -
  have "policy_gates_loop (\<lambda>_. ''0'') [example_gate_block] [] =
    Inr [example_gate\<lparr>pg_policy_fingerprint := lattice_policy_gate_fingerprint (\<lambda>_. ''0'') example_gate\<rparr>]"
    by (simp add: example_gate_decodes example_gate_ok(1))
  from policy_gates_stay_reserved [OF this] show ?thesis by blast
qed

end
