(* ===== verification/Target_Text.thy ===== *)
theory Target_Text
  imports Policy_Gates
begin

text \<open>
  The canonical text of a specification and of a compiled target in \<open>lattice_target.h\<close>, and the fingerprint made
  of it. The text of a \<open>double\<close> in an output stream is the argument \<open>print_double\<close>.
\<close>

definition size_text :: "size option \<Rightarrow> string" where
  "size_text v = (case v of None \<Rightarrow> [] | Some w \<Rightarrow> show_nat (unat w))"

definition append_clause_fields_text :: "clause_fields \<Rightarrow> string" where
  "append_clause_fields_text fs = concat (map (\<lambda>(k, v). text_line (''field.'' @ k) v) fs)"

definition append_string_vector_text :: "string \<Rightarrow> string list \<Rightarrow> string" where
  "append_string_vector_text name xs = text_line name (comma_list (sort xs))"

definition forecast_oracle_text :: "(c_float \<Rightarrow> string) \<Rightarrow> oracle_thresholds \<Rightarrow> string" where
  "forecast_oracle_text print_double t =
     text_line ''synthetic_oracle_max_ev_mae'' (print_double (or_max_ev_mae t)) @
     text_line ''synthetic_oracle_max_ev_rmse'' (print_double (or_max_ev_rmse t)) @
     text_line ''synthetic_oracle_min_directional_accuracy'' (print_double (or_min_directional_accuracy t)) @
     text_line ''synthetic_oracle_max_price_ev_mae'' (print_double (or_max_price_ev_mae t)) @
     text_line ''synthetic_oracle_max_price_ev_rmse'' (print_double (or_max_price_ev_rmse t)) @
     text_line ''synthetic_oracle_max_activity_ev_mae'' (print_double (or_max_activity_ev_mae t)) @
     text_line ''synthetic_oracle_max_activity_ev_rmse'' (print_double (or_max_activity_ev_rmse t)) @
     text_line ''synthetic_oracle_min_close_directional_accuracy'' (print_double (or_min_close_directional_accuracy t))"

definition edge_return_oracle_text :: "(c_float \<Rightarrow> string) \<Rightarrow> oracle_thresholds \<Rightarrow> string" where
  "edge_return_oracle_text print_double t =
     text_line ''synthetic_oracle_max_edge_return_ev_mae'' (print_double (or_max_edge_return_ev_mae t)) @
     text_line ''synthetic_oracle_max_edge_return_ev_rmse'' (print_double (or_max_edge_return_ev_rmse t)) @
     text_line ''synthetic_oracle_min_edge_return_directional_accuracy''
       (print_double (or_min_edge_return_directional_accuracy t)) @
     text_line ''synthetic_oracle_min_edge_return_pairwise_rank_accuracy''
       (print_double (or_min_edge_return_pairwise_rank_accuracy t)) @
     text_line ''synthetic_oracle_min_edge_return_best_asset_agreement''
       (print_double (or_min_edge_return_best_asset_agreement t)) @
     text_line ''synthetic_oracle_min_edge_return_correlation'' (print_double (or_min_edge_return_correlation t))"

definition geometry_requirement_text :: "(c_float \<Rightarrow> string) \<Rightarrow> geometry_requirement \<Rightarrow> string" where
  "geometry_requirement_text print_double r =
     text_line ''representation_geometry_requirement'' (gr_requirement_id r) @
     text_line ''representation_geometry_requirement.metric'' (gr_metric r) @
     text_line ''representation_geometry_requirement.op'' (gr_op r) @
     text_line ''representation_geometry_requirement.value'' (print_double (gr_value r)) @
     text_line ''representation_geometry_requirement.require_mutated_component'' (bool_text (gr_require_mutated_component r))"

definition canonical_lattice_target_spec_text :: "(c_float \<Rightarrow> string) \<Rightarrow> lattice_target_spec \<Rightarrow> string" where
  "canonical_lattice_target_spec_text print_double s =
     text_line ''target_id'' (ts_target_id s) @ text_line ''target_class'' (ts_target_class s) @
     text_line ''target_kind_applicable'' (bool_text (lattice_target_kind_applicable s)) @
     text_line ''kind'' (lattice_target_effective_kind_name s) @
     text_line ''target_kind_effective'' (lattice_target_effective_kind_selector s) @
     text_line ''proof_kind'' (ts_proof_kind s) @ text_line ''subject_fact_family'' (ts_subject_fact_family s) @
     text_line ''protocol_id'' (ts_protocol_id s) @ text_line ''component'' (ts_component s) @
     text_line ''checkpoint_source'' (ts_checkpoint_source s) @
     text_line ''evaluated_checkpoint_source'' (ts_evaluated_checkpoint_source s) @
     text_line ''source_range'' (ts_source_range s) @ text_line ''train_split'' (ts_train_split s) @
     text_line ''anchor_index_begin'' (size_text (ts_anchor_index_begin s)) @
     text_line ''anchor_index_end'' (size_text (ts_anchor_index_end s)) @
     text_line ''upstream_target_id'' (ts_upstream_target_id s) @
     text_line ''require_contract_match'' (bool_text (ts_require_contract_match s)) @
     text_line ''require_component_match'' (bool_text (ts_require_component_match s)) @
     text_line ''require_checkpoint_exists'' (bool_text (ts_require_checkpoint_exists s)) @
     text_line ''require_finite_loss'' (bool_text (ts_require_finite_loss s)) @
     text_line ''min_optimizer_steps'' (show_int (ts_min_optimizer_steps s)) @
     text_line ''min_valid_target_fraction'' (print_double (ts_min_valid_target_fraction s)) @
     text_line ''require_active_node_head_count'' (show_int (ts_require_active_node_head_count s)) @
     text_line ''require_trained_node_head_count'' (show_int (ts_require_trained_node_head_count s)) @
     text_line ''require_evaluated_node_head_count'' (show_int (ts_require_evaluated_node_head_count s)) @
     text_line ''min_observed_input_coverage'' (print_double (ts_min_observed_input_coverage s)) @
     text_line ''min_target_supervision_coverage'' (print_double (ts_min_target_supervision_coverage s)) @
     text_line ''min_evaluation_metric_coverage'' (print_double (ts_min_evaluation_metric_coverage s)) @
     (if is_synthetic_forecast_oracle_gate_target_class (ts_target_class s)
      then forecast_oracle_text print_double (ts_oracle s) else []) @
     (if is_synthetic_edge_return_projection_oracle_gate_target_class (ts_target_class s)
      then edge_return_oracle_text print_double (ts_oracle s) else []) @
     text_line ''forbid_split'' (ts_forbid_split s) @
     text_line ''forbid_exposure_anchor_index_begin'' (size_text (ts_forbid_anchor_index_begin s)) @
     text_line ''forbid_exposure_anchor_index_end'' (size_text (ts_forbid_anchor_index_end s)) @
     text_line ''forbid_exposure_uses'' (join_uses (ts_forbid_exposure_uses s)) @
     text_line ''forbid_exposure_uses_from_split_policy'' (bool_text (ts_forbid_uses_from_split_policy s)) @
     text_line ''forbid_exposure_requires_mutated_component'' (bool_text (ts_forbid_requires_mutated_component s)) @
     concat (map (geometry_requirement_text print_double) (ts_geometry_requirements s))"

definition canonical_lattice_compiled_target_text :: "(c_float \<Rightarrow> string) \<Rightarrow> lattice_target_compiled \<Rightarrow> string" where
  "canonical_lattice_compiled_target_text print_double t =
     canonical_lattice_target_spec_text print_double (lc_lowered_v0 t) @
     append_string_vector_text ''applied_profiles'' (lc_applied_profiles t) @
     append_string_vector_text ''applied_guards'' (lc_applied_guards t) @
     concat (map (\<lambda>c. text_line ''dependency'' (dc_clause_id c) @ append_clause_fields_text (dc_fields c)) (lc_dependencies t)) @
     concat (map (\<lambda>c. text_line ''requirement'' (tc_clause_id c) @ append_clause_fields_text (tc_fields c)) (lc_requirements t)) @
     concat (map (\<lambda>c. text_line ''forbid'' (tc_clause_id c) @ append_clause_fields_text (tc_fields c)) (lc_forbids t))"

definition lattice_target_spec_fingerprint :: "(c_float \<Rightarrow> string) \<Rightarrow> lattice_target_compiled \<Rightarrow> string" where
  "lattice_target_spec_fingerprint print_double t = exposure_digest_for_text
     (''kikijyeba.lattice.target.compiled.v1'' @ [newline] @ canonical_lattice_compiled_target_text print_double t)"

section \<open>The selector of a target\<close>

fun bar_list :: "string list \<Rightarrow> string" where
  "bar_list [] = []"
| "bar_list [x] = x"
| "bar_list (x # y # xs) = x @ ''|'' @ bar_list (y # xs)"

definition lattice_target_selector_key :: "(c_float \<Rightarrow> string) \<Rightarrow> lattice_target_spec \<Rightarrow> string" where
  "lattice_target_selector_key print_double s =
     (let t = ts_oracle s in
      bar_list ([lattice_target_effective_kind_selector s, ts_proof_kind s, ts_subject_fact_family s, ts_protocol_id s,
          ts_component s, ts_target_class s, ts_checkpoint_source s, ts_evaluated_checkpoint_source s, ts_source_range s,
          ts_train_split s, size_text (ts_anchor_index_begin s), size_text (ts_anchor_index_end s)] @
        (if is_synthetic_forecast_oracle_gate_target_class (ts_target_class s) then map print_double
          [or_max_ev_mae t, or_max_ev_rmse t, or_min_directional_accuracy t, or_max_price_ev_mae t, or_max_price_ev_rmse t,
           or_max_activity_ev_mae t, or_max_activity_ev_rmse t, or_min_close_directional_accuracy t] else []) @
        (if is_synthetic_edge_return_projection_oracle_gate_target_class (ts_target_class s) then map print_double
          [or_max_edge_return_ev_mae t, or_max_edge_return_ev_rmse t, or_min_edge_return_directional_accuracy t,
           or_min_edge_return_pairwise_rank_accuracy t, or_min_edge_return_best_asset_agreement t,
           or_min_edge_return_correlation t] else [])))"

text \<open>The warnings of a list of specifications: what their language says, and selectors that two of them share\<close>

fun validate_selectors :: "(c_float \<Rightarrow> string) \<Rightarrow> string list \<Rightarrow> lattice_target_spec list \<Rightarrow> string list" where
  "validate_selectors print_double seen [] = []"
| "validate_selectors print_double seen (s # ss) =
     (let key = lattice_target_selector_key print_double s in
      ts_language_warnings s @
      (if key \<in> set seen then
         [''[lattice_target] duplicate target selector for component='' @ ts_component s @ '' source_range='' @
          ts_source_range s @ ''; multiple targets may be intentional later, but v0 cannot distinguish them without '' @
          ''split/coverage semantics''] else []) @
      validate_selectors print_double (key # seen) ss)"

definition validate_lattice_target_specs :: "(c_float \<Rightarrow> string) \<Rightarrow> lattice_target_spec list \<Rightarrow> string list" where
  "validate_lattice_target_specs print_double specs = validate_selectors print_double [] specs"

text \<open>No warning means that nothing was said twice and no two selectors are the same.\<close>

lemma validate_selectors_silent:
  "(validate_selectors print_double seen ss = []) =
     (list_all (\<lambda>s. ts_language_warnings s = []) ss \<and> distinct (map (lattice_target_selector_key print_double) ss) \<and>
      set seen \<inter> lattice_target_selector_key print_double ` set ss = {})"
  by (induction print_double seen ss rule: validate_selectors.induct) (auto simp: Let_def)

text \<open>
  The validation of a list of targets is silent exactly when no target was written with two names for one thing
  and no two targets have the same selector.
\<close>

theorem validation_silent_iff_distinct_selectors:
  "(validate_lattice_target_specs print_double specs = []) =
     (list_all (\<lambda>s. ts_language_warnings s = []) specs \<and> distinct (map (lattice_target_selector_key print_double) specs))"
  by (simp add: validate_lattice_target_specs_def validate_selectors_silent)

end
