(* ===== verification/Target_Requirements.thy ===== *)
theory Target_Requirements
  imports Target_Clauses
begin

text \<open>
  \<open>LATTICE_REQUIRES\<close> in \<open>lattice_target.h\<close>: the vocabulary of metrics of representation geometry and what a
  requirement of each kind does to the specification of its target.
\<close>

section \<open>Metrics of representation geometry\<close>

text \<open>A metric, where it comes from, its unit, the direction of its threshold, and what it is used for.\<close>

record geometry_metric =
  gm_metric :: string
  gm_statistic_family :: string
  gm_required_runtime_fields :: "string list"
  gm_unit :: string
  gm_threshold_direction :: string
  gm_warning_kind :: string
  gm_readiness_effect :: string
  gm_v1_authority :: string
  gm_available_in_v1 :: bool
  gm_geometry_metric :: bool
  gm_performance_gate :: bool
  gm_future_hard_gate_candidate :: bool

definition lattice_representation_geometry_vocabulary :: "geometry_metric list" where
  "lattice_representation_geometry_vocabulary =
     [geometry_metric.make ''mean_invariance_loss'' ''vicreg_loss_component''
        [''lattice.exposure.fact.mean_invariance_loss''] ''loss'' ''above''
        ''representation_health'' ''non_blocking_warning_only'' ''representation_health_facts'' True False False True,
      geometry_metric.make ''mean_variance_loss'' ''vicreg_loss_component''
        [''lattice.exposure.fact.mean_variance_loss''] ''loss'' ''above''
        ''representation_health'' ''non_blocking_warning_only'' ''representation_health_facts'' True False False True,
      geometry_metric.make ''mean_covariance_loss'' ''vicreg_loss_component''
        [''lattice.exposure.fact.mean_covariance_loss''] ''loss'' ''above''
        ''representation_health'' ''non_blocking_warning_only'' ''representation_health_facts'' True False False True,
      geometry_metric.make ''last_grad_norm'' ''optimization_health''
        [''lattice.exposure.fact.last_grad_norm''] ''gradient_norm'' ''above''
        ''representation_health'' ''non_blocking_warning_only'' ''representation_health_facts'' True False False False,
      geometry_metric.make ''max_grad_norm'' ''optimization_health''
        [''lattice.exposure.fact.max_grad_norm''] ''gradient_norm'' ''above''
        ''representation_health'' ''non_blocking_warning_only'' ''representation_health_facts'' True False False False,
      geometry_metric.make ''total_valid_projection_rows'' ''projection_support''
        [''lattice.exposure.fact.total_valid_projection_rows''] ''count'' ''below''
        ''representation_health'' ''non_blocking_warning_only'' ''representation_health_facts'' True False False False,
      geometry_metric.make ''mean_adapter_valid_channel_time_fraction'' ''adapter_support''
        [''lattice.exposure.fact.mean_adapter_valid_channel_time_fraction''] ''fraction'' ''below''
        ''representation_health'' ''non_blocking_warning_only'' ''representation_health_facts'' True False False False,
      geometry_metric.make ''augmented_valid_feature_count'' ''augmented_view_support''
        [''lattice.exposure.fact.augmented_valid_feature_count''] ''count'' ''below''
        ''representation_health'' ''non_blocking_warning_only'' ''representation_health_facts'' True False False False,
      geometry_metric.make ''mean_augmented_valid_feature_fraction'' ''augmented_view_support''
        [''lattice.exposure.fact.mean_augmented_valid_feature_fraction''] ''fraction'' ''below''
        ''representation_health'' ''non_blocking_warning_only'' ''representation_health_facts'' True False False False,
      geometry_metric.make ''mean_augmented_feature_retention_fraction'' ''augmented_view_support''
        [''lattice.exposure.fact.mean_augmented_feature_retention_fraction''] ''fraction'' ''below''
        ''representation_health'' ''non_blocking_warning_only'' ''representation_health_facts'' True False False False,
      geometry_metric.make ''finite_parameter_check'' ''parameter_sanity''
        [''lattice.exposure.fact.finite_parameter_check''] ''boolean'' ''below''
        ''representation_health'' ''non_blocking_warning_only'' ''representation_health_facts'' True False False True,
      geometry_metric.make ''representation_embedding_dim'' ''geometry_dimension''
        [''lattice.exposure.fact.representation_embedding_dim''] ''count'' ''below''
        ''representation_health'' ''non_blocking_warning_only'' ''representation_health_facts'' True True False True,
      geometry_metric.make ''representation_effective_rank'' ''spectrum_effective_rank''
        [''lattice.exposure.fact.representation_effective_rank''] ''rank'' ''below''
        ''representation_health'' ''non_blocking_warning_only'' ''representation_health_facts'' True True False True,
      geometry_metric.make ''representation_effective_rank_fraction'' ''spectrum_effective_rank''
        [''lattice.exposure.fact.representation_effective_rank_fraction''] ''fraction'' ''below''
        ''representation_health'' ''non_blocking_warning_only'' ''representation_health_facts'' True True False True,
      geometry_metric.make ''representation_min_dimension_variance'' ''variance_floor''
        [''lattice.exposure.fact.representation_min_dimension_variance''] ''variance'' ''below''
        ''representation_health'' ''non_blocking_warning_only'' ''representation_health_facts'' True True False True,
      geometry_metric.make ''representation_max_dimension_variance'' ''variance_ceiling''
        [''lattice.exposure.fact.representation_max_dimension_variance''] ''variance'' ''above''
        ''representation_health'' ''non_blocking_warning_only'' ''representation_health_facts'' True True False True,
      geometry_metric.make ''representation_condition_number'' ''spectrum_conditioning''
        [''lattice.exposure.fact.representation_condition_number''] ''condition_number'' ''above''
        ''representation_health'' ''non_blocking_warning_only'' ''representation_health_facts'' True True False True,
      geometry_metric.make ''representation_isotropy_score'' ''spectrum_isotropy''
        [''lattice.exposure.fact.representation_isotropy_score''] ''fraction'' ''below''
        ''representation_health'' ''non_blocking_warning_only'' ''representation_health_facts'' True True False True]"

definition lattice_representation_geometry_metric_entry :: "string \<Rightarrow> geometry_metric option" where
  "lattice_representation_geometry_metric_entry metric =
     List.find (\<lambda>e. gm_metric e = metric) lattice_representation_geometry_vocabulary"

definition lattice_representation_geometry_metric_high_is_bad :: "string \<Rightarrow> bool" where
  "lattice_representation_geometry_metric_high_is_bad metric \<longleftrightarrow>
     metric \<in> {''mean_invariance_loss'', ''mean_variance_loss'', ''mean_covariance_loss'', ''last_grad_norm'',
       ''max_grad_norm'', ''representation_max_dimension_variance'', ''representation_condition_number''}"

definition lattice_representation_geometry_metric_low_is_bad :: "string \<Rightarrow> bool" where
  "lattice_representation_geometry_metric_low_is_bad metric \<longleftrightarrow>
     metric \<in> {''total_valid_projection_rows'', ''mean_adapter_valid_channel_time_fraction'',
       ''augmented_valid_feature_count'', ''mean_augmented_valid_feature_fraction'',
       ''mean_augmented_feature_retention_fraction'', ''finite_parameter_check'', ''representation_embedding_dim'',
       ''representation_effective_rank'', ''representation_effective_rank_fraction'',
       ''representation_min_dimension_variance'', ''representation_isotropy_score''}"

text \<open>Every metric of the vocabulary is bad in exactly one direction, the one of its threshold.\<close>

lemma vocabulary_directions:
  "list_all (\<lambda>e. (gm_threshold_direction e = ''above'') = lattice_representation_geometry_metric_high_is_bad (gm_metric e) \<and>
      (gm_threshold_direction e = ''below'') = lattice_representation_geometry_metric_low_is_bad (gm_metric e))
     lattice_representation_geometry_vocabulary"
  by (simp add: lattice_representation_geometry_vocabulary_def geometry_metric.defs
      lattice_representation_geometry_metric_high_is_bad_def lattice_representation_geometry_metric_low_is_bad_def)

definition require_representation_geometry_threshold_dimension :: "string \<Rightarrow> c_float \<Rightarrow> string \<Rightarrow> string \<Rightarrow> check list" where
  "require_representation_geometry_threshold_dimension metric v field tid =
     (let finite' = (\<not> is_finite v, field @ '' must be finite for '' @ tid);
        non_negative = (float_less v (Finite 0), field @ '' must be non-negative for '' @ tid) in
      if metric \<in> {''mean_adapter_valid_channel_time_fraction'', ''mean_augmented_valid_feature_fraction'',
          ''mean_augmented_feature_retention_fraction'', ''finite_parameter_check'',
          ''representation_effective_rank_fraction'', ''representation_isotropy_score''} then
        [finite', (float_less v (Finite 0) \<or> float_less (Finite 1) v, field @ '' must be a fraction in [0, 1] for '' @ tid)]
      else if metric \<in> {''total_valid_projection_rows'', ''augmented_valid_feature_count'', ''representation_embedding_dim''} then
        [finite', non_negative, (\<not> is_integral v, field @ '' must be an integral count threshold for '' @ tid)]
      else if metric = ''representation_condition_number'' then
        [finite', (float_less v (Finite 1), field @ '' must be a condition_number value >= 1 for '' @ tid)]
      else [finite', non_negative])"

section \<open>Requirements\<close>

text \<open>The value of a requirement, which may be called its minimum\<close>

definition requirement_value :: "kv_block \<Rightarrow> string \<Rightarrow> string" where
  "requirement_value block fallback = kv_optional block ''VALUE'' (kv_optional block ''MIN_VALUE'' fallback)"

definition requires_op_ge :: "kv_block \<Rightarrow> string \<Rightarrow> string \<Rightarrow> check list" where
  "requires_op_ge block kind tid =
     [(lowercase (kv_optional block ''OP'' ''ge'') \<noteq> ''ge'',
       ''LATTICE_REQUIRES '' @ kind @ '' only supports OP=ge for '' @ tid)]"

definition requires_artifact :: "kv_block \<Rightarrow> lattice_target_spec \<Rightarrow> lattice_target_spec result" where
  "requires_artifact block spec =
     rbind (run_checks [(lowercase (kv_optional block ''ARTIFACT'' ''output_checkpoint'') \<noteq> ''output_checkpoint'',
       ''LATTICE_REQUIRES artifact only supports output_checkpoint for '' @ ts_target_id spec)]) (\<lambda>_.
     rbind (require_lowered_bool_true (kv_optional block ''EXISTS'' ''true'') ''EXISTS'' (ts_target_id spec)) (\<lambda>_.
     Inr (spec\<lparr>ts_require_checkpoint_exists := True\<rparr>)))"

definition requires_metric :: "kv_block \<Rightarrow> lattice_target_spec \<Rightarrow> lattice_target_spec result" where
  "requires_metric block spec =
     rbind (run_checks
       [(lowercase (kv_optional block ''OP'' ''finite'') \<noteq> ''finite'',
          ''LATTICE_REQUIRES metric only supports OP=finite for '' @ ts_target_id spec),
        (lowercase (kv_optional block ''METRIC'' ''loss'') \<notin> {''loss'', ''mean_loss'', ''mean_nll''},
          ''LATTICE_REQUIRES metric only supports loss, mean_loss, or mean_nll for '' @ ts_target_id spec)]) (\<lambda>_.
     Inr (spec\<lparr>ts_require_finite_loss := True\<rparr>))"

definition requires_effort :: "kv_block \<Rightarrow> lattice_target_spec \<Rightarrow> lattice_target_spec result" where
  "requires_effort block spec =
     rbind (run_checks
       [(lowercase (kv_optional block ''COUNTER'' (kv_optional block ''METRIC'' [])) \<noteq> ''optimizer_steps'' \<or>
           lowercase (kv_optional block ''OP'' ''ge'') \<noteq> ''ge'',
          ''LATTICE_REQUIRES effort only supports optimizer_steps >= VALUE for '' @ ts_target_id spec)]) (\<lambda>_.
     rbind (parse_i64 (requirement_value block ''0'')) (\<lambda>v.
     rbind (run_checks [(v < 0, ''optimizer step requirement must be non-negative for '' @ ts_target_id spec)]) (\<lambda>_.
     Inr (spec\<lparr>ts_min_optimizer_steps := max (ts_min_optimizer_steps spec) v\<rparr>))))"

definition requires_valid_target_fraction :: "kv_block \<Rightarrow> lattice_target_spec \<Rightarrow> lattice_target_spec result" where
  "requires_valid_target_fraction block spec =
     rbind (run_checks (requires_op_ge block ''valid_target_fraction'' (ts_target_id spec))) (\<lambda>_.
     rbind (parse_double (requirement_value block ''0'')) (\<lambda>v.
     rbind (run_checks (fraction_dimension v ''valid_target_fraction VALUE'' (ts_target_id spec))) (\<lambda>_.
     Inr (spec\<lparr>ts_min_valid_target_fraction := float_max (ts_min_valid_target_fraction spec) v\<rparr>))))"

definition requires_node_head_count :: "kv_block \<Rightarrow> lattice_target_spec \<Rightarrow> lattice_target_spec result" where
  "requires_node_head_count block spec =
     rbind (kv_required block ''HEAD'') (\<lambda>raw_head.
     rbind (run_checks (requires_op_ge block ''node_head_count'' (ts_target_id spec))) (\<lambda>_.
     rbind (kv_required block ''VALUE'') (\<lambda>raw.
     rbind (parse_i64 raw) (\<lambda>v.
     rbind (run_checks [(v < 0, ''node head count requirement must be non-negative for '' @ ts_target_id spec)]) (\<lambda>_.
     let head = lowercase raw_head in
     if head = ''active'' then
       Inr (spec\<lparr>ts_require_active_node_head_count := max (ts_require_active_node_head_count spec) v\<rparr>)
     else if head = ''trained'' then
       Inr (spec\<lparr>ts_require_trained_node_head_count := max (ts_require_trained_node_head_count spec) v\<rparr>)
     else if head = ''evaluated'' then
       Inr (spec\<lparr>ts_require_evaluated_node_head_count := max (ts_require_evaluated_node_head_count spec) v\<rparr>)
     else throw_target (''LATTICE_REQUIRES node_head_count HEAD must be active, trained, or evaluated for '' @
       ts_target_id spec))))))"

definition coverage_use :: "kv_block \<Rightarrow> lattice_target_spec \<Rightarrow> exposure_use result" where
  "coverage_use block spec =
     (let raw = kv_optional block ''USE'' [] in
      if trim raw \<noteq> [] then parse_exposure_use raw
      else case default_exposure_coverage_use_for_target spec of
        None \<Rightarrow> throw_target (''LATTICE_REQUIRES exposure_coverage requires USE for '' @ ts_target_id spec)
      | Some u \<Rightarrow> Inr u)"

definition coverage_split :: "kv_block \<Rightarrow> lattice_target_spec \<Rightarrow> lattice_target_spec result" where
  "coverage_split block spec =
     (let split = kv_optional block ''SPLIT'' (ts_train_split spec) in
      if split = [] then Inr spec
      else rbind (assign_or_confirm_string (ts_train_split spec) split ''OVER_SPLIT'' (ts_target_id spec)) (\<lambda>s.
        require_anchor_index_source_range ''exposure_coverage'' (spec\<lparr>ts_train_split := s\<rparr>)))"

definition coverage_minimum :: "kv_block \<Rightarrow> string \<Rightarrow> c_float result" where
  "coverage_minimum block tid =
     (let raw = kv_optional block ''MIN_COVERAGE'' (kv_optional block ''CURSOR_EPOCHS''
        (kv_optional block ''MIN_CURSOR_EPOCHS'' [])) in
      rbind (run_checks [(trim raw = [],
        ''LATTICE_REQUIRES exposure_coverage requires MIN_COVERAGE or CURSOR_EPOCHS for '' @ tid)]) (\<lambda>_.
      rbind (parse_double raw) (\<lambda>v.
      rbind (run_checks (fraction_dimension v ''exposure_coverage CURSOR_EPOCHS'' tid)) (\<lambda>_. Inr v))))"

definition raise_coverage :: "exposure_use \<Rightarrow> string \<Rightarrow> c_float \<Rightarrow> lattice_target_spec \<Rightarrow> lattice_target_spec result" where
  "raise_coverage use effect v spec =
     (case use of
        ObservedInput \<Rightarrow> rbind (run_checks [(effect \<noteq> ''mutated_component'',
            ''observed_input exposure_coverage v0 requires EFFECT=mutated_component for '' @ ts_target_id spec)])
          (\<lambda>_. Inr (spec\<lparr>ts_min_observed_input_coverage := float_max (ts_min_observed_input_coverage spec) v\<rparr>))
      | TargetSupervision \<Rightarrow> rbind (run_checks [(effect \<noteq> ''mutated_component'',
            ''target_supervision exposure_coverage v0 requires EFFECT=mutated_component for '' @ ts_target_id spec)])
          (\<lambda>_. Inr (spec\<lparr>ts_min_target_supervision_coverage := float_max (ts_min_target_supervision_coverage spec) v\<rparr>))
      | EvaluationMetric \<Rightarrow> rbind (run_checks [(effect \<noteq> ''any'' \<and> effect \<noteq> ''none'',
            ''evaluation_metric exposure_coverage v0 requires EFFECT=any or EFFECT=none for '' @ ts_target_id spec)])
          (\<lambda>_. Inr (spec\<lparr>ts_min_evaluation_metric_coverage := float_max (ts_min_evaluation_metric_coverage spec) v\<rparr>))
      | _ \<Rightarrow> throw_target (''LATTICE_REQUIRES exposure_coverage only supports observed_input, target_supervision, or '' @
          ''evaluation_metric for '' @ ts_target_id spec))"

definition requires_exposure_coverage :: "kv_block \<Rightarrow> lattice_target_spec \<Rightarrow> lattice_target_spec result" where
  "requires_exposure_coverage block spec =
     rbind (coverage_use block spec) (\<lambda>use.
     rbind (coverage_split block spec) (\<lambda>spec.
     let evidence = lowercase (kv_optional block ''EVIDENCE_SCOPE'' ''output_checkpoint_closure'');
       scope = lowercase (kv_optional block ''COMPONENT_SCOPE'' (kv_optional block ''SCOPE'' ''target_component_family_id''));
       effect = lowercase (kv_optional block ''EFFECT''
         (if use = EvaluationMetric then ''none'' else ''mutated_component''));
       coordinate = lowercase (kv_optional block ''COORDINATE'' ''graph_anchor_coverage'') in
     rbind (run_checks [((evidence \<noteq> ''output_checkpoint_closure'' \<and> evidence \<noteq> ''target_component_family_id'') \<or>
         scope \<noteq> ''target_component_family_id'' \<or> coordinate \<noteq> ''graph_anchor_coverage'',
       ''LATTICE_REQUIRES exposure_coverage v0 requires EVIDENCE_SCOPE=output_checkpoint_closure or '' @
       ''target_component_family_id, COMPONENT_SCOPE=target_component_family_id, and COORDINATE=graph_anchor_coverage for '' @
       ts_target_id spec)]) (\<lambda>_.
     rbind (coverage_minimum block (ts_target_id spec)) (\<lambda>v.
     raise_coverage use effect v spec))))"

definition geometry_op :: "string \<Rightarrow> string" where
  "geometry_op op = (if op = ''gte'' then ''ge'' else if op = ''lte'' then ''le'' else op)"

definition decode_geometry_requirement :: "kv_block \<Rightarrow> lattice_target_spec \<Rightarrow> geometry_requirement result" where
  "decode_geometry_requirement block spec =
     (let tid = ts_target_id spec;
        rid = kv_optional block ''REQUIREMENT_ID''
          (auto_clause_id ''requires_geometry'' tid (length (ts_geometry_requirements spec))) in
      rbind (kv_required block ''METRIC'') (\<lambda>raw_metric.
      let metric = lowercase raw_metric; high = lattice_representation_geometry_metric_high_is_bad metric;
        op = geometry_op (lowercase (kv_optional block ''OP'' (if high then ''le'' else ''ge'')));
        raw = requirement_value block [];
        effect = lowercase (kv_optional block ''EFFECT'' ''mutated_component'') in
      rbind (run_checks
        [(lattice_representation_geometry_metric_entry metric = None,
           ''LATTICE_REQUIRES representation_geometry METRIC is unsupported for '' @ tid),
         (\<not> list_ex (\<lambda>e. gm_metric e = metric \<and> gm_future_hard_gate_candidate e) lattice_representation_geometry_vocabulary,
           ''LATTICE_REQUIRES representation_geometry METRIC is not a future hard-gate candidate for '' @ tid),
         (op \<noteq> ''ge'' \<and> op \<noteq> ''le'', ''LATTICE_REQUIRES representation_geometry only supports OP=ge or OP=le for '' @ tid),
         (high \<and> op \<noteq> ''le'', ''LATTICE_REQUIRES representation_geometry '' @ metric @ '' uses OP=le for '' @ tid),
         (lattice_representation_geometry_metric_low_is_bad metric \<and> op \<noteq> ''ge'',
           ''LATTICE_REQUIRES representation_geometry '' @ metric @ '' uses OP=ge for '' @ tid),
         (trim raw = [], ''LATTICE_REQUIRES representation_geometry requires VALUE for '' @ tid)]) (\<lambda>_.
      rbind (parse_double raw) (\<lambda>v.
      rbind (run_checks (require_representation_geometry_threshold_dimension metric v ''VALUE'' tid @
        [(effect \<notin> {''mutated_component'', ''any'', ''none''},
          ''LATTICE_REQUIRES representation_geometry EFFECT must be mutated_component, any, or none for '' @ tid)])) (\<lambda>_.
      Inr \<lparr>gr_requirement_id = rid, gr_metric = metric, gr_op = op, gr_value = v,
        gr_require_mutated_component = (effect = ''mutated_component'')\<rparr>)))))"

definition requires_representation_geometry :: "kv_block \<Rightarrow> lattice_target_spec \<Rightarrow> lattice_target_spec result" where
  "requires_representation_geometry block spec =
     rbind (run_checks [(ts_kind spec \<noteq> Vicreg_Ready \<and> ts_kind spec \<noteq> Mtf_Representation_Ready,
       ''LATTICE_REQUIRES representation_geometry only supports representation targets for '' @ ts_target_id spec)]) (\<lambda>_.
     rbind (decode_geometry_requirement block spec) (\<lambda>r.
     Inr (spec\<lparr>ts_geometry_requirements := ts_geometry_requirements spec @ [r]\<rparr>)))"

definition apply_lattice_requires_clause :: "kv_block \<Rightarrow> lattice_target_spec \<Rightarrow> lattice_target_spec result" where
  "apply_lattice_requires_clause block spec =
     rbind (kv_required block ''KIND'') (\<lambda>raw_kind.
     let kind = lowercase raw_kind in
     if kind = ''artifact'' then requires_artifact block spec
     else if kind = ''metric'' then requires_metric block spec
     else if kind = ''effort'' then requires_effort block spec
     else if kind = ''valid_target_fraction'' then requires_valid_target_fraction block spec
     else if kind = ''node_head_count'' then requires_node_head_count block spec
     else if kind = ''exposure_coverage'' then requires_exposure_coverage block spec
     else if kind = ''representation_geometry'' then requires_representation_geometry block spec
     else throw_target (''unsupported LATTICE_REQUIRES KIND '' @ kind @ '' for '' @ ts_target_id spec))"

section \<open>Requirements only strengthen\<close>

definition thresholds_ok :: "lattice_target_spec \<Rightarrow> bool" where
  "thresholds_ok spec \<longleftrightarrow> 0 \<le> ts_min_optimizer_steps spec \<and> is_fraction (ts_min_valid_target_fraction spec) \<and>
     is_fraction (ts_min_observed_input_coverage spec) \<and> is_fraction (ts_min_target_supervision_coverage spec) \<and>
     is_fraction (ts_min_evaluation_metric_coverage spec) \<and> 0 \<le> ts_require_active_node_head_count spec \<and>
     0 \<le> ts_require_trained_node_head_count spec \<and> 0 \<le> ts_require_evaluated_node_head_count spec"

definition float_le :: "c_float \<Rightarrow> c_float \<Rightarrow> bool" where
  "float_le a b \<longleftrightarrow> a = b \<or> float_less a b"

text \<open>
  The second specification demands all that the first does, and leaves what it forbids and how it is planned
  alone.
\<close>

definition strengthens :: "lattice_target_spec \<Rightarrow> lattice_target_spec \<Rightarrow> bool" where
  "strengthens s t \<longleftrightarrow>
     ts_min_optimizer_steps s \<le> ts_min_optimizer_steps t \<and>
     float_le (ts_min_valid_target_fraction s) (ts_min_valid_target_fraction t) \<and>
     float_le (ts_min_observed_input_coverage s) (ts_min_observed_input_coverage t) \<and>
     float_le (ts_min_target_supervision_coverage s) (ts_min_target_supervision_coverage t) \<and>
     float_le (ts_min_evaluation_metric_coverage s) (ts_min_evaluation_metric_coverage t) \<and>
     ts_require_active_node_head_count s \<le> ts_require_active_node_head_count t \<and>
     ts_require_trained_node_head_count s \<le> ts_require_trained_node_head_count t \<and>
     ts_require_evaluated_node_head_count s \<le> ts_require_evaluated_node_head_count t \<and>
     (ts_require_checkpoint_exists s \<longrightarrow> ts_require_checkpoint_exists t) \<and>
     (ts_require_finite_loss s \<longrightarrow> ts_require_finite_loss t) \<and>
     take (length (ts_geometry_requirements s)) (ts_geometry_requirements t) = ts_geometry_requirements s \<and>
     (ts_train_split s \<noteq> [] \<longrightarrow> ts_train_split t = ts_train_split s) \<and>
     ts_forbid_split t = ts_forbid_split s \<and> ts_forbid_anchor_index_begin t = ts_forbid_anchor_index_begin s \<and>
     ts_forbid_anchor_index_end t = ts_forbid_anchor_index_end s \<and> ts_forbid_exposure_uses t = ts_forbid_exposure_uses s \<and>
     ts_plan_mode t = ts_plan_mode s \<and> ts_plan_input_mdn_checkpoint t = ts_plan_input_mdn_checkpoint s \<and>
     ts_plan_input_representation_checkpoint t = ts_plan_input_representation_checkpoint s \<and> ts_max_waves t = ts_max_waves s"

text \<open>What no clause but a dependency, a guard or a plan changes\<close>

definition same_subject :: "lattice_target_spec \<Rightarrow> lattice_target_spec \<Rightarrow> bool" where
  "same_subject s t \<longleftrightarrow> ts_target_id t = ts_target_id s \<and> ts_target_class t = ts_target_class s \<and> ts_kind t = ts_kind s \<and>
     ts_target_kind_applicable t = ts_target_kind_applicable s \<and> ts_checkpoint_source t = ts_checkpoint_source s \<and>
     ts_evaluated_checkpoint_source t = ts_evaluated_checkpoint_source s \<and>
     ts_anchor_index_begin t = ts_anchor_index_begin s \<and> ts_anchor_index_end t = ts_anchor_index_end s"

lemma float_le_refl [simp]: "float_le a a"
  by (simp add: float_le_def)

lemma float_le_max [simp]: "float_le a (float_max a b)"
  by (simp add: float_le_def float_max_def)

lemma is_fraction_max: "is_fraction a \<Longrightarrow> is_fraction b \<Longrightarrow> is_fraction (float_max a b)"
  by (simp add: float_max_def)

lemma coverage_split_Inr:
  assumes "coverage_split block spec = Inr t"
  shows "\<exists>s r. t = spec\<lparr>ts_train_split := s, ts_source_range := r\<rparr> \<and> (ts_train_split spec \<noteq> [] \<longrightarrow> s = ts_train_split spec)"
proof (cases "kv_optional block ''SPLIT'' (ts_train_split spec) = []")
  case True
  then have "t = spec\<lparr>ts_train_split := ts_train_split spec, ts_source_range := ts_source_range spec\<rparr>"
    using assms by (simp add: coverage_split_def)
  then show ?thesis by blast
next
  case False
  then obtain s where s: "assign_or_confirm_string (ts_train_split spec) (kv_optional block ''SPLIT'' (ts_train_split spec))
      ''OVER_SPLIT'' (ts_target_id spec) = Inr s"
    and t: "require_anchor_index_source_range ''exposure_coverage'' (spec\<lparr>ts_train_split := s\<rparr>) = Inr t"
    using assms by (auto simp: coverage_split_def Let_def res_simps)
  from s have "ts_train_split spec \<noteq> [] \<longrightarrow> s = ts_train_split spec"
    by (auto simp: assign_or_confirm_string_def throw_target_def split: if_splits)
  moreover from t have "\<exists>r. t = spec\<lparr>ts_train_split := s, ts_source_range := r\<rparr>"
    by (cases spec) (auto simp: require_anchor_index_source_range_def split: if_splits)
  ultimately show ?thesis by blast
qed

lemmas requires_defs = requires_artifact_def requires_metric_def requires_effort_def requires_valid_target_fraction_def
  requires_node_head_count_def requires_representation_geometry_def coverage_minimum_def

lemma requires_exposure_coverage_strengthens:
  assumes "requires_exposure_coverage block spec = Inr t"
  shows "strengthens spec t \<and> same_subject spec t \<and> (thresholds_ok spec \<longrightarrow> thresholds_ok t)"
proof -
  obtain use u v effect where u: "coverage_split block spec = Inr u"
    and v: "coverage_minimum block (ts_target_id u) = Inr v" and t: "raise_coverage use effect v u = Inr t"
    using assms by (auto simp: requires_exposure_coverage_def res_simps Let_def)
  obtain s r where su: "u = spec\<lparr>ts_train_split := s, ts_source_range := r\<rparr>"
    and s: "ts_train_split spec \<noteq> [] \<longrightarrow> s = ts_train_split spec"
    using coverage_split_Inr [OF u] by blast
  have "is_fraction v"
    using v by (auto simp: coverage_minimum_def res_simps Let_def fraction_dimension_ok)
  then show ?thesis
    using t s su by (auto simp: raise_coverage_def strengthens_def same_subject_def thresholds_ok_def is_fraction_max res_simps
        split: exposure_use.splits)
qed

lemma apply_lattice_requires_clause_strengthens:
  assumes "apply_lattice_requires_clause block spec = Inr t"
  shows "strengthens spec t \<and> same_subject spec t \<and> (thresholds_ok spec \<longrightarrow> thresholds_ok t)"
proof -
  obtain kind where kind: "(if kind = ''artifact'' then requires_artifact block spec
     else if kind = ''metric'' then requires_metric block spec
     else if kind = ''effort'' then requires_effort block spec
     else if kind = ''valid_target_fraction'' then requires_valid_target_fraction block spec
     else if kind = ''node_head_count'' then requires_node_head_count block spec
     else if kind = ''exposure_coverage'' then requires_exposure_coverage block spec
     else if kind = ''representation_geometry'' then requires_representation_geometry block spec
     else throw_target (''unsupported LATTICE_REQUIRES KIND '' @ kind @ '' for '' @ ts_target_id spec)) = Inr t"
    using assms by (auto simp only: apply_lattice_requires_clause_def Let_def res_simps)
  consider "requires_artifact block spec = Inr t" | "requires_metric block spec = Inr t" | "requires_effort block spec = Inr t"
    | "requires_valid_target_fraction block spec = Inr t" | "requires_node_head_count block spec = Inr t"
    | "requires_exposure_coverage block spec = Inr t" | "requires_representation_geometry block spec = Inr t"
    using kind by (simp split: if_splits)
  then show ?thesis
  proof cases
    case 6
    then show ?thesis by (rule requires_exposure_coverage_strengthens)
  qed (auto simp: requires_defs strengthens_def same_subject_def thresholds_ok_def is_fraction_max res_simps Let_def
      fraction_dimension_ok split: if_splits)
qed

text \<open>
  C17: A \<open>LATTICE_REQUIRES\<close> clause of any kind only strengthens its target: no count or coverage that is
  required becomes smaller, no requirement is dropped, and a split that is set stays. Thresholds in bounds
  stay in bounds, and what the target forbids and how it is planned stays as it is.
\<close>

theorem requires_only_strengthen:
  assumes "apply_lattice_requires_clause block spec = Inr t" "thresholds_ok spec"
  shows "strengthens spec t \<and> thresholds_ok t"
  using apply_lattice_requires_clause_strengthens [OF assms(1)] assms(2) by blast

theorem requires_only_strengthen_witness:
  "strengthens (default_target_spec\<lparr>ts_min_optimizer_steps := 500\<rparr>) (default_target_spec\<lparr>ts_min_optimizer_steps := 500\<rparr>) \<and>
   thresholds_ok (default_target_spec\<lparr>ts_min_optimizer_steps := 500\<rparr>)"
proof (rule requires_only_strengthen [where block = "\<lparr>kv_name = ''LATTICE_REQUIRES'',
      kv_values = [''KIND'' \<mapsto> ''effort'', ''COUNTER'' \<mapsto> ''optimizer_steps'', ''VALUE'' \<mapsto> ''200'']\<rparr>"])
qed (simp_all add: thresholds_ok_def default_target_spec_def is_fraction_def, code_simp)

end
