(* ===== verification/Target_Decode.thy ===== *)
theory Target_Decode
  imports Target_Requirements
begin

text \<open>
  \<open>decode_lattice_target_spec_block\<close> of \<open>lattice_target.h\<close>, in the order of its parts: class, kind, subject,
  scope, ranges, thresholds, protection, plan, and the checks at its end. The checks that the validation of
  the lowered specification repeats are lists of their own.
\<close>

section \<open>Classes of targets\<close>

definition kindless :: "lattice_target_spec \<Rightarrow> bool" where
  "kindless spec \<longleftrightarrow> is_kindless_lattice_target_class (ts_target_class spec)"

definition forecast_gate :: "lattice_target_spec \<Rightarrow> bool" where
  "forecast_gate spec \<longleftrightarrow> is_synthetic_forecast_oracle_gate_target_class (ts_target_class spec)"

definition edge_return_gate :: "lattice_target_spec \<Rightarrow> bool" where
  "edge_return_gate spec \<longleftrightarrow> is_synthetic_edge_return_projection_oracle_gate_target_class (ts_target_class spec)"

definition handoff :: "lattice_target_spec \<Rightarrow> bool" where
  "handoff spec \<longleftrightarrow> is_policy_execution_input_handoff_target_class (ts_target_class spec)"

text \<open>The classes that dispatch no wave\<close>

definition non_dispatch :: "lattice_target_spec \<Rightarrow> bool" where
  "non_dispatch spec \<longleftrightarrow> is_artifact_readiness_target_class (ts_target_class spec) \<or> forecast_gate spec \<or> edge_return_gate spec"

definition non_dispatch_class :: "lattice_target_spec \<Rightarrow> string" where
  "non_dispatch_class spec =
     (if is_artifact_readiness_target_class (ts_target_class spec) then ''artifact_readiness'' else ts_target_class spec)"

section \<open>Checks that decoding and validation share\<close>

definition starts_latest :: "string \<Rightarrow> bool" where
  "starts_latest s \<longleftrightarrow> take (length latest_prefix) s = latest_prefix"

definition checkpoint_source_checks :: "lattice_target_spec \<Rightarrow> check list" where
  "checkpoint_source_checks spec =
     (let tid = ts_target_id spec; source = lowercase (trim (ts_checkpoint_source spec)) in
      [(kindless spec \<and> source \<noteq> ''none'', ts_target_class spec @ '' targets must use CHECKPOINT_SOURCE=none for '' @ tid),
       (\<not> kindless spec \<and> source \<noteq> ''output_checkpoint'' \<and> \<not> starts_latest source,
         ''CHECKPOINT_SOURCE must be output_checkpoint or latest_satisfying:<target_id> for '' @ tid),
       (\<not> kindless spec \<and> starts_latest source \<and> trim (drop (length latest_prefix) (ts_checkpoint_source spec)) = [],
         ''CHECKPOINT_SOURCE latest_satisfying requires a target id for '' @ tid)])"

definition latest_satisfying_checks :: "string \<Rightarrow> string \<Rightarrow> string \<Rightarrow> check list" where
  "latest_satisfying_checks v field tid =
     (let lowered = lowercase (trim v) in
      [(lowered \<noteq> [] \<and> \<not> starts_latest lowered, field @ '' must be latest_satisfying:<target_id> for '' @ tid),
       (lowered \<noteq> [] \<and> trim (drop (length latest_prefix) v) = [],
         field @ '' latest_satisfying requires a target id for '' @ tid)])"

definition declares_checkpoint_inputs :: "lattice_target_spec \<Rightarrow> bool" where
  "declares_checkpoint_inputs spec \<longleftrightarrow> trim (ts_evaluated_checkpoint_source spec) \<noteq> [] \<or>
     trim (ts_plan_input_mdn_checkpoint spec) \<noteq> [] \<or> trim (ts_plan_input_representation_checkpoint spec) \<noteq> []"

definition checkpoint_input_checks :: "lattice_target_spec \<Rightarrow> check list" where
  "checkpoint_input_checks spec =
     (let tid = ts_target_id spec in
      if non_dispatch spec then
        [(declares_checkpoint_inputs spec,
          non_dispatch_class spec @ '' targets cannot declare checkpoint source or plan checkpoint inputs for '' @ tid)]
      else if handoff spec then
        [(declares_checkpoint_inputs spec, ''policy_execution_input_handoff targets cannot declare checkpoint source or '' @
          ''plan checkpoint inputs for '' @ tid)]
      else latest_satisfying_checks (ts_evaluated_checkpoint_source spec) ''EVALUATED_CHECKPOINT_SOURCE'' tid @
        latest_satisfying_checks (ts_plan_input_mdn_checkpoint spec) ''PLAN_INPUT_MDN_CHECKPOINT'' tid @
        latest_satisfying_checks (ts_plan_input_representation_checkpoint spec) ''PLAN_INPUT_REPRESENTATION_CHECKPOINT'' tid)"

definition lowered_source_range :: "lattice_target_spec \<Rightarrow> string" where
  "lowered_source_range spec = lowercase (trim (ts_source_range spec))"

definition source_range_check :: "lattice_target_spec \<Rightarrow> check" where
  "source_range_check spec = (lowered_source_range spec \<noteq> ''all'' \<and> lowered_source_range spec \<noteq> ''anchor_index'',
     ''SOURCE_RANGE must be all or anchor_index for '' @ ts_target_id spec)"

definition anchor_range_checks :: "lattice_target_spec \<Rightarrow> check list" where
  "anchor_range_checks spec =
     (let explicit = lowered_source_range spec = ''anchor_index'' \<and> ts_train_split spec = [] in
      [(explicit \<and> (ts_anchor_index_begin spec = None \<or> ts_anchor_index_end spec = None),
         ''SOURCE_RANGE=anchor_index requires either OVER_SPLIT or ANCHOR_INDEX_BEGIN/END for '' @ ts_target_id spec),
       (explicit \<and> range_order_check (ts_anchor_index_begin spec) (ts_anchor_index_end spec),
         ''ANCHOR_INDEX_END must be greater than ANCHOR_INDEX_BEGIN for '' @ ts_target_id spec)])"

definition split_or_anchors_check :: "lattice_target_spec \<Rightarrow> check" where
  "split_or_anchors_check spec =
     (ts_train_split spec \<noteq> [] \<and> (ts_anchor_index_begin spec \<noteq> None \<or> ts_anchor_index_end spec \<noteq> None),
      ''OVER_SPLIT and ANCHOR_INDEX_BEGIN/END are mutually exclusive for '' @ ts_target_id spec)"

definition fraction_threshold_checks :: "lattice_target_spec \<Rightarrow> check list" where
  "fraction_threshold_checks spec =
     (let tid = ts_target_id spec in
      non_negative_count (ts_min_optimizer_steps spec) ''MIN_OPTIMIZER_STEPS'' tid @
      fraction_dimension (ts_min_valid_target_fraction spec) ''MIN_VALID_TARGET_FRACTION'' tid @
      fraction_dimension (ts_min_observed_input_coverage spec) ''MIN_OBSERVED_INPUT_COVERAGE'' tid @
      fraction_dimension (ts_min_target_supervision_coverage spec) ''MIN_TARGET_SUPERVISION_COVERAGE'' tid @
      fraction_dimension (ts_min_evaluation_metric_coverage spec) ''MIN_EVALUATION_METRIC_COVERAGE'' tid)"

definition count_threshold_checks :: "lattice_target_spec \<Rightarrow> check list" where
  "count_threshold_checks spec =
     (let tid = ts_target_id spec in
      non_negative_count (ts_max_waves spec) ''MAX_WAVES'' tid @
      non_negative_count (ts_require_active_node_head_count spec) ''REQUIRE_ACTIVE_NODE_HEAD_COUNT'' tid @
      non_negative_count (ts_require_trained_node_head_count spec) ''REQUIRE_TRAINED_NODE_HEAD_COUNT'' tid @
      non_negative_count (ts_require_evaluated_node_head_count spec) ''REQUIRE_EVALUATED_NODE_HEAD_COUNT'' tid)"

definition requires_exposure :: "lattice_target_spec \<Rightarrow> bool" where
  "requires_exposure spec \<longleftrightarrow> float_less (Finite 0) (ts_min_observed_input_coverage spec) \<or>
     float_less (Finite 0) (ts_min_target_supervision_coverage spec) \<or>
     float_less (Finite 0) (ts_min_evaluation_metric_coverage spec)"

definition validate_artifact_readiness_no_training_knobs :: "lattice_target_spec \<Rightarrow> check list" where
  "validate_artifact_readiness_no_training_knobs spec =
     (let tid = ts_target_id spec in
      if \<not> is_artifact_readiness_target_class (ts_target_class spec) then []
      else
       [(ts_require_checkpoint_exists spec, ''artifact_readiness targets cannot require checkpoint existence for '' @ tid),
        (ts_require_finite_loss spec, ''artifact_readiness targets cannot require finite loss for '' @ tid),
        (ts_min_optimizer_steps spec > 0, ''artifact_readiness targets cannot require optimizer steps for '' @ tid),
        (float_less (Finite 0) (ts_min_valid_target_fraction spec),
          ''artifact_readiness targets cannot require valid-target readiness thresholds for '' @ tid),
        (ts_require_active_node_head_count spec > 0 \<or> ts_require_trained_node_head_count spec > 0 \<or>
           ts_require_evaluated_node_head_count spec > 0,
          ''artifact_readiness targets cannot require MDN node head counts for '' @ tid),
        (requires_exposure spec, ''artifact_readiness targets cannot require exposure coverage thresholds for '' @ tid),
        (ts_upstream_target_id spec \<noteq> [],
          ''artifact_readiness targets cannot declare UPSTREAM_TARGET_ID or LATTICE_DEPENDS for '' @ tid)])"

definition exposure_range_check :: "lattice_target_spec \<Rightarrow> check" where
  "exposure_range_check spec = (requires_exposure spec \<and> lowered_source_range spec \<noteq> ''anchor_index'',
     ''exposure coverage thresholds require SOURCE_RANGE=anchor_index for '' @ ts_target_id spec)"

section \<open>Class and kind\<close>

definition confirm_guard_scope ::
  "leakage_guard_scope option \<Rightarrow> kv_block \<Rightarrow> (leakage_guard_scope \<Rightarrow> string) \<Rightarrow> string \<Rightarrow> string \<Rightarrow> unit result"
where
  "confirm_guard_scope scope block expected key tid =
     (case scope of None \<Rightarrow> Inr ()
      | Some s \<Rightarrow> run_checks [confirm_scope_field ''LEAKAGE_GUARD_SCOPE'' key (kv_optional block key []) (expected s)
          (kv_optional block ''LEAKAGE_GUARD_SCOPE'' []) tid])"

definition scope_default :: "leakage_guard_scope option \<Rightarrow> (leakage_guard_scope \<Rightarrow> string) \<Rightarrow> string \<Rightarrow> string" where
  "scope_default scope sel fallback = (case scope of None \<Rightarrow> fallback | Some s \<Rightarrow> sel s)"

text \<open>What a target without a kind starts from\<close>

definition start_kindless :: "lattice_target_spec \<Rightarrow> lattice_target_spec" where
  "start_kindless spec =
     (if \<not> kindless spec then spec
      else let spec = spec\<lparr>ts_target_kind_applicable := False, ts_checkpoint_source := ''none'',
          ts_require_component_match := False, ts_require_checkpoint_exists := False, ts_require_finite_loss := False\<rparr> in
        if non_dispatch spec then spec\<lparr>ts_plan_mode := ''none'', ts_max_waves := 0\<rparr> else spec)"

definition decode_target_class :: "kv_block \<Rightarrow> (leakage_guard_scope option \<times> lattice_target_spec) result" where
  "decode_target_class block =
     rbind (kv_required block ''TARGET_ID'') (\<lambda>tid.
     rbind (lattice_leakage_guard_scope_defaults (kv_optional block ''LEAKAGE_GUARD_SCOPE'' []) tid) (\<lambda>scope.
     let c = lowercase (kv_optional block ''TARGET_CLASS'' (scope_default scope gs_target_class ''readiness'')) in
     rbind (confirm_guard_scope scope block gs_target_class ''TARGET_CLASS'' tid) (\<lambda>_.
     rbind (validate_lattice_target_class c tid) (\<lambda>_.
     Inr (scope, start_kindless (default_target_spec\<lparr>ts_target_id := tid, ts_use_profile := kv_optional block ''USE_PROFILE'' [],
       ts_guard_id := kv_optional block ''GUARD'' [], ts_target_class := c\<rparr>))))))"

definition decode_target_kind ::
  "kv_block \<Rightarrow> leakage_guard_scope option \<Rightarrow> lattice_target_spec \<Rightarrow> lattice_target_spec result"
where
  "decode_target_kind block scope spec =
     (let raw = kv_optional block ''TARGET_KIND'' (scope_default scope gs_target_kind []); tid = ts_target_id spec in
      rbind (confirm_guard_scope scope block gs_target_kind ''TARGET_KIND'' tid) (\<lambda>_.
      if trim raw = [] then
        rbind (run_checks [(\<not> kindless spec, ''TARGET_KIND is required for '' @ tid)]) (\<lambda>_. Inr spec)
      else
        rbind (run_checks [(kindless spec, ''TARGET_CLASS='' @ ts_target_class spec @ '' cannot declare TARGET_KIND for '' @ tid)]) (\<lambda>_.
        rbind (parse_lattice_target_kind raw) (\<lambda>k.
        Inr (spec\<lparr>ts_target_kind_applicable := True, ts_kind := k\<rparr>)))))"

section \<open>Subject\<close>

definition default_family :: "lattice_target_spec \<Rightarrow> string \<Rightarrow> string" where
  "default_family spec family =
     (if family \<noteq> [] then family
      else if handoff spec then ''replay_environment''
      else if forecast_gate spec \<or> edge_return_gate spec then ''forecast_eval'' else [])"

definition default_proof :: "lattice_target_spec \<Rightarrow> string \<Rightarrow> string" where
  "default_proof spec family =
     (if forecast_gate spec then ''synthetic_forecast_oracle_accuracy_bound''
      else if edge_return_gate spec then ''synthetic_edge_return_projection_oracle_bound''
      else default_proof_kind_for_subject_fact_family family)"

definition decode_subject :: "kv_block \<Rightarrow> lattice_target_spec \<Rightarrow> lattice_target_spec result" where
  "decode_subject block spec =
     (let tid = ts_target_id spec; c = ts_target_class spec; authored = lowercase (kv_optional block ''PROOF_KIND'' []) in
      rbind (optional_alias block ''FACT_FAMILY'' ''SUBJECT_FACT_FAMILY'' [] (ts_language_warnings spec) tid) (\<lambda>(raw, warnings).
      rbind (normalize_lattice_subject_fact_family raw tid) (\<lambda>normalized.
      let family = default_family spec normalized;
        proof_kind = (if kindless spec \<and> authored = [] then default_proof spec family else authored) in
      rbind (run_checks
        [(kindless spec \<and> family = [], ''TARGET_CLASS='' @ c @ '' requires SUBJECT_FACT_FAMILY for '' @ tid),
         (kindless spec \<and> proof_kind = [],
           ''TARGET_CLASS='' @ c @ '' has no default PROOF_KIND for SUBJECT_FACT_FAMILY '' @ family @ '' on '' @ tid)]) (\<lambda>_.
      rbind (if is_artifact_readiness_target_class c \<or> handoff spec
        then validate_artifact_readiness_proof_template family proof_kind tid else Inr ()) (\<lambda>_.
      Inr (spec\<lparr>ts_proof_kind := proof_kind, ts_subject_fact_family := family, ts_language_warnings := warnings\<rparr>))))))"

section \<open>Scope and ranges\<close>

definition decode_artifact_scope ::
  "kv_block \<Rightarrow> leakage_guard_scope option \<Rightarrow> lattice_target_spec \<Rightarrow> artifact_scope option result"
where
  "decode_artifact_scope block scope spec =
     (let tid = ts_target_id spec in
      rbind (lattice_artifact_scope_defaults (kv_optional block ''ARTIFACT_SCOPE'' []) tid) (\<lambda>a.
      rbind (run_checks
        [(a \<noteq> None \<and> scope \<noteq> None, ''ARTIFACT_SCOPE and LEAKAGE_GUARD_SCOPE are mutually exclusive for '' @ tid),
         (\<not> is_artifact_readiness_target_class (ts_target_class spec) \<and> a \<noteq> None,
           ''ARTIFACT_SCOPE requires TARGET_CLASS=artifact_readiness for '' @ tid)]) (\<lambda>_. Inr a)))"

definition confirm_artifact_scope :: "artifact_scope option \<Rightarrow> kv_block \<Rightarrow> string \<Rightarrow> unit result" where
  "confirm_artifact_scope artifact block tid =
     (case artifact of None \<Rightarrow> Inr ()
      | Some a \<Rightarrow> run_checks (map (\<lambda>(key, expected). confirm_scope_field ''ARTIFACT_SCOPE'' key (kv_optional block key []) expected
            (kv_optional block ''ARTIFACT_SCOPE'' []) tid)
          [(''PROTOCOL_ID'', as_protocol_id a), (''SOURCE_RANGE'', as_source_range a), (''TRAIN_SPLIT'', as_train_split a),
           (''OVER_SPLIT'', as_train_split a)]))"

definition source_range_default ::
  "kv_block \<Rightarrow> artifact_scope option \<Rightarrow> leakage_guard_scope option \<Rightarrow> string \<Rightarrow> lattice_target_spec \<Rightarrow> string"
where
  "source_range_default block artifact scope split spec =
     (if \<not> has_lattice_key block ''SOURCE_RANGE'' \<and> trim split \<noteq> [] then ''anchor_index''
      else case artifact of Some a \<Rightarrow> as_source_range a
      | None \<Rightarrow> scope_default scope gs_source_range (ts_source_range spec))"

definition component_default :: "leakage_guard_scope option \<Rightarrow> lattice_target_spec \<Rightarrow> string result" where
  "component_default scope spec =
     (if kindless spec then Inr []
      else case scope of Some s \<Rightarrow> Inr (gs_component s) | None \<Rightarrow> default_component_for_target_kind (ts_kind spec))"

definition decode_ranges ::
  "kv_block \<Rightarrow> leakage_guard_scope option \<Rightarrow> artifact_scope option \<Rightarrow> lattice_target_spec \<Rightarrow> lattice_target_spec result"
where
  "decode_ranges block scope artifact spec =
     (let tid = ts_target_id spec in
      rbind (optional_alias block ''TRAIN_SPLIT'' ''OVER_SPLIT'' (case artifact of None \<Rightarrow> [] | Some a \<Rightarrow> as_train_split a)
        (ts_language_warnings spec) tid) (\<lambda>(split, warnings).
      rbind (component_default scope spec) (\<lambda>component.
      rbind (optional_alias block ''COMPONENT'' ''SUBJECT_COMPONENT'' component warnings tid) (\<lambda>(component, warnings).
      rbind (confirm_artifact_scope artifact block tid) (\<lambda>_.
      rbind (confirm_guard_scope scope block gs_component ''COMPONENT'' tid) (\<lambda>_.
      rbind (confirm_guard_scope scope block gs_component ''SUBJECT_COMPONENT'' tid) (\<lambda>_.
      rbind (confirm_guard_scope scope block gs_source_range ''SOURCE_RANGE'' tid) (\<lambda>_.
      rbind (read_anchor (kv_optional block ''ANCHOR_INDEX_BEGIN'' []) ''ANCHOR_INDEX_BEGIN must be non-negative'') (\<lambda>b.
      rbind (read_anchor (kv_optional block ''ANCHOR_INDEX_END'' []) ''ANCHOR_INDEX_END must be non-negative'') (\<lambda>e.
      Inr (spec\<lparr>ts_protocol_id := kv_optional block ''PROTOCOL_ID'' (case artifact of None \<Rightarrow> [] | Some a \<Rightarrow> as_protocol_id a),
        ts_component := component, ts_checkpoint_source := kv_optional block ''CHECKPOINT_SOURCE'' (ts_checkpoint_source spec),
        ts_evaluated_checkpoint_source := kv_optional block ''EVALUATED_CHECKPOINT_SOURCE'' [],
        ts_source_range := kv_optional block ''SOURCE_RANGE'' (source_range_default block artifact scope split spec),
        ts_train_split := split, ts_anchor_index_begin := b, ts_anchor_index_end := e,
        ts_upstream_target_id := kv_optional block ''UPSTREAM_TARGET_ID'' [], ts_language_warnings := warnings\<rparr>)))))))))))"

section \<open>Thresholds\<close>

definition decode_requirements ::
  "kv_block \<Rightarrow> leakage_guard_scope option \<Rightarrow> lattice_target_spec \<Rightarrow> lattice_target_spec result"
where
  "decode_requirements block scope spec =
     (let concrete = (if kindless spec then ''false'' else ''true'');
        number = (\<lambda>key. parse_i64 (kv_optional block key ''0'')); fraction = (\<lambda>key. parse_double (kv_optional block key ''0'')) in
      rbind (parse_bool (kv_optional block ''REQUIRE_CONTRACT_MATCH'' ''true'')) (\<lambda>contract.
      rbind (parse_bool (kv_optional block ''REQUIRE_COMPONENT_MATCH'' concrete)) (\<lambda>component.
      rbind (parse_bool (kv_optional block ''REQUIRE_CHECKPOINT_EXISTS'' concrete)) (\<lambda>checkpoint.
      rbind (parse_bool (kv_optional block ''REQUIRE_FINITE_LOSS''
        (if kindless spec then ''false'' else scope_default scope gs_require_finite_loss ''true''))) (\<lambda>loss.
      rbind (confirm_guard_scope scope block gs_require_finite_loss ''REQUIRE_FINITE_LOSS'' (ts_target_id spec)) (\<lambda>_.
      rbind (number ''MIN_OPTIMIZER_STEPS'') (\<lambda>steps.
      rbind (fraction ''MIN_VALID_TARGET_FRACTION'') (\<lambda>valid.
      rbind (number ''REQUIRE_ACTIVE_NODE_HEAD_COUNT'') (\<lambda>active.
      rbind (number ''REQUIRE_TRAINED_NODE_HEAD_COUNT'') (\<lambda>trained.
      rbind (number ''REQUIRE_EVALUATED_NODE_HEAD_COUNT'') (\<lambda>evaluated.
      rbind (fraction ''MIN_OBSERVED_INPUT_COVERAGE'') (\<lambda>observed.
      rbind (fraction ''MIN_TARGET_SUPERVISION_COVERAGE'') (\<lambda>supervision.
      rbind (fraction ''MIN_EVALUATION_METRIC_COVERAGE'') (\<lambda>evaluation.
      Inr (spec\<lparr>ts_require_contract_match := contract, ts_require_component_match := component,
        ts_require_checkpoint_exists := checkpoint, ts_require_finite_loss := loss, ts_min_optimizer_steps := steps,
        ts_min_valid_target_fraction := valid, ts_require_active_node_head_count := active,
        ts_require_trained_node_head_count := trained, ts_require_evaluated_node_head_count := evaluated,
        ts_min_observed_input_coverage := observed, ts_min_target_supervision_coverage := supervision,
        ts_min_evaluation_metric_coverage := evaluation\<rparr>)))))))))))))))"

text \<open>A threshold of an oracle gate: as authored, or the default at the gate's own class, or not a number\<close>

definition oracle_threshold :: "kv_block \<Rightarrow> string \<Rightarrow> bool \<Rightarrow> rat \<Rightarrow> c_float result" where
  "oracle_threshold block key gate default_value =
     (let raw = kv_optional block key [] in
      if trim raw \<noteq> [] then parse_double raw
      else Inr (if gate then double_literal default_value else NotANumber))"

definition decode_oracle_thresholds :: "kv_block \<Rightarrow> lattice_target_spec \<Rightarrow> lattice_target_spec result" where
  "decode_oracle_thresholds block spec =
     (let forecast = (\<lambda>key. oracle_threshold block key (forecast_gate spec));
        edge = (\<lambda>key. oracle_threshold block key (edge_return_gate spec)) in
      rbind (forecast ''MAX_ORACLE_EV_MAE'' (5 / 100)) (\<lambda>ev_mae.
      rbind (forecast ''MAX_ORACLE_EV_RMSE'' (75 / 1000)) (\<lambda>ev_rmse.
      rbind (forecast ''MIN_ORACLE_DIRECTIONAL_ACCURACY'' (95 / 100)) (\<lambda>directional.
      rbind (forecast ''MAX_ORACLE_PRICE_EV_MAE'' (5 / 100)) (\<lambda>price_mae.
      rbind (forecast ''MAX_ORACLE_PRICE_EV_RMSE'' (75 / 1000)) (\<lambda>price_rmse.
      rbind (forecast ''MAX_ORACLE_ACTIVITY_EV_MAE'' (75 / 1000)) (\<lambda>activity_mae.
      rbind (forecast ''MAX_ORACLE_ACTIVITY_EV_RMSE'' (10 / 100)) (\<lambda>activity_rmse.
      rbind (forecast ''MIN_ORACLE_CLOSE_DIRECTIONAL_ACCURACY'' (95 / 100)) (\<lambda>close.
      rbind (edge ''MAX_ORACLE_EDGE_RETURN_EV_MAE'' (5 / 100)) (\<lambda>edge_mae.
      rbind (edge ''MAX_ORACLE_EDGE_RETURN_EV_RMSE'' (75 / 1000)) (\<lambda>edge_rmse.
      rbind (edge ''MIN_ORACLE_EDGE_RETURN_DIRECTIONAL_ACCURACY'' (75 / 100)) (\<lambda>edge_directional.
      rbind (edge ''MIN_ORACLE_EDGE_RETURN_PAIRWISE_RANK_ACCURACY'' (75 / 100)) (\<lambda>edge_rank.
      rbind (edge ''MIN_ORACLE_EDGE_RETURN_BEST_ASSET_AGREEMENT'' (60 / 100)) (\<lambda>edge_best.
      rbind (edge ''MIN_ORACLE_EDGE_RETURN_CORRELATION'' (25 / 100)) (\<lambda>edge_correlation.
      Inr (spec\<lparr>ts_oracle := \<lparr>or_max_ev_mae = ev_mae, or_max_ev_rmse = ev_rmse, or_min_directional_accuracy = directional,
        or_max_price_ev_mae = price_mae, or_max_price_ev_rmse = price_rmse, or_max_activity_ev_mae = activity_mae,
        or_max_activity_ev_rmse = activity_rmse, or_min_close_directional_accuracy = close,
        or_max_edge_return_ev_mae = edge_mae, or_max_edge_return_ev_rmse = edge_rmse,
        or_min_edge_return_directional_accuracy = edge_directional,
        or_min_edge_return_pairwise_rank_accuracy = edge_rank, or_min_edge_return_best_asset_agreement = edge_best,
        or_min_edge_return_correlation = edge_correlation\<rparr>\<rparr>))))))))))))))))"

section \<open>Protection and plan\<close>

definition protect_split_default :: "kv_block \<Rightarrow> leakage_guard_scope option \<Rightarrow> lattice_target_spec \<Rightarrow> string" where
  "protect_split_default block scope spec =
     (let d = scope_default scope gs_protect_split [] in
      if d = [] \<and> \<not> has_lattice_key block ''PROTECT_SPLIT'' \<and> \<not> has_lattice_key block ''APPLY_SPLIT_PROTECTION'' \<and>
          \<not> has_lattice_key block ''FORBID_SPLIT'' \<and> trim (ts_train_split spec) \<noteq> [] then
        (if ts_target_class spec = ''evaluation_readiness'' then ts_train_split spec
         else if ts_target_class spec = ''readiness'' then ''validation_holdout'' else d)
      else d)"

definition decode_protection ::
  "kv_block \<Rightarrow> leakage_guard_scope option \<Rightarrow> lattice_target_spec \<Rightarrow> lattice_target_spec result"
where
  "decode_protection block scope spec =
     (let tid = ts_target_id spec; authored = kv_optional block ''FORBID_SPLIT'' [];
        uses_raw = kv_optional block ''FORBID_EXPOSURE_USES'' [] in
      rbind (optional_alias block ''PROTECT_SPLIT'' ''APPLY_SPLIT_PROTECTION'' (protect_split_default block scope spec)
        (ts_language_warnings spec) tid) (\<lambda>(protect, warnings).
      rbind (confirm_guard_scope scope block gs_protect_split ''PROTECT_SPLIT'' tid) (\<lambda>_.
      rbind (confirm_guard_scope scope block gs_protect_split ''APPLY_SPLIT_PROTECTION'' tid) (\<lambda>_.
      rbind (run_checks [(trim protect \<noteq> [] \<and> authored \<noteq> [] \<and> authored \<noteq> protect,
        ''target '' @ tid @ '' mixes PROTECT_SPLIT and FORBID_SPLIT with different values'')]) (\<lambda>_.
      rbind (read_anchor (kv_optional block ''FORBID_EXPOSURE_ANCHOR_INDEX_BEGIN'' [])
        ''FORBID_EXPOSURE_ANCHOR_INDEX_BEGIN must be non-negative'') (\<lambda>b.
      rbind (read_anchor (kv_optional block ''FORBID_EXPOSURE_ANCHOR_INDEX_END'' [])
        ''FORBID_EXPOSURE_ANCHOR_INDEX_END must be non-negative'') (\<lambda>e.
      rbind (run_checks [(trim uses_raw \<noteq> [] \<and> trim protect \<noteq> [],
        ''target '' @ tid @ '' mixes PROTECT_SPLIT with explicit FORBID_EXPOSURE_USES'')]) (\<lambda>_.
      rbind (if trim uses_raw = [] then Inr [] else parse_exposure_use_list uses_raw) (\<lambda>uses.
      rbind (parse_bool (kv_optional block ''FORBID_EXPOSURE_REQUIRES_MUTATED_COMPONENT'' ''true'')) (\<lambda>mutated.
      Inr (spec\<lparr>ts_language_warnings := warnings, ts_forbid_split := (if trim protect \<noteq> [] then protect else authored),
        ts_forbid_uses_from_split_policy := (trim protect \<noteq> []), ts_forbid_anchor_index_begin := b,
        ts_forbid_anchor_index_end := e, ts_forbid_exposure_uses := uses,
        ts_forbid_requires_mutated_component := mutated\<rparr>)))))))))))"

definition decode_plan :: "kv_block \<Rightarrow> leakage_guard_scope option \<Rightarrow> lattice_target_spec \<Rightarrow> lattice_target_spec result" where
  "decode_plan block scope spec =
     (let tid = ts_target_id spec in
      rbind (optional_alias block ''PLAN_MODE'' ''WAVE_MODE'' (scope_default scope gs_plan_mode (ts_plan_mode spec))
        (ts_language_warnings spec) tid) (\<lambda>(mode, warnings).
      rbind (confirm_guard_scope scope block gs_plan_mode ''PLAN_MODE'' tid) (\<lambda>_.
      rbind (confirm_guard_scope scope block gs_plan_mode ''WAVE_MODE'' tid) (\<lambda>_.
      rbind (optional_i64_alias block ''MAX_WAVES'' ''PLAN_MAX_ATTEMPTS''
        (if non_dispatch spec then ''0'' else scope_default scope gs_max_waves ''1'') warnings tid) (\<lambda>(waves, warnings).
      rbind (confirm_guard_scope scope block gs_max_waves ''MAX_WAVES'' tid) (\<lambda>_.
      rbind (confirm_guard_scope scope block gs_max_waves ''PLAN_MAX_ATTEMPTS'' tid) (\<lambda>_.
      Inr (spec\<lparr>ts_plan_mode := mode, ts_plan_input_mdn_checkpoint := kv_optional block ''PLAN_INPUT_MDN_CHECKPOINT'' [],
        ts_plan_input_representation_checkpoint := kv_optional block ''PLAN_INPUT_REPRESENTATION_CHECKPOINT'' [],
        ts_max_waves := waves, ts_language_warnings := warnings\<rparr>))))))))"

section \<open>The checks at the end\<close>

text \<open>The default component exists for every kind that a target with a kind can have.\<close>

definition component_differs :: "lattice_target_spec \<Rightarrow> bool" where
  "component_differs spec \<longleftrightarrow> default_component_for_target_kind (ts_kind spec) \<noteq> Inr (ts_component spec)"

definition identity_checks :: "lattice_target_spec \<Rightarrow> check list" where
  "identity_checks spec =
     [(ts_target_id spec = [], ''TARGET_ID is required''),
      (ts_protocol_id spec \<noteq> trim (ts_protocol_id spec), ''PROTOCOL_ID must be trimmed for '' @ ts_target_id spec),
      (\<not> kindless spec \<and> component_differs spec, ''COMPONENT does not match TARGET_KIND for '' @ ts_target_id spec)]"

definition dispatch_checks :: "lattice_target_spec \<Rightarrow> check list" where
  "dispatch_checks spec =
     (let tid = ts_target_id spec; c = non_dispatch_class spec; mode = lowercase (trim (ts_plan_mode spec)) in
      if non_dispatch spec then
        [(mode \<noteq> ''none'', c @ '' targets must use WAVE_MODE=none for '' @ tid),
         (ts_max_waves spec \<noteq> 0, c @ '' targets must use PLAN_MAX_ATTEMPTS=0 for '' @ tid)]
      else if handoff spec then
        [(mode = ''none'', ''policy_execution_input_handoff targets must declare a dispatchable WAVE_MODE for '' @ tid),
         (ts_max_waves spec \<le> 0,
           ''policy_execution_input_handoff targets must declare PLAN_MAX_ATTEMPTS greater than zero for '' @ tid)]
      else [])"

definition decoded_range_checks :: "lattice_target_spec \<Rightarrow> check list" where
  "decoded_range_checks spec =
     [source_range_check spec,
      (lowered_source_range spec = ''all'' \<and> ts_train_split spec = [] \<and>
         (ts_anchor_index_begin spec \<noteq> None \<or> ts_anchor_index_end spec \<noteq> None),
        ''ANCHOR_INDEX_BEGIN/END require SOURCE_RANGE=anchor_index for '' @ ts_target_id spec)] @
     anchor_range_checks spec @
     [(ts_train_split spec \<noteq> [] \<and> lowered_source_range spec \<noteq> ''anchor_index'',
        ''OVER_SPLIT requires SOURCE_RANGE=anchor_index for '' @ ts_target_id spec),
      split_or_anchors_check spec]"

definition decoded_forbid_checks :: "lattice_target_spec \<Rightarrow> check list" where
  "decoded_forbid_checks spec =
     (let tid = ts_target_id spec; b = ts_forbid_anchor_index_begin spec; e = ts_forbid_anchor_index_end spec;
        split = ts_forbid_split spec; uses = ts_forbid_exposure_uses spec in
      [(split \<noteq> [] \<and> (b \<noteq> None \<or> e \<noteq> None),
         ''FORBID_SPLIT and FORBID_EXPOSURE_ANCHOR_INDEX_* are mutually exclusive for '' @ tid),
       ((b \<noteq> None) \<noteq> (e \<noteq> None),
         ''FORBID_EXPOSURE_ANCHOR_INDEX_BEGIN and FORBID_EXPOSURE_ANCHOR_INDEX_END must be provided together for '' @ tid),
       (range_order_check b e, ''FORBID_EXPOSURE_ANCHOR_INDEX_END must be greater than BEGIN for '' @ tid),
       (b \<noteq> None \<and> uses = [],
         ''FORBID_EXPOSURE_USES is required when a forbidden exposure range is configured for '' @ tid),
       (b = None \<and> split = [] \<and> uses \<noteq> [], ''FORBID_EXPOSURE_USES requires a forbidden exposure range for '' @ tid),
       (split \<noteq> [] \<and> uses = [] \<and> \<not> ts_forbid_uses_from_split_policy spec,
         ''FORBID_EXPOSURE_USES is required when FORBID_SPLIT is configured directly for '' @ tid)])"

definition decoded_checks :: "lattice_target_spec \<Rightarrow> check list" where
  "decoded_checks spec = identity_checks spec @ checkpoint_source_checks spec @ dispatch_checks spec @
     checkpoint_input_checks spec @ decoded_range_checks spec @ fraction_threshold_checks spec @
     count_threshold_checks spec @ validate_artifact_readiness_no_training_knobs spec @ [exposure_range_check spec] @
     decoded_forbid_checks spec"

definition decode_lattice_target_spec_block :: "kv_block \<Rightarrow> lattice_target_spec result" where
  "decode_lattice_target_spec_block block =
     rbind (decode_target_class block) (\<lambda>(scope, spec).
     rbind (decode_target_kind block scope spec) (\<lambda>spec.
     rbind (decode_subject block spec) (\<lambda>spec.
     rbind (decode_artifact_scope block scope spec) (\<lambda>artifact.
     rbind (decode_ranges block scope artifact spec) (\<lambda>spec.
     rbind (decode_requirements block scope spec) (\<lambda>spec.
     rbind (decode_oracle_thresholds block spec) (\<lambda>spec.
     rbind (decode_protection block scope spec) (\<lambda>spec.
     rbind (decode_plan block scope spec) (\<lambda>spec.
     rbind (run_checks (decoded_checks spec)) (\<lambda>_. Inr spec))))))))))"

section \<open>What decoding guarantees\<close>

lemma thresholds_ok_checks:
  "list_all (\<lambda>(bad, _). \<not> bad) (fraction_threshold_checks spec) \<Longrightarrow>
   list_all (\<lambda>(bad, _). \<not> bad) (count_threshold_checks spec) \<Longrightarrow> thresholds_ok spec \<and> 0 \<le> ts_max_waves spec"
  by (simp add: fraction_threshold_checks_def count_threshold_checks_def thresholds_ok_def fraction_dimension_ok
      non_negative_count_ok Let_def)

lemma decode_checks:
  assumes "decode_lattice_target_spec_block block = Inr spec"
  shows "list_all (\<lambda>(bad, _). \<not> bad) (decoded_checks spec)"
  using assms by (auto simp: decode_lattice_target_spec_block_def res_simps)

lemma decode_thresholds:
  assumes "decode_lattice_target_spec_block block = Inr spec"
  shows "thresholds_ok spec \<and> 0 \<le> ts_max_waves spec"
  using decode_checks [OF assms] by (intro thresholds_ok_checks) (simp_all add: decoded_checks_def)

text \<open>The class of a target with a scope\<close>

lemma guard_scope_class:
  assumes "lattice_leakage_guard_scope_defaults raw tid = Inr (Some s)"
  shows "gs_target_class s = ''leakage_guard''"
  using assms by (auto simp: lattice_leakage_guard_scope_defaults_def Let_def split: if_splits)

lemma start_kindless_class [simp]: "ts_target_class (start_kindless s) = ts_target_class s"
  by (simp add: start_kindless_def Let_def)

lemma decode_target_class_scope:
  assumes "decode_target_class block = Inr (scope, spec)" "ts_target_class spec \<noteq> ''leakage_guard''"
  shows "scope = None"
proof (rule ccontr)
  assume "scope \<noteq> None"
  then obtain s where s: "scope = Some s" by blast
  obtain tid where d: "lattice_leakage_guard_scope_defaults (kv_optional block ''LEAKAGE_GUARD_SCOPE'' []) tid = Inr (Some s)"
    and c: "confirm_guard_scope (Some s) block gs_target_class ''TARGET_CLASS'' tid = Inr ()"
    and spec: "ts_target_class spec = lowercase (kv_optional block ''TARGET_CLASS'' (gs_target_class s))"
    using assms(1) s by (auto simp: decode_target_class_def res_simps Let_def scope_default_def)
  have "kv_optional block ''TARGET_CLASS'' (gs_target_class s) = ''leakage_guard''"
    using c guard_scope_class [OF d]
    by (auto simp: confirm_guard_scope_def res_simps confirm_scope_field_def kv_optional_def split: option.splits if_splits)
  then have "ts_target_class spec = ''leakage_guard''"
    using spec by (simp add: lowercase_def to_lower_def is_upper_def chr_code_def)
  with assms(2) show False by simp
qed

text \<open>What the parts of decoding leave alone\<close>

lemma decode_subject_frame:
  "decode_subject block s = Inr t \<Longrightarrow> ts_target_class t = ts_target_class s"
  by (auto simp: decode_subject_def res_simps Let_def)

lemma decode_target_kind_frame:
  "decode_target_kind block scope s = Inr t \<Longrightarrow> ts_target_class t = ts_target_class s"
  by (auto simp: decode_target_kind_def res_simps Let_def split: if_splits)

lemma decode_ranges_frame:
  "decode_ranges block scope artifact s = Inr t \<Longrightarrow> ts_target_class t = ts_target_class s"
  by (auto simp: decode_ranges_def res_simps Let_def)

lemma decode_requirements_frame:
  "decode_requirements block scope s = Inr t \<Longrightarrow>
   ts_target_class t = ts_target_class s \<and> ts_train_split t = ts_train_split s"
  by (auto simp: decode_requirements_def res_simps Let_def)

lemma decode_oracle_frame:
  "decode_oracle_thresholds block s = Inr t \<Longrightarrow>
   ts_target_class t = ts_target_class s \<and> ts_train_split t = ts_train_split s"
  by (auto simp: decode_oracle_thresholds_def res_simps Let_def)

lemma decode_plan_frame:
  "decode_plan block scope s = Inr t \<Longrightarrow> ts_target_class t = ts_target_class s \<and> ts_train_split t = ts_train_split s \<and>
   ts_forbid_split t = ts_forbid_split s \<and> ts_forbid_uses_from_split_policy t = ts_forbid_uses_from_split_policy s"
  by (auto simp: decode_plan_def res_simps Let_def)

lemma decode_protection_default:
  assumes "decode_protection block None s = Inr t" "trim (ts_train_split s) \<noteq> []"
    "\<not> has_lattice_key block ''PROTECT_SPLIT''" "\<not> has_lattice_key block ''APPLY_SPLIT_PROTECTION''"
    "\<not> has_lattice_key block ''FORBID_SPLIT''" "ts_target_class s \<in> {''readiness'', ''evaluation_readiness''}"
  shows "ts_target_class t = ts_target_class s \<and> ts_train_split t = ts_train_split s \<and> ts_forbid_uses_from_split_policy t \<and>
    ts_forbid_split t = (if ts_target_class s = ''evaluation_readiness'' then ts_train_split s else ''validation_holdout'')"
proof -
  let ?d = "protect_split_default block None s"
  have d: "?d = (if ts_target_class s = ''evaluation_readiness'' then ts_train_split s else ''validation_holdout'')"
    using assms(2-6) by (auto simp: protect_split_default_def scope_default_def)
  have "trim ''validation_holdout'' = ''validation_holdout''" by code_simp
  with d assms(2) have ne: "trim ?d \<noteq> []" by simp
  have "optional_alias block ''PROTECT_SPLIT'' ''APPLY_SPLIT_PROTECTION'' ?d w tid = Inr (?d, w)" for w tid
    using assms(3-5) by (simp add: optional_alias_def Let_def kv_optional_def has_lattice_key_def)
  then show ?thesis
    using assms(1) ne by (auto simp: decode_protection_def res_simps Let_def d)
qed

text \<open>
  C9: A readiness target over a split that says nothing of protection is protected against leakage: it forbids the
  validation holdout by the policy of the split, and a target of evaluation readiness forbids the very split it
  evaluates.
\<close>

theorem readiness_protected_by_default:
  assumes "decode_lattice_target_spec_block block = Inr spec"
    "ts_target_class spec = ''readiness'' \<or> ts_target_class spec = ''evaluation_readiness''"
    "trim (ts_train_split spec) \<noteq> []" "\<not> has_lattice_key block ''PROTECT_SPLIT''"
    "\<not> has_lattice_key block ''APPLY_SPLIT_PROTECTION''" "\<not> has_lattice_key block ''FORBID_SPLIT''"
  shows "ts_forbid_uses_from_split_policy spec \<and> ts_forbid_split spec =
    (if ts_target_class spec = ''evaluation_readiness'' then ts_train_split spec else ''validation_holdout'')"
proof -
  obtain scope s0 s1 s2 a s3 s4 s5 s6 where s: "decode_target_class block = Inr (scope, s0)"
    "decode_target_kind block scope s0 = Inr s1" "decode_subject block s1 = Inr s2"
    "decode_ranges block scope a s2 = Inr s3" "decode_requirements block scope s3 = Inr s4"
    "decode_oracle_thresholds block s4 = Inr s5" "decode_protection block scope s5 = Inr s6"
    "decode_plan block scope s6 = Inr spec"
    using assms(1) by (auto simp: decode_lattice_target_spec_block_def res_simps)
  have "ts_target_class s6 = ts_target_class s5"
    using s(7) by (auto simp: decode_protection_def res_simps Let_def)
  then have c: "ts_target_class s0 = ts_target_class spec" "ts_target_class s5 = ts_target_class spec"
    using decode_target_kind_frame [OF s(2)] decode_subject_frame [OF s(3)] decode_ranges_frame [OF s(4)]
      decode_requirements_frame [OF s(5)] decode_oracle_frame [OF s(6)] decode_plan_frame [OF s(8)] by simp_all
  have none: "scope = None"
    using decode_target_class_scope [OF s(1)] assms(2) c(1) by auto
  have "ts_train_split s6 = ts_train_split s5"
    using s(7) by (auto simp: decode_protection_def res_simps Let_def)
  then have "trim (ts_train_split s5) \<noteq> []" using decode_plan_frame [OF s(8)] assms(3) by simp
  then show ?thesis
    using decode_protection_default [of block s5 s6] s(7) none assms(2,4-6) c decode_plan_frame [OF s(8)] by auto
qed

definition example_readiness_block :: kv_block where
  "example_readiness_block = \<lparr>kv_name = ''LATTICE_TARGET'', kv_values = [''TARGET_ID'' \<mapsto> ''vicreg_train_core_ready'',
     ''TARGET_KIND'' \<mapsto> ''vicreg_ready'', ''OVER_SPLIT'' \<mapsto> ''train_core'', ''MIN_OPTIMIZER_STEPS'' \<mapsto> ''100'']\<rparr>"

lemma parse_zero: "parse_i64 ''0'' = Inr 0" "parse_i64 ''100'' = Inr 100" "parse_bool ''true'' = Inr True"
  by code_simp+

lemma example_optional:
  "kv_optional example_readiness_block ''REQUIRE_CONTRACT_MATCH'' d = d"
  "kv_optional example_readiness_block ''REQUIRE_COMPONENT_MATCH'' d = d"
  "kv_optional example_readiness_block ''REQUIRE_CHECKPOINT_EXISTS'' d = d"
  "kv_optional example_readiness_block ''REQUIRE_FINITE_LOSS'' d = d"
  "kv_optional example_readiness_block ''MIN_OPTIMIZER_STEPS'' d = ''100''"
  "kv_optional example_readiness_block ''MIN_VALID_TARGET_FRACTION'' d = d"
  "kv_optional example_readiness_block ''REQUIRE_ACTIVE_NODE_HEAD_COUNT'' d = d"
  "kv_optional example_readiness_block ''REQUIRE_TRAINED_NODE_HEAD_COUNT'' d = d"
  "kv_optional example_readiness_block ''REQUIRE_EVALUATED_NODE_HEAD_COUNT'' d = d"
  "kv_optional example_readiness_block ''MIN_OBSERVED_INPUT_COVERAGE'' d = d"
  "kv_optional example_readiness_block ''MIN_TARGET_SUPERVISION_COVERAGE'' d = d"
  "kv_optional example_readiness_block ''MIN_EVALUATION_METRIC_COVERAGE'' d = d"
  by code_simp+

lemma example_requirements:
  "\<not> kindless s \<Longrightarrow> decode_requirements example_readiness_block None s = Inr (s\<lparr>ts_require_contract_match := True, ts_require_component_match := True,
     ts_require_checkpoint_exists := True, ts_require_finite_loss := True, ts_min_optimizer_steps := 100,
     ts_min_valid_target_fraction := Finite 0, ts_require_active_node_head_count := 0, ts_require_trained_node_head_count := 0,
     ts_require_evaluated_node_head_count := 0, ts_min_observed_input_coverage := Finite 0,
     ts_min_target_supervision_coverage := Finite 0, ts_min_evaluation_metric_coverage := Finite 0\<rparr>)"
  by (simp add: decode_requirements_def example_optional parse_double_zero parse_zero scope_default_def confirm_guard_scope_def)

text \<open>The specification after each step that changes it\<close>

definition example_start :: lattice_target_spec where
  "example_start = default_target_spec\<lparr>ts_target_id := ''vicreg_train_core_ready'', ts_kind := Vicreg_Ready\<rparr>"

definition example_ranged :: lattice_target_spec where
  "example_ranged = example_start\<lparr>ts_component := ''wikimyei.representation.encoding.vicreg'',
     ts_train_split := ''train_core'', ts_source_range := ''anchor_index''\<rparr>"

definition example_required :: lattice_target_spec where
  "example_required = example_ranged\<lparr>ts_min_optimizer_steps := 100\<rparr>"

definition example_protected :: lattice_target_spec where
  "example_protected =
     example_required\<lparr>ts_forbid_split := ''validation_holdout'', ts_forbid_uses_from_split_policy := True\<rparr>"

lemma example_steps:
  "decode_target_class example_readiness_block =
     Inr (None, default_target_spec\<lparr>ts_target_id := ''vicreg_train_core_ready''\<rparr>)"
  "decode_target_kind example_readiness_block None (default_target_spec\<lparr>ts_target_id := ''vicreg_train_core_ready''\<rparr>) =
     Inr example_start"
  "decode_subject example_readiness_block example_start = Inr example_start"
  "decode_artifact_scope example_readiness_block None example_start = Inr None"
  "decode_ranges example_readiness_block None None example_start = Inr example_ranged"
  "decode_oracle_thresholds example_readiness_block example_required = Inr example_required"
  "decode_protection example_readiness_block None example_required = Inr example_protected"
  "decode_plan example_readiness_block None example_protected = Inr example_protected"
  by code_simp+

lemma example_step_requirements:
  "decode_requirements example_readiness_block None example_ranged = Inr example_required"
  by (subst example_requirements)
    (simp_all add: example_required_def example_ranged_def example_start_def default_target_spec_def, code_simp)

lemma example_step_checks: "run_checks (decoded_checks example_protected) = Inr ()"
  by code_simp

lemma example_readiness_decodes:
  "decode_lattice_target_spec_block example_readiness_block = Inr example_protected"
  by (simp add: decode_lattice_target_spec_block_def example_steps example_step_requirements example_step_checks)

theorem readiness_protected_by_default_witness:
  "decode_lattice_target_spec_block example_readiness_block = Inr example_protected \<and>
   ts_forbid_split example_protected = ''validation_holdout'' \<and> ts_forbid_uses_from_split_policy example_protected"
proof -
  have c: "ts_target_class example_protected = ''readiness''" "ts_train_split example_protected = ''train_core''"
    by code_simp+
  have "trim ''train_core'' \<noteq> []" "\<not> has_lattice_key example_readiness_block ''PROTECT_SPLIT''"
    "\<not> has_lattice_key example_readiness_block ''APPLY_SPLIT_PROTECTION''"
    "\<not> has_lattice_key example_readiness_block ''FORBID_SPLIT''" by code_simp+
  then show ?thesis
    using readiness_protected_by_default [OF example_readiness_decodes] example_readiness_decodes c by simp
qed

end
