(* ===== verification/Target_Warnings.thy ===== *)
theory Target_Warnings
  imports Target_Decode
begin

text \<open>
  Warnings of a target in \<open>lattice_target.h\<close>: what a \<open>LATTICE_WARN\<close> clause adds to a specification, the
  metrics each kind of warning knows, and the dimensions of its threshold.
\<close>

section \<open>Metrics\<close>

definition source_analytics_metrics :: "string list" where
  "source_analytics_metrics =
     [''entropy'', ''entropy_rate'', ''information_density'', ''compression_ratio'',
      ''power_spectrum_entropy'', ''sample_validity_fraction'', ''missingness_fraction'',
      ''duplicate_sample_count'', ''source_receipt_fact_count'']"

definition forecast_baseline_metrics :: "string list" where
  "forecast_baseline_metrics =
     [''baseline_mean_nll'', ''baseline_ev_mae'', ''baseline_ev_rmse'', ''baseline_signed_error'',
      ''baseline_directional_accuracy'', ''support_count'', ''valid_count'', ''missing_count'',
      ''baseline_kind_count'', ''computed_metric_fact_count'', ''partial_metric_fact_count'',
      ''deferred_metric_fact_count'', ''computed_metric_value_count'', ''metric_status_mismatch_count'']"

definition forecast_eval_metrics :: "string list" where
  "forecast_eval_metrics =
     [''mean_nll'', ''ev_mae'', ''ev_rmse'', ''signed_error'', ''directional_accuracy'',
      ''calibration_coverage'', ''support_count'', ''valid_count'', ''missing_count'',
      ''weakest_support_rows'', ''weakest_horizon_support_rows'', ''mean_nll_per_horizon_max'',
      ''skill_vs_baseline'', ''skill_vs_naive'', ''skill_vs_baseline_mean_nll'', ''skill_vs_baseline_ev_mae'',
      ''skill_vs_baseline_ev_rmse'', ''directional_accuracy_delta_vs_baseline'']"

definition observer_belief_metrics :: "string list" where
  "observer_belief_metrics =
     [''confidence'', ''data_quality'', ''liquidity'', ''raw_potential_tradable_return'',
      ''allocation_authority'', ''forecast_lineage_bound'', ''channel_consensus_bound'',
      ''potential_surface_diagnostics_bound'', ''nodelift_return_projection_bound'',
      ''covariance_coupling_bound'', ''scenario_bank_bound'', ''nodelift_residual_quality_bound'',
      ''projection_validation_scores_bound'', ''feature_semantics_bound'', ''dock_binding_bound'']"

definition allocation_engine_metrics :: "string list" where
  "allocation_engine_metrics =
     [''numeraire_weight'', ''turnover'', ''cvar_loss'', ''transaction_cost_estimate'',
      ''deterministic_artifact'', ''visibility_only'', ''allocation_authority'', ''execution_authority'',
      ''market_readiness_authority'', ''deployment_authority'', ''accounting_numeraire_node_bound'',
      ''accounting_numeraire_node_from_base_policy'', ''accounting_numeraire_node_base_policy_match'',
      ''accounting_numeraire_node_graph_bound'', ''observer_belief_bound'', ''forecast_artifact_bound'',
      ''base_policy_bound'', ''cap_diagnostics_bound'', ''scenario_growth_floor_status_bound'',
      ''scenario_growth_floor_met'', ''scenario_growth_floor_attention'', ''fallback_declared'',
      ''fallback_active'', ''derisk_declared'', ''derisk_active'']"

definition representation_health_metrics :: "string list" where
  "representation_health_metrics =
     [''mean_invariance_loss'', ''mean_variance_loss'', ''mean_covariance_loss'', ''last_grad_norm'',
      ''max_grad_norm'', ''total_valid_projection_rows'', ''mean_adapter_valid_channel_time_fraction'',
      ''augmented_valid_feature_count'', ''mean_augmented_valid_feature_fraction'',
      ''mean_augmented_feature_retention_fraction'', ''finite_parameter_check'', ''gradients_finite'',
      ''sample_valid_count'', ''sample_valid_fraction'', ''channel_valid_count'', ''channel_valid_fraction'',
      ''valid_latent_rows'', ''tf_pair_count'', ''tf_pair_valid_count'', ''vicreg_global_valid_rows'',
      ''vicreg_channel_valid_rows'', ''context_starved_sample_count'', ''reduced_targets_for_context_count'',
      ''min_context_satisfied_count'', ''target_ema_distance'', ''latent_std'', ''latent_norm'',
      ''loss_jepa_mean'', ''loss_mae_time_mean'', ''loss_mae_frequency_mean'', ''loss_tf_align_mean'',
      ''loss_vicreg_global_mean'', ''loss_vicreg_channel_mean'', ''representation_embedding_dim'',
      ''representation_effective_rank'', ''representation_effective_rank_fraction'',
      ''representation_min_dimension_variance'', ''representation_max_dimension_variance'',
      ''representation_condition_number'', ''representation_isotropy_score'']"

definition runtime_health_metrics :: "string list" where
  "runtime_health_metrics =
     [''finite_parameter_check'', ''nonfinite_output_count'', ''checkpoint_written'', ''model_state_mutated'',
      ''representation_checkpoint_loaded'', ''mdn_checkpoint_loaded'', ''grad_norm_max_pre_clip'',
      ''grad_norm_clip_ratio'', ''max_grad_norm'', ''sigma_min'', ''sigma_mean'', ''sigma_max'',
      ''sigma_min_valid'', ''sigma_mean_valid'', ''sigma_max_valid'', ''mixture_entropy'',
      ''valid_target_fraction'']"

definition mdn_distribution_calibration_metrics :: "string list" where
  "mdn_distribution_calibration_metrics =
     [''mean_nll'', ''mean_nll_per_channel_max'', ''mean_nll_per_target_feature_max'',
      ''mean_nll_per_channel_target_feature_max'', ''per_node_mean_nll_max'', ''crps'', ''pit_ks_statistic'',
      ''predictive_interval_coverage_error'', ''tail_coverage_error'', ''calibration_slope_error'']"

definition health_high_is_bad :: "string list" where
  "health_high_is_bad =
     [''mean_invariance_loss'', ''mean_variance_loss'', ''mean_covariance_loss'', ''loss_jepa_mean'',
      ''loss_mae_time_mean'', ''loss_mae_frequency_mean'', ''loss_tf_align_mean'',
      ''loss_vicreg_global_mean'', ''loss_vicreg_channel_mean'', ''last_grad_norm'', ''max_grad_norm'',
      ''context_starved_sample_count'', ''reduced_targets_for_context_count'', ''target_ema_distance'',
      ''latent_norm'', ''representation_max_dimension_variance'', ''representation_condition_number'']"

definition health_low_is_bad :: "string list" where
  "health_low_is_bad =
     [''total_valid_projection_rows'', ''mean_adapter_valid_channel_time_fraction'',
      ''augmented_valid_feature_count'', ''mean_augmented_valid_feature_fraction'',
      ''mean_augmented_feature_retention_fraction'', ''finite_parameter_check'', ''gradients_finite'',
      ''sample_valid_count'', ''sample_valid_fraction'', ''channel_valid_count'', ''channel_valid_fraction'',
      ''valid_latent_rows'', ''tf_pair_count'', ''tf_pair_valid_count'', ''vicreg_global_valid_rows'',
      ''vicreg_channel_valid_rows'', ''min_context_satisfied_count'', ''latent_std'',
      ''representation_embedding_dim'', ''representation_effective_rank'',
      ''representation_effective_rank_fraction'', ''representation_min_dimension_variance'',
      ''representation_isotropy_score'']"

definition source_analytics_fractions :: "string list" where
  "source_analytics_fractions =
     [''sample_validity_fraction'', ''missingness_fraction'']"

definition forecast_baseline_fractions :: "string list" where
  "forecast_baseline_fractions =
     [''baseline_directional_accuracy'']"

definition forecast_eval_fractions :: "string list" where
  "forecast_eval_fractions =
     [''directional_accuracy'', ''calibration_coverage'']"

definition observer_belief_fractions :: "string list" where
  "observer_belief_fractions =
     [''confidence'', ''data_quality'', ''liquidity'', ''raw_potential_tradable_return'',
      ''allocation_authority'', ''forecast_lineage_bound'', ''channel_consensus_bound'',
      ''potential_surface_diagnostics_bound'', ''nodelift_return_projection_bound'',
      ''covariance_coupling_bound'', ''scenario_bank_bound'', ''nodelift_residual_quality_bound'',
      ''projection_validation_scores_bound'', ''feature_semantics_bound'', ''dock_binding_bound'']"

definition allocation_engine_fractions :: "string list" where
  "allocation_engine_fractions =
     [''numeraire_weight'', ''turnover'', ''transaction_cost_estimate'', ''deterministic_artifact'',
      ''visibility_only'', ''allocation_authority'', ''execution_authority'', ''market_readiness_authority'',
      ''deployment_authority'', ''accounting_numeraire_node_bound'',
      ''accounting_numeraire_node_from_base_policy'', ''accounting_numeraire_node_base_policy_match'',
      ''accounting_numeraire_node_graph_bound'', ''observer_belief_bound'', ''forecast_artifact_bound'',
      ''base_policy_bound'', ''cap_diagnostics_bound'', ''scenario_growth_floor_status_bound'',
      ''scenario_growth_floor_met'', ''scenario_growth_floor_attention'', ''fallback_declared'',
      ''fallback_active'', ''derisk_declared'', ''derisk_active'']"

definition source_analytics_counts :: "string list" where
  "source_analytics_counts =
     [''duplicate_sample_count'', ''source_receipt_fact_count'']"

definition forecast_baseline_counts :: "string list" where
  "forecast_baseline_counts =
     [''support_count'', ''valid_count'', ''missing_count'', ''baseline_kind_count'',
      ''computed_metric_fact_count'', ''partial_metric_fact_count'', ''deferred_metric_fact_count'',
      ''computed_metric_value_count'', ''metric_status_mismatch_count'']"

definition forecast_eval_counts :: "string list" where
  "forecast_eval_counts =
     [''support_count'', ''valid_count'', ''missing_count'', ''weakest_support_rows'',
      ''weakest_horizon_support_rows'']"


text \<open>The dimensions of the metrics of representation health, as the clause checks them first and as validation does\<close>

definition health_clause_fractions :: "string list" where
  "health_clause_fractions =
     [''mean_adapter_valid_channel_time_fraction'', ''finite_parameter_check'', ''gradients_finite'',
      ''sample_valid_fraction'', ''channel_valid_fraction'', ''representation_effective_rank_fraction'',
      ''representation_isotropy_score'']"

definition health_clause_counts :: "string list" where
  "health_clause_counts =
     [''total_valid_projection_rows'', ''sample_valid_count'', ''channel_valid_count'', ''valid_latent_rows'',
      ''tf_pair_count'', ''tf_pair_valid_count'', ''vicreg_global_valid_rows'', ''vicreg_channel_valid_rows'',
      ''context_starved_sample_count'', ''reduced_targets_for_context_count'', ''min_context_satisfied_count'',
      ''representation_embedding_dim'']"

definition health_fractions :: "string list" where
  "health_fractions = health_clause_fractions @
     [''mean_augmented_valid_feature_fraction'', ''mean_augmented_feature_retention_fraction'']"

definition health_counts :: "string list" where
  "health_counts = health_clause_counts @ [''augmented_valid_feature_count'']"

definition forecast_eval_signed :: "string list" where
  "forecast_eval_signed =
     [''signed_error'', ''skill_vs_baseline'', ''skill_vs_naive'', ''skill_vs_baseline_mean_nll'',
      ''skill_vs_baseline_ev_mae'', ''skill_vs_baseline_ev_rmse'', ''directional_accuracy_delta_vs_baseline'']"

definition runtime_health_fractions :: "string list" where
  "runtime_health_fractions =
     [''finite_parameter_check'', ''checkpoint_written'', ''model_state_mutated'', ''representation_checkpoint_loaded'',
      ''mdn_checkpoint_loaded'', ''valid_target_fraction'']"

definition calibration_fractions :: "string list" where
  "calibration_fractions = [''pit_ks_statistic'', ''predictive_interval_coverage_error'', ''tail_coverage_error'']"

section \<open>Dimensions\<close>

text \<open>A warning with a metric warns above or below its threshold; not a number means that it is not set.\<close>

definition uses_above :: "lattice_warning_spec \<Rightarrow> bool" where
  "uses_above w \<longleftrightarrow> lw_above w \<noteq> NotANumber"

definition warning_threshold :: "lattice_warning_spec \<Rightarrow> c_float" where
  "warning_threshold w = (if uses_above w then lw_above w else lw_below w)"

definition warning_field :: "lattice_warning_spec \<Rightarrow> string" where
  "warning_field w = (if uses_above w then ''ABOVE'' else ''BELOW'')"

text \<open>A threshold by the dimension of its metric: fractions, counts, signed values, and otherwise not negative\<close>

definition dimension_by_metric ::
  "string list \<Rightarrow> string list \<Rightarrow> string list \<Rightarrow> string \<Rightarrow> c_float \<Rightarrow> string \<Rightarrow> string \<Rightarrow> check list"
where
  "dimension_by_metric fractions counts signs metric v field tid =
     (if metric \<in> set fractions then fraction_dimension v field tid
      else if metric \<in> set counts then count_threshold v field tid
      else if metric \<in> set signs then finite_dimension v field metric tid
      else non_negative_dimension v field metric tid)"

definition metric_dimension :: "string list \<Rightarrow> string list \<Rightarrow> string list \<Rightarrow> lattice_warning_spec \<Rightarrow> string \<Rightarrow> check list" where
  "metric_dimension fractions counts signs w tid =
     dimension_by_metric fractions counts signs (lw_metric w) (warning_threshold w) (warning_field w) tid"

definition health_dimension :: "lattice_warning_spec \<Rightarrow> string \<Rightarrow> check list" where
  "health_dimension w tid =
     (if lw_metric w = ''representation_condition_number''
      then dimension_at_least (warning_threshold w) (warning_field w) ''condition_number'' (1, ''1'') tid
      else metric_dimension health_fractions health_counts [] w tid)"

definition health_direction :: "lattice_warning_spec \<Rightarrow> string \<Rightarrow> check list" where
  "health_direction w tid =
     [(lw_metric w \<in> set health_high_is_bad \<and> \<not> uses_above w,
        ''LATTICE_WARN representation_health '' @ lw_metric w @ '' uses ABOVE for '' @ tid),
      (lw_metric w \<in> set health_low_is_bad \<and> uses_above w,
        ''LATTICE_WARN representation_health '' @ lw_metric w @ '' uses BELOW for '' @ tid)]"

definition anchor_domain_dimension :: "lattice_warning_spec \<Rightarrow> string \<Rightarrow> check list" where
  "anchor_domain_dimension w tid =
     (if is_finite (lw_accepted_fraction_below w)
      then fraction_dimension (lw_accepted_fraction_below w) ''ACCEPTED_FRACTION_BELOW'' tid else []) @
     (case lw_skipped_failed_fetch_probe_above w of None \<Rightarrow> []
      | Some n \<Rightarrow> non_negative_count n ''SKIPPED_FAILED_FETCH_PROBE_ABOVE'' tid)"

definition validate_lattice_warning_dimensions :: "lattice_warning_spec \<Rightarrow> string \<Rightarrow> check list" where
  "validate_lattice_warning_dimensions w tid =
     (let kind = lw_kind w; metric = lw_metric w in
      if kind = ''exposure_load'' then
        non_negative_dimension (lw_cursor_epochs_above w) ''CURSOR_EPOCHS_ABOVE'' ''cursor_epoch'' tid
      else if kind = ''effort_density'' then non_negative_dimension (lw_above w) ''ABOVE'' metric tid
      else if kind = ''source_analytics'' then metric_dimension source_analytics_fractions source_analytics_counts [] w tid
      else if kind = ''forecast_baseline'' then
        metric_dimension forecast_baseline_fractions forecast_baseline_counts [''baseline_signed_error''] w tid
      else if kind = ''forecast_eval'' then
        metric_dimension forecast_eval_fractions forecast_eval_counts forecast_eval_signed w tid
      else if kind = ''observer_belief'' then metric_dimension observer_belief_fractions [] [] w tid
      else if kind = ''allocation_engine'' then metric_dimension allocation_engine_fractions [] [] w tid
      else if kind = ''anchor_domain_health'' then anchor_domain_dimension w tid
      else if kind = ''node_support_balance'' then
        (if metric = ''valid_target_count_gini'' then fraction_dimension (lw_above w) ''ABOVE'' tid
         else if metric = ''valid_target_count_normalized_entropy'' then fraction_dimension (lw_below w) ''BELOW'' tid
         else non_negative_dimension (lw_above w) ''ABOVE'' metric tid)
      else if kind = ''node_support_floor'' then
        (if metric = ''min_valid_target_fraction'' \<or> metric = ''valid_target_wilson_lower_95''
         then fraction_dimension (lw_below w) ''BELOW'' tid else count_threshold (lw_below w) ''BELOW'' tid)
      else if kind = ''representation_health'' then health_dimension w tid @ health_direction w tid
      else if kind = ''runtime_health'' then metric_dimension runtime_health_fractions [''nonfinite_output_count''] [] w tid
      else if kind = ''mdn_distribution_calibration'' then
        (if metric \<in> set calibration_fractions then fraction_dimension (lw_above w) ''ABOVE'' tid
         else non_negative_dimension (lw_above w) ''ABOVE'' metric tid)
      else [])"

section \<open>Kinds, uses and effects\<close>

definition default_lattice_warning_kind_for_target :: "lattice_target_spec \<Rightarrow> string" where
  "default_lattice_warning_kind_for_target spec =
     (let family = lowercase (trim (ts_subject_fact_family spec)) in
      if is_artifact_readiness_target_class (ts_target_class spec) \<and>
        family \<in> {''forecast_baseline'', ''forecast_eval'', ''observer_belief'', ''allocation_engine''} then family else [])"

definition lattice_warning_kind_from_block :: "lattice_target_spec \<Rightarrow> kv_block \<Rightarrow> string result" where
  "lattice_warning_kind_from_block spec block =
     (let raw = kv_optional block ''KIND'' []; d = default_lattice_warning_kind_for_target spec in
      if trim raw \<noteq> [] then Inr (lowercase raw)
      else if d \<noteq> [] then Inr d
      else throw_target (''LATTICE_WARN KIND is required for '' @ ts_target_id spec))"

definition make_lattice_warning_clause :: "lattice_target_spec \<Rightarrow> kv_block \<Rightarrow> nat \<Rightarrow> target_clause result" where
  "make_lattice_warning_clause spec block i =
     rbind (kv_required block ''TARGET_ID'') (\<lambda>tid.
     rbind (lattice_warning_kind_from_block spec block) (\<lambda>kind.
     Inr \<lparr>tc_clause_id = kv_optional block ''WARNING_ID'' (auto_clause_id ''warn'' tid i), tc_target_id = tid,
       tc_kind = kind, tc_fields = lattice_clause_fields_from_block block\<rparr>))"

definition defaulted_lattice_warning_use ::
  "lattice_target_spec \<Rightarrow> kv_block \<Rightarrow> string \<Rightarrow> exposure_use option \<Rightarrow> exposure_use result"
where
  "defaulted_lattice_warning_use spec block kind fallback =
     (let raw = kv_optional block ''USE'' [] in
      if trim raw \<noteq> [] then parse_exposure_use raw
      else case default_exposure_coverage_use_for_target spec of
        Some u \<Rightarrow> Inr u
      | None \<Rightarrow> (case fallback of Some u \<Rightarrow> Inr u
          | None \<Rightarrow> throw_target (''LATTICE_WARN '' @ kind @ '' requires USE for '' @ ts_target_id spec)))"

definition default_lattice_warning_effect_for_target :: "lattice_target_spec \<Rightarrow> string" where
  "default_lattice_warning_effect_for_target spec =
     (if default_exposure_coverage_use_for_target spec = Some EvaluationMetric then ''any'' else ''mutated_component'')"

section \<open>The clause\<close>

definition warning_scope :: "kv_block \<Rightarrow> lattice_target_spec \<Rightarrow> string \<Rightarrow> lattice_warning_spec result" where
  "warning_scope block spec kind =
     (let tid = ts_target_id spec;
        explicit = has_lattice_key block ''ANCHOR_INDEX_BEGIN'' \<or> has_lattice_key block ''ANCHOR_INDEX_END'';
        scope = lowercase (kv_optional block ''COMPONENT_SCOPE'' (kv_optional block ''SCOPE'' ''target_component_family_id''));
        effect = lowercase (kv_optional block ''EFFECT'' (default_lattice_warning_effect_for_target spec)) in
      rbind (run_checks
        [(scope \<noteq> ''target_component_family_id'' \<and> scope \<noteq> ''all_components'',
           ''LATTICE_WARN SCOPE must be target_component_family_id or all_components for '' @ tid),
         (effect \<notin> {''mutated_component'', ''any'', ''none''},
           ''LATTICE_WARN EFFECT must be mutated_component, any, or none for '' @ tid)]) (\<lambda>_.
      Inr (default_warning_spec\<lparr>
        lw_warning_id := kv_optional block ''WARNING_ID'' (auto_clause_id ''warn'' tid (length (ts_warning_specs spec))),
        lw_kind := kind, lw_split := kv_optional block ''SPLIT'' (if explicit then [] else ts_train_split spec),
        lw_scope := scope, lw_require_mutated_component := (effect = ''mutated_component'')\<rparr>)))"

definition warning_anchor :: "kv_block \<Rightarrow> string \<Rightarrow> string \<Rightarrow> size option result" where
  "warning_anchor block key tid =
     (if has_lattice_key block key then
        rbind (kv_required block key) (\<lambda>raw.
        rbind (parse_i64 raw) (\<lambda>v.
        rbind (run_checks [(v < 0, ''LATTICE_WARN '' @ key @ '' must be non-negative for '' @ tid)]) (\<lambda>_.
        Inr (Some (size_of_i64 v)))))
      else Inr None)"

definition warning_range :: "kv_block \<Rightarrow> string \<Rightarrow> lattice_warning_spec \<Rightarrow> lattice_warning_spec result" where
  "warning_range block tid w =
     rbind (warning_anchor block ''ANCHOR_INDEX_BEGIN'' tid) (\<lambda>b.
     rbind (warning_anchor block ''ANCHOR_INDEX_END'' tid) (\<lambda>e.
     rbind (run_checks
       [((b \<noteq> None) \<noteq> (e \<noteq> None),
          ''LATTICE_WARN explicit range requires both ANCHOR_INDEX_BEGIN and ANCHOR_INDEX_END for '' @ tid),
        (range_order_check b e, ''LATTICE_WARN ANCHOR_INDEX_END must be greater than BEGIN for '' @ tid)]) (\<lambda>_.
     Inr (w\<lparr>lw_anchor_index_begin := b, lw_anchor_index_end := e\<rparr>))))"

text \<open>A required threshold that must not be negative\<close>

definition required_threshold :: "kv_block \<Rightarrow> string \<Rightarrow> string \<Rightarrow> c_float result" where
  "required_threshold block key tid =
     rbind (kv_required block key) (\<lambda>raw.
     rbind (parse_double raw) (\<lambda>v.
     rbind (run_checks [(float_less v (Finite 0), ''LATTICE_WARN '' @ key @ '' must be non-negative for '' @ tid)]) (\<lambda>_. Inr v)))"

text \<open>A metric that the kind knows, and exactly one of two thresholds\<close>

definition one_threshold ::
  "string \<Rightarrow> string list \<Rightarrow> kv_block \<Rightarrow> string \<Rightarrow> lattice_warning_spec \<Rightarrow> lattice_warning_spec result"
where
  "one_threshold kind metrics block tid w =
     rbind (kv_required block ''METRIC'') (\<lambda>raw.
     let above = kv_optional block ''ABOVE'' []; below = kv_optional block ''BELOW'' [] in
     rbind (run_checks
       [(lowercase raw \<notin> set metrics, ''LATTICE_WARN '' @ kind @ '' METRIC is unsupported for '' @ tid),
        ((trim above \<noteq> []) = (trim below \<noteq> []),
          ''LATTICE_WARN '' @ kind @ '' requires exactly one of ABOVE or BELOW for '' @ tid)]) (\<lambda>_.
     let w = w\<lparr>lw_metric := lowercase raw\<rparr> in
     rbind (if trim above \<noteq> [] then rbind (parse_double above) (\<lambda>v. Inr (w\<lparr>lw_above := v\<rparr>)) else Inr w) (\<lambda>w.
     if trim below \<noteq> [] then rbind (parse_double below) (\<lambda>v. Inr (w\<lparr>lw_below := v\<rparr>)) else Inr w)))"

definition artifact_metric_warning ::
  "string \<Rightarrow> string list \<Rightarrow> kv_block \<Rightarrow> string \<Rightarrow> lattice_warning_spec \<Rightarrow> lattice_warning_spec result"
where
  "artifact_metric_warning kind metrics block tid w =
     one_threshold kind metrics block tid (w\<lparr>lw_require_mutated_component := False, lw_use := EvaluationMetric\<rparr>)"

definition effort_density_warning :: "kv_block \<Rightarrow> string \<Rightarrow> lattice_warning_spec \<Rightarrow> lattice_warning_spec result" where
  "effort_density_warning block tid w =
     (let metric = lowercase (kv_optional block ''METRIC'' ''optimizer_steps_per_cursor_epoch'') in
      rbind (run_checks [(metric \<noteq> ''optimizer_steps_per_cursor_epoch'' \<and> metric \<noteq> ''optimizer_steps_per_unique_anchor'',
        ''LATTICE_WARN effort_density METRIC must be optimizer_steps_per_cursor_epoch or '' @
        ''optimizer_steps_per_unique_anchor for '' @ tid)]) (\<lambda>_.
      rbind (required_threshold block ''ABOVE'' tid) (\<lambda>v. Inr (w\<lparr>lw_metric := metric, lw_above := v\<rparr>))))"

definition anchor_domain_warning :: "kv_block \<Rightarrow> string \<Rightarrow> lattice_warning_spec \<Rightarrow> lattice_warning_spec result" where
  "anchor_domain_warning block tid w =
     (let accepted_raw = kv_optional block ''ACCEPTED_FRACTION_BELOW'' [];
        skipped_raw = kv_optional block ''SKIPPED_FAILED_FETCH_PROBE_ABOVE'' [] in
      rbind (if trim accepted_raw = [] then Inr (lw_accepted_fraction_below w) else parse_double accepted_raw) (\<lambda>accepted.
      rbind (run_checks [(trim accepted_raw \<noteq> [] \<and> (float_less accepted (Finite 0) \<or> float_less (Finite 1) accepted),
        ''LATTICE_WARN ACCEPTED_FRACTION_BELOW must be between 0 and 1 for '' @ tid)]) (\<lambda>_.
      rbind (if trim skipped_raw = [] then Inr None
        else rbind (parse_i64 skipped_raw) (\<lambda>v.
          rbind (run_checks [(v < 0, ''LATTICE_WARN SKIPPED_FAILED_FETCH_PROBE_ABOVE must be non-negative for '' @ tid)]) (\<lambda>_.
          Inr (Some v)))) (\<lambda>skipped.
      rbind (run_checks [(is_finite accepted = (skipped \<noteq> None),
        ''LATTICE_WARN anchor_domain_health requires ACCEPTED_FRACTION_BELOW or SKIPPED_FAILED_FETCH_PROBE_ABOVE, '' @
        ''exactly one for '' @ tid)]) (\<lambda>_.
      Inr (w\<lparr>lw_accepted_fraction_below := accepted, lw_skipped_failed_fetch_probe_above := skipped\<rparr>))))))"

definition node_support_balance_warning :: "kv_block \<Rightarrow> string \<Rightarrow> lattice_warning_spec \<Rightarrow> lattice_warning_spec result" where
  "node_support_balance_warning block tid w =
     rbind (parse_exposure_use (kv_optional block ''USE'' ''target_supervision'')) (\<lambda>use.
     let metric = lowercase (kv_optional block ''METRIC'' ''valid_target_count_gini'') in
     rbind (run_checks
       [(metric \<notin> {''valid_target_count_gini'', ''valid_target_count_coefficient_of_variation'',
           ''valid_target_count_normalized_entropy''},
          ''LATTICE_WARN node_support_balance METRIC must be valid_target_count_gini, '' @
          ''valid_target_count_coefficient_of_variation, or valid_target_count_normalized_entropy for '' @ tid),
        (metric = ''valid_target_count_normalized_entropy'' \<and> trim (kv_optional block ''ABOVE'' []) \<noteq> [],
          ''LATTICE_WARN node_support_balance normalized entropy uses BELOW for '' @ tid)]) (\<lambda>_.
     if metric = ''valid_target_count_normalized_entropy'' then
       rbind (required_threshold block ''BELOW'' tid) (\<lambda>v. Inr (w\<lparr>lw_use := use, lw_metric := metric, lw_below := v\<rparr>))
     else rbind (required_threshold block ''ABOVE'' tid) (\<lambda>v. Inr (w\<lparr>lw_use := use, lw_metric := metric, lw_above := v\<rparr>))))"

definition node_support_floor_warning :: "kv_block \<Rightarrow> string \<Rightarrow> lattice_warning_spec \<Rightarrow> lattice_warning_spec result" where
  "node_support_floor_warning block tid w =
     rbind (parse_exposure_use (kv_optional block ''USE'' ''target_supervision'')) (\<lambda>use.
     let metric = lowercase (kv_optional block ''METRIC'' ''weakest_valid_target_count'') in
     rbind (run_checks
       [(metric \<notin> {''weakest_valid_target_count'', ''min_valid_target_fraction'', ''valid_target_wilson_lower_95''},
          ''LATTICE_WARN node_support_floor METRIC must be weakest_valid_target_count, min_valid_target_fraction, or '' @
          ''valid_target_wilson_lower_95 for '' @ tid)]) (\<lambda>_.
     rbind (required_threshold block ''BELOW'' tid) (\<lambda>v. Inr (w\<lparr>lw_use := use, lw_metric := metric, lw_below := v\<rparr>))))"

definition representation_health_warning :: "kv_block \<Rightarrow> string \<Rightarrow> lattice_warning_spec \<Rightarrow> lattice_warning_spec result" where
  "representation_health_warning block tid w =
     rbind (one_threshold ''representation_health'' representation_health_metrics block tid w) (\<lambda>w.
     let field = (if trim (kv_optional block ''ABOVE'' []) \<noteq> [] then ''ABOVE'' else ''BELOW'');
       v = (if field = ''ABOVE'' then lw_above w else lw_below w) in
     rbind (run_checks (dimension_by_metric health_clause_fractions health_clause_counts [] (lw_metric w) v field tid)) (\<lambda>_.
     Inr w))"

definition calibration_warning ::
  "kv_block \<Rightarrow> lattice_target_spec \<Rightarrow> lattice_warning_spec \<Rightarrow> lattice_warning_spec result"
where
  "calibration_warning block spec w =
     (let tid = ts_target_id spec in
      rbind (defaulted_lattice_warning_use spec block (lw_kind w) (Some EvaluationMetric)) (\<lambda>use.
      rbind (kv_required block ''METRIC'') (\<lambda>raw.
      let metric = lowercase raw in
      rbind (run_checks
        [(metric \<notin> set mdn_distribution_calibration_metrics,
           ''LATTICE_WARN mdn_distribution_calibration METRIC is unsupported for '' @ tid),
         (trim (kv_optional block ''BELOW'' []) \<noteq> [], ''LATTICE_WARN mdn_distribution_calibration uses ABOVE for '' @ tid)]) (\<lambda>_.
      rbind (kv_required block ''ABOVE'') (\<lambda>raw_above.
      rbind (parse_double raw_above) (\<lambda>v.
      rbind (run_checks (dimension_by_metric calibration_fractions [] [] metric v ''ABOVE'' tid)) (\<lambda>_.
      Inr (w\<lparr>lw_use := use, lw_metric := metric, lw_above := v\<rparr>))))))))"

definition warning_by_kind :: "kv_block \<Rightarrow> lattice_target_spec \<Rightarrow> lattice_warning_spec \<Rightarrow> lattice_warning_spec result" where
  "warning_by_kind block spec w =
     (let kind = lw_kind w; tid = ts_target_id spec in
      if kind = ''exposure_load'' then
        rbind (defaulted_lattice_warning_use spec block kind None) (\<lambda>use.
        rbind (required_threshold block ''CURSOR_EPOCHS_ABOVE'' tid) (\<lambda>v. Inr (w\<lparr>lw_use := use, lw_cursor_epochs_above := v\<rparr>)))
      else if kind = ''effort_density'' then
        rbind (defaulted_lattice_warning_use spec block kind None) (\<lambda>use. effort_density_warning block tid (w\<lparr>lw_use := use\<rparr>))
      else if kind = ''anchor_domain_health'' then anchor_domain_warning block tid w
      else if kind = ''source_analytics'' then
        one_threshold kind source_analytics_metrics block tid (w\<lparr>lw_require_mutated_component := False\<rparr>)
      else if kind = ''forecast_baseline'' then artifact_metric_warning kind forecast_baseline_metrics block tid w
      else if kind = ''forecast_eval'' then artifact_metric_warning kind forecast_eval_metrics block tid w
      else if kind = ''observer_belief'' then artifact_metric_warning kind observer_belief_metrics block tid w
      else if kind = ''allocation_engine'' then artifact_metric_warning kind allocation_engine_metrics block tid w
      else if kind = ''node_support_balance'' then node_support_balance_warning block tid w
      else if kind = ''node_support_floor'' then node_support_floor_warning block tid w
      else if kind = ''representation_health'' then representation_health_warning block tid w
      else if kind = ''runtime_health'' then
        rbind (defaulted_lattice_warning_use spec block kind (Some TargetSupervision)) (\<lambda>use.
        one_threshold kind runtime_health_metrics block tid (w\<lparr>lw_use := use\<rparr>))
      else if kind = ''mdn_distribution_calibration'' then calibration_warning block spec w
      else throw_target (''unsupported LATTICE_WARN KIND '' @ kind @ '' for '' @ tid))"

definition decode_lattice_warning :: "kv_block \<Rightarrow> lattice_target_spec \<Rightarrow> lattice_warning_spec result" where
  "decode_lattice_warning block spec =
     rbind (lattice_warning_kind_from_block spec block) (\<lambda>kind.
     rbind (warning_scope block spec kind) (\<lambda>w.
     rbind (warning_range block (ts_target_id spec) w) (\<lambda>w.
     rbind (warning_by_kind block spec w) (\<lambda>w.
     rbind (run_checks (validate_lattice_warning_dimensions w (ts_target_id spec))) (\<lambda>_. Inr w)))))"

definition apply_lattice_warn_clause :: "kv_block \<Rightarrow> lattice_target_spec \<Rightarrow> lattice_target_spec result" where
  "apply_lattice_warn_clause block spec =
     rbind (decode_lattice_warning block spec) (\<lambda>w. Inr (spec\<lparr>ts_warning_specs := ts_warning_specs spec @ [w]\<rparr>))"

section \<open>A warning has one threshold\<close>

text \<open>Which of the thresholds of a warning are set\<close>

definition thresholds_set :: "lattice_warning_spec \<Rightarrow> bool list" where
  "thresholds_set w = [is_finite (lw_cursor_epochs_above w), is_finite (lw_above w), is_finite (lw_below w),
     is_finite (lw_accepted_fraction_below w), lw_skipped_failed_fetch_probe_above w \<noteq> None]"

text \<open>A warning before its kind is looked at: no threshold is set.\<close>

definition fresh_warning :: "lattice_warning_spec \<Rightarrow> bool" where
  "fresh_warning w \<longleftrightarrow> lw_cursor_epochs_above w = NotANumber \<and> lw_above w = NotANumber \<and> lw_below w = NotANumber \<and>
     lw_accepted_fraction_below w = NotANumber \<and> lw_skipped_failed_fetch_probe_above w = None"

lemma warning_scope_fresh: "warning_scope block spec kind = Inr w \<Longrightarrow> fresh_warning w \<and> lw_kind w = kind"
  by (auto simp: warning_scope_def res_simps Let_def fresh_warning_def default_warning_spec_def)

lemma warning_range_fresh:
  "warning_range block tid w = Inr u \<Longrightarrow> fresh_warning u = fresh_warning w \<and> lw_kind u = lw_kind w"
  by (auto simp: warning_range_def res_simps fresh_warning_def)

lemma non_negative_dimension_finite:
  "list_all (\<lambda>(bad, _). \<not> bad) (non_negative_dimension v field u tid) \<Longrightarrow> is_finite v"
  by (simp add: non_negative_dimension_def finite_dimension_def)

lemma fraction_dimension_finite: "list_all (\<lambda>(bad, _). \<not> bad) (fraction_dimension v field tid) \<Longrightarrow> is_finite v"
  by (simp add: fraction_dimension_def finite_dimension_def)

lemma dimension_by_metric_finite:
  "list_all (\<lambda>(bad, _). \<not> bad) (dimension_by_metric fs cs ss metric v field tid) \<Longrightarrow> is_finite v"
  by (auto simp: dimension_by_metric_def count_threshold_def non_negative_dimension_def finite_dimension_def
      fraction_dimension_def split: if_splits)

lemma metric_dimension_finite:
  "list_all (\<lambda>(bad, _). \<not> bad) (metric_dimension fs cs ss w tid) \<Longrightarrow> is_finite (warning_threshold w)"
  unfolding metric_dimension_def by (rule dimension_by_metric_finite)

lemma health_dimension_finite:
  "list_all (\<lambda>(bad, _). \<not> bad) (health_dimension w tid) \<Longrightarrow> is_finite (warning_threshold w)"
  by (auto simp: health_dimension_def dimension_at_least_def finite_dimension_def dest: metric_dimension_finite split: if_splits)

lemmas dimension_finite = metric_dimension_finite health_dimension_finite fraction_dimension_finite
  non_negative_dimension_finite

lemma one_threshold_set:
  assumes "one_threshold kind metrics block tid w = Inr u" "fresh_warning w" "is_finite (warning_threshold u)"
  shows "length (filter (\<lambda>b. b) (thresholds_set u)) = 1"
  using assms by (auto simp: one_threshold_def res_simps Let_def fresh_warning_def thresholds_set_def
      warning_threshold_def uses_above_def split: if_splits)

lemma one_threshold_frame:
  "one_threshold kind metrics block tid w = Inr u \<Longrightarrow> lw_kind u = lw_kind w"
  by (auto simp: one_threshold_def res_simps Let_def split: if_splits)

lemma fresh_update [simp]:
  "fresh_warning (w\<lparr>lw_use := a\<rparr>) = fresh_warning w"
  "fresh_warning (w\<lparr>lw_require_mutated_component := b\<rparr>) = fresh_warning w"
  by (simp_all add: fresh_warning_def)

lemma if_InrE:
  assumes "(if c then a else b) = Inr u" "c \<Longrightarrow> a = Inr u \<Longrightarrow> P" "\<not> c \<Longrightarrow> b = Inr u \<Longrightarrow> P"
  shows P
  using assms by (auto split: if_splits)

lemma rbind_InrE:
  assumes "rbind m f = Inr u" "\<And>x. m = Inr x \<Longrightarrow> f x = Inr u \<Longrightarrow> P"
  shows P
  using assms by (auto simp: res_simps)

lemma throw_target_InrE: "throw_target m = Inr u \<Longrightarrow> P"
  by simp

lemma effort_density_frame: "effort_density_warning block tid w = Inr u \<Longrightarrow> lw_kind u = lw_kind w"
  unfolding effort_density_warning_def Let_def by (elim rbind_InrE) auto

lemma anchor_domain_frame: "anchor_domain_warning block tid w = Inr u \<Longrightarrow> lw_kind u = lw_kind w"
  unfolding anchor_domain_warning_def Let_def by (elim rbind_InrE) auto

lemma artifact_metric_frame: "artifact_metric_warning kind ms block tid w = Inr u \<Longrightarrow> lw_kind u = lw_kind w"
  by (auto simp: artifact_metric_warning_def dest: one_threshold_frame)

lemma node_support_balance_frame: "node_support_balance_warning block tid w = Inr u \<Longrightarrow> lw_kind u = lw_kind w"
  unfolding node_support_balance_warning_def Let_def by (elim rbind_InrE if_InrE) auto

lemma node_support_floor_frame: "node_support_floor_warning block tid w = Inr u \<Longrightarrow> lw_kind u = lw_kind w"
  unfolding node_support_floor_warning_def Let_def by (elim rbind_InrE) auto

lemma representation_health_frame: "representation_health_warning block tid w = Inr u \<Longrightarrow> lw_kind u = lw_kind w"
  unfolding representation_health_warning_def Let_def
  by (elim rbind_InrE) (auto dest: one_threshold_frame)

lemma calibration_frame: "calibration_warning block spec w = Inr u \<Longrightarrow> lw_kind u = lw_kind w"
  unfolding calibration_warning_def Let_def by (elim rbind_InrE) auto

lemmas warning_frames = one_threshold_frame effort_density_frame anchor_domain_frame artifact_metric_frame
  node_support_balance_frame node_support_floor_frame representation_health_frame calibration_frame

lemma warning_by_kind_frame:
  assumes "warning_by_kind block spec w = Inr u"
  shows "lw_kind u = lw_kind w"
  using assms unfolding warning_by_kind_def Let_def
  by (elim if_InrE rbind_InrE throw_target_InrE) (auto dest: warning_frames)

text \<open>The kinds whose clause reads exactly one of two thresholds\<close>

definition one_threshold_kinds :: "string list" where
  "one_threshold_kinds = [''source_analytics'', ''forecast_baseline'', ''forecast_eval'', ''observer_belief'',
     ''allocation_engine'', ''representation_health'', ''runtime_health'']"

lemma one_threshold_kinds_set:
  assumes "warning_by_kind block spec w = Inr u" "lw_kind w \<in> set one_threshold_kinds" "fresh_warning w"
    "is_finite (warning_threshold u)"
  shows "length (filter (\<lambda>b. b) (thresholds_set u)) = 1"
proof -
  obtain kind metrics v where "one_threshold kind metrics block (ts_target_id spec) v = Inr u" "fresh_warning v"
    using assms(1-3) by (auto simp: one_threshold_kinds_def warning_by_kind_def artifact_metric_warning_def
        representation_health_warning_def res_simps Let_def)
  then show ?thesis using assms(4) by (rule one_threshold_set)
qed

lemma one_threshold_kinds_finite:
  assumes "lw_kind w \<in> set one_threshold_kinds" "list_all (\<lambda>(bad, _). \<not> bad) (validate_lattice_warning_dimensions w tid)"
  shows "is_finite (warning_threshold w)"
  using assms by (auto simp: one_threshold_kinds_def validate_lattice_warning_dimensions_def Let_def dest: dimension_finite)

lemma exposure_load_set:
  assumes "warning_by_kind block spec w = Inr u" "lw_kind w = ''exposure_load''" "fresh_warning w"
  shows "thresholds_set u = [is_finite (lw_cursor_epochs_above u), False, False, False, False]"
  using assms by (auto simp: warning_by_kind_def res_simps fresh_warning_def thresholds_set_def)

lemma effort_density_set:
  assumes "effort_density_warning block tid w = Inr u" "fresh_warning w"
  shows "thresholds_set u = [False, is_finite (lw_above u), False, False, False]"
  using assms unfolding effort_density_warning_def Let_def
  by (elim rbind_InrE) (auto simp: fresh_warning_def thresholds_set_def)

lemma anchor_domain_set:
  assumes "anchor_domain_warning block tid w = Inr u" "fresh_warning w"
  shows "length (filter (\<lambda>b. b) (thresholds_set u)) = 1"
  using assms unfolding anchor_domain_warning_def Let_def
  by (elim rbind_InrE) (auto simp: fresh_warning_def thresholds_set_def res_simps)

lemma node_support_balance_set:
  assumes "node_support_balance_warning block tid w = Inr u" "fresh_warning w"
  shows "thresholds_set u = (if lw_metric u = ''valid_target_count_normalized_entropy''
    then [False, False, is_finite (lw_below u), False, False] else [False, is_finite (lw_above u), False, False, False])"
  using assms unfolding node_support_balance_warning_def Let_def
  by (elim rbind_InrE if_InrE) (auto simp: fresh_warning_def thresholds_set_def)

lemma node_support_floor_set:
  assumes "node_support_floor_warning block tid w = Inr u" "fresh_warning w"
  shows "thresholds_set u = [False, False, is_finite (lw_below u), False, False]"
  using assms unfolding node_support_floor_warning_def Let_def
  by (elim rbind_InrE) (auto simp: fresh_warning_def thresholds_set_def)

lemma calibration_set:
  assumes "calibration_warning block spec w = Inr u" "fresh_warning w"
  shows "thresholds_set u = [False, is_finite (lw_above u), False, False, False]"
  using assms unfolding calibration_warning_def Let_def
  by (elim rbind_InrE) (auto simp: fresh_warning_def thresholds_set_def)

lemma other_kinds_set:
  assumes "warning_by_kind block spec w = Inr u" "lw_kind w \<notin> set one_threshold_kinds" "fresh_warning w"
    "list_all (\<lambda>(bad, _). \<not> bad) (validate_lattice_warning_dimensions u tid)"
  shows "length (filter (\<lambda>b. b) (thresholds_set u)) = 1"
proof -
  have k: "lw_kind u = lw_kind w" using assms(1) by (rule warning_by_kind_frame)
  consider (load) "lw_kind w = ''exposure_load''" | (density) "lw_kind w = ''effort_density''"
    | (domain) "lw_kind w = ''anchor_domain_health''" | (balance) "lw_kind w = ''node_support_balance''"
    | (floor) "lw_kind w = ''node_support_floor''" | (calibration) "lw_kind w = ''mdn_distribution_calibration''"
    using assms(1,2) by (simp add: warning_by_kind_def one_threshold_kinds_def Let_def split: if_split_asm)
  then show ?thesis
  proof cases
    case load
    then have "is_finite (lw_cursor_epochs_above u)"
      using assms(4) k by (auto simp: validate_lattice_warning_dimensions_def Let_def dest: dimension_finite)
    then show ?thesis using exposure_load_set [OF assms(1) load assms(3)] by simp
  next
    case density
    then have "is_finite (lw_above u)"
      using assms(4) k by (auto simp: validate_lattice_warning_dimensions_def Let_def dest: dimension_finite)
    moreover obtain v where "effort_density_warning block (ts_target_id spec) v = Inr u" "fresh_warning v"
      using assms(1,3) density by (auto simp: warning_by_kind_def res_simps)
    ultimately show ?thesis by (simp add: effort_density_set)
  next
    case domain
    then have "anchor_domain_warning block (ts_target_id spec) w = Inr u"
      using assms(1) by (simp add: warning_by_kind_def)
    then show ?thesis using assms(3) by (rule anchor_domain_set)
  next
    case balance
    then have b: "node_support_balance_warning block (ts_target_id spec) w = Inr u"
      using assms(1) by (simp add: warning_by_kind_def)
    have "if lw_metric u = ''valid_target_count_normalized_entropy'' then is_finite (lw_below u) else is_finite (lw_above u)"
      using assms(4) k balance by (auto simp: validate_lattice_warning_dimensions_def Let_def dest: dimension_finite split: if_splits)
    then show ?thesis using node_support_balance_set [OF b assms(3)] by (auto split: if_splits)
  next
    case floor
    then have b: "node_support_floor_warning block (ts_target_id spec) w = Inr u"
      using assms(1) by (simp add: warning_by_kind_def)
    have "is_finite (lw_below u)"
      using assms(4) k floor by (auto simp: validate_lattice_warning_dimensions_def count_threshold_def Let_def dest: dimension_finite split: if_splits)
    then show ?thesis using node_support_floor_set [OF b assms(3)] by simp
  next
    case calibration
    then have b: "calibration_warning block spec w = Inr u"
      using assms(1) by (simp add: warning_by_kind_def)
    have "is_finite (lw_above u)"
      using assms(4) k calibration by (auto simp: validate_lattice_warning_dimensions_def Let_def dest: dimension_finite split: if_splits)
    then show ?thesis using calibration_set [OF b assms(3)] by simp
  qed
qed

lemma decode_lattice_warning_one:
  assumes "decode_lattice_warning block spec = Inr w"
  shows "length (filter (\<lambda>b. b) (thresholds_set w)) = 1"
proof -
  obtain kind u v where u: "warning_scope block spec kind = Inr u" and v: "warning_range block (ts_target_id spec) u = Inr v"
    and w: "warning_by_kind block spec v = Inr w"
    and ok: "list_all (\<lambda>(bad, _). \<not> bad) (validate_lattice_warning_dimensions w (ts_target_id spec))"
    using assms by (auto simp: decode_lattice_warning_def res_simps)
  have fresh: "fresh_warning v"
    using warning_scope_fresh [OF u] warning_range_fresh [OF v] by simp
  show ?thesis
  proof (cases "lw_kind v \<in> set one_threshold_kinds")
    case True
    then show ?thesis
      using one_threshold_kinds_set [OF w True fresh] one_threshold_kinds_finite [OF _ ok] warning_by_kind_frame [OF w] by simp
  next
    case False
    then show ?thesis using other_kinds_set [OF w False fresh ok] by simp
  qed
qed

text \<open>
  C22: A \<open>LATTICE_WARN\<close> clause that is accepted adds one warning, at the end, and that warning has exactly one
  threshold: of the five that a warning can have, four stay unset and one is a finite number or a count.
\<close>

theorem accepted_warning_has_one_threshold:
  assumes "apply_lattice_warn_clause block spec = Inr t"
  shows "\<exists>w. t = spec\<lparr>ts_warning_specs := ts_warning_specs spec @ [w]\<rparr> \<and> length (filter (\<lambda>b. b) (thresholds_set w)) = 1"
  using assms decode_lattice_warning_one by (auto simp: apply_lattice_warn_clause_def res_simps)

definition example_warn_block :: kv_block where
  "example_warn_block = \<lparr>kv_name = ''LATTICE_WARN'', kv_values = [''TARGET_ID'' \<mapsto> ''t'', ''KIND'' \<mapsto> ''anchor_domain_health'',
     ''SKIPPED_FAILED_FETCH_PROBE_ABOVE'' \<mapsto> ''4'']\<rparr>"

definition example_warned :: lattice_target_spec where
  "example_warned = default_target_spec\<lparr>ts_warning_specs := [default_warning_spec\<lparr>lw_warning_id := ''warn::0'',
     lw_kind := ''anchor_domain_health'', lw_skipped_failed_fetch_probe_above := Some 4\<rparr>]\<rparr>"

lemma example_warn_applies: "apply_lattice_warn_clause example_warn_block default_target_spec = Inr example_warned"
  by code_simp

theorem accepted_warning_has_one_threshold_witness:
  "\<exists>w. example_warned = default_target_spec\<lparr>ts_warning_specs := ts_warning_specs default_target_spec @ [w]\<rparr> \<and>
     length (filter (\<lambda>b. b) (thresholds_set w)) = 1"
  using accepted_warning_has_one_threshold [OF example_warn_applies] .

end
