(* ===== verification/Target_Lowered.thy ===== *)
theory Target_Lowered
  imports Target_Warnings
begin

text \<open>
  \<open>validate_lattice_target_spec_lowered\<close> of \<open>lattice_target.h\<close>, which looks at a specification after its
  guard and clauses have been applied, and what a specification that passes it is.
\<close>

section \<open>Classes\<close>

text \<open>What every target without a kind must be, with the name of its class\<close>

definition no_kind_checks :: "string \<Rightarrow> lattice_target_spec \<Rightarrow> check list" where
  "no_kind_checks c spec =
     [(ts_target_kind_applicable spec, c @ '' targets must set target_kind_applicable=false for '' @ ts_target_id spec),
      (ts_kind spec \<noteq> Not_Applicable, c @ '' targets must use kind=not_applicable for '' @ ts_target_id spec)]"

definition no_wave_checks :: "string \<Rightarrow> lattice_target_spec \<Rightarrow> check list" where
  "no_wave_checks c spec =
     [(lowercase (trim (ts_plan_mode spec)) \<noteq> ''none'', c @ '' targets must use WAVE_MODE=none for '' @ ts_target_id spec),
      (ts_max_waves spec \<noteq> 0, c @ '' targets must use PLAN_MAX_ATTEMPTS=0 for '' @ ts_target_id spec)]"

definition oracle_gate_checks :: "string \<Rightarrow> string \<Rightarrow> lattice_target_spec \<Rightarrow> check list" where
  "oracle_gate_checks c proof_kind spec = no_kind_checks c spec @
     [(ts_subject_fact_family spec \<noteq> ''forecast_eval'',
        c @ '' targets must use SUBJECT_FACT_FAMILY=forecast_eval for '' @ ts_target_id spec),
      (ts_proof_kind spec \<noteq> proof_kind, c @ '' targets must use PROOF_KIND='' @ proof_kind @ '' for '' @ ts_target_id spec)] @
     no_wave_checks c spec"

definition validate_template :: "lattice_target_spec \<Rightarrow> unit result" where
  "validate_template spec =
     validate_artifact_readiness_proof_template (ts_subject_fact_family spec) (ts_proof_kind spec) (ts_target_id spec)"

definition validate_class_shape :: "lattice_target_spec \<Rightarrow> unit result" where
  "validate_class_shape spec =
     (let tid = ts_target_id spec in
      if is_artifact_readiness_target_class (ts_target_class spec) then
        rbind (run_checks (no_kind_checks ''artifact_readiness'' spec @
          [(ts_subject_fact_family spec = [],
             ''TARGET_CLASS=artifact_readiness requires SUBJECT_FACT_FAMILY for '' @ tid),
           (ts_proof_kind spec = [], ''TARGET_CLASS=artifact_readiness requires PROOF_KIND for '' @ tid)])) (\<lambda>_.
        rbind (validate_template spec) (\<lambda>_. run_checks (no_wave_checks ''artifact_readiness'' spec)))
      else if handoff spec then
        rbind (run_checks (no_kind_checks ''policy_execution_input_handoff'' spec @
          [(ts_subject_fact_family spec \<noteq> ''replay_environment'',
             ''policy_execution_input_handoff targets must use SUBJECT_FACT_FAMILY=replay_environment for '' @ tid),
           (ts_proof_kind spec = [], ''TARGET_CLASS=policy_execution_input_handoff requires PROOF_KIND for '' @ tid)])) (\<lambda>_.
        rbind (validate_template spec) (\<lambda>_. run_checks
          [(lowercase (trim (ts_plan_mode spec)) = ''none'',
             ''policy_execution_input_handoff targets must declare a dispatchable WAVE_MODE for '' @ tid),
           (ts_max_waves spec \<le> 0,
             ''policy_execution_input_handoff targets must use PLAN_MAX_ATTEMPTS greater than zero for '' @ tid)]))
      else if forecast_gate spec then run_checks (oracle_gate_checks ''synthetic_forecast_oracle_gate''
        ''synthetic_forecast_oracle_accuracy_bound'' spec)
      else if edge_return_gate spec then run_checks (oracle_gate_checks ''synthetic_edge_return_projection_oracle_gate''
        ''synthetic_edge_return_projection_oracle_bound'' spec)
      else run_checks [(\<not> ts_target_kind_applicable spec \<or> ts_kind spec = Not_Applicable,
        ''non-artifact targets must set target_kind_applicable=true and a concrete TARGET_KIND for '' @ tid)])"

section \<open>Ranges, thresholds and forbidden exposure\<close>

definition lowered_range_checks :: "lattice_target_spec \<Rightarrow> check list" where
  "lowered_range_checks spec =
     [source_range_check spec,
      (lowered_source_range spec = ''all'' \<and>
         (ts_train_split spec \<noteq> [] \<or> ts_anchor_index_begin spec \<noteq> None \<or> ts_anchor_index_end spec \<noteq> None),
        ''ranged target fields require SOURCE_RANGE=anchor_index for '' @ ts_target_id spec)] @
     anchor_range_checks spec @ [split_or_anchors_check spec]"

definition forecast_thresholds :: "oracle_thresholds \<Rightarrow> c_float list" where
  "forecast_thresholds t = [or_max_ev_mae t, or_max_ev_rmse t, or_min_directional_accuracy t, or_max_price_ev_mae t,
     or_max_price_ev_rmse t, or_max_activity_ev_mae t, or_max_activity_ev_rmse t, or_min_close_directional_accuracy t]"

definition edge_return_thresholds :: "oracle_thresholds \<Rightarrow> c_float list" where
  "edge_return_thresholds t = [or_max_edge_return_ev_mae t, or_max_edge_return_ev_rmse t,
     or_min_edge_return_directional_accuracy t, or_min_edge_return_pairwise_rank_accuracy t,
     or_min_edge_return_best_asset_agreement t, or_min_edge_return_correlation t]"

definition oracle_maximum :: "c_float \<Rightarrow> string \<Rightarrow> string \<Rightarrow> check list" where
  "oracle_maximum v field tid =
     [(\<not> is_finite v \<or> float_less v (Finite 0), field @ '' must be a finite non-negative threshold for '' @ tid)]"

definition forecast_gate_thresholds :: "lattice_target_spec \<Rightarrow> check list" where
  "forecast_gate_thresholds spec =
     (let t = ts_oracle spec; tid = ts_target_id spec in
      oracle_maximum (or_max_ev_mae t) ''MAX_ORACLE_EV_MAE'' tid @ oracle_maximum (or_max_ev_rmse t) ''MAX_ORACLE_EV_RMSE'' tid @
      fraction_dimension (or_min_directional_accuracy t) ''MIN_ORACLE_DIRECTIONAL_ACCURACY'' tid @
      oracle_maximum (or_max_price_ev_mae t) ''MAX_ORACLE_PRICE_EV_MAE'' tid @
      oracle_maximum (or_max_price_ev_rmse t) ''MAX_ORACLE_PRICE_EV_RMSE'' tid @
      oracle_maximum (or_max_activity_ev_mae t) ''MAX_ORACLE_ACTIVITY_EV_MAE'' tid @
      oracle_maximum (or_max_activity_ev_rmse t) ''MAX_ORACLE_ACTIVITY_EV_RMSE'' tid @
      fraction_dimension (or_min_close_directional_accuracy t) ''MIN_ORACLE_CLOSE_DIRECTIONAL_ACCURACY'' tid @
      [(list_ex is_finite (edge_return_thresholds t), ''edge-return ORACLE threshold fields require '' @
         ''TARGET_CLASS=synthetic_edge_return_projection_oracle_gate for '' @ tid)])"

definition edge_return_gate_thresholds :: "lattice_target_spec \<Rightarrow> check list" where
  "edge_return_gate_thresholds spec =
     (let t = ts_oracle spec; tid = ts_target_id spec in
      [(list_ex is_finite (forecast_thresholds t),
         ''feature ORACLE threshold fields require TARGET_CLASS=synthetic_forecast_oracle_gate for '' @ tid)] @
      oracle_maximum (or_max_edge_return_ev_mae t) ''MAX_ORACLE_EDGE_RETURN_EV_MAE'' tid @
      oracle_maximum (or_max_edge_return_ev_rmse t) ''MAX_ORACLE_EDGE_RETURN_EV_RMSE'' tid @
      fraction_dimension (or_min_edge_return_directional_accuracy t) ''MIN_ORACLE_EDGE_RETURN_DIRECTIONAL_ACCURACY'' tid @
      fraction_dimension (or_min_edge_return_pairwise_rank_accuracy t) ''MIN_ORACLE_EDGE_RETURN_PAIRWISE_RANK_ACCURACY'' tid @
      fraction_dimension (or_min_edge_return_best_asset_agreement t) ''MIN_ORACLE_EDGE_RETURN_BEST_ASSET_AGREEMENT'' tid @
      finite_dimension (or_min_edge_return_correlation t) ''MIN_ORACLE_EDGE_RETURN_CORRELATION'' ''correlation'' tid @
      [(float_less (or_min_edge_return_correlation t) (Finite (- 1)) \<or> float_less (Finite 1) (or_min_edge_return_correlation t),
         ''MIN_ORACLE_EDGE_RETURN_CORRELATION must be in [-1, 1] for '' @ tid)])"

definition oracle_checks :: "lattice_target_spec \<Rightarrow> check list" where
  "oracle_checks spec =
     (if forecast_gate spec then forecast_gate_thresholds spec
      else if edge_return_gate spec then edge_return_gate_thresholds spec
      else [(list_ex is_finite (forecast_thresholds (ts_oracle spec) @ edge_return_thresholds (ts_oracle spec)),
        ''ORACLE threshold fields require TARGET_CLASS=synthetic_forecast_oracle_gate or '' @
        ''TARGET_CLASS=synthetic_edge_return_projection_oracle_gate for '' @ ts_target_id spec)])"

definition lowered_forbid_checks :: "lattice_target_spec \<Rightarrow> check list" where
  "lowered_forbid_checks spec =
     (let tid = ts_target_id spec; b = ts_forbid_anchor_index_begin spec; e = ts_forbid_anchor_index_end spec;
        split = ts_forbid_split spec; uses = ts_forbid_exposure_uses spec in
      [(split \<noteq> [] \<and> (b \<noteq> None \<or> e \<noteq> None),
         ''FORBID_SPLIT and explicit forbidden exposure ranges are mutually exclusive for '' @ tid),
       ((b \<noteq> None) \<noteq> (e \<noteq> None), ''explicit forbidden exposure ranges require both begin and end for '' @ tid),
       (range_order_check b e, ''forbidden exposure end must be greater than begin for '' @ tid),
       ((split \<noteq> [] \<or> b \<noteq> None) \<and> uses = [] \<and> \<not> ts_forbid_uses_from_split_policy spec,
         ''forbidden exposure ranges require exposure uses for '' @ tid),
       (split = [] \<and> b = None \<and> uses \<noteq> [], ''forbidden exposure uses require a forbidden range for '' @ tid)])"

definition lowered_warning_checks :: "lattice_target_spec \<Rightarrow> lattice_warning_spec \<Rightarrow> check list" where
  "lowered_warning_checks spec w =
     validate_lattice_warning_dimensions w (ts_target_id spec) @
     [((lw_kind w = ''exposure_load'' \<or> lw_kind w = ''effort_density'') \<and> lw_split w = [] \<and> lw_anchor_index_begin w = None \<and>
         lowered_source_range spec \<noteq> ''anchor_index'',
        ''LATTICE_WARN '' @ lw_kind w @ '' requires SPLIT, explicit ANCHOR_INDEX_BEGIN/END, or an anchor_index target range for '' @
        ts_target_id spec)]"

definition lowered_checks :: "lattice_target_spec \<Rightarrow> check list" where
  "lowered_checks spec = checkpoint_source_checks spec @ checkpoint_input_checks spec @ lowered_range_checks spec @
     fraction_threshold_checks spec @ oracle_checks spec @ count_threshold_checks spec @
     validate_artifact_readiness_no_training_knobs spec @ [exposure_range_check spec] @ lowered_forbid_checks spec @
     concat (map (lowered_warning_checks spec) (ts_warning_specs spec))"

definition validate_lattice_target_spec_lowered :: "lattice_target_spec \<Rightarrow> unit result" where
  "validate_lattice_target_spec_lowered spec =
     rbind (validate_lattice_target_class (lowercase (trim (ts_target_class spec))) (ts_target_id spec)) (\<lambda>_.
     rbind (validate_class_shape spec) (\<lambda>_. run_checks (lowered_checks spec)))"

section \<open>Targets that pass\<close>

text \<open>A target has a kind exactly when its class is one that has kinds.\<close>

definition kind_ok :: "lattice_target_spec \<Rightarrow> bool" where
  "kind_ok spec \<longleftrightarrow> ts_target_kind_applicable spec = (\<not> kindless spec) \<and> (ts_kind spec = Not_Applicable) = kindless spec"

text \<open>All of the source, or a split, or a range of anchors that is not empty\<close>

definition source_ok :: "lattice_target_spec \<Rightarrow> bool" where
  "source_ok spec \<longleftrightarrow>
     (case (ts_anchor_index_begin spec, ts_anchor_index_end spec) of
        (None, None) \<Rightarrow> lowered_source_range spec = (if ts_train_split spec = [] then ''all'' else ''anchor_index'')
      | (Some b, Some e) \<Rightarrow> lowered_source_range spec = ''anchor_index'' \<and> ts_train_split spec = [] \<and> b < e
      | _ \<Rightarrow> False)"

text \<open>What is forbidden is a split or a range, and it says which uses it forbids.\<close>

definition forbid_ok :: "lattice_target_spec \<Rightarrow> bool" where
  "forbid_ok spec \<longleftrightarrow>
     (case (ts_forbid_anchor_index_begin spec, ts_forbid_anchor_index_end spec) of
        (None, None) \<Rightarrow> if ts_forbid_split spec = [] then ts_forbid_exposure_uses spec = []
          else ts_forbid_exposure_uses spec \<noteq> [] \<or> ts_forbid_uses_from_split_policy spec
      | (Some b, Some e) \<Rightarrow> ts_forbid_split spec = [] \<and> b < e \<and>
          (ts_forbid_exposure_uses spec \<noteq> [] \<or> ts_forbid_uses_from_split_policy spec)
      | _ \<Rightarrow> False)"

text \<open>Waves\<close>

definition waves_ok :: "lattice_target_spec \<Rightarrow> bool" where
  "waves_ok spec \<longleftrightarrow> 0 \<le> ts_max_waves spec \<and> (non_dispatch spec \<longrightarrow> ts_max_waves spec = 0) \<and>
     (handoff spec \<longrightarrow> 0 < ts_max_waves spec)"

text \<open>Where checkpoints come from\<close>

definition checkpoint_ok :: "lattice_target_spec \<Rightarrow> bool" where
  "checkpoint_ok spec \<longleftrightarrow>
     (let source = lowercase (trim (ts_checkpoint_source spec)) in
      if kindless spec then source = ''none'' \<and> \<not> declares_checkpoint_inputs spec
      else source = ''output_checkpoint'' \<or> starts_latest source)"

text \<open>The thresholds of an oracle gate are set at its own class only.\<close>

definition oracle_ok :: "lattice_target_spec \<Rightarrow> bool" where
  "oracle_ok spec \<longleftrightarrow>
     list_all (\<lambda>v. is_finite v = forecast_gate spec) (forecast_thresholds (ts_oracle spec)) \<and>
     list_all (\<lambda>v. is_finite v = edge_return_gate spec) (edge_return_thresholds (ts_oracle spec))"

definition target_ok :: "lattice_target_spec \<Rightarrow> bool" where
  "target_ok spec \<longleftrightarrow> kind_ok spec \<and> source_ok spec \<and> forbid_ok spec \<and> thresholds_ok spec \<and> waves_ok spec \<and>
     checkpoint_ok spec \<and> oracle_ok spec \<and> (requires_exposure spec \<longrightarrow> lowered_source_range spec = ''anchor_index'')"

abbreviation passes :: "check list \<Rightarrow> bool" where
  "passes cs \<equiv> list_all (\<lambda>(bad, _). \<not> bad) cs"

lemma kindless_cases:
  "kindless spec \<longleftrightarrow> non_dispatch spec \<or> handoff spec"
  by (auto simp: kindless_def is_kindless_lattice_target_class_def non_dispatch_def handoff_def forecast_gate_def
      edge_return_gate_def)

lemma classes_exclusive:
  "\<not> (forecast_gate spec \<and> edge_return_gate spec)" "\<not> (handoff spec \<and> non_dispatch spec)"
  "\<not> (is_artifact_readiness_target_class (ts_target_class spec) \<and> (forecast_gate spec \<or> edge_return_gate spec))"
  by (auto simp: non_dispatch_def handoff_def forecast_gate_def edge_return_gate_def
      is_artifact_readiness_target_class_def is_policy_execution_input_handoff_target_class_def
      is_synthetic_forecast_oracle_gate_target_class_def is_synthetic_edge_return_projection_oracle_gate_target_class_def)

lemma validate_class_shape_ok:
  assumes "validate_class_shape spec = Inr u"
  shows "kind_ok spec \<and> (non_dispatch spec \<longrightarrow> ts_max_waves spec = 0) \<and> (handoff spec \<longrightarrow> 0 < ts_max_waves spec)"
  using assms kindless_cases [of spec] classes_exclusive [of spec]
  by (auto simp: validate_class_shape_def kind_ok_def no_kind_checks_def no_wave_checks_def oracle_gate_checks_def
      res_simps Let_def non_dispatch_def split: if_splits)

lemma lowered_range_source_ok: "passes (lowered_range_checks spec) \<Longrightarrow> source_ok spec"
  by (auto simp: lowered_range_checks_def source_range_check_def anchor_range_checks_def split_or_anchors_check_def
      source_ok_def range_order_check_def Let_def split: option.splits)

lemma lowered_forbid_ok: "passes (lowered_forbid_checks spec) \<Longrightarrow> forbid_ok spec"
  by (auto simp: lowered_forbid_checks_def forbid_ok_def range_order_check_def Let_def split: option.splits)

lemma checkpoint_checks_ok:
  "passes (checkpoint_source_checks spec) \<Longrightarrow> passes (checkpoint_input_checks spec) \<Longrightarrow> checkpoint_ok spec"
  using kindless_cases [of spec]
  by (auto simp: checkpoint_source_checks_def checkpoint_input_checks_def checkpoint_ok_def Let_def split: if_splits)

lemma fraction_finite: "is_fraction v \<Longrightarrow> is_finite v"
  by (cases v) (auto simp: is_fraction_def)

lemma oracle_checks_ok: "passes (oracle_checks spec) \<Longrightarrow> oracle_ok spec"
  using classes_exclusive(1) [of spec]
  by (auto simp: oracle_checks_def forecast_gate_thresholds_def edge_return_gate_thresholds_def oracle_ok_def
      oracle_maximum_def forecast_thresholds_def edge_return_thresholds_def finite_dimension_def
      fraction_dimension_ok fraction_finite Let_def split: if_splits)

lemma lowered_target_ok:
  assumes "validate_lattice_target_spec_lowered spec = Inr u"
  shows "target_ok spec"
proof -
  have shape: "validate_class_shape spec = Inr ()" and p: "passes (lowered_checks spec)"
    using assms by (auto simp: validate_lattice_target_spec_lowered_def res_simps)
  have t: "thresholds_ok spec \<and> 0 \<le> ts_max_waves spec"
    using p by (intro thresholds_ok_checks) (simp_all add: lowered_checks_def)
  have "kind_ok spec" "waves_ok spec"
    using validate_class_shape_ok [OF shape] t by (auto simp: waves_ok_def)
  moreover have "source_ok spec" "forbid_ok spec" "oracle_ok spec"
    using p by (simp_all add: lowered_checks_def lowered_range_source_ok lowered_forbid_ok oracle_checks_ok)
  moreover have "checkpoint_ok spec"
    using p by (intro checkpoint_checks_ok) (simp_all add: lowered_checks_def)
  moreover have "requires_exposure spec \<longrightarrow> lowered_source_range spec = ''anchor_index''"
    using p by (auto simp: lowered_checks_def exposure_range_check_def)
  ultimately show ?thesis using t by (simp add: target_ok_def)
qed

end
