(* ===== verification/Target_Authoring.thy ===== *)
theory Target_Authoring
  imports Target_Vocabulary
begin

text \<open>
  Shorthands of the target language in \<open>lattice_target.h\<close> that are expanded before anything is compiled: profiles
  merged into targets, sets of requirements and of warnings, and families of targets.

  A block is a hash map: where the code throws on the first key of its iteration, the order of iteration is
  the argument \<open>key_order\<close>.
\<close>

section \<open>Profiles\<close>

definition merge_profile_into_target_block :: "(string \<rightharpoonup> kv_block) \<Rightarrow> kv_block \<Rightarrow> kv_block result" where
  "merge_profile_into_target_block profiles block =
     (let profile_id = kv_optional block ''USE_PROFILE'' [] in
      if profile_id = [] then Inr block
      else case profiles profile_id of
        None \<Rightarrow> throw_target (''unknown USE_PROFILE '' @ profile_id @ '' for target '' @ kv_optional block ''TARGET_ID'' ''<none>'')
      | Some p \<Rightarrow> Inr \<lparr>kv_name = ''LATTICE_TARGET'',
          kv_values = (kv_values p)(''PROFILE_ID'' := None) ++ kv_values block\<rparr>)"

section \<open>Sets of requirements and warnings\<close>

text \<open>The values of a block but for some keys\<close>

definition without_keys :: "string list \<Rightarrow> (string \<rightharpoonup> string) \<Rightarrow> (string \<rightharpoonup> string)" where
  "without_keys keys m = (\<lambda>k. if k \<in> set keys then None else m k)"

definition expand_lattice_requires_set_block :: "kv_block \<Rightarrow> kv_block list result" where
  "expand_lattice_requires_set_block block =
     rbind (kv_required block ''TARGET_IDS'') (\<lambda>raw_targets.
     rbind (kv_required block ''REQUIREMENT_IDS'') (\<lambda>raw_requirements.
     let targets = parse_list raw_targets; requirements = parse_list raw_requirements in
     rbind (run_checks
       [(targets = [], ''LATTICE_REQUIRES_SET TARGET_IDS cannot be empty''),
        (length targets \<noteq> length requirements, ''LATTICE_REQUIRES_SET TARGET_IDS and REQUIREMENT_IDS counts must match''),
        (kv_values block ''TARGET_ID'' \<noteq> None \<or> kv_values block ''REQUIREMENT_ID'' \<noteq> None,
          ''LATTICE_REQUIRES_SET uses TARGET_IDS and REQUIREMENT_IDS; do not author singular TARGET_ID or REQUIREMENT_ID'')]) (\<lambda>_.
     Inr (map (\<lambda>(t, r). \<lparr>kv_name = ''LATTICE_REQUIRES'',
         kv_values = (without_keys [''TARGET_IDS'', ''REQUIREMENT_IDS''] (kv_values block))
           (''TARGET_ID'' \<mapsto> t, ''REQUIREMENT_ID'' \<mapsto> r)\<rparr>)
       (zip targets requirements)))))"

definition expand_lattice_warn_set_block :: "kv_block \<Rightarrow> kv_block list result" where
  "expand_lattice_warn_set_block block =
     rbind (kv_required block ''WARNING_IDS'') (\<lambda>raw_ids.
     rbind (kv_required block ''METRICS'') (\<lambda>raw_metrics.
     let ids = parse_list raw_ids; metrics = parse_list raw_metrics;
       above = kv_optional block ''ABOVE_VALUES'' []; below = kv_optional block ''BELOW_VALUES'' [];
       has_above = (trim above \<noteq> []); has_below = (trim below \<noteq> []);
       thresholds = parse_list (if has_above then above else below) in
     rbind (run_checks
       [(ids = [], ''LATTICE_WARN_SET WARNING_IDS cannot be empty''),
        (length ids \<noteq> length metrics, ''LATTICE_WARN_SET WARNING_IDS and METRICS counts must match''),
        (list_ex (\<lambda>k. kv_values block k \<noteq> None) [''WARNING_ID'', ''METRIC'', ''ABOVE'', ''BELOW''],
          ''LATTICE_WARN_SET uses WARNING_IDS, METRICS, and *_VALUES threshold lists; do not author singular warning row keys''),
        (has_above = has_below, ''LATTICE_WARN_SET requires exactly one of ABOVE_VALUES or BELOW_VALUES''),
        (length ids \<noteq> length thresholds, ''LATTICE_WARN_SET warning and threshold counts must match'')]) (\<lambda>_.
     Inr (map (\<lambda>(w, m, t). \<lparr>kv_name = ''LATTICE_WARN'',
         kv_values = (without_keys [''WARNING_IDS'', ''METRICS'', ''ABOVE_VALUES'', ''BELOW_VALUES''] (kv_values block))
           (''WARNING_ID'' \<mapsto> w, ''METRIC'' \<mapsto> m, (if has_above then ''ABOVE'' else ''BELOW'') \<mapsto> t)\<rparr>)
       (zip ids (zip metrics thresholds))))))"

section \<open>Families of targets\<close>

text \<open>A target that a family generates: its id and its other values\<close>

type_synonym generated_target = "string \<times> clause_fields"

definition family_message :: "string \<Rightarrow> string \<Rightarrow> string" where
  "family_message family msg = ''LATTICE_TARGET_FAMILY '' @ family @ msg"

definition generated_block :: "generated_target \<Rightarrow> kv_block" where
  "generated_block t = \<lparr>kv_name = ''LATTICE_TARGET'', kv_values = (map_of (snd t))(''TARGET_ID'' \<mapsto> fst t)\<rparr>"

definition append_target :: "string \<Rightarrow> generated_target \<Rightarrow> generated_target list \<Rightarrow> generated_target list result" where
  "append_target family t out =
     (if fst t \<in> fst ` set out then throw_target (family_message family ('' generated duplicate TARGET_ID '' @ fst t))
      else Inr (out @ [t]))"

definition confirm_allowed_keys ::
  "((string \<rightharpoonup> string) \<Rightarrow> string list) \<Rightarrow> kv_block \<Rightarrow> string \<Rightarrow> string list \<Rightarrow> unit result"
where
  "confirm_allowed_keys key_order block family allowed =
     run_checks (map (\<lambda>k. (k \<notin> set allowed, family_message family ('' has unsupported key '' @ k))) (key_order (kv_values block)))"

text \<open>Items that are trimmed, not empty and not repeated\<close>

fun distinct_items :: "string \<Rightarrow> string \<Rightarrow> string list \<Rightarrow> string list \<Rightarrow> string list result" where
  "distinct_items empty_msg repeat_msg seen [] = Inr []"
| "distinct_items empty_msg repeat_msg seen (x # xs) =
     (if trim x = [] then throw_target empty_msg
      else if trim x \<in> set seen then throw_target (repeat_msg @ trim x)
      else rbind (distinct_items empty_msg repeat_msg (trim x # seen) xs) (\<lambda>ys. Inr (trim x # ys)))"

definition normalized_protocol_ids :: "kv_block \<Rightarrow> string \<Rightarrow> string list result" where
  "normalized_protocol_ids block family =
     rbind (kv_required block ''PROTOCOL_IDS'') (\<lambda>raw.
     rbind (run_checks [(parse_list raw = [], family_message family '' PROTOCOL_IDS cannot be empty'')]) (\<lambda>_.
     distinct_items (family_message family '' PROTOCOL_IDS contains an empty protocol id'')
       (family_message family '' repeats PROTOCOL_ID '') [] (parse_list raw)))"

definition non_empty_items :: "string \<Rightarrow> string list \<Rightarrow> string list result" where
  "non_empty_items msg xs = map_res (\<lambda>x. if trim x = [] then throw_target msg else Inr (trim x)) xs"

definition one_protocol :: "string \<Rightarrow> string \<Rightarrow> string list \<Rightarrow> string result" where
  "one_protocol family kind protocols =
     (case protocols of [p] \<Rightarrow> Inr p
      | _ \<Rightarrow> throw_target (family_message family ('' '' @ kind @ '' requires exactly one PROTOCOL_ID'')))"

definition train_core_family :: "kv_block \<Rightarrow> string \<Rightarrow> string list \<Rightarrow> generated_target list result" where
  "train_core_family block family protocols =
     rbind (kv_required block ''REPRESENTATION_PROFILE_IDS'') (\<lambda>raw_profiles.
     rbind (kv_required block ''MDN_PROFILE_ID'') (\<lambda>raw_mdn.
     rbind (kv_required block ''OVER_SPLIT'') (\<lambda>raw_split.
     let mdn = trim raw_mdn; split = trim raw_split in
     rbind (run_checks
       [(length protocols \<noteq> length (parse_list raw_profiles),
          family_message family '' PROTOCOL_IDS and REPRESENTATION_PROFILE_IDS counts must match''),
        (mdn = [], family_message family '' MDN_PROFILE_ID cannot be empty''),
        (split = [], family_message family '' OVER_SPLIT cannot be empty'')]) (\<lambda>_.
     rbind (non_empty_items (family_message family '' REPRESENTATION_PROFILE_IDS contains an empty profile id'')
       (parse_list raw_profiles)) (\<lambda>profiles.
     fold_res (append_target family)
       (map (\<lambda>(p, r). (p @ ''_representation_train_core_ready'',
            [(''USE_PROFILE'', r), (''PROTOCOL_ID'', p), (''OVER_SPLIT'', split)])) (zip protocols profiles) @
        map (\<lambda>p. (p @ ''_mdn_train_core_ready'', [(''USE_PROFILE'', mdn), (''PROTOCOL_ID'', p), (''OVER_SPLIT'', split)])) protocols)
       [])))))"

text \<open>The guard against the validation holdout selects the trained checkpoint, the one against the test holdout selects the first guard.\<close>

definition leakage_guard_pair :: "string \<Rightarrow> generated_target list" where
  "leakage_guard_pair p =
     [(p @ ''_mdn_train_core_no_validation_leakage'',
        [(''TARGET_KIND'', ''channel_mdn_ready''), (''LEAKAGE_GUARD_SCOPE'', ''channel_mdn_validation''), (''PROTOCOL_ID'', p),
         (''CHECKPOINT_SOURCE'', latest_satisfying_reference (p @ ''_mdn_train_core_ready''))]),
      (p @ ''_mdn_train_core_no_test_leakage'',
        [(''TARGET_KIND'', ''channel_mdn_ready''), (''LEAKAGE_GUARD_SCOPE'', ''channel_mdn_test''), (''PROTOCOL_ID'', p),
         (''CHECKPOINT_SOURCE'', latest_satisfying_reference (p @ ''_mdn_train_core_no_validation_leakage''))])]"

definition leakage_guard_family :: "string \<Rightarrow> string list \<Rightarrow> generated_target list result" where
  "leakage_guard_family family protocols = fold_res (append_target family) (concat (map leakage_guard_pair protocols)) []"

definition target_id_for_split :: "string \<Rightarrow> string \<Rightarrow> string result" where
  "target_id_for_split family split =
     (if split = ''validation_holdout'' then Inr ''channel_mdn_validation_eval_ready''
      else if split = ''certified_replay_expansion_eval'' then Inr ''channel_mdn_certified_replay_expansion_eval_ready''
      else throw_target (family_message family ('' unsupported EVALUATION_SPLIT '' @ split)))"

definition evaluation_target :: "string \<Rightarrow> string \<Rightarrow> string \<Rightarrow> generated_target" where
  "evaluation_target p split tid =
     (let checkpoint = p @ ''_mdn_train_core_no_test_leakage'' in
      (tid, [(''TARGET_CLASS'', ''evaluation_readiness''), (''TARGET_KIND'', ''channel_mdn_ready''), (''PROTOCOL_ID'', p),
        (''OVER_SPLIT'', split), (''UPSTREAM_TARGET_ID'', checkpoint), (''REQUIRE_CHECKPOINT_EXISTS'', ''false''),
        (''MIN_VALID_TARGET_FRACTION'', ''0.05''), (''EVALUATED_CHECKPOINT_SOURCE'', latest_satisfying_reference checkpoint),
        (''WAVE_MODE'', ''run|debug''), (''PLAN_MAX_ATTEMPTS'', ''1'')]))"

fun evaluation_loop :: "string \<Rightarrow> string \<Rightarrow> string list \<Rightarrow> string list \<Rightarrow> generated_target list \<Rightarrow> generated_target list result" where
  "evaluation_loop family p seen [] out = Inr out"
| "evaluation_loop family p seen (raw # raws) out =
     (let split = trim raw in
      if split = [] then throw_target (family_message family '' EVALUATION_SPLITS contains an empty split'')
      else if split \<in> set seen then throw_target (family_message family ('' repeats EVALUATION_SPLIT '' @ split))
      else rbind (target_id_for_split family split) (\<lambda>tid.
        rbind (append_target family (evaluation_target p split tid) out) (\<lambda>out.
        evaluation_loop family p (split # seen) raws out)))"

definition evaluation_family :: "kv_block \<Rightarrow> string \<Rightarrow> string list \<Rightarrow> generated_target list result" where
  "evaluation_family block family protocols =
     rbind (one_protocol family ''protocol_channel_mdn_evaluation_readiness'' protocols) (\<lambda>p.
     rbind (kv_required block ''EVALUATION_SPLITS'') (\<lambda>raw.
     rbind (run_checks [(parse_list raw = [], family_message family '' EVALUATION_SPLITS cannot be empty'')]) (\<lambda>_.
     evaluation_loop family p [] (parse_list raw) [])))"

text \<open>The profile of each artifact target: one for all, or one each\<close>

definition artifact_profiles :: "kv_block \<Rightarrow> string \<Rightarrow> string list \<Rightarrow> string list result" where
  "artifact_profiles block family targets =
     (if kv_values block ''USE_PROFILE'' \<noteq> None then
        rbind (kv_required block ''USE_PROFILE'') (\<lambda>raw.
        rbind (run_checks [(trim raw = [], family_message family '' USE_PROFILE cannot be empty'')]) (\<lambda>_.
        Inr (replicate (length targets) (trim raw))))
      else
        rbind (kv_required block ''USE_PROFILE_IDS'') (\<lambda>raw.
        rbind (run_checks [(length (parse_list raw) \<noteq> length targets,
          family_message family '' USE_PROFILE_IDS and TARGET_IDS counts must match'')]) (\<lambda>_.
        non_empty_items (family_message family '' USE_PROFILE_IDS contains an empty profile id'') (parse_list raw))))"

definition append_artifact_target ::
  "string \<Rightarrow> string \<Rightarrow> string \<times> string \<times> string \<Rightarrow> generated_target list \<Rightarrow> generated_target list result"
where
  "append_artifact_target family p row out =
     (case row of (raw_target, raw_subject, profile) \<Rightarrow>
       rbind (run_checks
         [(trim raw_target = [], family_message family '' TARGET_IDS contains an empty target id''),
          (trim raw_subject = [], family_message family '' SUBJECT_FACT_FAMILIES contains an empty fact family'')]) (\<lambda>_.
       append_target family (trim raw_target,
         [(''USE_PROFILE'', profile), (''PROTOCOL_ID'', p), (''SUBJECT_FACT_FAMILY'', trim raw_subject)]) out))"

definition artifact_family :: "kv_block \<Rightarrow> string \<Rightarrow> string list \<Rightarrow> generated_target list result" where
  "artifact_family block family protocols =
     rbind (one_protocol family ''profile_artifact_readiness_targets'' protocols) (\<lambda>p.
     rbind (run_checks [((kv_values block ''USE_PROFILE'' \<noteq> None) = (kv_values block ''USE_PROFILE_IDS'' \<noteq> None),
       family_message family '' profile_artifact_readiness_targets requires exactly one of USE_PROFILE or USE_PROFILE_IDS'')]) (\<lambda>_.
     rbind (kv_required block ''TARGET_IDS'') (\<lambda>raw_targets.
     rbind (kv_required block ''SUBJECT_FACT_FAMILIES'') (\<lambda>raw_subjects.
     let targets = parse_list raw_targets; subjects = parse_list raw_subjects in
     rbind (run_checks [(targets = [], family_message family '' TARGET_IDS cannot be empty'')]) (\<lambda>_.
     rbind (artifact_profiles block family targets) (\<lambda>profiles.
     rbind (run_checks [(length targets \<noteq> length subjects,
       family_message family '' TARGET_IDS and SUBJECT_FACT_FAMILIES counts must match'')]) (\<lambda>_.
     fold_res (append_artifact_target family p) (zip targets (zip subjects profiles)) [])))))))"

definition family_targets ::
  "((string \<rightharpoonup> string) \<Rightarrow> string list) \<Rightarrow> kv_block \<Rightarrow> string \<Rightarrow> string \<Rightarrow> string list \<Rightarrow> generated_target list result"
where
  "family_targets key_order block family kind protocols =
     (let common = [''FAMILY_ID'', ''FAMILY_KIND'', ''PROTOCOL_IDS''] in
      if kind = ''protocol_train_core_readiness'' then
        rbind (confirm_allowed_keys key_order block family
          (common @ [''REPRESENTATION_PROFILE_IDS'', ''MDN_PROFILE_ID'', ''OVER_SPLIT''])) (\<lambda>_.
        train_core_family block family protocols)
      else if kind = ''protocol_channel_mdn_leakage_guard_chain'' then
        rbind (confirm_allowed_keys key_order block family common) (\<lambda>_. leakage_guard_family family protocols)
      else if kind = ''protocol_channel_mdn_evaluation_readiness'' then
        rbind (confirm_allowed_keys key_order block family (common @ [''EVALUATION_SPLITS''])) (\<lambda>_.
        evaluation_family block family protocols)
      else if kind = ''profile_artifact_readiness_targets'' then
        rbind (confirm_allowed_keys key_order block family
          (common @ [''USE_PROFILE'', ''USE_PROFILE_IDS'', ''TARGET_IDS'', ''SUBJECT_FACT_FAMILIES''])) (\<lambda>_.
        artifact_family block family protocols)
      else throw_target (''unsupported LATTICE_TARGET_FAMILY FAMILY_KIND='' @ kind @ '' for '' @ family))"

definition expand_lattice_target_family_block ::
  "((string \<rightharpoonup> string) \<Rightarrow> string list) \<Rightarrow> kv_block \<Rightarrow> kv_block list result"
where
  "expand_lattice_target_family_block key_order block =
     rbind (kv_required block ''FAMILY_ID'') (\<lambda>family.
     rbind (kv_required block ''FAMILY_KIND'') (\<lambda>raw_kind.
     rbind (normalized_protocol_ids block family) (\<lambda>protocols.
     rbind (family_targets key_order block family (lowercase raw_kind) protocols) (\<lambda>targets.
     Inr (map generated_block targets)))))"

text \<open>Families are expanded in place; other blocks stay.\<close>

definition expand_authoring_block :: "((string \<rightharpoonup> string) \<Rightarrow> string list) \<Rightarrow> kv_block \<Rightarrow> kv_block list result" where
  "expand_authoring_block key_order block =
     (if kv_name block = ''LATTICE_TARGET_FAMILY'' then expand_lattice_target_family_block key_order block else Inr [block])"

definition expand_lattice_target_authoring_blocks ::
  "((string \<rightharpoonup> string) \<Rightarrow> string list) \<Rightarrow> kv_block list \<Rightarrow> kv_block list result"
where
  "expand_lattice_target_authoring_blocks key_order blocks =
     rbind (map_res (expand_authoring_block key_order) blocks) (\<lambda>bss. Inr (concat bss))"

section \<open>Generated targets\<close>

text \<open>The ids that a family has generated so far are distinct.\<close>

lemma append_target_distinct:
  "append_target family t out = Inr out' \<Longrightarrow> distinct (map fst out) \<Longrightarrow> distinct (map fst out')"
  by (auto simp: append_target_def split: if_splits)

lemma evaluation_loop_distinct:
  "evaluation_loop family p seen raws out = Inr out' \<Longrightarrow> distinct (map fst out) \<Longrightarrow> distinct (map fst out')"
  by (induction family p seen raws out rule: evaluation_loop.induct)
    (auto simp: Let_def res_simps dest: append_target_distinct split: if_splits)

lemma family_targets_distinct:
  assumes "family_targets key_order block family kind protocols = Inr ts"
  shows "distinct (map fst ts)"
proof -
  have app: "distinct (map fst out')" if "fold_res (append_target family) xs [] = Inr out'" for xs out'
    using that by (rule fold_res_invariant [where P = "\<lambda>ts. distinct (map fst ts)"]) (auto dest: append_target_distinct)
  have art: "distinct (map fst out')" if "fold_res (append_artifact_target family p) xs [] = Inr out'" for p xs out'
    using that by (rule fold_res_invariant [where P = "\<lambda>ts. distinct (map fst ts)"])
      (auto simp: append_artifact_target_def res_simps dest: append_target_distinct split: prod.splits)
  show ?thesis
    using assms by (auto simp: family_targets_def train_core_family_def leakage_guard_family_def evaluation_family_def
        artifact_family_def res_simps Let_def dest: app art evaluation_loop_distinct split: if_splits)
qed

end
