(* ===== verification/Target_Graph.thy ===== *)
theory Target_Graph
  imports Target_Vocabulary
begin

text \<open>
  The graph of targets in \<open>lattice_target.h\<close>: from which representation target a plan takes its checkpoint,
  and how what the graph gives is reconciled with what a plan says.

  The targets are a list; \<open>target_by_id\<close>, which the code fills with \<open>emplace\<close>, finds the first of an id.
\<close>

section \<open>The search\<close>

definition target_by_id :: "lattice_target_spec list \<Rightarrow> string \<Rightarrow> lattice_target_spec option" where
  "target_by_id specs tid = List.find (\<lambda>s. ts_target_id s = tid) specs"

text \<open>Where a target that is not a representation target gets its checkpoints from, in the order of the search\<close>

definition plan_sources :: "lattice_target_spec \<Rightarrow> string list" where
  "plan_sources spec = [ts_upstream_target_id spec, latest_satisfying_reference_target_id (ts_checkpoint_source spec),
     latest_satisfying_reference_target_id (ts_evaluated_checkpoint_source spec)]"

text \<open>
  The search over the ids in turn, with the set of visited ids: the reference it finds, or the empty string,
  and the ids that are visited then. An empty id is passed over, which is the test before each call of the code.
\<close>

function derive_first :: "lattice_target_spec list \<Rightarrow> string list \<Rightarrow> string list \<Rightarrow> string \<times> string list" where
  "derive_first specs visited [] = ([], visited)"
| "derive_first specs visited (x # xs) =
     (let t = trim x in
      if t = [] \<or> t \<in> set visited then derive_first specs visited xs
      else case target_by_id specs t of
        None \<Rightarrow> derive_first specs (t # visited) xs
      | Some spec \<Rightarrow>
          if lattice_target_kind_is_representation (ts_kind spec) then (latest_satisfying_reference t, t # visited)
          else case derive_first specs (t # visited) (plan_sources spec) of
            (r, visited') \<Rightarrow> if r \<noteq> [] then (r, visited') else derive_first specs visited' xs)"
  by pat_completeness auto

definition unvisited :: "lattice_target_spec list \<Rightarrow> string list \<Rightarrow> string set" where
  "unvisited specs visited = ts_target_id ` set specs - set visited"

lemma target_by_id_Some:
  "target_by_id specs t = Some spec \<Longrightarrow> spec \<in> set specs \<and> ts_target_id spec = t"
  by (auto simp: target_by_id_def find_Some_iff)

lemma unvisited_visit:
  assumes "target_by_id specs t = Some spec" "t \<notin> set visited" "set (t # visited) \<subseteq> set visited'"
  shows "unvisited specs visited' \<subset> unvisited specs visited"
  using assms(2,3) target_by_id_Some [OF assms(1)] by (auto simp: unvisited_def)

lemma card_unvisited_visit:
  assumes "target_by_id specs t = Some spec" "t \<notin> set visited" "set (t # visited) \<subseteq> set visited'"
  shows "card (unvisited specs visited') < card (unvisited specs visited)"
  by (rule psubset_card_mono [OF _ unvisited_visit [OF assms]]) (simp add: unvisited_def)

lemma card_unvisited_mono:
  "set visited \<subseteq> set visited' \<Longrightarrow> card (unvisited specs visited') \<le> card (unvisited specs visited)"
  by (rule card_mono) (auto simp: unvisited_def)

lemma derive_first_visited:
  "derive_first_dom (specs, visited, xs) \<Longrightarrow> set visited \<subseteq> set (snd (derive_first specs visited xs))"
  by (induction rule: derive_first.pinduct)
    (force simp: derive_first.psimps Let_def split: option.splits prod.splits)+

lemma unvisited_unknown: "target_by_id specs t = None \<Longrightarrow> unvisited specs (t # visited) = unvisited specs visited"
  by (auto simp: unvisited_def target_by_id_def find_None_iff)

termination derive_first
proof (relation "measures [\<lambda>(specs, visited, xs). card (unvisited specs visited), \<lambda>(specs, visited, xs). length xs]",
    goal_cases)
  case (5 specs visited x xs t spec r visited')
  then show ?case
    using derive_first_visited [of specs "t # visited" "plan_sources spec"]
      card_unvisited_visit [of specs t spec visited visited'] by (auto simp: prod_eq_iff)
qed (auto simp: unvisited_unknown card_unvisited_visit)

definition derive_representation_plan_input_from_target ::
  "string \<Rightarrow> lattice_target_spec list \<Rightarrow> string list \<Rightarrow> string \<times> string list"
where
  "derive_representation_plan_input_from_target tid specs visited = derive_first specs visited [tid]"

definition derive_representation_plan_input :: "lattice_target_spec \<Rightarrow> lattice_target_spec list \<Rightarrow> string" where
  "derive_representation_plan_input spec specs =
     (if ts_kind spec \<noteq> Channel_Mdn_Ready then []
      else fst (derive_first specs [] [ts_upstream_target_id spec,
        latest_satisfying_reference_target_id (ts_evaluated_checkpoint_source spec),
        latest_satisfying_reference_target_id (ts_checkpoint_source spec)]))"

section \<open>What is reachable\<close>

text \<open>Names, trimmed and not empty\<close>

definition names :: "string list \<Rightarrow> string set" where
  "names xs = {trim x | x. x \<in> set xs \<and> trim x \<noteq> []}"

text \<open>A target that is not a representation target leads to the targets it gets its checkpoints from.\<close>

inductive leads_to :: "lattice_target_spec list \<Rightarrow> string \<Rightarrow> string \<Rightarrow> bool" for specs where
  start: "leads_to specs t t"
| step: "leads_to specs t u \<Longrightarrow> target_by_id specs u = Some spec \<Longrightarrow>
    \<not> lattice_target_kind_is_representation (ts_kind spec) \<Longrightarrow> v \<in> names (plan_sources spec) \<Longrightarrow> leads_to specs t v"

definition is_representation_target :: "lattice_target_spec list \<Rightarrow> string \<Rightarrow> bool" where
  "is_representation_target specs t \<longleftrightarrow>
     (\<exists>spec. target_by_id specs t = Some spec \<and> lattice_target_kind_is_representation (ts_kind spec))"

lemma leads_to_first:
  assumes "leads_to specs v w" "target_by_id specs u = Some spec"
    "\<not> lattice_target_kind_is_representation (ts_kind spec)" "v \<in> names (plan_sources spec)"
  shows "leads_to specs u w"
  using assms by (induction rule: leads_to.induct) (auto intro: leads_to.intros)

lemma names_Cons: "names (x # xs) = (if trim x = [] then names xs else insert (trim x) (names xs))"
  by (auto simp: names_def)

lemma names_Nil [simp]: "names [] = {}"
  by (simp add: names_def)

lemma derive_first_sound:
  "derive_first specs visited xs = (r, v) \<Longrightarrow> r \<noteq> [] \<Longrightarrow>
   \<exists>x t. x \<in> names xs \<and> leads_to specs x t \<and> is_representation_target specs t \<and> r = latest_satisfying_reference t"
proof (induction specs visited xs arbitrary: r v rule: derive_first.induct)
  case (2 specs visited x xs)
  let ?t = "trim x"
  show ?case
  proof (cases "?t = [] \<or> ?t \<in> set visited")
    case True
    then have "derive_first specs visited xs = (r, v)" using "2.prems"(1) by (auto simp: Let_def)
    from "2.IH"(1) [OF refl True this "2.prems"(2)] show ?thesis by (auto simp: names_Cons)
  next
    case new: False
    show ?thesis
    proof (cases "target_by_id specs ?t")
      case None
      then have "derive_first specs (?t # visited) xs = (r, v)" using "2.prems"(1) new by (simp add: Let_def)
      from "2.IH"(2) [OF refl new None this "2.prems"(2)] show ?thesis by (auto simp: names_Cons)
    next
      case (Some spec)
      show ?thesis
      proof (cases "lattice_target_kind_is_representation (ts_kind spec)")
        case True
        then have "r = latest_satisfying_reference ?t" "is_representation_target specs ?t"
          using "2.prems"(1) new Some by (auto simp: Let_def is_representation_target_def)
        then show ?thesis using new by (auto simp: names_Cons intro: leads_to.start)
      next
        case False
        obtain r' v' where d: "derive_first specs (?t # visited) (plan_sources spec) = (r', v')" by force
        show ?thesis
        proof (cases "r' = []")
          case True
          then have nr: "\<not> r' \<noteq> []" and "derive_first specs v' xs = (r, v)"
            using "2.prems"(1) new Some False d by (simp_all add: Let_def)
          from "2.IH"(4) [OF refl new Some False d [symmetric] nr this(2) "2.prems"(2)]
          show ?thesis by (auto simp: names_Cons)
        next
          case ne: False
          then have "r = r'" using "2.prems"(1) new Some False d by (simp add: Let_def)
          with "2.IH"(3) [OF refl new Some False d ne] leads_to_first [OF _ Some False]
          show ?thesis using new by (auto simp: names_Cons)
        qed
      qed
    qed
  qed
qed simp

text \<open>An id that is visited while nothing is found is no representation target, and all it leads to is visited.\<close>

definition explored :: "lattice_target_spec list \<Rightarrow> string set \<Rightarrow> string set \<Rightarrow> bool" where
  "explored specs T V \<longleftrightarrow> (\<forall>t \<in> T. \<not> is_representation_target specs t \<and>
     (\<forall>spec. target_by_id specs t = Some spec \<longrightarrow> names (plan_sources spec) \<subseteq> V))"

lemma explored_mono: "explored specs T V \<Longrightarrow> V \<subseteq> W \<Longrightarrow> explored specs T W"
  by (fastforce simp: explored_def)

lemma explored_subset: "explored specs T V \<Longrightarrow> S \<subseteq> T \<Longrightarrow> explored specs S V"
  by (auto simp: explored_def)

lemma explored_Un: "explored specs (S \<union> T) V = (explored specs S V \<and> explored specs T V)"
  by (auto simp: explored_def)

lemma derive_first_none:
  "derive_first specs visited xs = ([], v) \<Longrightarrow>
   set visited \<subseteq> set v \<and> names xs \<subseteq> set v \<and> explored specs (set v - set visited) (set v)"
proof (induction specs visited xs arbitrary: v rule: derive_first.induct)
  case (1 specs visited)
  then show ?case by (simp add: explored_def)
next
  case (2 specs visited x xs)
  let ?t = "trim x"
  show ?case
  proof (cases "?t = [] \<or> ?t \<in> set visited")
    case True
    then have "derive_first specs visited xs = ([], v)" using "2.prems" by (auto simp: Let_def)
    from "2.IH"(1) [OF refl True this] True show ?thesis by (auto simp: names_Cons)
  next
    case new: False
    show ?thesis
    proof (cases "target_by_id specs ?t")
      case None
      then have "derive_first specs (?t # visited) xs = ([], v)" using "2.prems" new by (simp add: Let_def)
      from "2.IH"(2) [OF refl new None this] None
      have *: "set (?t # visited) \<subseteq> set v" "names xs \<subseteq> set v" "explored specs (set v - set (?t # visited)) (set v)" by auto
      have "set v - set visited \<subseteq> insert ?t (set v - set (?t # visited))" by auto
      moreover have "explored specs (insert ?t (set v - set (?t # visited))) (set v)"
        using *(3) None by (simp add: explored_def is_representation_target_def)
      ultimately have "explored specs (set v - set visited) (set v)" by (rule explored_subset [rotated])
      then show ?thesis using *(1,2) by (auto simp: names_Cons)
    next
      case (Some spec)
      have rep: "\<not> lattice_target_kind_is_representation (ts_kind spec)"
        using "2.prems" new Some by (auto simp: Let_def latest_satisfying_reference_def)
      obtain r' v' where d: "derive_first specs (?t # visited) (plan_sources spec) = (r', v')" by force
      have e: "r' = []" and d2: "derive_first specs v' xs = ([], v)"
        using "2.prems" new Some rep d by (auto simp: Let_def split: if_splits)
      from "2.IH"(3) [OF refl new Some rep] d e
      have in1: "set (?t # visited) \<subseteq> set v'" "names (plan_sources spec) \<subseteq> set v'"
        "explored specs (set v' - set (?t # visited)) (set v')" by auto
      have nr: "\<not> r' \<noteq> []" using e by simp
      from "2.IH"(4) [OF refl new Some rep d [symmetric] nr d2]
      have in2: "set v' \<subseteq> set v" "names xs \<subseteq> set v" "explored specs (set v - set v') (set v)" by auto
      have "explored specs {?t} (set v)"
        using Some rep in1(2) in2(1) by (auto simp: explored_def is_representation_target_def)
      moreover have "explored specs (set v' - set (?t # visited)) (set v)"
        using in1(3) in2(1) by (rule explored_mono)
      moreover have "set v - set visited \<subseteq> {?t} \<union> (set v' - set (?t # visited)) \<union> (set v - set v')"
        by auto
      ultimately have "explored specs (set v - set visited) (set v)"
        using in2(3) explored_subset by (metis explored_Un)
      then show ?thesis using in1(1) in2(1,2) by (auto simp: names_Cons)
    qed
  qed
qed

lemma derive_first_complete:
  assumes "derive_first specs [] xs = ([], v)" "x \<in> names xs" "leads_to specs x t"
  shows "\<not> is_representation_target specs t"
proof -
  have e: "names xs \<subseteq> set v" "explored specs (set v) (set v)" using derive_first_none [OF assms(1)] by auto
  from assms(3,2) have "t \<in> set v"
  proof (induction rule: leads_to.induct)
    case (start t)
    then show ?case using e(1) by blast
  next
    case (step t u spec v')
    then show ?case using e(2) unfolding explored_def by blast
  qed
  then show ?thesis using e(2) by (auto simp: explored_def)
qed

definition plan_roots :: "lattice_target_spec \<Rightarrow> string set" where
  "plan_roots spec = names (plan_sources spec)"

text \<open>
  C8: The search for the representation checkpoint of an MDN target always ends, also when targets depend on each
  other in a cycle. It finds a reference exactly when the target leads to a representation target, and what it
  finds refers to one.
\<close>

theorem representation_plan_input_exact:
  "(derive_representation_plan_input spec specs \<noteq> []) =
     (ts_kind spec = Channel_Mdn_Ready \<and>
      (\<exists>x t. x \<in> plan_roots spec \<and> leads_to specs x t \<and> is_representation_target specs t)) \<and>
   (derive_representation_plan_input spec specs = [] \<or>
      (\<exists>x t. x \<in> plan_roots spec \<and> leads_to specs x t \<and> is_representation_target specs t \<and>
         derive_representation_plan_input spec specs = latest_satisfying_reference t))"
proof -
  let ?xs = "[ts_upstream_target_id spec, latest_satisfying_reference_target_id (ts_evaluated_checkpoint_source spec),
        latest_satisfying_reference_target_id (ts_checkpoint_source spec)]"
  have roots: "names ?xs = plan_roots spec" by (auto simp: plan_roots_def plan_sources_def names_Cons)
  obtain r v where d: "derive_first specs [] ?xs = (r, v)" by force
  show ?thesis
  proof (cases "ts_kind spec = Channel_Mdn_Ready")
    case True
    then have "derive_representation_plan_input spec specs = r" using d by (simp add: derive_representation_plan_input_def)
    moreover have "r = [] \<Longrightarrow> x \<in> plan_roots spec \<Longrightarrow> leads_to specs x t \<Longrightarrow> \<not> is_representation_target specs t" for x t
      using derive_first_complete [of specs ?xs v x t] d roots by simp
    ultimately show ?thesis
      using derive_first_sound [OF d] roots True by blast
  qed (simp add: derive_representation_plan_input_def)
qed

section \<open>Plans\<close>

definition lattice_plan_clause_field_value :: "plan_clause \<Rightarrow> string \<Rightarrow> string" where
  "lattice_plan_clause_field_value plan key =
     (case List.find (\<lambda>f. fst f = key) (pc_fields plan) of None \<Rightarrow> [] | Some f \<Rightarrow> snd f)"

definition lattice_plan_has_authored_field :: "lattice_target_compiled \<Rightarrow> string \<Rightarrow> bool" where
  "lattice_plan_has_authored_field target key =
     list_ex (\<lambda>plan. lattice_plan_clause_field_value plan key \<noteq> []) (lc_plans target)"

definition lattice_plan_override_reason :: "lattice_target_compiled \<Rightarrow> string" where
  "lattice_plan_override_reason target =
     (case List.find (\<lambda>r. trim r \<noteq> [])
        (map (\<lambda>plan. lattice_plan_clause_field_value plan ''PLAN_INPUT_OVERRIDE_REASON'') (lc_plans target)) of
        None \<Rightarrow> [] | Some r \<Rightarrow> r)"

text \<open>The value of a field of the plan, given what the graph derives for it\<close>

definition assign_or_confirm_lattice_derived_plan_input ::
  "lattice_target_compiled \<Rightarrow> string \<Rightarrow> string \<Rightarrow> string \<Rightarrow> string result"
where
  "assign_or_confirm_lattice_derived_plan_input target field name derived =
     (if derived = [] then Inr field
      else let current = trim field in
        if current = [] \<or> current = derived then Inr derived
        else if lattice_plan_has_authored_field target name \<and> lattice_plan_override_reason target \<noteq> [] then Inr field
        else throw_target (ts_target_id (lc_lowered_v0 target) @ '' '' @ name @ ''='' @ current @
          '' but target dependency/source selectors derive '' @ derived @
          ''; add PLAN_INPUT_OVERRIDE_REASON to keep an intentional override''))"

definition derive_plan_inputs :: "lattice_target_spec list \<Rightarrow> lattice_target_compiled \<Rightarrow> lattice_target_compiled result" where
  "derive_plan_inputs specs target =
     (let spec = lc_lowered_v0 target in
      if lc_plans target = [] then Inr target
      else
        rbind (assign_or_confirm_lattice_derived_plan_input target (ts_plan_input_mdn_checkpoint spec)
          ''PLAN_INPUT_MDN_CHECKPOINT'' (ts_evaluated_checkpoint_source spec)) (\<lambda>mdn.
        rbind (assign_or_confirm_lattice_derived_plan_input target (ts_plan_input_representation_checkpoint spec)
          ''PLAN_INPUT_REPRESENTATION_CHECKPOINT'' (derive_representation_plan_input spec specs)) (\<lambda>rep.
        Inr (target\<lparr>lc_lowered_v0 := spec\<lparr>ts_plan_input_mdn_checkpoint := mdn,
          ts_plan_input_representation_checkpoint := rep\<rparr>\<rparr>))))"

definition derive_lattice_plan_inputs_from_target_graph ::
  "lattice_target_spec list \<Rightarrow> lattice_target_compiled list \<Rightarrow> lattice_target_compiled list result"
where
  "derive_lattice_plan_inputs_from_target_graph specs targets = map_res (derive_plan_inputs specs) targets"

text \<open>An input agrees with the graph, or a plan gives it and says why.\<close>

definition plan_input_agrees :: "lattice_target_compiled \<Rightarrow> string \<Rightarrow> string \<Rightarrow> string \<Rightarrow> bool" where
  "plan_input_agrees target name derived field \<longleftrightarrow> derived = [] \<or> field = derived \<or>
     (lattice_plan_has_authored_field target name \<and> trim (lattice_plan_override_reason target) \<noteq> [])"

lemma override_reason_trim: "lattice_plan_override_reason target \<noteq> [] \<Longrightarrow> trim (lattice_plan_override_reason target) \<noteq> []"
  by (auto simp: lattice_plan_override_reason_def find_Some_iff split: option.splits)

lemma assign_or_confirm_agrees:
  "assign_or_confirm_lattice_derived_plan_input target field name derived = Inr v \<Longrightarrow> plan_input_agrees target name derived v"
  using override_reason_trim [of target]
  by (auto simp: assign_or_confirm_lattice_derived_plan_input_def plan_input_agrees_def Let_def split: if_splits)

text \<open>
  C28: When the plan inputs of a target with plans are derived, its representation checkpoint is the one that the
  graph of targets gives, and its MDN checkpoint is the evaluated one, unless a plan of the target gives the input
  itself together with a reason. Nothing else of the target changes.
\<close>

theorem derived_plan_inputs_agree:
  assumes "derive_plan_inputs specs target = Inr t" "lc_plans target \<noteq> []"
  shows "plan_input_agrees target ''PLAN_INPUT_REPRESENTATION_CHECKPOINT''
      (derive_representation_plan_input (lc_lowered_v0 target) specs) (ts_plan_input_representation_checkpoint (lc_lowered_v0 t)) \<and>
    plan_input_agrees target ''PLAN_INPUT_MDN_CHECKPOINT''
      (ts_evaluated_checkpoint_source (lc_lowered_v0 target)) (ts_plan_input_mdn_checkpoint (lc_lowered_v0 t)) \<and>
    t = target\<lparr>lc_lowered_v0 := (lc_lowered_v0 target)
      \<lparr>ts_plan_input_mdn_checkpoint := ts_plan_input_mdn_checkpoint (lc_lowered_v0 t),
       ts_plan_input_representation_checkpoint := ts_plan_input_representation_checkpoint (lc_lowered_v0 t)\<rparr>\<rparr>"
  using assms by (auto simp: derive_plan_inputs_def res_simps Let_def dest!: assign_or_confirm_agrees)

text \<open>Two targets that get their checkpoints from each other, and one that is a representation target\<close>

definition example_graph :: "lattice_target_spec list" where
  "example_graph =
     [default_target_spec\<lparr>ts_target_id := ''a'', ts_kind := Channel_Mdn_Ready, ts_upstream_target_id := ''b''\<rparr>,
      default_target_spec\<lparr>ts_target_id := ''b'', ts_kind := Channel_Mdn_Ready, ts_upstream_target_id := ''a'',
        ts_checkpoint_source := ''latest_satisfying:c''\<rparr>,
      default_target_spec\<lparr>ts_target_id := ''c'', ts_kind := Vicreg_Ready\<rparr>]"

definition example_planned :: lattice_target_compiled where
  "example_planned = \<lparr>lc_lowered_v0 = hd example_graph, lc_dependencies = [], lc_requirements = [], lc_forbids = [],
     lc_plans = [\<lparr>pc_clause_id = ''plan:a:0'', pc_target_id = ''a'', pc_fields = []\<rparr>], lc_warning_clauses = [],
     lc_applied_profiles = [], lc_applied_guards = [], lc_warnings = [], lc_target_spec_fingerprint = []\<rparr>"

definition example_planned_after :: lattice_target_compiled where
  "example_planned_after = example_planned\<lparr>lc_lowered_v0 := (hd example_graph)
     \<lparr>ts_plan_input_representation_checkpoint := ''latest_satisfying:c''\<rparr>\<rparr>"

lemma example_graph_search: "derive_representation_plan_input (hd example_graph) example_graph = ''latest_satisfying:c''"
  by code_simp

lemma example_planned_derives: "derive_plan_inputs example_graph example_planned = Inr example_planned_after"
  by code_simp

theorem derived_plan_inputs_agree_witness:
  "plan_input_agrees example_planned ''PLAN_INPUT_REPRESENTATION_CHECKPOINT''
     (derive_representation_plan_input (lc_lowered_v0 example_planned) example_graph)
     (ts_plan_input_representation_checkpoint (lc_lowered_v0 example_planned_after))"
proof -
  have "lc_plans example_planned \<noteq> []" by (simp add: example_planned_def)
  with example_planned_derives show ?thesis
    using derived_plan_inputs_agree by blast
qed

end
