(* ===== verification/Target_Compile.thy ===== *)
theory Target_Compile
  imports Target_Text Target_Lowered Target_Authoring Target_Graph
begin

text \<open>
  \<open>decode_lattice_compiled_targets_from_dsl\<close> of \<open>lattice_target.h\<close>: the blocks of a text are sorted by their names,
  every target is merged with its profile, decoded, guarded and changed by its clauses, and the targets together
  are checked and get their plan inputs and fingerprints.

  The orders in which hash maps are iterated are arguments: \<open>key_order\<close> for the keys of a block, \<open>id_order\<close>
  for the ids that the clauses of one kind name.
\<close>

section \<open>Gathering\<close>

type_synonym target_clauses = "(string \<times> kv_block) list"

record gathered =
  ga_profiles :: "(string \<times> kv_block) list"
  ga_guards :: "(string \<times> lattice_guard_spec) list"
  ga_gates :: "policy_gate list"
  ga_depends :: target_clauses
  ga_requires :: target_clauses
  ga_forbids :: target_clauses
  ga_plans :: target_clauses
  ga_warnings :: target_clauses

definition nothing_gathered :: gathered where
  "nothing_gathered = \<lparr>ga_profiles = [], ga_guards = [], ga_gates = [], ga_depends = [], ga_requires = [], ga_forbids = [],
     ga_plans = [], ga_warnings = []\<rparr>"

definition append_target_clause :: "kv_block \<Rightarrow> target_clauses \<Rightarrow> target_clauses result" where
  "append_target_clause block clauses = rbind (kv_required block ''TARGET_ID'') (\<lambda>tid. Inr (clauses @ [(tid, block)]))"

definition gather_gate :: "(c_float \<Rightarrow> string) \<Rightarrow> kv_block \<Rightarrow> gathered \<Rightarrow> gathered result" where
  "gather_gate print_double block g =
     rbind (decode_lattice_policy_gate_spec_block print_double block) (\<lambda>gate.
     if pg_policy_id gate \<in> pg_policy_id ` set (ga_gates g) then throw_target (''duplicate POLICY_ID: '' @ pg_policy_id gate)
     else Inr (g\<lparr>ga_gates := ga_gates g @ [gate]\<rparr>))"

definition gather_profile :: "kv_block \<Rightarrow> gathered \<Rightarrow> gathered result" where
  "gather_profile block g =
     rbind (kv_required block ''PROFILE_ID'') (\<lambda>pid.
     if pid \<in> fst ` set (ga_profiles g) then throw_target (''duplicate PROFILE_ID: '' @ pid)
     else Inr (g\<lparr>ga_profiles := ga_profiles g @ [(pid, block)]\<rparr>))"

definition gather_guard :: "kv_block \<Rightarrow> gathered \<Rightarrow> gathered result" where
  "gather_guard block g =
     rbind (decode_lattice_guard_spec_block block) (\<lambda>guard.
     if lg_guard_id guard \<in> fst ` set (ga_guards g) then throw_target (''duplicate GUARD_ID: '' @ lg_guard_id guard)
     else Inr (g\<lparr>ga_guards := ga_guards g @ [(lg_guard_id guard, guard)]\<rparr>))"

definition gather_block :: "(c_float \<Rightarrow> string) \<Rightarrow> kv_block \<Rightarrow> gathered \<Rightarrow> gathered result" where
  "gather_block print_double block g =
     (let name = kv_name block in
      if name = ''LATTICE_POLICY_GATE'' then gather_gate print_double block g
      else if name = ''LATTICE_PROFILE'' then gather_profile block g
      else if name = ''LATTICE_GUARD'' then gather_guard block g
      else if name = ''LATTICE_DEPENDS'' then
        rbind (append_target_clause block (ga_depends g)) (\<lambda>cs. Inr (g\<lparr>ga_depends := cs\<rparr>))
      else if name = ''LATTICE_REQUIRES'' then
        rbind (append_target_clause block (ga_requires g)) (\<lambda>cs. Inr (g\<lparr>ga_requires := cs\<rparr>))
      else if name = ''LATTICE_REQUIRES_SET'' then
        rbind (expand_lattice_requires_set_block block) (\<lambda>blocks.
        rbind (fold_res append_target_clause blocks (ga_requires g)) (\<lambda>cs. Inr (g\<lparr>ga_requires := cs\<rparr>)))
      else if name = ''LATTICE_FORBIDS'' then
        rbind (append_target_clause block (ga_forbids g)) (\<lambda>cs. Inr (g\<lparr>ga_forbids := cs\<rparr>))
      else if name = ''LATTICE_PLAN'' then
        rbind (append_target_clause block (ga_plans g)) (\<lambda>cs. Inr (g\<lparr>ga_plans := cs\<rparr>))
      else if name = ''LATTICE_WARN_SET'' then
        rbind (expand_lattice_warn_set_block block) (\<lambda>blocks.
        rbind (fold_res append_target_clause blocks (ga_warnings g)) (\<lambda>cs. Inr (g\<lparr>ga_warnings := cs\<rparr>)))
      else if name = ''LATTICE_WARN'' then
        rbind (append_target_clause block (ga_warnings g)) (\<lambda>cs. Inr (g\<lparr>ga_warnings := cs\<rparr>))
      else if name = ''LATTICE_TARGET'' then Inr g
      else throw_target (''unexpected block: '' @ name))"

definition clauses_of :: "target_clauses \<Rightarrow> string \<Rightarrow> kv_block list" where
  "clauses_of clauses tid = map snd (filter (\<lambda>c. fst c = tid) clauses)"

section \<open>One target\<close>

text \<open>The clauses of one kind in turn: each is kept, then applied.\<close>

fun apply_clauses ::
  "(lattice_target_spec \<Rightarrow> kv_block \<Rightarrow> nat \<Rightarrow> 'c result) \<Rightarrow> (kv_block \<Rightarrow> lattice_target_spec \<Rightarrow> lattice_target_spec result) \<Rightarrow>
   nat \<Rightarrow> kv_block list \<Rightarrow> lattice_target_spec \<Rightarrow> ('c list \<times> lattice_target_spec) result"
where
  "apply_clauses keep apply' i [] spec = Inr ([], spec)"
| "apply_clauses keep apply' i (block # blocks) spec =
     rbind (keep spec block i) (\<lambda>c.
     rbind (apply' block spec) (\<lambda>spec.
     rbind (apply_clauses keep apply' (Suc i) blocks spec) (\<lambda>(cs, spec). Inr (c # cs, spec))))"

text \<open>The guard of a target: the specification, the clause that stands for it, and its id\<close>

definition apply_guard_of_target ::
  "gathered \<Rightarrow> lattice_target_spec \<Rightarrow> (lattice_target_spec \<times> target_clause list \<times> string list) result"
where
  "apply_guard_of_target g spec =
     (let gid = ts_guard_id spec in
      if gid = [] then Inr (spec, [], [])
      else case map_of (ga_guards g) gid of
        None \<Rightarrow> throw_target (''unknown GUARD '' @ gid @ '' for target '' @ ts_target_id spec)
      | Some guard \<Rightarrow> rbind (apply_lattice_guard guard spec) (\<lambda>spec'.
          Inr (spec', [make_lattice_forbid_clause_from_guard (ts_target_id spec) guard], [gid])))"

definition compile_target :: "gathered \<Rightarrow> kv_block \<Rightarrow> lattice_target_compiled result" where
  "compile_target g block =
     (let profile_id = kv_optional block ''USE_PROFILE'' [] in
      rbind (merge_profile_into_target_block (map_of (ga_profiles g)) block) (\<lambda>merged.
      rbind (decode_lattice_target_spec_block merged) (\<lambda>spec.
      rbind (apply_guard_of_target g spec) (\<lambda>(spec, guard_forbids, guards).
      let tid = ts_target_id spec;
        policy_forbids = (if ts_forbid_uses_from_split_policy spec
          then [make_lattice_forbid_clause_from_split_protection spec] else []) in
      rbind (apply_clauses (\<lambda>_. make_lattice_dependency_clause) apply_lattice_depends_clause 0
        (clauses_of (ga_depends g) tid) spec) (\<lambda>(dependencies, spec).
      rbind (apply_clauses (\<lambda>_. make_lattice_requirement_clause) apply_lattice_requires_clause 0
        (clauses_of (ga_requires g) tid) spec) (\<lambda>(requirements, spec).
      rbind (apply_clauses (\<lambda>_. make_lattice_forbid_clause) apply_lattice_forbids_clause 0
        (clauses_of (ga_forbids g) tid) spec) (\<lambda>(forbids, spec).
      rbind (apply_clauses (\<lambda>_. make_lattice_plan_clause) apply_lattice_plan_clause 0
        (clauses_of (ga_plans g) tid) spec) (\<lambda>(plans, spec).
      rbind (apply_clauses make_lattice_warning_clause apply_lattice_warn_clause 0
        (clauses_of (ga_warnings g) tid) spec) (\<lambda>(warning_clauses, spec).
      rbind (validate_lattice_target_spec_lowered spec) (\<lambda>_.
      Inr \<lparr>lc_lowered_v0 = spec, lc_dependencies = dependencies, lc_requirements = requirements,
        lc_forbids = guard_forbids @ policy_forbids @ forbids, lc_plans = plans, lc_warning_clauses = warning_clauses,
        lc_applied_profiles = (if profile_id = [] then [] else [profile_id]), lc_applied_guards = guards,
        lc_warnings = ts_language_warnings spec, lc_target_spec_fingerprint = []\<rparr>))))))))))"

text \<open>The targets of the blocks, each id once\<close>

definition compile_step ::
  "gathered \<Rightarrow> kv_block \<Rightarrow> lattice_target_compiled list \<Rightarrow> lattice_target_compiled list result"
where
  "compile_step g block out =
     (if kv_name block \<noteq> ''LATTICE_TARGET'' then Inr out
      else rbind (compile_target g block) (\<lambda>t.
        let tid = ts_target_id (lc_lowered_v0 t) in
        if tid \<in> (\<lambda>u. ts_target_id (lc_lowered_v0 u)) ` set out then throw_target (''duplicate TARGET_ID: '' @ tid)
        else Inr (out @ [t])))"

section \<open>All targets\<close>

definition check_policy_gate :: "lattice_target_spec list \<Rightarrow> policy_gate \<Rightarrow> unit result" where
  "check_policy_gate specs gate =
     (let expected = expected_subject_fact_family_for_policy_gate_kind (pg_policy_kind gate) in
      case target_by_id specs (pg_target_id gate) of
        None \<Rightarrow> throw_target (''LATTICE_POLICY_GATE '' @ pg_policy_id gate @ '' references unknown TARGET_ID: '' @ pg_target_id gate)
      | Some spec \<Rightarrow> run_checks
          [(\<not> is_artifact_readiness_target_class (ts_target_class spec), ''LATTICE_POLICY_GATE '' @ pg_policy_id gate @
             '' must reference TARGET_CLASS=artifact_readiness target '' @ pg_target_id gate @
             ''; reserved policy gates consume artifact proof certificates, not runtime readiness targets''),
           (expected \<noteq> [] \<and> ts_subject_fact_family spec \<noteq> expected, ''LATTICE_POLICY_GATE '' @ pg_policy_id gate @
             '' POLICY_KIND='' @ pg_policy_kind gate @ '' must reference SUBJECT_FACT_FAMILY='' @ expected @ '' target '' @
             pg_target_id gate)])"

definition check_latest_satisfying_reference ::
  "lattice_target_spec list \<Rightarrow> lattice_target_spec \<Rightarrow> string \<times> string \<Rightarrow> unit result"
where
  "check_latest_satisfying_reference specs owner field_source =
     (case field_source of (field, source) \<Rightarrow>
      let ref_id = latest_satisfying_reference_target_id source in
      if ref_id = [] then Inr ()
      else case target_by_id specs ref_id of
        None \<Rightarrow> Inr ()
      | Some s \<Rightarrow> run_checks [(\<not> is_latest_satisfying_checkpoint_selectable_target_class (ts_target_class s),
          ts_target_id owner @ '' '' @ field @ '' latest_satisfying cannot reference TARGET_CLASS='' @ ts_target_class s @
          '' target '' @ ts_target_id s @
          ''; latest_satisfying selects checkpoint-producing readiness/leakage_guard targets'')])"

definition plan_references :: "lattice_target_spec \<Rightarrow> (string \<times> string) list" where
  "plan_references spec = [(''PLAN_INPUT_MDN_CHECKPOINT'', ts_plan_input_mdn_checkpoint spec),
     (''PLAN_INPUT_REPRESENTATION_CHECKPOINT'', ts_plan_input_representation_checkpoint spec)]"

definition checkpoint_references :: "lattice_target_spec \<Rightarrow> (string \<times> string) list" where
  "checkpoint_references spec = [(''CHECKPOINT_SOURCE'', ts_checkpoint_source spec),
     (''EVALUATED_CHECKPOINT_SOURCE'', ts_evaluated_checkpoint_source spec)] @ plan_references spec"

text \<open>Checks in turn, the first that fails\<close>

definition each :: "('a \<Rightarrow> unit result) \<Rightarrow> 'a list \<Rightarrow> unit result" where
  "each f xs = fold_res (\<lambda>x _. f x) xs ()"

definition check_references ::
  "(lattice_target_spec \<Rightarrow> (string \<times> string) list) \<Rightarrow> lattice_target_spec list \<Rightarrow> lattice_target_compiled list \<Rightarrow> unit result"
where
  "check_references refs specs targets =
     each (\<lambda>t. each (check_latest_satisfying_reference specs (lc_lowered_v0 t)) (refs (lc_lowered_v0 t))) targets"

definition set_fingerprint :: "(c_float \<Rightarrow> string) \<Rightarrow> lattice_target_compiled \<Rightarrow> lattice_target_compiled" where
  "set_fingerprint print_double t =
     (let f = lattice_target_spec_fingerprint print_double t in
      t\<lparr>lc_target_spec_fingerprint := f, lc_lowered_v0 := (lc_lowered_v0 t)\<lparr>ts_target_spec_fingerprint := f\<rparr>\<rparr>)"

definition check_clause_targets ::
  "(string list \<Rightarrow> string list) \<Rightarrow> string list \<Rightarrow> target_clauses \<times> string \<Rightarrow> unit result"
where
  "check_clause_targets id_order target_ids clauses_name =
     (case clauses_name of (clauses, name) \<Rightarrow>
      run_checks (map (\<lambda>tid. (tid \<notin> set target_ids, name @ '' references unknown TARGET_ID: '' @ tid))
        (id_order (remdups (map fst clauses)))))"

definition compile_lattice_blocks ::
  "(c_float \<Rightarrow> string) \<Rightarrow> (string list \<Rightarrow> string list) \<Rightarrow> kv_block list \<Rightarrow> lattice_target_compiled list result"
where
  "compile_lattice_blocks print_double id_order blocks =
     rbind (fold_res (gather_block print_double) blocks nothing_gathered) (\<lambda>g.
     rbind (fold_res (compile_step g) blocks []) (\<lambda>out.
     let specs = map lc_lowered_v0 out; target_ids = map ts_target_id specs in
     rbind (each (check_policy_gate specs) (ga_gates g)) (\<lambda>_.
     rbind (check_references checkpoint_references specs out) (\<lambda>_.
     rbind (derive_lattice_plan_inputs_from_target_graph specs out) (\<lambda>out.
     rbind (check_references plan_references specs out) (\<lambda>_.
     let out = map (set_fingerprint print_double) out in
     rbind (each (check_clause_targets id_order target_ids)
       [(ga_depends g, ''LATTICE_DEPENDS''), (ga_requires g, ''LATTICE_REQUIRES''), (ga_forbids g, ''LATTICE_FORBIDS''),
        (ga_plans g, ''LATTICE_PLAN''), (ga_warnings g, ''LATTICE_WARN'')]) (\<lambda>_.
     if out = [] then throw_target ''no LATTICE_TARGET blocks found'' else Inr out)))))))"

definition decode_lattice_compiled_targets_from_dsl ::
  "(c_float \<Rightarrow> string) \<Rightarrow> ((string \<rightharpoonup> string) \<Rightarrow> string list) \<Rightarrow> (string list \<Rightarrow> string list) \<Rightarrow> string \<Rightarrow>
   lattice_target_compiled list result"
where
  "decode_lattice_compiled_targets_from_dsl print_double key_order id_order text =
     rbind (parse_blocks text) (\<lambda>blocks.
     rbind (expand_lattice_target_authoring_blocks key_order blocks) (\<lambda>blocks.
     compile_lattice_blocks print_double id_order blocks))"

definition decode_lattice_targets_from_dsl ::
  "(c_float \<Rightarrow> string) \<Rightarrow> ((string \<rightharpoonup> string) \<Rightarrow> string list) \<Rightarrow> (string list \<Rightarrow> string list) \<Rightarrow> string \<Rightarrow>
   lattice_target_spec list result"
where
  "decode_lattice_targets_from_dsl print_double key_order id_order text =
     rbind (decode_lattice_compiled_targets_from_dsl print_double key_order id_order text) (\<lambda>out. Inr (map lc_lowered_v0 out))"

section \<open>What compiled targets are\<close>

lemma each_Inr: "each f xs = Inr u \<longleftrightarrow> (\<forall>x \<in> set xs. f x = Inr ())"
  unfolding each_def by (induction xs) (auto simp: res_simps)

lemma compile_target_ok:
  "compile_target g block = Inr t \<Longrightarrow> target_ok (lc_lowered_v0 t)"
  unfolding compile_target_def Let_def by (elim rbind_InrE) (auto simp: res_simps dest: lowered_target_ok split: prod.splits)

lemma compile_step_ok:
  assumes "fold_res (compile_step g) blocks [] = Inr out"
  shows "distinct (map (\<lambda>t. ts_target_id (lc_lowered_v0 t)) out) \<and> (\<forall>t \<in> set out. target_ok (lc_lowered_v0 t))"
  using assms by (rule fold_res_invariant)
    (auto simp: compile_step_def res_simps Let_def dest: compile_target_ok split: if_splits)

lemmas target_ok_defs = target_ok_def kind_ok_def source_ok_def forbid_ok_def thresholds_ok_def waves_ok_def oracle_ok_def
  kindless_def non_dispatch_def handoff_def forecast_gate_def edge_return_gate_def requires_exposure_def lowered_source_range_def

text \<open>What a target still is when its plan inputs and its fingerprint change\<close>

lemma target_ok_fingerprint [simp]: "target_ok (s\<lparr>ts_target_spec_fingerprint := f\<rparr>) = target_ok s"
  by (simp add: target_ok_defs checkpoint_ok_def declares_checkpoint_inputs_def cong: option.case_cong)

lemma plan_inputs_parts:
  fixes s :: lattice_target_spec and a b :: string
  defines "s' \<equiv> s\<lparr>ts_plan_input_mdn_checkpoint := a, ts_plan_input_representation_checkpoint := b\<rparr>"
  shows "kind_ok s' = kind_ok s" "source_ok s' = source_ok s" "forbid_ok s' = forbid_ok s" "thresholds_ok s' = thresholds_ok s"
    "waves_ok s' = waves_ok s" "oracle_ok s' = oracle_ok s" "requires_exposure s' = requires_exposure s"
    "lowered_source_range s' = lowered_source_range s"
  unfolding s'_def by (simp_all add: target_ok_defs cong: option.case_cong if_cong)

lemma target_ok_plan_inputs:
  assumes "target_ok s" "kindless s \<longrightarrow> trim a = [] \<and> trim b = []"
  shows "target_ok (s\<lparr>ts_plan_input_mdn_checkpoint := a, ts_plan_input_representation_checkpoint := b\<rparr>)"
proof -
  have "checkpoint_ok (s\<lparr>ts_plan_input_mdn_checkpoint := a, ts_plan_input_representation_checkpoint := b\<rparr>)"
    using assms by (auto simp: target_ok_def checkpoint_ok_def declares_checkpoint_inputs_def kindless_def Let_def)
  then show ?thesis using assms(1) by (simp add: target_ok_def plan_inputs_parts)
qed

lemma assign_or_confirm_blank:
  "assign_or_confirm_lattice_derived_plan_input target field name derived = Inr v \<Longrightarrow> trim field = [] \<Longrightarrow> trim derived = [] \<Longrightarrow>
   trim v = []"
  by (auto simp: assign_or_confirm_lattice_derived_plan_input_def Let_def split: if_splits)

text \<open>Deriving plan inputs changes nothing but the plan inputs.\<close>

definition same_but_plan :: "lattice_target_compiled \<Rightarrow> lattice_target_compiled \<Rightarrow> bool" where
  "same_but_plan t u \<longleftrightarrow> (\<exists>a b. lc_lowered_v0 u = (lc_lowered_v0 t)\<lparr>ts_plan_input_mdn_checkpoint := a,
     ts_plan_input_representation_checkpoint := b\<rparr>)"

lemma derive_plan_inputs_same: "derive_plan_inputs specs t = Inr u \<Longrightarrow> same_but_plan t u"
proof (cases "lc_plans t = []")
  case True
  assume "derive_plan_inputs specs t = Inr u"
  with True have "lc_lowered_v0 u = (lc_lowered_v0 t)\<lparr>ts_plan_input_mdn_checkpoint := ts_plan_input_mdn_checkpoint (lc_lowered_v0 t),
     ts_plan_input_representation_checkpoint := ts_plan_input_representation_checkpoint (lc_lowered_v0 t)\<rparr>"
    by (simp add: derive_plan_inputs_def)
  then show ?thesis unfolding same_but_plan_def by blast
next
  case False
  assume "derive_plan_inputs specs t = Inr u"
  with False obtain a b where "u = t\<lparr>lc_lowered_v0 := (lc_lowered_v0 t)\<lparr>ts_plan_input_mdn_checkpoint := a,
      ts_plan_input_representation_checkpoint := b\<rparr>\<rparr>"
    by (auto simp: derive_plan_inputs_def res_simps Let_def)
  then have "lc_lowered_v0 u = (lc_lowered_v0 t)\<lparr>ts_plan_input_mdn_checkpoint := a,
      ts_plan_input_representation_checkpoint := b\<rparr>" by simp
  then show ?thesis unfolding same_but_plan_def by blast
qed

lemma derive_plan_inputs_ok:
  assumes "derive_plan_inputs specs t = Inr u" "target_ok (lc_lowered_v0 t)"
  shows "target_ok (lc_lowered_v0 u)"
proof (cases "lc_plans t = []")
  case True
  then show ?thesis using assms by (simp add: derive_plan_inputs_def)
next
  case False
  let ?s = "lc_lowered_v0 t"
  obtain a b where
    a: "assign_or_confirm_lattice_derived_plan_input t (ts_plan_input_mdn_checkpoint ?s) ''PLAN_INPUT_MDN_CHECKPOINT''
      (ts_evaluated_checkpoint_source ?s) = Inr a" and
    b: "assign_or_confirm_lattice_derived_plan_input t (ts_plan_input_representation_checkpoint ?s)
      ''PLAN_INPUT_REPRESENTATION_CHECKPOINT'' (derive_representation_plan_input ?s specs) = Inr b" and
    u: "lc_lowered_v0 u = ?s\<lparr>ts_plan_input_mdn_checkpoint := a, ts_plan_input_representation_checkpoint := b\<rparr>"
    using assms(1) False by (auto simp: derive_plan_inputs_def res_simps Let_def)
  have "trim a = [] \<and> trim b = []" if k: "kindless ?s"
  proof -
    have blank: "trim (ts_evaluated_checkpoint_source ?s) = []" "trim (ts_plan_input_mdn_checkpoint ?s) = []"
      "trim (ts_plan_input_representation_checkpoint ?s) = []" and "ts_kind ?s = Not_Applicable"
      using assms(2) k by (auto simp: target_ok_def checkpoint_ok_def declares_checkpoint_inputs_def kind_ok_def Let_def)
    then have "derive_representation_plan_input ?s specs = []" by (simp add: derive_representation_plan_input_def)
    with blank assign_or_confirm_blank [OF a] assign_or_confirm_blank [OF b] show ?thesis by simp
  qed
  then show ?thesis using target_ok_plan_inputs [OF assms(2)] u by simp
qed

text \<open>The parts of a compilation that succeeds\<close>

lemma compile_lattice_blocksE:
  assumes "compile_lattice_blocks print_double id_order blocks = Inr out"
  obtains g cs ds where "fold_res (compile_step g) blocks [] = Inr cs"
    "check_references checkpoint_references (map lc_lowered_v0 cs) cs = Inr ()"
    "list_all2 (\<lambda>t u. derive_plan_inputs (map lc_lowered_v0 cs) t = Inr u) cs ds"
    "check_references plan_references (map lc_lowered_v0 cs) ds = Inr ()"
    "out = map (set_fingerprint print_double) ds" "out \<noteq> []"
  using assms by (auto simp: compile_lattice_blocks_def res_simps Let_def derive_lattice_plan_inputs_from_target_graph_def
      split: if_splits)

lemma set_fingerprint_lowered:
  "lc_lowered_v0 (set_fingerprint print_double t) =
     (lc_lowered_v0 t)\<lparr>ts_target_spec_fingerprint := lattice_target_spec_fingerprint print_double t\<rparr>"
  by (simp add: set_fingerprint_def Let_def)

lemma derived_ids:
  assumes "list_all2 (\<lambda>t u. derive_plan_inputs specs t = Inr u) cs ds"
  shows "map (\<lambda>t. ts_target_id (lc_lowered_v0 t)) ds = map (\<lambda>t. ts_target_id (lc_lowered_v0 t)) cs"
  using assms by (induction rule: list_all2_induct) (auto simp: same_but_plan_def dest!: derive_plan_inputs_same)

lemma derived_ok:
  assumes "list_all2 (\<lambda>t u. derive_plan_inputs specs t = Inr u) cs ds" "\<forall>t \<in> set cs. target_ok (lc_lowered_v0 t)"
  shows "list_all (\<lambda>t. target_ok (lc_lowered_v0 t)) ds"
  using assms by (induction rule: list_all2_induct) (auto dest: derive_plan_inputs_ok)

text \<open>
  C4: Every target that compiling a list of blocks gives is well formed: it has a kind exactly when its class has
  kinds, its source is everything or a split or a range of anchors that is not empty, what it forbids is a split or a
  range and says for which uses, its thresholds are in bounds, it plans no waves when it dispatches none, and its
  checkpoint source fits its class. No two targets have the same id, and there is at least one.
\<close>

theorem compiled_targets_well_formed:
  assumes "compile_lattice_blocks print_double id_order blocks = Inr out"
  shows "out \<noteq> [] \<and> distinct (map (\<lambda>t. ts_target_id (lc_lowered_v0 t)) out) \<and>
    list_all (\<lambda>t. target_ok (lc_lowered_v0 t)) out"
proof -
  obtain g cs ds where c: "fold_res (compile_step g) blocks [] = Inr cs"
    and d: "list_all2 (\<lambda>t u. derive_plan_inputs (map lc_lowered_v0 cs) t = Inr u) cs ds"
    and out: "out = map (set_fingerprint print_double) ds" "out \<noteq> []"
    by (rule compile_lattice_blocksE [OF assms])
  have "list_all (\<lambda>t. target_ok (lc_lowered_v0 t)) ds"
    by (rule derived_ok [OF d]) (use compile_step_ok [OF c] in blast)
  then show ?thesis
    using out derived_ids [OF d] compile_step_ok [OF c] by (simp add: list_all_iff set_fingerprint_lowered comp_def)
qed

text \<open>A reference to a target of the list is to one whose class produces checkpoints.\<close>

definition reference_ok :: "lattice_target_spec list \<Rightarrow> string \<Rightarrow> bool" where
  "reference_ok specs source =
     (let ref_id = latest_satisfying_reference_target_id source in
      ref_id = [] \<or> (case target_by_id specs ref_id of None \<Rightarrow> True
        | Some s \<Rightarrow> is_latest_satisfying_checkpoint_selectable_target_class (ts_target_class s)))"

lemma check_reference_ok:
  "check_latest_satisfying_reference specs owner (field, source) = Inr u \<Longrightarrow> reference_ok specs source"
  by (auto simp: check_latest_satisfying_reference_def reference_ok_def Let_def res_simps split: if_splits option.splits)

lemma check_references_ok:
  assumes "check_references refs specs ts = Inr u" "t \<in> set ts" "r \<in> set (refs (lc_lowered_v0 t))"
  shows "reference_ok specs (snd r)"
  using assms by (cases r) (auto simp: check_references_def each_Inr dest!: check_reference_ok)

text \<open>References see the ids and classes of the targets only.\<close>

lemma reference_ok_cong:
  assumes "map (\<lambda>s. (ts_target_id s, ts_target_class s)) specs = map (\<lambda>s. (ts_target_id s, ts_target_class s)) specs'"
  shows "reference_ok specs source = reference_ok specs' source"
proof -
  have "map_option ts_target_class (target_by_id ss tid) = map_of (map (\<lambda>s. (ts_target_id s, ts_target_class s)) ss) tid" for ss tid
    by (induction ss) (auto simp: target_by_id_def)
  from this [of specs] this [of specs'] assms
  have "map_option ts_target_class (target_by_id specs tid) = map_option ts_target_class (target_by_id specs' tid)" for tid
    by simp
  moreover have "reference_ok ss source = (let ref_id = latest_satisfying_reference_target_id source in
      ref_id = [] \<or> (case map_option ts_target_class (target_by_id ss ref_id) of None \<Rightarrow> True
        | Some c \<Rightarrow> is_latest_satisfying_checkpoint_selectable_target_class c))" for ss
    unfolding reference_ok_def Let_def by (cases "target_by_id ss (latest_satisfying_reference_target_id source)") simp_all
  ultimately show ?thesis by (simp only: Let_def)
qed

lemma compiled_classes:
  assumes "list_all2 (\<lambda>t u. derive_plan_inputs specs t = Inr u) cs ds"
  shows "map (\<lambda>s. (ts_target_id s, ts_target_class s)) (map lc_lowered_v0 (map (set_fingerprint print_double) ds)) =
    map (\<lambda>s. (ts_target_id s, ts_target_class s)) (map lc_lowered_v0 cs)"
  using assms by (induction rule: list_all2_induct)
    (auto simp: same_but_plan_def set_fingerprint_lowered dest!: derive_plan_inputs_same)

text \<open>
  C12: In the targets that compiling gives, no checkpoint is selected from a target whose class produces none: each of
  the four references of a target, also those that were derived for its plan, names a target outside the list or one of
  readiness or of a leakage guard.
\<close>

theorem compiled_references_selectable:
  assumes "compile_lattice_blocks print_double id_order blocks = Inr out"
  shows "list_all (\<lambda>t. list_all (\<lambda>r. reference_ok (map lc_lowered_v0 out) (snd r)) (checkpoint_references (lc_lowered_v0 t))) out"
proof -
  obtain g cs ds where c: "check_references checkpoint_references (map lc_lowered_v0 cs) cs = Inr ()"
    and d: "list_all2 (\<lambda>t u. derive_plan_inputs (map lc_lowered_v0 cs) t = Inr u) cs ds"
    and p: "check_references plan_references (map lc_lowered_v0 cs) ds = Inr ()"
    and out: "out = map (set_fingerprint print_double) ds"
    by (rule compile_lattice_blocksE [OF assms])
  have eq: "reference_ok (map lc_lowered_v0 out) x = reference_ok (map lc_lowered_v0 cs) x" for x
    unfolding out by (rule reference_ok_cong [OF compiled_classes [OF d]])
  have "reference_ok (map lc_lowered_v0 cs) (snd r)"
    if u: "u \<in> set ds" and r: "r \<in> set (checkpoint_references (lc_lowered_v0 (set_fingerprint print_double u)))" for u r
  proof (cases "r \<in> set (plan_references (lc_lowered_v0 u))")
    case True
    then show ?thesis using check_references_ok [OF p u] by blast
  next
    case False
    obtain i where "i < length ds" "ds ! i = u" using u by (auto simp: in_set_conv_nth)
    then have t: "cs ! i \<in> set cs" "derive_plan_inputs (map lc_lowered_v0 cs) (cs ! i) = Inr u"
      using list_all2_nthD2 [OF d] list_all2_lengthD [OF d] by auto
    have "r \<in> set (checkpoint_references (lc_lowered_v0 (cs ! i)))"
    proof -
      obtain a b where u: "lc_lowered_v0 u = (lc_lowered_v0 (cs ! i))\<lparr>ts_plan_input_mdn_checkpoint := a,
          ts_plan_input_representation_checkpoint := b\<rparr>"
        using derive_plan_inputs_same [OF t(2)] unfolding same_but_plan_def by blast
      have "r \<in> set [(''CHECKPOINT_SOURCE'', ts_checkpoint_source (lc_lowered_v0 u)),
          (''EVALUATED_CHECKPOINT_SOURCE'', ts_evaluated_checkpoint_source (lc_lowered_v0 u))]"
        using r False unfolding checkpoint_references_def plan_references_def set_fingerprint_lowered by simp
      then show ?thesis unfolding checkpoint_references_def u by force
    qed
    then show ?thesis using check_references_ok [OF c t(1)] by blast
  qed
  note ok = this
  show ?thesis unfolding list_all_iff
  proof (intro ballI)
    fix t r assume t: "t \<in> set out" and r: "r \<in> set (checkpoint_references (lc_lowered_v0 t))"
    then obtain u where u: "u \<in> set ds" "t = set_fingerprint print_double u" unfolding out by auto
    show "reference_ok (map lc_lowered_v0 out) (snd r)"
      unfolding eq using u(1) r unfolding u(2) by (rule ok)
  qed
qed

text \<open>The target of the example of decoding, compiled alone\<close>

definition example_compiled :: lattice_target_compiled where
  "example_compiled = \<lparr>lc_lowered_v0 = example_protected, lc_dependencies = [], lc_requirements = [],
     lc_forbids = [make_lattice_forbid_clause_from_split_protection example_protected], lc_plans = [], lc_warning_clauses = [],
     lc_applied_profiles = [], lc_applied_guards = [], lc_warnings = [], lc_target_spec_fingerprint = []\<rparr>"

lemma example_protected_fields:
  "ts_guard_id example_protected = []" "ts_forbid_uses_from_split_policy example_protected"
  "ts_language_warnings example_protected = []" "kv_optional example_readiness_block ''USE_PROFILE'' [] = []"
  "kv_name example_readiness_block = ''LATTICE_TARGET''" "validate_lattice_target_spec_lowered example_protected = Inr ()"
  by code_simp+

lemma example_compiles_target: "compile_target nothing_gathered example_readiness_block = Inr example_compiled"
  by (simp add: compile_target_def merge_profile_into_target_block_def example_readiness_decodes apply_guard_of_target_def
      example_protected_fields clauses_of_def nothing_gathered_def example_compiled_def)

lemma example_references:
  "check_references checkpoint_references [example_protected] [example_compiled] = Inr ()"
  "check_references plan_references [example_protected] [example_compiled] = Inr ()"
  by (simp_all add: check_references_def each_def example_compiled_def checkpoint_references_def plan_references_def
      check_latest_satisfying_reference_def) code_simp+

lemma example_compiles:
  "compile_lattice_blocks (\<lambda>_. ''0'') (\<lambda>ids. ids) [example_readiness_block] = Inr [set_fingerprint (\<lambda>_. ''0'') example_compiled]"
proof -
  have l: "lc_lowered_v0 example_compiled = example_protected" "lc_plans example_compiled = []"
    by (simp_all add: example_compiled_def)
  have "gather_block (\<lambda>_. ''0'') example_readiness_block nothing_gathered = Inr nothing_gathered"
    by (simp add: gather_block_def example_protected_fields)
  moreover have "compile_step nothing_gathered example_readiness_block [] = Inr [example_compiled]"
    by (simp add: compile_step_def example_protected_fields example_compiles_target)
  ultimately show ?thesis
    by (simp add: compile_lattice_blocks_def l example_references derive_lattice_plan_inputs_from_target_graph_def
        derive_plan_inputs_def nothing_gathered_def each_def check_clause_targets_def)
qed

theorem compiled_targets_well_formed_witness:
  "list_all (\<lambda>t. target_ok (lc_lowered_v0 t)) [set_fingerprint (\<lambda>_. ''0'') example_compiled]"
  using compiled_targets_well_formed [OF example_compiles] by blast

theorem compiled_references_selectable_witness:
  "list_all (\<lambda>t. list_all (\<lambda>r. reference_ok (map lc_lowered_v0 [set_fingerprint (\<lambda>_. ''0'') example_compiled]) (snd r))
     (checkpoint_references (lc_lowered_v0 t))) [set_fingerprint (\<lambda>_. ''0'') example_compiled]"
  using compiled_references_selectable [OF example_compiles] .

end
