(* ===== verification/Dock_Binding.thy ===== *)
theory Dock_Binding
  imports Wikimyei_Assembly
begin

text \<open>
  \<open>src/include/kikijyeba/topology/dock_binding.h\<close> and \<open>node_value_chain.h\<close>: the binding of the
  symbolic variables of the docks to values, its validation against the active assemblies, and
  the validation of the chain of assemblies that carries node values.
\<close>

section \<open>Bindings\<close>

datatype dock_variable_scope = StaticBound | RuntimeBound

record dock_variable =
  var_name :: string
  var_source :: string
  var_scope :: dock_variable_scope
  i64_value :: "int option"

record dock_binding =
  binding_id :: string
  bound_variables :: "dock_variable list"
  binding_constraints :: "string list"

definition dock_variable_scope_name :: "dock_variable_scope \<Rightarrow> string" where
  "dock_variable_scope_name s = (case s of StaticBound \<Rightarrow> ''static'' | RuntimeBound \<Rightarrow> ''runtime'')"

definition make_static_i64_variable :: "string \<Rightarrow> string \<Rightarrow> int \<Rightarrow> dock_variable" where
  "make_static_i64_variable name source v =
     \<lparr>var_name = name, var_source = source, var_scope = StaticBound, i64_value = Some v\<rparr>"

definition make_runtime_variable :: "string \<Rightarrow> string \<Rightarrow> dock_variable" where
  "make_runtime_variable name source =
     \<lparr>var_name = name, var_source = source, var_scope = RuntimeBound, i64_value = None\<rparr>"

definition throw_binding :: "string \<Rightarrow> 'a result" where
  "throw_binding msg = Inl (RuntimeError (''[dock_binding] '' @ msg))"

definition check_variable_names :: "dock_variable \<Rightarrow> unit result" where
  "check_variable_names v =
     (if var_name v = [] then throw_binding ''variable name is required''
      else if var_source v = [] then throw_binding (''source is required for variable '' @ var_name v)
      else Inr ())"

definition check_variable_value :: "dock_variable \<Rightarrow> unit result" where
  "check_variable_value v =
     (if var_scope v = StaticBound \<and> i64_value v = None then
        throw_binding (''static variable has no value: '' @ var_name v)
      else if var_scope v = RuntimeBound \<and> i64_value v \<noteq> None then
        throw_binding (''runtime variable has a static value: '' @ var_name v)
      else Inr ())"

definition validate_dock_binding :: "dock_binding \<Rightarrow> unit result" where
  "validate_dock_binding b =
     (if binding_id b = [] then throw_binding ''binding_id is required''
      else if bound_variables b = [] then throw_binding ''at least one variable is required''
      else unique_loop check_variable_names var_name
        (\<lambda>v. RuntimeError (''[dock_binding] duplicate variable: '' @ var_name v))
        check_variable_value {} (bound_variables b))"

definition find_dock_binding_variable :: "dock_binding \<Rightarrow> string \<Rightarrow> dock_variable option" where
  "find_dock_binding_variable b name = List.find (\<lambda>v. var_name v = name) (bound_variables b)"

section \<open>Validation against assemblies\<close>

text \<open>
  The nested loops over assemblies, docks and variables; the state is \<open>used_variables\<close>.
\<close>

definition use_variable :: "dock_binding \<Rightarrow> wikimyei_assembly \<Rightarrow> dock \<Rightarrow> string \<Rightarrow> string set \<Rightarrow> string set result" where
  "use_variable b a d v used =
     (if v \<notin> var_name ` set (bound_variables b) then
        throw_binding (''assembly '' @ component_assembly_id a @ '' dock '' @ dock_name d @
          '' requires unbound variable: '' @ v)
      else Inr (insert v used))"

definition use_dock :: "dock_binding \<Rightarrow> wikimyei_assembly \<Rightarrow> dock \<Rightarrow> string set \<Rightarrow> string set result" where
  "use_dock b a d used = fold_res (use_variable b a d) (dock_variables d) used"

definition use_assembly :: "dock_binding \<Rightarrow> wikimyei_assembly \<Rightarrow> string set \<Rightarrow> string set result" where
  "use_assembly b a used =
     rbind (validate_wikimyei_assembly a) (\<lambda>_. fold_res (use_dock b a) (docks a) used)"

definition unused_warning :: "dock_variable \<Rightarrow> string" where
  "unused_warning v = ''[dock_binding] variable '' @ [CHR 0x27] @ var_name v @ [CHR 0x27] @
     '' is bound but unused by active assemblies''"

definition analyze_dock_binding_against_assemblies ::
  "dock_binding \<Rightarrow> wikimyei_assembly list \<Rightarrow> string list result"
where
  "analyze_dock_binding_against_assemblies b assemblies =
     rbind (validate_dock_binding b) (\<lambda>_.
       if assemblies = [] then throw_binding ''cannot validate binding without assemblies''
       else rbind (fold_res (use_assembly b) assemblies {}) (\<lambda>used.
         Inr (map unused_warning (filter (\<lambda>v. var_name v \<notin> used) (bound_variables b)))))"

definition require_static_i64_binding :: "dock_binding \<Rightarrow> string \<Rightarrow> int result" where
  "require_static_i64_binding b name =
     (case find_dock_binding_variable b name of
        None \<Rightarrow> throw_binding (''missing variable: '' @ name)
      | Some v \<Rightarrow> (case i64_value v of
            Some i \<Rightarrow> if var_scope v \<noteq> StaticBound then
                throw_binding (''variable is not statically bound: '' @ name) else Inr i
          | None \<Rightarrow> throw_binding (''variable is not statically bound: '' @ name)))"

definition require_static_i64_binding_value :: "dock_binding \<Rightarrow> string \<Rightarrow> int \<Rightarrow> string \<Rightarrow> unit result" where
  "require_static_i64_binding_value b name expected label =
     rbind (require_static_i64_binding b name) (\<lambda>actual.
       if actual \<noteq> expected then
         throw_binding (''variable '' @ name @ '' mismatch for '' @ label @ '': expected '' @
           show_int expected @ '', got '' @ show_int actual)
       else Inr ())"

definition require_runtime_binding :: "dock_binding \<Rightarrow> string \<Rightarrow> string \<Rightarrow> unit result" where
  "require_runtime_binding b name label =
     (case find_dock_binding_variable b name of
        None \<Rightarrow> throw_binding (''missing variable: '' @ name)
      | Some v \<Rightarrow> if var_scope v \<noteq> RuntimeBound \<or> i64_value v \<noteq> None then
            throw_binding (''variable '' @ name @ '' must be runtime-bound for '' @ label)
          else Inr ())"

definition variable_line :: "dock_variable \<Rightarrow> string" where
  "variable_line v = ''variable='' @ var_name v @ CHR ''|'' # dock_variable_scope_name (var_scope v) @
     CHR ''|'' # var_source v @ CHR ''|'' #
     (case i64_value v of Some i \<Rightarrow> show_int i | None \<Rightarrow> ''runtime'') @ [newline]"

definition canonical_dock_binding_text :: "dock_binding \<Rightarrow> string" where
  "canonical_dock_binding_text b = ''binding_id='' @ binding_id b @ newline #
     concat (map variable_line (bound_variables b)) @
     concat (map (\<lambda>c. ''constraint='' @ c @ [newline]) (binding_constraints b))"

definition dock_binding_fingerprint :: "dock_binding \<Rightarrow> string result" where
  "dock_binding_fingerprint b =
     rbind (validate_dock_binding b) (\<lambda>_.
       Inr (hash_hex (mix_hash_string
         (mix_hash_string 14695981039346656037 ''cuwacunu.kikijyeba.topology.dock_binding.v1'')
         (canonical_dock_binding_text b))))"

definition dock_binding_token :: "dock_binding \<Rightarrow> string result" where
  "dock_binding_token b =
     rbind (validate_dock_binding b) (\<lambda>_.
     rbind (dock_binding_fingerprint b) (\<lambda>f. Inr (binding_id b @ ''/'' @ f)))"

section \<open>The registry of assemblies\<close>

text \<open>\<open>src/include/kikijyeba/topology/wikimyei_registry.h\<close>; the state is the vector of assemblies.\<close>

record wikimyei_registry =
  registered :: "wikimyei_assembly list"

definition registry_add :: "wikimyei_assembly \<Rightarrow> wikimyei_registry \<Rightarrow> wikimyei_registry result" where
  "registry_add a r =
     rbind (validate_wikimyei_assembly a) (\<lambda>_.
       if list_ex (\<lambda>e. component_assembly_id e = component_assembly_id a) (registered r) then
         Inl (RuntimeError (''[wikimyei_registry] duplicate component_assembly_id: '' @ component_assembly_id a))
       else Inr (r\<lparr>registered := registered r @ [a]\<rparr>))"

definition require_component :: "wikimyei_registry \<Rightarrow> string \<Rightarrow> wikimyei_assembly result" where
  "require_component r cid =
     (case List.find (\<lambda>a. component_assembly_id a = cid) (registered r) of
        Some a \<Rightarrow> Inr a
      | None \<Rightarrow> Inl (RuntimeError (''[wikimyei_registry] unknown component_assembly_id: '' @ cid)))"

text \<open>\<open>emplace\<close> keeps the value of a key that is already there.\<close>

definition component_fingerprints :: "wikimyei_registry \<Rightarrow> string \<rightharpoonup> string" where
  "component_fingerprints r =
     foldl (\<lambda>m a. case m (component_assembly_id a) of
         Some _ \<Rightarrow> m
       | None \<Rightarrow> m(component_assembly_id a \<mapsto> assembly_fingerprint a)) Map.empty (registered r)"

section \<open>The node value chain\<close>

definition validate_node_value_assembly_chain ::
  "wikimyei_assembly \<Rightarrow> wikimyei_assembly \<Rightarrow> wikimyei_assembly \<Rightarrow> unit result"
where
  "validate_node_value_assembly_chain nodelift vicreg mdn =
     rbind (validate_wikimyei_assembly nodelift) (\<lambda>_.
     rbind (validate_wikimyei_assembly vicreg) (\<lambda>_.
     rbind (validate_wikimyei_assembly mdn) (\<lambda>_.
     rbind (require_compatible_docks nodelift NodeLiftedState vicreg NodeLiftedState
       ''NodeLift->VICReg conditioning'') (\<lambda>_.
     rbind (require_compatible_docks vicreg NodeRepresentation mdn NodeRepresentation
       ''VICReg->MDN conditioning'') (\<lambda>_.
     rbind (require_compatible_docks nodelift FutureNodeLiftedState mdn FutureNodeLiftedState
       ''NodeLift->MDN target'') (\<lambda>_.
     require_dock mdn Produces FutureNodeDistribution ''MDN future node distribution''))))))"

section \<open>Validation\<close>

definition variable_ok :: "dock_variable \<Rightarrow> bool" where
  "variable_ok v \<longleftrightarrow> var_name v \<noteq> [] \<and> var_source v \<noteq> [] \<and> (var_scope v = StaticBound \<longleftrightarrow> i64_value v \<noteq> None)"

definition unique_variables :: "dock_binding \<Rightarrow> bool" where
  "unique_variables b \<longleftrightarrow> distinct (map var_name (bound_variables b))"

definition binding_ok :: "dock_binding \<Rightarrow> bool" where
  "binding_ok b \<longleftrightarrow> binding_id b \<noteq> [] \<and> bound_variables b \<noteq> [] \<and> list_all variable_ok (bound_variables b) \<and>
     unique_variables b"

lemma throw_binding_simps [simp]: "throw_binding m \<noteq> Inr x" "Inr x \<noteq> throw_binding m"
  by (simp_all add: throw_binding_def)

lemma scope_neq: "s \<noteq> StaticBound \<longleftrightarrow> s = RuntimeBound"
  by (cases s) simp_all

lemma check_variable_iff:
  "check_variable_names v = Inr () \<and> check_variable_value v = Inr () \<longleftrightarrow> variable_ok v"
  by (cases "var_scope v") (auto simp: check_variable_names_def check_variable_value_def variable_ok_def)

lemma validate_binding_iff: "validate_dock_binding b = Inr u \<longleftrightarrow> binding_ok b"
  by (simp add: validate_dock_binding_def binding_ok_def unique_loop_iff check_variable_iff
      unique_variables_def list_all_iff)

interpretation binding_lookup: keyed_lookup bound_variables var_name find_dock_binding_variable unique_variables
  by unfold_locales
    (auto simp: find_dock_binding_variable_def unique_variables_def find_distinct_key dest: find_Some_D)

lemma use_dock_iff:
  "fold_res (use_variable b a d) vs used = Inr used' \<longleftrightarrow>
     set vs \<subseteq> var_name ` set (bound_variables b) \<and> used' = used \<union> set vs"
  by (induction vs arbitrary: used) (auto simp: use_variable_def res_simps)

definition assembly_variables :: "wikimyei_assembly \<Rightarrow> string set" where
  "assembly_variables a = (\<Union>d \<in> set (docks a). set (dock_variables d))"

lemma use_docks_iff:
  "fold_res (use_dock b a) ds used = Inr used' \<longleftrightarrow>
     (\<Union>d \<in> set ds. set (dock_variables d)) \<subseteq> var_name ` set (bound_variables b) \<and>
     used' = used \<union> (\<Union>d \<in> set ds. set (dock_variables d))"
  by (induction ds arbitrary: used) (auto simp: use_dock_def use_dock_iff res_simps)

lemma use_assembly_iff:
  "use_assembly b a used = Inr used' \<longleftrightarrow> assembly_ok a \<and>
     assembly_variables a \<subseteq> var_name ` set (bound_variables b) \<and> used' = used \<union> assembly_variables a"
  by (auto simp: use_assembly_def use_docks_iff validate_assembly_iff assembly_variables_def res_simps)

lemma use_assemblies_iff:
  "fold_res (use_assembly b) as used = Inr used' \<longleftrightarrow> list_all assembly_ok as \<and>
     (\<Union>a \<in> set as. assembly_variables a) \<subseteq> var_name ` set (bound_variables b) \<and>
     used' = used \<union> (\<Union>a \<in> set as. assembly_variables a)"
  by (induction as arbitrary: used) (auto simp: use_assembly_iff res_simps)

section \<open>The registry\<close>

definition registry_ok :: "wikimyei_registry \<Rightarrow> bool" where
  "registry_ok r \<longleftrightarrow> list_all assembly_ok (registered r) \<and> distinct (map component_assembly_id (registered r))"

interpretation registry_lookup: keyed_lookup registered component_assembly_id
  "\<lambda>r cid. case require_component r cid of Inr a \<Rightarrow> Some a | Inl _ \<Rightarrow> None" registry_ok
  by unfold_locales
    (auto simp: require_component_def registry_ok_def find_distinct_key dest: find_Some_D
      split: option.splits)

lemma registry_add_iff:
  "registry_add a r = Inr r' \<longleftrightarrow> assembly_ok a \<and>
     component_assembly_id a \<notin> component_assembly_id ` set (registered r) \<and>
     r' = r\<lparr>registered := registered r @ [a]\<rparr>"
proof -
  have "list_ex (\<lambda>e. component_assembly_id e = component_assembly_id a) (registered r) \<longleftrightarrow>
      component_assembly_id a \<in> component_assembly_id ` set (registered r)"
    unfolding list_ex_iff image_iff by metis
  then show ?thesis by (auto simp: registry_add_def res_simps validate_assembly_iff)
qed

lemma registry_add_ok:
  "registry_ok r \<Longrightarrow> registry_add a r = Inr r' \<Longrightarrow> registry_ok r' \<and> registered r' = registered r @ [a]"
  by (auto simp: registry_add_iff registry_ok_def)

lemma registry_fold_ok:
  "registry_ok r \<Longrightarrow> fold_res registry_add as r = Inr r' \<Longrightarrow> registered r' = registered r @ as \<and> registry_ok r'"
proof (induction as arbitrary: r)
  case (Cons a as)
  then obtain u where "registry_add a r = Inr u" "fold_res registry_add as u = Inr r'"
    by (auto simp: rbind_Inr_iff)
  with Cons.IH [of u] registry_add_ok [OF Cons.prems(1)] show ?case by auto
qed simp

lemma fingerprints_fold:
  "foldl (\<lambda>m a. case m (component_assembly_id a) of Some _ \<Rightarrow> m
       | None \<Rightarrow> m(component_assembly_id a \<mapsto> assembly_fingerprint a)) m as cid =
     (case m cid of Some f \<Rightarrow> Some f
      | None \<Rightarrow> map_option assembly_fingerprint (List.find (\<lambda>a. component_assembly_id a = cid) as))"
  by (induction as arbitrary: m) (auto split: option.splits)

section \<open>Properties\<close>

definition example_binding :: dock_binding where
  "example_binding = \<lparr>binding_id = ''b'', bound_variables = [make_static_i64_variable ''N'' ''graph'' 3,
     make_runtime_variable ''B'' ''batch''], binding_constraints = []\<rparr>"

lemma example_binding_ok: "binding_ok example_binding"
  by (simp add: example_binding_def binding_ok_def variable_ok_def unique_variables_def
      make_static_i64_variable_def make_runtime_variable_def)

text \<open>
  C33: a binding passes the analysis against the active assemblies exactly when the binding and
  every assembly are valid and every variable of every dock is bound; the report then warns
  about exactly the bound variables no dock uses, in their order.
\<close>

theorem analyze_binding_correct:
  "analyze_dock_binding_against_assemblies b as = Inr ws \<longleftrightarrow>
     binding_ok b \<and> as \<noteq> [] \<and> list_all assembly_ok as \<and>
     (\<Union>a \<in> set as. \<Union>d \<in> set (docks a). set (dock_variables d)) \<subseteq> var_name ` set (bound_variables b) \<and>
     ws = map unused_warning (filter
       (\<lambda>v. var_name v \<notin> (\<Union>a \<in> set as. \<Union>d \<in> set (docks a). set (dock_variables d))) (bound_variables b))"
  by (auto simp: analyze_dock_binding_against_assemblies_def validate_binding_iff use_assemblies_iff
      assembly_variables_def res_simps)

text \<open>
  In a valid binding every variable is bound exactly one way: a bound name satisfies either
  the static or the runtime requirement, never both, and the value handed out is the one bound.
\<close>

theorem binding_static_or_runtime:
  assumes "validate_dock_binding b = Inr ()" "v \<in> set (bound_variables b)"
  shows "(case i64_value v of
      Some i \<Rightarrow> require_static_i64_binding b (var_name v) = Inr i \<and>
        require_runtime_binding b (var_name v) label \<noteq> Inr ()
    | None \<Rightarrow> (\<forall>i. require_static_i64_binding b (var_name v) \<noteq> Inr i) \<and>
        require_runtime_binding b (var_name v) label = Inr ())"
proof -
  have ok: "binding_ok b" using assms(1) by (simp add: validate_binding_iff)
  then have v: "variable_ok v" using assms(2) by (simp add: binding_ok_def list_all_iff)
  have "find_dock_binding_variable b (var_name v) = Some v"
    using ok assms(2) by (simp add: binding_lookup.lookup_item binding_ok_def)
  with v show ?thesis
    by (cases "var_scope v")
      (auto simp: require_static_i64_binding_def require_runtime_binding_def variable_ok_def
        split: option.splits)
qed

theorem binding_static_or_runtime_witness:
  "require_static_i64_binding example_binding ''N'' = Inr 3 \<and>
   require_runtime_binding example_binding ''N'' ''batch'' \<noteq> Inr ()"
proof -
  have v: "validate_dock_binding example_binding = Inr ()"
    by (simp add: validate_binding_iff example_binding_ok)
  have m: "make_static_i64_variable ''N'' ''graph'' 3 \<in> set (bound_variables example_binding)"
    by (simp add: example_binding_def)
  show ?thesis
    using binding_static_or_runtime [OF v m, of "''batch''"] by (simp add: make_static_i64_variable_def)
qed

text \<open>
  From any registry built by adding assemblies to the empty one, every assembly it holds is
  valid, its identifier is unique, it is returned under that identifier and its fingerprint is
  listed under it; nothing else is listed.
\<close>

theorem registry_built_by_adding:
  assumes "fold_res registry_add as \<lparr>registered = []\<rparr> = Inr r"
  shows "registered r = as \<and> registry_ok r \<and>
    (require_component r cid = Inr a \<longleftrightarrow> a \<in> set as \<and> component_assembly_id a = cid) \<and>
    component_fingerprints r cid =
      (case require_component r cid of Inr a \<Rightarrow> Some (assembly_fingerprint a) | Inl _ \<Rightarrow> None)"
proof -
  have r: "registered r = as" "registry_ok r"
    using registry_fold_ok [OF _ assms] by (auto simp: registry_ok_def [of "\<lparr>registered = []\<rparr>"])
  have "require_component r cid = Inr a \<longleftrightarrow> a \<in> set as \<and> component_assembly_id a = cid"
    using registry_lookup.lookup_iff [OF r(2), of cid a] r(1) by (auto split: sum.splits)
  moreover have "component_fingerprints r cid =
      (case require_component r cid of Inr a \<Rightarrow> Some (assembly_fingerprint a) | Inl _ \<Rightarrow> None)"
    by (simp add: component_fingerprints_def fingerprints_fold require_component_def split: option.splits)
  ultimately show ?thesis using r by blast
qed

theorem registry_built_by_adding_witness:
  "\<exists>r. fold_res registry_add [example_assembly ''a'' [example_dock ''in'' Consumes NodeLiftedState []]]
     \<lparr>registered = []\<rparr> = Inr r \<and> require_component r ''a'' =
       Inr (example_assembly ''a'' [example_dock ''in'' Consumes NodeLiftedState []])"
proof -
  let ?a = "example_assembly ''a'' [example_dock ''in'' Consumes NodeLiftedState []]"
  have "fold_res registry_add [?a] \<lparr>registered = []\<rparr> = Inr \<lparr>registered = [?a]\<rparr>"
    by (simp add: rbind_Inr_iff registry_add_iff assembly_ok_def dock_ok_def example_assembly_def example_dock_def)
  then show ?thesis
    using registry_built_by_adding [of "[?a]" "\<lparr>registered = [?a]\<rparr>" "''a''" ?a]
    by (auto simp: example_assembly_def)
qed

text \<open>
  The fingerprint of a binding exists exactly for valid bindings, and two valid bindings
  whose canonical texts differ in one character have different fingerprints and tokens' digests.
\<close>

theorem binding_fingerprint_detects_change:
  assumes "binding_ok b" "binding_ok c"
    and "canonical_dock_binding_text b = pre @ x # post" "canonical_dock_binding_text c = pre @ y # post"
  shows "dock_binding_fingerprint b = dock_binding_fingerprint c \<longleftrightarrow> x = y"
proof -
  have "validate_dock_binding b = Inr ()" "validate_dock_binding c = Inr ()"
    using assms(1,2) by (simp_all add: validate_binding_iff)
  then show ?thesis
    by (simp only: dock_binding_fingerprint_def rbind.simps sum.inject hash_hex_inject assms(3,4)
        mix_hash_string_one_char)
qed

theorem binding_fingerprint_detects_change_witness:
  "dock_binding_fingerprint (example_binding\<lparr>binding_id := ''a''\<rparr>) \<noteq>
    dock_binding_fingerprint (example_binding\<lparr>binding_id := ''c''\<rparr>)"
proof -
  define pre where "pre = ''binding_id=''"
  define post where "post = newline # concat (map variable_line (bound_variables example_binding))"
  have ok: "binding_ok (example_binding\<lparr>binding_id := [x]\<rparr>)" for x
    using example_binding_ok by (simp add: binding_ok_def unique_variables_def)
  have t: "canonical_dock_binding_text (example_binding\<lparr>binding_id := [x]\<rparr>) = pre @ x # post" for x
    by (simp add: canonical_dock_binding_text_def pre_def post_def) (simp add: example_binding_def)
  show ?thesis by (subst binding_fingerprint_detects_change [OF ok ok t t]) simp
qed

text \<open>
  The chain of assemblies that carries node values is accepted exactly when the three are
  valid and each consumer finds its producer in the same coordinate space: the lifted state goes
  from the lifting to the encoder, the representation from the encoder to the density network,
  the lifted future to the density network, which produces the future distribution.
\<close>

theorem node_value_chain_correct:
  "validate_node_value_assembly_chain nodelift vicreg mdn = Inr () \<longleftrightarrow>
     assembly_ok nodelift \<and> assembly_ok vicreg \<and> assembly_ok mdn \<and>
     docks_linked nodelift NodeLiftedState vicreg NodeLiftedState \<and>
     docks_linked vicreg NodeRepresentation mdn NodeRepresentation \<and>
     docks_linked nodelift FutureNodeLiftedState mdn FutureNodeLiftedState \<and>
     (\<exists>d \<in> set (docks mdn). dock_direction_of d = Produces \<and> dock_domain_of d = FutureNodeDistribution)"
  by (auto simp: validate_node_value_assembly_chain_def res_simps validate_assembly_iff
      require_compatible_iff require_dock_iff find_dock_def find_None_iff)

end
