(* ===== verification/Json_Text.thy ===== *)
theory Json_Text
  imports Prelude Floating_Text "HOL-Library.Word"
begin

text \<open>
  What the two JSON readers of \<open>src/include/piaabo/parse/json/json_parsing.h\<close> and
  \<open>src/impl/piaabo/parse/json/json_parsing.cpp\<close> share: hexadecimal escapes, surrogate pairs and UTF-8. A
  reader's cursor is the text behind it; its index is the length of the input minus that of this text.
  Code units and code points are words of their width, bytes are characters.
\<close>

unbundle bit_operations_syntax

type_synonym u16 = "16 word"
type_synonym u32 = "32 word"

section \<open>Runs\<close>

text \<open>
  \<open>Fatal\<close> is the message that \<open>log_secure_fatal\<close> logs before it throws; \<open>Done\<close> carries a value and the
  text behind the cursor; \<open>Out_Of_Fuel\<close> is a recursion that used up its fuel.
\<close>

datatype 'a json_run = Out_Of_Fuel | Fatal string | Done 'a string

fun json_bind :: "'a json_run \<Rightarrow> ('a \<Rightarrow> string \<Rightarrow> 'b json_run) \<Rightarrow> 'b json_run" where
  "json_bind Out_Of_Fuel f = Out_Of_Fuel"
| "json_bind (Fatal m) f = Fatal m"
| "json_bind (Done x r) f = f x r"

abbreviation skip_space :: "string \<Rightarrow> string" where
  "skip_space \<equiv> dropWhile is_space"

section \<open>Escapes\<close>

definition simple_escape :: "char \<Rightarrow> char option" where
  "simple_escape c = map_of
     [(CHR 0x22, CHR 0x22), (CHR 0x5C, CHR 0x5C), (CHR ''/'', CHR ''/''), (CHR ''b'', CHR 0x08), (CHR ''f'', CHR 0x0C),
      (CHR ''n'', CHR 0x0A), (CHR ''r'', CHR 0x0D), (CHR ''t'', CHR 0x09)] c"

definition is_hex_digit :: "char \<Rightarrow> bool" where
  "is_hex_digit ch \<longleftrightarrow> (48 \<le> chr_code ch \<and> chr_code ch \<le> 57) \<or> (97 \<le> chr_code ch \<and> chr_code ch \<le> 102) \<or>
     (65 \<le> chr_code ch \<and> chr_code ch \<le> 70)"

definition hex_value :: "char \<Rightarrow> nat" where
  "hex_value ch =
     (if 48 \<le> chr_code ch \<and> chr_code ch \<le> 57 then chr_code ch - 48
      else if 97 \<le> chr_code ch \<and> chr_code ch \<le> 102 then 10 + (chr_code ch - 97)
      else 10 + (chr_code ch - 65))"

definition hex4_code_unit :: "string \<Rightarrow> (u16 \<times> string) option" where
  "hex4_code_unit s =
     (if length s < 4 \<or> \<not> list_all is_hex_digit (take 4 s) then None
      else Some (foldl (\<lambda>code_unit ch. push_bit 4 code_unit OR of_nat (hex_value ch)) 0 (take 4 s), drop 4 s))"

definition unicode_code_point :: "string \<Rightarrow> string + u32 \<times> string" where
  "unicode_code_point s =
     (case hex4_code_unit s of
        None \<Rightarrow> Inl ''Invalid Unicode escape sequence''
      | Some (first, r) \<Rightarrow>
          if 0xD800 \<le> first \<and> first \<le> 0xDBFF then
            (if length r < 2 \<or> r ! 0 \<noteq> CHR 0x5C \<or> r ! 1 \<noteq> CHR ''u'' then
               Inl ''Missing low surrogate pair in Unicode escape''
             else case hex4_code_unit (drop 2 r) of
                 None \<Rightarrow> Inl ''Invalid Unicode escape sequence''
               | Some (second, r') \<Rightarrow>
                   if second < 0xDC00 \<or> 0xDFFF < second then Inl ''Invalid low surrogate in Unicode escape''
                   else Inr (0x10000 + (push_bit 10 (ucast first - 0xD800) OR (ucast second - 0xDC00)), r'))
          else if 0xDC00 \<le> first \<and> first \<le> 0xDFFF then Inl ''Unexpected low surrogate in Unicode escape''
          else Inr (ucast first, r))"

section \<open>UTF-8\<close>

definition byte_of :: "u32 \<Rightarrow> char" where
  "byte_of w = char_of (unat w)"

definition append_utf8_code_point :: "u32 \<Rightarrow> string \<Rightarrow> string option" where
  "append_utf8_code_point code_point out =
     (if code_point \<le> 0x7F then Some (out @ [byte_of code_point])
      else if code_point \<le> 0x7FF then
        Some (out @ [byte_of (0xC0 OR (drop_bit 6 code_point AND 0x1F)), byte_of (0x80 OR (code_point AND 0x3F))])
      else if code_point \<le> 0xFFFF then
        Some (out @ [byte_of (0xE0 OR (drop_bit 12 code_point AND 0x0F)), byte_of (0x80 OR (drop_bit 6 code_point AND 0x3F)),
          byte_of (0x80 OR (code_point AND 0x3F))])
      else if code_point \<le> 0x10FFFF then
        Some (out @ [byte_of (0xF0 OR (drop_bit 18 code_point AND 0x07)), byte_of (0x80 OR (drop_bit 12 code_point AND 0x3F)),
          byte_of (0x80 OR (drop_bit 6 code_point AND 0x3F)), byte_of (0x80 OR (code_point AND 0x3F))])
      else None)"

section \<open>Facts\<close>

lemma hex4_code_unit_rest: "hex4_code_unit s = Some (w, r) \<Longrightarrow> length s = length r + 4"
  by (auto simp: hex4_code_unit_def split: if_splits)

lemma unicode_code_point_rest: "unicode_code_point s = Inr (cp, r) \<Longrightarrow> length r < length s"
  by (auto simp: unicode_code_point_def dest!: hex4_code_unit_rest split: option.splits if_splits)

lemma take_bit_less: "(w :: u32) < 2 ^ n \<Longrightarrow> take_bit n w = w"
  by (simp add: take_bit_eq_mask less_mask_eq)

lemma bit_less: "(w :: u32) < 2 ^ n \<Longrightarrow> bit w m \<Longrightarrow> m < n"
  using take_bit_less [of w n] by (metis bit_take_bit_iff)

lemma unat_ucast_16: "unat (ucast (w :: u16) :: u32) = unat w"
proof -
  have "unat w < 2 ^ 16" using unsigned_less [of w, where 'a = nat] by simp
  then show ?thesis by (simp add: unsigned_ucast_eq take_bit_nat_eq_self)
qed

lemma surrogate_pair:
  fixes a b :: u32
  assumes "a < 0x400" "b < 0x400"
  shows "0x10000 \<le> 0x10000 + (push_bit 10 a OR b) \<and> 0x10000 + (push_bit 10 a OR b) \<le> 0x10FFFF"
proof -
  have bits: "bit a m \<Longrightarrow> m < 10" "bit b m \<Longrightarrow> m < 10" for m
    using assms bit_less [of a 10] bit_less [of b 10] by simp_all
  have "take_bit 20 (push_bit 10 a OR b) = push_bit 10 a OR b"
  proof (rule bit_eqI)
    fix n
    show "bit (take_bit 20 (push_bit 10 a OR b)) n \<longleftrightarrow> bit (push_bit 10 a OR b) n"
      using bits(1) [of "n - 10"] bits(2) [of n] by (auto simp: bit_simps)
  qed
  then have "push_bit 10 a OR b < 2 ^ 20"
    using and_mask_less' [of 20 "push_bit 10 a OR b"] by (simp add: take_bit_eq_mask)
  then have "unat (push_bit 10 a OR b) < 2 ^ 20" by (simp add: word_less_nat_alt)
  then show ?thesis by (simp add: word_le_nat_alt unat_word_ariths)
qed

lemma surrogate_offset:
  assumes "base \<le> (w :: u16)" "w \<le> base + 0x3FF" "unat base + 0x3FF < 2 ^ 16"
  shows "(ucast w :: u32) - ucast base < 0x400"
proof -
  have "unat (base + 0x3FF) = unat base + 0x3FF" using assms(3) by (simp add: unat_word_ariths)
  then have n: "unat base \<le> unat w" "unat w \<le> unat base + 0x3FF" using assms(1,2) by (simp_all add: word_le_nat_alt)
  then have "(ucast base :: u32) \<le> ucast w" by (simp add: word_le_nat_alt unat_ucast_16)
  then have "unat ((ucast w :: u32) - ucast base) = unat w - unat base"
    by (simp add: unat_sub unat_ucast_16 word_le_nat_alt)
  with n show ?thesis by (simp add: word_less_nat_alt)
qed

text \<open>An escape is a Unicode scalar value: at most 10FFFF and no surrogate.\<close>

lemma unicode_code_point_scalar:
  assumes "unicode_code_point s = Inr (cp, r)"
  shows "cp \<le> 0x10FFFF \<and> \<not> (0xD800 \<le> cp \<and> cp \<le> 0xDFFF)"
proof -
  obtain first r' where h: "hex4_code_unit s = Some (first, r')"
    using assms by (auto simp: unicode_code_point_def split: option.splits)
  show ?thesis
  proof (cases "0xD800 \<le> first \<and> first \<le> 0xDBFF")
    case True
    then obtain second r'' where "hex4_code_unit (drop 2 r') = Some (second, r'')"
      and cp: "cp = 0x10000 + (push_bit 10 (ucast first - 0xD800) OR (ucast second - 0xDC00))"
      and second: "\<not> (second < 0xDC00 \<or> 0xDFFF < second)"
      using assms h by (auto simp: unicode_code_point_def split: option.splits if_splits)
    have "(ucast first :: u32) - 0xD800 < 0x400" using surrogate_offset [of "0xD800" first] True by simp
    moreover have "(ucast second :: u32) - 0xDC00 < 0x400" using surrogate_offset [of "0xDC00" second] second by (simp add: not_less)
    ultimately have "0x10000 \<le> cp \<and> cp \<le> 0x10FFFF" using surrogate_pair cp by blast
    then show ?thesis by (auto simp: word_le_nat_alt)
  next
    case False
    then have "cp = ucast first" "\<not> (0xDC00 \<le> first \<and> first \<le> 0xDFFF)"
      using assms h by (auto simp: unicode_code_point_def split: if_splits)
    with False unsigned_less [of first, where 'a = nat] show ?thesis by (auto simp: word_le_nat_alt unat_ucast_16)
  qed
qed

text \<open>A decoder of UTF-8, to state what the encoder does.\<close>

definition byte_word :: "char \<Rightarrow> u32" where
  "byte_word c = of_nat (chr_code c)"

definition low_bits :: "u32 \<Rightarrow> char \<Rightarrow> u32" where
  "low_bits m c = byte_word c AND m"

fun utf8_decode :: "string \<Rightarrow> (u32 \<times> string) option" where
  "utf8_decode (a # r) =
     (if byte_word a < 0x80 then Some (byte_word a, r)
      else if byte_word a < 0xE0 then (case r of
          b # r \<Rightarrow> Some (push_bit 6 (low_bits 0x1F a) OR low_bits 0x3F b, r) | _ \<Rightarrow> None)
      else if byte_word a < 0xF0 then (case r of
          b # c # r \<Rightarrow> Some (push_bit 12 (low_bits 0x0F a) OR push_bit 6 (low_bits 0x3F b) OR low_bits 0x3F c, r)
        | _ \<Rightarrow> None)
      else (case r of
          b # c # d # r \<Rightarrow> Some (push_bit 18 (low_bits 0x07 a) OR push_bit 12 (low_bits 0x3F b) OR
            push_bit 6 (low_bits 0x3F c) OR low_bits 0x3F d, r)
        | _ \<Rightarrow> None))"
| "utf8_decode [] = None"

lemma byte_word_byte_of: "w < 0x100 \<Longrightarrow> byte_word (byte_of w) = w"
proof -
  assume "w < 0x100"
  then have "unat w < 256" by (simp add: word_less_nat_alt)
  then show ?thesis by (simp add: byte_word_def byte_of_def chr_code_def)
qed

lemma and_masks:
  "(w :: u32) AND 0x1F = take_bit 5 w" "w AND 0x3F = take_bit 6 w" "w AND 0x0F = take_bit 4 w" "w AND 0x07 = take_bit 3 w"
  by (simp_all add: take_bit_eq_mask mask_eq_exp_minus_1)

lemma or_mask_add:
  fixes c m w :: u32
  assumes "c AND m = 0" "unat c + unat m < 0x100"
  shows "c OR (w AND m) = c + (w AND m)" "c \<le> c OR (w AND m)" "c OR (w AND m) \<le> c + m"
    "(c OR (w AND m)) AND m = w AND m" "c OR (w AND m) < 0x100"
proof -
  have "c AND (w AND m) = (c AND m) AND w" by (simp add: ac_simps)
  with assms(1) have zero: "c AND (w AND m) = 0" by simp
  then show add: "c OR (w AND m) = c + (w AND m)" by (simp add: disjunctive_add_eq_or)
  have le: "unat (w AND m) \<le> unat m" by (simp add: word_and_le1 flip: word_le_nat_alt)
  with assms(2) show "c \<le> c OR (w AND m)" "c OR (w AND m) \<le> c + m" "c OR (w AND m) < 0x100"
    by (simp_all add: add word_le_nat_alt word_less_nat_alt unat_word_ariths)
  show "(c OR (w AND m)) AND m = w AND m"
    using assms(1) by (simp add: bit.conj_disj_distrib2)
qed

lemma trail_byte: "low_bits 0x3F (byte_of (0x80 OR (w AND 0x3F))) = w AND 0x3F"
  using or_mask_add [of "0x80" "0x3F" w] by (simp add: low_bits_def byte_word_byte_of)

lemma lead_byte_2:
  fixes w :: u32
  defines "b \<equiv> byte_of (0xC0 OR (w AND 0x1F))"
  shows "low_bits 0x1F b = w AND 0x1F" "\<not> byte_word b < 0x80" "byte_word b < 0xE0"
  using or_mask_add [of "0xC0" "0x1F" w]
  by (auto simp: b_def low_bits_def byte_word_byte_of word_le_nat_alt word_less_nat_alt)

lemma lead_byte_3:
  fixes w :: u32
  defines "b \<equiv> byte_of (0xE0 OR (w AND 0x0F))"
  shows "low_bits 0x0F b = w AND 0x0F" "\<not> byte_word b < 0x80" "\<not> byte_word b < 0xE0" "byte_word b < 0xF0"
  using or_mask_add [of "0xE0" "0x0F" w]
  by (auto simp: b_def low_bits_def byte_word_byte_of word_le_nat_alt word_less_nat_alt)

lemma lead_byte_4:
  fixes w :: u32
  defines "b \<equiv> byte_of (0xF0 OR (w AND 0x07))"
  shows "low_bits 0x07 b = w AND 0x07" "\<not> byte_word b < 0x80" "\<not> byte_word b < 0xE0" "\<not> byte_word b < 0xF0"
  using or_mask_add [of "0xF0" "0x07" w]
  by (auto simp: b_def low_bits_def byte_word_byte_of word_le_nat_alt word_less_nat_alt)

lemma bits_below:
  assumes "(w :: u32) < 2 ^ k" "\<And>n. (bit w n \<Longrightarrow> n < k) \<Longrightarrow> bit a n \<longleftrightarrow> bit w n"
  shows "a = w"
  using assms bit_less [of w k] by (intro bit_eqI) simp

lemma code_point_bits:
  fixes w :: u32
  shows "w < 2 ^ 11 \<Longrightarrow> push_bit 6 (drop_bit 6 w AND 0x1F) OR (w AND 0x3F) = w"
    "w < 2 ^ 16 \<Longrightarrow> push_bit 12 (drop_bit 12 w AND 0x0F) OR push_bit 6 (drop_bit 6 w AND 0x3F) OR (w AND 0x3F) = w"
    "w < 2 ^ 21 \<Longrightarrow> push_bit 18 (drop_bit 18 w AND 0x07) OR push_bit 12 (drop_bit 12 w AND 0x3F) OR
      push_bit 6 (drop_bit 6 w AND 0x3F) OR (w AND 0x3F) = w"
  unfolding and_masks
  subgoal by (rule bits_below [of w 11]) (auto simp: bit_simps)
  subgoal
    apply (rule bits_below [of w 16])
     apply simp
    subgoal for n by (cases "12 \<le> n") (auto simp: bit_simps)
    done
  subgoal
    apply (rule bits_below [of w 21])
     apply simp
    subgoal for n by (cases "18 \<le> n"; cases "12 \<le> n") (auto simp: bit_simps)
    done
  done

lemma utf8_decode_encode:
  assumes "append_utf8_code_point cp out = Some bs"
  obtains cs where "bs = out @ cs" "\<And>r. utf8_decode (cs @ r) = Some (cp, r)"
proof -
  consider "cp \<le> 0x7F" | "\<not> cp \<le> 0x7F" "cp \<le> 0x7FF" | "\<not> cp \<le> 0x7F" "\<not> cp \<le> 0x7FF" "cp \<le> 0xFFFF"
    | "\<not> cp \<le> 0x7F" "\<not> cp \<le> 0x7FF" "\<not> cp \<le> 0xFFFF" "cp \<le> 0x10FFFF"
    using assms by (auto simp: append_utf8_code_point_def split: if_splits)
  then show thesis
  proof cases
    case 1
    then have "cp < 0x100" by (simp add: word_le_nat_alt word_less_nat_alt)
    moreover have "cp < 0x80" using 1 by (simp add: word_le_nat_alt word_less_nat_alt)
    ultimately show thesis using 1 assms that [of "[byte_of cp]"]
      by (auto simp: append_utf8_code_point_def byte_word_byte_of)
  next
    case 2
    then have "cp < 2 ^ 11" by (simp add: word_le_nat_alt word_less_nat_alt)
    from code_point_bits(1) [OF this] 2 assms show thesis
      by (intro that [of "[byte_of (0xC0 OR (drop_bit 6 cp AND 0x1F)), byte_of (0x80 OR (cp AND 0x3F))]"])
        (simp_all add: append_utf8_code_point_def lead_byte_2 trail_byte)
  next
    case 3
    then have "cp < 2 ^ 16" by (simp add: word_le_nat_alt word_less_nat_alt)
    from code_point_bits(2) [OF this] 3 assms show thesis
      by (intro that [of "[byte_of (0xE0 OR (drop_bit 12 cp AND 0x0F)), byte_of (0x80 OR (drop_bit 6 cp AND 0x3F)),
          byte_of (0x80 OR (cp AND 0x3F))]"])
        (auto simp: append_utf8_code_point_def lead_byte_3 trail_byte)
  next
    case 4
    then have "cp < 2 ^ 21" by (simp add: word_le_nat_alt word_less_nat_alt)
    from code_point_bits(3) [OF this] 4 assms show thesis
      by (intro that [of "[byte_of (0xF0 OR (drop_bit 18 cp AND 0x07)), byte_of (0x80 OR (drop_bit 12 cp AND 0x3F)),
          byte_of (0x80 OR (drop_bit 6 cp AND 0x3F)), byte_of (0x80 OR (cp AND 0x3F))]"])
        (auto simp: append_utf8_code_point_def lead_byte_4 trail_byte)
  qed
qed

text \<open>
  C40: the code point of an escape that is accepted is a Unicode scalar value, so it always has a UTF-8
  form; appending it changes nothing before it, and decoding what was appended gives the code point back.
\<close>

theorem escape_utf8_round_trip:
  assumes "unicode_code_point s = Inr (cp, r)"
  shows "cp \<le> 0x10FFFF \<and> \<not> (0xD800 \<le> cp \<and> cp \<le> 0xDFFF) \<and> length r < length s \<and>
    (\<exists>bs. append_utf8_code_point cp out = Some (out @ bs) \<and> utf8_decode (bs @ rest) = Some (cp, rest))"
proof -
  have "cp \<le> 0x10FFFF" using unicode_code_point_scalar [OF assms] by simp
  then obtain bs where a: "append_utf8_code_point cp out = Some bs"
    by (cases "append_utf8_code_point cp out") (auto simp: append_utf8_code_point_def split: if_splits)
  then obtain cs where "bs = out @ cs" "\<And>r. utf8_decode (cs @ r) = Some (cp, r)"
    by (elim utf8_decode_encode) blast
  with a unicode_code_point_scalar [OF assms] unicode_code_point_rest [OF assms] show ?thesis by blast
qed

text \<open>The pair \<open>D83D DE00\<close> is the code point \<open>1F600\<close>, four bytes long.\<close>

theorem escape_utf8_round_trip_witness:
  "unicode_code_point (''d83d'' @ CHR 0x5C # ''ude00'') = Inr (0x1F600, []) \<and>
   append_utf8_code_point 0x1F600 ''x'' = Some [CHR ''x'', CHR 0xF0, CHR 0x9F, CHR 0x98, CHR 0x80] \<and>
   (\<exists>bs. append_utf8_code_point 0x1F600 ''x'' = Some (''x'' @ bs) \<and> utf8_decode (bs @ ''y'') = Some (0x1F600, ''y''))"
proof -
  have e: "unicode_code_point (''d83d'' @ CHR 0x5C # ''ude00'') = Inr (0x1F600, [])" by code_simp
  moreover have "append_utf8_code_point 0x1F600 ''x'' = Some [CHR ''x'', CHR 0xF0, CHR 0x9F, CHR 0x98, CHR 0x80]"
    by code_simp
  ultimately show ?thesis using escape_utf8_round_trip [OF e, of "''x''" "''y''"] by blast
qed

end
