(* ===== verification/Json_Parser.thy ===== *)
theory Json_Parser
  imports Json_Text "HOL-Library.List_Lexorder" "HOL-Library.Char_ord"
begin

text \<open>
  \<open>JsonParser\<close> of \<open>src/include/piaabo/parse/json/json_parsing.h\<close>: a recursive descent parser that logs and
  throws at the first error. \<open>len\<close> is the length of the input, which the messages need to name
  positions. \<open>parseObject\<close> and \<open>parseArray\<close> take the parser of values they call as an argument; fuel bounds
  the depth of the values and the rounds of the loops, and one unit more than the length of the input is
  enough.
\<close>

section \<open>Values\<close>

text \<open>\<open>std::map\<close> is the list of its entries in the order of the keys.\<close>

datatype json_value =
    JObject "(string \<times> json_value) list"
  | JArray "json_value list"
  | JString string
  | JNumber c_float
  | JBool bool
  | JNull

fun insert_or_assign :: "'k::linorder \<Rightarrow> 'v \<Rightarrow> ('k \<times> 'v) list \<Rightarrow> ('k \<times> 'v) list" where
  "insert_or_assign k v [] = [(k, v)]"
| "insert_or_assign k v ((k', v') # m) =
     (if k = k' then (k, v) # m else if k < k' then (k, v) # (k', v') # m else (k', v') # insert_or_assign k v m)"

section \<open>Characters\<close>

definition peek :: "string \<Rightarrow> char" where
  "peek s = (case s of [] \<Rightarrow> nul | c # r \<Rightarrow> c)"

definition advance :: "string \<Rightarrow> char \<times> string" where
  "advance s = (case s of [] \<Rightarrow> (nul, []) | c # r \<Rightarrow> (c, r))"

definition starts_with_literal :: "string \<Rightarrow> string \<Rightarrow> bool" where
  "starts_with_literal literal s \<longleftrightarrow> length literal \<le> length s \<and> take (length literal) s = literal"

text \<open>\<open>idx\<close> plus an offset, in a message.\<close>

definition fatal_at :: "nat \<Rightarrow> string \<Rightarrow> string \<Rightarrow> 'a json_run" where
  "fatal_at len msg s = Fatal (msg @ '' at position '' @ show_nat (len - length s))"

definition expect :: "nat \<Rightarrow> char \<Rightarrow> string \<Rightarrow> unit json_run" where
  "expect len ch s =
     (let (c, r) = advance s in
      if c \<noteq> ch then Fatal (''Expected '' @ CHR 0x27 # ch # CHR 0x27 # '' at position '' @ show_nat (len - length r - 1))
      else Done () r)"

section \<open>Strings\<close>

function string_loop :: "nat \<Rightarrow> string \<Rightarrow> string \<Rightarrow> string json_run" where
  "string_loop len s result =
     (case s of
        [] \<Rightarrow> Fatal ''Unterminated JSON string''
      | ch # r \<Rightarrow>
          if ch = CHR 0x5C then
            (case r of
               [] \<Rightarrow> Fatal ''Invalid escape sequence''
             | next_char # r \<Rightarrow>
                 if next_char = CHR ''u'' then
                   (case unicode_code_point r of
                      Inl m \<Rightarrow> Fatal m
                    | Inr (code_point, r) \<Rightarrow>
                        (case append_utf8_code_point code_point [] of
                           None \<Rightarrow> Fatal ''Invalid Unicode code point''
                         | Some utf8_char \<Rightarrow> string_loop len r (result @ utf8_char)))
                 else (case simple_escape next_char of
                     Some c \<Rightarrow> string_loop len r (result @ [c])
                   | None \<Rightarrow> Fatal (''Invalid escape character '' @ CHR 0x27 # CHR 0x5C # next_char # CHR 0x27 #
                       '' at position '' @ show_nat (len - length r - 1))))
          else if ch = CHR 0x22 then Done result r
          else if chr_code ch < 0x20 then
            Fatal (''Invalid control character in string at position '' @ show_nat (len - length r - 1))
          else string_loop len r (result @ [ch]))"
  by pat_completeness auto
termination
  by (relation "measure (\<lambda>(len, s, result). length s)") (auto dest!: unicode_code_point_rest)

declare string_loop.simps [simp del]

definition parse_string :: "nat \<Rightarrow> string \<Rightarrow> string json_run" where
  "parse_string len s = json_bind (expect len (CHR 0x22) s) (\<lambda>_ r. string_loop len r [])"

section \<open>Numbers\<close>

definition number_integer :: "nat \<Rightarrow> string \<Rightarrow> unit json_run" where
  "number_integer len s =
     (if peek s = CHR ''0'' then
        (if is_digit (peek (tl s)) then fatal_at len ''Invalid number with leading zeros'' (tl s) else Done () (tl s))
      else if is_digit (peek s) then Done () (dropWhile is_digit s)
      else fatal_at len ''Invalid number'' s)"

definition number_fraction :: "nat \<Rightarrow> string \<Rightarrow> unit json_run" where
  "number_fraction len s =
     (if peek s = CHR ''.'' then
        (if \<not> is_digit (peek (tl s)) then fatal_at len ''Invalid fractional part in number'' (tl s)
         else Done () (dropWhile is_digit (tl s)))
      else Done () s)"

definition number_exponent :: "nat \<Rightarrow> string \<Rightarrow> unit json_run" where
  "number_exponent len s =
     (if peek s = CHR ''e'' \<or> peek s = CHR ''E'' then
        let r = (if peek (tl s) = CHR ''+'' \<or> peek (tl s) = CHR ''-'' then tl (tl s) else tl s) in
        (if \<not> is_digit (peek r) then fatal_at len ''Invalid exponent in number'' r
         else Done () (dropWhile is_digit r))
      else Done () s)"

text \<open>
  \<open>std::strtod\<close> reads on behind a zero when a hexadecimal number starts there; then it does not stop at
  the end of the number, which is an error.
\<close>

definition hexadecimal_follows :: "string \<Rightarrow> string \<Rightarrow> bool" where
  "hexadecimal_follows num r \<longleftrightarrow> (num = ''0'' \<or> num = ''-0'') \<and>
     (case r of x # c # r \<Rightarrow> (x = CHR ''x'' \<or> x = CHR ''X'') \<and>
          (is_xdigit c \<or> c = CHR ''.'' \<and> (case r of [] \<Rightarrow> False | d # _ \<Rightarrow> is_xdigit d))
      | _ \<Rightarrow> False)"

definition number_value :: "string \<Rightarrow> string \<Rightarrow> c_float json_run" where
  "number_value num r =
     (case (if hexadecimal_follows num r then None else strto_float double_format num) of
        None \<Rightarrow> Fatal (''Invalid number format: '' @ num)
      | Some parsed \<Rightarrow> Done parsed r)"

definition parse_number :: "nat \<Rightarrow> string \<Rightarrow> c_float json_run" where
  "parse_number len s =
     json_bind (number_integer len (if peek s = CHR ''-'' then tl s else s)) (\<lambda>_ r.
     json_bind (number_fraction len r) (\<lambda>_ r.
     json_bind (number_exponent len r) (\<lambda>_ r. number_value (take (length s - length r) s) r)))"

section \<open>The parser\<close>

definition parse_literal :: "nat \<Rightarrow> string \<Rightarrow> json_value json_run" where
  "parse_literal len s =
     (if starts_with_literal ''true'' s then Done (JBool True) (drop 4 s)
      else if starts_with_literal ''false'' s then Done (JBool False) (drop 5 s)
      else if starts_with_literal ''null'' s then Done JNull (drop 4 s)
      else fatal_at len ''Invalid literal'' s)"

type_synonym value_parser = "string \<Rightarrow> json_value json_run"

fun object_loop :: "nat \<Rightarrow> value_parser \<Rightarrow> nat \<Rightarrow> string \<Rightarrow> (string \<times> json_value) list \<Rightarrow> json_value json_run" where
  "object_loop len value 0 s members = Out_Of_Fuel"
| "object_loop len value (Suc n) s members =
     (let s = skip_space s in
      if peek s \<noteq> CHR 0x22 then fatal_at len (''Expected '' @ CHR 0x27 # CHR 0x22 # [CHR 0x27]) s
      else json_bind (parse_string len s) (\<lambda>key r.
        json_bind (expect len (CHR '':'') (skip_space r)) (\<lambda>_ r.
        json_bind (value (skip_space r)) (\<lambda>v r.
          let members = insert_or_assign key v members; r = skip_space r; ch = peek r in
          if ch = CHR '','' then object_loop len value n (snd (advance r)) members
          else if ch = CHR ''}'' then Done (JObject members) (snd (advance r))
          else fatal_at len (''Expected '' @ CHR 0x27 # CHR '','' # CHR 0x27 # '' or '' @ CHR 0x27 # CHR ''}'' # [CHR 0x27]) r))))"

definition parse_object :: "nat \<Rightarrow> value_parser \<Rightarrow> nat \<Rightarrow> string \<Rightarrow> json_value json_run" where
  "parse_object len value n s =
     json_bind (expect len (CHR ''{'') s) (\<lambda>_ r.
       let r = skip_space r in
       if peek r = CHR ''}'' then Done (JObject []) (snd (advance r)) else object_loop len value n r [])"

fun array_loop :: "nat \<Rightarrow> value_parser \<Rightarrow> nat \<Rightarrow> string \<Rightarrow> json_value list \<Rightarrow> json_value json_run" where
  "array_loop len value 0 s elements = Out_Of_Fuel"
| "array_loop len value (Suc n) s elements =
     json_bind (value (skip_space s)) (\<lambda>v r.
       let elements = elements @ [v]; r = skip_space r; ch = peek r in
       if ch = CHR '','' then array_loop len value n (snd (advance r)) elements
       else if ch = CHR '']'' then Done (JArray elements) (snd (advance r))
       else fatal_at len (''Expected '' @ CHR 0x27 # CHR '','' # CHR 0x27 # '' or '' @ CHR 0x27 # CHR '']'' # [CHR 0x27]) r)"

definition parse_array :: "nat \<Rightarrow> value_parser \<Rightarrow> nat \<Rightarrow> string \<Rightarrow> json_value json_run" where
  "parse_array len value n s =
     json_bind (expect len (CHR ''['') s) (\<lambda>_ r.
       let r = skip_space r in
       if peek r = CHR '']'' then Done (JArray []) (snd (advance r)) else array_loop len value n r [])"

fun parse_value :: "nat \<Rightarrow> nat \<Rightarrow> string \<Rightarrow> json_value json_run" where
  "parse_value len 0 s = Out_Of_Fuel"
| "parse_value len (Suc n) s =
     (let s = skip_space s; ch = peek s in
      if ch = CHR ''{'' then parse_object len (parse_value len n) n s
      else if ch = CHR ''['' then parse_array len (parse_value len n) n s
      else if ch = CHR 0x22 then json_bind (parse_string len s) (\<lambda>v r. Done (JString v) r)
      else if ch = CHR ''-'' \<or> is_digit ch then json_bind (parse_number len s) (\<lambda>v r. Done (JNumber v) r)
      else if starts_with_literal ''true'' s \<or> starts_with_literal ''false'' s \<or> starts_with_literal ''null'' s then
        parse_literal len s
      else fatal_at len ''Invalid value'' s)"

definition json_parse :: "string \<Rightarrow> json_value json_run" where
  "json_parse json =
     json_bind (parse_value (length json) (length json + 1) (skip_space json)) (\<lambda>v r.
       let r = skip_space r in
       if r \<noteq> [] then fatal_at (length json) ''Extra characters after parsing JSON'' r else Done v r)"

end
