(* ===== verification/Json_View.thy ===== *)
theory Json_View
  imports Json_Parser
begin

text \<open>
  The scanners of \<open>src/impl/piaabo/parse/json/json_parsing.cpp\<close>, which work on the text itself and answer
  with \<open>false\<close> instead of throwing: the strict validity check, and the search for a string value of a
  top-level object that skips the values in between without parsing them.
\<close>

section \<open>Tokens\<close>

function token_loop :: "string \<Rightarrow> string \<Rightarrow> (string \<times> string) option" where
  "token_loop s out =
     (case s of
        [] \<Rightarrow> None
      | ch # r \<Rightarrow>
          if ch = CHR 0x22 then Some (out, r)
          else if ch = CHR 0x5C then
            (case r of
               [] \<Rightarrow> None
             | next_char # r \<Rightarrow>
                 (case simple_escape next_char of
                    Some c \<Rightarrow> token_loop r (out @ [c])
                  | None \<Rightarrow>
                      if next_char = CHR ''u'' then
                        (case unicode_code_point r of
                           Inl _ \<Rightarrow> None
                         | Inr (code_point, r) \<Rightarrow>
                             token_loop r (case append_utf8_code_point code_point out of None \<Rightarrow> out | Some out \<Rightarrow> out))
                      else None))
          else if chr_code ch < 0x20 then None
          else token_loop r (out @ [ch]))"
  by pat_completeness auto
termination
  by (relation "measure (\<lambda>(s, out). length s)") (auto dest!: unicode_code_point_rest)

declare token_loop.simps [simp del]

definition parse_json_string_token :: "string \<Rightarrow> (string \<times> string) option" where
  "parse_json_string_token s = (if s = [] \<or> hd s \<noteq> CHR 0x22 then None else token_loop (tl s) [])"

definition consume_literal :: "string \<Rightarrow> string \<Rightarrow> string option" where
  "consume_literal literal s =
     (if length literal > length s \<or> take (length literal) s \<noteq> literal then None else Some (drop (length literal) s))"

section \<open>Strict validity\<close>

definition skip_digits :: "string \<Rightarrow> string option" where
  "skip_digits s = (if s = [] \<or> \<not> is_digit (hd s) then None else Some (dropWhile is_digit s))"

definition skip_json_strict_number :: "string \<Rightarrow> string option" where
  "skip_json_strict_number s =
     (let s1 = (if s \<noteq> [] \<and> hd s = CHR ''-'' then tl s else s) in
      Option.bind
        (if s1 = [] then None
         else if hd s1 = CHR ''0'' then (if tl s1 \<noteq> [] \<and> is_digit (hd (tl s1)) then None else Some (tl s1))
         else if 49 \<le> chr_code (hd s1) \<and> chr_code (hd s1) \<le> 57 then Some (dropWhile is_digit s1)
         else None) (\<lambda>s2.
      Option.bind (if s2 \<noteq> [] \<and> hd s2 = CHR ''.'' then skip_digits (tl s2) else Some s2) (\<lambda>s3.
        if s3 \<noteq> [] \<and> (hd s3 = CHR ''e'' \<or> hd s3 = CHR ''E'') then
          skip_digits (if tl s3 \<noteq> [] \<and> (hd (tl s3) = CHR ''+'' \<or> hd (tl s3) = CHR ''-'') then tl (tl s3) else tl s3)
        else Some s3)))"

text \<open>\<open>None\<close>: the recursion ran out of fuel; \<open>Some None\<close>: \<open>false\<close>; \<open>Some (Some r)\<close>: \<open>true\<close>, with the text behind.\<close>

definition scan_bind :: "string option option \<Rightarrow> (string \<Rightarrow> string option option) \<Rightarrow> string option option" where
  "scan_bind m f = (case m of None \<Rightarrow> None | Some None \<Rightarrow> Some None | Some (Some r) \<Rightarrow> f r)"

type_synonym value_scanner = "string \<Rightarrow> string option option"

fun strict_object_loop :: "value_scanner \<Rightarrow> nat \<Rightarrow> string \<Rightarrow> string option option" where
  "strict_object_loop value 0 s = None"
| "strict_object_loop value (Suc n) s =
     (if s = [] then Some None
      else case parse_json_string_token s of
          None \<Rightarrow> Some None
        | Some (key, r) \<Rightarrow>
            let r = skip_space r in
            if r = [] \<or> hd r \<noteq> CHR '':'' then Some None
            else scan_bind (value (tl r)) (\<lambda>r.
              let r = skip_space r in
              if r \<noteq> [] \<and> hd r = CHR '','' then strict_object_loop value n (skip_space (tl r))
              else if r \<noteq> [] \<and> hd r = CHR ''}'' then Some (Some (tl r))
              else Some None))"

definition skip_json_strict_object :: "value_scanner \<Rightarrow> nat \<Rightarrow> string \<Rightarrow> string option option" where
  "skip_json_strict_object value n s =
     (if s = [] \<or> hd s \<noteq> CHR ''{'' then Some None
      else let r = skip_space (tl s) in
        if r \<noteq> [] \<and> hd r = CHR ''}'' then Some (Some (tl r)) else strict_object_loop value n r)"

fun strict_array_loop :: "value_scanner \<Rightarrow> nat \<Rightarrow> string \<Rightarrow> string option option" where
  "strict_array_loop value 0 s = None"
| "strict_array_loop value (Suc n) s =
     (if s = [] then Some None
      else scan_bind (value s) (\<lambda>r.
        let r = skip_space r in
        if r \<noteq> [] \<and> hd r = CHR '','' then strict_array_loop value n (skip_space (tl r))
        else if r \<noteq> [] \<and> hd r = CHR '']'' then Some (Some (tl r))
        else Some None))"

definition skip_json_strict_array :: "value_scanner \<Rightarrow> nat \<Rightarrow> string \<Rightarrow> string option option" where
  "skip_json_strict_array value n s =
     (if s = [] \<or> hd s \<noteq> CHR ''['' then Some None
      else let r = skip_space (tl s) in
        if r \<noteq> [] \<and> hd r = CHR '']'' then Some (Some (tl r)) else strict_array_loop value n r)"

fun skip_json_strict_value :: "nat \<Rightarrow> string \<Rightarrow> string option option" where
  "skip_json_strict_value 0 s = None"
| "skip_json_strict_value (Suc n) s =
     (let s = skip_space s in
      if s = [] then Some None
      else let c = hd s in
        if c = CHR 0x22 then Some (map_option snd (parse_json_string_token s))
        else if c = CHR ''{'' then skip_json_strict_object (skip_json_strict_value n) n s
        else if c = CHR ''['' then skip_json_strict_array (skip_json_strict_value n) n s
        else if c = CHR ''t'' then Some (consume_literal ''true'' s)
        else if c = CHR ''f'' then Some (consume_literal ''false'' s)
        else if c = CHR ''n'' then Some (consume_literal ''null'' s)
        else if c = CHR ''-'' then Some (skip_json_strict_number s)
        else if is_digit c then Some (skip_json_strict_number s)
        else Some None)"

text \<open>\<open>None\<close> only if the fuel were too small, which it is not.\<close>

definition json_fast_validity_check :: "string \<Rightarrow> bool option" where
  "json_fast_validity_check s =
     (let r = skip_space s in
      if r = [] then Some False
      else if hd r \<noteq> CHR ''{'' \<and> hd r \<noteq> CHR ''['' then Some False
      else map_option (\<lambda>result. case result of None \<Rightarrow> False | Some r \<Rightarrow> skip_space r = [])
        (skip_json_strict_value (length s + 1) r))"

section \<open>Skipping without parsing\<close>

text \<open>The loop over a compound value; the head of the list is the top of the stack.\<close>

fun compound_loop :: "string \<Rightarrow> bool \<Rightarrow> bool \<Rightarrow> string \<Rightarrow> string option" where
  "compound_loop stack in_string escape [] = None"
| "compound_loop stack in_string escape (ch # r) =
     (if in_string then
        (if escape then compound_loop stack in_string False r
         else if ch = CHR 0x5C then compound_loop stack in_string True r
         else if ch = CHR 0x22 then compound_loop stack False escape r
         else if chr_code ch < 0x20 then None
         else compound_loop stack in_string escape r)
      else if ch = CHR 0x22 then compound_loop stack True escape r
      else if ch = CHR ''{'' \<or> ch = CHR ''['' then compound_loop (ch # stack) in_string escape r
      else if ch = CHR ''}'' \<and> (stack = [] \<or> hd stack \<noteq> CHR ''{'') then None
      else if ch = CHR '']'' \<and> (stack = [] \<or> hd stack \<noteq> CHR ''['') then None
      else let stack = (if ch = CHR ''}'' \<or> ch = CHR '']'' then tl stack else stack) in
        if stack = [] then Some r else compound_loop stack in_string escape r)"

definition value_delimiter :: "char \<Rightarrow> bool" where
  "value_delimiter ch \<longleftrightarrow> ch = CHR '','' \<or> ch = CHR ''}'' \<or> ch = CHR '']'' \<or> is_space ch"

definition skip_json_value :: "string \<Rightarrow> string option" where
  "skip_json_value s =
     (if s = [] then None
      else if hd s = CHR 0x22 then map_option snd (parse_json_string_token s)
      else if hd s = CHR ''{'' \<or> hd s = CHR ''['' then compound_loop [hd s] False False (tl s)
      else let r = dropWhile (\<lambda>ch. \<not> value_delimiter ch) s in
        if length r < length s then Some r else None)"

lemma token_loop_rest_less: "token_loop s out = Some (v, r) \<Longrightarrow> length s \<le> n \<Longrightarrow> length r < n"
proof (induction n arbitrary: s out)
  case (Suc n)
  from Suc.prems show ?case
    by (subst (asm) token_loop.simps)
      (auto split: list.splits if_splits option.splits sum.splits prod.splits
        dest: Suc.IH dest!: unicode_code_point_rest simp: less_Suc_eq)
qed (simp add: token_loop.simps)

lemma token_loop_rest: "token_loop s out = Some (v, r) \<Longrightarrow> length r < length s"
  using token_loop_rest_less [OF _ order.refl] .

lemma parse_json_string_token_rest: "parse_json_string_token s = Some (v, r) \<Longrightarrow> length r < length s"
  by (cases s) (auto simp: parse_json_string_token_def dest!: token_loop_rest split: if_splits)

lemma compound_loop_rest: "compound_loop stack i e s = Some r \<Longrightarrow> length r < length s"
  by (induction stack i e s rule: compound_loop.induct) (auto simp: Let_def split: if_splits)

lemma skip_json_value_rest: "skip_json_value s = Some r \<Longrightarrow> length r < length s"
  by (cases s)
    (auto simp: skip_json_value_def Let_def dest!: parse_json_string_token_rest compound_loop_rest split: if_splits)

lemma extract_loop_decreases:
  assumes "parse_json_string_token (skip_space s) = Some (k, r)" "skip_json_value (skip_space (tl (skip_space r))) = Some r'"
  shows "length (skip_space r') - Suc 0 < length s"
proof -
  have "length r' < length (skip_space (tl (skip_space r)))" by (rule skip_json_value_rest) (rule assms)
  also have "\<dots> \<le> length (tl (skip_space r))" by (rule length_dropWhile_le)
  also have "\<dots> \<le> length r" using length_dropWhile_le [of is_space r] by (simp add: le_diff_conv)
  also have "\<dots> < length (skip_space s)" using assms(1) by (rule parse_json_string_token_rest)
  also have "\<dots> \<le> length s" by (rule length_dropWhile_le)
  finally show ?thesis using length_dropWhile_le [of is_space r'] by simp
qed

function extract_loop :: "string \<Rightarrow> string \<Rightarrow> string \<Rightarrow> string" where
  "extract_loop key nullcase s =
     (if s = [] then nullcase
      else let s = skip_space s in
        if s \<noteq> [] \<and> hd s = CHR ''}'' then nullcase
        else case parse_json_string_token s of
            None \<Rightarrow> nullcase
          | Some (current_key, r) \<Rightarrow>
              let r = skip_space r in
              if r = [] \<or> hd r \<noteq> CHR '':'' then nullcase
              else let r = skip_space (tl r) in
                if current_key = key then
                  (case parse_json_string_token r of None \<Rightarrow> nullcase | Some (v, _) \<Rightarrow> v)
                else case skip_json_value r of
                    None \<Rightarrow> nullcase
                  | Some r \<Rightarrow>
                      let r = skip_space r in
                      if r \<noteq> [] \<and> hd r = CHR '','' then extract_loop key nullcase (tl r) else nullcase)"
  by pat_completeness auto
termination
  by (relation "measure (\<lambda>(key, nullcase, s). length s)") (auto intro: extract_loop_decreases)

declare extract_loop.simps [simp del]

definition extract_json_string_value :: "string \<Rightarrow> string \<Rightarrow> string \<Rightarrow> string" where
  "extract_json_string_value json_str key nullcase =
     (let s = skip_space json_str in
      if s = [] \<or> hd s \<noteq> CHR ''{'' then nullcase else extract_loop key nullcase (tl s))"

end
