(* ===== verification/Json_Agreement.thy ===== *)
theory Json_Agreement
  imports Json_View "HOL-Library.Sublist"
begin

text \<open>
  The parser and the strict scanner read the same texts: for every function of the parser there is a scanner
  that succeeds with the same rest when the parser does, and fails when the parser fails, unless the failure
  is about a number of the text whose value is none of a \<open>double\<close>. Both end with the fuel they are given.
\<close>

section \<open>Numbers that do not fit\<close>

text \<open>
  The decimal value of the text is too large for a \<open>double\<close>, or so small that it is rounded to a value
  that is not normal: the cases where \<open>std::strtod\<close> sets \<open>errno\<close>.
\<close>

definition not_a_double :: "string \<Rightarrow> bool" where
  "not_a_double num \<longleftrightarrow> (case decimal_number (snd (read_sign num)) of None \<Rightarrow> False
     | Some x \<Rightarrow> let v = round_float double_format (if fst (read_sign num) then - x else x) in
         2 ^ 1024 \<le> \<bar>v\<bar> \<or> x < min_normal double_format \<and> \<bar>v\<bar> \<noteq> x)"

text \<open>The message \<open>m\<close> is about a number that stands in the text \<open>s\<close> and does not fit.\<close>

definition unfit_number :: "string \<Rightarrow> string \<Rightarrow> bool" where
  "unfit_number s m \<longleftrightarrow> (\<exists>a num b. s = a @ num @ b \<and> skip_json_strict_number (num @ b) = Some b \<and>
     not_a_double num \<and> m = ''Invalid number format: '' @ num)"

lemma unfit_number_suffix: "unfit_number t m \<Longrightarrow> suffix t s \<Longrightarrow> unfit_number s m"
  unfolding unfit_number_def suffix_def by (metis append.assoc)

text \<open>
  Behind a zero \<open>std::strtod\<close> goes on with \<open>x\<close>; nothing that may follow a value starts with this letter.
\<close>

definition hex_tail :: "string \<Rightarrow> bool" where
  "hex_tail r \<longleftrightarrow> r \<noteq> [] \<and> (hd r = CHR ''x'' \<or> hd r = CHR ''X'')"

lemma hex_tail_space: "hex_tail r \<Longrightarrow> skip_space r = r"
  by (cases r) (auto simp: hex_tail_def is_space_def chr_code_def)

definition agrees :: "string \<Rightarrow> 'a json_run \<Rightarrow> string option \<Rightarrow> bool" where
  "agrees s run scan \<longleftrightarrow> (case run of
     Out_Of_Fuel \<Rightarrow> True
   | Done v r \<Rightarrow> scan = Some r \<and> suffix r s
   | Fatal m \<Rightarrow> scan = None \<or> unfit_number s m \<or> (\<exists>r. scan = Some r \<and> hex_tail r))"

lemma agrees_simps [simp]:
  "agrees s (Done v r) scan \<longleftrightarrow> scan = Some r \<and> suffix r s" "agrees s (Fatal m) None" "agrees s Out_Of_Fuel scan"
  by (simp_all add: agrees_def)

section \<open>Strings\<close>

lemma hex4_code_unit_suffix: "hex4_code_unit s = Some (w, r) \<Longrightarrow> suffix r s"
  by (auto simp: hex4_code_unit_def suffix_drop split: if_splits)

lemma unicode_code_point_suffix: "unicode_code_point s = Inr (cp, r) \<Longrightarrow> suffix r s"
  by (auto simp: unicode_code_point_def dest!: hex4_code_unit_suffix split: option.splits if_splits)
    (metis suffix_drop suffix_order.trans)

lemma token_loop_step:
  assumes "token_loop s out = Some (v, r)"
  shows "s \<noteq> [] \<and> (r = tl s \<or> (\<exists>w out'. suffix w (tl s) \<and> token_loop w out' = Some (v, r)))"
proof -
  from assms obtain c t where s: "s = c # t" by (cases s) (simp_all add: token_loop.simps)
  consider "c = CHR 0x22" | "c = CHR 0x5C" | "c \<noteq> CHR 0x22" "c \<noteq> CHR 0x5C" by blast
  then show ?thesis
  proof cases
    case 2
    with assms s obtain d u where t: "t = d # u" by (cases t) (simp_all add: token_loop.simps)
    have u: "suffix u t" by (simp add: t suffix_Cons)
    show ?thesis
    proof (cases "simple_escape d")
      case None
      with assms obtain cp w out' where w: "unicode_code_point u = Inr (cp, w)" "token_loop w out' = Some (v, r)"
        by (subst (asm) token_loop.simps) (auto simp: s t 2 split: sum.splits if_splits prod.splits)
      have "suffix w t" using unicode_code_point_suffix [OF w(1)] u by (rule suffix_order.trans)
      with w(2) s show ?thesis by auto
    next
      case (Some e)
      with assms have "token_loop u (out @ [e]) = Some (v, r)"
        by (subst (asm) token_loop.simps) (simp add: s t 2)
      with u s show ?thesis by auto
    qed
  next
    case 3
    with assms have "token_loop t (out @ [c]) = Some (v, r)"
      by (subst (asm) token_loop.simps) (simp add: s split: if_splits)
    with s show ?thesis by auto
  qed (use assms in \<open>simp add: s token_loop.simps [of "_ # _"]\<close>)
qed

lemma token_loop_suffix: "token_loop s out = Some (v, r) \<Longrightarrow> suffix r s"
proof (induction "length s" arbitrary: s out rule: less_induct)
  case less
  from token_loop_step [OF less.prems] consider "s \<noteq> []" "r = tl s"
    | w out' where "s \<noteq> []" "suffix w (tl s)" "token_loop w out' = Some (v, r)" by blast
  then show ?case
  proof cases
    case 2
    then have "length w < length s" using suffix_length_le [of w "tl s"] by (cases s) auto
    from less.hyps [OF this 2(3)] 2(2) show ?thesis using suffix_tl suffix_order.trans by blast
  qed (simp add: suffix_tl)
qed

lemma token_loop_part: "token_loop s out = Some (v, r) \<Longrightarrow> length r < length s \<and> suffix r s"
  using token_loop_rest token_loop_suffix by blast

lemma parse_json_string_token_suffix: "parse_json_string_token s = Some (v, r) \<Longrightarrow> suffix r s"
  by (cases s) (auto simp: parse_json_string_token_def dest!: token_loop_suffix intro: suffix_ConsI split: if_splits)

lemma append_utf8_code_point_total: "cp \<le> 0x10FFFF \<Longrightarrow> \<exists>u. \<forall>out. append_utf8_code_point cp out = Some (out @ u)"
  by (auto simp: append_utf8_code_point_def)

lemma simple_escape_u [simp]: "simple_escape (CHR ''u'') = None"
  by (simp add: simple_escape_def)

lemma string_loop_token_less:
  "length s \<le> n \<Longrightarrow> (case string_loop len s out of
     Out_Of_Fuel \<Rightarrow> False | Done v r \<Rightarrow> token_loop s out = Some (v, r) | Fatal m \<Rightarrow> token_loop s out = None)"
proof (induction n arbitrary: s out)
  case 0
  then show ?case by (simp add: string_loop.simps token_loop.simps)
next
  case (Suc n)
  show ?case
  proof (cases s)
    case (Cons ch t)
    then have "length t \<le> n" using Suc.prems by simp
    show ?thesis
    proof (cases "ch = CHR 0x5C")
      case True
      show ?thesis
      proof (cases t)
        case (Cons c r)
        note s = \<open>s = ch # t\<close> [unfolded Cons True]
        have r: "length r \<le> n" using \<open>length t \<le> n\<close> Cons by simp
        show ?thesis
        proof (cases "c = CHR ''u''")
          case u: True
          show ?thesis
          proof (cases "unicode_code_point r")
            case (Inr p)
            then obtain cp r' where p: "unicode_code_point r = Inr (cp, r')" by (cases p) auto
            then have "cp \<le> 0x10FFFF" using unicode_code_point_scalar by blast
            then obtain b where b: "\<And>out. append_utf8_code_point cp out = Some (out @ b)"
              using append_utf8_code_point_total by blast
            have "length r' \<le> n" using unicode_code_point_rest [OF p] r by simp
            moreover have "token_loop s out = token_loop r' (out @ b)"
              by (simp add: s u p b token_loop.simps [of "_ # _"])
            moreover have "string_loop len s out = string_loop len r' (out @ b)"
              by (simp add: s u p b string_loop.simps [of len "_ # _"])
            ultimately show ?thesis using Suc.IH [of r' "out @ b"] by (simp split: json_run.splits)
          qed (simp add: s u string_loop.simps [of len "_ # _"] token_loop.simps [of "_ # _"])
        next
          case False
          show ?thesis
          proof (cases "simple_escape c")
            case None
            with False show ?thesis
              by (simp add: s string_loop.simps [of len "_ # _"] token_loop.simps [of "_ # _"])
          next
            case (Some e)
            have "token_loop s out = token_loop r (out @ [e])" by (simp add: s Some token_loop.simps [of "_ # _"])
            moreover have "string_loop len s out = string_loop len r (out @ [e])"
              using False by (simp add: s Some string_loop.simps [of len "_ # _"])
            ultimately show ?thesis using Suc.IH [OF r, of "out @ [e]"] by (simp split: json_run.splits)
          qed
        qed
      qed (simp add: Cons True string_loop.simps [of len "_ # _"] token_loop.simps [of "_ # _"])
    next
      case False
      show ?thesis
        using Suc.IH [OF \<open>length t \<le> n\<close>, of "out @ [ch]"] False
        by (cases "ch = CHR 0x22")
          (simp_all add: Cons string_loop.simps [of len "_ # t"] token_loop.simps [of "_ # t"] split: json_run.splits)
    qed
  qed (simp add: string_loop.simps token_loop.simps)
qed

lemma string_loop_token:
  obtains (done_) v r where "string_loop len s out = Done v r" "token_loop s out = Some (v, r)"
  | (fatal) m where "string_loop len s out = Fatal m" "token_loop s out = None"
  using string_loop_token_less [where s = s and n = "length s" and len = len and out = out] by (auto split: json_run.splits)

lemma parse_string_token:
  assumes "peek s = CHR 0x22"
  obtains (done_) v r where "parse_string len s = Done v r" "parse_json_string_token s = Some (v, r)" "length r < length s" "suffix r s"
  | (fatal) m where "parse_string len s = Fatal m" "parse_json_string_token s = None"
proof -
  obtain t where s: "s = CHR 0x22 # t" using assms by (cases s) (auto simp: peek_def)
  show thesis
    by (cases rule: string_loop_token [where len = len and s = t and out = "[]"])
      (use that in \<open>auto simp: s parse_string_def expect_def advance_def parse_json_string_token_def
        suffix_Cons dest!: token_loop_part\<close>)
qed

section \<open>Numbers\<close>

lemma dropWhile_digits: "is_digit (peek s) \<longleftrightarrow> s \<noteq> [] \<and> is_digit (hd s)"
  by (cases s) (simp_all add: peek_def is_digit_def chr_code_def)

lemma skip_digits_peek:
  "skip_digits s = (if is_digit (peek s) then Some (dropWhile is_digit s) else None)"
  by (simp add: skip_digits_def dropWhile_digits)

lemma peek_eq: "c \<noteq> nul \<Longrightarrow> peek s = c \<longleftrightarrow> s \<noteq> [] \<and> hd s = c"
  by (cases s) (auto simp: peek_def)


lemma zero_code: "chr_code c = 48 \<longleftrightarrow> c = CHR ''0''"
  using chr_code_inject [of c "CHR ''0''"] by (simp add: chr_code_def)

lemma number_integer_scan:
  "case number_integer len s of Out_Of_Fuel \<Rightarrow> False | Fatal _ \<Rightarrow> scan = None | Done u r \<Rightarrow> scan = Some r"
  if "scan = (if s = [] then None
         else if hd s = CHR ''0'' then (if tl s \<noteq> [] \<and> is_digit (hd (tl s)) then None else Some (tl s))
         else if 49 \<le> chr_code (hd s) \<and> chr_code (hd s) \<le> 57 then Some (dropWhile is_digit s)
         else None)"
proof (cases s)
  case (Cons c t)
  have "is_digit c \<longleftrightarrow> c = CHR ''0'' \<or> 49 \<le> chr_code c \<and> chr_code c \<le> 57"
    using zero_code [of c] by (auto simp: is_digit_def)
  with that Cons show ?thesis
    by (simp add: number_integer_def fatal_at_def peek_eq dropWhile_digits)
qed (simp add: that number_integer_def fatal_at_def peek_eq dropWhile_digits)

lemma number_fraction_scan:
  "case number_fraction len s of Out_Of_Fuel \<Rightarrow> False | Fatal _ \<Rightarrow> scan = None | Done u r \<Rightarrow> scan = Some r"
  if "scan = (if s \<noteq> [] \<and> hd s = CHR ''.'' then skip_digits (tl s) else Some s)"
  by (simp add: that number_fraction_def fatal_at_def peek_eq skip_digits_peek)

lemma number_exponent_scan:
  "case number_exponent len s of Out_Of_Fuel \<Rightarrow> False | Fatal _ \<Rightarrow> scan = None | Done u r \<Rightarrow> scan = Some r"
  if "scan = (if s \<noteq> [] \<and> (hd s = CHR ''e'' \<or> hd s = CHR ''E'') then
          skip_digits (if tl s \<noteq> [] \<and> (hd (tl s) = CHR ''+'' \<or> hd (tl s) = CHR ''-'') then tl (tl s) else tl s)
        else Some s)"
  unfolding that number_exponent_def fatal_at_def skip_digits_peek
  by (auto simp: peek_eq)

lemma parse_number_run:
  "case skip_json_strict_number s of
     None \<Rightarrow> \<exists>m. parse_number len s = Fatal m
   | Some r \<Rightarrow> parse_number len s = number_value (take (length s - length r) s) r"
proof -
  define ok where "ok run scan \<longleftrightarrow> (case scan of None \<Rightarrow> \<exists>m. run = Fatal m
     | Some r \<Rightarrow> run = number_value (take (length s - length r) s) r)" for run scan
  have bind: "ok (json_bind m f) (Option.bind X g)"
    if "case m of Out_Of_Fuel \<Rightarrow> False | Fatal _ \<Rightarrow> X = None | Done u r \<Rightarrow> X = Some r" "\<And>r. ok (f () r) (g r)"
    for m :: "unit json_run" and X f g
    using that by (cases m) (auto simp: ok_def)
  have sign: "(if peek s = CHR ''-'' then tl s else s) = (if s \<noteq> [] \<and> hd s = CHR ''-'' then tl s else s)"
    by (simp add: peek_eq)
  have last: "ok (json_bind (number_exponent len r) (\<lambda>_ r. number_value (take (length s - length r) s) r)) scan"
    if "scan = (if r \<noteq> [] \<and> (hd r = CHR ''e'' \<or> hd r = CHR ''E'') then
          skip_digits (if tl r \<noteq> [] \<and> (hd (tl r) = CHR ''+'' \<or> hd (tl r) = CHR ''-'') then tl (tl r) else tl r)
        else Some r)" for r scan
    using number_exponent_scan [OF that, of len] by (cases "number_exponent len r") (auto simp: ok_def)
  have "ok (parse_number len s) (skip_json_strict_number s)"
    unfolding parse_number_def skip_json_strict_number_def Let_def sign
    by (intro bind number_integer_scan number_fraction_scan last refl)
  then show ?thesis by (simp add: ok_def)
qed

text \<open>The parts of a number: digits, a fraction and an exponent.\<close>

definition digits :: "string \<Rightarrow> bool" where
  "digits d \<longleftrightarrow> d \<noteq> [] \<and> list_all is_digit d"

definition fraction_digits :: "string \<Rightarrow> bool" where
  "fraction_digits f \<longleftrightarrow> f = [] \<or> (\<exists>d. f = CHR ''.'' # d \<and> digits d)"

definition exponent_digits :: "string \<Rightarrow> bool" where
  "exponent_digits x \<longleftrightarrow> x = [] \<or> (\<exists>c sg d. x = c # sg @ d \<and> c \<in> set ''eE'' \<and> sg \<in> {[], ''+'', ''-''} \<and> digits d)"

lemma skip_digits_parts: "skip_digits s = Some r \<Longrightarrow> \<exists>d. s = d @ r \<and> digits d"
  unfolding skip_digits_def digits_def
  by (intro exI [of _ "takeWhile is_digit s"], cases s) (auto simp: list_all_iff dest: set_takeWhileD split: if_splits)

lemma strict_number_parts:
  assumes "skip_json_strict_number s = Some r"
  obtains sg i f x where "s = (sg @ i @ f @ x) @ r" "sg \<in> {[], ''-''}" "digits i" "i = ''0'' \<or> hd i \<noteq> CHR ''0''"
    "fraction_digits f" "exponent_digits x"
proof -
  let ?s = "if s \<noteq> [] \<and> hd s = CHR ''-'' then tl s else s"
  obtain s2 s3 where s2: "(if ?s = [] then None
         else if hd ?s = CHR ''0'' then (if tl ?s \<noteq> [] \<and> is_digit (hd (tl ?s)) then None else Some (tl ?s))
         else if 49 \<le> chr_code (hd ?s) \<and> chr_code (hd ?s) \<le> 57 then Some (dropWhile is_digit ?s)
         else None) = Some s2"
    and s3: "(if s2 \<noteq> [] \<and> hd s2 = CHR ''.'' then skip_digits (tl s2) else Some s2) = Some s3"
    and r: "(if s3 \<noteq> [] \<and> (hd s3 = CHR ''e'' \<or> hd s3 = CHR ''E'') then
          skip_digits (if tl s3 \<noteq> [] \<and> (hd (tl s3) = CHR ''+'' \<or> hd (tl s3) = CHR ''-'') then tl (tl s3) else tl s3)
        else Some s3) = Some r"
    using assms by (auto simp: skip_json_strict_number_def Let_def bind_eq_Some_conv)
  obtain sg where sg: "s = sg @ ?s" "sg \<in> {[], ''-''}"
    by (rule that [of "if s \<noteq> [] \<and> hd s = CHR ''-'' then ''-'' else []"]) (cases s; simp)+
  obtain i where i: "?s = i @ s2" "digits i" "i = ''0'' \<or> hd i \<noteq> CHR ''0''"
  proof (cases "hd ?s = CHR ''0''")
    case True
    with s2 have "?s = ''0'' @ s2" by (cases ?s) (auto split: if_splits)
    moreover have "digits ''0''" by (simp add: digits_def is_digit_def chr_code_def)
    ultimately show thesis using that by blast
  next
    case False
    with s2 have ne: "?s \<noteq> []" "49 \<le> chr_code (hd ?s)" "chr_code (hd ?s) \<le> 57" "s2 = dropWhile is_digit ?s"
      by (auto split: if_splits)
    then have d: "is_digit (hd ?s)" by (simp add: is_digit_def)
    have "?s = takeWhile is_digit ?s @ s2" by (simp add: ne(4))
    moreover have "digits (takeWhile is_digit ?s)"
      using ne(1) d unfolding digits_def by (cases ?s) (auto simp: list_all_iff dest: set_takeWhileD)
    moreover have "hd (takeWhile is_digit ?s) = hd ?s" using ne(1) d by (cases ?s) auto
    ultimately show thesis using that False by metis
  qed
  obtain f where f: "s2 = f @ s3" "fraction_digits f"
  proof (cases "s2 \<noteq> [] \<and> hd s2 = CHR ''.''")
    case True
    then obtain t where t: "s2 = CHR ''.'' # t" by (cases s2) auto
    with s3 have "skip_digits t = Some s3" by simp
    then obtain d where "t = d @ s3" "digits d" using skip_digits_parts by blast
    with t that [of "CHR ''.'' # d"] show thesis by (simp add: fraction_digits_def)
  qed (use s3 that [of "[]"] in \<open>auto simp: fraction_digits_def split: if_splits\<close>)
  obtain x where x: "s3 = x @ r" "exponent_digits x"
  proof (cases "s3 \<noteq> [] \<and> (hd s3 = CHR ''e'' \<or> hd s3 = CHR ''E'')")
    case True
    then obtain c t where c: "s3 = c # t" "c \<in> set ''eE''" by (cases s3) auto
    define u where "u = (if t \<noteq> [] \<and> (hd t = CHR ''+'' \<or> hd t = CHR ''-'') then tl t else t)"
    obtain sg' where sg': "t = sg' @ u" "sg' \<in> {[], ''+'', ''-''}"
      by (rule that [of "if t \<noteq> [] \<and> (hd t = CHR ''+'' \<or> hd t = CHR ''-'') then [hd t] else []"])
        (cases t; auto simp: u_def)+
    have "skip_digits u = Some r" using r True unfolding c(1) u_def list.sel by simp
    then obtain d where "u = d @ r" "digits d" using skip_digits_parts by blast
    with c sg' that [of "c # sg' @ d"] show thesis by (auto simp: exponent_digits_def)
  qed (use r that [of "[]"] in \<open>auto simp: exponent_digits_def split: if_splits\<close>)
  show thesis
    using sg i f x by (intro that [of sg i f x]) simp_all
qed

lemma digit_chars: "is_digit c \<Longrightarrow> c \<noteq> CHR ''.'' \<and> c \<noteq> CHR ''-'' \<and> c \<noteq> CHR ''+'' \<and> c \<noteq> CHR ''e'' \<and> c \<noteq> CHR ''E''"
  by (auto simp: is_digit_def chr_code_def)

lemma no_digit [simp]: "\<not> is_digit (CHR ''.'')" "\<not> is_digit (CHR ''e'')" "\<not> is_digit (CHR ''E'')"
  by (simp_all add: is_digit_def chr_code_def)

lemma takeWhile_digits: "digits d \<Longrightarrow> r = [] \<or> \<not> is_digit (hd r) \<Longrightarrow> takeWhile is_digit (d @ r) = d \<and> dropWhile is_digit (d @ r) = r"
  by (cases r) (auto simp: digits_def list_all_iff takeWhile_append dropWhile_append)

lemma exponent_digits_hd: "exponent_digits x \<Longrightarrow> x = [] \<or> hd x = CHR ''e'' \<or> hd x = CHR ''E''"
  by (auto simp: exponent_digits_def)

lemma exponent_part_exists:
  assumes "exponent_digits x"
  shows "exponent_part ''eE'' x \<noteq> None"
proof (cases x)
  case (Cons c t)
  with assms obtain sg d where t: "t = sg @ d" "c \<in> set ''eE''" "sg \<in> {[], ''+'', ''-''}" "digits d"
    by (auto simp: exponent_digits_def)
  then obtain e u where d: "d = e # u" "is_digit e" by (cases d) (auto simp: digits_def)
  have "snd (read_sign t) = d"
    using t(3) d digit_chars [OF d(2)] by (auto simp: t(1) read_sign_def)
  then obtain neg where "read_sign t = (neg, d)" by (cases "read_sign t") auto
  with t show ?thesis by (simp add: Cons exponent_part_def digits_def Let_def)
qed (simp add: exponent_part_def)

lemma decimal_number_exists:
  assumes "digits i" "fraction_digits f" "exponent_digits x"
  shows "decimal_number (i @ f @ x) \<noteq> None"
proof -
  have fx: "f @ x = [] \<or> \<not> is_digit (hd (f @ x))"
    using assms(2) exponent_digits_hd [OF assms(3)] by (auto simp: fraction_digits_def)
  obtain ds k where m: "mantissa_part is_digit (i @ f @ x) = (ds, k, x)" "ds \<noteq> []"
  proof (cases "f = []")
    case True
    have "x = [] \<or> hd x \<noteq> CHR ''.''" using exponent_digits_hd [OF assms(3)] by auto
    with True takeWhile_digits [OF assms(1) fx] assms(1) show thesis
      by (intro that [of i 0]) (auto simp: mantissa_part_def digits_def split: list.split)
  next
    case False
    then obtain d where d: "f = CHR ''.'' # d" "digits d" using assms(2) by (auto simp: fraction_digits_def)
    have "x = [] \<or> \<not> is_digit (hd x)" using exponent_digits_hd [OF assms(3)] by auto
    from takeWhile_digits [OF d(2) this] takeWhile_digits [OF assms(1) fx] d(1) that assms(1) show thesis
      by (auto simp: mantissa_part_def digits_def)
  qed
  with exponent_part_exists [OF assms(3)] show ?thesis
    by (auto simp: decimal_number_def Let_def split: option.splits)
qed

lemma power_of_two_1024: "power_of_two 1024 = 2 ^ 1024"
  by (simp add: power_of_two_def)

lemma strict_number_not_a_double:
  assumes "skip_json_strict_number (num @ r) = Some r" "strto_float double_format num = None"
  shows "not_a_double num"
proof -
  obtain sg i f x where nr: "num @ r = (sg @ i @ f @ x) @ r" and "sg \<in> {[], ''-''}" "digits i"
    "i = ''0'' \<or> hd i \<noteq> CHR ''0''" "fraction_digits f" "exponent_digits x"
    by (rule strict_number_parts [OF assms(1)])
  moreover from nr have "num = sg @ i @ f @ x" by (simp only: append_same_eq)
  ultimately have p: "num = sg @ i @ f @ x" "sg \<in> {[], ''-''}" "digits i" "i = ''0'' \<or> hd i \<noteq> CHR ''0''"
    "fraction_digits f" "exponent_digits x" by blast+
  obtain c u where c: "i = c # u" "is_digit c" using p(3) by (cases i) (auto simp: digits_def)
  have rs: "read_sign num = (sg = ''-'', i @ f @ x)"
    using p(2) c digit_chars [OF c(2)] by (auto simp: p(1) read_sign_def)
  have low: "to_lower c = c" using c(2) by (simp add: to_lower_def is_digit_def is_upper_def)
  have "c \<noteq> CHR ''i'' \<and> c \<noteq> CHR ''n''" using c(2) by (auto simp: is_digit_def chr_code_def)
  then have "special_float neg (i @ f @ x) = None" for neg
    unfolding special_float_def Let_def c(1) append_Cons list.map low by simp
  moreover have "take 2 (i @ f @ x) \<noteq> ''0x'' \<and> take 2 (i @ f @ x) \<noteq> ''0X''"
  proof (cases u)
    case Nil
    have "f @ x = [] \<or> hd (f @ x) \<in> set ''.eE''"
      using p(5) exponent_digits_hd [OF p(6)] by (auto simp: fraction_digits_def)
    then show ?thesis using Nil c by (cases "f @ x") auto
  next
    case (Cons d w)
    with p(3) c have "is_digit d" by (simp add: digits_def)
    then have "d \<noteq> CHR ''x'' \<and> d \<noteq> CHR ''X''" by (auto simp: is_digit_def chr_code_def)
    with Cons c show ?thesis by auto
  qed
  moreover obtain v where "decimal_number (i @ f @ x) = Some v" using decimal_number_exists [OF p(3,5,6)] by blast
  ultimately show ?thesis
    using assms(2)
    by (auto simp: strto_float_def not_a_double_def rs Let_def double_format_def power_of_two_1024 split: if_splits)
qed

lemma parse_number_agrees: "agrees s (parse_number len s) (skip_json_strict_number s)"
proof (cases "skip_json_strict_number s")
  case None
  with parse_number_run [of len s] show ?thesis by auto
next
  case (Some r)
  then obtain num where s: "s = num @ r" by (elim strict_number_parts)
  then have run: "parse_number len s = number_value num r" using parse_number_run [of len s] Some by simp
  consider "hexadecimal_follows num r" | "\<not> hexadecimal_follows num r" "strto_float double_format num = None"
    | v where "\<not> hexadecimal_follows num r" "strto_float double_format num = Some v" by fastforce
  then show ?thesis
  proof cases
    case 1
    then have "hex_tail r" by (auto simp: hexadecimal_follows_def hex_tail_def split: list.splits)
    with 1 show ?thesis unfolding run Some by (simp add: number_value_def agrees_def)
  next
    case 2
    have "skip_json_strict_number (num @ r) = Some r" using Some s by simp
    with strict_number_not_a_double [OF _ 2(2)] have "unfit_number s (''Invalid number format: '' @ num)"
      unfolding unfit_number_def s by (metis append_Nil)
    with 2 show ?thesis unfolding run Some by (simp add: number_value_def agrees_def)
  next
    case 3
    with s show ?thesis unfolding run Some by (simp add: number_value_def suffix_def)
  qed
qed

section \<open>Values\<close>

definition agrees_scan :: "string \<Rightarrow> 'a json_run \<Rightarrow> string option option \<Rightarrow> bool" where
  "agrees_scan s run scan \<longleftrightarrow> (case run of
     Out_Of_Fuel \<Rightarrow> True
   | Done v r \<Rightarrow> scan = Some (Some r) \<and> suffix r s
   | Fatal m \<Rightarrow> scan = Some None \<or> unfit_number s m \<or> (\<exists>r. scan = Some (Some r) \<and> hex_tail r))"

lemma agrees_scan_simps [simp]:
  "agrees_scan s (Done v r) scan \<longleftrightarrow> scan = Some (Some r) \<and> suffix r s" "agrees_scan s (Fatal m) (Some None)"
  "agrees_scan s Out_Of_Fuel scan" "agrees_scan s run (Some X) \<longleftrightarrow> agrees s run X"
  by (auto simp: agrees_scan_def agrees_def split: json_run.split)

lemma agrees_scan_suffix: "agrees_scan t run scan \<Longrightarrow> suffix t s \<Longrightarrow> agrees_scan s run scan"
  by (auto simp: agrees_scan_def split: json_run.splits intro: unfit_number_suffix suffix_order.trans)

lemma agrees_scan_bind:
  assumes "agrees_scan s m X" "\<And>u r. m = Done u r \<Longrightarrow> suffix r s \<Longrightarrow> agrees_scan s (f u r) (g r)"
    and "\<And>r. hex_tail r \<Longrightarrow> g r = Some None"
  shows "agrees_scan s (json_bind m f) (scan_bind X g)"
  using assms by (cases m) (auto simp: scan_bind_def agrees_scan_def)

lemma expect_char: "c \<noteq> nul \<Longrightarrow> s \<noteq> [] \<Longrightarrow> hd s = c \<Longrightarrow> expect len c s = Done () (tl s)"
  by (cases s) (simp_all add: expect_def advance_def)

lemma expect_other: "c \<noteq> nul \<Longrightarrow> s = [] \<or> hd s \<noteq> c \<Longrightarrow> \<exists>m. expect len c s = Fatal m"
  by (cases s) (simp_all add: expect_def advance_def)

lemma advance_tl [simp]: "snd (advance s) = tl s"
  by (cases s) (simp_all add: advance_def)

lemma skip_space_twice [simp]: "skip_space (skip_space s) = skip_space s"
  by (induction s) simp_all

lemma suffix_space: "suffix (skip_space s) s"
  by (rule suffix_dropWhile)

lemma suffix_tl_space: "suffix r s \<Longrightarrow> suffix (tl (skip_space r)) s" "suffix r s \<Longrightarrow> suffix (skip_space r) s"
  using suffix_space suffix_tl suffix_order.trans by blast+

lemma hex_tail_hd: "hex_tail r \<Longrightarrow> hd r \<noteq> CHR '','' \<and> hd r \<noteq> CHR ''}'' \<and> hd r \<noteq> CHR '']''"
  by (auto simp: hex_tail_def)

lemma object_loop_agrees:
  assumes "\<And>s. agrees_scan s (P (skip_space s)) (V s)"
  shows "agrees_scan s (object_loop len P n s ms) (strict_object_loop V n (skip_space s))"
proof (induction n arbitrary: s ms)
  case (Suc n)
  note [simp del] = dropWhile_eq_Nil_conv
  show ?case
  proof (cases "peek (skip_space s) = CHR 0x22")
    case True
    then have "skip_space s \<noteq> []" by (auto simp: peek_eq)
    show ?thesis
      using True
    proof (cases rule: parse_string_token [where len = len])
      case (done_ key r)
      then have r: "suffix r s" using suffix_space suffix_order.trans by blast
      show ?thesis
      proof (cases "skip_space r = [] \<or> hd (skip_space r) \<noteq> CHR '':''")
        case colon: True
        then obtain m where "expect len CHR '':'' (skip_space r) = Fatal m" using expect_other by force
        with True colon done_ \<open>skip_space s \<noteq> []\<close> show ?thesis by (auto simp: Let_def)
      next
        case False
        let ?t = "tl (skip_space r)"
        define f where "f v r' = (let ms' = insert_or_assign key v ms; r' = skip_space r'; ch = peek r' in
            if ch = CHR '','' then object_loop len P n (snd (advance r')) ms'
            else if ch = CHR ''}'' then Done (JObject ms') (snd (advance r'))
            else fatal_at len (''Expected '' @ CHR 0x27 # CHR '','' # CHR 0x27 # '' or '' @ CHR 0x27 # CHR ''}'' # [CHR 0x27]) r')"
          for v r'
        define g where "g r' = (let r' = skip_space r' in
              if r' \<noteq> [] \<and> hd r' = CHR '','' then strict_object_loop V n (skip_space (tl r'))
              else if r' \<noteq> [] \<and> hd r' = CHR ''}'' then Some (Some (tl r'))
              else Some None)" for r'
        have "agrees_scan s (json_bind (P (skip_space ?t)) f) (scan_bind (V ?t) g)"
        proof (rule agrees_scan_bind [OF agrees_scan_suffix [OF assms suffix_tl_space(1) [OF r]]])
          fix v r' assume "suffix r' s"
          then have r': "suffix (tl (skip_space r')) s" by (rule suffix_tl_space)
          with agrees_scan_suffix [OF Suc.IH r'] show "agrees_scan s (f v r') (g r')"
            by (auto simp: f_def g_def Let_def fatal_at_def peek_eq)
        qed (simp add: g_def hex_tail_space hex_tail_hd)
        moreover have "expect len CHR '':'' (skip_space r) = Done () ?t" using False by (simp add: expect_char)
        ultimately show ?thesis
          using True False done_ \<open>skip_space s \<noteq> []\<close> by (simp add: Let_def f_def [abs_def] g_def [abs_def])
      qed
    qed (use True \<open>skip_space s \<noteq> []\<close> in simp)
  next
    case False
    then have "parse_json_string_token (skip_space s) = None" by (auto simp: parse_json_string_token_def peek_eq)
    with False show ?thesis by (simp add: fatal_at_def)
  qed
qed simp

lemma array_loop_agrees:
  assumes "\<And>s. agrees_scan s (P (skip_space s)) (V s)" "\<And>v r. P [] \<noteq> Done v r"
  shows "agrees_scan s (array_loop len P n s es) (strict_array_loop V n (skip_space s))"
proof (induction n arbitrary: s es)
  case (Suc n)
  note [simp del] = dropWhile_eq_Nil_conv
  show ?case
  proof (cases "skip_space s = []")
    case True
    then show ?thesis
      by (cases "P []") (simp_all add: assms(2))
  next
    case False
    define f where "f v r' = (let es' = es @ [v]; r' = skip_space r'; ch = peek r' in
       if ch = CHR '','' then array_loop len P n (snd (advance r')) es'
       else if ch = CHR '']'' then Done (JArray es') (snd (advance r'))
       else fatal_at len (''Expected '' @ CHR 0x27 # CHR '','' # CHR 0x27 # '' or '' @ CHR 0x27 # CHR '']'' # [CHR 0x27]) r')"
      for v r'
    define g where "g r' = (let r' = skip_space r' in
        if r' \<noteq> [] \<and> hd r' = CHR '','' then strict_array_loop V n (skip_space (tl r'))
        else if r' \<noteq> [] \<and> hd r' = CHR '']'' then Some (Some (tl r'))
        else Some None)" for r'
    have "agrees_scan s (json_bind (P (skip_space s)) f) (scan_bind (V (skip_space s)) g)"
    proof (rule agrees_scan_bind)
      show "agrees_scan s (P (skip_space s)) (V (skip_space s))"
        using agrees_scan_suffix [OF assms(1) [of "skip_space s"] suffix_space [of s]] by simp
      fix v r' assume "suffix r' s"
      then have r': "suffix (tl (skip_space r')) s" by (rule suffix_tl_space)
      with agrees_scan_suffix [OF Suc.IH r'] show "agrees_scan s (f v r') (g r')"
        by (auto simp: f_def g_def Let_def fatal_at_def peek_eq)
    qed (simp add: g_def hex_tail_space hex_tail_hd)
    with False show ?thesis by (simp add: Let_def f_def [abs_def] g_def [abs_def])
  qed
qed simp

lemma parse_value_nil: "parse_value len n [] \<noteq> Done v r"
  by (cases n) (simp_all add: peek_def starts_with_literal_def fatal_at_def is_digit_def chr_code_def)

lemma skip_json_strict_value_space: "skip_json_strict_value n (skip_space s) = skip_json_strict_value n s"
  by (cases n) (simp_all del: dropWhile_eq_Nil_conv)

lemma parse_value_agrees: "agrees_scan s (parse_value len n s) (skip_json_strict_value n s)"
proof (induction n arbitrary: s)
  case (Suc n)
  note [simp del] = dropWhile_eq_Nil_conv
  define t where "t = skip_space s"
  have IH: "agrees_scan s (parse_value len n (skip_space s)) (skip_json_strict_value n s)" for s
    using agrees_scan_suffix [OF Suc [of "skip_space s"] suffix_space] by (simp add: skip_json_strict_value_space)
  have "agrees_scan t (parse_value len (Suc n) s) (skip_json_strict_value (Suc n) s)"
  proof (cases t)
    case Nil
    then show ?thesis
      by (simp add: t_def [symmetric] peek_def starts_with_literal_def fatal_at_def is_digit_def chr_code_def)
  next
    case (Cons c r)
    have r: "suffix (skip_space r) t" "suffix (tl (skip_space r)) t"
      using suffix_tl_space [of r t] by (simp_all add: Cons suffix_Cons)
    consider "c = CHR ''{''" | "c = CHR ''[''" | "c = CHR 0x22" | "c = CHR ''-'' \<or> is_digit c" |
      "c \<noteq> CHR ''{''" "c \<noteq> CHR ''[''" "c \<noteq> CHR 0x22" "c \<noteq> CHR ''-''" "\<not> is_digit c" by blast
    then show ?thesis
    proof cases
      case 1
      have "agrees_scan t (object_loop len (parse_value len n) n (skip_space r) [])
          (strict_object_loop (skip_json_strict_value n) n (skip_space r))"
        using agrees_scan_suffix [OF object_loop_agrees [of "parse_value len n" "skip_json_strict_value n", OF IH] r(1), of len n "[]"]
        by simp
      with 1 Cons r(2) show ?thesis
        by (auto simp: t_def [symmetric] Let_def parse_object_def skip_json_strict_object_def expect_char peek_eq)
    next
      case 2
      have "agrees_scan t (array_loop len (parse_value len n) n (skip_space r) [])
          (strict_array_loop (skip_json_strict_value n) n (skip_space r))"
        using agrees_scan_suffix [OF array_loop_agrees [of "parse_value len n" "skip_json_strict_value n", OF IH parse_value_nil] r(1), of len n "[]"]
        by simp
      with 2 Cons r(2) show ?thesis
        by (auto simp: t_def [symmetric] Let_def parse_array_def skip_json_strict_array_def expect_char peek_eq)
    next
      case 3
      with Cons have q: "peek t = CHR 0x22" by (simp add: peek_def)
      then show ?thesis
        by (cases rule: parse_string_token [where len = len])
          (use 3 Cons in \<open>simp_all add: t_def [symmetric] Let_def peek_eq\<close>)
    next
      case 4
      have "agrees t (json_bind (parse_number len t) (\<lambda>v r. Done (JNumber v) r)) (skip_json_strict_number t)"
        using parse_number_agrees [of t len] by (cases "parse_number len t") (simp_all add: agrees_def)
      moreover have "c \<noteq> CHR ''{''" "c \<noteq> CHR ''[''" "c \<noteq> CHR 0x22" "c \<noteq> CHR ''t''" "c \<noteq> CHR ''f''" "c \<noteq> CHR ''n''"
        using 4 by (auto simp: is_digit_def chr_code_def)
      ultimately show ?thesis using 4 Cons by (auto simp: t_def [symmetric] Let_def peek_def)
    next
      case 5
      then have "agrees_scan t (if starts_with_literal ''true'' t \<or> starts_with_literal ''false'' t \<or> starts_with_literal ''null'' t
             then parse_literal len t else fatal_at len m t)
          (if c = CHR ''t'' then Some (consume_literal ''true'' t)
           else if c = CHR ''f'' then Some (consume_literal ''false'' t)
           else if c = CHR ''n'' then Some (consume_literal ''null'' t) else Some None)" for m
        using suffix_drop [of 4 t] suffix_drop [of 5 t]
        by (cases "c = CHR ''t''"; cases "c = CHR ''f''"; cases "c = CHR ''n''")
          (simp_all add: Cons parse_literal_def consume_literal_def starts_with_literal_def fatal_at_def numeral_eq_Suc)
      moreover have "skip_json_strict_value (Suc n) s =
          (if c = CHR ''t'' then Some (consume_literal ''true'' t)
           else if c = CHR ''f'' then Some (consume_literal ''false'' t)
           else if c = CHR ''n'' then Some (consume_literal ''null'' t) else Some None)"
        using 5 by (simp add: t_def [symmetric] Let_def Cons)
      moreover have "parse_value len (Suc n) s =
          (if starts_with_literal ''true'' t \<or> starts_with_literal ''false'' t \<or> starts_with_literal ''null'' t
           then parse_literal len t else fatal_at len ''Invalid value'' t)"
        using 5 by (simp add: t_def [symmetric] Let_def Cons peek_def)
      ultimately show ?thesis by simp
    qed
  qed
  then show ?case unfolding t_def using suffix_space by (rule agrees_scan_suffix)
qed simp

section \<open>Fuel\<close>

text \<open>A run ends when it has fuel enough and leaves less than \<open>k\<close> characters.\<close>

definition ends :: "'a json_run \<Rightarrow> nat \<Rightarrow> bool" where
  "ends run k \<longleftrightarrow> (case run of Out_Of_Fuel \<Rightarrow> False | Fatal m \<Rightarrow> True | Done v r \<Rightarrow> length r < k)"

definition scan_ends :: "string option option \<Rightarrow> nat \<Rightarrow> bool" where
  "scan_ends scan k \<longleftrightarrow> (case scan of None \<Rightarrow> False | Some None \<Rightarrow> True | Some (Some r) \<Rightarrow> length r < k)"

lemma ends_simps [simp]:
  "ends (Done v r) k \<longleftrightarrow> length r < k" "ends (Fatal m) k" "\<not> ends Out_Of_Fuel k" "ends (fatal_at len m s) k"
  by (simp_all add: ends_def fatal_at_def)

lemma scan_ends_simps [simp]:
  "scan_ends (Some (Some r)) k \<longleftrightarrow> length r < k" "scan_ends (Some None) k" "\<not> scan_ends None k"
  by (simp_all add: scan_ends_def)

lemma ends_mono: "ends run k \<Longrightarrow> k \<le> j \<Longrightarrow> ends run j"
  by (cases run) simp_all

lemma scan_ends_mono: "scan_ends scan k \<Longrightarrow> k \<le> j \<Longrightarrow> scan_ends scan j"
  by (cases scan; cases "the scan") simp_all

lemma ends_bind: "ends m k \<Longrightarrow> (\<And>u r. length r < k \<Longrightarrow> ends (f u r) j) \<Longrightarrow> ends (json_bind m f) j"
  by (cases m) simp_all

lemma scan_ends_bind: "scan_ends m k \<Longrightarrow> (\<And>r. length r < k \<Longrightarrow> scan_ends (g r) j) \<Longrightarrow> scan_ends (scan_bind m g) j"
  by (cases m; cases "the m") (simp_all add: scan_bind_def)

lemma expect_ends: "c \<noteq> nul \<Longrightarrow> length s \<le> k \<Longrightarrow> ends (expect len c s) k"
  by (cases s) (simp_all add: expect_def advance_def)

lemma skip_space_length: "length s < k \<Longrightarrow> length (skip_space s) < k" "length s \<le> k \<Longrightarrow> length (skip_space s) \<le> k"
  using length_dropWhile_le [of is_space s] by simp_all

lemma parse_string_ends: "peek s = CHR 0x22 \<Longrightarrow> ends (parse_string len s) (length s)"
  by (cases rule: parse_string_token [of s len]) simp_all

lemma object_loop_ends:
  assumes "\<And>s. length s < m \<Longrightarrow> ends (P s) (length s)"
  shows "length s < n \<Longrightarrow> length s \<le> m \<Longrightarrow> ends (object_loop len P n s ms) (length s)"
proof (induction n arbitrary: s ms)
  case (Suc n)
  note [simp del] = dropWhile_eq_Nil_conv
  define t where "t = skip_space s"
  have t: "length t \<le> length s" by (simp add: t_def length_dropWhile_le)
  have member: "ends (json_bind (parse_string len t) (\<lambda>key r.
        json_bind (expect len CHR '':'' (skip_space r)) (\<lambda>_ r.
        json_bind (P (skip_space r)) (\<lambda>v r. f key v (skip_space r))))) (length s)"
    if "peek t = CHR 0x22" and f: "\<And>key v r. length r < length s \<Longrightarrow> ends (f key v r) (length s)" for f
  proof (rule ends_bind [OF parse_string_ends])
    fix key and r :: string assume r: "length r < length t"
    show "ends (json_bind (expect len CHR '':'' (skip_space r)) (\<lambda>_ r.
        json_bind (P (skip_space r)) (\<lambda>v r. f key v (skip_space r)))) (length s)"
    proof (rule ends_bind [OF expect_ends])
      show "length (skip_space r) \<le> length t - 1" using skip_space_length(1) [OF r] by simp
      fix r' :: string assume "length r' < length t - 1"
      then have *: "length (skip_space r') < length t - 1" by (rule skip_space_length)
      show "ends (json_bind (P (skip_space r')) (\<lambda>v r. f key v (skip_space r))) (length s)"
      proof (rule ends_bind [OF assms])
        show "length (skip_space r') < m" using * t Suc.prems by simp
        fix v and r'' :: string assume "length r'' < length (skip_space r')"
        with * t have "length r'' < length s" by simp
        then show "ends (f key v (skip_space r'')) (length s)" by (intro f skip_space_length)
      qed
    qed simp
  qed (rule that)
  have "ends (object_loop len P n (tl r) ms) (length s)" if "length r < length s" for r ms
  proof -
    have "length (tl r) < n" "length (tl r) \<le> m" "length (tl r) < length s" using that Suc.prems by auto
    with Suc.IH [of "tl r" ms] show ?thesis by (auto intro: ends_mono)
  qed
  note again = this
  define step where "step key v r = (if peek r = CHR '','' then object_loop len P n (snd (advance r)) (insert_or_assign key v ms)
      else if peek r = CHR ''}'' then Done (JObject (insert_or_assign key v ms)) (snd (advance r))
      else fatal_at len (''Expected '' @ CHR 0x27 # CHR '','' # CHR 0x27 # '' or '' @ CHR 0x27 # CHR ''}'' # [CHR 0x27]) r)"
    for key v r
  have "ends (step key v r) (length s)" if "length r < length s" for key v r
    using that again by (auto simp: step_def)
  from member [of step, OF _ this] show ?case by (auto simp: Let_def t_def [symmetric] step_def)
qed simp

lemma array_loop_ends:
  assumes "\<And>s. length s < m \<Longrightarrow> ends (P s) (length s)"
  shows "length s < n \<Longrightarrow> length s < m \<Longrightarrow> ends (array_loop len P n s es) (length s)"
proof (induction n arbitrary: s es)
  case (Suc n)
  note [simp del] = dropWhile_eq_Nil_conv
  have element: "ends (json_bind (P (skip_space s)) (\<lambda>v r. f v (skip_space r))) (length s)"
    if f: "\<And>v r. length r < length s \<Longrightarrow> ends (f v r) (length s)" for f
  proof (rule ends_bind [OF assms])
    show "length (skip_space s) < m" using Suc.prems(2) by (rule skip_space_length)
    fix v and r :: string assume "length r < length (skip_space s)"
    also have "\<dots> \<le> length s" by (rule length_dropWhile_le)
    finally show "ends (f v (skip_space r)) (length s)" by (intro f skip_space_length)
  qed
  have "ends (array_loop len P n (tl r) es) (length s)" if "length r < length s" for r es
  proof -
    have "length (tl r) < n" "length (tl r) < m" "length (tl r) < length s" using that Suc.prems by auto
    with Suc.IH [of "tl r" es] show ?thesis by (auto intro: ends_mono)
  qed
  note again = this
  define step where "step v r = (if peek r = CHR '','' then array_loop len P n (snd (advance r)) (es @ [v])
      else if peek r = CHR '']'' then Done (JArray (es @ [v])) (snd (advance r))
      else fatal_at len (''Expected '' @ CHR 0x27 # CHR '','' # CHR 0x27 # '' or '' @ CHR 0x27 # CHR '']'' # [CHR 0x27]) r)"
    for v r
  have "ends (step v r) (length s)" if "length r < length s" for v r
    using that again by (auto simp: step_def)
  from element [of step, OF this] show ?case by (auto simp: Let_def step_def)
qed simp

lemma number_integer_ends: "ends (number_integer len s) (length s)"
  by (cases s) (auto simp: number_integer_def peek_eq dropWhile_digits less_Suc_eq_le length_dropWhile_le)

lemma number_fraction_ends: "length s < k \<Longrightarrow> ends (number_fraction len s) k"
  using length_dropWhile_le [of is_digit "tl s"] by (auto simp: number_fraction_def)

lemma number_exponent_ends: "length s < k \<Longrightarrow> ends (number_exponent len s) k"
  using length_dropWhile_le [of is_digit "tl s"] length_dropWhile_le [of is_digit "tl (tl s)"]
  by (auto simp: number_exponent_def Let_def)

lemma parse_number_ends: "ends (parse_number len s) (length s)"
proof -
  have number: "ends (number_value num r) (length s)" if "length r < length s" for num r
    using that by (simp add: number_value_def split: option.split)
  have "ends (number_integer len (if peek s = CHR ''-'' then tl s else s)) (length s)"
    using number_integer_ends by (rule ends_mono) simp
  then show ?thesis
    unfolding parse_number_def
    by (rule ends_bind) (rule ends_bind [OF number_fraction_ends], assumption,
      rule ends_bind [OF number_exponent_ends], assumption, rule number)
qed

lemma parse_value_ends: "length s < n \<Longrightarrow> ends (parse_value len n s) (length s)"
proof (induction n arbitrary: s)
  case (Suc n)
  note [simp del] = dropWhile_eq_Nil_conv
  define t where "t = skip_space s"
  have t: "length t \<le> length s" by (simp add: t_def length_dropWhile_le)
  have "ends (parse_object len (parse_value len n) n t) (length t)" if "peek t = CHR ''{''"
  proof -
    from that have "t \<noteq> []" "hd t = CHR ''{''" by (simp_all add: peek_eq)
    then have "length (skip_space (tl t)) < length t" by (intro skip_space_length) simp
    with \<open>t \<noteq> []\<close> \<open>hd t = _\<close> t Suc.prems
      object_loop_ends [of n "parse_value len n" "skip_space (tl t)" n len "[]", OF Suc.IH]
    show ?thesis by (auto simp: parse_object_def expect_char Let_def intro: ends_mono)
  qed
  moreover have "ends (parse_array len (parse_value len n) n t) (length t)" if "peek t = CHR ''[''"
  proof -
    from that have "t \<noteq> []" "hd t = CHR ''[''" by (simp_all add: peek_eq)
    then have "length (skip_space (tl t)) < length t" by (intro skip_space_length) simp
    with \<open>t \<noteq> []\<close> \<open>hd t = _\<close> t Suc.prems
      array_loop_ends [of n "parse_value len n" "skip_space (tl t)" n len "[]", OF Suc.IH]
    show ?thesis by (auto simp: parse_array_def expect_char Let_def intro: ends_mono)
  qed
  moreover have "ends (json_bind (parse_number len t) (\<lambda>v r. Done (JNumber v) r)) (length t)"
    by (rule ends_bind [OF parse_number_ends]) simp
  moreover have "ends (json_bind (parse_string len t) (\<lambda>v r. Done (JString v) r)) (length t)" if "peek t = CHR 0x22"
    by (rule ends_bind [OF parse_string_ends]) (simp_all add: that)
  moreover have "ends (parse_literal len t) (length t)"
    by (auto simp: parse_literal_def starts_with_literal_def)
  ultimately have "ends (parse_value len (Suc n) s) (length t)"
    by (simp add: Let_def t_def [symmetric])
  with t show ?case by (rule ends_mono [rotated])
qed simp

lemma strict_object_loop_ends:
  assumes "\<And>s. length s < m \<Longrightarrow> scan_ends (V s) (length s)"
  shows "length s < n \<Longrightarrow> length s \<le> m \<Longrightarrow> scan_ends (strict_object_loop V n s) (length s)"
proof (induction n arbitrary: s)
  case (Suc n)
  note [simp del] = dropWhile_eq_Nil_conv
  have again: "scan_ends (strict_object_loop V n (skip_space (tl r))) (length s)" if "length r < length s" for r
  proof -
    have "length (skip_space (tl r)) \<le> length (tl r)" by (rule length_dropWhile_le)
    then have "length (skip_space (tl r)) < n" "length (skip_space (tl r)) \<le> m" "length (skip_space (tl r)) < length s"
      using that Suc.prems by auto
    with Suc.IH [of "skip_space (tl r)"] show ?thesis by (auto intro: scan_ends_mono)
  qed
  show ?case
  proof (cases "parse_json_string_token s")
    case (Some p)
    obtain key r where p: "p = (key, r)" by (cases p)
    with Some have r: "length r < length s" using parse_json_string_token_rest by simp
    define u where "u = skip_space r"
    have u: "length u < length s" using r by (auto simp: u_def intro: skip_space_length)
    then have "length (tl u) < m" using Suc.prems by simp
    then have "scan_ends (V (tl u)) (length (tl u))" by (rule assms)
    moreover have "scan_ends
        (let r = skip_space r in
         if r \<noteq> [] \<and> hd r = CHR '','' then strict_object_loop V n (skip_space (tl r))
         else if r \<noteq> [] \<and> hd r = CHR ''}'' then Some (Some (tl r))
         else Some None) (length s)" if "length r < length (tl u)" for r
    proof -
      have "length (skip_space r) < length s" using that u by (intro skip_space_length) simp
      with again show ?thesis by (auto simp: Let_def)
    qed
    ultimately show ?thesis using Some by (auto simp: p Let_def u_def intro: scan_ends_bind)
  qed simp
qed simp

lemma strict_array_loop_ends:
  assumes "\<And>s. length s < m \<Longrightarrow> scan_ends (V s) (length s)"
  shows "length s < n \<Longrightarrow> length s < m \<Longrightarrow> scan_ends (strict_array_loop V n s) (length s)"
proof (induction n arbitrary: s)
  case (Suc n)
  note [simp del] = dropWhile_eq_Nil_conv
  have again: "scan_ends (strict_array_loop V n (skip_space (tl r))) (length s)" if "length r < length s" for r
  proof -
    have "length (skip_space (tl r)) \<le> length (tl r)" by (rule length_dropWhile_le)
    then have "length (skip_space (tl r)) < n" "length (skip_space (tl r)) < m" "length (skip_space (tl r)) < length s"
      using that Suc.prems by auto
    with Suc.IH [of "skip_space (tl r)"] show ?thesis by (auto intro: scan_ends_mono)
  qed
  have "scan_ends
      (let r = skip_space r in
       if r \<noteq> [] \<and> hd r = CHR '','' then strict_array_loop V n (skip_space (tl r))
       else if r \<noteq> [] \<and> hd r = CHR '']'' then Some (Some (tl r))
       else Some None) (length s)" if "length r < length s" for r
  proof -
    have "length (skip_space r) < length s" using that by (rule skip_space_length)
    with again show ?thesis by (auto simp: Let_def)
  qed
  with assms [OF Suc.prems(2)] show ?case by (auto intro: scan_ends_bind)
qed simp

lemma skip_digits_rest: "skip_digits s = Some r \<Longrightarrow> length r \<le> length s"
  by (auto simp: skip_digits_def length_dropWhile_le split: if_splits)

lemma skip_json_strict_number_rest: "skip_json_strict_number s = Some r \<Longrightarrow> length r < length s"
proof -
  let ?s = "if s \<noteq> [] \<and> hd s = CHR ''-'' then tl s else s"
  assume "skip_json_strict_number s = Some r"
  then obtain s2 s3 where s2: "(if ?s = [] then None
         else if hd ?s = CHR ''0'' then (if tl ?s \<noteq> [] \<and> is_digit (hd (tl ?s)) then None else Some (tl ?s))
         else if 49 \<le> chr_code (hd ?s) \<and> chr_code (hd ?s) \<le> 57 then Some (dropWhile is_digit ?s)
         else None) = Some s2"
    and s3: "(if s2 \<noteq> [] \<and> hd s2 = CHR ''.'' then skip_digits (tl s2) else Some s2) = Some s3"
    and r: "(if s3 \<noteq> [] \<and> (hd s3 = CHR ''e'' \<or> hd s3 = CHR ''E'') then
          skip_digits (if tl s3 \<noteq> [] \<and> (hd (tl s3) = CHR ''+'' \<or> hd (tl s3) = CHR ''-'') then tl (tl s3) else tl s3)
        else Some s3) = Some r"
    by (auto simp: skip_json_strict_number_def Let_def bind_eq_Some_conv)
  have "length s2 < length ?s"
    using number_integer_scan [where len = 0 and s = ?s, OF refl, unfolded s2] number_integer_ends [of 0 ?s]
    by (cases "number_integer 0 ?s") simp_all
  also have "length ?s \<le> length s" by simp
  finally have "length s2 < length s" .
  moreover have "length s3 \<le> length s2" using s3 by (auto dest!: skip_digits_rest split: if_splits)
  moreover have "length r \<le> length s3" using r by (auto dest!: skip_digits_rest split: if_splits)
  ultimately show ?thesis by simp
qed

lemma skip_json_strict_value_ends: "length s < n \<Longrightarrow> scan_ends (skip_json_strict_value n s) (length s)"
proof (induction n arbitrary: s)
  case (Suc n)
  note [simp del] = dropWhile_eq_Nil_conv
  define t where "t = skip_space s"
  have t: "length t \<le> length s" by (simp add: t_def length_dropWhile_le)
  have "scan_ends (skip_json_strict_object (skip_json_strict_value n) n t) (length t)"
  proof (cases t)
    case (Cons c r)
    have "length (skip_space r) \<le> length r" by (rule length_dropWhile_le)
    then show ?thesis using t Suc.prems
      strict_object_loop_ends [of n "skip_json_strict_value n" "skip_space r" n, OF Suc.IH]
      by (auto simp: skip_json_strict_object_def Cons Let_def intro: scan_ends_mono)
  qed (simp add: skip_json_strict_object_def)
  moreover have "scan_ends (skip_json_strict_array (skip_json_strict_value n) n t) (length t)"
  proof (cases t)
    case (Cons c r)
    have "length (skip_space r) \<le> length r" by (rule length_dropWhile_le)
    then show ?thesis using t Suc.prems
      strict_array_loop_ends [of n "skip_json_strict_value n" "skip_space r" n, OF Suc.IH]
      by (auto simp: skip_json_strict_array_def Cons Let_def intro: scan_ends_mono)
  qed (simp add: skip_json_strict_array_def)
  moreover have "scan_ends (Some (skip_json_strict_number t)) (length t)"
    using skip_json_strict_number_rest by (cases "skip_json_strict_number t") auto
  moreover have "scan_ends (Some (consume_literal l t)) (length t)" if "l \<noteq> []" for l
    using that by (cases l) (auto simp: consume_literal_def)
  moreover have "scan_ends (Some (map_option snd (parse_json_string_token t))) (length t)"
    using parse_json_string_token_rest by (cases "parse_json_string_token t") (auto simp: prod.split)
  ultimately have "scan_ends (skip_json_strict_value (Suc n) s) (length t)"
    by (simp add: Let_def t_def [symmetric])
  with t show ?case by (rule scan_ends_mono [rotated])
qed simp

section \<open>The parser and the validity check\<close>

fun is_compound :: "json_value \<Rightarrow> bool" where
  "is_compound (JObject m) = True"
| "is_compound (JArray xs) = True"
| "is_compound _ = False"

lemma json_bind_Done: "json_bind m f = Done v r \<longleftrightarrow> (\<exists>u r'. m = Done u r' \<and> f u r' = Done v r)"
  by (cases m) auto

lemma fatal_at_Done [simp]: "fatal_at len m s \<noteq> Done v r"
  by (simp add: fatal_at_def)

lemma object_loop_value: "object_loop len P n s ms = Done v r \<Longrightarrow> \<exists>ms. v = JObject ms"
  by (induction n arbitrary: s ms) (auto simp: Let_def json_bind_Done split: if_splits)

lemma array_loop_value: "array_loop len P n s es = Done v r \<Longrightarrow> \<exists>es. v = JArray es"
  by (induction n arbitrary: s es) (auto simp: Let_def json_bind_Done split: if_splits)

lemma parse_value_compound:
  "parse_value len n s = Done v r \<Longrightarrow>
     is_compound v \<longleftrightarrow> peek (skip_space s) = CHR ''{'' \<or> peek (skip_space s) = CHR ''[''"
  by (cases n)
    (auto simp: Let_def json_bind_Done parse_object_def parse_array_def parse_literal_def
      dest!: object_loop_value array_loop_value split: if_splits)

lemma parse_value_space: "parse_value len n (skip_space s) = parse_value len n s"
  by (cases n) (simp_all del: dropWhile_eq_Nil_conv)

text \<open>A text that the strict scanner reads as one value, with nothing but blanks around it.\<close>

definition strict_text :: "string \<Rightarrow> bool" where
  "strict_text s \<longleftrightarrow> (case skip_json_strict_value (length s + 1) s of Some (Some r) \<Rightarrow> skip_space r = [] | _ \<Rightarrow> False)"

text \<open>
  C15: the parser never runs out of its fuel, reads its whole input, and reads exactly the texts the strict
  scanner does: it reads a value only if the scanner accepts the text, and it rejects a text the scanner
  accepts only with a message about a number that stands in the text and whose value is too large for a
  \<open>double\<close>, or too small to be a normal one. The validity check accepts a text the parser reads exactly
  when its value is an object or an array; it refuses every text the scanner refuses.
\<close>

theorem json_parser_and_validity_check:
  "case json_parse s of
     Out_Of_Fuel \<Rightarrow> False
   | Done v r \<Rightarrow> r = [] \<and> strict_text s \<and> json_fast_validity_check s = Some (is_compound v)
   | Fatal m \<Rightarrow> if strict_text s then unfit_number s m else json_fast_validity_check s = Some False"
proof -
  define n where "n = length s + 1"
  note [simp del] = dropWhile_eq_Nil_conv
  have ends: "ends (parse_value (length s) n s) (length s)" "scan_ends (skip_json_strict_value n s) (length s)"
    by (rule parse_value_ends skip_json_strict_value_ends, simp add: n_def)+
  have agree: "agrees_scan s (parse_value (length s) n s) (skip_json_strict_value n s)" by (rule parse_value_agrees)
  have check: "json_fast_validity_check s =
      (if peek (skip_space s) \<noteq> CHR ''{'' \<and> peek (skip_space s) \<noteq> CHR ''['' then Some False
       else map_option (\<lambda>result. case result of None \<Rightarrow> False | Some r \<Rightarrow> skip_space r = [])
        (skip_json_strict_value n s))"
    by (auto simp: json_fast_validity_check_def Let_def peek_eq n_def skip_json_strict_value_space)
  have parse: "json_parse s = json_bind (parse_value (length s) n s) (\<lambda>v r.
       if skip_space r \<noteq> [] then fatal_at (length s) ''Extra characters after parsing JSON'' (skip_space r)
       else Done v (skip_space r))"
    by (simp add: json_parse_def n_def Let_def parse_value_space)
  have strict: "strict_text s \<longleftrightarrow> (case skip_json_strict_value n s of Some (Some r) \<Rightarrow> skip_space r = [] | _ \<Rightarrow> False)"
    by (simp add: strict_text_def n_def)
  show ?thesis
  proof (cases "parse_value (length s) n s")
    case (Done v r)
    with agree parse_value_compound [OF Done] show ?thesis
      by (simp add: parse check strict fatal_at_def)
  next
    case (Fatal m)
    have "skip_space r \<noteq> []" if "hex_tail r" for r using that hex_tail_space [OF that] by (simp add: hex_tail_def)
    with Fatal agree ends(2) show ?thesis
      by (auto simp: parse check strict agrees_scan_def scan_ends_def split: option.splits)
  qed (use ends(1) in simp)
qed

end
