(* ===== verification/Json_Extract.thy ===== *)
theory Json_Extract
  imports Json_Agreement
begin

text \<open>
  The search of \<open>extract_json_string_value\<close> against the parser: on a text the parser accepts, skipping a
  value without parsing it ends where parsing it ends.
\<close>

section \<open>Skipping\<close>

definition in_string_plain :: "char \<Rightarrow> bool" where
  "in_string_plain c \<longleftrightarrow> c \<noteq> CHR 0x22 \<and> c \<noteq> CHR 0x5C \<and> 0x20 \<le> chr_code c"

definition structural :: "char \<Rightarrow> bool" where
  "structural c \<longleftrightarrow> c = CHR 0x22 \<or> c = CHR ''{'' \<or> c = CHR ''}'' \<or> c = CHR ''['' \<or> c = CHR '']''"

lemma compound_loop_string_plain:
  "list_all in_string_plain p \<Longrightarrow> compound_loop st True False (p @ r) = compound_loop st True False r"
  by (induction p) (simp_all add: in_string_plain_def)

lemma compound_loop_plain:
  "list_all (\<lambda>c. \<not> structural c) p \<Longrightarrow> st \<noteq> [] \<Longrightarrow> compound_loop st False False (p @ r) = compound_loop st False False r"
  by (induction p) (simp_all add: structural_def)

lemma is_space_plain: "is_space c \<Longrightarrow> \<not> structural c"
  by (auto simp: is_space_def structural_def chr_code_def)

lemma compound_loop_space: "st \<noteq> [] \<Longrightarrow> compound_loop st False False (skip_space s) = compound_loop st False False s"
proof -
  assume "st \<noteq> []"
  moreover have "list_all (\<lambda>c. \<not> structural c) (takeWhile is_space s)"
    by (auto simp: list_all_iff is_space_plain dest: set_takeWhileD)
  ultimately show ?thesis using compound_loop_plain [of "takeWhile is_space s" st "skip_space s"] by simp
qed

lemma is_hex_digit_plain: "is_hex_digit c \<Longrightarrow> in_string_plain c"
  by (auto simp: is_hex_digit_def in_string_plain_def chr_code_def)

lemma compound_loop_hex4:
  assumes "hex4_code_unit s = Some (u, r)"
  shows "compound_loop st True False s = compound_loop st True False r"
proof -
  have "s = take 4 s @ r" "list_all in_string_plain (take 4 s)"
    using assms by (auto simp: hex4_code_unit_def list_all_iff is_hex_digit_plain split: if_splits)
  then show ?thesis by (metis compound_loop_string_plain)
qed

lemma compound_loop_escape: "c # r \<noteq> [] \<Longrightarrow> compound_loop st True False (CHR 0x5C # c # r) = compound_loop st True False r"
  by simp

lemma compound_loop_unicode:
  assumes "unicode_code_point s = Inr (cp, r)"
  shows "compound_loop st True False s = compound_loop st True False r"
proof -
  obtain u r' where u: "hex4_code_unit s = Some (u, r')"
    using assms by (auto simp: unicode_code_point_def split: option.splits)
  consider "r = r'" | w where "2 \<le> length r'" "r' ! 0 = CHR 0x5C" "hex4_code_unit (drop 2 r') = Some (w, r)"
    using assms u by (auto simp: unicode_code_point_def split: option.splits if_splits)
  then show ?thesis
  proof cases
    case 1
    with compound_loop_hex4 [OF u] show ?thesis by simp
  next
    case 2
    then obtain a where r': "r' = CHR 0x5C # a # drop 2 r'" by (cases r'; cases "tl r'") auto
    have "compound_loop st True False r' = compound_loop st True False (drop 2 r')"
      by (subst r') simp
    with compound_loop_hex4 [OF u] compound_loop_hex4 [OF 2(3)] show ?thesis by simp
  qed
qed

lemma compound_loop_token_less:
  "length s \<le> n \<Longrightarrow> token_loop s out = Some (v, r) \<Longrightarrow> compound_loop st True False s = compound_loop st False False r"
proof (induction n arbitrary: s out)
  case (Suc n)
  from Suc.prems(2) obtain ch t where s: "s = ch # t" by (cases s) (simp_all add: token_loop.simps)
  consider "ch = CHR 0x22" | "ch = CHR 0x5C" | "in_string_plain ch" | "ch \<noteq> CHR 0x22" "ch \<noteq> CHR 0x5C" "chr_code ch < 0x20"
    by (cases "chr_code ch < 0x20") (auto simp: in_string_plain_def)
  then show ?case
  proof cases
    case 2
    with Suc.prems(2) s obtain c u where t: "t = c # u" by (cases t) (simp_all add: token_loop.simps)
    show ?thesis
    proof (cases "simple_escape c")
      case None
      with Suc.prems(2) obtain cp w out' where "c = CHR ''u''" "unicode_code_point u = Inr (cp, w)"
        "token_loop w out' = Some (v, r)"
        by (subst (asm) token_loop.simps) (auto simp: s t 2 split: sum.splits if_splits prod.splits)
      with Suc.IH [of w out'] Suc.prems(1) unicode_code_point_rest [of u cp w] compound_loop_unicode [of u cp w st]
      show ?thesis by (simp add: s t 2)
    next
      case (Some e)
      with Suc.prems(2) have "token_loop u (out @ [e]) = Some (v, r)"
        by (subst (asm) token_loop.simps) (simp add: s t 2)
      with Suc.IH [of u "out @ [e]"] Suc.prems(1) show ?thesis by (simp add: s t 2)
    qed
  next
    case 3
    with Suc.prems(2) have "token_loop t (out @ [ch]) = Some (v, r)"
      by (subst (asm) token_loop.simps) (simp add: s in_string_plain_def)
    with Suc.IH [of t "out @ [ch]"] Suc.prems(1) 3 show ?thesis by (simp add: s in_string_plain_def)
  qed (use Suc.prems(2) s in \<open>simp_all add: token_loop.simps [of "_ # _"]\<close>)
qed (simp add: token_loop.simps)

lemma compound_loop_token:
  assumes "parse_json_string_token s = Some (v, r)"
  shows "compound_loop st False False s = compound_loop st False False r"
proof -
  from assms obtain t where "s = CHR 0x22 # t" "token_loop t [] = Some (v, r)"
    by (cases s) (auto simp: parse_json_string_token_def split: if_splits)
  with compound_loop_token_less [OF order.refl] show ?thesis by simp
qed

section \<open>Skipping a parsed value\<close>

definition number_char :: "char \<Rightarrow> bool" where
  "number_char c \<longleftrightarrow> is_digit c \<or> c = CHR ''-'' \<or> c = CHR ''+'' \<or> c = CHR ''.'' \<or> c = CHR ''e'' \<or> c = CHR ''E''"

definition reads :: "(char \<Rightarrow> bool) \<Rightarrow> string \<Rightarrow> string \<Rightarrow> bool" where
  "reads ok s r \<longleftrightarrow> (\<exists>p. s = p @ r \<and> list_all ok p)"

lemma json_reads_refl [simp]: "reads ok s s"
  by (simp add: reads_def)

lemma json_reads_trans: "reads ok s t \<Longrightarrow> reads ok t r \<Longrightarrow> reads ok s r"
  by (auto simp: reads_def)

lemma reads_tl: "s = [] \<or> ok (hd s) \<Longrightarrow> reads ok s (tl s)"
  by (cases s) (auto simp: reads_def intro: exI [of _ "[_]"])

lemma reads_mono: "reads ok s r \<Longrightarrow> (\<And>c. ok c \<Longrightarrow> ok' c) \<Longrightarrow> reads ok' s r"
  by (auto simp: reads_def list_all_iff)

lemma reads_digits: "reads number_char s (dropWhile is_digit s)"
  unfolding reads_def
  by (rule exI [of _ "takeWhile is_digit s"]) (auto simp: list_all_iff number_char_def dest: set_takeWhileD)

lemma number_char_zero [simp]: "number_char (CHR ''0'')"
  by (simp add: number_char_def is_digit_def chr_code_def)

lemma number_integer_reads: "number_integer len s = Done u r \<Longrightarrow> reads number_char s r"
  by (auto simp: number_integer_def reads_digits peek_eq intro!: reads_tl split: if_splits)

lemma number_fraction_reads: "number_fraction len s = Done u r \<Longrightarrow> reads number_char s r"
  by (auto simp: number_fraction_def peek_eq number_char_def
    intro!: reads_tl json_reads_trans [OF reads_tl reads_digits] split: if_splits)

lemma number_exponent_reads: "number_exponent len s = Done u r \<Longrightarrow> reads number_char s r"
  by (auto simp: number_exponent_def Let_def peek_eq number_char_def
    intro!: reads_tl json_reads_trans [OF reads_tl reads_digits] json_reads_trans [OF reads_tl json_reads_trans [OF reads_tl reads_digits]]
    split: if_splits)

lemma parse_number_reads:
  assumes "parse_number len s = Done v r"
  shows "reads number_char s r"
proof -
  have "reads number_char s (if peek s = CHR ''-'' then tl s else s)"
    by (auto simp: peek_eq number_char_def intro: reads_tl)
  moreover obtain r1 r2 where "number_integer len (if peek s = CHR ''-'' then tl s else s) = Done () r1"
    "number_fraction len r1 = Done () r2" "number_exponent len r2 = Done () r"
    using assms by (auto simp: parse_number_def json_bind_Done number_value_def split: option.splits)
  ultimately show ?thesis
    by (blast intro: json_reads_trans number_integer_reads number_fraction_reads number_exponent_reads)
qed

lemma parse_literal_reads:
  assumes "parse_literal len s = Done v r"
  shows "reads is_lower s r"
proof -
  have "reads is_lower s (drop (length l) s)" if "starts_with_literal l s" "list_all is_lower l" for l
    using that append_take_drop_id [of "length l" s] by (auto simp: reads_def starts_with_literal_def intro!: exI [of _ l])
  from this [of "''true''"] this [of "''false''"] this [of "''null''"] assms show ?thesis
    by (auto simp: parse_literal_def is_lower_def chr_code_def numeral_eq_Suc split: if_splits)
qed

lemma reads_skips:
  "reads ok s r \<Longrightarrow> (\<And>c. ok c \<Longrightarrow> \<not> structural c) \<Longrightarrow> st \<noteq> [] \<Longrightarrow>
     compound_loop st False False s = compound_loop st False False r"
  by (auto simp: reads_def list_all_iff intro!: compound_loop_plain)

definition skips :: "(string \<Rightarrow> json_value json_run) \<Rightarrow> bool" where
  "skips P \<longleftrightarrow> (\<forall>s v r st. P s = Done v r \<longrightarrow> st \<noteq> [] \<longrightarrow> compound_loop st False False s = compound_loop st False False r)"

lemma skipsD: "skips P \<Longrightarrow> P s = Done v r \<Longrightarrow> st \<noteq> [] \<Longrightarrow> compound_loop st False False s = compound_loop st False False r"
  by (simp add: skips_def)

definition closed :: "string \<Rightarrow> string \<Rightarrow> string option" where
  "closed st r = (if st = [] then Some r else compound_loop st False False r)"

lemma compound_loop_cons:
  "\<not> structural c \<Longrightarrow> st \<noteq> [] \<Longrightarrow> compound_loop st False False (c # s) = compound_loop st False False s"
  by (simp add: structural_def)

lemma expect_Done: "c \<noteq> nul \<Longrightarrow> expect len c s = Done u r \<longleftrightarrow> s = c # r"
  by (cases s) (auto simp: expect_def advance_def)

lemma parse_string_Done: "parse_string len s = Done k r \<Longrightarrow> parse_json_string_token s = Some (k, r)"
proof -
  assume a: "parse_string len s = Done k r"
  then have "peek s = CHR 0x22" by (auto simp: parse_string_def json_bind_Done expect_Done peek_def)
  then show ?thesis by (cases rule: parse_string_token [where len = len]) (use a in simp_all)
qed

lemma peek_cons: "peek s = c \<Longrightarrow> c \<noteq> nul \<Longrightarrow> \<exists>r. s = c # r"
  by (cases s) (simp_all add: peek_def)

lemma object_loop_skips:
  assumes "skips P"
  shows "object_loop len P n s ms = Done v r \<Longrightarrow> compound_loop (CHR ''{'' # st) False False s = closed st r"
proof (induction n arbitrary: s ms)
  case (Suc n)
  let ?st = "CHR ''{'' # st"
  from Suc.prems obtain key r1 r2 v' r3 where key: "parse_string len (skip_space s) = Done key r1"
    and colon: "skip_space r1 = CHR '':'' # r2" and v: "P (skip_space r2) = Done v' r3"
    and rest: "(let r' = skip_space r3 in
       if peek r' = CHR '','' then object_loop len P n (tl r') (insert_or_assign key v' ms) = Done v r
       else peek r' = CHR ''}'' \<and> r = tl r')"
    by (auto simp: Let_def json_bind_Done expect_Done split: if_splits)
  have "compound_loop ?st False False s = compound_loop ?st False False r1"
    using compound_loop_token [OF parse_string_Done [OF key], of ?st] compound_loop_space [of ?st s] by simp
  also have "\<dots> = compound_loop ?st False False (CHR '':'' # r2)"
    using compound_loop_space [of ?st r1] colon by simp
  also have "\<dots> = compound_loop ?st False False (skip_space r2)"
    using compound_loop_space [of ?st r2] by simp
  also have "\<dots> = compound_loop ?st False False (skip_space r3)"
    using skipsD [OF assms v, of ?st] compound_loop_space [of ?st r3] by simp
  also have "\<dots> = closed st r"
  proof (cases "peek (skip_space r3) = CHR '',''")
    case True
    then obtain r' where "skip_space r3 = CHR '','' # r'" using peek_cons by blast
    with True rest Suc.IH show ?thesis by (simp add: Let_def)
  next
    case False
    with rest have "peek (skip_space r3) = CHR ''}''" by (simp add: Let_def)
    then obtain r' where "skip_space r3 = CHR ''}'' # r'" using peek_cons by blast
    with False rest show ?thesis by (simp add: Let_def closed_def)
  qed
  finally show ?case .
qed simp

lemma array_loop_skips:
  assumes "skips P"
  shows "array_loop len P n s es = Done v r \<Longrightarrow> compound_loop (CHR ''['' # st) False False s = closed st r"
proof (induction n arbitrary: s es)
  case (Suc n)
  let ?st = "CHR ''['' # st"
  from Suc.prems obtain v' r3 where v: "P (skip_space s) = Done v' r3"
    and rest: "(let r' = skip_space r3 in
       if peek r' = CHR '','' then array_loop len P n (tl r') (es @ [v']) = Done v r
       else peek r' = CHR '']'' \<and> r = tl r')"
    by (auto simp: Let_def json_bind_Done split: if_splits)
  have "compound_loop ?st False False s = compound_loop ?st False False (skip_space r3)"
    using skipsD [OF assms v, of ?st] compound_loop_space [of ?st s] compound_loop_space [of ?st r3] by simp
  also have "\<dots> = closed st r"
  proof (cases "peek (skip_space r3) = CHR '',''")
    case True
    then obtain r' where "skip_space r3 = CHR '','' # r'" using peek_cons by blast
    with True rest Suc.IH show ?thesis by (simp add: Let_def)
  next
    case False
    with rest have "peek (skip_space r3) = CHR '']''" by (simp add: Let_def)
    then obtain r' where "skip_space r3 = CHR '']'' # r'" using peek_cons by blast
    with False rest show ?thesis by (simp add: Let_def closed_def)
  qed
  finally show ?case .
qed simp

lemma parse_object_skips:
  assumes "skips P" "parse_object len P n s = Done v r"
  obtains t where "s = CHR ''{'' # t" "compound_loop (CHR ''{'' # st) False False t = closed st r"
proof -
  from assms(2) obtain t where s: "s = CHR ''{'' # t"
    and t: "(if peek (skip_space t) = CHR ''}'' then r = tl (skip_space t)
        else object_loop len P n (skip_space t) [] = Done v r)"
    by (auto simp: parse_object_def json_bind_Done expect_Done Let_def split: if_splits)
  have "compound_loop (CHR ''{'' # st) False False (skip_space t) = closed st r"
  proof (cases "peek (skip_space t) = CHR ''}''")
    case True
    then obtain t' where "skip_space t = CHR ''}'' # t'" using peek_cons by blast
    with True t show ?thesis by (simp add: closed_def)
  next
    case False
    with t object_loop_skips [OF assms(1)] show ?thesis by simp
  qed
  with s that show thesis by (simp add: compound_loop_space)
qed

lemma parse_array_skips:
  assumes "skips P" "parse_array len P n s = Done v r"
  obtains t where "s = CHR ''['' # t" "compound_loop (CHR ''['' # st) False False t = closed st r"
proof -
  from assms(2) obtain t where s: "s = CHR ''['' # t"
    and t: "(if peek (skip_space t) = CHR '']'' then r = tl (skip_space t)
        else array_loop len P n (skip_space t) [] = Done v r)"
    by (auto simp: parse_array_def json_bind_Done expect_Done Let_def split: if_splits)
  have "compound_loop (CHR ''['' # st) False False (skip_space t) = closed st r"
  proof (cases "peek (skip_space t) = CHR '']''")
    case True
    then obtain t' where "skip_space t = CHR '']'' # t'" using peek_cons by blast
    with True t show ?thesis by (simp add: closed_def)
  next
    case False
    with t array_loop_skips [OF assms(1)] show ?thesis by simp
  qed
  with s that show thesis by (simp add: compound_loop_space)
qed

lemma number_char_plain: "number_char c \<Longrightarrow> \<not> structural c \<and> \<not> value_delimiter c"
  by (auto simp: number_char_def structural_def value_delimiter_def is_digit_def is_space_def chr_code_def)

lemma is_lower_plain: "is_lower c \<Longrightarrow> \<not> structural c \<and> \<not> value_delimiter c"
  by (auto simp: structural_def value_delimiter_def is_lower_def is_space_def chr_code_def)

text \<open>A value the parser reads is a string, a compound value or a scalar without delimiters.\<close>

lemma parse_value_cases:
  assumes "parse_value len n s = Done v r"
  obtains (string) w where "v = JString w" "parse_json_string_token (skip_space s) = Some (w, r)"
  | (object) k m where "n = Suc k" "v = JObject m" "parse_object len (parse_value len k) k (skip_space s) = Done v r"
  | (array) k m where "n = Suc k" "v = JArray m" "parse_array len (parse_value len k) k (skip_space s) = Done v r"
  | (scalar) "\<forall>w. v \<noteq> JString w" "\<not> is_compound v" "peek (skip_space s) \<noteq> CHR 0x22"
      "length r < length (skip_space s)"
      "reads (\<lambda>c. \<not> structural c \<and> \<not> value_delimiter c) (skip_space s) r"
proof -
  from assms obtain k where n: "n = Suc k" by (cases n) auto
  define t where "t = skip_space s"
  consider "peek t = CHR ''{''" | "peek t = CHR ''[''" | "peek t = CHR 0x22"
    | "peek t \<noteq> CHR ''{''" "peek t \<noteq> CHR ''[''" "peek t \<noteq> CHR 0x22" by blast
  then show thesis
  proof cases
    case 1
    with assms have p: "parse_object len (parse_value len k) k (skip_space s) = Done v r"
      by (simp add: n Let_def t_def [symmetric])
    then obtain m where "v = JObject m"
      by (auto simp: parse_object_def json_bind_Done Let_def dest!: object_loop_value split: if_splits)
    with n p show thesis using object by blast
  next
    case 2
    with assms have p: "parse_array len (parse_value len k) k (skip_space s) = Done v r"
      by (simp add: n Let_def t_def [symmetric])
    then obtain m where "v = JArray m"
      by (auto simp: parse_array_def json_bind_Done Let_def dest!: array_loop_value split: if_splits)
    with n p show thesis using array by blast
  next
    case 3
    with assms show thesis
      by (intro string [of "case v of JString w \<Rightarrow> w"])
        (auto simp: n Let_def t_def [symmetric] json_bind_Done dest!: parse_string_Done)
  next
    case 4
    with assms have "(\<exists>x. v = JNumber x \<and> parse_number len t = Done x r) \<or> parse_literal len t = Done v r"
      by (auto simp: n Let_def t_def [symmetric] json_bind_Done split: if_splits)
    moreover from this have "length r < length t"
      using parse_number_ends [of len t] by (auto simp: parse_literal_def starts_with_literal_def split: if_splits)
    ultimately have "length r < length t \<and> reads (\<lambda>c. \<not> structural c \<and> \<not> value_delimiter c) t r \<and> \<not> is_compound v \<and> (\<forall>w. v \<noteq> JString w)"
    proof (elim disjE exE conjE)
      fix x assume "v = JNumber x" "parse_number len t = Done x r"
      then show ?thesis
        using number_char_plain \<open>length r < length t\<close> by (auto dest!: parse_number_reads elim: reads_mono)
    next
      assume l: "parse_literal len t = Done v r"
      then have "\<not> is_compound v \<and> (\<forall>w. v \<noteq> JString w)" by (auto simp: parse_literal_def split: if_splits)
      with parse_literal_reads [OF l] is_lower_plain \<open>length r < length t\<close> show ?thesis by (blast intro: reads_mono)
    qed
    with 4(3) show thesis using scalar by (simp add: t_def)
  qed
qed

lemma parse_value_skips: "skips (parse_value len n)"
proof (induction n)
  case (Suc n)
  show ?case
    unfolding skips_def
  proof (intro allI impI)
    fix s v r st assume p: "parse_value len (Suc n) s = Done v r" and st: "(st :: string) \<noteq> []"
    from p have "compound_loop st False False (skip_space s) = compound_loop st False False r"
    proof (cases rule: parse_value_cases)
      case (string w)
      then show ?thesis by (simp add: compound_loop_token)
    next
      case (object k m)
      then obtain t where "skip_space s = CHR ''{'' # t" "compound_loop (CHR ''{'' # st) False False t = closed st r"
        using parse_object_skips [of "parse_value len n"] Suc.IH by (metis Suc_inject)
      with st show ?thesis by (simp add: closed_def)
    next
      case (array k m)
      then obtain t where "skip_space s = CHR ''['' # t" "compound_loop (CHR ''['' # st) False False t = closed st r"
        using parse_array_skips [of "parse_value len n"] Suc.IH by (metis Suc_inject)
      with st show ?thesis by (simp add: closed_def)
    next
      case scalar
      then show ?thesis using st by (blast intro: reads_skips)
    qed
    with st show "compound_loop st False False s = compound_loop st False False r" by (simp add: compound_loop_space)
  qed
qed (simp add: skips_def)

lemma skip_json_value_parsed:
  assumes "parse_value len n s = Done v r" "r \<noteq> []" "value_delimiter (hd r)"
  shows "skip_json_value (skip_space s) = Some r"
  using assms(1)
proof (cases rule: parse_value_cases)
  case (string w)
  then show ?thesis by (auto simp: skip_json_value_def parse_json_string_token_def split: if_splits)
next
  case (object k m)
  then obtain t where "skip_space s = CHR ''{'' # t" "compound_loop [CHR ''{''] False False t = closed [] r"
    using parse_object_skips [OF parse_value_skips, where st = "[]"] by metis
  then show ?thesis by (simp add: skip_json_value_def closed_def)
next
  case (array k m)
  then obtain t where "skip_space s = CHR ''['' # t" "compound_loop [CHR ''[''] False False t = closed [] r"
    using parse_array_skips [OF parse_value_skips, where st = "[]"] by metis
  then show ?thesis by (simp add: skip_json_value_def closed_def)
next
  case scalar
  then obtain p where p: "skip_space s = p @ r" "list_all (\<lambda>c. \<not> structural c \<and> \<not> value_delimiter c) p"
    by (auto simp: reads_def)
  then have "dropWhile (\<lambda>ch. \<not> value_delimiter ch) (skip_space s) = r"
    using assms(2,3) by (cases r) (simp_all add: list_all_iff)
  moreover have "hd (skip_space s) \<noteq> CHR ''{''" "hd (skip_space s) \<noteq> CHR ''[''" "hd (skip_space s) \<noteq> CHR 0x22"
    using p scalar(4) by (cases p; auto simp: structural_def)+
  moreover have "skip_space s \<noteq> []" using scalar(4) by (metis list.size(3) not_less_zero)
  ultimately show ?thesis using scalar(4) by (simp add: skip_json_value_def Let_def del: dropWhile_eq_Nil_conv)
qed

section \<open>The members of an object\<close>

text \<open>
  The members as they are written: behind the brace a name, a colon and a value, then a comma and the next
  member or the closing brace. \<open>V\<close> reads a value; the rounds are bounded by \<open>n\<close>.
\<close>

fun members_from :: "value_parser \<Rightarrow> nat \<Rightarrow> string \<Rightarrow> (string \<times> json_value) list option" where
  "members_from V 0 s = None"
| "members_from V (Suc n) s = (case parse_json_string_token (skip_space s) of
       None \<Rightarrow> None
     | Some (k, r) \<Rightarrow> (case skip_space r of
           [] \<Rightarrow> None
         | c # r \<Rightarrow> if c \<noteq> CHR '':'' then None
             else (case V r of
                 Done v r \<Rightarrow> (case skip_space r of
                     [] \<Rightarrow> None
                   | d # r \<Rightarrow> if d = CHR ''}'' then Some [(k, v)]
                       else if d = CHR '','' then map_option ((#) (k, v)) (members_from V n r)
                       else None)
               | _ \<Rightarrow> None)))"

definition object_members :: "string \<Rightarrow> (string \<times> json_value) list option" where
  "object_members s = (case skip_space s of
       [] \<Rightarrow> None
     | c # t \<Rightarrow> if c \<noteq> CHR ''{'' then None
         else if peek (skip_space t) = CHR ''}'' then Some []
         else members_from (parse_value (length s) (length s)) (length s) t)"

section \<open>The search\<close>

fun string_member :: "(string \<times> json_value) list \<Rightarrow> string \<Rightarrow> string \<Rightarrow> string" where
  "string_member [] key nullcase = nullcase"
| "string_member ((k, v) # ms) key nullcase =
     (if k = key then (case v of JString w \<Rightarrow> w | _ \<Rightarrow> nullcase) else string_member ms key nullcase)"

lemma token_of_parsed:
  assumes "parse_value len n s = Done v r"
  shows "(case parse_json_string_token (skip_space s) of None \<Rightarrow> nullcase | Some (w, _) \<Rightarrow> w) =
     (case v of JString w \<Rightarrow> w | _ \<Rightarrow> nullcase)"
  using assms
proof (cases rule: parse_value_cases)
  case (object k m)
  with parse_object_skips [OF parse_value_skips, where st = "[]"] obtain t where "skip_space s = CHR ''{'' # t" by metis
  with object show ?thesis by (simp add: parse_json_string_token_def)
next
  case (array k m)
  with parse_array_skips [OF parse_value_skips, where st = "[]"] obtain t where "skip_space s = CHR ''['' # t" by metis
  with array show ?thesis by (simp add: parse_json_string_token_def)
next
  case scalar
  then have "parse_json_string_token (skip_space s) = None" by (auto simp: parse_json_string_token_def peek_eq)
  with scalar show ?thesis by (simp split: json_value.split)
qed simp

lemma extract_loop_member:
  assumes "parse_json_string_token (skip_space s) = Some (k, r1)" "skip_space r1 = CHR '':'' # r2"
    "parse_value len n r2 = Done v r3" "skip_space r3 = c # r4" "c = CHR '','' \<or> c = CHR ''}''"
  shows "extract_loop key nullcase s =
     (if k = key then (case v of JString w \<Rightarrow> w | _ \<Rightarrow> nullcase)
      else if c = CHR '','' then extract_loop key nullcase r4 else nullcase)"
proof -
  have s: "s \<noteq> []" "skip_space s \<noteq> []" "hd (skip_space s) \<noteq> CHR ''}''"
    using assms(1) by (auto simp: parse_json_string_token_def split: if_splits)
  have "r3 \<noteq> []" "value_delimiter (hd r3)"
    using assms(4,5) by (cases r3; auto simp: value_delimiter_def split: if_splits)+
  with assms(3) have "skip_json_value (skip_space r2) = Some r3" by (rule skip_json_value_parsed)
  with s assms token_of_parsed [OF assms(3), of nullcase] show ?thesis
    by (subst extract_loop.simps) (simp add: Let_def del: dropWhile_eq_Nil_conv)
qed

lemma extract_loop_object:
  "object_loop len (parse_value len k) n s ms = Done (JObject m) r \<Longrightarrow>
     \<exists>ps. members_from (parse_value len k) n s = Some ps \<and> m = fold (\<lambda>(k, v). insert_or_assign k v) ps ms \<and>
       (\<forall>key nullcase. extract_loop key nullcase s = string_member ps key nullcase)"
proof (induction n arbitrary: s ms)
  case (Suc n)
  from Suc.prems obtain key r1 r2 v' r3 where "parse_string len (skip_space s) = Done key r1"
    and colon: "skip_space r1 = CHR '':'' # r2" and v: "parse_value len k (skip_space r2) = Done v' r3"
    and rest: "(let r' = skip_space r3 in
       if peek r' = CHR '','' then object_loop len (parse_value len k) n (tl r') (insert_or_assign key v' ms) = Done (JObject m) r
       else peek r' = CHR ''}'' \<and> m = insert_or_assign key v' ms)"
    by (auto simp: Let_def json_bind_Done expect_Done split: if_splits)
  then have key: "parse_json_string_token (skip_space s) = Some (key, r1)" by (intro parse_string_Done)
  from v have v: "parse_value len k r2 = Done v' r3" by (simp only: parse_value_space)
  show ?case
  proof (cases "peek (skip_space r3) = CHR '',''")
    case True
    then obtain r' where r': "skip_space r3 = CHR '','' # r'" using peek_cons by blast
    with True rest have "object_loop len (parse_value len k) n r' (insert_or_assign key v' ms) = Done (JObject m) r"
      by (simp add: Let_def)
    from Suc.IH [OF this] obtain ps where ps: "members_from (parse_value len k) n r' = Some ps"
      "m = fold (\<lambda>(k, v). insert_or_assign k v) ps (insert_or_assign key v' ms)"
      "\<And>key nullcase. extract_loop key nullcase r' = string_member ps key nullcase" by blast
    have "members_from (parse_value len k) (Suc n) s = Some ((key, v') # ps)"
      by (simp add: key colon v r' ps(1))
    with extract_loop_member [OF key colon v r'] ps show ?thesis
      by (intro exI [of _ "(key, v') # ps"]) (auto simp: eq_commute)
  next
    case False
    with rest have e: "peek (skip_space r3) = CHR ''}''" "m = insert_or_assign key v' ms" by (simp_all add: Let_def)
    then obtain r' where r': "skip_space r3 = CHR ''}'' # r'" using peek_cons by blast
    have "members_from (parse_value len k) (Suc n) s = Some [(key, v')]"
      by (simp add: key colon v r')
    with extract_loop_member [OF key colon v r'] e show ?thesis
      by (intro exI [of _ "[(key, v')]"]) auto
  qed
qed simp

section \<open>Maps\<close>

lemma map_of_insert_or_assign: "map_of (insert_or_assign k v m) = (map_of m)(k \<mapsto> v)"
  by (induction k v m rule: insert_or_assign.induct) auto

lemma insert_or_assign_keys: "fst ` set (insert_or_assign k v m) = insert k (fst ` set m)"
  by (induction k v m rule: insert_or_assign.induct) auto

lemma insert_or_assign_sorted: "sorted_wrt (<) (map fst m) \<Longrightarrow> sorted_wrt (<) (map fst (insert_or_assign k v m))"
proof (induction k v m rule: insert_or_assign.induct)
  case (2 k v k' v' m)
  have "set (map fst (insert_or_assign k v m)) = insert k (set (map fst m))"
    using insert_or_assign_keys [of k v m] by simp
  with 2 show ?case by (auto simp: not_less dest: less_trans)
qed simp

lemma fold_insert_or_assign:
  "map_of (fold (\<lambda>(k, v). insert_or_assign k v) ps m) key = (case map_of (rev ps) key of None \<Rightarrow> map_of m key | x \<Rightarrow> x)"
  "sorted_wrt (<) (map fst m) \<Longrightarrow> sorted_wrt (<) (map fst (fold (\<lambda>(k, v). insert_or_assign k v) ps m))"
  by (induction ps arbitrary: m)
    (auto simp: map_of_insert_or_assign insert_or_assign_sorted map_add_def split: option.splits)

text \<open>
  C26: on a text whose value is an object, the parser and \<open>extract_json_string_value\<close> both answer from the
  members the text lists, in the order in which it lists them: the parser keeps the last value of a key,
  in a map sorted by keys; the extraction answers with the first value of the key if it is a string, and
  with the default otherwise.
\<close>

theorem extraction_and_parser:
  assumes "json_parse s = Done (JObject m) r"
  shows "\<exists>ps. object_members s = Some ps \<and> sorted_wrt (<) (map fst m) \<and> map_of m = map_of (rev ps) \<and>
    (\<forall>key nullcase. extract_json_string_value s key nullcase =
      (case map_of ps key of Some (JString w) \<Rightarrow> w | _ \<Rightarrow> nullcase))"
proof -
  note [simp del] = dropWhile_eq_Nil_conv
  have member: "string_member ps key nullcase = (case map_of ps key of Some (JString w) \<Rightarrow> w | _ \<Rightarrow> nullcase)"
    for ps key nullcase
    by (induction ps) (auto split: json_value.split)
  let ?n = "length s"
  obtain r' where "parse_value ?n (?n + 1) s = Done (JObject m) r'"
    using assms by (auto simp: json_parse_def json_bind_Done Let_def parse_value_space [of _ "Suc _"] split: if_splits)
  then have "parse_object ?n (parse_value ?n ?n) ?n (skip_space s) = Done (JObject m) r'"
    by (cases rule: parse_value_cases) auto
  then obtain t where s: "skip_space s = CHR ''{'' # t"
    and t: "(if peek (skip_space t) = CHR ''}'' then m = [] \<and> r' = tl (skip_space t)
        else object_loop ?n (parse_value ?n ?n) ?n (skip_space t) [] = Done (JObject m) r')"
    by (auto simp: parse_object_def json_bind_Done expect_Done Let_def split: if_splits)
  have searched: "extract_json_string_value s key nullcase = extract_loop key nullcase t" for key nullcase
    by (simp add: extract_json_string_value_def s)
  have "\<exists>ps. object_members s = Some ps \<and> m = fold (\<lambda>(k, v). insert_or_assign k v) ps [] \<and>
      (\<forall>key nullcase. extract_loop key nullcase t = string_member ps key nullcase)"
  proof (cases "peek (skip_space t) = CHR ''}''")
    case True
    then have "t \<noteq> []" "hd (skip_space t) = CHR ''}''" "skip_space t \<noteq> []" by (auto simp: peek_eq)
    then have "extract_loop key nullcase t = nullcase" for key nullcase
      by (subst extract_loop.simps) (simp add: Let_def)
    with True t show ?thesis by (intro exI [of _ "[]"]) (simp add: object_members_def s)
  next
    case False
    with t have "object_loop ?n (parse_value ?n ?n) ?n (skip_space t) [] = Done (JObject m) r'" by simp
    moreover have "object_loop ?n (parse_value ?n ?n) ?n (skip_space t) [] = object_loop ?n (parse_value ?n ?n) ?n t []"
      by (cases ?n) simp_all
    ultimately show ?thesis using extract_loop_object False by (fastforce simp: object_members_def s)
  qed
  then obtain ps where ps: "object_members s = Some ps" "m = fold (\<lambda>(k, v). insert_or_assign k v) ps []"
    "\<And>key nullcase. extract_loop key nullcase t = string_member ps key nullcase" by blast
  have "map_of m = map_of (rev ps)"
    by (rule ext) (simp add: ps(2) fold_insert_or_assign split: option.split)
  with ps show ?thesis
    by (intro exI [of _ ps]) (simp add: searched member fold_insert_or_assign)
qed

definition repeated_key_text :: string where
  "repeated_key_text = [CHR ''{'', CHR 0x22, CHR ''a'', CHR 0x22, CHR '':'', CHR 0x22, CHR ''x'', CHR 0x22, CHR '','',
     CHR 0x22, CHR ''a'', CHR 0x22, CHR '':'', CHR 0x22, CHR ''y'', CHR 0x22, CHR ''}'']"

theorem extraction_and_parser_witness:
  "object_members repeated_key_text = Some [(''a'', JString ''x''), (''a'', JString ''y'')] \<and>
    extract_json_string_value repeated_key_text ''a'' [] = ''x'' \<and>
    (\<exists>m. json_parse repeated_key_text = Done (JObject m) [] \<and> map_of m ''a'' = Some (JString ''y''))"
proof -
  have parsed: "json_parse repeated_key_text = Done (JObject [(''a'', JString ''y'')]) []"
    and members: "object_members repeated_key_text = Some [(''a'', JString ''x''), (''a'', JString ''y'')]"
    by code_simp+
  from extraction_and_parser [OF parsed] have "extract_json_string_value repeated_key_text ''a'' [] = ''x''"
    unfolding members by auto
  with parsed members show ?thesis by auto
qed

end
