(* ===== verification/Assignment_Text.thy ===== *)
theory Assignment_Text
  imports Simple_Kv Floating_Text
begin

text \<open>
  The sidecar text of \<open>src/include/hero/lattice_hero/lattice/exposure/exposure_ledger.h\<close>: a file of lines
  \<open>key=value\<close> with comments and sections, whose keys may carry a decoration that starts with a bracket, a
  parenthesis or a colon, and the readers that fall back to a default instead of throwing.
\<close>

section \<open>Reading\<close>

text \<open>\<open>std::getline\<close> up to the end of the stream\<close>

fun getlines :: "string \<Rightarrow> string \<Rightarrow> string list" where
  "getlines line [] = (if line = [] then [] else [line])"
| "getlines line (c # s) = (if c = newline then line # getlines [] s else getlines (line @ [c]) s)"

definition key_marker :: "char \<Rightarrow> bool" where
  "key_marker c \<longleftrightarrow> c = CHR ''['' \<or> c = CHR ''('' \<or> c = CHR '':''"

definition assignment_line :: "(string \<rightharpoonup> string) \<Rightarrow> string \<Rightarrow> (string \<rightharpoonup> string)" where
  "assignment_line out line =
     (let line = trim (takeWhile (\<lambda>c. c \<noteq> CHR ''#'') line) in
      if line = [] \<or> hd line = CHR ''['' \<and> last line = CHR '']'' then out
      else if CHR ''='' \<notin> set line then out
      else let key = trim (takeWhile (\<lambda>c. c \<noteq> CHR ''='') line);
             v = trim (tl (dropWhile (\<lambda>c. c \<noteq> CHR ''='') line)) in
        if key = [] then out
        else let normalized_key = (if list_ex key_marker key then trim (takeWhile (\<lambda>c. \<not> key_marker c) key) else key);
               out = out(key \<mapsto> v) in
          if normalized_key \<noteq> [] \<and> normalized_key \<noteq> key \<and> out normalized_key = None
          then out(normalized_key \<mapsto> v) else out)"

definition parse_assignment_text :: "string \<Rightarrow> string \<rightharpoonup> string" where
  "parse_assignment_text text = foldl assignment_line Map.empty (getlines [] text)"

definition map_get :: "(string \<rightharpoonup> string) \<Rightarrow> string \<Rightarrow> string \<Rightarrow> string" where
  "map_get m key fallback = (case m key of None \<Rightarrow> fallback | Some v \<Rightarrow> v)"

definition parse_bool_fallback :: "string \<Rightarrow> bool \<Rightarrow> bool" where
  "parse_bool_fallback v fallback =
     (let v = lowercase (trim v) in
      if v = [] then fallback
      else if v = ''true'' \<or> v = ''yes'' \<or> v = ''1'' then True
      else if v = ''false'' \<or> v = ''no'' \<or> v = ''0'' then False
      else fallback)"

definition parse_i64_fallback :: "string \<Rightarrow> int \<Rightarrow> int" where
  "parse_i64_fallback v fallback =
     (let v = trim v in
      if v = [] then fallback else case parse_i64 v of Inl _ \<Rightarrow> fallback | Inr i \<Rightarrow> i)"

definition try_parse_i64 :: "string \<Rightarrow> int option" where
  "try_parse_i64 v =
     (let v = trim v in
      if v = [] then None else case parse_i64 v of Inl _ \<Rightarrow> None | Inr i \<Rightarrow> Some i)"

definition looks_like_lattice_digest :: "string \<Rightarrow> bool" where
  "looks_like_lattice_digest v \<longleftrightarrow> length v = 16 \<and> list_all is_xdigit v"

section \<open>Writing\<close>

text \<open>The lines the writers of the ledger put out.\<close>

definition assignment :: "string \<times> string \<Rightarrow> string" where
  "assignment kv = fst kv @ ''='' @ snd kv @ [newline]"

definition plain_key :: "string \<Rightarrow> bool" where
  "plain_key k \<longleftrightarrow> k \<noteq> [] \<and> list_all (\<lambda>c. is_alnum c \<or> c = CHR ''_'') k"

definition plain_value :: "string \<Rightarrow> bool" where
  "plain_value v \<longleftrightarrow> trim v = v \<and> newline \<notin> set v \<and> CHR ''#'' \<notin> set v"

lemma plain_key_chars:
  assumes "plain_key k" "c \<in> set k"
  shows "\<not> is_space c \<and> c \<noteq> newline \<and> c \<noteq> CHR ''#'' \<and> c \<noteq> CHR ''='' \<and> \<not> key_marker c"
proof -
  have "is_alnum c \<or> c = CHR ''_''" using assms by (auto simp: plain_key_def list_all_iff)
  then show ?thesis by (auto simp: chr_class_defs key_marker_def chr_code_def)
qed

lemma getlines_line: "newline \<notin> set l \<Longrightarrow> getlines line (l @ newline # s) = (line @ l) # getlines [] s"
  by (induction l arbitrary: line) auto

lemma assignment_line_plain:
  assumes "plain_key k" "plain_value v"
  shows "assignment_line m (k @ ''='' @ v) = m(k \<mapsto> v)"
proof -
  let ?line = "k @ ''='' @ v"
  have k: "k \<noteq> []" using assms(1) by (simp add: plain_key_def)
  have chars: "\<And>c. c \<in> set k \<Longrightarrow> \<not> is_space c \<and> c \<noteq> CHR ''#'' \<and> c \<noteq> CHR ''='' \<and> \<not> key_marker c"
    using plain_key_chars [OF assms(1)] by blast
  have hd: "hd k \<in> set k" using k by simp
  have cut: "takeWhile (\<lambda>c. c \<noteq> CHR ''#'') ?line = ?line"
    using chars assms(2) by (auto simp: plain_value_def takeWhile_eq_all_conv)
  have trim_line: "trim ?line = ?line"
  proof (rule trim_id)
    have "\<not> is_space (last ?line)"
    proof (cases "v = []")
      case False
      have "trim v \<noteq> [] \<Longrightarrow> \<not> is_space (last (trim v))" by (rule last_trim)
      with False assms(2) show ?thesis by (simp add: plain_value_def)
    qed (simp add: is_space_def chr_code_def)
    then show "\<not> is_space (hd ?line) \<and> \<not> is_space (last ?line)"
      using chars [OF hd] k by simp
  qed
  have key: "takeWhile (\<lambda>c. c \<noteq> CHR ''='') ?line = k" "dropWhile (\<lambda>c. c \<noteq> CHR ''='') ?line = ''='' @ v"
    using chars by (auto simp: takeWhile_append dropWhile_append)
  have "trim k = k" by (rule trim_no_space) (use chars in blast)
  moreover have "\<not> list_ex key_marker k" using chars by (auto simp: list_ex_iff)
  moreover have "hd ?line \<noteq> CHR ''[''" using chars [OF hd] k by (auto simp: key_marker_def)
  moreover have "trim v = v" using assms(2) by (simp add: plain_value_def)
  ultimately show ?thesis
    unfolding assignment_line_def cut Let_def trim_line key using k by simp
qed

lemma parse_assignment_lines:
  assumes "\<And>k v. (k, v) \<in> set kvs \<Longrightarrow> plain_key k \<and> plain_value v"
  shows "foldl assignment_line m (getlines [] (concat (map assignment kvs))) = m ++ map_of (rev kvs)"
  using assms
proof (induction kvs arbitrary: m)
  case (Cons kv kvs)
  obtain k v where kv: "kv = (k, v)" by (cases kv)
  with Cons.prems have plain: "plain_key k" "plain_value v" by auto
  then have "newline \<notin> set (k @ ''='' @ v)"
    using plain_key_chars [OF plain(1)] by (auto simp: plain_value_def)
  then have "getlines [] (concat (map assignment (kv # kvs))) = (k @ ''='' @ v) # getlines [] (concat (map assignment kvs))"
    using getlines_line [of "k @ ''='' @ v" "[]"] by (simp add: kv assignment_def)
  moreover have "foldl assignment_line (m(k \<mapsto> v)) (getlines [] (concat (map assignment kvs))) = m(k \<mapsto> v) ++ map_of (rev kvs)"
    by (rule Cons.IH) (use Cons.prems in auto)
  ultimately show ?case
    using assignment_line_plain [OF plain, of m] by (simp add: kv del: concat.simps list.map)
qed (simp add: parse_assignment_text_def)

text \<open>What was written is read back, the last line of a key wins.\<close>

lemma parse_assignment_text_lines:
  "(\<And>k v. (k, v) \<in> set kvs \<Longrightarrow> plain_key k \<and> plain_value v) \<Longrightarrow>
     parse_assignment_text (concat (map assignment kvs)) = map_of (rev kvs)"
  unfolding parse_assignment_text_def by (subst parse_assignment_lines) auto

lemma parse_i64_fallback_show [simp]: "in_int64 i \<Longrightarrow> parse_i64_fallback (show_int i) d = i"
  by (simp add: parse_i64_fallback_def show_int_nonempty)

end
