(* ===== verification/Runtime_Cache.thy ===== *)
theory Runtime_Cache
  imports Runtime_Index Assignment_Text
begin

text \<open>
  The stored form of the runtime index (\<open>exposure_ledger.h\<close>): its text, the reader of that text, how the rows
  are sealed with their digest and counts, and the validation. The digests of file metadata, which the code
  computes by walking a directory, are arguments of the validation.
\<close>

section \<open>The cache\<close>

record index_cache =
  rc_schema :: string
  rc_runtime_root :: string
  rc_runtime_metadata_digest :: string
  rc_watched_file_metadata_digest :: string
  rc_row_set_digest :: string
  rc_source_of_truth :: string
  rc_db_writes_evidence :: bool
  rc_runtime_executor :: bool
  rc_rebuildable_from_runtime_files :: bool
  rc_fact_count :: int
  rc_node_exposure_fact_count :: int
  rc_checkpoint_fact_count :: int
  rc_source_receipt_fact_count :: int
  rc_source_analytics_fact_count :: int
  rc_target_transform_fact_count :: int
  rc_forecast_baseline_fact_count :: int
  rc_forecast_eval_fact_count :: int
  rc_observer_belief_fact_count :: int
  rc_allocation_engine_fact_count :: int
  rc_replay_environment_fact_count :: int
  rc_policy_training_fact_count :: int
  rc_tsodao_settings_protection_fact_count :: int
  rc_policy_acceptance_fact_count :: int
  rc_paper_online_readiness_fact_count :: int
  rc_paper_online_session_fact_count :: int
  rc_selection_signal_fact_count :: int
  rc_representation_support_fact_count :: int
  rc_relation_counts :: "(string \<times> int) list"
  rc_rows :: "index_row list"
  rc_scan_warnings :: "string list"

definition bool_text :: "bool \<Rightarrow> string" where
  "bool_text b = (if b then ''true'' else ''false'')"

definition relation_key :: "nat \<Rightarrow> string \<Rightarrow> string" where
  "relation_key i s = ''relation_count_'' @ show_nat i @ CHR ''_'' # s"

definition row_key :: "nat \<Rightarrow> string \<Rightarrow> string" where
  "row_key i s = ''row_'' @ show_nat i @ CHR ''_'' # s"

definition warning_key :: "nat \<Rightarrow> string" where
  "warning_key i = ''scan_warning_'' @ show_nat i"

definition cache_header :: "index_cache \<Rightarrow> (string \<times> string) list" where
  "cache_header c = [(''schema'', rc_schema c),
      (''runtime_root'', rc_runtime_root c),
      (''runtime_metadata_digest'', rc_runtime_metadata_digest c),
      (''watched_file_metadata_digest'', rc_watched_file_metadata_digest c),
      (''row_set_digest'', rc_row_set_digest c),
      (''source_of_truth'', rc_source_of_truth c),
      (''db_writes_evidence'', bool_text (rc_db_writes_evidence c)),
      (''runtime_executor'', bool_text (rc_runtime_executor c)),
      (''rebuildable_from_runtime_files'', bool_text (rc_rebuildable_from_runtime_files c)),
      (''fact_count'', show_int (rc_fact_count c)),
      (''node_exposure_fact_count'', show_int (rc_node_exposure_fact_count c)),
      (''checkpoint_fact_count'', show_int (rc_checkpoint_fact_count c)),
      (''source_receipt_fact_count'', show_int (rc_source_receipt_fact_count c)),
      (''source_analytics_fact_count'', show_int (rc_source_analytics_fact_count c)),
      (''target_transform_fact_count'', show_int (rc_target_transform_fact_count c)),
      (''forecast_baseline_fact_count'', show_int (rc_forecast_baseline_fact_count c)),
      (''forecast_eval_fact_count'', show_int (rc_forecast_eval_fact_count c)),
      (''observer_belief_fact_count'', show_int (rc_observer_belief_fact_count c)),
      (''allocation_engine_fact_count'', show_int (rc_allocation_engine_fact_count c)),
      (''replay_environment_fact_count'', show_int (rc_replay_environment_fact_count c)),
      (''policy_training_fact_count'', show_int (rc_policy_training_fact_count c)),
      (''tsodao_settings_protection_fact_count'', show_int (rc_tsodao_settings_protection_fact_count c)),
      (''policy_acceptance_fact_count'', show_int (rc_policy_acceptance_fact_count c)),
      (''paper_online_readiness_fact_count'', show_int (rc_paper_online_readiness_fact_count c)),
      (''paper_online_session_fact_count'', show_int (rc_paper_online_session_fact_count c)),
      (''selection_signal_fact_count'', show_int (rc_selection_signal_fact_count c)),
      (''representation_support_fact_count'', show_int (rc_representation_support_fact_count c))]"

definition relation_lines :: "nat \<times> string \<times> int \<Rightarrow> (string \<times> string) list" where
  "relation_lines = (\<lambda>(i, r, n). [(relation_key i ''relation'', r), (relation_key i ''count'', show_int n)])"

definition row_assignments :: "nat \<times> index_row \<Rightarrow> (string \<times> string) list" where
  "row_assignments = (\<lambda>(i, row). [(row_key i ''relation'', ir_relation row), (row_key i ''key'', ir_key row),
     (row_key i ''digest'', ir_digest row)])"

definition cache_assignments :: "index_cache \<Rightarrow> (string \<times> string) list" where
  "cache_assignments c = cache_header c @
     (''relation_count_count'', show_nat (length (rc_relation_counts c))) #
     concat (map relation_lines (List.enumerate 0 (rc_relation_counts c))) @
     (''row_count'', show_nat (length (rc_rows c))) #
     concat (map row_assignments (List.enumerate 0 (rc_rows c))) @
     (''scan_warning_count'', show_nat (length (rc_scan_warnings c))) #
     map (\<lambda>(i, w). (warning_key i, w)) (List.enumerate 0 (rc_scan_warnings c))"

definition canonical_runtime_index_cache_text :: "index_cache \<Rightarrow> string" where
  "canonical_runtime_index_cache_text c = concat (map assignment (cache_assignments c))"

text \<open>The indices of a loop from 0 that is bounded by a signed number.\<close>

definition indices :: "int \<Rightarrow> nat list" where
  "indices n = [0..<nat n]"

definition read_relation_count :: "(string \<rightharpoonup> string) \<Rightarrow> nat \<Rightarrow> string \<times> int" where
  "read_relation_count m i = (map_get m (relation_key i ''relation'') [],
     parse_i64_fallback (map_get m (relation_key i ''count'') []) 0)"

definition read_row :: "(string \<rightharpoonup> string) \<Rightarrow> nat \<Rightarrow> index_row" where
  "read_row m i = Index_Row (map_get m (row_key i ''relation'') []) (map_get m (row_key i ''key'') [])
     (map_get m (row_key i ''digest'') [])"

definition read_runtime_index_cache :: "string \<Rightarrow> index_cache" where
  "read_runtime_index_cache text =
     (let m = parse_assignment_text text in
      \<lparr>rc_schema = map_get m ''schema'' [],
      rc_runtime_root = map_get m ''runtime_root'' [],
      rc_runtime_metadata_digest = map_get m ''runtime_metadata_digest'' [],
      rc_watched_file_metadata_digest = map_get m ''watched_file_metadata_digest'' [],
      rc_row_set_digest = map_get m ''row_set_digest'' [],
      rc_source_of_truth = map_get m ''source_of_truth'' ''runtime_files_and_sidecars'',
      rc_db_writes_evidence = parse_bool_fallback (map_get m ''db_writes_evidence'' []) False,
      rc_runtime_executor = parse_bool_fallback (map_get m ''runtime_executor'' []) False,
      rc_rebuildable_from_runtime_files = parse_bool_fallback (map_get m ''rebuildable_from_runtime_files'' []) True,
      rc_fact_count = parse_i64_fallback (map_get m ''fact_count'' []) 0,
      rc_node_exposure_fact_count = parse_i64_fallback (map_get m ''node_exposure_fact_count'' []) 0,
      rc_checkpoint_fact_count = parse_i64_fallback (map_get m ''checkpoint_fact_count'' []) 0,
      rc_source_receipt_fact_count = parse_i64_fallback (map_get m ''source_receipt_fact_count'' []) 0,
      rc_source_analytics_fact_count = parse_i64_fallback (map_get m ''source_analytics_fact_count'' []) 0,
      rc_target_transform_fact_count = parse_i64_fallback (map_get m ''target_transform_fact_count'' []) 0,
      rc_forecast_baseline_fact_count = parse_i64_fallback (map_get m ''forecast_baseline_fact_count'' []) 0,
      rc_forecast_eval_fact_count = parse_i64_fallback (map_get m ''forecast_eval_fact_count'' []) 0,
      rc_observer_belief_fact_count = parse_i64_fallback (map_get m ''observer_belief_fact_count'' []) 0,
      rc_allocation_engine_fact_count = parse_i64_fallback (map_get m ''allocation_engine_fact_count'' []) 0,
      rc_replay_environment_fact_count = parse_i64_fallback (map_get m ''replay_environment_fact_count'' []) 0,
      rc_policy_training_fact_count = parse_i64_fallback (map_get m ''policy_training_fact_count'' []) 0,
      rc_tsodao_settings_protection_fact_count = parse_i64_fallback (map_get m ''tsodao_settings_protection_fact_count'' []) 0,
      rc_policy_acceptance_fact_count = parse_i64_fallback (map_get m ''policy_acceptance_fact_count'' []) 0,
      rc_paper_online_readiness_fact_count = parse_i64_fallback (map_get m ''paper_online_readiness_fact_count'' []) 0,
      rc_paper_online_session_fact_count = parse_i64_fallback (map_get m ''paper_online_session_fact_count'' []) 0,
      rc_selection_signal_fact_count = parse_i64_fallback (map_get m ''selection_signal_fact_count'' []) 0,
      rc_representation_support_fact_count = parse_i64_fallback (map_get m ''representation_support_fact_count'' []) 0,
      rc_relation_counts = map (read_relation_count m) (indices (parse_i64_fallback (map_get m ''relation_count_count'' []) 0)),
      rc_rows = map (read_row m) (indices (parse_i64_fallback (map_get m ''row_count'' []) 0)),
      rc_scan_warnings = map (\<lambda>i. map_get m (warning_key i) []) (indices (parse_i64_fallback (map_get m ''scan_warning_count'' []) 0))\<rparr>)"

text \<open>The end of \<open>make_runtime_index_cache_from_scan\<close>: sorting, digest and counts.\<close>

definition seal_rows :: "index_row list \<Rightarrow> index_cache \<Rightarrow> index_cache" where
  "seal_rows rows c = c\<lparr>rc_rows := sort rows, rc_row_set_digest := runtime_index_rows_digest (sort rows),
     rc_relation_counts := runtime_index_relation_counts (sort rows)\<rparr>"

definition query_runtime_index_cache :: "index_cache \<Rightarrow> index_query \<Rightarrow> nat \<Rightarrow> index_query_result" where
  "query_runtime_index_cache c q limit = query_runtime_index_rows (rc_rows c) q limit"

definition compare_runtime_index_caches :: "index_cache \<Rightarrow> index_cache \<Rightarrow> nat \<Rightarrow> index_parity" where
  "compare_runtime_index_caches indexed live limit = compare_runtime_index_rows (rc_rows indexed) (rc_rows live) limit"

section \<open>Validation\<close>

datatype validation_strength = Header_Only | Watched_File_Manifest | Full_Runtime_Metadata_Digest

definition runtime_index_validation_strength_name :: "validation_strength \<Rightarrow> string" where
  "runtime_index_validation_strength_name strength = (case strength of
     Header_Only \<Rightarrow> ''header_only''
   | Watched_File_Manifest \<Rightarrow> ''watched_file_manifest''
   | Full_Runtime_Metadata_Digest \<Rightarrow> ''full_runtime_metadata_digest'')"

record cache_validation =
  cv_validation_strength :: string
  cv_available :: bool
  cv_schema_matches :: bool
  cv_metadata_checked :: bool
  cv_metadata_matches :: bool
  cv_watched_metadata_checked :: bool
  cv_watched_metadata_matches :: bool
  cv_row_set_checked :: bool
  cv_row_set_matches :: bool
  cv_relation_counts_checked :: bool
  cv_relation_counts_match :: bool
  cv_expected_runtime_metadata_digest :: string
  cv_observed_runtime_metadata_digest :: string
  cv_expected_watched_file_metadata_digest :: string
  cv_observed_watched_file_metadata_digest :: string
  cv_expected_row_set_digest :: string
  cv_observed_row_set_digest :: string
  cv_issues :: "string list"
  cv_cache_valid :: bool

definition note_if :: "bool \<Rightarrow> string \<Rightarrow> string list" where
  "note_if b issue = (if b then [issue] else [])"

text \<open>The two digests of the files under the root are \<open>metadata\<close> and \<open>watched\<close>.\<close>

definition validate_runtime_index_cache ::
  "string \<Rightarrow> string \<Rightarrow> index_cache \<Rightarrow> validation_strength \<Rightarrow> cache_validation"
where
  "validate_runtime_index_cache metadata watched c strength =
     (let available = rc_schema c \<noteq> [];
        schema_matches = (rc_schema c = ''kikijyeba.lattice.runtime_index_cache.v1'');
        metadata_checked = (strength = Full_Runtime_Metadata_Digest);
        metadata_matches = (metadata_checked \<and> rc_runtime_metadata_digest c = metadata);
        watched_checked = (strength = Watched_File_Manifest);
        watched_matches = (watched_checked \<and> rc_watched_file_metadata_digest c = watched);
        row_set_matches = (available \<and> rc_row_set_digest c \<noteq> [] \<and>
          rc_row_set_digest c = runtime_index_rows_digest (rc_rows c));
        counts_match = (available \<and>
          runtime_index_relation_counts_equal (rc_relation_counts c) (runtime_index_relation_counts (rc_rows c)));
        issues = note_if (\<not> available) ''missing_cache'' @
          note_if (\<not> schema_matches) ''schema_mismatch'' @
          note_if (metadata_checked \<and> \<not> metadata_matches) ''runtime_metadata_digest_mismatch'' @
          note_if (watched_checked \<and> \<not> watched_matches) ''watched_file_metadata_digest_mismatch'' @
          note_if (available \<and> \<not> row_set_matches) ''row_set_digest_mismatch'' @
          note_if (available \<and> \<not> counts_match) ''relation_counts_digest_mismatch'' @
          note_if (rc_db_writes_evidence c) ''cache_claims_evidence_write_authority'' @
          note_if (rc_runtime_executor c) ''cache_claims_runtime_executor_authority'' @
          note_if (\<not> rc_rebuildable_from_runtime_files c) ''cache_not_rebuildable_from_runtime_files'' @
          note_if (rc_source_of_truth c \<noteq> ''runtime_files_and_sidecars'') ''cache_source_of_truth_not_runtime_files''
      in \<lparr>cv_validation_strength = runtime_index_validation_strength_name strength, cv_available = available, cv_schema_matches = schema_matches, cv_metadata_checked = metadata_checked,
        cv_metadata_matches = metadata_matches, cv_watched_metadata_checked = watched_checked,
        cv_watched_metadata_matches = watched_matches, cv_row_set_checked = available,
        cv_row_set_matches = row_set_matches, cv_relation_counts_checked = available,
        cv_relation_counts_match = counts_match,
        cv_expected_runtime_metadata_digest = (if metadata_checked then metadata else []),
        cv_observed_runtime_metadata_digest = rc_runtime_metadata_digest c,
        cv_expected_watched_file_metadata_digest = (if watched_checked then watched else []),
        cv_observed_watched_file_metadata_digest = rc_watched_file_metadata_digest c,
        cv_expected_row_set_digest = (if available then runtime_index_rows_digest (rc_rows c) else []),
        cv_observed_row_set_digest = rc_row_set_digest c, cv_issues = issues, cv_cache_valid = (issues = [])\<rparr>)"

section \<open>Keys\<close>

lemma show_nat_Cons: "\<exists>d r. show_nat i = d # r \<and> is_digit d"
  using show_nat_nonempty [of i] show_nat_digits [of _ i] by (cases "show_nat i") auto

lemma indexed_key_inject: "show_nat i @ CHR ''_'' # s = show_nat j @ CHR ''_'' # t \<longleftrightarrow> i = j \<and> s = t"
  by (subst sep_inject) (auto intro!: show_nat_no_char simp: is_digit_def chr_code_def show_nat_inject)

lemma key_inject [simp]:
  "relation_key i s = relation_key j t \<longleftrightarrow> i = j \<and> s = t" "row_key i s = row_key j t \<longleftrightarrow> i = j \<and> s = t"
  "warning_key i = warning_key j \<longleftrightarrow> i = j"
  by (simp_all add: relation_key_def row_key_def warning_key_def indexed_key_inject show_nat_inject)

lemma key_kinds [simp]:
  "relation_key i s \<noteq> row_key j t" "row_key j t \<noteq> relation_key i s" "relation_key i s \<noteq> warning_key j"
  "warning_key j \<noteq> relation_key i s" "row_key i s \<noteq> warning_key j" "warning_key j \<noteq> row_key i s"
  by (simp_all add: relation_key_def row_key_def warning_key_def)

definition fixed_assignments :: "index_cache \<Rightarrow> (string \<times> string) list" where
  "fixed_assignments c = cache_header c @
     [(''relation_count_count'', show_nat (length (rc_relation_counts c))),
      (''row_count'', show_nat (length (rc_rows c))), (''scan_warning_count'', show_nat (length (rc_scan_warnings c)))]"

lemma fixed_distinct: "distinct (map fst (fixed_assignments c))"
  by (simp add: fixed_assignments_def cache_header_def)

lemma fixed_not_indexed:
  assumes "(k, v) \<in> set (fixed_assignments c)"
  shows "k \<noteq> relation_key i s" "k \<noteq> row_key i s" "k \<noteq> warning_key i"
proof -
  obtain d r where i: "show_nat i = d # r" "is_digit d" using show_nat_Cons by blast
  then have "d \<noteq> CHR ''c''" "d \<noteq> CHR ''s''" by (auto simp: is_digit_def chr_code_def)
  with assms i show "k \<noteq> relation_key i s" "k \<noteq> row_key i s" "k \<noteq> warning_key i"
    by (auto simp: fixed_assignments_def cache_header_def relation_key_def row_key_def warning_key_def)
qed

lemma set_concat_enumerate:
  "x \<in> set (concat (map f (List.enumerate 0 xs))) \<longleftrightarrow> (\<exists>i < length xs. x \<in> set (f (i, xs ! i)))"
proof
  assume "x \<in> set (concat (map f (List.enumerate 0 xs)))"
  then obtain p where "p \<in> set (List.enumerate 0 xs)" "x \<in> set (f p)" by auto
  then show "\<exists>i < length xs. x \<in> set (f (i, xs ! i))" by (auto simp: in_set_enumerate_eq intro!: exI [of _ "fst p"])
next
  assume "\<exists>i < length xs. x \<in> set (f (i, xs ! i))"
  then obtain i where i: "i < length xs" "x \<in> set (f (i, xs ! i))" by blast
  then have "(i, xs ! i) \<in> set (List.enumerate 0 xs)" by (simp add: in_set_enumerate_eq)
  with i(2) show "x \<in> set (concat (map f (List.enumerate 0 xs)))" by force
qed

lemma set_cache_assignments:
  "(k, v) \<in> set (cache_assignments c) \<longleftrightarrow> (k, v) \<in> set (fixed_assignments c) \<or>
     (\<exists>i < length (rc_relation_counts c). k = relation_key i ''relation'' \<and> v = fst (rc_relation_counts c ! i)) \<or>
     (\<exists>i < length (rc_relation_counts c). k = relation_key i ''count'' \<and> v = show_int (snd (rc_relation_counts c ! i))) \<or>
     (\<exists>i < length (rc_rows c). k = row_key i ''relation'' \<and> v = ir_relation (rc_rows c ! i)) \<or>
     (\<exists>i < length (rc_rows c). k = row_key i ''key'' \<and> v = ir_key (rc_rows c ! i)) \<or>
     (\<exists>i < length (rc_rows c). k = row_key i ''digest'' \<and> v = ir_digest (rc_rows c ! i)) \<or>
     (\<exists>i < length (rc_scan_warnings c). k = warning_key i \<and> v = rc_scan_warnings c ! i)"
proof -
  have sets: "set (cache_assignments c) = set (fixed_assignments c) \<union>
      set (concat (map relation_lines (List.enumerate 0 (rc_relation_counts c)))) \<union>
      set (concat (map row_assignments (List.enumerate 0 (rc_rows c)))) \<union>
      set (map (\<lambda>(i, w). (warning_key i, w)) (List.enumerate 0 (rc_scan_warnings c)))"
    by (auto simp only: cache_assignments_def fixed_assignments_def set_append list.set)
  have "(k, v) \<in> set (concat (map relation_lines (List.enumerate 0 xs))) \<longleftrightarrow>
     (\<exists>i < length xs. k = relation_key i ''relation'' \<and> v = fst (xs ! i)) \<or>
     (\<exists>i < length xs. k = relation_key i ''count'' \<and> v = show_int (snd (xs ! i)))" for xs
    unfolding set_concat_enumerate relation_lines_def split_def by auto
  moreover have "(k, v) \<in> set (concat (map row_assignments (List.enumerate 0 xs))) \<longleftrightarrow>
     (\<exists>i < length xs. k = row_key i ''relation'' \<and> v = ir_relation (xs ! i)) \<or>
     (\<exists>i < length xs. k = row_key i ''key'' \<and> v = ir_key (xs ! i)) \<or>
     (\<exists>i < length xs. k = row_key i ''digest'' \<and> v = ir_digest (xs ! i))" for xs
    unfolding set_concat_enumerate row_assignments_def split_def by auto
  moreover have "(k, v) \<in> set (map (\<lambda>(i, w). (warning_key i, w)) (List.enumerate 0 xs)) \<longleftrightarrow>
     (\<exists>i < length xs. k = warning_key i \<and> v = xs ! i)" for xs
    using set_concat_enumerate [of "(k, v)" "\<lambda>(i, w). [(warning_key i, w)]" xs]
    by (simp add: concat_map_singleton split_def)
  ultimately show ?thesis
    unfolding sets by (simp only: Un_iff disj_assoc)
qed

lemma cache_assignments_unique:
  assumes "(k, v) \<in> set (cache_assignments c)" "(k, v') \<in> set (cache_assignments c)"
  shows "v = v'"
proof -
  have fixed: "(k, b) \<in> set (fixed_assignments c)"
    if "(k, a) \<in> set (fixed_assignments c)" "(k, b) \<in> set (cache_assignments c)" for a b
    using that(2) fixed_not_indexed [OF that(1)] unfolding set_cache_assignments
    by (elim disjE exE conjE; blast)
  show ?thesis
  proof (cases "(k, v) \<in> set (fixed_assignments c)")
    case True
    from eq_key_imp_eq_value [OF fixed_distinct True fixed [OF True assms(2)]] show ?thesis .
  next
    case False
    with assms(1) fixed [of v' v] have "(k, v') \<notin> set (fixed_assignments c)" by blast
    with assms False show ?thesis unfolding set_cache_assignments
      by (elim disjE exE conjE) simp_all
  qed
qed

lemma cache_map:
  assumes "(k, v) \<in> set (cache_assignments c)"
  shows "map_of (rev (cache_assignments c)) k = Some v"
proof -
  obtain w where w: "map_of (rev (cache_assignments c)) k = Some w"
    using assms by (metis set_rev weak_map_of_SomeI)
  then have "(k, w) \<in> set (cache_assignments c)" by (metis map_of_SomeD set_rev)
  with assms w show ?thesis using cache_assignments_unique by blast
qed

section \<open>Round trip\<close>

definition cache_counts :: "index_cache \<Rightarrow> int list" where
  "cache_counts c = [rc_fact_count c, rc_node_exposure_fact_count c, rc_checkpoint_fact_count c, rc_source_receipt_fact_count c, rc_source_analytics_fact_count c, rc_target_transform_fact_count c, rc_forecast_baseline_fact_count c, rc_forecast_eval_fact_count c, rc_observer_belief_fact_count c, rc_allocation_engine_fact_count c, rc_replay_environment_fact_count c, rc_policy_training_fact_count c, rc_tsodao_settings_protection_fact_count c, rc_policy_acceptance_fact_count c, rc_paper_online_readiness_fact_count c, rc_paper_online_session_fact_count c, rc_selection_signal_fact_count c, rc_representation_support_fact_count c]"

definition cache_texts :: "index_cache \<Rightarrow> string list" where
  "cache_texts c = [rc_schema c, rc_runtime_root c, rc_runtime_metadata_digest c, rc_watched_file_metadata_digest c, rc_row_set_digest c, rc_source_of_truth c] @ map fst (rc_relation_counts c) @
     concat (map (\<lambda>row. [ir_relation row, ir_key row, ir_digest row]) (rc_rows c)) @ rc_scan_warnings c"

text \<open>No text of the cache would be cut by the format: none has a line break, a hash sign or outer blanks.\<close>

definition cache_writable :: "index_cache \<Rightarrow> bool" where
  "cache_writable c \<longleftrightarrow> list_all plain_value (cache_texts c) \<and> list_all in_int64 (cache_counts c) \<and>
     list_all in_int64 (map snd (rc_relation_counts c)) \<and> int (length (rc_relation_counts c)) < 2 ^ 63 \<and>
     int (length (rc_rows c)) < 2 ^ 63 \<and> int (length (rc_scan_warnings c)) < 2 ^ 63"

lemma plain_show_int [simp]: "plain_value (show_int i)"
  using show_int_no_char [of newline i] show_int_no_char [of "CHR ''#''" i] by (simp add: plain_value_def is_digit_def chr_code_def)

lemma plain_show_nat [simp]: "plain_value (show_nat n)"
  using plain_show_int [of "int n"] by (simp add: show_int_def)

lemma plain_bool_text [simp]: "plain_value (bool_text b)"
  by (simp add: plain_value_def bool_text_def trim_def is_space_def chr_code_def)

lemma plain_indexed: "plain_key (relation_key i ''relation'')" "plain_key (relation_key i ''count'')"
  "plain_key (row_key i ''relation'')" "plain_key (row_key i ''key'')" "plain_key (row_key i ''digest'')"
  "plain_key (warning_key i)"
proof -
  have "list_all (\<lambda>c. is_alnum c \<or> c = CHR ''_'') (show_nat i)"
    using show_nat_digits by (auto simp: list_all_iff is_alnum_def)
  then show "plain_key (relation_key i ''relation'')" "plain_key (relation_key i ''count'')"
    "plain_key (row_key i ''relation'')" "plain_key (row_key i ''key'')" "plain_key (row_key i ''digest'')"
    "plain_key (warning_key i)"
    by (simp_all add: plain_key_def relation_key_def row_key_def warning_key_def chr_class_defs chr_code_def)
qed

lemma plain_fixed:
  assumes "cache_writable c" "(k, v) \<in> set (fixed_assignments c)"
  shows "plain_key k \<and> plain_value v"
proof -
  have "list_all (\<lambda>(k, v). plain_key k) (fixed_assignments c)"
    by (simp add: fixed_assignments_def cache_header_def plain_key_def chr_class_defs chr_code_def)
  moreover have "list_all (\<lambda>(k, v). plain_value v) (fixed_assignments c)"
    using assms(1) by (simp add: fixed_assignments_def cache_header_def cache_writable_def cache_texts_def)
  ultimately show ?thesis using assms(2) by (auto simp: list_all_iff)
qed

lemma plain_assignments:
  assumes "cache_writable c" "(k, v) \<in> set (cache_assignments c)"
  shows "plain_key k \<and> plain_value v"
proof -
  have texts: "\<And>i. i < length (rc_relation_counts c) \<Longrightarrow> plain_value (fst (rc_relation_counts c ! i))"
    "\<And>i. i < length (rc_rows c) \<Longrightarrow> plain_value (ir_relation (rc_rows c ! i)) \<and> plain_value (ir_key (rc_rows c ! i)) \<and>
       plain_value (ir_digest (rc_rows c ! i))"
    "\<And>i. i < length (rc_scan_warnings c) \<Longrightarrow> plain_value (rc_scan_warnings c ! i)"
  proof -
    have all: "\<And>s. s \<in> set (cache_texts c) \<Longrightarrow> plain_value s"
      using assms(1) by (simp add: cache_writable_def list_all_iff)
    show "plain_value (fst (rc_relation_counts c ! i))" if "i < length (rc_relation_counts c)" for i
      by (rule all) (use nth_mem [OF that] in \<open>simp add: cache_texts_def\<close>)
    show "plain_value (ir_relation (rc_rows c ! i)) \<and> plain_value (ir_key (rc_rows c ! i)) \<and>
       plain_value (ir_digest (rc_rows c ! i))" if "i < length (rc_rows c)" for i
      by (intro conjI; rule all) (use nth_mem [OF that] in \<open>auto simp: cache_texts_def\<close>)
    show "plain_value (rc_scan_warnings c ! i)" if "i < length (rc_scan_warnings c)" for i
      by (rule all) (use nth_mem [OF that] in \<open>simp add: cache_texts_def\<close>)
  qed
  then show ?thesis
    using assms(2) plain_fixed [OF assms(1), of k v] unfolding set_cache_assignments
    by (elim disjE exE conjE) (simp_all add: plain_indexed)
qed

lemma map_indices: "int (length xs) < 2 ^ 63 \<Longrightarrow> (\<And>i. i < length xs \<Longrightarrow> f i = xs ! i) \<Longrightarrow>
    map f (indices (parse_i64_fallback (show_nat (length xs)) 0)) = xs"
  using parse_i64_fallback_show [of "int (length xs)" 0]
  by (auto simp: show_int_def int64_defs indices_def intro: nth_equalityI)

lemma parse_bool_text [simp]: "parse_bool_fallback (bool_text b) d = b"
  by (cases b) (simp_all add: parse_bool_fallback_def bool_text_def trim_def is_space_def chr_code_def
    lowercase_def to_lower_def is_upper_def)

text \<open>
  Reading the text of a cache gives the cache back, when its texts have no line break, no hash sign
  and no outer blanks, and its numbers fit 64 bits.
\<close>

lemma runtime_index_cache_roundtrip:
  assumes "cache_writable c"
  shows "read_runtime_index_cache (canonical_runtime_index_cache_text c) = c"
proof -
  define m where "m = map_of (rev (cache_assignments c))"
  have parsed: "parse_assignment_text (canonical_runtime_index_cache_text c) = m"
    unfolding canonical_runtime_index_cache_text_def m_def
    by (rule parse_assignment_text_lines) (rule plain_assignments [OF assms])
  have get: "map_get m k d = v" if "(k, v) \<in> set (cache_assignments c)" for k v d
    using cache_map [OF that] by (simp add: m_def map_get_def)
  have fixed: "map_get m k d = v" if "(k, v) \<in> set (fixed_assignments c)" for k v d
    by (rule get) (use that in \<open>simp add: set_cache_assignments\<close>)
  have counts: "list_all in_int64 (cache_counts c)" "list_all in_int64 (map snd (rc_relation_counts c))"
    and sizes: "int (length (rc_relation_counts c)) < 2 ^ 63" "int (length (rc_rows c)) < 2 ^ 63"
      "int (length (rc_scan_warnings c)) < 2 ^ 63"
    using assms by (simp_all add: cache_writable_def)
  have relations: "read_relation_count m i = rc_relation_counts c ! i" if "i < length (rc_relation_counts c)" for i
  proof -
    have "map_get m (relation_key i ''relation'') [] = fst (rc_relation_counts c ! i)"
      "map_get m (relation_key i ''count'') [] = show_int (snd (rc_relation_counts c ! i))"
      by (rule get, use that in \<open>auto simp: set_cache_assignments\<close>)+
    moreover have "in_int64 (snd (rc_relation_counts c ! i))" using counts(2) that by (auto simp: list_all_iff)
    ultimately show ?thesis by (simp add: read_relation_count_def)
  qed
  have rows: "read_row m i = rc_rows c ! i" if "i < length (rc_rows c)" for i
  proof -
    have "map_get m (row_key i ''relation'') [] = ir_relation (rc_rows c ! i)"
      "map_get m (row_key i ''key'') [] = ir_key (rc_rows c ! i)"
      "map_get m (row_key i ''digest'') [] = ir_digest (rc_rows c ! i)"
      by (rule get, use that in \<open>auto simp: set_cache_assignments\<close>)+
    then show ?thesis by (simp add: read_row_def)
  qed
  have warnings: "map_get m (warning_key i) [] = rc_scan_warnings c ! i" if "i < length (rc_scan_warnings c)" for i
    by (rule get) (use that in \<open>auto simp: set_cache_assignments\<close>)
  have "list_all (\<lambda>(k, v). \<forall>d. map_get m k d = v) (fixed_assignments c)"
    using fixed by (auto simp: list_all_iff)
  note field = this [unfolded fixed_assignments_def cache_header_def append.simps list.pred_inject prod.case]
  show ?thesis
    unfolding read_runtime_index_cache_def parsed Let_def
    using counts(1) sizes
    by (intro index_cache.equality) (simp_all add: field map_indices relations rows warnings cache_counts_def)
qed

lemma hash_hex_chars: "c \<in> set (hash_hex h) \<Longrightarrow> is_alnum c"
proof -
  have digit: "is_alnum (hex_chr d)" if "d < 16" for d
    using that by (auto simp: hex_chr_def chr_class_defs)
  have "c \<in> set (hex_fixed w n) \<Longrightarrow> is_alnum c" for w n
    by (induction w arbitrary: n) (auto intro: digit)
  then show "c \<in> set (hash_hex h) \<Longrightarrow> is_alnum c" by (simp add: hash_hex_def)
qed

lemma plain_digest: "plain_value (exposure_digest_for_text s)" "exposure_digest_for_text s \<noteq> []"
proof -
  have "trim (hash_hex h) = hash_hex h" for h
    by (rule trim_no_space) (use hash_hex_chars is_alnum_not_space in blast)
  moreover have "newline \<notin> set (hash_hex h)" "CHR ''#'' \<notin> set (hash_hex h)" for h
    using hash_hex_chars [of newline h] hash_hex_chars [of "CHR ''#''" h] by (auto simp: chr_class_defs chr_code_def)
  ultimately show "plain_value (exposure_digest_for_text s)"
    by (simp add: plain_value_def exposure_digest_for_text_def)
  have "length (hash_hex h) = 16" for h by (simp add: hash_hex_def length_hex_fixed)
  then show "exposure_digest_for_text s \<noteq> []"
    by (metis exposure_digest_for_text_def list.size(3) zero_neq_numeral)
qed

text \<open>What \<open>make_runtime_index_cache_from_scan\<close> sets beside the rows.\<close>

definition cache_authorized :: "index_cache \<Rightarrow> bool" where
  "cache_authorized c \<longleftrightarrow> rc_schema c = ''kikijyeba.lattice.runtime_index_cache.v1'' \<and> \<not> rc_db_writes_evidence c \<and>
     \<not> rc_runtime_executor c \<and> rc_rebuildable_from_runtime_files c \<and> rc_source_of_truth c = ''runtime_files_and_sidecars''"

text \<open>
  C31: a sealed index survives being stored, provided that the format can hold its texts: no key, path, digest
  or warning has a hash sign, a line break or outer blanks (\<open>cache_writable\<close>), which the code does not check. The cache read back is valid as long as the files under the
  root have the metadata digest it was built with, is found stale as soon as that digest differs, and
  answers every query as a scan of its rows would; compared with any other sealed index, it passes
  exactly when the rows are the same.
\<close>

theorem stored_index_faithful:
  fixes rows c
  defines "stored \<equiv> read_runtime_index_cache (canonical_runtime_index_cache_text (seal_rows rows c))"
  assumes "cache_writable (seal_rows rows c)" "cache_authorized c"
  shows "(cv_cache_valid (validate_runtime_index_cache metadata watched stored Full_Runtime_Metadata_Digest) \<longleftrightarrow>
       rc_runtime_metadata_digest c = metadata) \<and>
     query_runtime_index_cache stored q limit = query_runtime_index_rows (sort rows) q limit \<and>
     (pa_passed (compare_runtime_index_caches stored (seal_rows live d) preview) \<longleftrightarrow> mset rows = mset live)"
proof -
  have stored: "stored = seal_rows rows c"
    unfolding stored_def using assms(2) by (rule runtime_index_cache_roundtrip)
  have "runtime_index_rows_digest (sort rows) \<noteq> []" by (simp add: runtime_index_rows_digest_def plain_digest)
  with assms(3) show ?thesis
    unfolding stored cache_authorized_def
    by (simp add: validate_runtime_index_cache_def Let_def seal_rows_def note_if_def relation_counts_equal_iff
      query_runtime_index_cache_def compare_runtime_index_caches_def compare_passed)
qed

definition example_cache :: index_cache where
  "example_cache = \<lparr>rc_schema = ''kikijyeba.lattice.runtime_index_cache.v1'', rc_runtime_root = ''/run'', rc_runtime_metadata_digest = ''0011'', rc_watched_file_metadata_digest = [], rc_row_set_digest = [], rc_source_of_truth = ''runtime_files_and_sidecars'', rc_db_writes_evidence = False, rc_runtime_executor = False, rc_rebuildable_from_runtime_files = True, rc_fact_count = 0, rc_node_exposure_fact_count = 0, rc_checkpoint_fact_count = 0, rc_source_receipt_fact_count = 0, rc_source_analytics_fact_count = 0, rc_target_transform_fact_count = 0, rc_forecast_baseline_fact_count = 0, rc_forecast_eval_fact_count = 0, rc_observer_belief_fact_count = 0, rc_allocation_engine_fact_count = 0, rc_replay_environment_fact_count = 0, rc_policy_training_fact_count = 0, rc_tsodao_settings_protection_fact_count = 0, rc_policy_acceptance_fact_count = 0, rc_paper_online_readiness_fact_count = 0, rc_paper_online_session_fact_count = 0, rc_selection_signal_fact_count = 0, rc_representation_support_fact_count = 0, rc_relation_counts = [], rc_rows = [], rc_scan_warnings = []\<rparr>"

definition example_rows :: "index_row list" where
  "example_rows = [Index_Row ''exposure'' ''job_2'' ''bb'', Index_Row ''checkpoint'' ''a.pt'' ''aa'']"

lemma example_sealed: "sort example_rows = rev example_rows"
  "runtime_index_relation_counts (rev example_rows) = [(''checkpoint'', 1), (''exposure'', 1)]"
  by code_simp+

theorem stored_index_faithful_witness:
  "let stored = read_runtime_index_cache (canonical_runtime_index_cache_text (seal_rows example_rows example_cache)) in
   cv_cache_valid (validate_runtime_index_cache ''0011'' [] stored Full_Runtime_Metadata_Digest) \<and>
   \<not> cv_cache_valid (validate_runtime_index_cache ''0012'' [] stored Full_Runtime_Metadata_Digest) \<and>
   qr_rows (query_runtime_index_cache stored
     \<lparr>iq_relation = ''exposure'', iq_key = [], iq_key_contains = ''job'', iq_digest = [], iq_digest_prefix = ''b''\<rparr> 5)
     = [Index_Row ''exposure'' ''job_2'' ''bb'']"
proof -
  let ?q = "\<lparr>iq_relation = ''exposure'', iq_key = [], iq_key_contains = ''job'', iq_digest = [], iq_digest_prefix = ''b''\<rparr>"
  have plain: "plain_value s" if "list_all (\<lambda>c. is_alnum c \<or> c \<in> {CHR ''_'', CHR ''.'', CHR ''/''}) s" for s
  proof -
    have "\<not> is_space c \<and> c \<noteq> newline \<and> c \<noteq> CHR ''#''" if "c \<in> set s" for c
      using \<open>list_all _ s\<close> that by (auto simp: list_all_iff chr_class_defs chr_code_def)
    then show ?thesis unfolding plain_value_def using trim_no_space [of s] by blast
  qed
  have digest: "plain_value (runtime_index_rows_digest r)" for r by (simp add: runtime_index_rows_digest_def plain_digest)
  have writable: "cache_writable (seal_rows example_rows example_cache)"
    unfolding cache_writable_def seal_rows_def example_sealed
    by (simp add: cache_texts_def cache_counts_def example_cache_def example_rows_def digest int64_defs)
      (intro conjI plain; simp add: chr_class_defs chr_code_def)
  have authorized: "cache_authorized example_cache" by (simp add: cache_authorized_def example_cache_def)
  note f = stored_index_faithful [OF writable authorized, of "''0011''" "[]" ?q 5 "[]" undefined 0]
    stored_index_faithful [OF writable authorized, of "''0012''" "[]" ?q 5 "[]" undefined 0]
  have "qr_rows (query_runtime_index_rows (sort example_rows) ?q 5) = [Index_Row ''exposure'' ''job_2'' ''bb'']"
    by code_simp
  with f show ?thesis by (simp add: Let_def example_cache_def)
qed

end
