(* ===== verification/Checkpoint_Paths.thy ===== *)
theory Checkpoint_Paths
  imports Prelude
begin

text \<open>
  The paths of checkpoints: what the exposure ledger uses of \<open>std::filesystem::path\<close> on POSIX. A path is its
  text; \<open>lexically_normal\<close> follows the rules of the standard on the sequence of file names, where a final
  empty name stands for a separator at the end.
\<close>

abbreviation slash :: char where "slash \<equiv> CHR ''/''"

text \<open>The names between separators, empty ones included\<close>

fun split_names :: "string \<Rightarrow> string \<Rightarrow> string list" where
  "split_names name [] = [name]"
| "split_names name (c # s) = (if c = slash then name # split_names [] s else split_names (name @ [c]) s)"

definition dot :: string where "dot = ''.''"
definition dotdot :: string where "dotdot = ''..''"

text \<open>The names of a path: those between separators that are not empty, and an empty one for a final separator.\<close>

definition path_names :: "string \<Rightarrow> string list" where
  "path_names p =
     (let names = filter (\<lambda>n. n \<noteq> []) (split_names [] p) in
      if names \<noteq> [] \<and> last p = slash then names @ [[]] else names)"

definition has_root :: "string \<Rightarrow> bool" where
  "has_root p \<longleftrightarrow> p \<noteq> [] \<and> hd p = slash"

text \<open>A dot is dropped together with the separator behind it; a final one leaves the separator before it.\<close>

definition drop_dots :: "string list \<Rightarrow> string list" where
  "drop_dots names =
     (if names = [] then []
      else filter (\<lambda>n. n \<noteq> dot) (butlast names) @ (if last names = dot then [[]] else [last names]))"

text \<open>
  One name against the names before it, the last first: two dots cancel a name before them, leaving its
  separator if they are the last name; behind the root they are dropped.
\<close>

fun push_name :: "bool \<Rightarrow> bool \<Rightarrow> string list \<Rightarrow> string \<Rightarrow> string list" where
  "push_name rooted final [] n = (if n = dotdot \<and> rooted then (if final then [[]] else []) else [n])"
| "push_name rooted final (t # ts) n =
     (if n = dotdot \<and> t \<noteq> dotdot then (if final then [] # ts else ts) else n # t # ts)"

fun push_names :: "bool \<Rightarrow> string list \<Rightarrow> string list \<Rightarrow> string list" where
  "push_names rooted stack [] = stack"
| "push_names rooted stack [n] = push_name rooted True stack n"
| "push_names rooted stack (n # m # names) = push_names rooted (push_name rooted False stack n) (m # names)"

text \<open>A separator behind final dots is removed.\<close>

definition normal_names :: "bool \<Rightarrow> string list \<Rightarrow> string list" where
  "normal_names rooted names =
     (case push_names rooted [] (drop_dots names) of
        [] # t # ts \<Rightarrow> if t = dotdot then rev (t # ts) else rev ([] # t # ts)
      | stack \<Rightarrow> rev stack)"

fun join_names :: "string list \<Rightarrow> string" where
  "join_names [] = []"
| "join_names [n] = n"
| "join_names (n # m # names) = n @ slash # join_names (m # names)"

definition lexically_normal :: "string \<Rightarrow> string" where
  "lexically_normal p =
     (if p = [] then []
      else let text = (if has_root p then [slash] else []) @ join_names (normal_names (has_root p) (path_names p)) in
        if text = [] then dot else text)"

text \<open>\<open>exposure_detail::checkpoint_key\<close>\<close>

definition checkpoint_key :: "string \<Rightarrow> string" where
  "checkpoint_key path = (if path = [] then [] else lexically_normal path)"

lemma checkpoint_key_empty: "checkpoint_key p = [] \<longleftrightarrow> p = []"
  by (simp add: checkpoint_key_def lexically_normal_def dot_def Let_def)

end
