(* ===== verification/Closure_Walk.thy ===== *)
theory Closure_Walk
  imports Prelude
begin

text \<open>
  The traversal of a graph of keys that produces effects on the way, as an interface: what a walk must
  satisfy for its result to be the set of keys reachable from the start, each with its effects. The
  closure of a checkpoint is an instance.
\<close>

fun fold_option :: "('a \<Rightarrow> 's \<Rightarrow> 's option) \<Rightarrow> 'a list \<Rightarrow> 's \<Rightarrow> 's option" where
  "fold_option f [] s = Some s"
| "fold_option f (x # xs) s = Option.bind (f x s) (fold_option f xs)"

lemma fold_option_map: "fold_option f (map g xs) s = fold_option (\<lambda>x. f (g x)) xs s"
  by (induction xs arbitrary: s) (simp_all cong: Option.bind_cong)

lemma fold_option_cong [fundef_cong]:
  "xs = ys \<Longrightarrow> s = t \<Longrightarrow> (\<And>x s. x \<in> set ys \<Longrightarrow> f x s = g x s) \<Longrightarrow> fold_option f xs s = fold_option g ys t"
  by (induction xs arbitrary: ys s t) (auto cong: Option.bind_cong)

text \<open>A relation that is reflexive and transitive, and that every step keeps, holds over the whole fold.\<close>

lemma fold_option_relation:
  assumes "fold_option f xs s = Some s'" "\<And>s. R s s" "\<And>a b c. R a b \<Longrightarrow> R b c \<Longrightarrow> R a c"
    "\<And>x s s'. x \<in> set xs \<Longrightarrow> f x s = Some s' \<Longrightarrow> R s s'"
  shows "R s s'"
  using assms(1,4)
proof (induction xs arbitrary: s)
  case (Cons x xs)
  from Cons.prems(1) obtain t where t: "f x s = Some t" "fold_option f xs t = Some s'"
    by (auto simp: bind_eq_Some_conv)
  have "R s t" using Cons.prems(2) [OF _ t(1)] by simp
  moreover have "R t s'" by (rule Cons.IH [OF t(2)]) (rule Cons.prems(2), simp_all)
  ultimately show ?case by (rule assms(3))
qed (simp add: assms(2))

lemma fold_option_returns:
  assumes "\<And>x s. x \<in> set xs \<Longrightarrow> ok s \<Longrightarrow> \<exists>s'. f x s = Some s' \<and> ok s'" "ok s"
  shows "\<exists>s'. fold_option f xs s = Some s' \<and> ok s'"
  using assms
proof (induction xs arbitrary: s)
  case (Cons x xs)
  then obtain t where t: "f x s = Some t" "ok t" by force
  moreover have "\<exists>s'. fold_option f xs t = Some s' \<and> ok s'" by (rule Cons.IH) (use Cons.prems t in auto)
  ultimately show ?case by simp
qed simp

text \<open>The keys reachable from a key; the empty key is none.\<close>

inductive lineage :: "(string \<Rightarrow> string list) \<Rightarrow> string \<Rightarrow> string \<Rightarrow> bool" for parents key where
  start: "key \<noteq> [] \<Longrightarrow> lineage parents key key"
| parent: "lineage parents key k \<Longrightarrow> k' \<in> set (parents k) \<Longrightarrow> k' \<noteq> [] \<Longrightarrow> lineage parents key k'"

inductive_cases lineageE: "lineage parents key k"

lemma lineage_nonempty: "lineage parents key k \<Longrightarrow> k \<noteq> []"
  by (induction rule: lineage.induct) simp_all

locale closure_walk =
  fixes prods :: "string \<Rightarrow> 'f list"
    and inputs :: "'f \<Rightarrow> string list"
    and seen :: "'s \<Rightarrow> string set"
    and mark :: "string \<Rightarrow> 's \<Rightarrow> 's"
    and visit :: "string \<Rightarrow> bool \<Rightarrow> 'f \<Rightarrow> 's \<Rightarrow> 's"
    and finish :: "string \<Rightarrow> 's \<Rightarrow> 's"
    and walk :: "nat \<Rightarrow> string \<Rightarrow> bool \<Rightarrow> 's \<Rightarrow> 's option"
  assumes walk_0: "walk 0 key r st = None"
    and walk_Suc: "walk (Suc n) key r st =
      (if key = [] \<or> key \<in> seen st then Some st
       else map_option (finish key)
         (fold_option (\<lambda>f st. fold_option (\<lambda>i. walk n i False) (inputs f) (visit key r f st)) (prods key) (mark key st)))"
    and seen_mark: "seen (mark key st) = insert key (seen st)"
    and seen_visit: "seen (visit key r f st) = seen st"
    and seen_finish: "seen (finish key st) = seen st"
begin

abbreviation parents :: "string \<Rightarrow> string list" where
  "parents k \<equiv> concat (map inputs (prods k))"

lemma walk_Some:
  assumes "walk n key r st = Some st'"
  obtains (stop) "key = [] \<or> key \<in> seen st" "st' = st"
  | (visit) m st1 where "n = Suc m" "key \<noteq> []" "key \<notin> seen st" "st' = finish key st1"
      "fold_option (\<lambda>f st. fold_option (\<lambda>i. walk m i False) (inputs f) (visit key r f st)) (prods key) (mark key st) = Some st1"
  using assms by (cases n) (auto simp: walk_0 walk_Suc split: if_splits)

text \<open>Nothing that was seen is forgotten, and what is seen anew is in the lineage and closed under parents.\<close>

definition explores :: "string \<Rightarrow> 's \<Rightarrow> 's \<Rightarrow> bool" where
  "explores rt st st' \<longleftrightarrow> seen st \<subseteq> seen st' \<and>
     (\<forall>k \<in> seen st' - seen st. lineage parents rt k \<and> set (parents k) - {[]} \<subseteq> seen st')"

lemma explores_refl: "explores rt st st"
  by (simp add: explores_def)

lemma explores_trans: "explores rt a b \<Longrightarrow> explores rt b c \<Longrightarrow> explores rt a c"
  unfolding explores_def by (blast intro: subset_trans)

lemma walk_explores:
  "walk n key r st = Some st' \<Longrightarrow> key = [] \<or> lineage parents rt key \<Longrightarrow>
     explores rt st st' \<and> (key = [] \<or> key \<in> seen st')"
proof (induction n arbitrary: key r st st')
  case 0
  then show ?case by (simp add: walk_0)
next
  case (Suc n)
  from Suc.prems(1) show ?case
  proof (cases rule: walk_Some)
    case stop
    then show ?thesis by (auto simp: explores_refl)
  next
    case (visit m st1)
    have nm: "n = m" using visit(1) by simp
    from visit have lin: "lineage parents rt key" using Suc.prems(2) by blast
    define R where "R D a b \<longleftrightarrow> explores rt a b \<and> (D - {[]} \<subseteq> seen b)" for D a b
    have join: "R (D \<union> E) a c" if "R D a b" "R E b c" for D E a b c
    proof -
      have "explores rt a c" using that explores_trans unfolding R_def by blast
      moreover have "seen b \<subseteq> seen c" using that(2) unfolding R_def explores_def by blast
      ultimately show ?thesis using that unfolding R_def by blast
    qed
    have calls: "R (set is) a b" if "fold_option (\<lambda>i. walk n i False) is a = Some b" "set is \<subseteq> set (parents key)" for "is" a b
      using that
    proof (induction "is" arbitrary: a)
      case (Cons i "is")
      then obtain t where t: "walk n i False a = Some t" "fold_option (\<lambda>i. walk n i False) is t = Some b"
        by (auto simp: bind_eq_Some_conv)
      have "i \<in> set (parents key)" using Cons.prems(2) by auto
      then have "i = [] \<or> lineage parents rt i" using lineage.parent [OF lin] by blast
      with Suc.IH [OF t(1)] have "R {i} a t" unfolding R_def by blast
      moreover have "R (set is) t b" by (rule Cons.IH) (use t Cons.prems in auto)
      ultimately have "R ({i} \<union> set is) a b" by (rule join)
      then show ?case by simp
    qed (simp add: R_def explores_refl)
    have prods: "R (set (concat (map inputs fs))) a b"
      if "fold_option (\<lambda>f st. fold_option (\<lambda>i. walk n i False) (inputs f) (visit key r f st)) fs a = Some b"
        "set fs \<subseteq> set (prods key)" for fs a b
      using that
    proof (induction fs arbitrary: a)
      case (Cons f fs)
      then obtain t where t: "fold_option (\<lambda>i. walk n i False) (inputs f) (visit key r f a) = Some t"
        "fold_option (\<lambda>f st. fold_option (\<lambda>i. walk n i False) (inputs f) (visit key r f st)) fs t = Some b"
        by (auto simp: bind_eq_Some_conv)
      have "R (set (inputs f)) (visit key r f a) t" by (rule calls [OF t(1)]) (use Cons.prems in auto)
      then have "R (set (inputs f)) a t" by (simp add: R_def explores_def seen_visit)
      moreover have "R (set (concat (map inputs fs))) t b" by (rule Cons.IH) (use t Cons.prems in auto)
      ultimately have "R (set (inputs f) \<union> set (concat (map inputs fs))) a b" by (rule join)
      then show ?case by simp
    qed (simp add: R_def explores_refl)
    have "R (set (parents key)) (mark key st) st1" using prods [OF visit(5) [folded nm] order.refl] .
    with visit lin show ?thesis by (auto simp: R_def explores_def seen_mark seen_finish)
  qed
qed

text \<open>A set that grows with every visit grows by the contributions of what is seen anew.\<close>

lemma walk_collects:
  assumes "\<And>k st. col (mark k st) = col st" "\<And>k r f st. f \<in> set (prods k) \<Longrightarrow> col (visit k r f st) = col st \<union> A k f"
    "\<And>k st. col (finish k st) = col st \<union> B k"
  shows "walk n key r st = Some st' \<Longrightarrow>
     seen st \<subseteq> seen st' \<and> col st' = col st \<union> (\<Union>k \<in> seen st' - seen st. B k \<union> (\<Union>f \<in> set (prods k). A k f))"
proof (induction n arbitrary: key r st st')
  case 0
  then show ?case by (simp add: walk_0)
next
  case (Suc n)
  define C where "C a b = (\<Union>k \<in> seen b - seen a. B k \<union> (\<Union>f \<in> set (prods k). A k f))" for a b
  have C_trans: "C a c = C a b \<union> C b c" if "seen a \<subseteq> seen b" "seen b \<subseteq> seen c" for a b c
    using that unfolding C_def by blast
  from Suc.prems show ?case
  proof (cases rule: walk_Some)
    case (visit m st1)
    have nm: "n = m" using visit(1) by simp
    have calls: "seen a \<subseteq> seen b \<and> col b = col a \<union> C a b" if "fold_option (\<lambda>i. walk n i False) is a = Some b" for "is" a b
      using that
    proof (induction "is" arbitrary: a)
      case (Cons i "is")
      then obtain t where t: "walk n i False a = Some t" "fold_option (\<lambda>i. walk n i False) is t = Some b"
        by (auto simp: bind_eq_Some_conv)
      from Suc.IH [OF t(1)] Cons.IH [OF t(2)] C_trans [of a t b] show ?case unfolding C_def [symmetric] by auto
    qed (simp add: C_def)
    have prods: "seen a \<subseteq> seen b \<and> col b = col a \<union> (\<Union>f \<in> set fs. A key f) \<union> C a b"
      if "fold_option (\<lambda>f st. fold_option (\<lambda>i. walk n i False) (inputs f) (visit key r f st)) fs a = Some b"
        "set fs \<subseteq> set (prods key)" for fs a b
      using that
    proof (induction fs arbitrary: a)
      case (Cons f fs)
      then obtain t where t: "fold_option (\<lambda>i. walk n i False) (inputs f) (visit key r f a) = Some t"
        "fold_option (\<lambda>f st. fold_option (\<lambda>i. walk n i False) (inputs f) (visit key r f st)) fs t = Some b"
        by (auto simp: bind_eq_Some_conv)
      have 1: "seen a \<subseteq> seen t" "col t = col a \<union> A key f \<union> C a t"
        using calls [OF t(1)] Cons.prems(2) assms(2) [of f key] by (auto simp: seen_visit C_def)
      have 2: "seen t \<subseteq> seen b \<and> col b = col t \<union> (\<Union>f \<in> set fs. A key f) \<union> C t b"
        by (rule Cons.IH) (use t Cons.prems in auto)
      have "C a b = C a t \<union> C t b" using C_trans 1 2 by blast
      with 1 2 show ?case by auto
    qed (simp add: C_def)
    have p: "insert key (seen st) \<subseteq> seen st1" "col st1 = col st \<union> (\<Union>f \<in> set (prods key). A key f) \<union> C (mark key st) st1"
      using prods [OF visit(5) [folded nm] order.refl] by (auto simp: seen_mark assms(1))
    have "C st st1 = B key \<union> (\<Union>f \<in> set (prods key). A key f) \<union> C (mark key st) st1"
      using p(1) visit(3) by (auto simp: C_def seen_mark)
    with p visit(4) show ?thesis by (auto simp: seen_finish assms(3) C_def)
  qed simp
qed

lemma walk_grows: "walk n key r st = Some st' \<Longrightarrow> seen st \<subseteq> seen st'"
  using walk_collects [of "\<lambda>_. {} :: nat set" "\<lambda>_ _. {}" "\<lambda>_. {}"] by blast

text \<open>An invariant is kept by the visits of keys that are seen; \<open>Q\<close> says which keys are walked how.\<close>

lemma walk_invariant:
  assumes "\<And>k st. I st \<Longrightarrow> I (mark k st)"
    "\<And>k r f st. f \<in> set (prods k) \<Longrightarrow> k \<in> seen st \<Longrightarrow> Q k r \<Longrightarrow> I st \<Longrightarrow> I (visit k r f st)"
    "\<And>k st. I st \<Longrightarrow> I (finish k st)" "\<And>k. Q k False"
  shows "walk n key r st = Some st' \<Longrightarrow> Q key r \<Longrightarrow> I st \<Longrightarrow> I st'"
proof (induction n arbitrary: key r st st')
  case 0
  then show ?case by (simp add: walk_0)
next
  case (Suc n)
  from Suc.prems(1) show ?case
  proof (cases rule: walk_Some)
    case (visit m st1)
    define R where "R a b \<longleftrightarrow> seen a \<subseteq> seen b \<and> (I a \<longrightarrow> I b)" for a b
    have R: "R a a" "R a b \<Longrightarrow> R b c \<Longrightarrow> R a c" for a b c by (auto simp: R_def)
    have "key \<in> seen (mark key st) \<and> I (mark key st) \<longrightarrow> key \<in> seen st1 \<and> I st1"
    proof (rule fold_option_relation [OF visit(5), where R = "\<lambda>a b. key \<in> seen a \<and> I a \<longrightarrow> key \<in> seen b \<and> I b"])
      fix f a b assume f: "f \<in> set (prods key)"
        and b: "fold_option (\<lambda>i. walk m i False) (inputs f) (visit key r f a) = Some b"
      have "R (visit key r f a) b"
      proof (rule fold_option_relation [OF b R])
        fix i c d assume "walk m i False c = Some d"
        then show "R c d" using Suc.IH [of i False c d] walk_grows visit(1) assms(4) by (auto simp: R_def)
      qed
      then show "key \<in> seen a \<and> I a \<longrightarrow> key \<in> seen b \<and> I b"
        using assms(2) [OF f _ Suc.prems(2)] by (auto simp: R_def seen_visit)
    qed auto
    with assms(1,3) Suc.prems(3) visit(4) show ?thesis by (simp add: seen_mark)
  qed (use Suc.prems in simp)
qed

text \<open>What the first visit of the root establishes, and every later visit keeps, holds in the end.\<close>

lemma walk_establishes:
  assumes "\<And>k r f st. f \<in> set (prods k) \<Longrightarrow> k \<in> seen st \<Longrightarrow> Q k r \<Longrightarrow> I st \<Longrightarrow> I (visit k r f st)"
    "\<And>k st. I st \<Longrightarrow> I (mark k st)" "\<And>k st. I st \<Longrightarrow> I (finish k st)" "\<And>k. Q k False" "Q key r"
    and first: "prods key = f # fs" "I (visit key r f (mark key st))" "key \<noteq> []" "key \<notin> seen st"
    and walk: "walk n key r st = Some st'"
  shows "I st'"
proof -
  from walk first(3,4) obtain m st1 where n: "n = Suc m" "st' = finish key st1"
    "fold_option (\<lambda>f st. fold_option (\<lambda>i. walk m i False) (inputs f) (visit key r f st)) (f # fs) (mark key st) = Some st1"
    unfolding first(1) [symmetric] by (cases rule: walk_Some) auto
  let ?R = "\<lambda>a b. key \<in> seen a \<and> I a \<longrightarrow> key \<in> seen b \<and> I b"
  have calls: "?R a b" if "fold_option (\<lambda>i. walk m i False) is a = Some b" for "is" a b
    by (rule fold_option_relation [OF that, where R = ?R])
      (use walk_grows walk_invariant [where I = I and Q = Q, OF assms(2,1,3,4)] assms(4) in blast)+
  from n(3) obtain t where t: "fold_option (\<lambda>i. walk m i False) (inputs f) (visit key r f (mark key st)) = Some t"
    "fold_option (\<lambda>f st. fold_option (\<lambda>i. walk m i False) (inputs f) (visit key r f st)) fs t = Some st1"
    by (auto simp: bind_eq_Some_conv)
  have "key \<in> seen t \<and> I t" using calls [OF t(1)] first(2) by (simp add: seen_visit seen_mark)
  moreover have "?R t st1"
  proof (rule fold_option_relation [OF t(2), where R = ?R])
    fix g a b assume g: "g \<in> set fs" and b: "fold_option (\<lambda>i. walk m i False) (inputs g) (visit key r g a) = Some b"
    have "g \<in> set (prods key)" using g first(1) by simp
    then show "?R a b" using calls [OF b] assms(1) assms(5) by (auto simp: seen_visit)
  qed auto
  ultimately show ?thesis using n(2) assms(3) by blast
qed

text \<open>The walk returns when its fuel exceeds the number of keys not yet seen.\<close>

lemma walk_returns:
  assumes "finite K" "\<And>k. k \<in> K \<Longrightarrow> set (parents k) \<subseteq> insert [] K"
  shows "key \<in> insert [] K \<Longrightarrow> card (K - seen st) < n \<Longrightarrow> \<exists>st'. walk n key r st = Some st' \<and> seen st \<subseteq> seen st'"
proof (induction n arbitrary: key r st)
  case (Suc n)
  show ?case
  proof (cases "key = [] \<or> key \<in> seen st")
    case False
    then have key: "key \<in> K" "key \<notin> seen st" using Suc.prems by auto
    then have "K - seen (mark key st) \<subset> K - seen st" by (auto simp: seen_mark)
    then have "card (K - seen (mark key st)) < card (K - seen st)" using assms(1) by (intro psubset_card_mono) auto
    then have card: "card (K - seen (mark key st)) < n" using Suc.prems by simp
    have less: "card (K - seen a) < n" if "seen (mark key st) \<subseteq> seen a" for a
    proof -
      have "card (K - seen a) \<le> card (K - seen (mark key st))" using that assms(1) by (intro card_mono) auto
      with card show ?thesis by simp
    qed
    let ?ok = "\<lambda>a. seen (mark key st) \<subseteq> seen a"
    have "\<exists>b. fold_option (\<lambda>f st. fold_option (\<lambda>i. walk n i False) (inputs f) (visit key r f st)) (prods key) (mark key st) = Some b \<and> ?ok b"
    proof (rule fold_option_returns)
      fix f a assume f: "f \<in> set (prods key)" and a: "?ok a"
      show "\<exists>b. fold_option (\<lambda>i. walk n i False) (inputs f) (visit key r f a) = Some b \<and> ?ok b"
      proof (rule fold_option_returns)
        fix i c assume i: "i \<in> set (inputs f)" and c: "?ok c"
        have "i \<in> insert [] K" using assms(2) [OF key(1)] f i by auto
        from Suc.IH [OF this less [OF c]] c show "\<exists>d. walk n i False c = Some d \<and> ?ok d" by blast
      qed (use a in \<open>simp add: seen_visit\<close>)
    qed simp
    with False show ?thesis by (auto simp: walk_Suc seen_finish seen_mark)
  qed (auto simp: walk_Suc)
qed simp

end

end
