(* ===== verification/Checkpoint_Closure.thy ===== *)
theory Checkpoint_Closure
  imports Checkpoint_Paths Closure_Walk Exposure_Intervals Runtime_Index Assignment_Text
begin

text \<open>
  The lineage of checkpoints in \<open>lattice_exposure_ledger_t\<close>
  (\<open>src/include/hero/lattice_hero/lattice/exposure/exposure_ledger.h\<close>): the ledger with its lazily built
  lookup index, and the closure of a checkpoint, which follows the input checkpoints of the facts that
  produced it and checks that every checkpoint on the way is bound to its bytes and to its producer.

  The text of a fact that its digest hashes, and the files that hold the checkpoints, are parameters
  (\<open>closure_env\<close>).
\<close>

section \<open>Facts and files\<close>

record produced_fact = lattice_exposure_fact +
  ef_output_checkpoint :: string
  ef_input_checkpoints :: "string list"
  ef_output_checkpoint_exposure_digest :: string

record checkpoint_fact =
  cf_checkpoint_id :: string
  cf_checkpoint_path :: string
  cf_checkpoint_file_digest :: string
  cf_direct_exposure_digest :: string

text \<open>What reading a file gives: it cannot be opened, reading breaks off, or its bytes.\<close>

datatype file_state = Open_Failed | Read_Failed | Bytes string

record closure_env =
  canonical_exposure_fact_text :: "produced_fact \<Rightarrow> string"
  file_at :: "string \<Rightarrow> file_state"

definition produced_fact_digest :: "closure_env \<Rightarrow> produced_fact \<Rightarrow> string" where
  "produced_fact_digest env f = exposure_digest_for_text (canonical_exposure_fact_text env f)"

definition file_content_digest_checked :: "closure_env \<Rightarrow> string \<Rightarrow> string + string" where
  "file_content_digest_checked env path =
     (case file_at env path of
        Open_Failed \<Rightarrow> Inl ''open_failed''
      | Read_Failed \<Rightarrow> Inl ''read_failed''
      | Bytes content \<Rightarrow>
          if content = [] then Inl ''empty_file''
          else let h0 = mix_hash_string 14695981039346656037 ''kikijyeba.lattice.exposure.v1'';
                 h1 = foldl mix_hash_byte h0 (map chr_byte ''file:'');
                 h2 = foldl mix_hash_byte h1 (map chr_byte content)
            in Inr (hash_hex (mix_hash_byte h2 0xff)))"

section \<open>The ledger\<close>

text \<open>An entry of an index that is absent is empty.\<close>

record lookup_index =
  facts_by_output :: "string \<Rightarrow> nat list"
  checkpoints_by_path :: "string \<Rightarrow> nat list"
  checkpoints_by_id :: "string \<Rightarrow> nat list"

record exposure_ledger =
  el_facts :: "produced_fact list"
  el_checkpoint_facts :: "checkpoint_fact list"
  el_lookup_index :: "lookup_index option"

definition empty_ledger :: exposure_ledger where
  "empty_ledger = \<lparr>el_facts = [], el_checkpoint_facts = [], el_lookup_index = None\<rparr>"

definition invalidate_lookup_index :: "exposure_ledger \<Rightarrow> exposure_ledger" where
  "invalidate_lookup_index l = l\<lparr>el_lookup_index := None\<rparr>"

text \<open>
  \<open>add\<close> with both of its flags false. The flags add to the lists of source receipts and selection signals,
  which a closure does not read.
\<close>

definition add_fact :: "produced_fact \<Rightarrow> exposure_ledger \<Rightarrow> exposure_ledger" where
  "add_fact f l = (let l = invalidate_lookup_index l in l\<lparr>el_facts := el_facts l @ [f]\<rparr>)"

definition add_checkpoint :: "checkpoint_fact \<Rightarrow> exposure_ledger \<Rightarrow> exposure_ledger" where
  "add_checkpoint f l =
     (let l = invalidate_lookup_index l in l\<lparr>el_checkpoint_facts := el_checkpoint_facts l @ [f]\<rparr>)"

definition push_index :: "string \<Rightarrow> nat \<Rightarrow> (string \<Rightarrow> nat list) \<Rightarrow> (string \<Rightarrow> nat list)" where
  "push_index key i m = (if key = [] then m else m(key := m key @ [i]))"

definition build_lookup_index :: "exposure_ledger \<Rightarrow> lookup_index" where
  "build_lookup_index l =
     (let outputs = foldl (\<lambda>m (i, f). push_index (checkpoint_key (ef_output_checkpoint f)) i m) (\<lambda>_. [])
            (List.enumerate 0 (el_facts l));
        paths = foldl (\<lambda>m (i, f). push_index (checkpoint_key (cf_checkpoint_path f)) i m) (\<lambda>_. [])
            (List.enumerate 0 (el_checkpoint_facts l));
        ids = foldl (\<lambda>m (i, f). push_index (cf_checkpoint_id f) i m) (\<lambda>_. [])
            (List.enumerate 0 (el_checkpoint_facts l))
      in \<lparr>facts_by_output = outputs, checkpoints_by_path = paths, checkpoints_by_id = ids\<rparr>)"

text \<open>The index is built on first use and kept.\<close>

definition get_lookup_index :: "exposure_ledger \<Rightarrow> lookup_index \<times> exposure_ledger" where
  "get_lookup_index l =
     (case el_lookup_index l of
        Some index \<Rightarrow> (index, l)
      | None \<Rightarrow> let index = build_lookup_index l in (index, l\<lparr>el_lookup_index := Some index\<rparr>))"

section \<open>Closures\<close>

record closure_result =
  cr_facts :: "produced_fact list"
  cr_unresolved_input_checkpoints :: "string list"
  cr_resolution_authority :: string
  cr_root_producer_found :: bool
  cr_root_checkpoint_id :: string
  cr_root_checkpoint_file_digest :: string
  cr_identity_mismatches :: "string list"

definition empty_closure :: closure_result where
  "empty_closure = \<lparr>cr_facts = [], cr_unresolved_input_checkpoints = [], cr_resolution_authority = ''unresolved_lineage'',
     cr_root_producer_found = False, cr_root_checkpoint_id = [], cr_root_checkpoint_file_digest = [],
     cr_identity_mismatches = []\<rparr>"

definition closure_complete :: "closure_result \<Rightarrow> bool" where
  "closure_complete out \<longleftrightarrow> cr_root_producer_found out \<and> cr_unresolved_input_checkpoints out = [] \<and>
     cr_identity_mismatches out = []"

definition note_mismatch :: "string \<Rightarrow> closure_result \<Rightarrow> closure_result" where
  "note_mismatch m out = out\<lparr>cr_identity_mismatches := cr_identity_mismatches out @ [m]\<rparr>"

definition is_primary :: "checkpoint_fact \<Rightarrow> bool" where
  "is_primary c \<longleftrightarrow> cf_checkpoint_id c \<noteq> [] \<and> cf_checkpoint_file_digest c \<noteq> [] \<and> cf_direct_exposure_digest c \<noteq> [] \<and>
     looks_like_lattice_digest (cf_checkpoint_id c) \<and> looks_like_lattice_digest (cf_checkpoint_file_digest c) \<and>
     looks_like_lattice_digest (cf_direct_exposure_digest c)"

definition expected_checkpoint_id :: "checkpoint_fact \<Rightarrow> string" where
  "expected_checkpoint_id c = exposure_digest_for_text (''checkpoint|'' @ lexically_normal (cf_checkpoint_path c) @ ''|'' @
     cf_checkpoint_file_digest c @ ''|'' @ cf_direct_exposure_digest c)"

text \<open>The checks of one matching checkpoint fact against the selected one, its own identity and its file.\<close>

definition check_identity :: "closure_env \<Rightarrow> string \<Rightarrow> checkpoint_fact \<Rightarrow> checkpoint_fact \<Rightarrow> closure_result \<Rightarrow> closure_result" where
  "check_identity env key selected c out =
     (let out = (if cf_checkpoint_id c \<noteq> cf_checkpoint_id selected \<or>
              cf_checkpoint_file_digest c \<noteq> cf_checkpoint_file_digest selected
            then note_mismatch (''checkpoint path has multiple checkpoint_id/file_digest bindings: '' @ key) out else out);
        out = (if cf_checkpoint_id c \<noteq> expected_checkpoint_id c
            then note_mismatch (''checkpoint_id does not match checkpoint path, file digest, and direct exposure digest for '' @ key) out
            else out)
      in case file_content_digest_checked env (cf_checkpoint_path c) of
           Inl e \<Rightarrow> note_mismatch (''checkpoint bytes could not be verified for '' @ key @ '': '' @ e) out
         | Inr digest \<Rightarrow>
             if digest \<noteq> cf_checkpoint_file_digest c
             then note_mismatch (''checkpoint_file_digest does not match checkpoint file content for '' @ key) out
             else out)"

definition accepted_digests :: "closure_env \<Rightarrow> produced_fact \<Rightarrow> string list" where
  "accepted_digests env f =
     (let d = produced_fact_digest env f; o' = ef_output_checkpoint_exposure_digest f in
      if looks_like_lattice_digest o' \<and> o' \<noteq> d then [d, o'] else [d])"

text \<open>The state of the traversal: the result and the three sets of what was seen.\<close>

record closure_state =
  cs_out :: closure_result
  cs_seen_checkpoints :: "string set"
  cs_seen_facts :: "string set"
  cs_seen_identity_bindings :: "string set"

definition binding_key :: "closure_env \<Rightarrow> string \<Rightarrow> produced_fact \<Rightarrow> string" where
  "binding_key env key f = key @ ''|'' @ produced_fact_digest env f"

definition path_facts :: "lookup_index \<Rightarrow> exposure_ledger \<Rightarrow> string \<Rightarrow> checkpoint_fact list" where
  "path_facts index l key = map ((!) (el_checkpoint_facts l)) (checkpoints_by_path index key)"

definition matching_facts :: "closure_env \<Rightarrow> lookup_index \<Rightarrow> exposure_ledger \<Rightarrow> string \<Rightarrow> produced_fact \<Rightarrow> checkpoint_fact list" where
  "matching_facts env index l key f =
     filter (\<lambda>c. cf_direct_exposure_digest c \<in> set (accepted_digests env f)) (filter is_primary (path_facts index l key))"

definition check_binding ::
  "closure_env \<Rightarrow> lookup_index \<Rightarrow> exposure_ledger \<Rightarrow> string \<Rightarrow> produced_fact \<Rightarrow> bool \<Rightarrow> closure_result \<Rightarrow> closure_result"
where
  "check_binding env index l key f is_root out =
     (if path_facts index l key = [] then note_mismatch (''checkpoint fact sidecar missing for '' @ key) out
      else if filter is_primary (path_facts index l key) = [] then
        note_mismatch (''checkpoint fact sidecar missing checkpoint_id/file_digest/direct exposure digest for '' @ key) out
      else case matching_facts env index l key f of
          [] \<Rightarrow> note_mismatch (''checkpoint fact sidecar direct exposure digest does not match producer exposure for '' @ key) out
        | selected # cs \<Rightarrow>
            let out = foldl (\<lambda>out c. check_identity env key selected c out) out (selected # cs) in
            if is_root then out\<lparr>cr_root_checkpoint_id := cf_checkpoint_id selected,
              cr_root_checkpoint_file_digest := cf_checkpoint_file_digest selected\<rparr> else out)"

definition validate_checkpoint_identity_for_producer ::
  "closure_env \<Rightarrow> lookup_index \<Rightarrow> exposure_ledger \<Rightarrow> string \<Rightarrow> produced_fact \<Rightarrow> bool \<Rightarrow> closure_state \<Rightarrow> closure_state"
where
  "validate_checkpoint_identity_for_producer env index l key f is_root st =
     (if binding_key env key f \<in> cs_seen_identity_bindings st then st
      else st\<lparr>cs_seen_identity_bindings := insert (binding_key env key f) (cs_seen_identity_bindings st),
          cs_out := check_binding env index l key f is_root (cs_out st)\<rparr>)"

definition fact_key :: "closure_env \<Rightarrow> produced_fact \<Rightarrow> string" where
  "fact_key env f = ef_job_id f @ ''|'' @ produced_fact_digest env f"

text \<open>One producer, before its inputs are followed\<close>

definition visit_producer ::
  "closure_env \<Rightarrow> lookup_index \<Rightarrow> exposure_ledger \<Rightarrow> string \<Rightarrow> bool \<Rightarrow> produced_fact \<Rightarrow> closure_state \<Rightarrow> closure_state"
where
  "visit_producer env index l key is_root f st =
     (let st = (if is_root then st\<lparr>cs_out := (cs_out st)\<lparr>cr_root_producer_found := True\<rparr>\<rparr> else st);
        st = validate_checkpoint_identity_for_producer env index l key f is_root st
      in if fact_key env f \<in> cs_seen_facts st then st
         else st\<lparr>cs_seen_facts := insert (fact_key env f) (cs_seen_facts st),
           cs_out := (cs_out st)\<lparr>cr_facts := cr_facts (cs_out st) @ [f]\<rparr>\<rparr>)"

definition producers :: "lookup_index \<Rightarrow> exposure_ledger \<Rightarrow> string \<Rightarrow> produced_fact list" where
  "producers index l key = map ((!) (el_facts l)) (facts_by_output index key)"

definition mark_checkpoint :: "string \<Rightarrow> closure_state \<Rightarrow> closure_state" where
  "mark_checkpoint key st = st\<lparr>cs_seen_checkpoints := insert key (cs_seen_checkpoints st)\<rparr>"

definition finish_checkpoint :: "lookup_index \<Rightarrow> exposure_ledger \<Rightarrow> string \<Rightarrow> closure_state \<Rightarrow> closure_state" where
  "finish_checkpoint index l key st =
     (if producers index l key = []
      then st\<lparr>cs_out := (cs_out st)\<lparr>cr_unresolved_input_checkpoints := cr_unresolved_input_checkpoints (cs_out st) @ [key]\<rparr>\<rparr>
      else st)"

text \<open>\<open>None\<close> is a recursion deeper than the fuel.\<close>

fun checkpoint_closure_impl ::
  "closure_env \<Rightarrow> lookup_index \<Rightarrow> exposure_ledger \<Rightarrow> nat \<Rightarrow> string \<Rightarrow> bool \<Rightarrow> closure_state \<Rightarrow> closure_state option"
where
  "checkpoint_closure_impl env index l 0 key is_root st = None"
| "checkpoint_closure_impl env index l (Suc n) key is_root st =
     (if key = [] \<or> key \<in> cs_seen_checkpoints st then Some st
      else map_option (finish_checkpoint index l key)
        (fold_option (\<lambda>f st.
           fold_option (\<lambda>input. checkpoint_closure_impl env index l n (checkpoint_key input) False)
             (ef_input_checkpoints f) (visit_producer env index l key is_root f st))
           (producers index l key) (mark_checkpoint key st)))"

definition finalize_checkpoint_closure_authority :: "closure_result \<Rightarrow> closure_result" where
  "finalize_checkpoint_closure_authority out =
     (if cr_identity_mismatches out \<noteq> [] then out\<lparr>cr_resolution_authority := ''checkpoint_identity_failed''\<rparr>
      else if \<not> cr_root_producer_found out \<or> cr_unresolved_input_checkpoints out \<noteq> [] then
        out\<lparr>cr_resolution_authority := ''unresolved_lineage''\<rparr>
      else if cr_root_checkpoint_id out \<noteq> [] \<and> cr_root_checkpoint_file_digest out \<noteq> [] then
        out\<lparr>cr_resolution_authority := ''checkpoint_id_file_digest''\<rparr>
      else (note_mismatch ''checkpoint closure reached root without checkpoint identity'' out)
        \<lparr>cr_resolution_authority := ''checkpoint_identity_failed''\<rparr>)"

definition initial_state :: "closure_result \<Rightarrow> closure_state" where
  "initial_state out = \<lparr>cs_out = out, cs_seen_checkpoints = {}, cs_seen_facts = {}, cs_seen_identity_bindings = {}\<rparr>"

text \<open>One call per input checkpoint, one for the root, and one that finds everything seen.\<close>

definition closure_fuel :: "exposure_ledger \<Rightarrow> nat" where
  "closure_fuel l = length (concat (map ef_input_checkpoints (el_facts l))) + 2"

definition checkpoint_closure_result :: "closure_env \<Rightarrow> exposure_ledger \<Rightarrow> string \<Rightarrow> (closure_result \<times> exposure_ledger) option" where
  "checkpoint_closure_result env l checkpoint =
     (let key = checkpoint_key checkpoint; (index, l') = get_lookup_index l in
      map_option (\<lambda>st. (finalize_checkpoint_closure_authority (cs_out st), if key = [] then l else l'))
        (checkpoint_closure_impl env index l (closure_fuel l) key True (initial_state empty_closure)))"

definition checkpoint_closure_result_for_identity ::
  "closure_env \<Rightarrow> exposure_ledger \<Rightarrow> string \<Rightarrow> string \<Rightarrow> (closure_result \<times> exposure_ledger) option"
where
  "checkpoint_closure_result_for_identity env l cid digest =
     (let out = empty_closure\<lparr>cr_resolution_authority := ''checkpoint_id_file_digest'', cr_root_checkpoint_id := cid,
          cr_root_checkpoint_file_digest := digest\<rparr> in
      if cid = [] \<or> digest = [] then
        Some (note_mismatch ''checkpoint identity lookup requires checkpoint_id and checkpoint_file_digest'' out, l)
      else let (index, l') = get_lookup_index l;
          named = map ((!) (el_checkpoint_facts l)) (checkpoints_by_id index cid);
          candidates = filter (\<lambda>c. cf_checkpoint_file_digest c = digest) named;
          wrong = list_ex (\<lambda>c. cf_checkpoint_file_digest c \<noteq> digest) named \<or>
            list_ex (\<lambda>c. cf_checkpoint_id c = cid \<and> cf_checkpoint_file_digest c \<noteq> digest) (el_checkpoint_facts l);
          out = (if wrong then note_mismatch
            ''checkpoint_id matched a checkpoint fact with a different checkpoint_file_digest'' out else out);
          paths = sort (remdups (map (\<lambda>c. checkpoint_key (cf_checkpoint_path c)) candidates))
        in if candidates = [] then
             Some (out\<lparr>cr_unresolved_input_checkpoints := [''checkpoint_id:'' @ cid]\<rparr>, l')
           else if length paths \<noteq> 1 then
             Some (note_mismatch ''checkpoint_id/checkpoint_file_digest resolves to multiple checkpoint paths'' out, l')
           else map_option (\<lambda>st.
               let out = finalize_checkpoint_closure_authority (cs_out st) in
               (if cr_root_checkpoint_id out \<noteq> cid \<or> cr_root_checkpoint_file_digest out \<noteq> digest
                then finalize_checkpoint_closure_authority (note_mismatch
                  ''resolved root checkpoint identity does not match requested checkpoint_id/checkpoint_file_digest'' out)
                else out, l'))
             (checkpoint_closure_impl env index l (closure_fuel l) (hd paths) True (initial_state out)))"

text \<open>\<open>checkpoint_closure_digest\<close>: the digest of the facts of a closure, in an order of their own\<close>

definition checkpoint_closure_digest :: "closure_env \<Rightarrow> exposure_ledger \<Rightarrow> string \<Rightarrow> string option" where
  "checkpoint_closure_digest env l checkpoint =
     map_option (\<lambda>(r, _). exposure_digest_for_text
         (concat (map (\<lambda>s. s @ [newline]) (sort (map (canonical_exposure_fact_text env) (cr_facts r))))))
       (checkpoint_closure_result env l checkpoint)"

section \<open>The index\<close>

lemma push_index_foldl:
  "foldl (\<lambda>m (i, x). push_index (K x) i m) m (List.enumerate n xs) key =
     m key @ (if key = [] then [] else map fst (filter (\<lambda>(i, x). K x = key) (List.enumerate n xs)))"
proof (induction xs arbitrary: m n)
  case (Cons x xs)
  then show ?case by (auto simp: push_index_def)
qed simp

lemma map_nth_index:
  "map ((!) xs) (map fst (filter (\<lambda>(i, x). P x) (List.enumerate 0 xs))) = filter P xs"
proof -
  have "map ((!) (ys @ xs)) (map fst (filter (\<lambda>(i, x). P x) (List.enumerate (length ys) xs))) = filter P xs" for ys
  proof (induction xs arbitrary: ys)
    case (Cons x xs)
    from Cons.IH [of "ys @ [x]"] show ?case by (simp add: nth_append)
  qed simp
  from this [of "[]"] show ?thesis by simp
qed

text \<open>What the index stands for\<close>

definition producers_of :: "exposure_ledger \<Rightarrow> string \<Rightarrow> produced_fact list" where
  "producers_of l key = (if key = [] then [] else filter (\<lambda>f. checkpoint_key (ef_output_checkpoint f) = key) (el_facts l))"

definition checkpoints_at :: "exposure_ledger \<Rightarrow> string \<Rightarrow> checkpoint_fact list" where
  "checkpoints_at l key =
     (if key = [] then [] else filter (\<lambda>c. checkpoint_key (cf_checkpoint_path c) = key) (el_checkpoint_facts l))"

definition ledger_ok :: "exposure_ledger \<Rightarrow> bool" where
  "ledger_ok l \<longleftrightarrow> (case el_lookup_index l of None \<Rightarrow> True | Some index \<Rightarrow> index = build_lookup_index l)"

lemma build_lookup_index_correct:
  "producers (build_lookup_index l) l key = producers_of l key"
  "path_facts (build_lookup_index l) l key = checkpoints_at l key"
  "map ((!) (el_checkpoint_facts l)) (checkpoints_by_id (build_lookup_index l) cid) =
     (if cid = [] then [] else filter (\<lambda>c. cf_checkpoint_id c = cid) (el_checkpoint_facts l))"
  unfolding producers_def path_facts_def
  by (simp_all only: build_lookup_index_def Let_def lookup_index.simps push_index_foldl)
    (simp_all add: producers_of_def checkpoints_at_def map_nth_index del: map_map)

lemma get_lookup_index_ok:
  assumes "ledger_ok l"
  obtains l' where "get_lookup_index l = (build_lookup_index l, l')" "ledger_ok l'" "el_facts l' = el_facts l"
    "el_checkpoint_facts l' = el_checkpoint_facts l"
proof -
  have "build_lookup_index (l\<lparr>el_lookup_index := x\<rparr>) = build_lookup_index l" for x
    by (simp add: build_lookup_index_def)
  with assms that show thesis by (auto simp: ledger_ok_def get_lookup_index_def Let_def split: option.splits)
qed

text \<open>Every operation of the ledger keeps the cached index equal to the one it would build.\<close>

lemma ledger_index_invariant:
  "ledger_ok empty_ledger \<and> ledger_ok (add_fact f l) \<and> ledger_ok (add_checkpoint c l) \<and>
   (ledger_ok l \<longrightarrow> ledger_ok (snd (get_lookup_index l)))"
proof -
  have "ledger_ok l \<Longrightarrow> ledger_ok (snd (get_lookup_index l))" by (metis get_lookup_index_ok snd_conv)
  then show ?thesis
    by (simp add: ledger_ok_def empty_ledger_def add_fact_def add_checkpoint_def invalidate_lookup_index_def Let_def)
qed

section \<open>The walk\<close>

abbreviation input_keys :: "produced_fact \<Rightarrow> string list" where
  "input_keys f \<equiv> map checkpoint_key (ef_input_checkpoints f)"

lemma seen_visit_producer: "cs_seen_checkpoints (visit_producer env index l key r f st) = cs_seen_checkpoints st"
  by (simp add: visit_producer_def validate_checkpoint_identity_for_producer_def Let_def)

interpretation closure: closure_walk "producers index l" input_keys cs_seen_checkpoints mark_checkpoint
    "visit_producer env index l" "finish_checkpoint index l" "checkpoint_closure_impl env index l" for env index l
  by unfold_locales
    (simp_all add: fold_option_map seen_visit_producer mark_checkpoint_def finish_checkpoint_def)


text \<open>The keys a checkpoint descends from, itself included\<close>

definition ledger_parents :: "exposure_ledger \<Rightarrow> string \<Rightarrow> string list" where
  "ledger_parents l k = concat (map input_keys (producers_of l k))"

definition lineage_keys :: "exposure_ledger \<Rightarrow> string \<Rightarrow> string set" where
  "lineage_keys l key = Collect (lineage (ledger_parents l) key)"


lemma lineage_keys_nonempty: "k \<in> lineage_keys l key \<Longrightarrow> k \<noteq> []"
  by (simp add: lineage_keys_def lineage_nonempty)

lemma producers_of_empty: "producers_of l [] = []"
  by (simp add: producers_of_def)

lemma in_producers_of: "f \<in> set (producers_of l k) \<Longrightarrow> f \<in> set (el_facts l) \<and> checkpoint_key (ef_output_checkpoint f) = k"
  by (auto simp: producers_of_def split: if_splits)

text \<open>The walk over the index of the ledger itself returns, and sees the lineage of the root.\<close>

definition walked :: "closure_env \<Rightarrow> exposure_ledger \<Rightarrow> string \<Rightarrow> closure_result \<Rightarrow> closure_state \<Rightarrow> bool" where
  "walked env l key out st \<longleftrightarrow>
     checkpoint_closure_impl env (build_lookup_index l) l (closure_fuel l) key True (initial_state out) = Some st"

lemma walk_exists: "\<exists>st. walked env l key out st"
proof -
  let ?inputs = "set (map checkpoint_key (concat (map ef_input_checkpoints (el_facts l))))"
  let ?K = "insert key ?inputs"
  have parents: "set (concat (map input_keys (producers (build_lookup_index l) l k))) \<subseteq> insert [] ?K" for k
    by (auto simp: build_lookup_index_correct dest: in_producers_of)
  have "card ?K \<le> card ?inputs + 1" by (metis List.finite_set card.insert_remove card_Diff1_le add.commute le_SucI plus_1_eq_Suc Suc_le_mono)
  moreover have "card ?inputs \<le> length (concat (map ef_input_checkpoints (el_facts l)))"
    using card_length [of "map checkpoint_key (concat (map ef_input_checkpoints (el_facts l)))"] by simp
  moreover have "card (?K - cs_seen_checkpoints (initial_state out)) \<le> card ?K"
    by (intro card_mono) auto
  ultimately have "card (?K - cs_seen_checkpoints (initial_state out)) < closure_fuel l"
    unfolding closure_fuel_def by linarith
  from closure.walk_returns [OF _ parents _ this, where key = key and r = True and env = env] show ?thesis
    by (auto simp: walked_def)
qed

lemma walked_seen:
  assumes "walked env l key out st"
  shows "cs_seen_checkpoints st = lineage_keys l key"
proof -
  have par: "closure.parents (build_lookup_index l) l k = ledger_parents l k" for k
    by (simp add: ledger_parents_def build_lookup_index_correct)
  have par': "closure.parents (build_lookup_index l) l = ledger_parents l"
    by (rule ext) (rule par)
  have e: "closure.explores (build_lookup_index l) l key (initial_state out) st" "key = [] \<or> key \<in> cs_seen_checkpoints st"
    using closure.walk_explores [OF assms [unfolded walked_def], of key] unfolding par'
    by (cases "key = []"; simp add: lineage.start)+
  have closed: "lineage (ledger_parents l) key k \<and> set (ledger_parents l k) - {[]} \<subseteq> cs_seen_checkpoints st"
    if "k \<in> cs_seen_checkpoints st" for k
    using e(1) that unfolding closure.explores_def par par' by (simp add: initial_state_def del: set_concat)
  have "k \<in> cs_seen_checkpoints st" if "lineage (ledger_parents l) key k" for k
    using that by induction (use e(2) closed in auto)
  with closed show ?thesis by (auto simp: lineage_keys_def)
qed


text \<open>The checks of an identity only note mismatches and, for the root, its identity.\<close>

lemma note_mismatch_frame [simp]:
  "cr_facts (note_mismatch m r) = cr_facts r"
  "cr_unresolved_input_checkpoints (note_mismatch m r) = cr_unresolved_input_checkpoints r"
  "cr_root_producer_found (note_mismatch m r) = cr_root_producer_found r"
  "cr_root_checkpoint_id (note_mismatch m r) = cr_root_checkpoint_id r"
  "cr_root_checkpoint_file_digest (note_mismatch m r) = cr_root_checkpoint_file_digest r"
  "cr_identity_mismatches (note_mismatch m r) = cr_identity_mismatches r @ [m]"
  by (simp_all add: note_mismatch_def)

lemma check_identities_frame [simp]:
  "cr_facts (foldl (\<lambda>r c. check_identity env k s c r) r cs) = cr_facts r"
  "cr_unresolved_input_checkpoints (foldl (\<lambda>r c. check_identity env k s c r) r cs) = cr_unresolved_input_checkpoints r"
  "cr_root_producer_found (foldl (\<lambda>r c. check_identity env k s c r) r cs) = cr_root_producer_found r"
  "cr_root_checkpoint_id (foldl (\<lambda>r c. check_identity env k s c r) r cs) = cr_root_checkpoint_id r"
  "cr_root_checkpoint_file_digest (foldl (\<lambda>r c. check_identity env k s c r) r cs) = cr_root_checkpoint_file_digest r"
  by (induction cs arbitrary: r) (simp_all add: check_identity_def Let_def split: sum.split)

lemma check_binding_frame:
  "cr_facts (check_binding env i l k f r out) = cr_facts out"
  "cr_unresolved_input_checkpoints (check_binding env i l k f r out) = cr_unresolved_input_checkpoints out"
  "cr_root_producer_found (check_binding env i l k f r out) = cr_root_producer_found out"
  "\<not> r \<Longrightarrow> cr_root_checkpoint_id (check_binding env i l k f r out) = cr_root_checkpoint_id out"
  "\<not> r \<Longrightarrow> cr_root_checkpoint_file_digest (check_binding env i l k f r out) = cr_root_checkpoint_file_digest out"
  using check_identities_frame [where cs = "_ # _"]
  by (simp_all add: check_binding_def Let_def split: list.split)

text \<open>When a checkpoint fact passes the checks\<close>

definition identity_ok :: "closure_env \<Rightarrow> checkpoint_fact \<Rightarrow> checkpoint_fact \<Rightarrow> bool" where
  "identity_ok env selected c \<longleftrightarrow> cf_checkpoint_id c = cf_checkpoint_id selected \<and>
     cf_checkpoint_file_digest c = cf_checkpoint_file_digest selected \<and> cf_checkpoint_id c = expected_checkpoint_id c \<and>
     file_content_digest_checked env (cf_checkpoint_path c) = Inr (cf_checkpoint_file_digest c)"

definition bound_to_bytes :: "closure_env \<Rightarrow> exposure_ledger \<Rightarrow> string \<Rightarrow> produced_fact \<Rightarrow> bool" where
  "bound_to_bytes env l key f \<longleftrightarrow>
     (case filter (\<lambda>c. is_primary c \<and> cf_direct_exposure_digest c \<in> set (accepted_digests env f)) (checkpoints_at l key) of
        [] \<Rightarrow> False
      | selected # cs \<Rightarrow> list_all (identity_ok env selected) (selected # cs))"

lemma check_identities_mismatches:
  "cr_identity_mismatches (foldl (\<lambda>r c. check_identity env k s c r) r cs) = [] \<longleftrightarrow>
     cr_identity_mismatches r = [] \<and> list_all (identity_ok env s) cs"
  by (induction cs arbitrary: r) (auto simp: check_identity_def identity_ok_def Let_def split: sum.split)

lemma matching_facts_index:
  "matching_facts env (build_lookup_index l) l key f =
     filter (\<lambda>c. is_primary c \<and> cf_direct_exposure_digest c \<in> set (accepted_digests env f)) (checkpoints_at l key)"
  by (simp add: matching_facts_def build_lookup_index_correct conj_commute)

lemma check_binding_mismatches:
  "cr_identity_mismatches (check_binding env (build_lookup_index l) l key f r out) = [] \<longleftrightarrow>
     cr_identity_mismatches out = [] \<and> bound_to_bytes env l key f"
proof -
  have empty: "filter is_primary (path_facts (build_lookup_index l) l key) = [] \<Longrightarrow> matching_facts env (build_lookup_index l) l key f = []"
    by (simp add: matching_facts_def)
  show ?thesis
    using empty check_identities_mismatches [of env key _ _ "_ # _"]
    by (auto simp: check_binding_def bound_to_bytes_def matching_facts_index [symmetric] Let_def split: list.split
        simp del: foldl_Cons list.pred_inject)
qed

text \<open>The root's identity is that of a checkpoint fact bound to its bytes.\<close>

definition root_identity :: "closure_env \<Rightarrow> exposure_ledger \<Rightarrow> string \<Rightarrow> closure_result \<Rightarrow> bool" where
  "root_identity env l key out \<longleftrightarrow> (\<exists>c \<in> set (checkpoints_at l key). is_primary c \<and> identity_ok env c c \<and>
     cr_root_checkpoint_id out = cf_checkpoint_id c \<and> cr_root_checkpoint_file_digest out = cf_checkpoint_file_digest c)"

lemma check_binding_root:
  assumes "cr_identity_mismatches (check_binding env (build_lookup_index l) l key f True out) = []"
  shows "root_identity env l key (check_binding env (build_lookup_index l) l key f True out)"
proof -
  from assms have "bound_to_bytes env l key f" by (simp add: check_binding_mismatches)
  then obtain c cs where c: "matching_facts env (build_lookup_index l) l key f = c # cs" "identity_ok env c c"
    unfolding bound_to_bytes_def matching_facts_index [symmetric] by (auto split: list.splits)
  then have "c \<in> set (matching_facts env (build_lookup_index l) l key f)" by simp
  then have m: "c \<in> set (checkpoints_at l key)" "is_primary c" by (auto simp: matching_facts_index)
  then have "path_facts (build_lookup_index l) l key \<noteq> []" "filter is_primary (path_facts (build_lookup_index l) l key) \<noteq> []"
    by (auto simp: build_lookup_index_correct filter_empty_conv)
  with c m show ?thesis by (auto simp: root_identity_def check_binding_def Let_def)
qed

section \<open>What the walk collects\<close>

lemma walked_fact_keys:
  assumes "walked env l key out st" "cr_facts out = []"
  shows "fact_key env ` set (cr_facts (cs_out st)) = fact_key env ` (\<Union>k \<in> lineage_keys l key. set (producers_of l k))"
    "distinct (map (fact_key env) (cr_facts (cs_out st)))"
    "set (cr_facts (cs_out st)) \<subseteq> (\<Union>k \<in> lineage_keys l key. set (producers_of l k))"
proof -
  let ?i = "build_lookup_index l"
  let ?I = "\<lambda>st. cs_seen_facts st = fact_key env ` set (cr_facts (cs_out st)) \<and>
      distinct (map (fact_key env) (cr_facts (cs_out st))) \<and>
      set (cr_facts (cs_out st)) \<subseteq> (\<Union>k \<in> cs_seen_checkpoints st. set (producers_of l k))"
  have seen: "cs_seen_facts st = (\<Union>k \<in> lineage_keys l key. (\<Union>f \<in> set (producers_of l k). {fact_key env f}))"
    using closure.walk_collects [where col = cs_seen_facts and A = "\<lambda>k f. {fact_key env f}" and B = "\<lambda>_. {}",
        OF _ _ _ assms(1) [unfolded walked_def]] walked_seen [OF assms(1)]
    by (simp add: mark_checkpoint_def finish_checkpoint_def visit_producer_def Let_def initial_state_def
        validate_checkpoint_identity_for_producer_def build_lookup_index_correct insert_absorb)
  have "?I st"
    by (rule closure.walk_invariant [where I = ?I and Q = "\<lambda>_ _. True", OF _ _ _ _ assms(1) [unfolded walked_def]])
      (auto simp: mark_checkpoint_def finish_checkpoint_def visit_producer_def Let_def initial_state_def assms(2)
        validate_checkpoint_identity_for_producer_def check_binding_frame build_lookup_index_correct)
  with seen walked_seen [OF assms(1)] show
    "fact_key env ` set (cr_facts (cs_out st)) = fact_key env ` (\<Union>k \<in> lineage_keys l key. set (producers_of l k))"
    "distinct (map (fact_key env) (cr_facts (cs_out st)))"
    "set (cr_facts (cs_out st)) \<subseteq> (\<Union>k \<in> lineage_keys l key. set (producers_of l k))" by auto
qed

lemma visit_producer_frame:
  "cr_unresolved_input_checkpoints (cs_out (visit_producer env i l k r f st)) = cr_unresolved_input_checkpoints (cs_out st)"
  "cr_root_producer_found (cs_out (visit_producer env i l k r f st)) \<longleftrightarrow> r \<or> cr_root_producer_found (cs_out st)"
  by (simp_all add: visit_producer_def validate_checkpoint_identity_for_producer_def Let_def check_binding_frame)

lemma walked_unresolved:
  assumes "walked env l key out st" "cr_unresolved_input_checkpoints out = []"
  shows "set (cr_unresolved_input_checkpoints (cs_out st)) = {k \<in> lineage_keys l key. producers_of l k = []}"
  using closure.walk_collects [where col = "\<lambda>st. set (cr_unresolved_input_checkpoints (cs_out st))" and A = "\<lambda>_ _. {}"
      and B = "\<lambda>k. if producers_of l k = [] then {k} else {}", OF _ _ _ assms(1) [unfolded walked_def]]
    walked_seen [OF assms(1)] assms(2)
  by (auto simp: mark_checkpoint_def finish_checkpoint_def visit_producer_frame initial_state_def build_lookup_index_correct
      split: if_splits)

lemma walked_root_found:
  assumes "walked env l key out st" "\<not> cr_root_producer_found out"
  shows "cr_root_producer_found (cs_out st) \<longleftrightarrow> producers_of l key \<noteq> []"
proof (cases "producers_of l key")
  case Nil
  have "\<not> cr_root_producer_found (cs_out st)"
    by (rule closure.walk_invariant [where I = "\<lambda>st. \<not> cr_root_producer_found (cs_out st)" and Q = "\<lambda>k r. r \<longrightarrow> k = key",
        OF _ _ _ _ assms(1) [unfolded walked_def]])
      (auto simp: mark_checkpoint_def finish_checkpoint_def visit_producer_frame initial_state_def build_lookup_index_correct
        assms(2) Nil)
  with Nil show ?thesis by simp
next
  case (Cons f fs)
  have "key \<noteq> []" using Cons producers_of_empty [of l] by auto
  have "cr_root_producer_found (cs_out st)"
    by (rule closure.walk_establishes [where I = "\<lambda>st. cr_root_producer_found (cs_out st)" and Q = "\<lambda>_ _. True" and key = key
          and f = f and fs = fs, OF _ _ _ _ _ _ _ _ _ assms(1) [unfolded walked_def]])
      (use Cons \<open>key \<noteq> []\<close> in \<open>simp_all add: mark_checkpoint_def finish_checkpoint_def visit_producer_frame initial_state_def
        build_lookup_index_correct\<close>)
  with Cons show ?thesis by simp
qed

text \<open>Two bindings are the same when checkpoint and producer digest are.\<close>

lemma length_digest: "length (exposure_digest_for_text t) = 16"
  by (simp add: exposure_digest_for_text_def hash_hex_def)

lemma binding_key_inject:
  "binding_key env k f = binding_key env k' f' \<longleftrightarrow> k = k' \<and> produced_fact_digest env f = produced_fact_digest env f'"
  by (simp add: binding_key_def produced_fact_digest_def length_digest)

lemma walked_mismatches:
  assumes "walked env l key out st" "cr_identity_mismatches out = []" "inj_on (produced_fact_digest env) (set (el_facts l))"
  shows "cr_identity_mismatches (cs_out st) = [] \<longleftrightarrow>
    (\<forall>k \<in> lineage_keys l key. \<forall>f \<in> set (producers_of l k). bound_to_bytes env l k f)"
proof -
  let ?B = "\<lambda>st. \<forall>k. \<forall>f \<in> set (producers_of l k). binding_key env k f \<in> cs_seen_identity_bindings st \<longrightarrow> bound_to_bytes env l k f"
  let ?I = "\<lambda>st. cr_identity_mismatches (cs_out st) = [] \<longleftrightarrow> ?B st"
  have inj: "k' = k \<and> f' = f" if "f \<in> set (producers_of l k)" "f' \<in> set (producers_of l k')"
    "binding_key env k' f' = binding_key env k f" for k k' f f'
    using that inj_onD [OF assms(3)] by (auto simp: binding_key_inject dest: in_producers_of)
  have seen: "cs_seen_identity_bindings st = (\<Union>k \<in> lineage_keys l key. (\<Union>f \<in> set (producers_of l k). {binding_key env k f}))"
    using closure.walk_collects [where col = cs_seen_identity_bindings and A = "\<lambda>k f. {binding_key env k f}" and B = "\<lambda>_. {}",
        OF _ _ _ assms(1) [unfolded walked_def]] walked_seen [OF assms(1)]
    by (simp add: mark_checkpoint_def finish_checkpoint_def visit_producer_def Let_def initial_state_def
        validate_checkpoint_identity_for_producer_def build_lookup_index_correct insert_absorb)
  have visit: "?I (visit_producer env (build_lookup_index l) l k r f st)" if "f \<in> set (producers_of l k)" "?I st" for k r f st
  proof (cases "binding_key env k f \<in> cs_seen_identity_bindings st")
    case False
    then have "?B (visit_producer env (build_lookup_index l) l k r f st) \<longleftrightarrow> ?B st \<and> bound_to_bytes env l k f"
      using that(1) inj by (auto simp: visit_producer_def validate_checkpoint_identity_for_producer_def Let_def)
    moreover have "cr_identity_mismatches (cs_out (visit_producer env (build_lookup_index l) l k r f st)) = [] \<longleftrightarrow>
      cr_identity_mismatches (cs_out st) = [] \<and> bound_to_bytes env l k f"
      using False by (simp add: visit_producer_def validate_checkpoint_identity_for_producer_def Let_def check_binding_mismatches)
    ultimately show ?thesis using that(2) by blast
  qed (use that(2) in \<open>simp add: visit_producer_def validate_checkpoint_identity_for_producer_def Let_def\<close>)
  have "?I st"
    by (rule closure.walk_invariant [where I = ?I and Q = "\<lambda>_ _. True", OF _ _ _ _ assms(1) [unfolded walked_def]])
      (simp_all add: visit mark_checkpoint_def finish_checkpoint_def initial_state_def assms(2) build_lookup_index_correct)
  then show ?thesis unfolding seen using inj by blast
qed

lemma walked_root_identity:
  assumes "walked env l key out st" "cr_identity_mismatches (cs_out st) = []" "producers_of l key \<noteq> []"
  shows "root_identity env l key (cs_out st)"
proof -
  let ?I = "\<lambda>st. cr_identity_mismatches (cs_out st) \<noteq> [] \<or> root_identity env l key (cs_out st)"
  from assms(3) obtain f fs where f: "producers_of l key = f # fs" by (cases "producers_of l key") auto
  have "key \<noteq> []" using assms(3) producers_of_empty [of l] by auto
  have visit: "?I (visit_producer env (build_lookup_index l) l k r f st)"
    if "r \<longrightarrow> k = key" "?I st \<or> r \<and> cs_seen_identity_bindings st = {}" for k r f st
    using that check_binding_root [of env l k f] check_binding_mismatches [of env l k f r]
    by (cases r) (auto simp: visit_producer_def validate_checkpoint_identity_for_producer_def Let_def
        root_identity_def check_binding_frame)
  have "?I st"
    by (rule closure.walk_establishes [where I = ?I and Q = "\<lambda>k r. r \<longrightarrow> k = key" and key = key and f = f and fs = fs,
          OF _ _ _ _ _ _ _ _ _ assms(1) [unfolded walked_def]])
      (use f visit \<open>key \<noteq> []\<close> in \<open>simp_all add: mark_checkpoint_def finish_checkpoint_def initial_state_def
        build_lookup_index_correct root_identity_def\<close>)
  with assms(2) show ?thesis by blast
qed

section \<open>An example\<close>

text \<open>
  A ledger with one producer whose checkpoint is bound to its bytes
\<close>

definition example_env :: closure_env where
  "example_env = \<lparr>canonical_exposure_fact_text = ef_job_id, file_at = (\<lambda>p. if p = ''/c/a.pt'' then Bytes ''x'' else Open_Failed)\<rparr>"

definition example_producer :: produced_fact where
  "example_producer = lattice_exposure_fact.extend (example_fact ''j1'' 0 4)
     \<lparr>ef_output_checkpoint = ''/c/./a.pt'', ef_input_checkpoints = [], ef_output_checkpoint_exposure_digest = []\<rparr>"

definition example_checkpoint :: checkpoint_fact where
  "example_checkpoint =
     (let d = projr (file_content_digest_checked example_env ''/c/a.pt''); e = produced_fact_digest example_env example_producer
      in \<lparr>cf_checkpoint_id = exposure_digest_for_text (''checkpoint|'' @ ''/c/a.pt'' @ ''|'' @ d @ ''|'' @ e),
         cf_checkpoint_path = ''/c/a.pt'', cf_checkpoint_file_digest = d, cf_direct_exposure_digest = e\<rparr>)"

definition example_ledger :: exposure_ledger where
  "example_ledger = add_checkpoint example_checkpoint (add_fact example_producer empty_ledger)"

lemma example_paths [simp]:
  "checkpoint_key ''/c/a.pt'' = ''/c/a.pt''" "checkpoint_key ''/c/./a.pt'' = ''/c/a.pt''" "lexically_normal ''/c/a.pt'' = ''/c/a.pt''"
  by code_simp+

lemma xdigit_hex_fixed: "list_all is_xdigit (hex_fixed w n)"
proof (induction w arbitrary: n)
  case (Suc w)
  have "\<forall>d \<in> set [0, 1, 2, 3, 4, 5, 6, 7, 8, 9, 10, 11, 12, 13, 14, 15]. is_xdigit (hex_chr d)"
    by (simp add: hex_chr_def is_xdigit_def is_digit_def) (simp_all add: char_of_def bit_0)
  moreover have "[0..<16] = [0, 1, 2, 3, 4, 5, 6, 7, 8, 9, 10, 11, 12, 13, 14, 15]"
    by (simp add: numeral_eq_Suc)
  moreover have "n mod 16 \<in> set [0..<16]" by simp
  ultimately have "is_xdigit (hex_chr (n mod 16))" by metis
  with Suc show ?case by simp
qed simp

lemma digest_is_lattice_digest: "looks_like_lattice_digest (exposure_digest_for_text t)"
  unfolding looks_like_lattice_digest_def length_digest
  by (simp add: exposure_digest_for_text_def hash_hex_def xdigit_hex_fixed)

lemma example_ledger_facts:
  "el_facts example_ledger = [example_producer]" "el_checkpoint_facts example_ledger = [example_checkpoint]"
  "ledger_ok example_ledger" "ef_output_checkpoint example_producer = ''/c/./a.pt''" "ef_input_checkpoints example_producer = []"
  "cf_checkpoint_path example_checkpoint = ''/c/a.pt''"
  by (simp_all add: example_ledger_def add_checkpoint_def add_fact_def empty_ledger_def invalidate_lookup_index_def Let_def
      ledger_ok_def example_producer_def lattice_exposure_fact.defs example_checkpoint_def)

lemma example_checkpoint_fields:
  "file_content_digest_checked example_env ''/c/a.pt'' = Inr (cf_checkpoint_file_digest example_checkpoint)"
  "looks_like_lattice_digest (cf_checkpoint_file_digest example_checkpoint)"
  "cf_direct_exposure_digest example_checkpoint = produced_fact_digest example_env example_producer"
  "cf_checkpoint_id example_checkpoint = expected_checkpoint_id example_checkpoint"
proof -
  obtain h where h: "file_content_digest_checked example_env ''/c/a.pt'' = Inr (hash_hex h)"
    by (simp add: file_content_digest_checked_def example_env_def Let_def)
  then show "file_content_digest_checked example_env ''/c/a.pt'' = Inr (cf_checkpoint_file_digest example_checkpoint)"
    by (simp add: example_checkpoint_def Let_def)
  show "looks_like_lattice_digest (cf_checkpoint_file_digest example_checkpoint)"
    by (simp add: example_checkpoint_def Let_def h looks_like_lattice_digest_def) (simp add: hash_hex_def xdigit_hex_fixed)
  show "cf_direct_exposure_digest example_checkpoint = produced_fact_digest example_env example_producer"
    by (simp add: example_checkpoint_def Let_def)
  show "cf_checkpoint_id example_checkpoint = expected_checkpoint_id example_checkpoint"
    unfolding expected_checkpoint_id_def by (simp add: example_checkpoint_def Let_def)
qed

lemma looks_nonempty: "looks_like_lattice_digest t \<Longrightarrow> t \<noteq> []"
  by (auto simp: looks_like_lattice_digest_def)

lemma example_bound: "bound_to_bytes example_env example_ledger ''/c/a.pt'' example_producer"
proof -
  have "produced_fact_digest example_env example_producer \<in> set (accepted_digests example_env example_producer)"
    by (simp add: accepted_digests_def Let_def)
  moreover have "is_primary example_checkpoint"
    unfolding is_primary_def example_checkpoint_fields(3,4) expected_checkpoint_id_def produced_fact_digest_def
    using digest_is_lattice_digest example_checkpoint_fields(2) looks_nonempty by blast
  moreover have "identity_ok example_env example_checkpoint example_checkpoint"
    using example_checkpoint_fields(1,4) by (simp only: identity_ok_def example_ledger_facts(6) simp_thms)
  moreover have "checkpoints_at example_ledger ''/c/a.pt'' = [example_checkpoint]"
    by (simp add: checkpoints_at_def example_ledger_facts)
  ultimately show ?thesis by (simp add: bound_to_bytes_def example_checkpoint_fields(3))
qed

section \<open>The closure of a checkpoint\<close>

lemma checkpoint_closure_result_walked:
  assumes "ledger_ok l"
  obtains st l' where
    "checkpoint_closure_result env l cp = Some (finalize_checkpoint_closure_authority (cs_out st), l')"
    "walked env l (checkpoint_key cp) empty_closure st" "ledger_ok l'"
proof -
  obtain l' where l': "get_lookup_index l = (build_lookup_index l, l')" "ledger_ok l'"
    using get_lookup_index_ok [OF assms] by blast
  obtain st where st: "walked env l (checkpoint_key cp) empty_closure st" using walk_exists by blast
  show thesis
    by (rule that [of st "if checkpoint_key cp = [] then l else l'"])
      (use st l' assms in \<open>simp_all add: checkpoint_closure_result_def walked_def\<close>)
qed

lemma finalize_frame [simp]:
  "cr_facts (finalize_checkpoint_closure_authority out) = cr_facts out"
  "cr_unresolved_input_checkpoints (finalize_checkpoint_closure_authority out) = cr_unresolved_input_checkpoints out"
  "cr_root_producer_found (finalize_checkpoint_closure_authority out) = cr_root_producer_found out"
  "cr_root_checkpoint_id (finalize_checkpoint_closure_authority out) = cr_root_checkpoint_id out"
  "cr_root_checkpoint_file_digest (finalize_checkpoint_closure_authority out) = cr_root_checkpoint_file_digest out"
  by (simp_all add: finalize_checkpoint_closure_authority_def)

lemma finalize_complete:
  "closure_complete (finalize_checkpoint_closure_authority out) \<longleftrightarrow>
     closure_complete out \<and> cr_root_checkpoint_id out \<noteq> [] \<and> cr_root_checkpoint_file_digest out \<noteq> []"
  "cr_resolution_authority (finalize_checkpoint_closure_authority out) = ''checkpoint_id_file_digest'' \<longleftrightarrow>
     closure_complete (finalize_checkpoint_closure_authority out)"
  by (auto simp: finalize_checkpoint_closure_authority_def closure_complete_def)

lemma root_identity_frame:
  "root_identity env l key (finalize_checkpoint_closure_authority out) \<longleftrightarrow> root_identity env l key out"
  by (simp add: root_identity_def)

lemma root_identity_nonempty:
  "root_identity env l key out \<Longrightarrow> cr_root_checkpoint_id out \<noteq> [] \<and> cr_root_checkpoint_file_digest out \<noteq> []"
  by (auto simp: root_identity_def is_primary_def)

text \<open>
  C21: the closure of a checkpoint always returns; its facts are, one per job and digest, the producers of the
  checkpoint and of everything it descends from; its unresolved checkpoints are exactly those of the lineage
  that nothing produced.
\<close>

theorem checkpoint_closure_exact:
  assumes "ledger_ok l"
  shows "\<exists>r l'. checkpoint_closure_result env l cp = Some (r, l') \<and> ledger_ok l' \<and>
     set (cr_facts r) \<subseteq> (\<Union>k \<in> lineage_keys l (checkpoint_key cp). set (producers_of l k)) \<and>
     fact_key env ` set (cr_facts r) = fact_key env ` (\<Union>k \<in> lineage_keys l (checkpoint_key cp). set (producers_of l k)) \<and>
     distinct (map (fact_key env) (cr_facts r)) \<and>
     set (cr_unresolved_input_checkpoints r) = {k \<in> lineage_keys l (checkpoint_key cp). producers_of l k = []} \<and>
     cr_root_producer_found r = (producers_of l (checkpoint_key cp) \<noteq> [])"
proof -
  obtain st l' where r: "checkpoint_closure_result env l cp = Some (finalize_checkpoint_closure_authority (cs_out st), l')"
    "walked env l (checkpoint_key cp) empty_closure st" "ledger_ok l'"
    by (rule checkpoint_closure_result_walked [OF assms])
  then show ?thesis
    using walked_fact_keys [OF r(2)] walked_unresolved [OF r(2)] walked_root_found [OF r(2)]
    by (simp add: empty_closure_def)
qed

theorem checkpoint_closure_exact_witness:
  "\<exists>r l'. checkpoint_closure_result example_env example_ledger ''/c/a.pt'' = Some (r, l') \<and> cr_root_producer_found r"
  using checkpoint_closure_exact [of example_ledger example_env "''/c/a.pt''"]
  by (auto simp: example_ledger_facts producers_of_def)


lemma example_lineage: "lineage_keys example_ledger ''/c/a.pt'' = {''/c/a.pt''}"
proof -
  have "k = ''/c/a.pt''" if "lineage (ledger_parents example_ledger) ''/c/a.pt'' k" for k
    using that by induction (auto simp: ledger_parents_def producers_of_def example_ledger_facts)
  then show ?thesis by (auto simp: lineage_keys_def intro: lineage.start)
qed


lemma walked_keeps_mismatches:
  assumes "walked env l key out st" "cr_identity_mismatches (cs_out st) = []"
  shows "cr_identity_mismatches out = []"
proof (rule ccontr)
  assume "cr_identity_mismatches out \<noteq> []"
  then have "cr_identity_mismatches (cs_out st) \<noteq> []"
    by (intro closure.walk_invariant [where I = "\<lambda>st. cr_identity_mismatches (cs_out st) \<noteq> []" and Q = "\<lambda>_ _. True",
        OF _ _ _ _ assms(1) [unfolded walked_def]])
      (auto simp: mark_checkpoint_def finish_checkpoint_def initial_state_def visit_producer_def Let_def
        validate_checkpoint_identity_for_producer_def check_binding_mismatches)
  with assms(2) show False by simp
qed

lemma identity_lookup_cases:
  assumes "ledger_ok l"
  obtains (failed) r l' where "checkpoint_closure_result_for_identity env l cid digest = Some (r, l')" "ledger_ok l'"
      "\<not> closure_complete r"
  | (walked) out st key l' where
      "checkpoint_closure_result_for_identity env l cid digest = Some
         (let out = finalize_checkpoint_closure_authority (cs_out st) in
          (if cr_root_checkpoint_id out \<noteq> cid \<or> cr_root_checkpoint_file_digest out \<noteq> digest
           then finalize_checkpoint_closure_authority (note_mismatch
             ''resolved root checkpoint identity does not match requested checkpoint_id/checkpoint_file_digest'' out)
           else out, l'))"
      "ledger_ok l'" "walked env l key out st" "\<not> cr_root_producer_found out"
      "cr_identity_mismatches out = [] \<Longrightarrow> \<forall>c \<in> set (el_checkpoint_facts l). cf_checkpoint_id c = cid \<longrightarrow>
         cf_checkpoint_file_digest c = digest \<and> checkpoint_key (cf_checkpoint_path c) = key"
proof (cases "cid = [] \<or> digest = []")
  case True
  with assms show thesis
    by (intro failed [OF _ assms]) (auto simp: checkpoint_closure_result_for_identity_def Let_def closure_complete_def)
next
  case False
  obtain l' where l': "get_lookup_index l = (build_lookup_index l, l')" "ledger_ok l'"
    using get_lookup_index_ok [OF assms] by blast
  define named where "named = filter (\<lambda>c. cf_checkpoint_id c = cid) (el_checkpoint_facts l)"
  define candidates where "candidates = filter (\<lambda>c. cf_checkpoint_file_digest c = digest) named"
  define wrong where "wrong \<longleftrightarrow> list_ex (\<lambda>c. cf_checkpoint_file_digest c \<noteq> digest) named \<or>
    list_ex (\<lambda>c. cf_checkpoint_id c = cid \<and> cf_checkpoint_file_digest c \<noteq> digest) (el_checkpoint_facts l)"
  define paths where "paths = sort (remdups (map (\<lambda>c. checkpoint_key (cf_checkpoint_path c)) candidates))"
  define start where "start = empty_closure\<lparr>cr_resolution_authority := ''checkpoint_id_file_digest'',
    cr_root_checkpoint_id := cid, cr_root_checkpoint_file_digest := digest\<rparr>"
  define out where "out = (if wrong then note_mismatch
    ''checkpoint_id matched a checkpoint fact with a different checkpoint_file_digest'' start else start)"
  have index: "map ((!) (el_checkpoint_facts l)) (checkpoints_by_id (build_lookup_index l) cid) = named"
    using False by (simp add: build_lookup_index_correct named_def)
  note result = checkpoint_closure_result_for_identity_def [of env l cid digest, unfolded l'(1) Let_def prod.case index,
    folded start_def candidates_def wrong_def, folded paths_def out_def]
  consider "candidates = []" | "candidates \<noteq> []" "length paths \<noteq> 1" | key where "candidates \<noteq> []" "paths = [key]"
    by (cases paths) auto
  then show thesis
  proof cases
    case 3
    obtain st where st: "walked env l key out st" using walk_exists by blast
    have "set paths = {key}" using 3 by simp
    then have "(\<lambda>c. checkpoint_key (cf_checkpoint_path c)) ` set candidates = {key}" by (simp add: paths_def)
    then have same: "checkpoint_key (cf_checkpoint_path c) = key" if "c \<in> set candidates" for c using that by blast
    have out: "cr_identity_mismatches out = [] \<longleftrightarrow> \<not> wrong" "\<not> cr_root_producer_found out"
      by (simp_all add: out_def start_def empty_closure_def)
    show thesis
      by (rule walked [OF _ l'(2) st out(2)])
        (use False 3 st same out(1) in \<open>auto simp: result walked_def Let_def candidates_def named_def wrong_def list_ex_iff\<close>)
  qed (use False l'(2) in \<open>auto simp: result closure_complete_def intro!: failed\<close>)
qed

lemma walked_complete:
  assumes "walked env l key out st" "cr_unresolved_input_checkpoints out = []" "cr_identity_mismatches out = []"
    "\<not> cr_root_producer_found out" "inj_on (produced_fact_digest env) (set (el_facts l))"
    and key: "producers_of l key \<noteq> []"
    and bound: "\<And>k. k \<in> lineage_keys l key \<Longrightarrow> producers_of l k \<noteq> [] \<and> (\<forall>f \<in> set (producers_of l k). bound_to_bytes env l k f)"
  shows "closure_complete (finalize_checkpoint_closure_authority (cs_out st)) \<and>
    root_identity env l key (finalize_checkpoint_closure_authority (cs_out st))"
proof -
  have "set (cr_unresolved_input_checkpoints (cs_out st)) = {}"
    unfolding walked_unresolved [OF assms(1,2)] using bound by (auto dest: bound)
  moreover have "cr_identity_mismatches (cs_out st) = []"
    unfolding walked_mismatches [OF assms(1,3,5)] using bound by simp
  ultimately have "closure_complete (cs_out st)"
    using walked_root_found [OF assms(1,4)] key by (simp add: closure_complete_def)
  moreover from this have "root_identity env l key (cs_out st)"
    using walked_root_identity [OF assms(1) _ key] by (simp add: closure_complete_def)
  ultimately show ?thesis using root_identity_nonempty by (simp add: finalize_complete(1) root_identity_frame)
qed

text \<open>
  C27: a lookup by identity always returns, and a complete result has the requested id and file digest, of a
  checkpoint fact that is bound to its bytes; no checkpoint fact of the ledger has the same id and another
  file digest, and all that have both have one path.
\<close>

theorem identity_lookup_sound:
  assumes "ledger_ok l"
  shows "\<exists>r l'. checkpoint_closure_result_for_identity env l cid digest = Some (r, l') \<and> ledger_ok l' \<and>
     (closure_complete r \<longrightarrow>
        cr_root_checkpoint_id r = cid \<and> cr_root_checkpoint_file_digest r = digest \<and>
        cr_resolution_authority r = ''checkpoint_id_file_digest'' \<and>
        (\<exists>key. root_identity env l key r \<and>
           (\<forall>c \<in> set (el_checkpoint_facts l). cf_checkpoint_id c = cid \<longrightarrow>
              cf_checkpoint_file_digest c = digest \<and> checkpoint_key (cf_checkpoint_path c) = key)))"
  using assms
proof (cases rule: identity_lookup_cases [of l env cid digest])
  case (walked out st key l')
  let ?out = "finalize_checkpoint_closure_authority (cs_out st)"
  show ?thesis
  proof (cases "cr_root_checkpoint_id ?out = cid \<and> cr_root_checkpoint_file_digest ?out = digest")
    case True
    have "cr_identity_mismatches out = [] \<and> root_identity env l key ?out" if "closure_complete ?out"
    proof -
      have c: "closure_complete (cs_out st)" using that finalize_complete(1) by blast
      then have "producers_of l key \<noteq> []"
        using walked_root_found [OF walked(3,4)] by (simp add: closure_complete_def)
      with c show ?thesis
        using walked_keeps_mismatches [OF walked(3)] walked_root_identity [OF walked(3)]
        by (simp add: closure_complete_def root_identity_frame)
    qed
    with True walked(1,2,5) show ?thesis by (auto simp: Let_def finalize_complete(2))
  next
    case False
    have "\<not> closure_complete (finalize_checkpoint_closure_authority (note_mismatch m ?out))" for m
      by (simp only: finalize_complete(1)) (simp add: closure_complete_def)
    with False walked(1,2) show ?thesis by (simp add: Let_def)
  qed
qed auto

lemma example_identity_lookup:
  "\<exists>r l'. checkpoint_closure_result_for_identity example_env example_ledger (cf_checkpoint_id example_checkpoint)
      (cf_checkpoint_file_digest example_checkpoint) = Some (r, l') \<and> closure_complete r"
proof -
  let ?cid = "cf_checkpoint_id example_checkpoint" and ?digest = "cf_checkpoint_file_digest example_checkpoint"
  define out where "out = empty_closure\<lparr>cr_resolution_authority := ''checkpoint_id_file_digest'',
    cr_root_checkpoint_id := ?cid, cr_root_checkpoint_file_digest := ?digest\<rparr>"
  obtain l' where l': "get_lookup_index example_ledger = (build_lookup_index example_ledger, l')"
    using get_lookup_index_ok [OF example_ledger_facts(3)] by blast
  have ids: "?cid \<noteq> []" "?digest \<noteq> []"
    unfolding example_checkpoint_fields(4) expected_checkpoint_id_def
    using digest_is_lattice_digest looks_nonempty example_checkpoint_fields(2) by blast+
  have key: "checkpoint_key ''/c/a.pt'' = ''/c/a.pt''" by code_simp
  obtain st where st: "walked example_env example_ledger ''/c/a.pt'' out st" using walk_exists by blast
  have producers: "producers_of example_ledger ''/c/a.pt'' = [example_producer]"
    by (simp add: producers_of_def example_ledger_facts)
  have "closure_complete (finalize_checkpoint_closure_authority (cs_out st)) \<and>
      root_identity example_env example_ledger ''/c/a.pt'' (finalize_checkpoint_closure_authority (cs_out st))"
    by (rule walked_complete [OF st])
      (simp_all add: out_def empty_closure_def example_ledger_facts example_lineage producers example_bound)
  moreover from this have "cr_root_checkpoint_id (cs_out st) = ?cid \<and> cr_root_checkpoint_file_digest (cs_out st) = ?digest"
    by (simp add: root_identity_def checkpoints_at_def example_ledger_facts)
  ultimately show ?thesis
    using ids st unfolding checkpoint_closure_result_for_identity_def l' Let_def prod.case build_lookup_index_correct
    by (simp add: example_ledger_facts key walked_def out_def)
qed

theorem identity_lookup_sound_witness:
  "\<exists>r l'. checkpoint_closure_result_for_identity example_env example_ledger (cf_checkpoint_id example_checkpoint)
      (cf_checkpoint_file_digest example_checkpoint) = Some (r, l') \<and> closure_complete r \<and>
    cr_root_checkpoint_id r = cf_checkpoint_id example_checkpoint \<and>
    cr_resolution_authority r = ''checkpoint_id_file_digest''"
proof -
  obtain r l' where r: "checkpoint_closure_result_for_identity example_env example_ledger (cf_checkpoint_id example_checkpoint)
      (cf_checkpoint_file_digest example_checkpoint) = Some (r, l')" "closure_complete r"
    using example_identity_lookup by blast
  with identity_lookup_sound [OF example_ledger_facts(3), of example_env "cf_checkpoint_id example_checkpoint"
      "cf_checkpoint_file_digest example_checkpoint"] show ?thesis by auto
qed

end
