(* ===== verification/Source_Content.thy ===== *)
theory Source_Content
  imports Source_Decoders
begin

text \<open>
  What the split DSL means, read off the trees of its three instructions without any visitor: the rows
  of the nodes in the order in which they are written, the last value that is assigned to a number, and
  the conditions under which a node is accepted at all. The decoders of \<open>Source_Decoders\<close> are shown to
  answer exactly this.
\<close>

section \<open>Reading a node\<close>

definition column :: "ast_node \<Rightarrow> string \<Rightarrow> string" where
  "column n token = trim_spaces_tabs (flatten_node_text (find_direct_child_by_hash (Some n) (source_hash token)))"

text \<open>The text of the child \<open>field\<close> of the assignment \<open>token\<close> of a block\<close>

definition assigned :: "ast_node \<Rightarrow> string \<Rightarrow> string \<Rightarrow> string" where
  "assigned n token field = (case as_intermediary (find_direct_child_by_hash (Some n) (source_hash token)) of
       None \<Rightarrow> []
     | Some a \<Rightarrow> column a field)"

definition interval_texts :: "ast_node \<Rightarrow> string \<Rightarrow> string list" where
  "interval_texts n token = (case as_intermediary (find_direct_child_by_hash (Some n) (source_hash token)) of
       None \<Rightarrow> []
     | Some a \<Rightarrow> collect_node_texts_by_hash (source_hash ''interval'') a [])"

definition is_interval :: "string \<Rightarrow> bool" where
  "is_interval t \<longleftrightarrow> map_of interval_table t \<noteq> None"

definition the_interval :: "string \<Rightarrow> interval_type" where
  "the_interval t = the (map_of interval_table t)"

definition number_text :: "ast_node \<Rightarrow> string \<Rightarrow> string" where
  "number_text n token = trim (flatten_node_text (find_direct_child_by_hash (Some n) (source_hash token)))"

definition count_of :: "ast_node \<Rightarrow> nat" where
  "count_of n = digits_value 0 (number_text n ''policy_unsigned_int'')"

definition count_ok :: "nat \<Rightarrow> nat \<Rightarrow> ast_node \<Rightarrow> bool" where
  "count_ok low high n \<longleftrightarrow> (let t = number_text n ''policy_unsigned_int'' in
     t \<noteq> [] \<and> list_all is_digit t \<and> low \<le> count_of n \<and> count_of n \<le> high)"

definition float_of_node :: "ast_node \<Rightarrow> c_float" where
  "float_of_node n = the (strto_float long_double_format (number_text n ''policy_float''))"

definition float_ok :: "(c_float \<Rightarrow> bool) \<Rightarrow> ast_node \<Rightarrow> bool" where
  "float_ok P n \<longleftrightarrow> number_text n ''policy_float'' \<noteq> [] \<and>
     strto_float long_double_format (number_text n ''policy_float'') \<noteq> None \<and> P (float_of_node n)"

text \<open>The value of the last node of a kind, or the one that holds when there is none\<close>

definition last_value :: "'a \<Rightarrow> string \<Rightarrow> (ast_node \<Rightarrow> 'a) \<Rightarrow> ast_node list \<Rightarrow> 'a" where
  "last_value absent token f ns = (case List.find (is_inner token) (rev ns) of None \<Rightarrow> absent | Some n \<Rightarrow> f n)"

lemma last_value_simps [simp]:
  "last_value d k f [] = d"
  "last_value d k f (ns @ [n]) = (if is_inner k n then f n else last_value d k f ns)"
  by (simp_all add: last_value_def)

section \<open>Channels\<close>

definition channel_rows :: "ast_node \<Rightarrow> channel_form list" where
  "channel_rows n =
     (if is_inner ''channel_set_block'' n then
        map (\<lambda>t. \<lparr>cf_interval = the_interval (trim_spaces_tabs t),
          cf_active = assigned n ''channel_set_active_assignment'' ''active'',
          cf_record_type = assigned n ''channel_set_record_type_assignment'' ''record_type'',
          cf_input_length = assigned n ''channel_set_input_length_assignment'' ''input_length'',
          cf_future_length = assigned n ''channel_set_future_length_assignment'' ''future_length'',
          cf_channel_weight = assigned n ''channel_set_weight_assignment'' ''channel_weight'',
          cf_normalization_policy = assigned n ''channel_set_normalization_assignment'' ''normalization_policy''\<rparr>)
          (interval_texts n ''channel_set_intervals_assignment'')
      else if is_inner ''channel_form'' n then
        [\<lparr>cf_interval = the_interval (trim_spaces_tabs (column n ''interval'')), cf_active = column n ''active'',
          cf_record_type = column n ''record_type'', cf_input_length = column n ''input_length'',
          cf_future_length = column n ''future_length'', cf_channel_weight = column n ''channel_weight'',
          cf_normalization_policy = column n ''normalization_policy''\<rparr>]
      else [])"

definition channel_node_ok :: "ast_node \<Rightarrow> bool" where
  "channel_node_ok n \<longleftrightarrow>
     (if is_inner ''channel_set_block'' n then
        assigned n ''channel_set_active_assignment'' ''active'' \<noteq> [] \<and>
        assigned n ''channel_set_record_type_assignment'' ''record_type'' \<noteq> [] \<and>
        assigned n ''channel_set_input_length_assignment'' ''input_length'' \<noteq> [] \<and>
        assigned n ''channel_set_future_length_assignment'' ''future_length'' \<noteq> [] \<and>
        assigned n ''channel_set_weight_assignment'' ''channel_weight'' \<noteq> [] \<and>
        assigned n ''channel_set_normalization_assignment'' ''normalization_policy'' \<noteq> [] \<and>
        interval_texts n ''channel_set_intervals_assignment'' \<noteq> [] \<and>
        list_all (\<lambda>t. is_interval (trim_spaces_tabs t)) (interval_texts n ''channel_set_intervals_assignment'')
      else if is_inner ''channel_form'' n then is_interval (trim_spaces_tabs (column n ''interval''))
      else True)"

section \<open>Sources\<close>

definition without_slashes :: "string \<Rightarrow> string" where
  "without_slashes s = (let d = rev (dropWhile (\<lambda>c. c = CHR ''/'') (rev s)) in
     if d = [] \<and> s \<noteq> [] then ''/'' else d)"

definition kline_root :: "string \<Rightarrow> ast_node \<Rightarrow> string" where
  "kline_root root_path n = (let own = assigned n ''kline_source_root_assignment'' ''source_root_path'' in
     if own = [] then root_path else own)"

definition kline_texts :: "string list \<Rightarrow> ast_node \<Rightarrow> string list" where
  "kline_texts intervals n = (let own = interval_texts n ''kline_intervals_assignment'' in
     if own = [] then intervals else own)"

definition source_rows :: "string \<Rightarrow> string list \<Rightarrow> ast_node \<Rightarrow> source_form list" where
  "source_rows root_path intervals n =
     (if is_inner ''kline_source_set_block'' n then
        map (\<lambda>t. let instrument = assigned n ''kline_source_instrument_assignment'' ''instrument'' in
          \<lparr>sf_instrument = instrument, sf_interval = the_interval (trim t), sf_record_type = ''kline'',
            sf_market_type = assigned n ''kline_source_market_type_assignment'' ''market_type'',
            sf_venue = assigned n ''kline_source_venue_assignment'' ''venue'',
            sf_base_asset = assigned n ''kline_source_base_asset_assignment'' ''base_asset'',
            sf_quote_asset = assigned n ''kline_source_quote_asset_assignment'' ''quote_asset'',
            sf_source_kind = assigned n ''kline_source_kind_assignment'' ''source_kind'',
            sf_source = without_slashes (trim (kline_root root_path n)) @ ''/'' @ instrument @ ''/'' @ t @ ''/'' @
              instrument @ ''-'' @ t @ ''-all-years.csv''\<rparr>)
          (kline_texts intervals n)
      else if is_inner ''instrument_form'' n then
        [\<lparr>sf_instrument = column n ''instrument'', sf_interval = the_interval (trim (column n ''interval'')),
          sf_record_type = column n ''record_type'', sf_market_type = column n ''market_type'',
          sf_venue = column n ''venue'', sf_base_asset = column n ''base_asset'',
          sf_quote_asset = column n ''quote_asset'', sf_source_kind = column n ''source_kind'',
          sf_source = column n ''source''\<rparr>]
      else [])"

definition kline_block_ok :: "string \<Rightarrow> string list \<Rightarrow> ast_node \<Rightarrow> bool" where
  "kline_block_ok root_path intervals n \<longleftrightarrow>
     list_all (\<lambda>(a, f). assigned n a f \<noteq> [])
       [(''kline_source_instrument_assignment'', ''instrument''), (''kline_source_market_type_assignment'', ''market_type''),
        (''kline_source_venue_assignment'', ''venue''), (''kline_source_base_asset_assignment'', ''base_asset''),
        (''kline_source_quote_asset_assignment'', ''quote_asset''), (''kline_source_kind_assignment'', ''source_kind'')] \<and>
     kline_root root_path n \<noteq> [] \<and> kline_texts intervals n \<noteq> [] \<and>
     list_all (\<lambda>t. is_interval (trim t)) (kline_texts intervals n) \<and>
     list_all (\<lambda>f. signature_ok (form_signature f) False) (source_rows root_path intervals n)"

text \<open>A node holds what its kind asks for.\<close>

definition source_node_ok :: "string \<Rightarrow> string list \<Rightarrow> ast_node \<Rightarrow> bool" where
  "source_node_ok root_path intervals n \<longleftrightarrow>
     (is_inner ''kline_source_set_block'' n \<longrightarrow> kline_block_ok root_path intervals n) \<and>
     (is_inner ''csv_bootstrap_assignment'' n \<longrightarrow> count_ok 2 (2 ^ 64 - 1) n) \<and>
     (is_inner ''csv_step_abs_tol_assignment'' n \<longrightarrow> float_ok float_greater_zero n) \<and>
     (is_inner ''csv_step_rel_tol_assignment'' n \<longrightarrow> float_ok (\<lambda>x. \<not> float_less_zero x) n) \<and>
     (is_inner ''data_analytics_max_samples_assignment'' n \<longrightarrow> count_ok 1 (2 ^ 63 - 1) n) \<and>
     (is_inner ''data_analytics_max_features_assignment'' n \<longrightarrow> count_ok 1 (2 ^ 63 - 1) n) \<and>
     (is_inner ''data_analytics_mask_epsilon_assignment'' n \<longrightarrow> float_ok (\<lambda>x. \<not> float_less_zero x) n) \<and>
     (is_inner ''data_analytics_standardize_epsilon_assignment'' n \<longrightarrow> float_ok float_greater_zero n) \<and>
     (is_inner ''instrument_form'' n \<longrightarrow> is_interval (trim (column n ''interval'')) \<and>
        list_all (\<lambda>f. signature_ok (form_signature f) False) (source_rows root_path intervals n))"

text \<open>The root and the intervals of the only block of defaults, if there is one\<close>

definition source_defaults :: "ast_node \<Rightarrow> string \<Rightarrow> string list \<Rightarrow> bool" where
  "source_defaults t root_path intervals \<longleftrightarrow>
     (case collect_intermediary_nodes_by_hash (source_hash ''source_defaults_block'') t [] of
        [] \<Rightarrow> root_path = [] \<and> intervals = []
      | [b] \<Rightarrow> root_path \<noteq> [] \<and> root_path = assigned b ''default_source_root_assignment'' ''source_root_path'' \<and>
          (case as_intermediary (find_direct_child_by_hash (Some b) (source_hash ''default_kline_intervals_assignment'')) of
             None \<Rightarrow> intervals = []
           | Some a \<Rightarrow> intervals \<noteq> [] \<and> intervals = collect_node_texts_by_hash (source_hash ''interval'') a [])
      | _ \<Rightarrow> False)"

section \<open>The specification of the trees\<close>

definition spec_of_trees :: "string \<Rightarrow> string list \<Rightarrow> ast_node list \<Rightarrow> ast_node list \<Rightarrow> ast_node list \<Rightarrow> source_spec" where
  "spec_of_trees root_path intervals source_nodes channel_nodes graph_nodes =
     \<lparr>ss_source_forms = concat (map (source_rows root_path intervals) source_nodes),
      ss_channel_forms = concat (map channel_rows channel_nodes),
      ss_graph_node_forms = map (\<lambda>n. \<lparr>gn_node_id = column n ''node_id'', gn_node_kind = column n ''node_kind'',
          gn_active = column n ''active''\<rparr>)
        (filter (is_inner ''graph_node_form'') (behind_last (is_inner ''graph_node_table'') graph_nodes)),
      ss_graph_edge_forms = map (\<lambda>n. \<lparr>ge_edge_id = column n ''edge_id'', ge_base_node = column n ''base_node'',
          ge_quote_node = column n ''quote_node'', ge_source_instrument = column n ''source_instrument'',
          ge_active = column n ''active''\<rparr>)
        (filter (is_inner ''graph_edge_form'') (behind_last (is_inner ''graph_edge_table'') graph_nodes)),
      ss_graph_edge_resolution_policy = last_value ''explicit_only'' ''edge_resolution_policy_assignment''
        (\<lambda>n. column n ''edge_resolution_policy'') graph_nodes,
      ss_graph_edge_source_kind = last_value ''real'' ''edge_source_kind_assignment''
        (\<lambda>n. column n ''edge_source_kind'') graph_nodes,
      ss_graph_fetch_mode = last_value ''serial'' ''fetch_mode_assignment'' (\<lambda>n. column n ''fetch_mode'') graph_nodes,
      ss_graph_max_fetch_workers = last_value ''0'' ''max_fetch_workers_assignment''
        (\<lambda>n. column n ''policy_unsigned_int'') graph_nodes,
      ss_graph_parallel_min_work_items = last_value ''16'' ''parallel_min_work_items_assignment''
        (\<lambda>n. column n ''policy_unsigned_int'') graph_nodes,
      ss_csv_bootstrap_deltas = last_value 64 ''csv_bootstrap_assignment'' count_of source_nodes,
      ss_csv_step_abs_tol = last_value (Finite (round_float long_double_format (1 / 10 ^ 8)))
        ''csv_step_abs_tol_assignment'' float_of_node source_nodes,
      ss_csv_step_rel_tol = last_value (Finite (round_float long_double_format (1 / 10 ^ 10)))
        ''csv_step_rel_tol_assignment'' float_of_node source_nodes,
      ss_data_analytics_policy =
        \<lparr>ap_declared = list_ex (is_inner ''data_analytics_policy_block'') source_nodes,
         ap_max_samples = last_value 0 ''data_analytics_max_samples_assignment'' (int \<circ> count_of) source_nodes,
         ap_max_features = last_value 0 ''data_analytics_max_features_assignment'' (int \<circ> count_of) source_nodes,
         ap_mask_epsilon = last_value (Finite 0) ''data_analytics_mask_epsilon_assignment'' float_of_node source_nodes,
         ap_standardize_epsilon = last_value (Finite 0) ''data_analytics_standardize_epsilon_assignment''
           float_of_node source_nodes\<rparr>\<rparr>"

text \<open>The tree of an instruction in the grammar of a text\<close>

definition tree_of :: "nat \<Rightarrow> string \<Rightarrow> string \<Rightarrow> ast_node \<Rightarrow> bool" where
  "tree_of fuel grammar_text instruction t \<longleftrightarrow>
     (\<exists>d q. make_instruction_decoder grammar_text = Inr d \<and> parse_instruction fuel instruction d = Some (Inr (t, q)))"

text \<open>A graph is optional: without its two texts there are no nodes.\<close>

definition graph_nodes_of :: "nat \<Rightarrow> string \<Rightarrow> string \<Rightarrow> ast_node list \<Rightarrow> bool" where
  "graph_nodes_of fuel grammar_text instruction ns \<longleftrightarrow>
     (if has_non_ws grammar_text \<or> has_non_ws instruction
      then has_non_ws grammar_text \<and> has_non_ws instruction \<and> (\<exists>t. tree_of fuel grammar_text instruction t \<and> ns = tree_nodes t)
      else ns = [])"

section \<open>The decoders read this\<close>

lemma child_text_column: "child_text (Some n) (source_hash token) = column n token"
  by (simp add: child_text_def column_def)

lemma child_text_None: "child_text None h = []"
  by (simp add: child_text_def find_direct_child_by_hash_def flatten_node_text_def trim_spaces_tabs_def)

lemma required_assigned [res_simps]:
  "required_assignment_value n (source_hash a) (source_hash f) l = Inr v \<longleftrightarrow> v = assigned n a f \<and> v \<noteq> []"
  by (auto simp: required_assignment_value_def assigned_def Let_def child_text_column child_text_None split: option.splits)

lemma optional_assigned: "optional_assignment_value n (source_hash a) (source_hash f) = assigned n a f"
  by (simp add: optional_assignment_value_def assigned_def child_text_column split: option.split)

lemma collect_interval_texts:
  "collect_texts (source_hash ''interval'') (as_intermediary (find_direct_child_by_hash (Some n) (source_hash a))) = interval_texts n a"
  by (simp add: collect_texts_def interval_texts_def)

lemma interval_or_error_the: "interval_or_error v l = Inr i \<longleftrightarrow> is_interval v \<and> i = the_interval v"
proof -
  have "interval_or_error v l = Inr i \<longleftrightarrow> interval_from_string v = Inr i"
    by (simp add: interval_or_error_iff interval_from_string_iff)
  then show ?thesis by (auto simp: interval_from_string_def is_interval_def the_interval_def split: option.splits)
qed

lemma map_res_function:
  assumes "\<And>x y. f x = Inr y \<longleftrightarrow> P x \<and> y = g x"
  shows "map_res f xs = Inr ys \<longleftrightarrow> list_all P xs \<and> ys = map g xs"
  by (induction xs arbitrary: ys) (auto simp: rbind_Inr_iff assms simp del: map_res_Inr_iff)

lemma channel_interval_rows:
  "map_res (\<lambda>interval. rbind (channel_interval_strict interval l) (\<lambda>i. Inr (base\<lparr>cf_interval := i\<rparr>))) xs = Inr ys \<longleftrightarrow>
    list_all (\<lambda>t. is_interval (trim_spaces_tabs t)) xs \<and>
    ys = map (\<lambda>t. base\<lparr>cf_interval := the_interval (trim_spaces_tabs t)\<rparr>) xs"
  by (rule map_res_function) (auto simp: rbind_Inr_iff channel_interval_strict_def interval_or_error_the)

text \<open>The kinds of nodes differ, as the hashes of their tokens do.\<close>

definition block_tokens :: "string list" where
  "block_tokens = [''channel_table'', ''channel_set_block'', ''channel_form'', ''instrument_table'',
     ''data_analytics_policy_block'', ''kline_source_set_block'', ''csv_bootstrap_assignment'',
     ''csv_step_abs_tol_assignment'', ''csv_step_rel_tol_assignment'', ''data_analytics_max_samples_assignment'',
     ''data_analytics_max_features_assignment'', ''data_analytics_mask_epsilon_assignment'',
     ''data_analytics_standardize_epsilon_assignment'', ''instrument_form'']"

lemma block_hashes_distinct: "distinct (map source_hash block_tokens)"
proof -
  have "list_all (\<lambda>k. list_ex ((=) k) source_tokens) block_tokens" "distinct block_tokens" by code_simp+
  then have "set block_tokens \<subseteq> set source_tokens" "distinct block_tokens"
    by (auto simp: list_all_iff list_ex_iff)
  then show ?thesis
    using source_hashes_low by (auto simp: distinct_map intro: inj_on_subset)
qed

lemma block_hashes_distinct_rev: "distinct (map source_hash (rev block_tokens))"
  using block_hashes_distinct by (simp only: rev_map [symmetric] distinct_rev)

lemmas block_hashes_differ =
  block_hashes_distinct [unfolded block_tokens_def list.map distinct.simps list.set insert_iff empty_iff de_Morgan_disj not_False_eq_True simp_thms]
  block_hashes_distinct_rev [unfolded block_tokens_def rev.simps append.simps list.map distinct.simps list.set insert_iff empty_iff de_Morgan_disj not_False_eq_True simp_thms]

lemma append_channel_set_rows:
  "append_channel_set n out = Inr out' \<longleftrightarrow>
    (\<exists>b. channel_set_base n = Inr b \<and> interval_texts n ''channel_set_intervals_assignment'' \<noteq> [] \<and>
      list_all (\<lambda>t. is_interval (trim_spaces_tabs t)) (interval_texts n ''channel_set_intervals_assignment'') \<and>
      out' = out\<lparr>ss_channel_forms := ss_channel_forms out @ map (\<lambda>t. b\<lparr>cf_interval := the_interval (trim_spaces_tabs t)\<rparr>)
        (interval_texts n ''channel_set_intervals_assignment'')\<rparr>)"
  by (auto simp: append_channel_set_def Let_def rbind_Inr_iff collect_interval_texts channel_interval_rows
      simp del: map_res_Inr_iff)

lemma append_channel_set_iff:
  assumes "is_inner ''channel_set_block'' n"
  shows "append_channel_set n out = Inr out' \<longleftrightarrow>
    channel_node_ok n \<and> out' = out\<lparr>ss_channel_forms := ss_channel_forms out @ channel_rows n\<rparr>"
  using assms
  by (auto simp: append_channel_set_rows channel_set_base_def channel_node_ok_def channel_rows_def rbind_Inr_iff
      required_assigned)

lemma visit_channel_iff:
  "visit_channel_node n out = Inr out' \<longleftrightarrow>
    channel_node_ok n \<and> out' = out\<lparr>ss_channel_forms := ss_channel_forms out @ channel_rows n\<rparr>"
proof (cases n)
  case (IntermediaryNode a cs)
  have inner: "is_inner k n \<longleftrightarrow> node_hash n = source_hash k" for k by (simp add: IntermediaryNode)
  consider "node_hash n = source_hash ''channel_table''" | "node_hash n = source_hash ''channel_set_block''"
    | "node_hash n = source_hash ''channel_form''"
    | "node_hash n \<noteq> source_hash ''channel_table''" "node_hash n \<noteq> source_hash ''channel_set_block''"
      "node_hash n \<noteq> source_hash ''channel_form''" by blast
  then have "(let h = node_hash n in
         if h = source_hash ''channel_table'' then Inr out
         else if h = source_hash ''channel_set_block'' then append_channel_set n out
         else if h = source_hash ''channel_form'' then
           rbind (decode_channel_form n) (\<lambda>f. Inr (out\<lparr>ss_channel_forms := ss_channel_forms out @ [f]\<rparr>))
         else Inr out) = Inr out' \<longleftrightarrow>
    channel_node_ok n \<and> out' = out\<lparr>ss_channel_forms := ss_channel_forms out @ channel_rows n\<rparr>"
  proof cases
    case 2
    then have "is_inner ''channel_set_block'' n" by (simp add: inner)
    from append_channel_set_iff [OF this] 2 block_hashes_differ show ?thesis by (simp add: Let_def)
  next
    case 3
    with block_hashes_differ have i: "is_inner ''channel_form'' n" "\<not> is_inner ''channel_set_block'' n"
      "node_hash n \<noteq> source_hash ''channel_table''" "node_hash n \<noteq> source_hash ''channel_set_block''"
      by (simp_all add: inner)
    then show ?thesis
      by (auto simp: 3 Let_def decode_channel_form_def channel_node_ok_def channel_rows_def rbind_Inr_iff child_text_column
          channel_interval_strict_def interval_or_error_the)
  qed (auto simp: block_hashes_differ inner channel_node_ok_def channel_rows_def Let_def)
  moreover have "visit_channel_node n out = (let h = node_hash n in
         if h = source_hash ''channel_table'' then Inr out
         else if h = source_hash ''channel_set_block'' then append_channel_set n out
         else if h = source_hash ''channel_form'' then
           rbind (decode_channel_form n) (\<lambda>f. Inr (out\<lparr>ss_channel_forms := ss_channel_forms out @ [f]\<rparr>))
         else Inr out)"
    by (simp only: visit_channel_node_def IntermediaryNode ast_node.case)
  ultimately show ?thesis by (simp only:)
qed (auto simp: visit_channel_node_def channel_node_ok_def channel_rows_def)

lemma visit_channels_iff:
  "fold_res visit_channel_node ns out = Inr out' \<longleftrightarrow> list_all channel_node_ok ns \<and>
    out' = out\<lparr>ss_channel_forms := ss_channel_forms out @ concat (map channel_rows ns)\<rparr>"
  by (induction ns arbitrary: out) (auto simp: res_simps visit_channel_iff)

section \<open>The registry\<close>

lemma strip_trailing_slashes_eq: "strip_trailing_slashes s = without_slashes s"
proof (induction s rule: strip_trailing_slashes.induct)
  case (1 s)
  show ?case
  proof (cases "length s > 1 \<and> last s = CHR ''/''")
    case True
    then have s: "s = butlast s @ ''/''" "butlast s \<noteq> []" by (cases s rule: rev_cases; auto)+
    have "without_slashes (butlast s @ ''/'') = without_slashes (butlast s)"
      using s(2) by (simp add: without_slashes_def Let_def)
    with s(1) 1 True show ?thesis by (subst strip_trailing_slashes.simps) simp
  next
    case False
    then have "without_slashes s = s"
      by (cases s rule: rev_cases) (auto simp: without_slashes_def Let_def)
    then show ?thesis by (subst strip_trailing_slashes.simps) (simp only: False if_False)
  qed
qed

lemma from_chars_u64_all:
  "from_chars_u64 v = Some (n, []) \<longleftrightarrow> v \<noteq> [] \<and> list_all is_digit v \<and> n = int (digits_value 0 v) \<and> digits_value 0 v < 2 ^ 64"
proof (cases "list_all is_digit v")
  case True
  then have v: "takeWhile is_digit v = v" "dropWhile is_digit v = []" by (simp_all add: list_all_iff)
  show ?thesis unfolding from_chars_u64_def Let_def v using True by auto
next
  case False
  then have "dropWhile is_digit v \<noteq> []" by (simp add: list_all_iff)
  with False show ?thesis by (simp add: from_chars_u64_def Let_def)
qed

lemma u64_policy_iff: "u64_policy_value n l = Inr v \<longleftrightarrow> count_ok 0 (2 ^ 64 - 1) n \<and> v = int (count_of n)"
proof -
  have "parse_u64_strict t l = Inr v \<longleftrightarrow> trim t \<noteq> [] \<and> from_chars_u64 (trim t) = Some (v, [])" for t
  proof (cases "from_chars_u64 (trim t)")
    case (Some p)
    then show ?thesis by (cases p; cases "snd p") (auto simp: parse_u64_strict_def Let_def)
  qed (simp add: parse_u64_strict_def Let_def)
  moreover have "x \<le> 2 ^ 64 - 1 \<longleftrightarrow> x < 2 ^ 64" for x :: nat by auto
  ultimately show ?thesis
    unfolding u64_policy_value_def from_chars_u64_all count_ok_def Let_def count_of_def number_text_def by (simp only: le0 simp_thms) blast
qed

lemma count_ok_bounds: "count_ok 0 (2 ^ 64 - 1) n \<and> low \<le> count_of n \<and> count_of n \<le> high \<longleftrightarrow> count_ok low high n"
  if "high \<le> 2 ^ 64 - 1"
  using that by (auto simp: count_ok_def Let_def)

lemma checked_count_iff: "checked_count n l = Inr v \<longleftrightarrow> count_ok 1 (2 ^ 63 - 1) n \<and> v = int (count_of n)"
proof -
  have "int (count_of n) \<le> int64_max \<longleftrightarrow> count_of n \<le> 2 ^ 63 - 1" by (auto simp: int64_defs)
  then have "checked_count n l = Inr v \<longleftrightarrow>
      (count_ok 0 (2 ^ 64 - 1) n \<and> 1 \<le> count_of n \<and> count_of n \<le> 2 ^ 63 - 1) \<and> v = int (count_of n)"
    by (auto simp: checked_count_def rbind_Inr_iff u64_policy_iff not_less)
  then show ?thesis by (subst (asm) count_ok_bounds) simp_all
qed

lemma float_policy_iff: "float_policy_value n l = Inr x \<longleftrightarrow> float_ok (\<lambda>_. True) n \<and> x = float_of_node n"
  by (auto simp: float_policy_value_def parse_long_double_strict_def float_ok_def float_of_node_def number_text_def
      Let_def split: option.splits)

lemma kline_row_iff:
  "kline_row base dir t = Inr f \<longleftrightarrow> is_interval (trim t) \<and>
    f = base\<lparr>sf_interval := the_interval (trim t), sf_source := without_slashes (trim dir) @ ''/'' @ sf_instrument base @
      ''/'' @ t @ ''/'' @ sf_instrument base @ ''-'' @ t @ ''-all-years.csv''\<rparr>"
  by (auto simp: kline_row_def rbind_Inr_iff source_interval_strict_def interval_or_error_the make_kline_source_path_def
      strip_trailing_slashes_eq)

lemma check_signature_iff: "check_signature f l = Inr u \<longleftrightarrow> signature_ok (form_signature f) False"
  using validate_iff [of "form_signature f" False l]
  by (auto simp: check_signature_def split: sum.splits)

lemma append_kline_rows:
  "append_kline_source_set n dir intervals out = Inr out' \<longleftrightarrow>
    (\<exists>b. kline_set_base n = Inr b \<and> kline_root dir n \<noteq> [] \<and> signature_ok (form_signature b) False \<and>
      kline_texts intervals n \<noteq> [] \<and> list_all (\<lambda>t. is_interval (trim t)) (kline_texts intervals n) \<and>
      out' = out\<lparr>ss_source_forms := ss_source_forms out @ map (\<lambda>t. b\<lparr>sf_interval := the_interval (trim t),
        sf_source := without_slashes (trim (kline_root dir n)) @ ''/'' @ sf_instrument b @ ''/'' @ t @ ''/'' @
          sf_instrument b @ ''-'' @ t @ ''-all-years.csv''\<rparr>) (kline_texts intervals n)\<rparr>)"
  unfolding append_kline_source_set_def Let_def optional_assigned collect_interval_texts
    kline_root_def [unfolded Let_def, symmetric] kline_texts_def [unfolded Let_def, symmetric]
  by (auto simp: rbind_Inr_iff check_signature_iff map_res_function [OF kline_row_iff] simp del: map_res_Inr_iff)

lemma append_kline_iff:
  assumes "is_inner ''kline_source_set_block'' n"
  shows "append_kline_source_set n dir intervals out = Inr out' \<longleftrightarrow> kline_block_ok dir intervals n \<and>
    out' = out\<lparr>ss_source_forms := ss_source_forms out @ source_rows dir intervals n\<rparr>"
proof -
  define b where "b = \<lparr>sf_instrument = assigned n ''kline_source_instrument_assignment'' ''instrument'',
    sf_interval = utility_constant, sf_record_type = ''kline'',
    sf_market_type = assigned n ''kline_source_market_type_assignment'' ''market_type'',
    sf_venue = assigned n ''kline_source_venue_assignment'' ''venue'',
    sf_base_asset = assigned n ''kline_source_base_asset_assignment'' ''base_asset'',
    sf_quote_asset = assigned n ''kline_source_quote_asset_assignment'' ''quote_asset'',
    sf_source_kind = assigned n ''kline_source_kind_assignment'' ''source_kind'', sf_source = []\<rparr>"
  define rows where "rows = map (\<lambda>t. b\<lparr>sf_interval := the_interval (trim t),
        sf_source := without_slashes (trim (kline_root dir n)) @ ''/'' @ sf_instrument b @ ''/'' @ t @ ''/'' @
          sf_instrument b @ ''-'' @ t @ ''-all-years.csv''\<rparr>) (kline_texts intervals n)"
  have rows: "source_rows dir intervals n = rows"
    using assms by (simp add: source_rows_def rows_def b_def Let_def)
  have base: "kline_set_base n = Inr c \<longleftrightarrow> c = b \<and> list_all (\<lambda>(a, f). assigned n a f \<noteq> [])
       [(''kline_source_instrument_assignment'', ''instrument''), (''kline_source_market_type_assignment'', ''market_type''),
        (''kline_source_venue_assignment'', ''venue''), (''kline_source_base_asset_assignment'', ''base_asset''),
        (''kline_source_quote_asset_assignment'', ''quote_asset''), (''kline_source_kind_assignment'', ''source_kind'')]" for c
    by (auto simp: kline_set_base_def b_def rbind_Inr_iff required_assigned default_source_form_def)
  have "list_all (\<lambda>f. signature_ok (form_signature f) False) rows \<longleftrightarrow> signature_ok (form_signature b) False"
    if "kline_texts intervals n \<noteq> []"
    using that by (cases "kline_texts intervals n") (auto simp: rows_def form_signature_def list_all_iff)
  then show ?thesis
    unfolding append_kline_rows base kline_block_ok_def rows by (auto simp: rows_def)
qed

lemma decode_source_form_iff:
  "decode_source_form n = Inr f \<longleftrightarrow> is_interval (trim (column n ''interval'')) \<and>
     f = \<lparr>sf_instrument = column n ''instrument'', sf_interval = the_interval (trim (column n ''interval'')),
          sf_record_type = column n ''record_type'', sf_market_type = column n ''market_type'',
          sf_venue = column n ''venue'', sf_base_asset = column n ''base_asset'',
          sf_quote_asset = column n ''quote_asset'', sf_source_kind = column n ''source_kind'',
          sf_source = column n ''source''\<rparr> \<and> signature_ok (form_signature f) False"
proof -
  have "signature_ok (form_signature (g\<lparr>sf_interval := i\<rparr>)) False = signature_ok (form_signature g) False" for g i
    by (simp add: form_signature_def)
  then show ?thesis
    by (auto simp: decode_source_form_def Let_def rbind_Inr_iff check_signature_iff source_interval_strict_def
        interval_or_error_the child_text_column default_source_form_def form_signature_def)
qed

definition registry_state :: "string \<Rightarrow> string list \<Rightarrow> ast_node list \<Rightarrow> source_registry_decode_context" where
  "registry_state dir intervals ns =
     \<lparr>rc_spec = spec_of_trees dir intervals ns [] [], rc_default_source_root = dir, rc_default_kline_intervals = intervals\<rparr>"

definition registry_tokens :: "string list" where
  "registry_tokens = [''instrument_table'', ''data_analytics_policy_block'', ''kline_source_set_block'',
     ''csv_bootstrap_assignment'', ''csv_step_abs_tol_assignment'', ''csv_step_rel_tol_assignment'',
     ''data_analytics_max_samples_assignment'', ''data_analytics_max_features_assignment'',
     ''data_analytics_mask_epsilon_assignment'', ''data_analytics_standardize_epsilon_assignment'', ''instrument_form'']"

lemma float_ok_split: "float_ok P n \<longleftrightarrow> float_ok (\<lambda>_. True) n \<and> P (float_of_node n)"
  by (auto simp: float_ok_def)

lemma count_ok_split: "count_ok 2 (2 ^ 64 - 1) n \<longleftrightarrow> count_ok 0 (2 ^ 64 - 1) n \<and> \<not> int (count_of n) < 2"
  by (auto simp: count_ok_def Let_def)

lemma visit_source_inner:
  assumes "n = IntermediaryNode a cs"
  shows "visit_source_intermediary n (registry_state dir intervals ns) = Inr ctx \<longleftrightarrow>
    source_node_ok dir intervals n \<and> ctx = registry_state dir intervals (ns @ [n])"
proof -
  have inner: "is_inner k n \<longleftrightarrow> node_hash n = source_hash k" for k by (simp add: assms)
  note defs = visit_source_intermediary_def registry_state_def spec_of_trees_def Let_def
  show ?thesis
  proof (cases "node_hash n \<in> source_hash ` set registry_tokens")
    case True
    then consider "node_hash n = source_hash ''instrument_table''" | "node_hash n = source_hash ''data_analytics_policy_block''"
      | "node_hash n = source_hash ''kline_source_set_block''" | "node_hash n = source_hash ''csv_bootstrap_assignment''"
      | "node_hash n = source_hash ''csv_step_abs_tol_assignment''" | "node_hash n = source_hash ''csv_step_rel_tol_assignment''"
      | "node_hash n = source_hash ''data_analytics_max_samples_assignment''"
      | "node_hash n = source_hash ''data_analytics_max_features_assignment''"
      | "node_hash n = source_hash ''data_analytics_mask_epsilon_assignment''"
      | "node_hash n = source_hash ''data_analytics_standardize_epsilon_assignment''"
      | "node_hash n = source_hash ''instrument_form''"
      by (auto simp: registry_tokens_def)
    then show ?thesis
    proof cases
      case 3
      then have i: "is_inner ''kline_source_set_block'' n" by (simp add: inner)
      show ?thesis
        by (auto simp: 3 block_hashes_differ defs rbind_Inr_iff append_kline_iff [OF i] source_node_ok_def inner)
    next
      case 11
      then show ?thesis
        by (auto simp: block_hashes_differ defs rbind_Inr_iff decode_source_form_iff source_node_ok_def inner source_rows_def)
    qed (auto simp: block_hashes_differ defs rbind_Inr_iff source_node_ok_def inner source_rows_def
        float_policy_iff checked_count_iff u64_policy_iff float_ok_split [of float_greater_zero]
        float_ok_split [of "\<lambda>x. \<not> float_less_zero x"] count_ok_split [simplified])
  next
    case False
    then show ?thesis
      by (auto simp: registry_tokens_def defs source_node_ok_def inner source_rows_def)
  qed
qed

lemma visit_source_step:
  "visit_source_node n (registry_state dir intervals ns) = Inr ctx \<longleftrightarrow>
    source_node_ok dir intervals n \<and> ctx = registry_state dir intervals (ns @ [n])"
proof (cases n)
  case (IntermediaryNode a cs)
  have "visit_source_node n (registry_state dir intervals ns) = visit_source_intermediary n (registry_state dir intervals ns)"
    by (simp only: visit_source_node_def IntermediaryNode ast_node.case)
  with visit_source_inner [OF IntermediaryNode] show ?thesis by (simp only:)
qed (auto simp: visit_source_node_def source_node_ok_def registry_state_def spec_of_trees_def source_rows_def)

lemma visit_sources_iff:
  "fold_res visit_source_node ns (registry_state dir intervals []) = Inr ctx \<longleftrightarrow>
    list_all (source_node_ok dir intervals) ns \<and> ctx = registry_state dir intervals ns"
proof (induction ns arbitrary: ctx rule: rev_induct)
  case (snoc n ns)
  then show ?case by (auto simp: fold_res_append rbind_Inr_iff visit_source_step)
qed auto

lemma registry_defaults_iff:
  "(\<exists>b. registry_source_defaults_block t = Inr b \<and> registry_default_source_root b = Inr dir \<and>
      registry_default_kline_intervals b = Inr intervals) \<longleftrightarrow> source_defaults t dir intervals"
  by (auto simp: registry_source_defaults_block_def registry_default_source_root_def registry_default_kline_intervals_def
      source_defaults_def required_assigned collect_texts_def Let_def split: list.splits option.splits)

lemma default_spec_of_trees: "default_source_spec = spec_of_trees dir intervals [] [] []"
  by (simp add: default_source_spec_def spec_of_trees_def default_analytics_policy_def)

lemma decode_registry_tree_iff:
  "decode_registry_tree t = Inr s \<longleftrightarrow> (\<exists>dir intervals. source_defaults t dir intervals \<and>
    list_all (source_node_ok dir intervals) (tree_nodes t) \<and> s = spec_of_trees dir intervals (tree_nodes t) [] [])"
proof -
  have "accept_throwing visit_source_node t \<lparr>rc_spec = default_source_spec, rc_default_source_root = dir,
      rc_default_kline_intervals = intervals\<rparr> = Inr ctx \<longleftrightarrow>
    list_all (source_node_ok dir intervals) (tree_nodes t) \<and> ctx = registry_state dir intervals (tree_nodes t)"
    for dir intervals ctx
    using visit_sources_iff [of "tree_nodes t" dir intervals ctx]
    by (simp add: accept_throwing_fold registry_state_def default_spec_of_trees [of dir intervals])
  then show ?thesis
    unfolding decode_registry_tree_def registry_defaults_iff [symmetric]
    by (auto simp: rbind_Inr_iff registry_state_def)
qed

lemma graph_spec_contents:
  "decode_graph_part fuel gg gi = Some (Inr g) \<longleftrightarrow>
    (\<exists>ns. graph_nodes_of fuel gg gi ns \<and> g = graph_spec_of_nodes ns)"
proof -
  have empty: "default_graph_topology_spec = graph_spec_of_nodes []"
    using visit_graph_fold [of "[]"] by simp
  have "result_of_run (decode_graph_topology fuel gi d) = Some (Inr g) \<longleftrightarrow>
      (\<exists>t q. parse_instruction fuel gi d = Some (Inr (t, q)) \<and> g = graph_spec_of_nodes (tree_nodes t))" for d
    by (auto simp: decode_graph_topology_correct)
  then show ?thesis
    by (auto simp: decode_graph_part_def graph_nodes_of_def tree_of_def empty)
qed

lemma last_text_value: "last_text d a c ns = last_value d a (\<lambda>n. column n c) ns"
  by (simp add: last_text_def last_value_def child_text_column split: option.split)

lemma merged_spec_of_trees:
  "merge_source_spec (make_source_universe_from_compat (spec_of_trees dir intervals sn [] []))
     (default_source_spec\<lparr>ss_channel_forms := concat (map channel_rows cn)\<rparr>) (graph_spec_of_nodes gn) =
   spec_of_trees dir intervals sn cn gn"
  by (simp add: merge_source_spec_def make_source_universe_from_compat_def spec_of_trees_def graph_spec_of_nodes_def
      decode_node_form_def [abs_def] decode_edge_form_def [abs_def] last_text_value child_text_column)

section \<open>The decode property\<close>

text \<open>
  C34: what the split DSL means. The decode answers with a specification exactly when the four mandatory texts
  hold more than blanks, the three instructions parse, every node of the sources and the channels holds what
  its kind asks for, and the specification meets the contracts of the sources, the channels and the graph.
  The specification is then the one that is read off the trees: the rows of the sources and the channels
  in the order of their nodes, where a block gives one row for every interval, in the fields of that block; the
  rows of the graph behind the last table of their kind; and of every other value the last that is assigned,
  or its default.
\<close>

theorem decode_source_spec_correct:
  "decode_source_spec_from_split_dsl fuel sg si cg ci gg gi = Some (Inr s) \<longleftrightarrow>
    list_all has_non_ws [sg, si, cg, ci] \<and>
    (\<exists>ts tc gn dir intervals. tree_of fuel sg si ts \<and> tree_of fuel cg ci tc \<and> graph_nodes_of fuel gg gi gn \<and>
      source_defaults ts dir intervals \<and> list_all (source_node_ok dir intervals) (tree_nodes ts) \<and>
      list_all channel_node_ok (tree_nodes tc) \<and>
      s = spec_of_trees dir intervals (tree_nodes ts) (tree_nodes tc) gn) \<and>
    universe_ok (make_source_universe_from_compat s) \<and> channel_contract_ok s \<and> graph_contract_ok s"
proof -
  have universe: "decode_source_universe_from_split_dsl fuel sg si = Some (Inr u) \<longleftrightarrow> has_non_ws sg \<and> has_non_ws si \<and>
      (\<exists>ts dir intervals. tree_of fuel sg si ts \<and> source_defaults ts dir intervals \<and>
        list_all (source_node_ok dir intervals) (tree_nodes ts) \<and>
        u = make_source_universe_from_compat (spec_of_trees dir intervals (tree_nodes ts) [] [])) \<and> universe_ok u" for u
    by (auto simp: decode_source_universe_from_split_dsl_def Let_def validate_universe_iff tree_of_def
        decode_source_registry_def decode_registry_tree_iff) metis+
  have channels: "result_of_run (decode_retrieval_channels fuel ci d) = Some (Inr c) \<longleftrightarrow>
      (\<exists>tc q. parse_instruction fuel ci d = Some (Inr (tc, q)) \<and> list_all channel_node_ok (tree_nodes tc) \<and>
        c = default_source_spec\<lparr>ss_channel_forms := concat (map channel_rows (tree_nodes tc))\<rparr>)" for d c
    by (auto simp: decode_retrieval_channels_def accept_throwing_fold visit_channels_iff default_source_spec_def)
  have "make_source_universe_from_compat (merge_source_spec u c g) = u" for u c g
    by (simp add: merge_source_spec_def make_source_universe_from_compat_def)
  note sources_kept = this
  have "decode_source_spec_from_split_dsl fuel sg si cg ci gg gi = Some (Inr s) \<longleftrightarrow>
    list_all has_non_ws [sg, si, cg, ci] \<and>
    (\<exists>d u c g. make_instruction_decoder cg = Inr d \<and>
      decode_source_universe_from_split_dsl fuel sg si = Some (Inr u) \<and>
      result_of_run (decode_retrieval_channels fuel ci d) = Some (Inr c) \<and>
      decode_graph_part fuel gg gi = Some (Inr g) \<and>
      s = merge_source_spec u c g \<and> channel_contract_ok s \<and> graph_contract_ok s)"
    by (auto simp: decode_source_spec_from_split_dsl_def Let_def validate_channels_iff validate_graph_iff)
  also have "\<dots> \<longleftrightarrow> list_all has_non_ws [sg, si, cg, ci] \<and>
    (\<exists>ts tc gn dir intervals. tree_of fuel sg si ts \<and> tree_of fuel cg ci tc \<and> graph_nodes_of fuel gg gi gn \<and>
      source_defaults ts dir intervals \<and> list_all (source_node_ok dir intervals) (tree_nodes ts) \<and>
      list_all channel_node_ok (tree_nodes tc) \<and>
      s = merge_source_spec (make_source_universe_from_compat (spec_of_trees dir intervals (tree_nodes ts) [] []))
        (default_source_spec\<lparr>ss_channel_forms := concat (map channel_rows (tree_nodes tc))\<rparr>) (graph_spec_of_nodes gn)) \<and>
    universe_ok (make_source_universe_from_compat s) \<and> channel_contract_ok s \<and> graph_contract_ok s"
    unfolding universe channels graph_spec_contents tree_of_def [of fuel cg ci] by (auto simp: sources_kept) blast+
  finally show ?thesis unfolding merged_spec_of_trees .
qed

end
