(* ===== verification/Spec2Isabelle.thy ===== *)
theory Spec2Isabelle
  imports Source_Report Target_Splits Target_Compile Dock_Binding Json_Extract Runtime_Cache Checkpoint_Closure Source_Content
begin

text \<open>
  A verification library for the core logic of \<open>cuwacunu\<close>: the C++ code under \<open>src/include\<close> and \<open>src/impl\<close>
  that decides what the system computes on, and with which data, before any tensor is touched. The theorems
  show that these decisions are the intended ones: that a held-out range cannot leak into training, that
  what is validated answers every later lookup, that a compiled target is well formed, that a grammar parser returns trees of its grammar.

  \<^bold>\<open>The program.\<close> A run is described by small text files. Each belongs to a language given by a BNF grammar;
  the grammar parser (\<open>piaabo/parse/bnf\<close>) reads the grammar, the instruction parser reads the file by it and
  returns a syntax tree, and a visitor turns the tree into a record: sources, retrieval channels, the graph
  of instruments. Other files are blocks of keys and values (\<open>piaabo/parse/simple_kv_block.h\<close>), among them
  the catalog of source splits. The source contract (\<open>ujcamei/source\<close>) validates what was decoded and
  answers questions on it; the dock (\<open>kikijyeba/protocol/source_dock.h\<close>) resolves the edges of the graph to
  instruments and reports how well that went; the topology (\<open>kikijyeba/topology\<close>, \<open>wikimyei/assembly.h\<close>)
  binds the inputs and outputs of components to each other; the lattice (\<open>hero/lattice_hero\<close>) records which
  anchors were used by which component and refuses targets whose training data overlaps what is
  protected. Canonical texts of all of these are hashed with FNV-1a, to detect that something changed.
  Messages between processes are JSON (\<open>piaabo/parse/json\<close>).

  \<^bold>\<open>Conventions.\<close> A \<open>struct\<close> is a record, an \<open>enum\<close> a datatype, a \<open>std::map\<close> a map or its sorted list of entries,
  an index into a vector a natural number with the bounds check of the code. \<open>int64_t\<close> values are integers
  where the code checks their range and 64-bit words where it relies on wrap-around, hashes and code points
  are words. A function that may throw returns a sum with the exception (\<open>Prelude\<close> names the classes of
  exceptions and keeps their messages); where the recursion is not structural, fuel is an argument and
  \<open>None\<close>, or \<open>Out_Of_Fuel\<close>, says that it did not suffice.

  \<^bold>\<open>Theories.\<close>

  \<^item> \<open>Prelude\<close>: exceptions and results, C characters and decimal numbers, lists with the first repeated key, and
    the locale \<open>keyed_lookup\<close> of collections found by a key, with the lemmas its clients share.
  \<^item> \<open>Simple_Kv\<close> (\<open>simple_kv_block.h\<close>): blocks of keys and values; parsing gives well-formed blocks, and
    printed blocks parse back to themselves.
  \<^item> \<open>Fnv\<close> (the hash functions of \<open>core/utils.h\<close> and its copies): the locale \<open>byte_mixer\<close>, from which a change of
    one byte always changes the hash.
  \<^item> \<open>Source_Splits\<close> (\<open>source_split_catalog.h\<close>): the catalog, its decoding, fractions in exact arithmetic,
    materialization to anchor ranges; ranges are disjoint, in order, inside the source and without overflow.
  \<^item> \<open>Exposure_Intervals\<close>, \<open>Lattice_Split\<close>, \<open>Target_Splits\<close> (\<open>exposure_ledger.h\<close>, \<open>split_policy.h\<close>,
    \<open>lattice_target_evaluator.h\<close>): intervals of anchors and their merging, coverage, forbidden overlaps, the
    policy that binds splits to uses, and the gate that rejects a target whose training range meets a
    protected one.
  \<^item> \<open>Wikimyei_Assembly\<close>, \<open>Dock_Binding\<close> (\<open>assembly.h\<close>, \<open>dock_binding.h\<close>, \<open>node_value_chain.h\<close>): docks of
    components, their validation and canonical texts, the analysis of a binding, the registry.
  \<^item> \<open>Instrument_Signature\<close>, \<open>Market_Graph\<close>, \<open>Graph_Topology\<close> (\<open>instrument_signature.h\<close>, \<open>graph.h\<close>,
    \<open>graph_topology_decoder.cpp\<close>): signatures and their overlap, the graph and its order of nodes, the language
    of graphs.
  \<^item> \<open>Bnf_Types\<close>, \<open>Bnf_Lexer\<close>, \<open>Bnf_Grammar\<close>, \<open>Bnf_Ast\<close>, \<open>Bnf_Instruction\<close>, \<open>Bnf_Typing\<close> (\<open>parse/bnf\<close>): grammars,
    their lexer and parser, syntax trees, the backtracking parser of instructions. \<open>char_source\<close> is the
    contract of the two lexers, \<open>rule_parser\<close> and \<open>typed_rule_parser\<close> those of a parser of rules: a tree
    spells the text that was consumed and is a parse tree of the grammar, with the children the units of an alternative ask for.
  \<^item> \<open>Parse_Utils\<close>, \<open>Floating_Text\<close> (\<open>parse_utils.h\<close>, \<open>strtod\<close> and \<open>std::to_string\<close>): flattening of trees,
    trimming, numbers of the C library.
  \<^item> \<open>Source_Contract\<close>, \<open>Source_Rules\<close>, \<open>Source_Decoders\<close>, \<open>Source_Content\<close> (\<open>contract.cpp\<close>, \<open>runtime/decode.cpp\<close>, the
    decoders of sources and channels): the record of a source specification, its accessors, its validation and
    decoding; after validation no accessor throws. \<open>Source_Content\<close> says what the three instructions mean, field by
    field, without the visitors, and that the decode answers exactly this.
  \<^item> \<open>Source_Dock\<close>, \<open>Union_Find\<close>, \<open>Source_Report\<close> (\<open>source_dock.h\<close>): discovery and resolution of edges, disjoint
    sets behind the locale \<open>disjoint_sets\<close>, the report whose components and cycles are those of the graph.
  \<^item> \<open>Json_Text\<close>, \<open>Json_Parser\<close>, \<open>Json_View\<close>, \<open>Json_Agreement\<close>, \<open>Json_Extract\<close> (\<open>json_parsing.h\<close> and \<open>.cpp\<close>): escapes
    and UTF-8, the parser, the scanners that work on the text, and that they agree: on the texts they accept, up to
    numbers that are no \<open>double\<close>, and on the members an object lists.

  \<^item> \<open>Assignment_Text\<close>, \<open>Runtime_Index\<close>, \<open>Runtime_Cache\<close> (\<open>exposure_ledger.h\<close>): files of assignments, the index of all
    runtime facts with its order, digest, queries and comparison, and its stored form, which survives being
    written and read and is found stale when the files change.
  \<^item> \<open>Checkpoint_Paths\<close>, \<open>Closure_Walk\<close>, \<open>Checkpoint_Closure\<close> (\<open>exposure_ledger.h\<close>): normal forms of paths, the
    locale \<open>closure_walk\<close> of traversals that collect what they see, and the lineage of a checkpoint: complete
    exactly when every ancestor has producers and is bound to its bytes.

  \<^item> \<open>Target_Types\<close>, \<open>Target_Vocabulary\<close>, \<open>Target_Clauses\<close>, \<open>Target_Requirements\<close>, \<open>Target_Decode\<close>,
    \<open>Target_Warnings\<close>, \<open>Target_Lowered\<close> (\<open>lattice_target.h\<close>): the language of targets, which say when a component is
    ready. A block is decoded to a specification (by default protected against leakage), guards and clauses change
    it (a requirement only strengthens it, a warning has one threshold), and the result is validated: what passes is
    \<open>target_ok\<close>.
  \<^item> \<open>Target_Authoring\<close>, \<open>Target_Graph\<close>, \<open>Policy_Gates\<close>, \<open>Target_Text\<close>, \<open>Target_Compile\<close> (\<open>lattice_target.h\<close>): profiles,
    sets and families that are expanded first; the search through the graph of targets for the checkpoint a plan
    starts from; gates that are declared and stay off; canonical texts and fingerprints; and the driver that compiles
    all blocks of a text, whose targets are well formed, distinct and refer only to targets that produce checkpoints.

  Every locale is interpreted on the definitions of the model, in the theory of the component that provides
  them: \<open>keyed_lookup\<close> by the catalog, the policy, the binding, the registry and the grammar, \<open>byte_mixer\<close> by the
  four copies of the hash, \<open>char_source\<close> by the two lexers, \<open>rule_parser\<close> and \<open>typed_rule_parser\<close> by the
  instruction parser at every fuel, \<open>disjoint_sets\<close> by the structure of the report, \<open>closure_walk\<close> by the closure
  of a checkpoint over every index and ledger.

  \<^bold>\<open>Fuel.\<close> The instruction parser takes the depth of the recursion as fuel: a left-recursive grammar makes the
  program recurse forever, and then no fuel suffices, which is a theorem; for
  grammars whose rules can be ranked so that none calls a rule of its rank before a character is consumed,
  \<open>(length + 1) * (ranks + 1)\<close> nested calls suffice. The roots of \<open>dsu_t\<close> are found
  within as many steps as there are nodes. Every value and every member of a JSON text consumes a character, so
  the length of the text and one more is enough. The walk of a checkpoint's lineage marks a key before it
  descends, so the number of input checkpoints in the ledger and two more suffice. Termination of all other loops is by a measure.

  \<^bold>\<open>Not modelled.\<close> Tensors, modules and optimizers of LibTorch (training, representation, inference, policy,
  replay environments), whose content is the floating-point arithmetic of a library that is not part of the
  repository; files, paths, sockets, processes and the RPC transport, with the tool handlers over them (the
  \<open>hero\<close> tools); the user interface; cryptography and databases, which call libraries; logging and printing.
  Of the exposure ledger the parts on intervals, the runtime index and the lineage of checkpoints are
  modelled, of the target evaluator those on splits and leakage; their manifests and reports are text of
  files. Of the language of targets the certificates of proofs and the vocabularies that only describe other
  reports are left out; the text of a \<open>double\<close> in a stream and the orders in which hash maps are iterated are
  parameters (\<open>print_double\<close>, \<open>key_order\<close>, \<open>id_order\<close>), and no theorem assumes anything about them. The canonical text of an exposure fact prints floating-point members through a stream, so it is a
  parameter of the lineage, as is the content of files. Of the configuration decoders the functions that
  look for files are left out.
\<close>

end
